(* ===== verification/Prelude.thy ===== *)
theory Prelude
  imports Main "HOL-Library.List_Lexorder" "HOL-Library.Product_Lexorder"
begin

text \<open>
  Shared vocabulary of the development: Python strings and bytes, exceptions as values, the
  insertion-ordered \<^verbatim>\<open>dict\<close>, splitting and joining on a separator, and a generic transition
  system with its reachable states. Every component theory imports this one.
\<close>

section \<open>Strings, bytes and exceptions\<close>

text \<open>
  A Python \<^verbatim>\<open>str\<close> is a sequence of code points and may hold lone surrogates, so it is a list of
  natural numbers; ordering is the lexicographic order on code points, which is Python's. Literals
  are written \<open>lit ''abc''\<close>. Exception texts that the program only displays are \<open>string\<close>s.
\<close>

type_synonym codepoint = nat
type_synonym pystr = "codepoint list"
type_synonym bytes = "nat list"

definition lit :: "string \<Rightarrow> pystr" where
  "lit s = map of_char s"

datatype py_error =
    PathValidationError string
  | ValueError string
  | TypeError string
  | KeyError
  | NotImplementedError string
  | IllegalTransition
  | AdmissionClosed
  | UnknownWorkflowKind
  | SessionNotFound
  | SessionNotTerminal

text \<open>\<^verbatim>\<open>PathValidationError\<close> is a subclass of \<^verbatim>\<open>ValueError\<close> in the source.\<close>

fun is_value_error :: "py_error \<Rightarrow> bool" where
  "is_value_error (PathValidationError _) = True"
| "is_value_error (ValueError _) = True"
| "is_value_error _ = False"

type_synonym 'a res = "py_error + 'a"

definition bindE :: "'e + 'a \<Rightarrow> ('a \<Rightarrow> 'e + 'b) \<Rightarrow> 'e + 'b" where
  "bindE m f = (case m of Inl e \<Rightarrow> Inl e | Inr a \<Rightarrow> f a)"

definition raise_if :: "bool \<Rightarrow> 'e \<Rightarrow> 'e + unit" where
  "raise_if c e = (if c then Inl e else Inr ())"

fun eachE :: "('a \<Rightarrow> 'e + unit) \<Rightarrow> 'a list \<Rightarrow> 'e + unit" where
  "eachE f [] = Inr ()"
| "eachE f (x # xs) = bindE (f x) (\<lambda>_. eachE f xs)"

fun mapE :: "('a \<Rightarrow> 'e + 'b) \<Rightarrow> 'a list \<Rightarrow> 'e + 'b list" where
  "mapE f [] = Inr []"
| "mapE f (x # xs) = bindE (f x) (\<lambda>y. bindE (mapE f xs) (\<lambda>ys. Inr (y # ys)))"

fun foldE :: "('s \<Rightarrow> 'a \<Rightarrow> 'e + 's) \<Rightarrow> 's \<Rightarrow> 'a list \<Rightarrow> 'e + 's" where
  "foldE f s [] = Inr s"
| "foldE f s (x # xs) = bindE (f s x) (\<lambda>s'. foldE f s' xs)"

fun ok :: "'e + 'a \<Rightarrow> bool" where
  "ok (Inr _) = True"
| "ok (Inl _) = False"

named_theorems result_simps

lemma bindE_simps [simp, result_simps]:
  "bindE (Inl e) f = Inl e"
  "bindE (Inr a) f = f a"
  by (simp_all add: bindE_def)

lemma bindE_eq_Inr [result_simps]:
  "bindE m f = Inr b \<longleftrightarrow> (\<exists>a. m = Inr a \<and> f a = Inr b)"
  by (cases m) auto

lemma bindE_eq_Inl [result_simps]:
  "bindE m f = Inl e \<longleftrightarrow> m = Inl e \<or> (\<exists>a. m = Inr a \<and> f a = Inl e)"
  by (cases m) auto

lemma raise_if_eq_Inr [simp, result_simps]: "raise_if c e = Inr u \<longleftrightarrow> \<not> c"
  by (simp add: raise_if_def)

lemma raise_if_eq_Inl [simp, result_simps]: "raise_if c e = Inl e' \<longleftrightarrow> c \<and> e' = e"
  by (auto simp: raise_if_def)

lemma raise_if_False [simp]: "raise_if False e = Inr ()"
  by (simp add: raise_if_def)

lemma raise_if_True [simp]: "raise_if True e = Inl e"
  by (simp add: raise_if_def)

lemma eachE_eq_Inr [result_simps]:
  "eachE f xs = Inr u \<longleftrightarrow> (\<forall>x \<in> set xs. f x = Inr ())"
  by (induction xs) (auto simp: bindE_eq_Inr)

lemma eachE_eq_Inl:
  "eachE f xs = Inl e \<Longrightarrow> \<exists>x \<in> set xs. f x = Inl e"
  by (induction xs) (auto simp: bindE_eq_Inl)

lemma eachE_cong_set:
  "set xs = set ys \<Longrightarrow> ok (eachE f xs) = ok (eachE f ys)"
  by (cases "eachE f xs"; cases "eachE f ys")
     (metis eachE_eq_Inl eachE_eq_Inr Inl_Inr_False ok.simps)+

lemma mapE_eq_Inr_iff:
  "mapE f xs = Inr ys \<longleftrightarrow> list_all2 (\<lambda>x y. f x = Inr y) xs ys"
  by (induction xs arbitrary: ys) (auto simp: bindE_eq_Inr list_all2_Cons1)

lemma mapE_image: "mapE f xs = Inr ys \<Longrightarrow> Inr ` set ys = f ` set xs"
proof (induction xs arbitrary: ys)
  case (Cons x xs)
  then obtain z zs where "ys = z # zs" "f x = Inr z" "mapE f xs = Inr zs"
    by (auto simp: bindE_eq_Inr)
  with Cons.IH [of zs] show ?case by simp
qed simp

lemma mapE_member:
  assumes "mapE f xs = Inr ys"
  shows "y \<in> set ys \<Longrightarrow> \<exists>x \<in> set xs. f x = Inr y"
    and "x \<in> set xs \<Longrightarrow> \<exists>y \<in> set ys. f x = Inr y"
  using mapE_image [OF assms] by (metis imageE imageI)+

lemma if_Some_eq: "(if c then Some x else None) = Some y \<longleftrightarrow> c \<and> x = y"
  by simp

lemma ok_iff: "ok r \<longleftrightarrow> (\<exists>a. r = Inr a)"
  by (cases r) auto


section \<open>Insertion-ordered dictionaries\<close>

text \<open>
  A Python \<^verbatim>\<open>dict\<close> whose iteration order matters is an association list with distinct keys:
  storing under a present key keeps its place, storing under a new key appends.
\<close>

type_synonym ('k, 'v) dict = "('k \<times> 'v) list"

fun dict_set :: "'k \<Rightarrow> 'v \<Rightarrow> ('k, 'v) dict \<Rightarrow> ('k, 'v) dict" where
  "dict_set k v [] = [(k, v)]"
| "dict_set k v ((k', v') # d) = (if k' = k then (k, v) # d else (k', v') # dict_set k v d)"

definition dict_setdefault :: "'k \<Rightarrow> 'v \<Rightarrow> ('k, 'v) dict \<Rightarrow> ('k, 'v) dict" where
  "dict_setdefault k v d = (case map_of d k of None \<Rightarrow> dict_set k v d | Some _ \<Rightarrow> d)"

definition dict_pop :: "'k \<Rightarrow> ('k, 'v) dict \<Rightarrow> ('k, 'v) dict" where
  "dict_pop k d = filter (\<lambda>kv. fst kv \<noteq> k) d"

text \<open>The laws a client of a dictionary uses.\<close>

locale dictionary =
  fixes get :: "'d \<Rightarrow> 'k \<Rightarrow> 'v option"
    and put :: "'k \<Rightarrow> 'v \<Rightarrow> 'd \<Rightarrow> 'd"
    and pop :: "'k \<Rightarrow> 'd \<Rightarrow> 'd"
    and wf :: "'d \<Rightarrow> bool"
  assumes get_put: "get (put k v d) = (get d)(k \<mapsto> v)"
    and get_pop: "get (pop k d) = (get d)(k := None)"
    and wf_put: "wf d \<Longrightarrow> wf (put k v d)"
    and wf_pop: "wf d \<Longrightarrow> wf (pop k d)"
begin

lemma dom_put: "dom (get (put k v d)) = insert k (dom (get d))"
  by (simp add: get_put)

lemma dom_pop: "dom (get (pop k d)) = dom (get d) - {k}"
  by (simp add: get_pop)

lemma get_foldl_put:
  "get (foldl (\<lambda>d x. put (f x) (g x) d) d xs) k = Some v \<Longrightarrow>
     get d k = Some v \<or> (\<exists>x \<in> set xs. k = f x \<and> v = g x)"
proof (induction xs arbitrary: d)
  case (Cons x xs)
  then show ?case
    using Cons.IH [of "put (f x) (g x) d"] by (auto simp: get_put split: if_splits)
qed simp

lemma dom_foldl_put:
  "dom (get (foldl (\<lambda>d x. put (f x) (g x) d) d xs)) = dom (get d) \<union> f ` set xs"
  by (induction xs arbitrary: d) (auto simp: dom_put)

lemma wf_foldl_put: "wf d \<Longrightarrow> wf (foldl (\<lambda>d x. put (f x) (g x) d) d xs)"
  by (induction xs arbitrary: d) (auto intro: wf_put)

end

lemma map_of_dict_set [simp]: "map_of (dict_set k v d) = (map_of d)(k \<mapsto> v)"
  by (induction k v d rule: dict_set.induct) auto

lemma map_of_dict_pop [simp]: "map_of (dict_pop k d) = (map_of d)(k := None)"
  by (induction d) (auto simp: dict_pop_def fun_eq_iff)

lemma fst_dict_set: "fst ` set (dict_set k v d) = insert k (fst ` set d)"
  by (induction k v d rule: dict_set.induct) auto

lemma set_dict_set: "set (dict_set k v d) \<subseteq> insert (k, v) (set d)"
  by (induction k v d rule: dict_set.induct) auto

lemma distinct_dict_set: "distinct (map fst d) \<Longrightarrow> distinct (map fst (dict_set k v d))"
  by (induction k v d rule: dict_set.induct) (auto simp: fst_dict_set)

lemma distinct_dict_pop: "distinct (map fst d) \<Longrightarrow> distinct (map fst (dict_pop k d))"
  by (induction d) (auto simp: dict_pop_def)

interpretation py_dict: dictionary map_of dict_set dict_pop "\<lambda>d. distinct (map fst d)"
  by unfold_locales (auto simp: distinct_dict_set distinct_dict_pop)

lemma map_of_dict_setdefault [simp]:
  "map_of (dict_setdefault k v d) =
     (case map_of d k of None \<Rightarrow> (map_of d)(k \<mapsto> v) | Some _ \<Rightarrow> map_of d)"
  by (simp add: dict_setdefault_def split: option.splits)

text \<open>First occurrences: the values of a \<^verbatim>\<open>dict\<close> built with the elements as keys.\<close>

definition dedupe :: "'a list \<Rightarrow> 'a list" where
  "dedupe xs = rev (remdups (rev xs))"

lemma set_dedupe [simp]: "set (dedupe xs) = set xs"
  by (simp add: dedupe_def)

lemma distinct_dedupe [simp]: "distinct (dedupe xs)"
  by (simp add: dedupe_def)


section \<open>Loops as folds\<close>

lemma foldl_inv:
  assumes "\<And>s x. x \<in> set xs \<Longrightarrow> P s \<Longrightarrow> P (f s x)" and "P s"
  shows "P (foldl f s xs)"
  using assms by (induction xs arbitrary: s) auto

lemma foldE_collect:
  assumes "\<And>s x s'. f s x = Inr s' \<Longrightarrow> s' \<subseteq> insert (g x) s" and "foldE f s xs = Inr out"
  shows "out \<subseteq> s \<union> g ` set xs"
  using assms(2)
proof (induction xs arbitrary: s)
  case (Cons x xs)
  then obtain s' where "f s x = Inr s'" "foldE f s' xs = Inr out" by (auto simp: bindE_eq_Inr)
  with Cons.IH [of s'] assms(1) [of s x s'] show ?case by auto
qed simp

lemma dom_foldl_update:
  assumes "\<And>m x. dom (f m x) = (if P x then insert (k x) (dom m) else dom m)"
  shows "dom (foldl f m xs) = dom m \<union> k ` {x \<in> set xs. P x}"
proof (induction xs arbitrary: m)
  case (Cons x xs)
  have "dom (foldl f m (x # xs)) = dom (f m x) \<union> k ` {y \<in> set xs. P y}"
    using Cons by simp
  also have "\<dots> = dom m \<union> k ` {y \<in> set (x # xs). P y}"
    unfolding assms by auto
  finally show ?case .
qed simp


section \<open>Splitting and joining on a separator\<close>

text \<open>\<^verbatim>\<open>str.split(sep)\<close> with a one-character separator, and \<^verbatim>\<open>sep.join\<close>.\<close>

fun split_on :: "'a \<Rightarrow> 'a list \<Rightarrow> 'a list list" where
  "split_on s [] = [[]]"
| "split_on s (x # xs) =
     (if x = s then [] # split_on s xs
      else (x # hd (split_on s xs)) # tl (split_on s xs))"

fun join_with :: "'a list \<Rightarrow> 'a list list \<Rightarrow> 'a list" where
  "join_with s [] = []"
| "join_with s [x] = x"
| "join_with s (x # y # ys) = x @ s @ join_with s (y # ys)"

lemma split_on_not_Nil [simp]: "split_on s xs \<noteq> []"
  by (cases xs) auto

lemma join_with_Cons:
  "ys \<noteq> [] \<Longrightarrow> join_with s (x # ys) = x @ s @ join_with s ys"
  by (cases ys) auto

lemma join_split [simp]: "join_with [s] (split_on s xs) = xs"
proof (induction xs)
  case Nil
  then show ?case by simp
next
  case (Cons x xs)
  obtain p ps where "split_on s xs = p # ps"
    by (cases "split_on s xs") auto
  with Cons show ?case
    by (cases ps) (auto simp: join_with_Cons)
qed

lemma sep_notin_split: "c \<in> set (split_on s xs) \<Longrightarrow> s \<notin> set c"
proof (induction xs arbitrary: c)
  case Nil
  then show ?case by simp
next
  case (Cons x xs)
  obtain p ps where "split_on s xs = p # ps"
    by (cases "split_on s xs") auto
  with Cons show ?case by (auto split: if_splits)
qed

lemma split_on_append_sep:
  "s \<notin> set x \<Longrightarrow> split_on s (x @ s # ys) = x # split_on s ys"
  by (induction x) auto

lemma split_on_no_sep: "s \<notin> set x \<Longrightarrow> split_on s x = [x]"
  by (induction x) auto

lemma split_join [simp]:
  "\<lbrakk>ps \<noteq> []; \<forall>p \<in> set ps. s \<notin> set p\<rbrakk> \<Longrightarrow> split_on s (join_with [s] ps) = ps"
  by (induction "[s]" ps rule: join_with.induct)
     (auto simp: split_on_append_sep split_on_no_sep)

lemma split_on_map:
  assumes "\<And>x. f x = s \<longleftrightarrow> x = s"
  shows "split_on s (map f xs) = map (map f) (split_on s xs)"
  by (induction xs) (use assms in \<open>auto simp: hd_map map_tl\<close>)

lemma join_with_map:
  "map f (join_with s ps) = join_with (map f s) (map (map f) ps)"
  by (induction s ps rule: join_with.induct) auto

lemma set_join_with_subset:
  "set (join_with s ps) \<subseteq> set s \<union> \<Union> (set ` set ps)"
  by (induction s ps rule: join_with.induct) auto

lemma set_split_subset: "c \<in> set (split_on s xs) \<Longrightarrow> set c \<subseteq> set xs"
proof (induction xs arbitrary: c)
  case Nil
  then show ?case by simp
next
  case (Cons x xs)
  obtain p ps where "split_on s xs = p # ps"
    by (cases "split_on s xs") auto
  with Cons show ?case by (auto split: if_splits) fastforce+
qed

lemma in_set_split: "x \<in> set xs \<Longrightarrow> x \<noteq> s \<Longrightarrow> \<exists>c \<in> set (split_on s xs). x \<in> set c"
proof (induction xs)
  case Nil
  then show ?case by simp
next
  case (Cons y ys)
  obtain p ps where "split_on s ys = p # ps"
    by (cases "split_on s ys") auto
  with Cons show ?case by auto
qed

fun starts_with :: "'a list \<Rightarrow> 'a list \<Rightarrow> bool" where
  "starts_with [] ys = True"
| "starts_with (x # xs) [] = False"
| "starts_with (x # xs) (y # ys) = (x = y \<and> starts_with xs ys)"

lemma starts_with_iff: "starts_with p xs \<longleftrightarrow> (\<exists>r. xs = p @ r)"
  by (induction p xs rule: starts_with.induct) auto

lemma starts_with_trans: "starts_with p q \<Longrightarrow> starts_with q r \<Longrightarrow> starts_with p r"
  by (auto simp: starts_with_iff)

section \<open>Transition systems\<close>

text \<open>
  Concurrent components are step relations over their state; a property of every state they can
  get into is an invariant of the reachable ones.
\<close>

locale transition_system =
  fixes initial :: "'s \<Rightarrow> bool" and step :: "'s \<Rightarrow> 's \<Rightarrow> bool"
begin

inductive reachable :: "'s \<Rightarrow> bool" where
  start: "initial s \<Longrightarrow> reachable s"
| next_step: "reachable s \<Longrightarrow> step s s' \<Longrightarrow> reachable s'"

lemma invariant:
  assumes "reachable s"
    and "\<And>s. initial s \<Longrightarrow> I s"
    and "\<And>s s'. reachable s \<Longrightarrow> I s \<Longrightarrow> step s s' \<Longrightarrow> I s'"
  shows "I s"
  using assms(1) by induction (auto intro: assms)

lemma reachable_steps:
  "rtranclp step s s' \<Longrightarrow> reachable s \<Longrightarrow> reachable s'"
  by (induction rule: rtranclp_induct) (auto intro: next_step)

end

end
