(* ===== verification/Pathing.thy ===== *)
theory Pathing
  imports Prelude
begin

text \<open>
  Windows relative-path safety and identity (\<^verbatim>\<open>core/pathing.py\<close>) and the part of
  \<^verbatim>\<open>pathlib.PureWindowsPath\<close> the program uses on validated relative paths. Python's
  \<^verbatim>\<open>str.upper\<close> on one character is the argument \<open>up\<close> of the definitions (the Unicode tables are
  not part of the repository); what the program relies on is \<open>upper_laws\<close>. The theorems show that
  the accepted paths are exactly the safe ones, that acceptance canonicalises once and for all, and
  that the comparison key is a fixed point of normalisation.
\<close>

section \<open>Characters\<close>

abbreviation (input) backslash :: codepoint where "backslash \<equiv> 92"
abbreviation (input) slash :: codepoint where "slash \<equiv> 47"
abbreviation (input) colon :: codepoint where "colon \<equiv> 58"
abbreviation (input) dot :: codepoint where "dot \<equiv> 46"
abbreviation (input) blank :: codepoint where "blank \<equiv> 32"

definition is_surrogate :: "codepoint \<Rightarrow> bool" where
  "is_surrogate c \<longleftrightarrow> 55296 \<le> c \<and> c \<le> 57343"

definition is_ascii_letter :: "codepoint \<Rightarrow> bool" where
  "is_ascii_letter c \<longleftrightarrow> 65 \<le> c \<and> c \<le> 90 \<or> 97 \<le> c \<and> c \<le> 122"

type_synonym upper = "codepoint \<Rightarrow> pystr"

section \<open>The operations of the module\<close>

definition upper1 :: "upper \<Rightarrow> codepoint \<Rightarrow> codepoint" where
  "upper1 up c = (if length (up c) = 1 then hd (up c) else c)"

definition uppercase_one_codepoint :: "upper \<Rightarrow> pystr \<Rightarrow> pystr" where
  "uppercase_one_codepoint up value = map (upper1 up) value"

definition reserved_basenames :: "pystr list" where
  "reserved_basenames =
     [lit ''CON'', lit ''PRN'', lit ''AUX'', lit ''NUL'']
     @ map (\<lambda>n. lit ''COM'' @ [48 + n]) [1..<10]
     @ map (\<lambda>n. lit ''LPT'' @ [48 + n]) [1..<10]"

definition device_prefixes :: "pystr list" where
  "device_prefixes =
     [[backslash, backslash, 63, backslash], [backslash, backslash, dot, backslash],
      [backslash, 63, 63, backslash]]"

fun drive_prefix :: "pystr \<Rightarrow> bool" where
  "drive_prefix (a # b # _) \<longleftrightarrow> is_ascii_letter a \<and> b = colon"
| "drive_prefix _ \<longleftrightarrow> False"

text \<open>
  \<^verbatim>\<open>PureWindowsPath(p).is_absolute()\<close>: a drive or share followed by a root.
\<close>

definition win_is_absolute :: "pystr \<Rightarrow> bool" where
  "win_is_absolute p \<longleftrightarrow>
     (case p of
        a # b # c # _ \<Rightarrow> b = colon \<and> (c = backslash \<or> c = slash)
      | _ \<Rightarrow> False)
     \<or> (case p of
          a # b # _ \<Rightarrow> (a = backslash \<or> a = slash) \<and> (b = backslash \<or> b = slash)
        | _ \<Rightarrow> False)"

definition canonical_separators :: "pystr \<Rightarrow> pystr" where
  "canonical_separators value = map (\<lambda>c. if c = slash then backslash else c) value"

text \<open>\<^verbatim>\<open>component.split(".", 1)[0]\<close>: everything before the first dot.\<close>

definition component_basename :: "pystr \<Rightarrow> pystr" where
  "component_basename component = takeWhile (\<lambda>c. c \<noteq> dot) component"

definition check_component :: "upper \<Rightarrow> pystr \<Rightarrow> unit res" where
  "check_component up component =
     bindE (raise_if (component \<in> {[], [dot], [dot, dot]})
        (PathValidationError ''relative path has an unsafe component'')) (\<lambda>_.
     bindE (raise_if (colon \<in> set component)
        (PathValidationError ''relative path contains a stream or drive qualifier'')) (\<lambda>_.
     bindE (raise_if (last component \<in> {blank, dot})
        (PathValidationError ''relative path has a Windows-ambiguous suffix'')) (\<lambda>_.
     raise_if (uppercase_one_codepoint up (component_basename component)
                 \<in> set reserved_basenames)
        (PathValidationError ''relative path names a Windows device''))))"

definition validate_relative_path :: "upper \<Rightarrow> bool \<Rightarrow> pystr \<Rightarrow> pystr res" where
  "validate_relative_path up allow_root value =
     (if 0 \<in> set value then Inl (PathValidationError ''relative path contains NUL'')
      else if \<exists>c \<in> set value. is_surrogate c
        then Inl (PathValidationError ''relative path contains an unpaired surrogate'')
      else if value = []
        then (if allow_root then Inr [] else Inl (PathValidationError ''relative path is empty''))
      else
        (let canonical = canonical_separators value;
             upper_prefix = concat (map up canonical)
         in
         if starts_with [backslash] canonical \<or> drive_prefix canonical
           then Inl (PathValidationError ''relative path is absolute or qualified'')
         else if \<exists>p \<in> set device_prefixes. starts_with p upper_prefix
           then Inl (PathValidationError ''relative path uses a device namespace'')
         else
           bindE (eachE (check_component up) (split_on backslash canonical)) (\<lambda>_.
           if win_is_absolute canonical
             then Inl (PathValidationError ''relative path is absolute'')
           else Inr canonical)))"

definition normalize_relative_path :: "upper \<Rightarrow> bool \<Rightarrow> pystr \<Rightarrow> pystr res" where
  "normalize_relative_path up allow_root value =
     bindE (validate_relative_path up allow_root value)
       (\<lambda>canonical. Inr (uppercase_one_codepoint up canonical))"

text \<open>
  The key of a path that is known to validate: the program normalises record paths in places where
  validation has already succeeded.
\<close>

definition path_key :: "upper \<Rightarrow> pystr \<Rightarrow> pystr" where
  "path_key up value = uppercase_one_codepoint up (canonical_separators value)"

section \<open>PureWindowsPath on relative paths\<close>

definition win_parts :: "pystr \<Rightarrow> pystr list" where
  "win_parts p =
     filter (\<lambda>c. c \<noteq> [] \<and> c \<noteq> [dot]) (split_on backslash (canonical_separators p))"

definition win_name :: "pystr \<Rightarrow> pystr" where
  "win_name p = (if win_parts p = [] then [] else last (win_parts p))"

definition win_join :: "pystr list \<Rightarrow> pystr" where
  "win_join parts = (if parts = [] then [dot] else join_with [backslash] parts)"

definition win_parent :: "pystr \<Rightarrow> pystr" where
  "win_parent p = win_join (butlast (win_parts p))"

section \<open>Absolute paths\<close>

text \<open>
  The functions of \<^verbatim>\<open>os.path\<close> that the module calls; \<^verbatim>\<open>commonpath\<close> is \<open>None\<close> where it raises
  \<^verbatim>\<open>ValueError\<close> (paths on different drives).
\<close>

record os_path =
  osp_abspath :: "pystr \<Rightarrow> pystr"
  osp_normcase :: "pystr \<Rightarrow> pystr"
  osp_commonpath :: "pystr \<Rightarrow> pystr \<Rightarrow> pystr option"
  osp_join :: "pystr \<Rightarrow> pystr list \<Rightarrow> pystr"
  osp_is_nt :: bool

definition is_path_below :: "os_path \<Rightarrow> pystr \<Rightarrow> pystr \<Rightarrow> bool" where
  "is_path_below osp candidate root =
     (case osp_commonpath osp (osp_abspath osp candidate) (osp_abspath osp root) of
        None \<Rightarrow> False
      | Some common \<Rightarrow> osp_normcase osp common = osp_normcase osp (osp_abspath osp root))"

definition join_under_root :: "upper \<Rightarrow> os_path \<Rightarrow> pystr \<Rightarrow> pystr \<Rightarrow> pystr res" where
  "join_under_root up osp root relative_path =
     bindE (validate_relative_path up False relative_path) (\<lambda>canonical.
     let candidate = osp_abspath osp (osp_join osp root (split_on backslash canonical))
     in if \<not> is_path_below osp candidate root
        then Inl (PathValidationError ''relative path escapes its root'')
        else Inr candidate)"

definition to_extended_length_path :: "os_path \<Rightarrow> pystr \<Rightarrow> pystr" where
  "to_extended_length_path osp path =
     (let absolute = osp_abspath osp path; prefix = [backslash, backslash, 63, backslash]
      in if \<not> osp_is_nt osp \<or> starts_with prefix absolute then absolute
         else if starts_with [backslash, backslash] absolute
           then prefix @ lit ''UNC'' @ [backslash] @ drop 2 absolute
         else prefix @ absolute)"

section \<open>What the program relies on of \<^verbatim>\<open>str.upper\<close>\<close>

definition path_specials :: "codepoint set" where
  "path_specials = {0, backslash, slash, colon, dot, blank}"

definition upper_laws :: "upper \<Rightarrow> bool" where
  "upper_laws up \<longleftrightarrow>
     (\<forall>c. up c \<noteq> []) \<and>
     (\<forall>c. length (up c) = 1 \<longrightarrow> up (hd (up c)) = up c) \<and>
     (\<forall>c \<in> path_specials. up c = [c]) \<and>
     (\<forall>c. \<forall>s \<in> path_specials. s \<in> set (up c) \<longrightarrow> c = s) \<and>
     (\<forall>c. length (up c) = 1 \<longrightarrow> is_surrogate (hd (up c)) = is_surrogate c) \<and>
     (\<forall>c. 97 \<le> c \<and> c \<le> 122 \<longrightarrow> up c = [c - 32])"

text \<open>The ASCII restriction of the table: a concrete function that satisfies the laws.\<close>

definition ascii_upper :: upper where
  "ascii_upper c = [if 97 \<le> c \<and> c \<le> 122 then c - 32 else c]"

lemma upper_laws_ascii: "upper_laws ascii_upper"
  by (auto simp: upper_laws_def ascii_upper_def path_specials_def is_surrogate_def)

lemma upper1_idem: "upper_laws up \<Longrightarrow> upper1 up (upper1 up c) = upper1 up c"
  by (auto simp: upper_laws_def upper1_def)

lemma upper1_special: "upper_laws up \<Longrightarrow> s \<in> path_specials \<Longrightarrow> upper1 up c = s \<longleftrightarrow> c = s"
  unfolding upper_laws_def upper1_def
  by (metis One_nat_def hd_in_set length_0_conv list.sel(1) zero_neq_one length_Cons list.size(3))

lemma upper1_surrogate: "upper_laws up \<Longrightarrow> is_surrogate (upper1 up c) = is_surrogate c"
  by (auto simp: upper_laws_def upper1_def)

lemma uppercase_idem [simp]:
  "upper_laws up \<Longrightarrow>
     uppercase_one_codepoint up (uppercase_one_codepoint up v) = uppercase_one_codepoint up v"
  by (simp add: uppercase_one_codepoint_def upper1_idem)

section \<open>The specification of a safe path\<close>

definition safe_component :: "upper \<Rightarrow> pystr \<Rightarrow> bool" where
  "safe_component up c \<longleftrightarrow>
     c \<notin> {[], [dot], [dot, dot]} \<and> colon \<notin> set c \<and> last c \<notin> {blank, dot} \<and>
     uppercase_one_codepoint up (component_basename c) \<notin> set reserved_basenames"

definition safe_relative_path :: "upper \<Rightarrow> pystr \<Rightarrow> bool" where
  "safe_relative_path up p \<longleftrightarrow>
     slash \<notin> set p \<and> 0 \<notin> set p \<and> (\<forall>c \<in> set p. \<not> is_surrogate c) \<and>
     (\<forall>c \<in> set (split_on backslash p). safe_component up c)"

named_theorems path_simps

lemma check_component_ok [path_simps]: "check_component up c = Inr u \<longleftrightarrow> safe_component up c"
  by (auto simp: check_component_def safe_component_def bindE_eq_Inr)

lemma canonical_separators_set [path_simps]:
  "0 \<in> set (canonical_separators v) \<longleftrightarrow> 0 \<in> set v"
  "slash \<notin> set (canonical_separators v)"
  "(\<forall>c \<in> set (canonical_separators v). \<not> is_surrogate c) \<longleftrightarrow> (\<forall>c \<in> set v. \<not> is_surrogate c)"
  "canonical_separators v = [] \<longleftrightarrow> v = []"
  by (auto simp: canonical_separators_def is_surrogate_def)

lemma canonical_separators_id [path_simps]:
  "slash \<notin> set v \<Longrightarrow> canonical_separators v = v"
  by (auto simp: canonical_separators_def intro: map_idI)

lemma canonical_separators_idem [simp]:
  "canonical_separators (canonical_separators v) = canonical_separators v"
  by (simp add: path_simps)

lemma safe_not_Nil: "safe_relative_path up p \<Longrightarrow> p \<noteq> []"
  by (auto simp: safe_relative_path_def safe_component_def)

lemma safe_canonical: "safe_relative_path up p \<Longrightarrow> canonical_separators p = p"
  by (simp add: safe_relative_path_def path_simps)

lemma safe_path_not_qualified:
  assumes "safe_relative_path up p" and "p \<noteq> []"
  shows "\<not> starts_with [backslash] p" and "colon \<notin> set p"
proof -
  show "\<not> starts_with [backslash] p"
    using assms by (cases p) (auto simp: safe_relative_path_def safe_component_def)
  show "colon \<notin> set p"
    using assms in_set_split [of colon p backslash]
    by (auto simp: safe_relative_path_def safe_component_def)
qed

lemma drive_prefix_colon: "drive_prefix p \<Longrightarrow> colon \<in> set p"
  by (cases p rule: drive_prefix.cases) auto

lemma not_absolute_safe:
  "slash \<notin> set p \<Longrightarrow> colon \<notin> set p \<Longrightarrow> \<not> starts_with [backslash] p \<Longrightarrow> \<not> win_is_absolute p"
  by (auto simp: win_is_absolute_def split: list.splits)

lemma device_prefix_backslash:
  assumes "upper_laws up" and "d \<in> set device_prefixes" and "starts_with d (concat (map up p))"
  shows "starts_with [backslash] p"
proof (cases p)
  case Nil
  with assms show ?thesis by (auto simp: device_prefixes_def)
next
  case (Cons c cs)
  obtain d' where d: "d = backslash # d'"
    using assms(2) by (auto simp: device_prefixes_def)
  have ne: "up c \<noteq> []"
    using assms(1) by (simp add: upper_laws_def)
  then have "hd (up c) = backslash"
    using assms(3) d Cons by (cases "up c") auto
  with ne have "backslash \<in> set (up c)"
    by (metis hd_in_set)
  with assms(1) have "c = backslash"
    by (auto simp: upper_laws_def path_specials_def)
  with Cons show ?thesis by simp
qed

lemma validate_iff:
  assumes "upper_laws up"
  shows "validate_relative_path up r v = Inr c \<longleftrightarrow>
           c = canonical_separators v \<and>
           (if v = [] then r else safe_relative_path up c)"
proof (cases "v = []")
  case True
  then show ?thesis
    by (auto simp: validate_relative_path_def canonical_separators_def)
next
  case False
  let ?c = "canonical_separators v"
  have "safe_relative_path up ?c \<Longrightarrow>
          \<not> starts_with [backslash] ?c \<and> \<not> drive_prefix ?c \<and> \<not> win_is_absolute ?c
          \<and> \<not> (\<exists>p \<in> set device_prefixes. starts_with p (concat (map up ?c)))"
    using safe_path_not_qualified [of up ?c] drive_prefix_colon [of ?c]
      not_absolute_safe [of ?c] device_prefix_backslash [OF assms, of _ ?c] False
    by (auto simp: path_simps)
  moreover have "safe_relative_path up ?c \<longleftrightarrow> 0 \<notin> set v \<and> (\<forall>x \<in> set v. \<not> is_surrogate x)
                    \<and> eachE (check_component up) (split_on backslash ?c) = Inr ()"
    by (simp add: safe_relative_path_def result_simps path_simps)
  ultimately show ?thesis
    using False
    by (cases "safe_relative_path up ?c")
       (auto simp: validate_relative_path_def Let_def bindE_eq_Inr split: if_splits)
qed

lemma validate_fails_PathValidationError:
  "validate_relative_path up r v = Inl e \<Longrightarrow> \<exists>m. e = PathValidationError m"
  by (auto simp: validate_relative_path_def Let_def result_simps check_component_def
        dest!: eachE_eq_Inl split: if_splits)

lemma validate_idem:
  assumes "upper_laws up" and "validate_relative_path up r v = Inr c"
  shows "validate_relative_path up r c = Inr c"
  using assms by (auto simp: validate_iff path_simps split: if_splits)

subsection \<open>Uppercasing keeps a path safe\<close>

lemma uppercase_component_basename:
  assumes "upper_laws up"
  shows "component_basename (uppercase_one_codepoint up c)
           = uppercase_one_codepoint up (component_basename c)"
proof -
  have "(\<lambda>x. upper1 up x \<noteq> dot) = (\<lambda>x. x \<noteq> dot)"
    using upper1_special [OF assms, of dot] by (auto simp: path_specials_def)
  then show ?thesis
    by (simp add: component_basename_def uppercase_one_codepoint_def takeWhile_map comp_def)
qed

lemma uppercase_notin_special:
  assumes "upper_laws up" and "s \<in> path_specials"
  shows "s \<in> set (uppercase_one_codepoint up c) \<longleftrightarrow> s \<in> set c"
proof -
  have "upper1 up s = s" and "\<And>x. upper1 up x = s \<Longrightarrow> x = s"
    using upper1_special [OF assms] by auto
  then show ?thesis
    unfolding uppercase_one_codepoint_def set_map image_iff by metis
qed

lemma safe_component_uppercase:
  assumes "upper_laws up"
  shows "safe_component up (uppercase_one_codepoint up c) \<longleftrightarrow> safe_component up c"
proof (cases "c = []")
  case True
  then show ?thesis by (simp add: safe_component_def uppercase_one_codepoint_def)
next
  case False
  have d: "upper1 up x = dot \<longleftrightarrow> x = dot" and b: "upper1 up x = blank \<longleftrightarrow> x = blank" for x
    using upper1_special [OF assms] by (auto simp: path_specials_def)
  have "uppercase_one_codepoint up c = [dot] \<longleftrightarrow> c = [dot]"
    and "uppercase_one_codepoint up c = [dot, dot] \<longleftrightarrow> c = [dot, dot]"
    by (auto simp: uppercase_one_codepoint_def d map_eq_Cons_conv)
  moreover have "last (uppercase_one_codepoint up c) = upper1 up (last c)"
    using False by (simp add: uppercase_one_codepoint_def last_map)
  moreover have "colon \<in> set (uppercase_one_codepoint up c) \<longleftrightarrow> colon \<in> set c"
    by (rule uppercase_notin_special [OF assms]) (simp add: path_specials_def)
  ultimately show ?thesis
    using False
    by (simp add: safe_component_def uppercase_component_basename assms d b)
       (simp add: uppercase_one_codepoint_def)
qed

lemma split_uppercase:
  assumes "upper_laws up"
  shows "split_on backslash (uppercase_one_codepoint up p)
           = map (uppercase_one_codepoint up) (split_on backslash p)"
  using split_on_map [of "upper1 up" backslash p] upper1_special [OF assms, of backslash]
  by (simp add: uppercase_one_codepoint_def path_specials_def comp_def)

lemma safe_relative_path_uppercase:
  assumes "upper_laws up" and "safe_relative_path up p"
  shows "safe_relative_path up (uppercase_one_codepoint up p)"
proof -
  have "slash \<notin> set (uppercase_one_codepoint up p)" "0 \<notin> set (uppercase_one_codepoint up p)"
    using assms uppercase_notin_special [OF assms(1)]
    by (auto simp: safe_relative_path_def path_specials_def)
  moreover have "\<forall>c \<in> set (uppercase_one_codepoint up p). \<not> is_surrogate c"
    using assms by (auto simp: uppercase_one_codepoint_def safe_relative_path_def upper1_surrogate)
  moreover have "\<forall>c \<in> set (split_on backslash (uppercase_one_codepoint up p)). safe_component up c"
    using assms by (auto simp: split_uppercase safe_component_uppercase safe_relative_path_def)
  ultimately show ?thesis
    by (simp add: safe_relative_path_def)
qed

lemma normalize_eq_key:
  "normalize_relative_path up r v = Inr k \<Longrightarrow> k = path_key up v"
  by (auto simp: normalize_relative_path_def path_key_def bindE_eq_Inr validate_relative_path_def
        Let_def canonical_separators_def split: if_splits)

lemma normalize_valid:
  "validate_relative_path up r v = Inr c \<Longrightarrow> normalize_relative_path up r v = Inr (path_key up v)"
  using normalize_eq_key [of up r v] by (auto simp: normalize_relative_path_def)

lemma normalize_key_fixed:
  assumes "upper_laws up" and "normalize_relative_path up r v = Inr k"
  shows "normalize_relative_path up r k = Inr k"
proof -
  obtain c where c: "validate_relative_path up r v = Inr c" "k = uppercase_one_codepoint up c"
    using assms(2) by (auto simp: normalize_relative_path_def bindE_eq_Inr)
  have "validate_relative_path up r k = Inr k"
  proof (cases "v = []")
    case True
    with c show ?thesis
      by (auto simp: validate_iff [OF assms(1)] canonical_separators_def uppercase_one_codepoint_def)
  next
    case False
    with c have "safe_relative_path up c" and ne: "k \<noteq> []"
      by (auto simp: validate_iff [OF assms(1)] uppercase_one_codepoint_def canonical_separators_def)
    then have "safe_relative_path up k"
      using safe_relative_path_uppercase [OF assms(1)] c by simp
    with ne show ?thesis
      by (simp add: validate_iff [OF assms(1)] safe_relative_path_def path_simps)
  qed
  with c assms show ?thesis by (simp add: normalize_relative_path_def)
qed
subsection \<open>Parents and names of safe paths\<close>

lemma win_parts_safe:
  "safe_relative_path up p \<Longrightarrow> win_parts p = split_on backslash p"
  by (auto simp: win_parts_def safe_relative_path_def safe_component_def path_simps
        intro!: filter_True)

lemma win_join_parts_safe:
  "safe_relative_path up p \<Longrightarrow> win_join (win_parts p) = p"
  by (simp add: win_parts_safe win_join_def)

lemma safe_relative_path_join:
  assumes "ps \<noteq> []" and "\<forall>c \<in> set ps. safe_component up c \<and> backslash \<notin> set c \<and> slash \<notin> set c
             \<and> 0 \<notin> set c \<and> (\<forall>x \<in> set c. \<not> is_surrogate x)"
  shows "safe_relative_path up (join_with [backslash] ps)"
  using assms set_join_with_subset [of "[backslash]" ps]
  by (auto simp: safe_relative_path_def is_surrogate_def)

lemma safe_relative_path_components:
  assumes "safe_relative_path up p" and "c \<in> set (split_on backslash p)"
  shows "safe_component up c \<and> backslash \<notin> set c \<and> slash \<notin> set c
           \<and> 0 \<notin> set c \<and> (\<forall>x \<in> set c. \<not> is_surrogate x)"
  using assms set_split_subset [OF assms(2)] sep_notin_split [OF assms(2)]
  by (auto simp: safe_relative_path_def)

lemma win_parent_safe:
  assumes "safe_relative_path up p" and "win_parent p \<noteq> [dot]"
  shows "safe_relative_path up (win_parent p)"
proof -
  have "butlast (split_on backslash p) \<noteq> []"
    using assms by (auto simp: win_parent_def win_join_def win_parts_safe)
  then show ?thesis
    using assms safe_relative_path_components [OF assms(1)]
    by (auto simp: win_parent_def win_join_def win_parts_safe
          intro!: safe_relative_path_join dest: in_set_butlastD)
qed

lemma win_parts_component:
  assumes "c \<in> set (win_parts p)"
  shows "c \<noteq> []" "c \<noteq> [dot]" "backslash \<notin> set c" "slash \<notin> set c"
  using assms sep_notin_split [of c backslash "canonical_separators p"]
    set_split_subset [of c backslash "canonical_separators p"] canonical_separators_set(2) [of p]
  by (auto simp: win_parts_def)

lemma win_parts_join:
  assumes "\<forall>c \<in> set ps. c \<noteq> [] \<and> c \<noteq> [dot] \<and> backslash \<notin> set c \<and> slash \<notin> set c"
  shows "win_parts (win_join ps) = ps"
proof (cases "ps = []")
  case True
  then show ?thesis by (simp add: win_join_def win_parts_def canonical_separators_def)
next
  case False
  have "slash \<notin> set (join_with [backslash] ps)"
    using assms set_join_with_subset [of "[backslash]" ps] by auto
  then have "canonical_separators (join_with [backslash] ps) = join_with [backslash] ps"
    by (rule canonical_separators_id)
  then have "win_parts (win_join ps) = filter (\<lambda>c. c \<noteq> [] \<and> c \<noteq> [dot]) ps"
    using assms False by (simp add: win_parts_def win_join_def)
  also have "\<dots> = ps"
    using assms by (auto intro: filter_True)
  finally show ?thesis .
qed

lemma win_parts_parent [simp]: "win_parts (win_parent p) = butlast (win_parts p)"
  unfolding win_parent_def
  by (rule win_parts_join) (auto dest!: in_set_butlastD dest: win_parts_component)

lemma win_parent_dot: "win_parent p = [dot] \<longleftrightarrow> butlast (win_parts p) = []"
proof
  assume "win_parent p = [dot]"
  then have "butlast (win_parts p) = win_parts [dot]"
    using win_parts_parent [of p] by simp
  then show "butlast (win_parts p) = []"
    by (simp add: win_parts_def canonical_separators_def)
qed (simp add: win_parent_def win_join_def)

lemma win_parent_shorter:
  "win_parent p \<noteq> [dot] \<Longrightarrow> length (win_parts (win_parent p)) < length (win_parts p)"
  by (cases "win_parts p") (auto simp: win_parent_dot)

text \<open>
  The loop \<^verbatim>\<open>parent = str(PureWindowsPath(p).parent)\<close> until the parent is \<^verbatim>\<open>"."\<close>, nearest first.
\<close>

function win_ancestors :: "pystr \<Rightarrow> pystr list" where
  "win_ancestors p =
     (let parent = win_parent p
      in if parent = [dot] then [] else parent # win_ancestors parent)"
  by pat_completeness auto
termination
  by (relation "measure (\<lambda>p. length (win_parts p))") (auto dest: win_parent_shorter)

declare win_ancestors.simps [simp del]

lemma win_ancestors_safe:
  "safe_relative_path up p \<Longrightarrow> q \<in> set (win_ancestors p) \<Longrightarrow> safe_relative_path up q"
proof (induction p rule: win_ancestors.induct)
  case (1 p)
  show ?case
  proof (cases "win_parent p = [dot]")
    case True
    with "1.prems" show ?thesis by (simp add: win_ancestors.simps [of p])
  next
    case False
    with "1.prems" have "q = win_parent p \<or> q \<in> set (win_ancestors (win_parent p))"
      by (simp add: win_ancestors.simps [of p] Let_def)
    with "1.IH" False "1.prems" win_parent_safe [of up p] show ?thesis by auto
  qed
qed

lemma win_ancestors_parts:
  "q \<in> set (win_ancestors p) \<Longrightarrow> length (win_parts q) < length (win_parts p)"
proof (induction p rule: win_ancestors.induct)
  case (1 p)
  show ?case
  proof (cases "win_parent p = [dot]")
    case True
    with "1.prems" show ?thesis by (simp add: win_ancestors.simps [of p])
  next
    case False
    then have "length (win_parts (win_parent p)) < length (win_parts p)"
      by (rule win_parent_shorter)
    moreover have "q = win_parent p \<or> q \<in> set (win_ancestors (win_parent p))"
      using False "1.prems" by (simp add: win_ancestors.simps [of p] Let_def)
    ultimately show ?thesis using "1.IH" False by force
  qed
qed

text \<open>Evaluation of the operations on concrete paths.\<close>

lemma upt_1_10: "[1..<10] = [1, 2, 3, 4, 5, 6, 7, 8, 9::nat]"
  by (simp add: upt_rec)

lemmas reserved_basenames_eval = reserved_basenames_def [unfolded upt_1_10 list.map]

lemmas eval_path =
  normalize_relative_path_def validate_relative_path_def lit_def canonical_separators_def
  check_component_def component_basename_def reserved_basenames_eval device_prefixes_def
  win_is_absolute_def uppercase_one_codepoint_def upper1_def is_surrogate_def ascii_upper_def

section \<open>Properties\<close>

text \<open>C25: A relative path is accepted exactly when its canonical spelling is safe: no NUL, no lone
  surrogate, no forward slash left, and every component is neither empty nor a dot component, has
  no colon, no trailing blank or dot, and does not name a Windows device. The accepted value is the
  canonical spelling and is accepted unchanged; every rejection is a \<^verbatim>\<open>PathValidationError\<close>.\<close>

theorem validate_relative_path_correct:
  assumes "upper_laws up"
  shows "case validate_relative_path up allow_root v of
           Inr c \<Rightarrow> c = canonical_separators v \<and>
             (if v = [] then allow_root else safe_relative_path up c) \<and>
             validate_relative_path up allow_root c = Inr c
         | Inl e \<Rightarrow> (\<exists>m. e = PathValidationError m) \<and>
             \<not> (if v = [] then allow_root else safe_relative_path up (canonical_separators v))"
proof (cases "validate_relative_path up allow_root v")
  case (Inl e)
  then show ?thesis
    using validate_fails_PathValidationError [OF Inl]
      validate_iff [OF assms, of allow_root v "canonical_separators v"] by simp
next
  case (Inr c)
  then have "c = canonical_separators v \<and> (if v = [] then allow_root else safe_relative_path up c)"
    using validate_iff [OF assms, of allow_root v c] by blast
  then show ?thesis
    unfolding Inr sum.case using validate_idem [OF assms Inr] by blast
qed

theorem validate_relative_path_correct_witness:
  "validate_relative_path ascii_upper False (lit ''a/b.txt'') = Inr (lit ''a'' @ [backslash] @ lit ''b.txt'') \<and>
   (\<exists>m. validate_relative_path ascii_upper False (lit ''a/con.txt'') = Inl (PathValidationError m)) \<and>
   validate_relative_path ascii_upper False (lit ''a'' @ [backslash] @ lit ''b.txt'') = Inr (lit ''a'' @ [backslash] @ lit ''b.txt'')"
  using validate_relative_path_correct [OF upper_laws_ascii, where allow_root = False and v = "lit ''a/b.txt''"]
    validate_relative_path_correct [OF upper_laws_ascii, where allow_root = False and v = "lit ''a/con.txt''"]
  by (simp add: eval_path)

text \<open>The comparison key of a path is a fixed point of normalisation, so keys can be stored and
  normalised again; it has the same number of code points and its components are the uppercased
  components of the canonical path, so keys preserve the tree.\<close>

theorem normalize_relative_path_key:
  assumes "upper_laws up" and "normalize_relative_path up allow_root v = Inr k"
  shows "normalize_relative_path up allow_root k = Inr k \<and> length k = length v \<and>
         split_on backslash k
           = map (uppercase_one_codepoint up) (split_on backslash (canonical_separators v))"
  using normalize_key_fixed [OF assms] normalize_eq_key [OF assms(2)]
  by (simp add: path_key_def split_uppercase [OF assms(1)])
     (simp add: uppercase_one_codepoint_def canonical_separators_def)

theorem normalize_relative_path_key_witness:
  "normalize_relative_path ascii_upper False (lit ''Ab/c'') = Inr (lit ''AB'' @ [backslash] @ lit ''C'') \<and>
   normalize_relative_path ascii_upper False (lit ''AB'' @ [backslash] @ lit ''C'') = Inr (lit ''AB'' @ [backslash] @ lit ''C'')"
proof -
  have n: "normalize_relative_path ascii_upper False (lit ''Ab/c'') = Inr (lit ''AB'' @ [backslash] @ lit ''C'')"
    by (simp add: eval_path)
  then show ?thesis
    using normalize_relative_path_key [OF upper_laws_ascii n] by blast
qed

end
