(* ===== verification/Models.thy ===== *)
theory Models
  imports Pathing
begin

text \<open>
  Filesystem observation contracts (\<^verbatim>\<open>core/models.py\<close>): stats, identities, scan records, warnings,
  scan scopes, the ignore set and the grammar of owned temporary names. Each frozen dataclass is a
  record; its \<^verbatim>\<open>__post_init__\<close> is a function that raises or returns unit, run by the code wherever
  a value is constructed.
\<close>

section \<open>Stats and identities\<close>

datatype entry_kind = FILE | DIRECTORY

record volume_id =
  vol_serial :: pystr
  vol_fs_type :: pystr

definition volume_id_post_init :: "volume_id \<Rightarrow> unit res" where
  "volume_id_post_init v = raise_if (vol_serial v = [] \<or> vol_fs_type v = [])
     (ValueError ''volume identity requires serial and filesystem type'')"

record volume_evidence =
  ve_label :: "pystr option"
  ve_device_id :: "pystr option"
  ve_clone_ambiguous :: bool

record capability_profile =
  cp_fs_type :: pystr
  mtime_granularity_ns :: int
  stable_file_identity :: bool
  incurs_seek_penalty :: "bool option"
  max_path :: int
  supports_ads :: bool
  supports_hardlinks :: bool

definition capability_profile_post_init :: "capability_profile \<Rightarrow> unit res" where
  "capability_profile_post_init p =
     bindE (raise_if (mtime_granularity_ns p \<le> 0)
       (ValueError ''mtime granularity must be positive'')) (\<lambda>_.
     raise_if (max_path p \<le> 0) (ValueError ''maximum path must be positive''))"

record file_identity =
  volume_serial :: pystr
  file_index :: int

definition file_identity_post_init :: "file_identity \<Rightarrow> unit res" where
  "file_identity_post_init i = raise_if (volume_serial i = [] \<or> file_index i < 0)
     (ValueError ''invalid file identity'')"

record metadata_snapshot =
  attributes :: int
  created_ns :: "int option"

definition metadata_post_init :: "metadata_snapshot \<Rightarrow> unit res" where
  "metadata_post_init m =
     bindE (raise_if (attributes m < 0) (ValueError ''attributes cannot be negative'')) (\<lambda>_.
     raise_if (case created_ns m of None \<Rightarrow> False | Some c \<Rightarrow> c < 0)
       (ValueError ''creation time cannot be negative''))"

record file_stat =
  st_kind :: entry_kind
  st_size :: int
  st_mtime_ns :: int
  st_identity :: "file_identity option"
  st_nlink :: int
  st_metadata :: metadata_snapshot

definition file_stat_post_init :: "file_stat \<Rightarrow> unit res" where
  "file_stat_post_init s =
     bindE (raise_if (st_size s < 0 \<or> st_mtime_ns s < 0)
       (ValueError ''file stat size and mtime cannot be negative'')) (\<lambda>_.
     raise_if (st_nlink s < 1) (ValueError ''link count must be positive''))"

record root =
  root_path :: pystr
  root_id :: pystr

definition root_post_init :: "root \<Rightarrow> unit res" where
  "root_post_init r =
     bindE (raise_if (root_path r = [] \<or> 0 \<in> set (root_path r))
       (ValueError ''root path is invalid'')) (\<lambda>_.
     raise_if (root_id r = []) (ValueError ''root id is required''))"

section \<open>Scan records\<close>

record file_record =
  fr_rel_path :: pystr
  fr_key :: pystr
  fr_size :: int
  fr_mtime_ns :: int
  fr_identity :: "file_identity option"
  fr_nlink :: int
  fr_metadata :: metadata_snapshot

definition fr_stat :: "file_record \<Rightarrow> file_stat" where
  "fr_stat r = \<lparr>st_kind = FILE, st_size = fr_size r, st_mtime_ns = fr_mtime_ns r,
     st_identity = fr_identity r, st_nlink = fr_nlink r, st_metadata = fr_metadata r\<rparr>"

definition file_record_post_init :: "upper \<Rightarrow> file_record \<Rightarrow> unit res" where
  "file_record_post_init up r =
     bindE (validate_relative_path up False (fr_rel_path r)) (\<lambda>canonical.
     bindE (normalize_relative_path up False canonical) (\<lambda>key.
     bindE (raise_if (fr_key r \<noteq> key) (ValueError ''file path key is not canonical'')) (\<lambda>_.
     file_stat_post_init (fr_stat r))))"

record dir_record =
  dr_rel_path :: pystr
  dr_key :: pystr
  dr_mtime_ns :: int
  dr_metadata :: metadata_snapshot
  dr_identity :: "file_identity option"
  dr_nlink :: int

definition dr_stat :: "dir_record \<Rightarrow> file_stat" where
  "dr_stat r = \<lparr>st_kind = DIRECTORY, st_size = 0, st_mtime_ns = dr_mtime_ns r,
     st_identity = dr_identity r, st_nlink = dr_nlink r, st_metadata = dr_metadata r\<rparr>"

definition dir_record_post_init :: "upper \<Rightarrow> dir_record \<Rightarrow> unit res" where
  "dir_record_post_init up r =
     bindE (validate_relative_path up True (dr_rel_path r)) (\<lambda>canonical.
     bindE (normalize_relative_path up True canonical) (\<lambda>key.
     bindE (raise_if (dr_key r \<noteq> key) (ValueError ''directory path key is not canonical'')) (\<lambda>_.
     file_stat_post_init (dr_stat r))))"

datatype unsupported_reason =
    UR_PLACEHOLDER | UR_REPARSE_POINT | UR_ACCESS_DENIED | UR_DISAPPEARED | UR_UNKNOWN_TYPE

record unsupported_record =
  ur_rel_path :: pystr
  ur_key :: pystr
  ur_reason :: unsupported_reason
  ur_kind :: "entry_kind option"

definition unsupported_record_post_init :: "upper \<Rightarrow> unsupported_record \<Rightarrow> unit res" where
  "unsupported_record_post_init up r =
     bindE (validate_relative_path up False (ur_rel_path r)) (\<lambda>canonical.
     bindE (normalize_relative_path up False canonical) (\<lambda>key.
     raise_if (ur_key r \<noteq> key) (ValueError ''unsupported path key is not canonical'')))"

datatype scan_warning_code =
    W_ROOT_UNAVAILABLE | W_VOLUME_UNAVAILABLE | W_ACCESS_DENIED | W_DISAPPEARED
  | W_ENUMERATION_ERROR | W_PATH_UNREPRESENTABLE | W_CASE_COLLISION | W_DUPLICATE_IDENTITY
  | W_MULTI_LINK | W_PLACEHOLDER | W_REPARSE_POINT | W_UNKNOWN_TYPE

fun scan_warning_code_value :: "scan_warning_code \<Rightarrow> pystr" where
  "scan_warning_code_value W_ROOT_UNAVAILABLE = lit ''root_unavailable''"
| "scan_warning_code_value W_VOLUME_UNAVAILABLE = lit ''volume_unavailable''"
| "scan_warning_code_value W_ACCESS_DENIED = lit ''access_denied''"
| "scan_warning_code_value W_DISAPPEARED = lit ''disappeared''"
| "scan_warning_code_value W_ENUMERATION_ERROR = lit ''enumeration_error''"
| "scan_warning_code_value W_PATH_UNREPRESENTABLE = lit ''path_unrepresentable''"
| "scan_warning_code_value W_CASE_COLLISION = lit ''case_collision''"
| "scan_warning_code_value W_DUPLICATE_IDENTITY = lit ''duplicate_identity''"
| "scan_warning_code_value W_MULTI_LINK = lit ''multi_link''"
| "scan_warning_code_value W_PLACEHOLDER = lit ''placeholder''"
| "scan_warning_code_value W_REPARSE_POINT = lit ''reparse_point''"
| "scan_warning_code_value W_UNKNOWN_TYPE = lit ''unknown_type''"

record scan_warning =
  sw_code :: scan_warning_code
  sw_rel_path :: "pystr option"
  sw_detail :: pystr

definition scan_warning_post_init :: "upper \<Rightarrow> scan_warning \<Rightarrow> unit res" where
  "scan_warning_post_init up w =
     (case sw_rel_path w of
        None \<Rightarrow> Inr ()
      | Some p \<Rightarrow> bindE (validate_relative_path up True p) (\<lambda>_. Inr ()))"

datatype scan_scope_kind = SCOPE_FULL | SCOPE_PATHS

record scan_scope =
  scope_kind :: scan_scope_kind
  selected_paths :: "pystr list"

definition scan_scope_post_init :: "scan_scope \<Rightarrow> unit res" where
  "scan_scope_post_init s =
     bindE (raise_if (scope_kind s = SCOPE_FULL \<and> selected_paths s \<noteq> [])
       (ValueError ''full scan cannot carry selected paths'')) (\<lambda>_.
     raise_if (scope_kind s = SCOPE_PATHS \<and> selected_paths s = [])
       (ValueError ''selected scan requires at least one path''))"

definition scan_scope_full :: scan_scope where
  "scan_scope_full = \<lparr>scope_kind = SCOPE_FULL, selected_paths = []\<rparr>"

section \<open>Owned temporary names\<close>

definition is_hex_digit :: "codepoint \<Rightarrow> bool" where
  "is_hex_digit c \<longleftrightarrow> 48 \<le> c \<and> c \<le> 57 \<or> 97 \<le> c \<and> c \<le> 102"

definition is_fixed_id :: "pystr \<Rightarrow> bool" where
  "is_fixed_id s \<longleftrightarrow> length s = 32 \<and> (\<forall>c \<in> set s. is_hex_digit c)"

text \<open>
  \<^verbatim>\<open>^.+\.synctmp-(?P<run_id>[0-9a-f]{32})-(?P<op_id>[0-9a-f]{32})$\<close> under \<^verbatim>\<open>fullmatch\<close>: the tail
  has 74 characters, and the dot of a regular expression matches everything but a line feed.
\<close>

definition owned_temp_run_id :: "pystr \<Rightarrow> pystr option" where
  "owned_temp_run_id name =
     (let n = length name; stem = take (n - 74) name; tail = drop (n - 74) name;
          run = take 32 (drop 9 tail); op = drop 42 tail
      in if n \<ge> 75 \<and> 10 \<notin> set stem \<and> tail = lit ''.synctmp-'' @ run @ [45] @ op
            \<and> is_fixed_id run \<and> is_fixed_id op
         then Some run else None)"

section \<open>The ignore set and the scan result\<close>

record ignore_set =
  exact_path_keys :: "pystr list"
  exact_names :: "pystr list"
  exclude_owned_temps :: bool
  exclude_sync_trash :: bool

definition default_ignore_set :: ignore_set where
  "default_ignore_set = \<lparr>exact_path_keys = [],
     exact_names = [lit ''DESKTOP.INI'', lit ''THUMBS.DB''],
     exclude_owned_temps = True, exclude_sync_trash = True\<rparr>"

definition ignore_set_for_owned_paths :: "upper \<Rightarrow> pystr list \<Rightarrow> ignore_set res" where
  "ignore_set_for_owned_paths up paths =
     bindE (mapE (\<lambda>path.
         bindE (validate_relative_path up False path) (\<lambda>canonical.
         mapE (normalize_relative_path up False)
           [canonical, canonical @ lit ''-wal'', canonical @ lit ''-shm''])) paths)
       (\<lambda>keys. Inr (default_ignore_set\<lparr>exact_path_keys := remdups (concat keys)\<rparr>))"

definition sync_trash_key :: pystr where
  "sync_trash_key = lit ''.SYNCTRASH''"

definition ignore_excludes :: "upper \<Rightarrow> ignore_set \<Rightarrow> pystr \<Rightarrow> bool \<Rightarrow> bool res" where
  "ignore_excludes up ig rel_path is_directory =
     bindE (validate_relative_path up False rel_path) (\<lambda>canonical.
     bindE (normalize_relative_path up False canonical) (\<lambda>key.
     if key \<in> set (exact_path_keys ig) then Inr True
     else bindE (normalize_relative_path up False (win_name canonical)) (\<lambda>name_key.
       if name_key \<in> set (exact_names ig) then Inr True
       else if exclude_sync_trash ig \<and>
               (key = sync_trash_key \<or> starts_with (sync_trash_key @ [backslash]) key)
         then Inr True
       else Inr (exclude_owned_temps ig \<and> \<not> is_directory
                 \<and> owned_temp_run_id (win_name canonical) \<noteq> None))))"

record scan_result =
  sr_root :: root
  sr_volume_id :: "volume_id option"
  sr_volume_evidence :: "volume_evidence option"
  sr_profile :: capability_profile
  sr_files :: "file_record list"
  sr_directories :: "dir_record list"
  sr_unsupported :: "unsupported_record list"
  sr_warnings :: "scan_warning list"
  sr_ignore_snapshot :: ignore_set
  sr_scope :: scan_scope
  sr_complete :: bool

definition is_full_scan :: "scan_result \<Rightarrow> bool" where
  "is_full_scan r \<longleftrightarrow> scope_kind (sr_scope r) = SCOPE_FULL"

section \<open>Lemmas\<close>

lemma file_record_post_init_ok:
  assumes "upper_laws up" and "file_record_post_init up r = Inr ()"
  shows "safe_relative_path up (canonical_separators (fr_rel_path r))"
    and "fr_rel_path r \<noteq> []" and "fr_key r = path_key up (fr_rel_path r)"
    and "0 \<le> fr_size r" and "1 \<le> fr_nlink r"
  using assms
  by (auto simp: file_record_post_init_def result_simps validate_iff path_key_def fr_stat_def
        file_stat_post_init_def dest!: normalize_eq_key split: if_splits)

lemma dir_record_post_init_ok:
  assumes "upper_laws up" and "dir_record_post_init up r = Inr ()"
  shows "dr_rel_path r \<noteq> [] \<Longrightarrow> safe_relative_path up (canonical_separators (dr_rel_path r))"
    and "dr_key r = path_key up (dr_rel_path r)"
  using assms
  by (auto simp: dir_record_post_init_def result_simps validate_iff path_key_def
        dest!: normalize_eq_key split: if_splits)

lemma owned_temp_run_id_iff:
  "owned_temp_run_id name = Some run \<longleftrightarrow>
     (\<exists>stem op. name = stem @ lit ''.synctmp-'' @ run @ [45] @ op \<and> stem \<noteq> []
        \<and> 10 \<notin> set stem \<and> is_fixed_id run \<and> is_fixed_id op)"
  (is "?L \<longleftrightarrow> ?R")
proof
  assume L: ?L
  let ?n = "length name - 74"
  let ?tail = "drop ?n name"
  have C: "length name \<ge> 75 \<and> 10 \<notin> set (take ?n name) \<and>
      ?tail = lit ''.synctmp-'' @ take 32 (drop 9 ?tail) @ [45] @ drop 42 ?tail \<and>
      is_fixed_id (take 32 (drop 9 ?tail)) \<and> is_fixed_id (drop 42 ?tail)"
    and R: "take 32 (drop 9 ?tail) = run"
    using L unfolding owned_temp_run_id_def Let_def if_Some_eq by blast+
  note CR = C [unfolded R]
  have "name = take ?n name @ ?tail"
    by simp
  moreover have "take ?n name \<noteq> []"
    using CR by auto
  ultimately show ?R using CR by metis
next
  assume ?R
  then show ?L
    by (auto simp: owned_temp_run_id_def Let_def lit_def is_fixed_id_def Suc_le_eq)
qed

end
