(* ===== verification/Canonical_Json.thy ===== *)
theory Canonical_Json
  imports Prelude
begin

text \<open>
  Canonical JSON bytes and digests (\<^verbatim>\<open>canonical_json_bytes\<close> of \<^verbatim>\<open>core/planning.py\<close> over the
  standard \<^verbatim>\<open>json\<close> encoder): the value tree left by \<^verbatim>\<open>_primitive\<close>, the compact encoder with sorted
  keys, UTF-8 with \<^verbatim>\<open>backslashreplace\<close>, and hexadecimal digests. SHA-256 is a parameter.
\<close>

datatype json =
    JNull
  | JBool bool
  | JInt int
  | JStr pystr
  | JList "json list"
  | JObj "(pystr \<times> json) list"

definition hex_digit :: "nat \<Rightarrow> codepoint" where
  "hex_digit n = (if n < 10 then 48 + n else 87 + n)"

definition u_escape :: "nat \<Rightarrow> pystr" where
  "u_escape n = [92, 117, hex_digit (n div 4096 mod 16), hex_digit (n div 256 mod 16),
                 hex_digit (n div 16 mod 16), hex_digit (n mod 16)]"

text \<open>The escapes of the encoder's string writer with \<^verbatim>\<open>ensure_ascii=False\<close>.\<close>

definition json_escape :: "codepoint \<Rightarrow> pystr" where
  "json_escape c =
     (if c = 34 then [92, 34]
      else if c = 92 then [92, 92]
      else if c = 10 then [92, 110]
      else if c = 13 then [92, 114]
      else if c = 9 then [92, 116]
      else if c = 12 then [92, 102]
      else if c = 8 then [92, 98]
      else if c < 32 then u_escape c
      else [c])"

text \<open>The escapes with \<^verbatim>\<open>ensure_ascii=True\<close>: non-ASCII as one or two UTF-16 units.\<close>

definition json_escape_ascii :: "codepoint \<Rightarrow> pystr" where
  "json_escape_ascii c =
     (if c < 127 then json_escape c
      else if c < 65536 then u_escape c
      else u_escape (55296 + (c - 65536) div 1024) @ u_escape (56320 + (c - 65536) mod 1024))"

definition json_quote :: "(codepoint \<Rightarrow> pystr) \<Rightarrow> pystr \<Rightarrow> pystr" where
  "json_quote esc s = [34] @ concat (map esc s) @ [34]"

fun nat_digits :: "nat \<Rightarrow> pystr" where
  "nat_digits n = (if n < 10 then [48 + n] else nat_digits (n div 10) @ [48 + n mod 10])"

declare nat_digits.simps [simp del]

definition int_repr :: "int \<Rightarrow> pystr" where
  "int_repr i = (if i < 0 then 45 # nat_digits (nat (- i)) else nat_digits (nat i))"

lemma size_list_snd_member:
  "kv \<in> set kvs \<Longrightarrow> size (snd kv) < Suc (size_list (size_prod (\<lambda>x. 0) size) kvs)"
proof (induction kvs)
  case (Cons a kvs)
  then show ?case by (cases a) auto
qed simp

text \<open>
  \<^verbatim>\<open>json.dumps(value, sort_keys=True)\<close> with an escaper and the two separators.
\<close>

function dumps :: "(codepoint \<Rightarrow> pystr) \<Rightarrow> pystr \<Rightarrow> pystr \<Rightarrow> json \<Rightarrow> pystr" where
  "dumps esc cm cl JNull = lit ''null''"
| "dumps esc cm cl (JBool b) = (if b then lit ''true'' else lit ''false'')"
| "dumps esc cm cl (JInt i) = int_repr i"
| "dumps esc cm cl (JStr s) = json_quote esc s"
| "dumps esc cm cl (JList vs) = [91] @ join_with cm (map (dumps esc cm cl) vs) @ [93]"
| "dumps esc cm cl (JObj kvs) =
     [123]
     @ join_with cm (map (\<lambda>kv. json_quote esc (fst kv) @ cl @ dumps esc cm cl (snd kv))
         (sort_key fst kvs))
     @ [125]"
  by pat_completeness auto

termination
  by (relation "measure (\<lambda>(esc, cm, cl, v). size v)")
     (auto simp: size_list_snd_member less_Suc_eq_le intro: size_list_estimation'
       dest: size_list_snd_member)

text \<open>UTF-8 with \<^verbatim>\<open>errors="backslashreplace"\<close>: a lone surrogate becomes its \<^verbatim>\<open>\uXXXX\<close> escape.\<close>

definition utf8_char :: "codepoint \<Rightarrow> bytes" where
  "utf8_char c =
     (if c < 128 then [c]
      else if c < 2048 then [192 + c div 64, 128 + c mod 64]
      else if 55296 \<le> c \<and> c \<le> 57343 then u_escape c
      else if c < 65536 then [224 + c div 4096, 128 + c div 64 mod 64, 128 + c mod 64]
      else [240 + c div 262144, 128 + c div 4096 mod 64, 128 + c div 64 mod 64, 128 + c mod 64])"

definition utf8_encode :: "pystr \<Rightarrow> bytes" where
  "utf8_encode s = concat (map utf8_char s)"

definition canonical_json_bytes :: "json \<Rightarrow> bytes" where
  "canonical_json_bytes v = utf8_encode (dumps json_escape [44] [58] v)"

text \<open>
  \<^verbatim>\<open>_primitive\<close> on a set: the elements' trees sorted by their default \<^verbatim>\<open>json.dumps\<close> text.
\<close>

definition json_set :: "json list \<Rightarrow> json" where
  "json_set vs = JList (sort_key (dumps json_escape_ascii [44, 32] [58, 32]) vs)"

definition hexdigest :: "bytes \<Rightarrow> pystr" where
  "hexdigest bs = concat (map (\<lambda>b. [hex_digit (b div 16 mod 16), hex_digit (b mod 16)]) bs)"

lemma length_hexdigest [simp]: "length (hexdigest bs) = 2 * length bs"
  by (induction bs) (auto simp: hexdigest_def)

lemma hex_digit_range: "n < 16 \<Longrightarrow> 48 \<le> hex_digit n \<and> hex_digit n \<le> 57 \<or> 97 \<le> hex_digit n \<and> hex_digit n \<le> 102"
  by (auto simp: hex_digit_def)

lemma hexdigest_digits:
  assumes "c \<in> set (hexdigest bs)"
  shows "48 \<le> c \<and> c \<le> 57 \<or> 97 \<le> c \<and> c \<le> 102"
proof -
  obtain n where "c = hex_digit (n mod 16)"
    using assms by (auto simp: hexdigest_def)
  with hex_digit_range [of "n mod 16"] show ?thesis by simp
qed

end
