(* ===== verification/Planning.thy ===== *)
theory Planning
  imports Models Canonical_Json
begin

text \<open>
  Plan, operation, policy, selection and capacity contracts (\<^verbatim>\<open>core/planning.py\<close>): filters, the
  identity destination policy, plan operations and plans with their constructor checks,
  deterministic ids and fingerprints, the capacity calculation and the quarantine of operations
  that overlap blocked work.
\<close>

section \<open>The interpreter's tables\<close>

text \<open>
  Functions of the Python installation that are not in the repository: the Unicode tables, the
  glob matcher of \<^verbatim>\<open>fnmatch\<close> and SHA-256. Every definition that uses one takes this record.
\<close>

record runtime =
  rt_upper :: upper
  rt_nfc :: "pystr \<Rightarrow> pystr"
  rt_fnmatchcase :: "pystr \<Rightarrow> pystr \<Rightarrow> bool"
  rt_sha256 :: "bytes \<Rightarrow> bytes"

section \<open>Enumerations and policies\<close>

datatype deletion_policy = POLICY_TRASH | POLICY_ADDITIVE | POLICY_MIRROR

fun deletion_policy_value :: "deletion_policy \<Rightarrow> pystr" where
  "deletion_policy_value POLICY_TRASH = lit ''trash''"
| "deletion_policy_value POLICY_ADDITIVE = lit ''additive''"
| "deletion_policy_value POLICY_MIRROR = lit ''mirror''"

datatype operation_kind =
  COPY | UPDATE | MOVE | MOVE_UPDATE | RECASE | MKDIR | TRASH | DELETE | NOOP

fun operation_kind_value :: "operation_kind \<Rightarrow> pystr" where
  "operation_kind_value COPY = lit ''copy''"
| "operation_kind_value UPDATE = lit ''update''"
| "operation_kind_value MOVE = lit ''move''"
| "operation_kind_value MOVE_UPDATE = lit ''move_update''"
| "operation_kind_value RECASE = lit ''recase''"
| "operation_kind_value MKDIR = lit ''mkdir''"
| "operation_kind_value TRASH = lit ''trash''"
| "operation_kind_value DELETE = lit ''delete''"
| "operation_kind_value NOOP = lit ''noop''"

datatype operation_reason =
    R_SOURCE_ONLY | R_METADATA_CHANGED | R_METADATA_MATCH | R_IDENTITY_RENAME
  | R_IDENTITY_RENAME_CHANGED | R_REQUIRED_DIRECTORY | R_EMPTY_DIRECTORY | R_TARGET_ONLY
  | R_DIRECTORY_CLEANUP | R_UNSUPPORTED | R_CASE_MISMATCH | R_UNICODE_NORMALIZATION_MISMATCH
  | R_CASE_COLLISION | R_TYPE_COLLISION | R_POLICY_COLLISION

fun operation_reason_value :: "operation_reason \<Rightarrow> pystr" where
  "operation_reason_value R_SOURCE_ONLY = lit ''source_only''"
| "operation_reason_value R_METADATA_CHANGED = lit ''metadata_changed''"
| "operation_reason_value R_METADATA_MATCH = lit ''metadata_match''"
| "operation_reason_value R_IDENTITY_RENAME = lit ''identity_rename''"
| "operation_reason_value R_IDENTITY_RENAME_CHANGED = lit ''identity_rename_changed''"
| "operation_reason_value R_REQUIRED_DIRECTORY = lit ''required_directory''"
| "operation_reason_value R_EMPTY_DIRECTORY = lit ''empty_directory''"
| "operation_reason_value R_TARGET_ONLY = lit ''target_only''"
| "operation_reason_value R_DIRECTORY_CLEANUP = lit ''directory_cleanup''"
| "operation_reason_value R_UNSUPPORTED = lit ''unsupported''"
| "operation_reason_value R_CASE_MISMATCH = lit ''case_mismatch''"
| "operation_reason_value R_UNICODE_NORMALIZATION_MISMATCH = lit ''unicode_normalization_mismatch''"
| "operation_reason_value R_CASE_COLLISION = lit ''case_collision''"
| "operation_reason_value R_TYPE_COLLISION = lit ''type_collision''"
| "operation_reason_value R_POLICY_COLLISION = lit ''policy_collision''"

datatype blocked_reason =
  B_UNSUPPORTED | B_CASE_MISMATCH | B_CASE_COLLISION | B_TYPE_COLLISION
  | B_DESTINATION_COLLISION | B_BLOCKED_DEPENDENCY

fun blocked_reason_value :: "blocked_reason \<Rightarrow> pystr" where
  "blocked_reason_value B_UNSUPPORTED = lit ''unsupported''"
| "blocked_reason_value B_CASE_MISMATCH = lit ''case_mismatch''"
| "blocked_reason_value B_CASE_COLLISION = lit ''case_collision''"
| "blocked_reason_value B_TYPE_COLLISION = lit ''type_collision''"
| "blocked_reason_value B_DESTINATION_COLLISION = lit ''destination_collision''"
| "blocked_reason_value B_BLOCKED_DEPENDENCY = lit ''blocked_dependency''"

record preservation_policy =
  preserve_ads :: bool
  preserve_created :: bool
  preserve_acl :: bool

record filter_set =
  patterns :: "pystr list"

definition filter_set_post_init :: "filter_set \<Rightarrow> filter_set" where
  "filter_set_post_init f = f\<lparr>patterns := sort (remdups (map canonical_separators (patterns f)))\<rparr>"

definition filter_excludes :: "runtime \<Rightarrow> filter_set \<Rightarrow> pystr \<Rightarrow> bool res" where
  "filter_excludes rt f rel_path =
     bindE (normalize_relative_path (rt_upper rt) False rel_path) (\<lambda>key.
     bindE (mapE (normalize_relative_path (rt_upper rt) False) (win_ancestors rel_path)) (\<lambda>parents.
     Inr (\<exists>pattern \<in> set (patterns f).
            \<exists>candidate \<in> set (key # parents).
              rt_fnmatchcase rt candidate (uppercase_one_codepoint (rt_upper rt) pattern))))"

text \<open>
  The same question on a path that is known to validate; the planner asks it of record paths,
  which their constructors have validated.
\<close>

definition excludes :: "runtime \<Rightarrow> filter_set \<Rightarrow> pystr \<Rightarrow> bool" where
  "excludes rt f rel_path \<longleftrightarrow>
     (\<exists>pattern \<in> set (patterns f).
        \<exists>candidate \<in> set (map (path_key (rt_upper rt)) (rel_path # win_ancestors rel_path)).
          rt_fnmatchcase rt candidate (uppercase_one_codepoint (rt_upper rt) pattern))"

record destination_assignment =
  da_source :: pystr
  da_source_key :: pystr
  da_target :: pystr
  da_target_key :: pystr
  da_group_id :: "pystr option"
  da_conflict :: "pystr option"

definition destination_assignment_post_init ::
    "upper \<Rightarrow> destination_assignment \<Rightarrow> unit res" where
  "destination_assignment_post_init up a =
     bindE (normalize_relative_path up False (da_source a)) (\<lambda>source_key.
     bindE (raise_if (da_source_key a \<noteq> source_key)
       (ValueError ''source assignment key is not canonical'')) (\<lambda>_.
     bindE (normalize_relative_path up False (da_target a)) (\<lambda>target_key.
     raise_if (da_target_key a \<noteq> target_key)
       (ValueError ''target assignment key is not canonical''))))"

record assignment =
  as_policy_name :: pystr
  as_policy_version :: pystr
  as_items :: "destination_assignment list"

text \<open>A \<^verbatim>\<open>DestinationPolicy\<close>: its name, its version and its \<^verbatim>\<open>assign\<close>.\<close>

record destination_policy =
  dp_name :: pystr
  dp_version :: pystr
  dp_assign :: "file_record list \<Rightarrow> scan_result \<Rightarrow> assignment res"

definition identity_assign :: "upper \<Rightarrow> file_record list \<Rightarrow> scan_result \<Rightarrow> assignment res" where
  "identity_assign up records target =
     bindE (mapE (\<lambda>record.
         bindE (validate_relative_path up False (fr_rel_path record)) (\<lambda>target_path.
         bindE (normalize_relative_path up False (fr_rel_path record)) (\<lambda>target_key.
         let item = \<lparr>da_source = fr_rel_path record, da_source_key = fr_key record,
               da_target = target_path, da_target_key = target_key,
               da_group_id = None, da_conflict = None\<rparr>
         in bindE (destination_assignment_post_init up item) (\<lambda>_. Inr item))))
       (sort_key (\<lambda>r. (fr_key r, fr_rel_path r)) records)) (\<lambda>items.
     Inr \<lparr>as_policy_name = lit ''identity'', as_policy_version = lit ''1'', as_items = items\<rparr>)"

definition identity_destination_policy :: "upper \<Rightarrow> destination_policy" where
  "identity_destination_policy up = \<lparr>dp_name = lit ''identity'', dp_version = lit ''1'',
     dp_assign = identity_assign up\<rparr>"

record sync_options =
  so_deletion_policy :: deletion_policy
  so_preservation :: preservation_policy
  so_filters :: filter_set
  so_destination_policy :: destination_policy
  so_worker_count :: int
  so_trash_on_update :: bool
  so_propagate_source_casing :: bool
  so_internal_mirror_authorized :: bool

definition sync_options_post_init :: "sync_options \<Rightarrow> unit res" where
  "sync_options_post_init opts =
     bindE (raise_if (so_worker_count opts < 1) (ValueError ''worker count must be positive'')) (\<lambda>_.
     raise_if (so_deletion_policy opts = POLICY_MIRROR \<and> \<not> so_internal_mirror_authorized opts)
       (ValueError ''mirror deletion requires explicit internal authorization''))"

record mapping_pair =
  mp_source_key :: pystr
  mp_target :: pystr
  mp_target_key :: pystr
  mp_source_identity :: file_identity
  mp_target_identity :: "file_identity option"

definition mapping_pair_post_init :: "upper \<Rightarrow> mapping_pair \<Rightarrow> unit res" where
  "mapping_pair_post_init up p =
     bindE (validate_relative_path up False (mp_target p)) (\<lambda>_.
     bindE (normalize_relative_path up False (mp_target p)) (\<lambda>key.
     raise_if (mp_target_key p \<noteq> key) (ValueError ''mapping target key is not canonical'')))"

record mapping_snapshot =
  ms_source_volume_id :: "volume_id option"
  ms_target_volume_id :: "volume_id option"
  ms_pairs :: "mapping_pair list"
  ms_ambiguous_source_keys :: "pystr set"
  ms_disqualified_source :: "file_identity set"
  ms_disqualified_target :: "file_identity set"

definition mapping_snapshot_empty :: "volume_id option \<Rightarrow> volume_id option \<Rightarrow> mapping_snapshot" where
  "mapping_snapshot_empty source target = \<lparr>ms_source_volume_id = source,
     ms_target_volume_id = target, ms_pairs = [], ms_ambiguous_source_keys = {},
     ms_disqualified_source = {}, ms_disqualified_target = {}\<rparr>"

datatype scope_kind = S_EVERYTHING | S_PATTERN | S_EXPLICIT | S_RECORDED_RUN

section \<open>Operations and plans\<close>

type_synonym op_id = pystr

record plan_operation =
  po_op_id :: op_id
  po_kind :: operation_kind
  po_source :: "pystr option"
  po_target :: pystr
  po_source_expected :: "file_stat option"
  po_target_expected :: "file_stat option"
  po_intended :: "file_stat option"
  po_prior_target :: "pystr option"
  po_prior_expected :: "file_stat option"
  po_metadata :: "metadata_snapshot option"
  po_content_bytes :: int
  po_dependencies :: "op_id list"
  po_reason :: operation_reason
  po_blocked_reason :: "blocked_reason option"

definition po_blocked :: "plan_operation \<Rightarrow> bool" where
  "po_blocked op \<longleftrightarrow> po_blocked_reason op \<noteq> None"

definition validate_optional :: "upper \<Rightarrow> pystr option \<Rightarrow> unit res" where
  "validate_optional up p =
     (case p of None \<Rightarrow> Inr () | Some v \<Rightarrow> bindE (validate_relative_path up False v) (\<lambda>_. Inr ()))"

definition plan_operation_post_init :: "upper \<Rightarrow> plan_operation \<Rightarrow> unit res" where
  "plan_operation_post_init up op =
     bindE (raise_if (\<not> is_fixed_id (po_op_id op))
       (ValueError ''operation id must be 32 lowercase hexadecimal characters'')) (\<lambda>_.
     bindE (validate_optional up (po_source op)) (\<lambda>_.
     bindE (validate_relative_path up False (po_target op)) (\<lambda>_.
     bindE (validate_optional up (po_prior_target op)) (\<lambda>_.
     bindE (raise_if (po_content_bytes op < 0)
       (ValueError ''operation content bytes cannot be negative'')) (\<lambda>_.
     raise_if (\<not> distinct (po_dependencies op))
       (ValueError ''operation dependencies must be unique''))))))"

record plan =
  pl_source_root :: root
  pl_target_root :: root
  pl_source_volume_id :: "volume_id option"
  pl_target_volume_id :: "volume_id option"
  pl_source_volume_evidence :: "volume_evidence option"
  pl_target_volume_evidence :: "volume_evidence option"
  pl_source_profile :: capability_profile
  pl_target_profile :: capability_profile
  pl_source_complete :: bool
  pl_target_complete :: bool
  pl_operations :: "plan_operation list"
  pl_assignment :: assignment
  pl_preservation :: preservation_policy
  pl_filter_snapshot :: filter_set
  pl_deletion_policy :: deletion_policy
  pl_trash_on_update :: bool
  pl_policy_fingerprint :: pystr
  pl_worker_count :: int
  pl_required_volumes :: "volume_id list"
  pl_required_bytes :: int
  pl_fingerprint :: pystr

text \<open>The loop over the operations with the set of known ids.\<close>

fun check_operation_order :: "op_id set \<Rightarrow> plan_operation list \<Rightarrow> unit res" where
  "check_operation_order known [] = Inr ()"
| "check_operation_order known (op # ops) =
     (if po_op_id op \<in> known then Inl (ValueError ''duplicate operation id'')
      else if \<exists>d \<in> set (po_dependencies op). d \<notin> known
        then Inl (ValueError ''operations must be dependency ordered'')
      else check_operation_order (insert (po_op_id op) known) ops)"

definition plan_post_init :: "plan \<Rightarrow> unit res" where
  "plan_post_init p =
     bindE (raise_if (pl_worker_count p < 1 \<or> pl_required_bytes p < 0)
       (ValueError ''invalid plan capacity snapshot'')) (\<lambda>_.
     check_operation_order {} (pl_operations p))"

section \<open>Ids and fingerprints\<close>

definition jopt :: "('a \<Rightarrow> json) \<Rightarrow> 'a option \<Rightarrow> json" where
  "jopt f v = (case v of None \<Rightarrow> JNull | Some a \<Rightarrow> f a)"

definition jobj :: "(string \<times> json) list \<Rightarrow> json" where
  "jobj kvs = JObj (map (\<lambda>(k, v). (lit k, v)) kvs)"

definition intent_json ::
    "operation_kind \<Rightarrow> pystr option \<Rightarrow> pystr \<Rightarrow> pystr option \<Rightarrow> operation_reason \<Rightarrow> json" where
  "intent_json kind source target prior reason =
     jobj [(''kind'', JStr (operation_kind_value kind)), (''source'', jopt JStr source),
           (''target'', JStr target), (''prior_target'', jopt JStr prior),
           (''reason'', JStr (operation_reason_value reason))]"

definition deterministic_operation_id ::
    "runtime \<Rightarrow> operation_kind \<Rightarrow> pystr option \<Rightarrow> pystr \<Rightarrow> pystr option \<Rightarrow> operation_reason \<Rightarrow> op_id" where
  "deterministic_operation_id rt kind source target prior reason =
     take 32 (hexdigest (rt_sha256 rt
       (canonical_json_bytes (intent_json kind source target prior reason))))"

definition volume_id_json :: "volume_id \<Rightarrow> json" where
  "volume_id_json v = jobj [(''serial'', JStr (vol_serial v)), (''fs_type'', JStr (vol_fs_type v))]"

definition volume_evidence_json :: "volume_evidence \<Rightarrow> json" where
  "volume_evidence_json v = jobj [(''label'', jopt JStr (ve_label v)),
     (''device_id'', jopt JStr (ve_device_id v)), (''clone_ambiguous'', JBool (ve_clone_ambiguous v))]"

definition root_json :: "root \<Rightarrow> json" where
  "root_json r = jobj [(''path'', JStr (root_path r)), (''root_id'', JStr (root_id r))]"

definition capability_profile_json :: "capability_profile \<Rightarrow> json" where
  "capability_profile_json p = jobj [(''fs_type'', JStr (cp_fs_type p)),
     (''mtime_granularity_ns'', JInt (mtime_granularity_ns p)),
     (''stable_file_identity'', JBool (stable_file_identity p)),
     (''incurs_seek_penalty'', jopt JBool (incurs_seek_penalty p)),
     (''max_path'', JInt (max_path p)), (''supports_ads'', JBool (supports_ads p)),
     (''supports_hardlinks'', JBool (supports_hardlinks p))]"

definition file_identity_json :: "file_identity \<Rightarrow> json" where
  "file_identity_json i = jobj [(''volume_serial'', JStr (volume_serial i)),
     (''file_index'', JInt (file_index i))]"

definition metadata_json :: "metadata_snapshot \<Rightarrow> json" where
  "metadata_json m = jobj [(''attributes'', JInt (attributes m)),
     (''created_ns'', jopt JInt (created_ns m))]"

fun entry_kind_json :: "entry_kind \<Rightarrow> json" where
  "entry_kind_json FILE = JStr (lit ''file'')"
| "entry_kind_json DIRECTORY = JStr (lit ''directory'')"

definition file_stat_json :: "file_stat \<Rightarrow> json" where
  "file_stat_json s = jobj [(''kind'', entry_kind_json (st_kind s)), (''size'', JInt (st_size s)),
     (''mtime_ns'', JInt (st_mtime_ns s)),
     (''file_identity'', jopt file_identity_json (st_identity s)),
     (''nlink'', JInt (st_nlink s)), (''metadata'', metadata_json (st_metadata s))]"

definition plan_operation_json :: "plan_operation \<Rightarrow> json" where
  "plan_operation_json op = jobj [(''op_id'', JStr (po_op_id op)),
     (''kind'', JStr (operation_kind_value (po_kind op))),
     (''source_rel_path'', jopt JStr (po_source op)), (''target_rel_path'', JStr (po_target op)),
     (''source_expected'', jopt file_stat_json (po_source_expected op)),
     (''target_expected'', jopt file_stat_json (po_target_expected op)),
     (''intended'', jopt file_stat_json (po_intended op)),
     (''prior_target_rel_path'', jopt JStr (po_prior_target op)),
     (''prior_target_expected'', jopt file_stat_json (po_prior_expected op)),
     (''metadata'', jopt metadata_json (po_metadata op)),
     (''content_bytes'', JInt (po_content_bytes op)),
     (''dependencies'', JList (map JStr (po_dependencies op))),
     (''reason'', JStr (operation_reason_value (po_reason op))),
     (''blocked_reason'', jopt (\<lambda>b. JStr (blocked_reason_value b)) (po_blocked_reason op))]"

definition destination_assignment_json :: "destination_assignment \<Rightarrow> json" where
  "destination_assignment_json a = jobj [(''source_rel_path'', JStr (da_source a)),
     (''source_rel_path_key'', JStr (da_source_key a)), (''target_rel_path'', JStr (da_target a)),
     (''target_rel_path_key'', JStr (da_target_key a)), (''group_id'', jopt JStr (da_group_id a)),
     (''conflict'', jopt JStr (da_conflict a))]"

definition assignment_json :: "assignment \<Rightarrow> json" where
  "assignment_json a = jobj [(''policy_name'', JStr (as_policy_name a)),
     (''policy_version'', JStr (as_policy_version a)),
     (''items'', JList (map destination_assignment_json (as_items a)))]"

definition preservation_json :: "preservation_policy \<Rightarrow> json" where
  "preservation_json p = jobj [(''preserve_ads'', JBool (preserve_ads p)),
     (''preserve_created'', JBool (preserve_created p)), (''preserve_acl'', JBool (preserve_acl p))]"

definition filter_set_json :: "filter_set \<Rightarrow> json" where
  "filter_set_json f = jobj [(''patterns'', JList (map JStr (patterns f)))]"

definition plan_fields :: "plan \<Rightarrow> (string \<times> json) list" where
  "plan_fields p = [(''source_root'', root_json (pl_source_root p)),
     (''target_root'', root_json (pl_target_root p)),
     (''source_volume_id'', jopt volume_id_json (pl_source_volume_id p)),
     (''target_volume_id'', jopt volume_id_json (pl_target_volume_id p)),
     (''source_volume_evidence'', jopt volume_evidence_json (pl_source_volume_evidence p)),
     (''target_volume_evidence'', jopt volume_evidence_json (pl_target_volume_evidence p)),
     (''source_profile'', capability_profile_json (pl_source_profile p)),
     (''target_profile'', capability_profile_json (pl_target_profile p)),
     (''source_complete'', JBool (pl_source_complete p)),
     (''target_complete'', JBool (pl_target_complete p)),
     (''operations'', JList (map plan_operation_json (pl_operations p))),
     (''assignment'', assignment_json (pl_assignment p)),
     (''preservation'', preservation_json (pl_preservation p)),
     (''filter_snapshot'', filter_set_json (pl_filter_snapshot p)),
     (''deletion_policy'', JStr (deletion_policy_value (pl_deletion_policy p))),
     (''trash_on_update'', JBool (pl_trash_on_update p)),
     (''policy_fingerprint'', JStr (pl_policy_fingerprint p)),
     (''worker_count'', JInt (pl_worker_count p)),
     (''required_volumes'', json_set (map volume_id_json (pl_required_volumes p))),
     (''required_bytes'', JInt (pl_required_bytes p))]"

definition plan_fingerprint :: "runtime \<Rightarrow> plan \<Rightarrow> pystr" where
  "plan_fingerprint rt p =
     hexdigest (rt_sha256 rt (canonical_json_bytes (jobj (plan_fields p))))"

definition serialize_plan :: "plan \<Rightarrow> bytes" where
  "serialize_plan p =
     canonical_json_bytes (jobj (plan_fields p @ [(''fingerprint'', JStr (pl_fingerprint p))]))"

definition policy_fingerprint :: "runtime \<Rightarrow> sync_options \<Rightarrow> pystr" where
  "policy_fingerprint rt opts = hexdigest (rt_sha256 rt (canonical_json_bytes (jobj
     [(''deletion_policy'', JStr (deletion_policy_value (so_deletion_policy opts))),
      (''preservation'', preservation_json (so_preservation opts)),
      (''filters'', filter_set_json (so_filters opts)),
      (''destination_policy'', jobj [(''name'', JStr (dp_name (so_destination_policy opts))),
         (''version'', JStr (dp_version (so_destination_policy opts)))]),
      (''worker_count'', JInt (so_worker_count opts)),
      (''trash_on_update'', JBool (so_trash_on_update opts)),
      (''propagate_source_casing'', JBool (so_propagate_source_casing opts))])))"

definition selection_digest :: "runtime \<Rightarrow> op_id set \<Rightarrow> bytes" where
  "selection_digest rt selection =
     rt_sha256 rt (canonical_json_bytes (JList (map JStr (sorted_list_of_set selection))))"

section \<open>Capacity\<close>

definition displaced_stat :: "plan_operation \<Rightarrow> file_stat option" where
  "displaced_stat op =
     (case po_target_expected op of Some s \<Rightarrow> Some s | None \<Rightarrow> po_prior_expected op)"

definition operation_required_bytes ::
    "capability_profile \<Rightarrow> bool \<Rightarrow> plan_operation \<Rightarrow> int" where
  "operation_required_bytes profile trash_on_update op =
     (if po_blocked op then 0
      else (if po_kind op \<in> {COPY, UPDATE, MOVE_UPDATE} then po_content_bytes op else 0)
         + (if trash_on_update \<and> \<not> supports_hardlinks profile \<and> po_kind op \<in> {UPDATE, MOVE_UPDATE}
            then (case displaced_stat op of None \<Rightarrow> 0 | Some s \<Rightarrow> st_size s) else 0))"

definition calculate_required_bytes ::
    "plan_operation list \<Rightarrow> capability_profile \<Rightarrow> bool \<Rightarrow> int" where
  "calculate_required_bytes ops profile trash_on_update =
     foldl (\<lambda>required op. required + operation_required_bytes profile trash_on_update op) 0 ops"

section \<open>Quarantine\<close>

definition same_or_descendant :: "pystr \<Rightarrow> pystr \<Rightarrow> bool" where
  "same_or_descendant path ancestor \<longleftrightarrow> path = ancestor \<or> starts_with (ancestor @ [backslash]) path"

definition inside_any_region :: "pystr \<Rightarrow> pystr list \<Rightarrow> bool" where
  "inside_any_region path regions \<longleftrightarrow> (\<exists>region \<in> set regions. same_or_descendant path region)"

definition option_list :: "'a option \<Rightarrow> 'a list" where
  "option_list v = (case v of None \<Rightarrow> [] | Some a \<Rightarrow> [a])"

definition blocked_source_paths :: "upper \<Rightarrow> plan_operation list \<Rightarrow> pystr list" where
  "blocked_source_paths up ops =
     concat (map (\<lambda>op. map (path_key up) (option_list (po_source op))) (filter po_blocked ops))"

definition blocked_target_paths :: "upper \<Rightarrow> plan_operation list \<Rightarrow> pystr list" where
  "blocked_target_paths up ops =
     concat (map (\<lambda>op. map (path_key up) (po_target op # option_list (po_prior_target op)))
       (filter po_blocked ops))"

definition destructive_paths :: "upper \<Rightarrow> plan_operation \<Rightarrow> pystr list" where
  "destructive_paths up op =
     (if po_kind op \<in> {TRASH, DELETE} then [path_key up (po_target op)]
      else if po_kind op \<in> {MOVE, MOVE_UPDATE}
        then map (path_key up) (option_list (po_prior_target op))
      else [])"

definition quarantine_operation ::
    "upper \<Rightarrow> pystr list \<Rightarrow> pystr list \<Rightarrow> plan_operation \<Rightarrow> bool" where
  "quarantine_operation up sources targets op =
     (if po_blocked op then False
      else if \<exists>s \<in> set (option_list (po_source op)). inside_any_region (path_key up s) sources
        then True
      else if \<exists>path \<in> set (map (path_key up) (po_target op # option_list (po_prior_target op))).
                inside_any_region path targets
        then True
      else \<exists>destructive \<in> set (destructive_paths up op). \<exists>blocked \<in> set targets.
             same_or_descendant blocked destructive)"

definition quarantined_operation_ids :: "upper \<Rightarrow> plan_operation list \<Rightarrow> op_id set" where
  "quarantined_operation_ids up ops =
     set (map po_op_id (filter (quarantine_operation up (blocked_source_paths up ops)
                                  (blocked_target_paths up ops)) ops))"

end
