(* ===== verification/Samples.thy ===== *)
theory Samples
  imports Planning
begin

text \<open>
  Concrete values on which properties are instantiated: a runtime whose tables are ASCII and whose
  hash is a suffix of its input, a profile, stats, four operations and plans over them.
\<close>

text \<open>
  The hash returns the last 32 bytes of its input, last byte first: it has the length and the byte
  range of SHA-256 and tells the sample operations apart.
\<close>

definition sample_hash :: "bytes \<Rightarrow> bytes" where
  "sample_hash data = map (\<lambda>b. b mod 256) (take 32 (rev data @ replicate 32 0))"

definition sample_runtime :: runtime where
  "sample_runtime = \<lparr>rt_upper = ascii_upper, rt_nfc = (\<lambda>s. s), rt_fnmatchcase = (=),
     rt_sha256 = sample_hash\<rparr>"

definition sample_profile :: capability_profile where
  "sample_profile = \<lparr>cp_fs_type = lit ''NTFS'', mtime_granularity_ns = 100,
     stable_file_identity = True, incurs_seek_penalty = Some False, max_path = 32767,
     supports_ads = True, supports_hardlinks = True\<rparr>"

definition sample_volume :: volume_id where
  "sample_volume = \<lparr>vol_serial = lit ''A1'', vol_fs_type = lit ''NTFS''\<rparr>"

definition sample_metadata :: metadata_snapshot where
  "sample_metadata = \<lparr>attributes = 32, created_ns = None\<rparr>"

definition sample_stat :: "entry_kind \<Rightarrow> int \<Rightarrow> int \<Rightarrow> file_stat" where
  "sample_stat kind sz mtime = \<lparr>st_kind = kind, st_size = sz, st_mtime_ns = mtime,
     st_identity = None, st_nlink = 1, st_metadata = sample_metadata\<rparr>"

definition sample_id :: "nat \<Rightarrow> op_id" where
  "sample_id n = replicate 31 48 @ [48 + n]"

definition sample_operation ::
    "nat \<Rightarrow> operation_kind \<Rightarrow> pystr option \<Rightarrow> pystr \<Rightarrow> int \<Rightarrow> op_id list \<Rightarrow> blocked_reason option \<Rightarrow> plan_operation" where
  "sample_operation n kind source target sz deps blocked =
     \<lparr>po_op_id = sample_id n, po_kind = kind, po_source = source, po_target = target,
      po_source_expected = map_option (\<lambda>_. sample_stat FILE sz 1000) source,
      po_target_expected = (if kind \<in> {UPDATE, TRASH, DELETE} then Some (sample_stat FILE sz 5) else None),
      po_intended = None, po_prior_target = None, po_prior_expected = None, po_metadata = None,
      po_content_bytes = (if kind \<in> {COPY, UPDATE} then sz else 0), po_dependencies = deps,
      po_reason = R_SOURCE_ONLY, po_blocked_reason = blocked\<rparr>"

text \<open>A blocked directory, a copy into it, an independent copy and an update.\<close>

definition sample_mkdir :: plan_operation where
  "sample_mkdir = sample_operation 0 MKDIR (Some (lit ''d'')) (lit ''d'') 0 [] (Some B_TYPE_COLLISION)"

definition sample_copy_into :: plan_operation where
  "sample_copy_into = sample_operation 1 COPY (Some (lit ''e'')) (lit ''e'') 3 [sample_id 0] None"

definition sample_copy :: plan_operation where
  "sample_copy = sample_operation 2 COPY (Some (lit ''a'')) (lit ''a'') 7 [] None"

definition sample_trash :: plan_operation where
  "sample_trash = sample_operation 3 TRASH None (lit ''old'') 9 [] None"

definition sample_plan :: "plan_operation list \<Rightarrow> plan" where
  "sample_plan ops = \<lparr>
     pl_source_root = \<lparr>root_path = lit ''C:'', root_id = lit ''s''\<rparr>,
     pl_target_root = \<lparr>root_path = lit ''D:'', root_id = lit ''t''\<rparr>,
     pl_source_volume_id = Some sample_volume, pl_target_volume_id = Some sample_volume,
     pl_source_volume_evidence = None, pl_target_volume_evidence = None,
     pl_source_profile = sample_profile, pl_target_profile = sample_profile,
     pl_source_complete = True, pl_target_complete = True, pl_operations = ops,
     pl_assignment = \<lparr>as_policy_name = lit ''identity'', as_policy_version = lit ''1'', as_items = []\<rparr>,
     pl_preservation = \<lparr>preserve_ads = True, preserve_created = True, preserve_acl = False\<rparr>,
     pl_filter_snapshot = \<lparr>patterns = []\<rparr>, pl_deletion_policy = POLICY_TRASH,
     pl_trash_on_update = True, pl_policy_fingerprint = lit ''f'', pl_worker_count = 1,
     pl_required_volumes = [sample_volume], pl_required_bytes = 10, pl_fingerprint = lit ''p''\<rparr>"

definition sample_operations :: "plan_operation list" where
  "sample_operations = [sample_mkdir, sample_copy_into, sample_copy, sample_trash]"

text \<open>Two scans: the source holds one file, the target another one in a directory of its own.\<close>

definition sample_file :: "pystr \<Rightarrow> int \<Rightarrow> file_record" where
  "sample_file path sz = \<lparr>fr_rel_path = path, fr_key = path_key ascii_upper path, fr_size = sz,
     fr_mtime_ns = 1000, fr_identity = None, fr_nlink = 1, fr_metadata = sample_metadata\<rparr>"

definition sample_dir :: "pystr \<Rightarrow> dir_record" where
  "sample_dir path = \<lparr>dr_rel_path = path, dr_key = path_key ascii_upper path, dr_mtime_ns = 1000,
     dr_metadata = sample_metadata, dr_identity = None, dr_nlink = 1\<rparr>"

definition sample_scan :: "pystr \<Rightarrow> file_record list \<Rightarrow> dir_record list \<Rightarrow> scan_result" where
  "sample_scan name files dirs = \<lparr>sr_root = \<lparr>root_path = name, root_id = name\<rparr>,
     sr_volume_id = Some sample_volume, sr_volume_evidence = None, sr_profile = sample_profile,
     sr_files = files, sr_directories = dirs, sr_unsupported = [], sr_warnings = [],
     sr_ignore_snapshot = default_ignore_set, sr_scope = scan_scope_full, sr_complete = True\<rparr>"

definition sample_options :: "deletion_policy \<Rightarrow> sync_options" where
  "sample_options policy = \<lparr>so_deletion_policy = policy,
     so_preservation = \<lparr>preserve_ads = True, preserve_created = True, preserve_acl = False\<rparr>,
     so_filters = \<lparr>patterns = []\<rparr>,
     so_destination_policy = identity_destination_policy ascii_upper, so_worker_count = 1,
     so_trash_on_update = True, so_propagate_source_casing = False,
     so_internal_mirror_authorized = False\<rparr>"

definition sample_source :: scan_result where
  "sample_source = sample_scan (lit ''s'') [sample_file (lit ''a'') 7] []"

definition sample_target :: scan_result where
  "sample_target = sample_scan (lit ''t'') [sample_file (lit ''d'' @ [92] @ lit ''b'') 9] [sample_dir (lit ''d'')]"

lemmas eval_scans =
  sample_file_def sample_dir_def sample_scan_def sample_options_def sample_source_def sample_target_def
  sample_profile_def sample_volume_def sample_metadata_def scan_scope_full_def default_ignore_set_def

lemmas eval_samples =
  sample_operations_def sample_mkdir_def sample_copy_into_def sample_copy_def sample_trash_def
  sample_operation_def sample_stat_def sample_metadata_def sample_plan_def sample_profile_def
  sample_volume_def

lemma sample_id_eq [simp]: "sample_id m = sample_id n \<longleftrightarrow> m = n"
  by (simp add: sample_id_def)

end
