(* ===== verification/Planning_Lemmas.thy ===== *)
theory Planning_Lemmas
  imports Samples
begin

text \<open>
  Lemmas on the contracts of \<^verbatim>\<open>core/planning.py\<close>: the constructor check of a plan is exactly
  dependency order with unique ids, capacity is additive, filters never raise on validated paths,
  and the region order behind the quarantine.
\<close>

section \<open>Dependency order\<close>

definition dependency_ordered :: "plan_operation list \<Rightarrow> bool" where
  "dependency_ordered ops \<longleftrightarrow>
     distinct (map po_op_id ops) \<and>
     (\<forall>i < length ops. \<forall>d \<in> set (po_dependencies (ops ! i)). d \<in> set (map po_op_id (take i ops)))"

lemma check_operation_order_append:
  "check_operation_order known (xs @ ys) = Inr () \<longleftrightarrow>
     check_operation_order known xs = Inr () \<and>
     check_operation_order (known \<union> set (map po_op_id xs)) ys = Inr ()"
  by (induction xs arbitrary: known) auto

lemma check_operation_order_mono:
  "check_operation_order known ops = Inr () \<Longrightarrow> known \<subseteq> known' \<Longrightarrow>
   known' \<inter> set (map po_op_id ops) = {} \<Longrightarrow> check_operation_order known' ops = Inr ()"
proof (induction ops arbitrary: known known')
  case Nil
  then show ?case by simp
next
  case (Cons op ops)
  have "check_operation_order (insert (po_op_id op) known') ops = Inr ()"
  proof (rule Cons.IH)
    show "check_operation_order (insert (po_op_id op) known) ops = Inr ()"
      using Cons.prems by (auto split: if_splits)
    show "insert (po_op_id op) known \<subseteq> insert (po_op_id op) known'"
      using Cons.prems by auto
    have "po_op_id op \<notin> set (map po_op_id ops)"
      using \<open>check_operation_order (insert (po_op_id op) known) ops = Inr ()\<close>
    proof (induction ops arbitrary: known)
      case (Cons o1 os)
      then have "check_operation_order (insert (po_op_id op) (insert (po_op_id o1) known)) os = Inr ()"
        by (auto simp: insert_commute split: if_splits)
      with Cons show ?case by (auto split: if_splits)
    qed simp
    then show "insert (po_op_id op) known' \<inter> set (map po_op_id ops) = {}"
      using Cons.prems by auto
  qed
  with Cons.prems show ?case by (auto split: if_splits)
qed

lemma check_operation_order_iff:
  "check_operation_order known ops = Inr () \<longleftrightarrow>
     distinct (map po_op_id ops) \<and> known \<inter> set (map po_op_id ops) = {} \<and>
     (\<forall>i < length ops. \<forall>d \<in> set (po_dependencies (ops ! i)).
        d \<in> known \<union> set (map po_op_id (take i ops)))"
proof (induction ops arbitrary: known)
  case Nil
  then show ?case by simp
next
  case (Cons op ops)
  have "(\<forall>i < length (op # ops). \<forall>d \<in> set (po_dependencies ((op # ops) ! i)).
           d \<in> known \<union> set (map po_op_id (take i (op # ops)))) \<longleftrightarrow>
        (\<forall>d \<in> set (po_dependencies op). d \<in> known) \<and>
        (\<forall>i < length ops. \<forall>d \<in> set (po_dependencies (ops ! i)).
           d \<in> insert (po_op_id op) known \<union> set (map po_op_id (take i ops)))"
    by (auto simp: All_less_Suc2)
  with Cons show ?case by auto
qed

lemma plan_post_init_ok_iff:
  "plan_post_init p = Inr () \<longleftrightarrow>
     1 \<le> pl_worker_count p \<and> 0 \<le> pl_required_bytes p \<and> dependency_ordered (pl_operations p)"
  by (auto simp: plan_post_init_def bindE_eq_Inr check_operation_order_iff dependency_ordered_def)

lemma dependency_ordered_member:
  assumes "dependency_ordered ops" and "op \<in> set ops" and "d \<in> set (po_dependencies op)"
  shows "\<exists>dep \<in> set ops. po_op_id dep = d \<and> dep \<noteq> op"
proof -
  obtain i where i: "i < length ops" "op = ops ! i"
    using assms(2) by (auto simp: in_set_conv_nth)
  then have "d \<in> set (map po_op_id (take i ops))"
    using assms by (auto simp: dependency_ordered_def)
  then obtain j where j: "j < i" "d = po_op_id (ops ! j)"
    using i by (auto simp: in_set_conv_nth)
  have "ops ! j \<noteq> op"
    using assms(1) i j unfolding dependency_ordered_def distinct_conv_nth
    by (metis length_map nth_map less_trans nat_neq_iff)
  then show ?thesis
    using i j by (intro bexI [of _ "ops ! j"]) auto
qed

lemma op_id_inj:
  "dependency_ordered ops \<Longrightarrow> a \<in> set ops \<Longrightarrow> b \<in> set ops \<Longrightarrow> po_op_id a = po_op_id b \<Longrightarrow> a = b"
  by (auto simp: dependency_ordered_def distinct_map inj_on_def)

section \<open>Capacity\<close>

lemma calculate_required_bytes_sum:
  "calculate_required_bytes ops profile t = (\<Sum>op \<leftarrow> ops. operation_required_bytes profile t op)"
proof -
  have "foldl (\<lambda>r op. r + operation_required_bytes profile t op) a ops
          = a + (\<Sum>op \<leftarrow> ops. operation_required_bytes profile t op)" for a
    by (induction ops arbitrary: a) auto
  then show ?thesis by (simp add: calculate_required_bytes_def)
qed

definition nonneg_operation :: "plan_operation \<Rightarrow> bool" where
  "nonneg_operation op \<longleftrightarrow> 0 \<le> po_content_bytes op \<and>
     (\<forall>s. po_target_expected op = Some s \<or> po_prior_expected op = Some s \<longrightarrow> 0 \<le> st_size s)"

lemma operation_required_bytes_nonneg:
  "nonneg_operation op \<Longrightarrow> 0 \<le> operation_required_bytes profile t op"
  by (auto simp: operation_required_bytes_def nonneg_operation_def displaced_stat_def
        split: option.splits)

lemma required_bytes_filter_le:
  assumes "\<forall>op \<in> set ops. nonneg_operation op"
  shows "calculate_required_bytes (filter P ops) profile t \<le> calculate_required_bytes ops profile t"
  using assms
  by (induction ops)
     (auto simp: calculate_required_bytes_sum intro: add_mono operation_required_bytes_nonneg add_increasing)

lemma required_bytes_nonneg:
  "\<forall>op \<in> set ops. nonneg_operation op \<Longrightarrow> 0 \<le> calculate_required_bytes ops profile t"
  by (auto simp: calculate_required_bytes_sum intro!: sum_list_nonneg operation_required_bytes_nonneg)

section \<open>Filters\<close>

lemma mapE_normalize_safe:
  assumes "upper_laws up" and "\<forall>p \<in> set ps. p \<noteq> [] \<and> safe_relative_path up (canonical_separators p)"
  shows "mapE (normalize_relative_path up False) ps = Inr (map (path_key up) ps)"
  using assms
  by (induction ps) (auto simp: validate_iff intro!: normalize_valid [THEN arg_cong] simp del: bindE_simps
        simp: bindE_simps normalize_valid [where c = "canonical_separators _"])

lemma filter_excludes_total:
  assumes "upper_laws (rt_upper rt)" and "p \<noteq> []" and "safe_relative_path (rt_upper rt) p"
  shows "filter_excludes rt f p = Inr (excludes rt f p)"
proof -
  have c: "canonical_separators p = p"
    using assms(3) by (rule safe_canonical)
  have key: "normalize_relative_path (rt_upper rt) False p = Inr (path_key (rt_upper rt) p)"
    by (rule normalize_valid [where c = p]) (use assms c in \<open>simp add: validate_iff\<close>)
  have "\<forall>q \<in> set (win_ancestors p). q \<noteq> [] \<and> safe_relative_path (rt_upper rt) (canonical_separators q)"
    using win_ancestors_safe [OF assms(3)] by (metis safe_canonical safe_not_Nil)
  then show ?thesis
    using key mapE_normalize_safe [OF assms(1)] by (simp add: filter_excludes_def excludes_def)
qed

section \<open>The order of regions\<close>

text \<open>
  Containment of comparison keys. A client reasons about regions from these laws only: a region
  contains itself, containment composes, and two regions that contain the same path are nested.
\<close>

locale region_order =
  fixes within :: "'p \<Rightarrow> 'p \<Rightarrow> bool"
  assumes within_refl: "within p p"
    and within_trans: "within p q \<Longrightarrow> within q r \<Longrightarrow> within p r"
    and within_antisym: "within p q \<Longrightarrow> within q p \<Longrightarrow> p = q"
    and within_nested: "within p q \<Longrightarrow> within p r \<Longrightarrow> within q r \<or> within r q"
begin

definition overlap :: "'p \<Rightarrow> 'p \<Rightarrow> bool" where
  "overlap p q \<longleftrightarrow> within p q \<or> within q p"

lemma overlap_sym: "overlap p q \<longleftrightarrow> overlap q p"
  by (auto simp: overlap_def)

lemma disjoint_below:
  assumes "\<not> overlap p q" and "within p' p" and "within q' q"
  shows "\<not> overlap p' q'"
  using assms within_trans within_nested unfolding overlap_def by meson

lemma disjoint_below_neq:
  assumes "\<not> overlap p q" and "within p' p" and "within q' q"
  shows "p' \<noteq> q'"
  using disjoint_below [OF assms] within_refl by (auto simp: overlap_def)

end

lemma same_or_descendant_refl: "same_or_descendant p p"
  by (simp add: same_or_descendant_def)

lemma same_or_descendant_trans:
  "same_or_descendant p q \<Longrightarrow> same_or_descendant q r \<Longrightarrow> same_or_descendant p r"
  by (auto simp: same_or_descendant_def starts_with_iff)

lemma same_or_descendant_antisym:
  "same_or_descendant p q \<Longrightarrow> same_or_descendant q p \<Longrightarrow> p = q"
  by (auto simp: same_or_descendant_def starts_with_iff)

lemma same_or_descendant_nested:
  assumes "same_or_descendant p q" and "same_or_descendant p r"
  shows "same_or_descendant q r \<or> same_or_descendant r q"
proof -
  have "(q @ [backslash]) @ a = (r @ [backslash]) @ b \<Longrightarrow>
          same_or_descendant q r \<or> same_or_descendant r q" for a b
    unfolding same_or_descendant_def starts_with_iff append_eq_append_conv2
    by (auto simp: append_eq_append_conv2 Cons_eq_append_conv append_eq_Cons_conv)
  with assms show ?thesis
    by (auto simp: same_or_descendant_def starts_with_iff)
qed

interpretation region: region_order same_or_descendant
  by unfold_locales
     (auto intro: same_or_descendant_refl same_or_descendant_trans same_or_descendant_antisym
       dest: same_or_descendant_nested)

section \<open>Properties\<close>

lemma sample_operations_ordered: "dependency_ordered sample_operations"
  using check_operation_order_iff [of "{}" sample_operations]
  by (simp add: dependency_ordered_def) (simp add: eval_samples)

text \<open>C24: The constructor of a plan accepts exactly the dependency-ordered plans: operation ids are
  unique and every dependency of an operation names an earlier operation; worker count and required
  bytes are in range.\<close>

theorem plan_constructor_dependency_ordered:
  "plan_post_init p = Inr () \<longleftrightarrow>
     1 \<le> pl_worker_count p \<and> 0 \<le> pl_required_bytes p \<and>
     distinct (map po_op_id (pl_operations p)) \<and>
     (\<forall>i < length (pl_operations p). \<forall>d \<in> set (po_dependencies (pl_operations p ! i)).
        \<exists>j < i. po_op_id (pl_operations p ! j) = d)"
proof -
  have "d \<in> set (map po_op_id (take i ops)) \<longleftrightarrow> (\<exists>j < i. po_op_id (ops ! j) = d)"
    if "i < length ops" for d i and ops :: "plan_operation list"
    using nth_image [of i ops] that by (auto simp flip: nth_image)
  then show ?thesis
    unfolding plan_post_init_ok_iff dependency_ordered_def by blast
qed

theorem plan_constructor_dependency_ordered_witness:
  "sample_id 0 \<in> set (po_dependencies (sample_operations ! 1)) \<and>
   po_op_id (sample_operations ! 0) = sample_id 0"
proof -
  have "plan_post_init (sample_plan sample_operations) = Inr ()"
    by (simp add: plan_post_init_def eval_samples)
  then have "\<exists>j < 1. po_op_id (sample_operations ! j) = sample_id 0"
    using plan_constructor_dependency_ordered [of "sample_plan sample_operations"]
    by (auto simp: eval_samples All_less_Suc2)
  then show ?thesis by (simp add: eval_samples)
qed

text \<open>Selecting a subset of the operations of a plan never raises its capacity requirement, and
  the requirement is never negative.\<close>

theorem required_bytes_monotone:
  assumes "\<forall>op \<in> set ops. nonneg_operation op"
  shows "0 \<le> calculate_required_bytes (filter P ops) profile trash_on_update \<and>
         calculate_required_bytes (filter P ops) profile trash_on_update
           \<le> calculate_required_bytes ops profile trash_on_update"
  using required_bytes_filter_le [OF assms] required_bytes_nonneg [of "filter P ops"] assms by simp

theorem required_bytes_monotone_witness:
  "calculate_required_bytes (filter (\<lambda>op. po_kind op = COPY) sample_operations) sample_profile True
     \<le> calculate_required_bytes sample_operations sample_profile True"
proof -
  have "\<forall>op \<in> set sample_operations. nonneg_operation op"
    by (simp add: eval_samples nonneg_operation_def)
  then show ?thesis
    using required_bytes_monotone by blast
qed

end
