(* ===== verification/Evidence.thy ===== *)
theory Evidence
  imports Models
begin

text \<open>
  Outcome and content-evidence vocabulary (\<^verbatim>\<open>core/evidence.py\<close>). A timestamp is the pair of its
  microseconds and its offset from UTC in seconds, \<open>None\<close> for a naive one.
\<close>

datatype outcome =
  O_SUCCEEDED | O_SKIPPED | O_FAILED | O_CANCELED | O_DEFERRED | O_BLOCKED

fun outcome_value :: "outcome \<Rightarrow> pystr" where
  "outcome_value O_SUCCEEDED = lit ''succeeded''"
| "outcome_value O_SKIPPED = lit ''skipped''"
| "outcome_value O_FAILED = lit ''failed''"
| "outcome_value O_CANCELED = lit ''canceled''"
| "outcome_value O_DEFERRED = lit ''deferred''"
| "outcome_value O_BLOCKED = lit ''blocked''"

datatype recording_status = REC_OK | REC_DEGRADED

fun recording_status_value :: "recording_status \<Rightarrow> pystr" where
  "recording_status_value REC_OK = lit ''ok''"
| "recording_status_value REC_DEGRADED = lit ''degraded''"

datatype provenance = COPY_ATTESTED | READBACK_ATTESTED | VERIFY_ATTESTED

record datetime =
  dt_micros :: int
  dt_utcoffset :: "int option"

definition require_utc :: "datetime \<Rightarrow> unit res" where
  "require_utc t =
     bindE (raise_if (dt_utcoffset t = None) (ValueError ''must be timezone-aware'')) (\<lambda>_.
     raise_if (dt_utcoffset t \<noteq> Some 0) (ValueError ''must be UTC''))"

record content_evidence =
  ce_algorithm :: pystr
  ce_digest :: bytes
  ce_size :: int
  ce_provenance :: provenance
  ce_observed_at :: datetime

definition content_evidence_post_init :: "content_evidence \<Rightarrow> unit res" where
  "content_evidence_post_init c =
     bindE (raise_if (ce_algorithm c \<noteq> lit ''sha256'')
       (ValueError ''only sha256 evidence is supported'')) (\<lambda>_.
     bindE (raise_if (length (ce_digest c) \<noteq> 32)
       (ValueError ''sha256 digest must contain exactly 32 bytes'')) (\<lambda>_.
     bindE (raise_if (ce_size c < 0) (ValueError ''evidence size cannot be negative'')) (\<lambda>_.
     require_utc (ce_observed_at c))))"

record attestation =
  at_content :: content_evidence
  at_subject :: file_stat

lemma require_utc_ok [result_simps]: "require_utc t = Inr u \<longleftrightarrow> dt_utcoffset t = Some 0"
  by (auto simp: require_utc_def result_simps)

end
