(* ===== verification/Execution_Set.thy ===== *)
theory Execution_Set
  imports Complex_Main Planning_Lemmas Evidence
begin

text \<open>
  Executor continuation state (\<^verbatim>\<open>core/execution.py\<close>): run ids, commitments, execution sets with the
  operations that remain, and the typed reasons and failure decisions of the executor.
\<close>

definition validated_run_id :: "pystr \<Rightarrow> pystr res" where
  "validated_run_id value =
     (if is_fixed_id value then Inr value
      else Inl (ValueError ''run id must contain exactly 32 lowercase hex digits''))"

record commitment =
  cm_plan_fingerprint :: pystr
  cm_selection_digest :: bytes
  cm_committed_at :: datetime

definition commitment_post_init :: "commitment \<Rightarrow> unit res" where
  "commitment_post_init c =
     bindE (raise_if (cm_plan_fingerprint c = [])
       (ValueError ''commitment plan fingerprint is required'')) (\<lambda>_.
     bindE (raise_if (length (cm_selection_digest c) \<noteq> 32)
       (ValueError ''commitment selection digest must contain 32 bytes'')) (\<lambda>_.
     require_utc (cm_committed_at c)))"

record execution_set =
  xs_plan :: plan
  xs_selection :: "op_id set"
  xs_run_id :: pystr
  xs_status :: "op_id \<rightharpoonup> outcome"
  xs_commitment :: "commitment option"

definition execution_set_post_init :: "execution_set \<Rightarrow> unit res" where
  "execution_set_post_init x =
     bindE (validated_run_id (xs_run_id x)) (\<lambda>_.
     bindE (raise_if (\<not> xs_selection x \<subseteq> set (map po_op_id (pl_operations (xs_plan x))))
       (ValueError ''selection contains unknown operation ids'')) (\<lambda>_.
     raise_if (\<not> dom (xs_status x) \<subseteq> xs_selection x)
       (ValueError ''status contains unselected operation ids'')))"

definition xs_remaining :: "execution_set \<Rightarrow> plan_operation list" where
  "xs_remaining x =
     filter (\<lambda>op. po_op_id op \<in> xs_selection x \<and> xs_status x (po_op_id op) = None)
       (pl_operations (xs_plan x))"

datatype execution_reason =
    E_NOOP | E_ALREADY_EXISTS | E_BLOCKED | E_DEPENDENCY_FAILED | E_SOURCE_DRIFT | E_TARGET_DRIFT
  | E_DESTINATION_OCCUPIED | E_WRONG_TYPE | E_SOURCE_MISSING | E_TARGET_MISSING | E_TRASH_COLLISION
  | E_UNSAFE_PATH | E_SHARING_VIOLATION | E_ACL_COPY_FAILED | E_CLEANUP_FAILED | E_IO_ERROR
  | E_POLICY_STOP | E_CANCELED | E_RECORDER_FAILED

text \<open>The retry delay is a float in the code and only passed on to \<^verbatim>\<open>sleep\<close>; here it is a real.\<close>

datatype failure_decision = Continue | Stop | Retry real

definition retry_post_init :: "real \<Rightarrow> unit res" where
  "retry_post_init after = raise_if (after < 0) (ValueError ''retry delay cannot be negative'')"

record copy_digest =
  cd_digest :: bytes
  cd_size :: int

definition copy_digest_post_init :: "copy_digest \<Rightarrow> unit res" where
  "copy_digest_post_init d =
     bindE (raise_if (length (cd_digest d) \<noteq> 32) (ValueError ''copy digest must be SHA-256'')) (\<lambda>_.
     raise_if (cd_size d < 0) (ValueError ''copied size cannot be negative''))"

lemma set_remaining:
  "set (xs_remaining x) =
     {op \<in> set (pl_operations (xs_plan x)). po_op_id op \<in> xs_selection x \<and> xs_status x (po_op_id op) = None}"
  by (auto simp: xs_remaining_def)

end
