(* ===== verification/Preflight.thy ===== *)
theory Preflight
  imports Execution_Set
begin

text \<open>
  Scoped observation and execution judgment (\<^verbatim>\<open>core/preflight.py\<close> and \<^verbatim>\<open>modules/preflight.py\<close>). The
  observation file system and the settings reader are protocols of the source; they are records of
  functions whose results are a value or the exception raised. \<open>preflight\<close> collects every applicable
  refusal, drops duplicates and orders them; the verdict is positive exactly when none was found.
\<close>

section \<open>Observations and verdicts\<close>

type_synonym subject = "pystr \<times> pystr"

record stat_observation =
  ob_stat :: "file_stat option"
  ob_error :: "pystr option"
  ob_contained :: bool
  ob_representable :: bool

record root_observation =
  ro_resolved_path :: "pystr option"
  ro_volume_id :: "volume_id option"
  ro_volume_evidence :: "volume_evidence option"
  ro_error :: "pystr option"

record trash_observation =
  to_resolved_path :: "pystr option"
  to_available :: bool
  to_contained :: bool
  to_same_volume :: bool
  to_writable :: bool
  to_reparse_safe :: bool
  to_error :: "pystr option"

record observed_world =
  ow_stats :: "(subject, stat_observation) dict"
  ow_paths :: "(subject, pystr) dict"
  ow_target_parent_paths :: "pystr set"
  ow_roots :: "(pystr, root_observation) dict"
  ow_free_space :: "int option"
  ow_reclaimable_temp_bytes :: int
  ow_trash :: "trash_observation option"
  ow_current_filters :: filter_set
  ow_current_policy_fingerprint :: pystr
  ow_observed_at :: datetime
  ow_settings_error :: "pystr option"

definition observed_world_post_init :: "observed_world \<Rightarrow> unit res" where
  "observed_world_post_init w =
     bindE (raise_if (case ow_free_space w of None \<Rightarrow> False | Some f \<Rightarrow> f < 0)
       (ValueError ''free space cannot be negative'')) (\<lambda>_.
     bindE (raise_if (ow_reclaimable_temp_bytes w < 0)
       (ValueError ''reclaimable temp bytes cannot be negative'')) (\<lambda>_.
     require_utc (ow_observed_at w)))"

datatype refusal_code =
    RC_INCOMPLETE_SOURCE_SCAN | RC_INCOMPLETE_TARGET_SCAN | RC_ROOT_UNAVAILABLE | RC_ROOT_CHANGED
  | RC_ROOTS_OVERLAP | RC_VOLUME_CLONE_AMBIGUOUS | RC_SELECTION_NOT_CLOSED | RC_OPERATION_BLOCKED
  | RC_BLOCKED_CORRESPONDENCE | RC_DEPENDENCY_UNAVAILABLE | RC_OBSERVATION_UNAVAILABLE
  | RC_SOURCE_DRIFT | RC_TARGET_DRIFT | RC_DESTINATION_APPEARED | RC_TYPE_CHANGED
  | RC_IDENTITY_CHANGED | RC_SIZE_CHANGED | RC_MTIME_CHANGED | RC_METADATA_CHANGED
  | RC_FILTER_DRIFT | RC_OPTIONS_DRIFT | RC_INSUFFICIENT_SPACE | RC_TRASH_UNAVAILABLE
  | RC_TRASH_ESCAPE | RC_TRASH_OFF_VOLUME | RC_TRASH_NOT_WRITABLE | RC_TRASH_REPARSE
  | RC_PATH_ESCAPE | RC_PATH_UNREPRESENTABLE

fun refusal_code_value :: "refusal_code \<Rightarrow> pystr" where
  "refusal_code_value RC_INCOMPLETE_SOURCE_SCAN = lit ''incomplete_source_scan''"
| "refusal_code_value RC_INCOMPLETE_TARGET_SCAN = lit ''incomplete_target_scan''"
| "refusal_code_value RC_ROOT_UNAVAILABLE = lit ''root_unavailable''"
| "refusal_code_value RC_ROOT_CHANGED = lit ''root_changed''"
| "refusal_code_value RC_ROOTS_OVERLAP = lit ''roots_overlap''"
| "refusal_code_value RC_VOLUME_CLONE_AMBIGUOUS = lit ''volume_clone_ambiguous''"
| "refusal_code_value RC_SELECTION_NOT_CLOSED = lit ''selection_not_closed''"
| "refusal_code_value RC_OPERATION_BLOCKED = lit ''operation_blocked''"
| "refusal_code_value RC_BLOCKED_CORRESPONDENCE = lit ''blocked_correspondence''"
| "refusal_code_value RC_DEPENDENCY_UNAVAILABLE = lit ''dependency_unavailable''"
| "refusal_code_value RC_OBSERVATION_UNAVAILABLE = lit ''observation_unavailable''"
| "refusal_code_value RC_SOURCE_DRIFT = lit ''source_drift''"
| "refusal_code_value RC_TARGET_DRIFT = lit ''target_drift''"
| "refusal_code_value RC_DESTINATION_APPEARED = lit ''destination_appeared''"
| "refusal_code_value RC_TYPE_CHANGED = lit ''type_changed''"
| "refusal_code_value RC_IDENTITY_CHANGED = lit ''identity_changed''"
| "refusal_code_value RC_SIZE_CHANGED = lit ''size_changed''"
| "refusal_code_value RC_MTIME_CHANGED = lit ''mtime_changed''"
| "refusal_code_value RC_METADATA_CHANGED = lit ''metadata_changed''"
| "refusal_code_value RC_FILTER_DRIFT = lit ''filter_drift''"
| "refusal_code_value RC_OPTIONS_DRIFT = lit ''options_drift''"
| "refusal_code_value RC_INSUFFICIENT_SPACE = lit ''insufficient_space''"
| "refusal_code_value RC_TRASH_UNAVAILABLE = lit ''trash_unavailable''"
| "refusal_code_value RC_TRASH_ESCAPE = lit ''trash_escape''"
| "refusal_code_value RC_TRASH_OFF_VOLUME = lit ''trash_off_volume''"
| "refusal_code_value RC_TRASH_NOT_WRITABLE = lit ''trash_not_writable''"
| "refusal_code_value RC_TRASH_REPARSE = lit ''trash_reparse''"
| "refusal_code_value RC_PATH_ESCAPE = lit ''path_escape''"
| "refusal_code_value RC_PATH_UNREPRESENTABLE = lit ''path_unrepresentable''"

record refusal =
  rf_code :: refusal_code
  rf_op_id :: "op_id option"
  rf_subject :: "subject option"
  rf_detail :: "pystr option"

record verdict =
  vd_ok :: bool
  vd_refusals :: "refusal list"
  vd_observed :: observed_world

definition verdict_post_init :: "verdict \<Rightarrow> unit res" where
  "verdict_post_init v = raise_if (vd_ok v = (vd_refusals v \<noteq> []))
     (ValueError ''verdict ok flag must agree with refusals'')"

definition refuse :: "refusal_code \<Rightarrow> op_id option \<Rightarrow> subject option \<Rightarrow> pystr \<Rightarrow> refusal" where
  "refuse code op_id subject detail =
     \<lparr>rf_code = code, rf_op_id = op_id, rf_subject = subject, rf_detail = Some detail\<rparr>"

text \<open>
  Two places pass an observation's \<^verbatim>\<open>error\<close> on as the detail even when it is \<^verbatim>\<open>None\<close>.
\<close>

definition refuse_error :: "refusal_code \<Rightarrow> pystr option \<Rightarrow> refusal" where
  "refuse_error code err =
     \<lparr>rf_code = code, rf_op_id = None, rf_subject = None, rf_detail = err\<rparr>"

section \<open>Observation\<close>

text \<open>What a collaborator can raise; \<^verbatim>\<open>PermissionError\<close> is an \<^verbatim>\<open>OSError\<close>.\<close>

datatype ext_error = OSErr pystr | ValueErr pystr | OtherErr pystr

fun ext_message :: "ext_error \<Rightarrow> pystr" where
  "ext_message (OSErr m) = m"
| "ext_message (ValueErr m) = m"
| "ext_message (OtherErr m) = m"

record observation_fs =
  ofs_observe_root :: "root \<Rightarrow> ext_error + root_observation"
  ofs_stat :: "root \<Rightarrow> pystr \<Rightarrow> capability_profile \<Rightarrow> ext_error + stat_observation"
  ofs_free_space :: "root \<Rightarrow> ext_error + int"
  ofs_reclaimable :: "root \<Rightarrow> pystr set \<Rightarrow> pystr \<Rightarrow> ext_error + int"
  ofs_observe_trash :: "root \<Rightarrow> volume_id option \<Rightarrow> ext_error + trash_observation"
  ofs_now_utc :: datetime

record settings_reader =
  sg_read_filters :: "ext_error + filter_set"
  sg_read_policy_fingerprint :: "ext_error + pystr"

text \<open>\<^verbatim>\<open>except (OSError, PermissionError, ValueError)\<close>: anything else propagates.\<close>

definition catch_os_value :: "ext_error + 'a \<Rightarrow> (pystr \<Rightarrow> 'a) \<Rightarrow> ext_error + 'a" where
  "catch_os_value r handler =
     (case r of
        Inr a \<Rightarrow> Inr a
      | Inl (OSErr m) \<Rightarrow> Inr (handler m)
      | Inl (ValueErr m) \<Rightarrow> Inr (handler m)
      | Inl (OtherErr m) \<Rightarrow> Inl (OtherErr m))"

definition catch_os :: "ext_error + 'a \<Rightarrow> 'a \<Rightarrow> ext_error + 'a" where
  "catch_os r fallback = (case r of Inl (OSErr m) \<Rightarrow> Inr fallback | r' \<Rightarrow> r')"

definition parent_or_root :: "pystr \<Rightarrow> pystr" where
  "parent_or_root path = (let parent = win_parent path in if parent = [dot] then [] else parent)"

type_synonym subjects = "(subject, root \<times> pystr \<times> capability_profile) dict"

definition add_operation_subjects ::
    "upper \<Rightarrow> plan \<Rightarrow> subjects \<times> pystr set \<Rightarrow> plan_operation \<Rightarrow> subjects \<times> pystr set" where
  "add_operation_subjects up p st op =
     (let (subjects0, parents0) = st;
          target_entry = (\<lambda>path. (pl_target_root p, path, pl_target_profile p));
          target_subject = (\<lambda>path. (root_id (pl_target_root p), path_key up path));
          subjects1 = (case po_source op of
              None \<Rightarrow> subjects0
            | Some source \<Rightarrow> dict_set (root_id (pl_source_root p), path_key up source)
                (pl_source_root p, source, pl_source_profile p) subjects0);
          subjects2 = dict_set (target_subject (po_target op)) (target_entry (po_target op)) subjects1;
          parent = parent_or_root (po_target op);
          parents1 = insert parent parents0;
          subjects3 = (if parent = [] then subjects2
                       else dict_setdefault (target_subject parent) (target_entry parent) subjects2)
      in case po_prior_target op of
           None \<Rightarrow> (subjects3, parents1)
         | Some prior \<Rightarrow>
             (let subjects4 = dict_set (target_subject prior) (target_entry prior) subjects3;
                  prior_parent = parent_or_root prior;
                  parents2 = insert prior_parent parents1
              in (if prior_parent = [] then subjects4
                  else dict_setdefault (target_subject prior_parent) (target_entry prior_parent) subjects4,
                  parents2)))"

definition operation_subjects :: "upper \<Rightarrow> execution_set \<Rightarrow> subjects \<times> pystr set" where
  "operation_subjects up x =
     foldl (add_operation_subjects up (xs_plan x)) ([], {}) (xs_remaining x)"

definition needs_trash :: "plan \<Rightarrow> plan_operation list \<Rightarrow> bool" where
  "needs_trash p ops \<longleftrightarrow>
     (\<exists>op \<in> set ops. po_kind op = TRASH
        \<or> (pl_trash_on_update p \<and> po_kind op \<in> {UPDATE, MOVE_UPDATE}))"

definition failed_trash :: "pystr \<Rightarrow> trash_observation" where
  "failed_trash m = \<lparr>to_resolved_path = None, to_available = False, to_contained = False,
     to_same_volume = False, to_writable = False, to_reparse_safe = False, to_error = Some m\<rparr>"

definition observe ::
    "upper \<Rightarrow> execution_set \<Rightarrow> observation_fs \<Rightarrow> settings_reader \<Rightarrow> ext_error + observed_world" where
  "observe up x fs settings =
     (let p = xs_plan x; (subjects, parents) = operation_subjects up x;
          ordered = sort_key fst subjects
      in
      bindE (mapE (\<lambda>(subject, root, rel_path, profile).
          bindE (catch_os_value (ofs_stat fs root rel_path profile)
            (\<lambda>m. \<lparr>ob_stat = None, ob_error = Some m, ob_contained = True, ob_representable = True\<rparr>))
            (\<lambda>ob. Inr (subject, ob))) ordered) (\<lambda>stats.
      bindE (mapE (\<lambda>root.
          bindE (catch_os_value (ofs_observe_root fs root)
            (\<lambda>m. \<lparr>ro_resolved_path = None, ro_volume_id = None, ro_volume_evidence = None,
                  ro_error = Some m\<rparr>)) (\<lambda>ob. Inr (root_id root, ob)))
          [pl_source_root p, pl_target_root p]) (\<lambda>roots.
      bindE (catch_os (bindE (ofs_free_space fs (pl_target_root p)) (\<lambda>n. Inr (Some n))) None)
        (\<lambda>free_space.
      bindE (catch_os (ofs_reclaimable fs (pl_target_root p) parents (xs_run_id x)) 0) (\<lambda>reclaimable.
      bindE (if needs_trash p (xs_remaining x)
             then catch_os_value (bindE (ofs_observe_trash fs (pl_target_root p) (pl_target_volume_id p))
                    (\<lambda>t. Inr (Some t))) (\<lambda>m. Some (failed_trash m))
             else Inr None) (\<lambda>trash.
      bindE (catch_os_value
          (bindE (sg_read_filters settings) (\<lambda>f.
           bindE (sg_read_policy_fingerprint settings) (\<lambda>pf. Inr (f, pf, None))))
          (\<lambda>m. (pl_filter_snapshot p, pl_policy_fingerprint p, Some m))) (\<lambda>(filters, fingerprint, settings_error).
      Inr \<lparr>ow_stats = stats,
           ow_paths = map (\<lambda>(subject, root, rel_path, profile). (subject, rel_path)) ordered,
           ow_target_parent_paths = parents,
           ow_roots = foldl (\<lambda>d kv. dict_set (fst kv) (snd kv) d) [] roots,
           ow_free_space = free_space, ow_reclaimable_temp_bytes = reclaimable,
           ow_trash = trash, ow_current_filters = filters,
           ow_current_policy_fingerprint = fingerprint,
           ow_observed_at = ofs_now_utc fs, ow_settings_error = settings_error\<rparr>)))))))"

section \<open>Judgment\<close>

definition paths_overlap :: "os_path \<Rightarrow> pystr \<Rightarrow> pystr \<Rightarrow> bool" where
  "paths_overlap osp first second =
     (let first_norm = osp_normcase osp (osp_abspath osp first);
          second_norm = osp_normcase osp (osp_abspath osp second)
      in case osp_commonpath osp first_norm second_norm of
           None \<Rightarrow> False
         | Some common \<Rightarrow> osp_normcase osp common \<in> {first_norm, second_norm})"

definition add_stat_refusals ::
    "plan_operation \<Rightarrow> subject \<Rightarrow> stat_observation option \<Rightarrow> file_stat option \<Rightarrow> bool \<Rightarrow> int \<Rightarrow>
     refusal list" where
  "add_stat_refusals op subject observation expected source_subject granularity_ns =
     (let r = (\<lambda>code detail. refuse code (Some (po_op_id op)) (Some subject) detail)
      in case observation of
        None \<Rightarrow> [r RC_OBSERVATION_UNAVAILABLE (lit ''missing observation'')]
      | Some ob \<Rightarrow>
        (case ob_error ob of
          Some m \<Rightarrow> [r RC_OBSERVATION_UNAVAILABLE m]
        | None \<Rightarrow>
          (if ob_contained ob then [] else [r RC_PATH_ESCAPE []])
          @ (if ob_representable ob then [] else [r RC_PATH_UNREPRESENTABLE []])
          @ (case expected of
               None \<Rightarrow> (if ob_stat ob \<noteq> None then [r RC_DESTINATION_APPEARED []] else [])
             | Some ex \<Rightarrow>
               (case ob_stat ob of
                  None \<Rightarrow> [r (if source_subject then RC_SOURCE_DRIFT else RC_TARGET_DRIFT)
                            (lit ''expected entry is absent'')]
                | Some ac \<Rightarrow>
                  (if st_kind ac \<noteq> st_kind ex then [r RC_TYPE_CHANGED []] else [])
                  @ (if st_identity ex \<noteq> None \<and> st_identity ac \<noteq> st_identity ex
                     then [r RC_IDENTITY_CHANGED []] else [])
                  @ (if st_size ac \<noteq> st_size ex then [r RC_SIZE_CHANGED []] else [])
                  @ (if \<bar>st_mtime_ns ac - st_mtime_ns ex\<bar> > granularity_ns
                     then [r RC_MTIME_CHANGED []] else [])
                  @ (if st_metadata ac \<noteq> st_metadata ex \<or> st_nlink ac \<noteq> st_nlink ex
                     then [r RC_METADATA_CHANGED []] else [])))))"

definition root_refusals :: "volume_id option \<Rightarrow> root_observation option \<Rightarrow> refusal list" where
  "root_refusals expected observed =
     (case observed of
        None \<Rightarrow> [refuse RC_ROOT_UNAVAILABLE None None (lit ''missing root observation'')]
      | Some ob \<Rightarrow>
        (if ro_error ob \<noteq> None \<or> ro_resolved_path ob = None
         then [refuse_error RC_ROOT_UNAVAILABLE (ro_error ob)]
         else
           (case ro_volume_evidence ob of
              Some ev \<Rightarrow> (if ve_clone_ambiguous ev then [refuse RC_VOLUME_CLONE_AMBIGUOUS None None []] else [])
            | None \<Rightarrow> [])
           @ (if expected = None \<or> ro_volume_id ob \<noteq> expected
              then [refuse RC_ROOT_CHANGED None None []] else [])))"

definition overlap_refusals ::
    "os_path \<Rightarrow> root_observation option \<Rightarrow> root_observation option \<Rightarrow> refusal list" where
  "overlap_refusals osp source_root target_root =
     (case (Option.bind source_root ro_resolved_path, Option.bind target_root ro_resolved_path) of
        (Some a, Some b) \<Rightarrow> (if paths_overlap osp a b then [refuse RC_ROOTS_OVERLAP None None []] else [])
      | _ \<Rightarrow> [])"

definition settings_refusals :: "plan \<Rightarrow> observed_world \<Rightarrow> refusal list" where
  "settings_refusals p w =
     (if ow_current_filters w \<noteq> pl_filter_snapshot p then [refuse RC_FILTER_DRIFT None None []] else [])
     @ (if ow_current_policy_fingerprint w \<noteq> pl_policy_fingerprint p
        then [refuse RC_OPTIONS_DRIFT None None []] else [])
     @ (case ow_settings_error w of
          None \<Rightarrow> []
        | Some m \<Rightarrow> [refuse RC_OBSERVATION_UNAVAILABLE None None
                       (lit ''semantic settings unavailable: '' @ m)])"

definition unavailable_outcomes :: "outcome set" where
  "unavailable_outcomes = {O_FAILED, O_CANCELED, O_DEFERRED, O_BLOCKED}"

definition operations_by_id :: "plan_operation list \<Rightarrow> op_id \<rightharpoonup> plan_operation" where
  "operations_by_id ops = foldl (\<lambda>m op. m(po_op_id op \<mapsto> op)) Map.empty ops"

definition dependency_refusals :: "execution_set \<Rightarrow> plan_operation \<Rightarrow> op_id \<Rightarrow> refusal list" where
  "dependency_refusals x op d =
     (if d \<notin> xs_selection x
      then [refuse RC_SELECTION_NOT_CLOSED (Some (po_op_id op)) None d]
      else
        (let status = xs_status x d;
             dependency_operation = operations_by_id (pl_operations (xs_plan x)) d
         in if (\<exists>o'. status = Some o' \<and> o' \<in> unavailable_outcomes)
               \<or> (\<exists>dop. dependency_operation = Some dop \<and> po_blocked dop)
            then [refuse RC_DEPENDENCY_UNAVAILABLE (Some (po_op_id op)) None d]
            else if status = None \<and> d \<notin> set (map po_op_id (xs_remaining x))
            then [refuse RC_DEPENDENCY_UNAVAILABLE (Some (po_op_id op)) None d]
            else []))"

definition structure_refusals :: "upper \<Rightarrow> execution_set \<Rightarrow> plan_operation \<Rightarrow> refusal list" where
  "structure_refusals up x op =
     (let p = xs_plan x; quarantined = quarantined_operation_ids up (pl_operations p)
      in
      (if po_kind op \<in> {MOVE, MOVE_UPDATE, TRASH, DELETE}
       then (if pl_source_complete p then []
             else [refuse RC_INCOMPLETE_SOURCE_SCAN (Some (po_op_id op)) None []])
          @ (if pl_target_complete p then []
             else [refuse RC_INCOMPLETE_TARGET_SCAN (Some (po_op_id op)) None []])
       else [])
      @ (case po_blocked_reason op of
           Some b \<Rightarrow> [refuse RC_OPERATION_BLOCKED (Some (po_op_id op)) None (blocked_reason_value b)]
         | None \<Rightarrow> (if po_op_id op \<in> quarantined
                    then [refuse RC_BLOCKED_CORRESPONDENCE (Some (po_op_id op)) None []] else []))
      @ concat (map (dependency_refusals x op) (po_dependencies op)))"

definition source_subject_of :: "upper \<Rightarrow> plan \<Rightarrow> pystr \<Rightarrow> subject" where
  "source_subject_of up p path = (root_id (pl_source_root p), path_key up path)"

definition target_subject_of :: "upper \<Rightarrow> plan \<Rightarrow> pystr \<Rightarrow> subject" where
  "target_subject_of up p path = (root_id (pl_target_root p), path_key up path)"

definition evidence_refusals ::
    "upper \<Rightarrow> plan \<Rightarrow> observed_world \<Rightarrow> plan_operation \<Rightarrow> refusal list" where
  "evidence_refusals up p w op =
     (case (po_source op, po_source_expected op) of
        (Some source, Some expected) \<Rightarrow>
          (let subject = source_subject_of up p source
           in add_stat_refusals op subject (map_of (ow_stats w) subject) (Some expected) True
                (mtime_granularity_ns (pl_source_profile p)))
      | _ \<Rightarrow> [])
     @ (let subject = target_subject_of up p (po_target op)
        in add_stat_refusals op subject (map_of (ow_stats w) subject) (po_target_expected op) False
             (mtime_granularity_ns (pl_target_profile p)))
     @ (case po_prior_target op of
          None \<Rightarrow> []
        | Some prior \<Rightarrow>
          (let subject = target_subject_of up p prior
           in add_stat_refusals op subject (map_of (ow_stats w) subject) (po_prior_expected op) False
                (mtime_granularity_ns (pl_target_profile p))))"

definition direct_target_subjects :: "upper \<Rightarrow> plan \<Rightarrow> plan_operation list \<Rightarrow> subject set" where
  "direct_target_subjects up p ops =
     set (concat (map (\<lambda>op. map (target_subject_of up p)
       (po_target op # option_list (po_prior_target op))) ops))"

definition created_directory_keys :: "upper \<Rightarrow> plan_operation list \<Rightarrow> pystr set" where
  "created_directory_keys up ops =
     set (map (\<lambda>op. path_key up (po_target op)) (filter (\<lambda>op. po_kind op = MKDIR) ops))"

definition parent_refusals ::
    "upper \<Rightarrow> plan \<Rightarrow> observed_world \<Rightarrow> plan_operation list \<Rightarrow> subject \<times> pystr \<Rightarrow> refusal list" where
  "parent_refusals up p w ops entry =
     (let (subject, rel_path) = entry
      in if fst subject \<noteq> root_id (pl_target_root p) \<or> subject \<in> direct_target_subjects up p ops then []
         else
         (case map_of (ow_stats w) subject of
            None \<Rightarrow> [refuse RC_OBSERVATION_UNAVAILABLE None (Some subject)
                      (lit ''missing parent observation'')]
          | Some ob \<Rightarrow>
            (case ob_error ob of
               Some m \<Rightarrow> [refuse RC_OBSERVATION_UNAVAILABLE None (Some subject) m]
             | None \<Rightarrow>
               (if ob_contained ob then [] else [refuse RC_PATH_ESCAPE None (Some subject) []])
               @ (if ob_representable ob then []
                  else [refuse RC_PATH_UNREPRESENTABLE None (Some subject) []])
               @ (case ob_stat ob of
                    None \<Rightarrow> (if path_key up rel_path \<in> created_directory_keys up ops then []
                             else [refuse RC_TARGET_DRIFT None (Some subject)
                                     (lit ''required parent is absent'')])
                  | Some st \<Rightarrow> (if st_kind st = DIRECTORY then []
                                else [refuse RC_TYPE_CHANGED None (Some subject)
                                        (lit ''required parent is not a directory'')])))))"

definition capacity_refusals :: "plan \<Rightarrow> observed_world \<Rightarrow> plan_operation list \<Rightarrow> refusal list" where
  "capacity_refusals p w ops =
     (let required = calculate_required_bytes ops (pl_target_profile p) (pl_trash_on_update p)
      in case ow_free_space w of
           None \<Rightarrow> [refuse RC_OBSERVATION_UNAVAILABLE None None (lit ''target free space unavailable'')]
         | Some free \<Rightarrow>
             (if required > free + ow_reclaimable_temp_bytes w
              then [refuse RC_INSUFFICIENT_SPACE None None
                      (lit ''required='' @ int_repr required @ lit ''; available=''
                       @ int_repr (free + ow_reclaimable_temp_bytes w))]
              else []))"

definition trash_refusals :: "plan \<Rightarrow> observed_world \<Rightarrow> plan_operation list \<Rightarrow> refusal list" where
  "trash_refusals p w ops =
     (if \<not> needs_trash p ops then []
      else case ow_trash w of
        None \<Rightarrow> [refuse RC_TRASH_UNAVAILABLE None None (lit ''missing trash observation'')]
      | Some t \<Rightarrow>
          (if to_available t then []
           else [refuse_error RC_TRASH_UNAVAILABLE (to_error t)])
          @ (if to_contained t then [] else [refuse RC_TRASH_ESCAPE None None []])
          @ (if to_same_volume t then [] else [refuse RC_TRASH_OFF_VOLUME None None []])
          @ (if to_writable t then [] else [refuse RC_TRASH_NOT_WRITABLE None None []])
          @ (if to_reparse_safe t then [] else [refuse RC_TRASH_REPARSE None None []]))"

definition all_refusals :: "upper \<Rightarrow> os_path \<Rightarrow> execution_set \<Rightarrow> observed_world \<Rightarrow> refusal list" where
  "all_refusals up osp x w =
     (let p = xs_plan x; remaining = xs_remaining x;
          source_root = map_of (ow_roots w) (root_id (pl_source_root p));
          target_root = map_of (ow_roots w) (root_id (pl_target_root p))
      in root_refusals (pl_source_volume_id p) source_root
         @ root_refusals (pl_target_volume_id p) target_root
         @ overlap_refusals osp source_root target_root
         @ settings_refusals p w
         @ concat (map (\<lambda>op. structure_refusals up x op @ evidence_refusals up p w op) remaining)
         @ concat (map (parent_refusals up p w remaining) (ow_paths w))
         @ capacity_refusals p w remaining
         @ trash_refusals p w remaining)"

text \<open>
  The code compares details only between refusals that agree in code, id and subject. A detail of
  \<^verbatim>\<open>None\<close> sorts here as the empty text; in Python comparing it with a text raises, which needs two
  unavailable roots of which one has neither a path nor an error.
\<close>

definition refusal_sort_key :: "refusal \<Rightarrow> pystr \<times> pystr \<times> subject \<times> pystr" where
  "refusal_sort_key r =
     (refusal_code_value (rf_code r), (case rf_op_id r of None \<Rightarrow> [] | Some i \<Rightarrow> i),
      (case rf_subject r of None \<Rightarrow> ([], []) | Some s \<Rightarrow> s),
      (case rf_detail r of None \<Rightarrow> [] | Some d \<Rightarrow> d))"

definition preflight :: "upper \<Rightarrow> os_path \<Rightarrow> execution_set \<Rightarrow> observed_world \<Rightarrow> verdict" where
  "preflight up osp x w =
     (let ordered = sort_key refusal_sort_key (dedupe (all_refusals up osp x w))
      in \<lparr>vd_ok = (ordered = []), vd_refusals = ordered, vd_observed = w\<rparr>)"

end
