(* ===== verification/Selection.thy ===== *)
theory Selection
  imports Planning_Lemmas Evidence
begin

text \<open>
  Safe-subset selection (\<^verbatim>\<open>workflows/selection.py\<close>). The exclusions are a map from operation ids;
  the four passes of \<^verbatim>\<open>derive_execution_selection\<close> are the four definitions below, and the closing
  \<^verbatim>\<open>while changed\<close> loop is a function whose termination is proved: every round that changes
  something excludes one more operation of the plan.
\<close>

datatype exclusion_reason = X_BLOCKED_CORRESPONDENCE | X_BLOCKED_DEPENDENCY | X_INCOMPLETE_SCAN

fun exclusion_reason_value :: "exclusion_reason \<Rightarrow> pystr" where
  "exclusion_reason_value X_BLOCKED_CORRESPONDENCE = lit ''blocked-correspondence''"
| "exclusion_reason_value X_BLOCKED_DEPENDENCY = lit ''blocked-dependency''"
| "exclusion_reason_value X_INCOMPLETE_SCAN = lit ''incomplete-scan''"

datatype exclusion_detail =
  NoDetail | IncompleteSides "pystr list" | ExcludedDependencies "op_id list"

record operation_exclusion =
  ox_op_id :: op_id
  ox_outcome :: outcome
  ox_reason :: pystr
  ox_detail :: exclusion_detail

record execution_selection =
  es_selection :: "op_id set"
  es_exclusions :: "operation_exclusion list"

type_synonym exclusions = "op_id \<rightharpoonup> operation_exclusion"

definition incomplete_scan_unsafe :: "operation_kind \<Rightarrow> bool" where
  "incomplete_scan_unsafe k \<longleftrightarrow> k \<in> {MOVE, MOVE_UPDATE, TRASH, DELETE}"

definition exclude_blocked :: "plan_operation list \<Rightarrow> exclusions \<Rightarrow> exclusions" where
  "exclude_blocked ops ex0 =
     foldl (\<lambda>ex op. case po_blocked_reason op of
         None \<Rightarrow> ex
       | Some reason \<Rightarrow> ex(po_op_id op \<mapsto> \<lparr>ox_op_id = po_op_id op, ox_outcome = O_BLOCKED,
           ox_reason = blocked_reason_value reason, ox_detail = NoDetail\<rparr>)) ex0 ops"

definition exclude_quarantined ::
    "op_id set \<Rightarrow> plan_operation list \<Rightarrow> exclusions \<Rightarrow> exclusions" where
  "exclude_quarantined quarantined ops ex0 =
     foldl (\<lambda>ex op.
         if po_op_id op \<in> quarantined
         then ex(po_op_id op \<mapsto> \<lparr>ox_op_id = po_op_id op, ox_outcome = O_DEFERRED,
           ox_reason = exclusion_reason_value X_BLOCKED_CORRESPONDENCE, ox_detail = NoDetail\<rparr>)
         else ex) ex0 ops"

definition incomplete_sides :: "plan \<Rightarrow> pystr list" where
  "incomplete_sides p =
     (if pl_source_complete p then [] else [lit ''source''])
     @ (if pl_target_complete p then [] else [lit ''target''])"

definition exclude_incomplete ::
    "pystr list \<Rightarrow> plan_operation list \<Rightarrow> exclusions \<Rightarrow> exclusions" where
  "exclude_incomplete sides ops ex0 =
     (if sides = [] then ex0
      else foldl (\<lambda>ex op.
         if po_op_id op \<notin> dom ex \<and> incomplete_scan_unsafe (po_kind op)
         then ex(po_op_id op \<mapsto> \<lparr>ox_op_id = po_op_id op, ox_outcome = O_DEFERRED,
           ox_reason = exclusion_reason_value X_INCOMPLETE_SCAN, ox_detail = IncompleteSides sides\<rparr>)
         else ex) ex0 ops)"

definition excluded_dependencies :: "exclusions \<Rightarrow> plan_operation \<Rightarrow> op_id list" where
  "excluded_dependencies ex op = filter (\<lambda>d. ex d \<noteq> None) (po_dependencies op)"

definition dependency_exclusion ::
    "exclusions \<Rightarrow> plan_operation \<Rightarrow> operation_exclusion" where
  "dependency_exclusion ex op =
     \<lparr>ox_op_id = po_op_id op, ox_outcome = O_DEFERRED,
      ox_reason = exclusion_reason_value
        (if \<forall>d \<in> set (excluded_dependencies ex op).
              map_option ox_reason (ex d) = Some (exclusion_reason_value X_INCOMPLETE_SCAN)
         then X_INCOMPLETE_SCAN else X_BLOCKED_DEPENDENCY),
      ox_detail = ExcludedDependencies (excluded_dependencies ex op)\<rparr>"

text \<open>One iteration of the inner \<^verbatim>\<open>for\<close>, on the pair of \<^verbatim>\<open>exclusions\<close> and \<^verbatim>\<open>changed\<close>.\<close>

definition close_step :: "exclusions \<times> bool \<Rightarrow> plan_operation \<Rightarrow> exclusions \<times> bool" where
  "close_step st op =
     (let (ex, changed) = st
      in if ex (po_op_id op) \<noteq> None then (ex, changed)
         else if excluded_dependencies ex op = [] then (ex, changed)
         else (ex(po_op_id op \<mapsto> dependency_exclusion ex op), True))"

definition close_round :: "plan_operation list \<Rightarrow> exclusions \<Rightarrow> exclusions \<times> bool" where
  "close_round ops ex = foldl close_step (ex, False) ops"

lemma close_fold_dom:
  assumes "foldl close_step (ex, c) ops = (ex', c')"
  shows "dom ex \<subseteq> dom ex' \<and> dom ex' \<subseteq> dom ex \<union> set (map po_op_id ops) \<and>
         (c \<longrightarrow> c') \<and> (\<not> c \<longrightarrow> (if c' then dom ex \<subset> dom ex' else ex' = ex))"
  using assms
proof (induction ops arbitrary: ex c)
  case Nil
  then show ?case by auto
next
  case (Cons op ops)
  obtain ex1 c1 where s: "close_step (ex, c) op = (ex1, c1)"
    by (cases "close_step (ex, c) op")
  have one: "dom ex \<subseteq> dom ex1" "dom ex1 \<subseteq> insert (po_op_id op) (dom ex)" "c \<longrightarrow> c1"
    "c1 = c \<and> ex1 = ex \<or> c1 \<and> dom ex \<subset> dom ex1"
    using s by (auto simp: close_step_def split: if_splits) (metis domIff insertI1)+
  have "foldl close_step (ex1, c1) ops = (ex', c')"
    using Cons.prems s by simp
  note ih = Cons.IH [OF this]
  have sub: "dom ex1 \<subseteq> dom ex'" and "c1 \<longrightarrow> c'"
    using ih by blast+
  moreover have "dom ex' \<subseteq> dom ex \<union> set (map po_op_id (op # ops))"
    using ih one(2) by (simp only: list.map list.set) blast
  moreover have "\<not> c \<longrightarrow> (if c' then dom ex \<subset> dom ex' else ex' = ex)"
    using ih one(4) sub by (cases c1; cases c') (simp_all, blast+)
  ultimately show ?case
    using one(1,3) by blast
qed

lemma close_round_changed:
  assumes "close_round ops ex = (ex', True)"
  shows "card (set (map po_op_id ops) - dom ex') < card (set (map po_op_id ops) - dom ex)"
proof (rule psubset_card_mono)
  show "finite (set (map po_op_id ops) - dom ex)" by simp
  show "set (map po_op_id ops) - dom ex' \<subset> set (map po_op_id ops) - dom ex"
  proof -
    have "dom ex \<subset> dom ex'" and "dom ex' \<subseteq> dom ex \<union> set (map po_op_id ops)"
      using close_fold_dom [of ex False ops ex' True] assms by (auto simp: close_round_def)
    then show ?thesis by blast
  qed
qed

function close_exclusions :: "plan_operation list \<Rightarrow> exclusions \<Rightarrow> exclusions" where
  "close_exclusions ops ex =
     (case close_round ops ex of
        (ex', changed) \<Rightarrow> if changed then close_exclusions ops ex' else ex')"
  by pat_completeness auto
termination
  by (relation "measure (\<lambda>(ops, ex). card (set (map po_op_id ops) - dom ex))")
     (auto dest: close_round_changed [OF sym])

declare close_exclusions.simps [simp del]

definition seed_exclusions :: "upper \<Rightarrow> plan \<Rightarrow> exclusions" where
  "seed_exclusions up p =
     (let ops = pl_operations p
      in exclude_incomplete (incomplete_sides p) ops
           (exclude_quarantined (quarantined_operation_ids up ops) ops
             (exclude_blocked ops Map.empty)))"

definition derive_execution_selection :: "upper \<Rightarrow> plan \<Rightarrow> execution_selection" where
  "derive_execution_selection up p =
     (let ops = pl_operations p; ex = close_exclusions ops (seed_exclusions up p)
      in \<lparr>es_selection = set (map po_op_id (filter (\<lambda>op. ex (po_op_id op) = None) ops)),
          es_exclusions = List.map_filter (\<lambda>op. ex (po_op_id op)) ops\<rparr>)"

section \<open>What is excluded\<close>

text \<open>
  The specification: an operation must be left out when it is blocked, overlaps blocked work, is
  destructive under an incomplete scan, or depends on an operation that must be left out.
\<close>

definition unsafe_operation :: "upper \<Rightarrow> plan \<Rightarrow> plan_operation \<Rightarrow> bool" where
  "unsafe_operation up p op \<longleftrightarrow>
     po_blocked op \<or> po_op_id op \<in> quarantined_operation_ids up (pl_operations p) \<or>
     (\<not> (pl_source_complete p \<and> pl_target_complete p) \<and> incomplete_scan_unsafe (po_kind op))"

inductive must_exclude :: "upper \<Rightarrow> plan \<Rightarrow> op_id \<Rightarrow> bool" for up p where
  unsafe: "op \<in> set (pl_operations p) \<Longrightarrow> unsafe_operation up p op \<Longrightarrow> must_exclude up p (po_op_id op)"
| depends: "op \<in> set (pl_operations p) \<Longrightarrow> d \<in> set (po_dependencies op) \<Longrightarrow> must_exclude up p d \<Longrightarrow>
     must_exclude up p (po_op_id op)"

lemma dom_exclude_blocked:
  "dom (exclude_blocked ops ex) = dom ex \<union> po_op_id ` {op \<in> set ops. po_blocked op}"
  unfolding exclude_blocked_def
  by (rule dom_foldl_update) (simp add: po_blocked_def split: option.splits)

lemma dom_exclude_quarantined:
  "dom (exclude_quarantined Q ops ex) = dom ex \<union> po_op_id ` {op \<in> set ops. po_op_id op \<in> Q}"
  unfolding exclude_quarantined_def by (rule dom_foldl_update) simp

lemma dom_exclude_incomplete:
  "dom (exclude_incomplete sides ops ex) =
     dom ex \<union> (if sides = [] then {} else po_op_id ` {op \<in> set ops. incomplete_scan_unsafe (po_kind op)})"
proof (cases "sides = []")
  case False
  then show ?thesis
    unfolding exclude_incomplete_def
    by (simp only: if_False) (rule dom_foldl_update, auto)
qed (simp add: exclude_incomplete_def)

lemma incomplete_sides_Nil:
  "incomplete_sides p = [] \<longleftrightarrow> pl_source_complete p \<and> pl_target_complete p"
  by (auto simp: incomplete_sides_def)

lemma dom_seed_exclusions:
  "dom (seed_exclusions up p) = po_op_id ` {op \<in> set (pl_operations p). unsafe_operation up p op}"
  unfolding seed_exclusions_def Let_def dom_exclude_incomplete dom_exclude_quarantined
    dom_exclude_blocked incomplete_sides_Nil unsafe_operation_def
  by auto

lemma close_round_unchanged:
  "foldl close_step (ex, c) ops = (ex', False) \<Longrightarrow>
     \<not> c \<and> ex' = ex \<and> (\<forall>op \<in> set ops. ex (po_op_id op) \<noteq> None \<or> excluded_dependencies ex op = [])"
proof (induction ops arbitrary: ex c)
  case (Cons op ops)
  obtain ex1 c1 where s: "close_step (ex, c) op = (ex1, c1)"
    by (cases "close_step (ex, c) op")
  with Cons have "\<not> c1" "ex' = ex1"
    "\<forall>op \<in> set ops. ex1 (po_op_id op) \<noteq> None \<or> excluded_dependencies ex1 op = []"
    by auto
  moreover from this s have "\<not> c \<and> ex1 = ex \<and> (ex (po_op_id op) \<noteq> None \<or> excluded_dependencies ex op = [])"
    by (auto simp: close_step_def split: if_splits)
  ultimately show ?case by auto
qed auto

lemma close_exclusions_closed:
  "op \<in> set ops \<Longrightarrow> close_exclusions ops ex (po_op_id op) = None \<Longrightarrow>
     excluded_dependencies (close_exclusions ops ex) op = []"
proof (induction ops ex rule: close_exclusions.induct)
  case (1 ops ex)
  obtain ex' c where r: "close_round ops ex = (ex', c)"
    by (cases "close_round ops ex")
  show ?case
  proof (cases c)
    case True
    then show ?thesis using r 1 by (simp add: close_exclusions.simps [of ops ex])
  next
    case False
    then show ?thesis
      using r 1 close_round_unchanged [of ex False ops ex']
      by (auto simp: close_exclusions.simps [of ops ex] close_round_def)
  qed
qed

lemma close_exclusions_extends: "dom ex \<subseteq> dom (close_exclusions ops ex)"
proof (induction ops ex rule: close_exclusions.induct)
  case (1 ops ex)
  obtain ex' c where r: "close_round ops ex = (ex', c)"
    by (cases "close_round ops ex")
  then have "dom ex \<subseteq> dom ex'"
    using close_fold_dom [of ex False ops ex' c] by (simp add: close_round_def)
  moreover have "c \<Longrightarrow> dom ex' \<subseteq> dom (close_exclusions ops ex')"
    using r 1 by auto
  ultimately show ?case
    using r by (simp add: close_exclusions.simps [of ops ex]) blast
qed

text \<open>A property of exclusion maps that every step keeps holds of the closed map.\<close>

lemma close_fold_inv:
  assumes "\<And>ex c op. op \<in> set ops \<Longrightarrow> P ex \<Longrightarrow> P (fst (close_step (ex, c) op))"
  shows "P ex \<Longrightarrow> P (fst (foldl close_step (ex, c) ops))"
  using assms
proof (induction ops arbitrary: ex c)
  case (Cons op ops)
  obtain ex1 c1 where s: "close_step (ex, c) op = (ex1, c1)"
    by (cases "close_step (ex, c) op")
  then have "P ex1" using Cons.prems(1) Cons.prems(2) [of op ex c] by simp
  then show ?case using Cons.IH [of ex1 c1] Cons.prems(2) s by simp
qed simp

lemma close_exclusions_inv:
  assumes step: "\<And>ex c op. op \<in> set ops \<Longrightarrow> P ex \<Longrightarrow> P (fst (close_step (ex, c) op))"
    and init: "P ex"
  shows "P (close_exclusions ops ex)"
  using init step
proof (induction ops ex rule: close_exclusions.induct)
  case (1 ops ex)
  obtain ex' c where r: "close_round ops ex = (ex', c)"
    by (cases "close_round ops ex")
  have "P ex'"
    using close_fold_inv [of ops P ex False] 1 r by (auto simp: close_round_def)
  with r 1 show ?case
    by (cases c) (auto simp: close_exclusions.simps [of ops ex])
qed

lemma close_exclusions_must:
  assumes "d \<in> dom (close_exclusions (pl_operations p) (seed_exclusions up p))"
  shows "must_exclude up p d"
proof -
  have "\<forall>d \<in> dom (close_exclusions (pl_operations p) (seed_exclusions up p)). must_exclude up p d"
  proof (rule close_exclusions_inv)
    show "\<forall>d \<in> dom (seed_exclusions up p). must_exclude up p d"
      unfolding dom_seed_exclusions by (auto intro: must_exclude.unsafe)
  next
    fix ex :: exclusions and c op
    assume "op \<in> set (pl_operations p)" and "\<forall>d \<in> dom ex. must_exclude up p d"
    then show "\<forall>d \<in> dom (fst (close_step (ex, c) op)). must_exclude up p d"
      by (auto simp: close_step_def excluded_dependencies_def filter_empty_conv
            intro: must_exclude.depends)
  qed
  with assms show ?thesis by blast
qed

lemma must_close_exclusions:
  assumes "must_exclude up p d"
  shows "close_exclusions (pl_operations p) (seed_exclusions up p) d \<noteq> None"
  using assms
proof (induction rule: must_exclude.induct)
  case (unsafe op)
  then have "po_op_id op \<in> dom (seed_exclusions up p)"
    unfolding dom_seed_exclusions by blast
  then show ?case
    using close_exclusions_extends [of "seed_exclusions up p" "pl_operations p"] by (auto simp: domIff)
next
  case (depends op d)
  then show ?case
    using close_exclusions_closed [of op "pl_operations p" "seed_exclusions up p"]
    unfolding excluded_dependencies_def filter_empty_conv by blast
qed

lemma excluded_iff_must:
  "close_exclusions (pl_operations p) (seed_exclusions up p) d = None \<longleftrightarrow> \<not> must_exclude up p d"
  using close_exclusions_must must_close_exclusions by (metis domIff)

lemma selection_eq:
  "es_selection (derive_execution_selection up p) =
     po_op_id ` {op \<in> set (pl_operations p). \<not> must_exclude up p (po_op_id op)}"
  by (simp add: derive_execution_selection_def Let_def excluded_iff_must)

section \<open>The shape of the recorded exclusions\<close>

definition exclusion_tagged :: "exclusions \<Rightarrow> bool" where
  "exclusion_tagged ex \<longleftrightarrow> (\<forall>d x. ex d = Some x \<longrightarrow> ox_op_id x = d)"

lemma exclusion_tagged_closed:
  "exclusion_tagged (close_exclusions (pl_operations p) (seed_exclusions up p))"
proof (rule close_exclusions_inv)
  have b: "exclusion_tagged ex \<Longrightarrow> exclusion_tagged (exclude_blocked ops ex)" for ops ex
    unfolding exclude_blocked_def
    by (rule foldl_inv [where P = exclusion_tagged]) (auto simp: exclusion_tagged_def split: option.splits)
  have q: "exclusion_tagged ex \<Longrightarrow> exclusion_tagged (exclude_quarantined Q ops ex)" for Q ops ex
    unfolding exclude_quarantined_def
    by (rule foldl_inv [where P = exclusion_tagged]) (auto simp: exclusion_tagged_def)
  have i: "exclusion_tagged ex \<Longrightarrow> exclusion_tagged (exclude_incomplete sides ops ex)" for sides ops ex
    unfolding exclude_incomplete_def
    by (auto intro!: foldl_inv [where P = exclusion_tagged])
       (auto simp: exclusion_tagged_def split: if_splits)
  show "exclusion_tagged (seed_exclusions up p)"
    unfolding seed_exclusions_def Let_def
    by (intro i q b) (simp add: exclusion_tagged_def)
next
  fix ex c op
  assume "exclusion_tagged ex"
  then show "exclusion_tagged (fst (close_step (ex, c) op))"
    by (auto simp: close_step_def exclusion_tagged_def dependency_exclusion_def)
qed

lemma exclusions_ids:
  "map ox_op_id (es_exclusions (derive_execution_selection up p)) =
     map po_op_id (filter (\<lambda>op. must_exclude up p (po_op_id op)) (pl_operations p))"
proof -
  let ?ex = "close_exclusions (pl_operations p) (seed_exclusions up p)"
  have "map ox_op_id (List.map_filter (\<lambda>op. ?ex (po_op_id op)) ops) =
          map po_op_id (filter (\<lambda>op. must_exclude up p (po_op_id op)) ops)" for ops
  proof (induction ops)
    case (Cons op ops)
    show ?case
    proof (cases "?ex (po_op_id op)")
      case None
      then have "\<not> must_exclude up p (po_op_id op)" by (simp add: excluded_iff_must)
      with None Cons show ?thesis by (simp add: List.map_filter_simps)
    next
      case (Some x)
      then have "must_exclude up p (po_op_id op)"
        using excluded_iff_must [of p up "po_op_id op"] by auto
      moreover have "ox_op_id x = po_op_id op"
        using Some exclusion_tagged_closed unfolding exclusion_tagged_def by blast
      ultimately show ?thesis using Some Cons by (simp add: List.map_filter_simps)
    qed
  qed (simp add: List.map_filter_simps)
  then show ?thesis
    by (simp add: derive_execution_selection_def Let_def)
qed

section \<open>Properties\<close>

text \<open>C21: The safe subset is exactly the complement of the least set that contains the unsafe
  operations (blocked, quarantined by a blocked region, or destructive under an incomplete scan)
  and every operation with an excluded dependency; the excluded operations are itemised once each,
  in plan order, so selection and exclusions partition the plan.\<close>

theorem selection_is_complement_of_must_exclude:
  "es_selection (derive_execution_selection up p) =
     po_op_id ` {op \<in> set (pl_operations p). \<not> must_exclude up p (po_op_id op)} \<and>
   map ox_op_id (es_exclusions (derive_execution_selection up p)) =
     map po_op_id (filter (\<lambda>op. must_exclude up p (po_op_id op)) (pl_operations p))"
  using selection_eq exclusions_ids by blast

end
