(* ===== verification/Preflight_Lemmas.thy ===== *)
theory Preflight_Lemmas
  imports Preflight Selection
begin

text \<open>
  What a positive verdict means. Every group of refusals is empty exactly under a declarative
  condition; their conjunction characterises the verdict. Selections derived from the plan never
  meet a structural refusal.
\<close>

section \<open>The conditions\<close>

definition stat_current :: "file_stat \<Rightarrow> file_stat \<Rightarrow> int \<Rightarrow> bool" where
  "stat_current actual expected granularity \<longleftrightarrow>
     st_kind actual = st_kind expected \<and>
     (st_identity expected = None \<or> st_identity actual = st_identity expected) \<and>
     st_size actual = st_size expected \<and>
     \<bar>st_mtime_ns actual - st_mtime_ns expected\<bar> \<le> granularity \<and>
     st_metadata actual = st_metadata expected \<and> st_nlink actual = st_nlink expected"

definition observation_matches :: "stat_observation option \<Rightarrow> file_stat option \<Rightarrow> int \<Rightarrow> bool" where
  "observation_matches observation expected granularity \<longleftrightarrow>
     (\<exists>ob. observation = Some ob \<and> ob_error ob = None \<and> ob_contained ob \<and> ob_representable ob \<and>
        (case expected of
           None \<Rightarrow> ob_stat ob = None
         | Some ex \<Rightarrow> (\<exists>ac. ob_stat ob = Some ac \<and> stat_current ac ex granularity)))"

definition operation_evidence_current :: "upper \<Rightarrow> plan \<Rightarrow> observed_world \<Rightarrow> plan_operation \<Rightarrow> bool" where
  "operation_evidence_current up p w op \<longleftrightarrow>
     (\<forall>source ex. po_source op = Some source \<and> po_source_expected op = Some ex \<longrightarrow>
        observation_matches (map_of (ow_stats w) (source_subject_of up p source)) (Some ex)
          (mtime_granularity_ns (pl_source_profile p))) \<and>
     observation_matches (map_of (ow_stats w) (target_subject_of up p (po_target op)))
       (po_target_expected op) (mtime_granularity_ns (pl_target_profile p)) \<and>
     (\<forall>prior. po_prior_target op = Some prior \<longrightarrow>
        observation_matches (map_of (ow_stats w) (target_subject_of up p prior))
          (po_prior_expected op) (mtime_granularity_ns (pl_target_profile p)))"

definition dependency_available :: "execution_set \<Rightarrow> op_id \<Rightarrow> bool" where
  "dependency_available x d \<longleftrightarrow>
     d \<in> xs_selection x \<and>
     (\<forall>st. xs_status x d = Some st \<longrightarrow> st \<notin> unavailable_outcomes) \<and>
     (\<forall>dop. operations_by_id (pl_operations (xs_plan x)) d = Some dop \<longrightarrow> \<not> po_blocked dop) \<and>
     (xs_status x d = None \<longrightarrow> d \<in> set (map po_op_id (xs_remaining x)))"

definition operation_admissible :: "upper \<Rightarrow> execution_set \<Rightarrow> plan_operation \<Rightarrow> bool" where
  "operation_admissible up x op \<longleftrightarrow>
     (incomplete_scan_unsafe (po_kind op) \<longrightarrow>
        pl_source_complete (xs_plan x) \<and> pl_target_complete (xs_plan x)) \<and>
     \<not> po_blocked op \<and>
     po_op_id op \<notin> quarantined_operation_ids up (pl_operations (xs_plan x)) \<and>
     (\<forall>d \<in> set (po_dependencies op). dependency_available x d)"

definition root_current :: "volume_id option \<Rightarrow> root_observation option \<Rightarrow> bool" where
  "root_current expected observed \<longleftrightarrow>
     (\<exists>ob path. observed = Some ob \<and> ro_error ob = None \<and> ro_resolved_path ob = Some path \<and>
        (\<forall>ev. ro_volume_evidence ob = Some ev \<longrightarrow> \<not> ve_clone_ambiguous ev) \<and>
        expected \<noteq> None \<and> ro_volume_id ob = expected)"

definition trash_usable :: "observed_world \<Rightarrow> bool" where
  "trash_usable w \<longleftrightarrow>
     (\<exists>t. ow_trash w = Some t \<and> to_available t \<and> to_contained t \<and> to_same_volume t
        \<and> to_writable t \<and> to_reparse_safe t)"

definition parent_current ::
    "upper \<Rightarrow> plan \<Rightarrow> observed_world \<Rightarrow> plan_operation list \<Rightarrow> subject \<times> pystr \<Rightarrow> bool" where
  "parent_current up p w ops entry \<longleftrightarrow>
     (fst (fst entry) = root_id (pl_target_root p) \<and> fst entry \<notin> direct_target_subjects up p ops \<longrightarrow>
       (\<exists>ob. map_of (ow_stats w) (fst entry) = Some ob \<and> ob_error ob = None \<and> ob_contained ob
          \<and> ob_representable ob \<and>
          (case ob_stat ob of
             None \<Rightarrow> path_key up (snd entry) \<in> created_directory_keys up ops
           | Some st \<Rightarrow> st_kind st = DIRECTORY)))"

section \<open>Each group of refusals\<close>

lemma add_stat_refusals_Nil:
  "add_stat_refusals op subject observation expected src g = [] \<longleftrightarrow>
     observation_matches observation expected g"
  by (auto simp: add_stat_refusals_def observation_matches_def stat_current_def Let_def
        split: option.splits if_splits)

lemma evidence_refusals_Nil:
  "evidence_refusals up p w op = [] \<longleftrightarrow> operation_evidence_current up p w op"
  by (auto simp: evidence_refusals_def operation_evidence_current_def add_stat_refusals_Nil Let_def
        split: option.splits)

lemma dependency_refusals_Nil:
  "dependency_refusals x op d = [] \<longleftrightarrow> dependency_available x d"
  by (auto simp: dependency_refusals_def dependency_available_def Let_def split: if_splits)

lemma structure_refusals_Nil:
  "structure_refusals up x op = [] \<longleftrightarrow> operation_admissible up x op"
  by (auto simp: structure_refusals_def operation_admissible_def dependency_refusals_Nil Let_def
        incomplete_scan_unsafe_def po_blocked_def split: option.splits if_splits)

lemma root_refusals_Nil: "root_refusals expected observed = [] \<longleftrightarrow> root_current expected observed"
  by (auto simp: root_refusals_def root_current_def split: option.splits if_splits)

lemma trash_refusals_Nil:
  "trash_refusals p w ops = [] \<longleftrightarrow> (needs_trash p ops \<longrightarrow> trash_usable w)"
  by (auto simp: trash_refusals_def trash_usable_def split: option.splits if_splits)

lemma parent_refusals_Nil:
  "parent_refusals up p w ops entry = [] \<longleftrightarrow> parent_current up p w ops entry"
  by (cases entry)
     (auto simp: parent_refusals_def parent_current_def Let_def split: option.splits if_splits)

lemma capacity_refusals_Nil:
  "capacity_refusals p w ops = [] \<longleftrightarrow>
     (\<exists>free. ow_free_space w = Some free \<and>
        calculate_required_bytes ops (pl_target_profile p) (pl_trash_on_update p)
          \<le> free + ow_reclaimable_temp_bytes w)"
  by (auto simp: capacity_refusals_def Let_def split: option.splits)

lemma settings_refusals_Nil:
  "settings_refusals p w = [] \<longleftrightarrow>
     ow_current_filters w = pl_filter_snapshot p \<and>
     ow_current_policy_fingerprint w = pl_policy_fingerprint p \<and> ow_settings_error w = None"
  by (auto simp: settings_refusals_def split: option.splits)

lemma overlap_refusals_Nil:
  "overlap_refusals osp a b = [] \<longleftrightarrow>
     (\<forall>oa ob pa pb. a = Some oa \<and> b = Some ob \<and> ro_resolved_path oa = Some pa
        \<and> ro_resolved_path ob = Some pb \<longrightarrow> \<not> paths_overlap osp pa pb)"
  by (cases a; cases b) (auto simp: overlap_refusals_def split: option.splits)

section \<open>The verdict\<close>

definition world_admits :: "upper \<Rightarrow> os_path \<Rightarrow> execution_set \<Rightarrow> observed_world \<Rightarrow> bool" where
  "world_admits up osp x w \<longleftrightarrow>
     (let p = xs_plan x; remaining = xs_remaining x;
          source_root = map_of (ow_roots w) (root_id (pl_source_root p));
          target_root = map_of (ow_roots w) (root_id (pl_target_root p))
      in root_current (pl_source_volume_id p) source_root \<and>
         root_current (pl_target_volume_id p) target_root \<and>
         (\<forall>oa ob pa pb. source_root = Some oa \<and> target_root = Some ob \<and> ro_resolved_path oa = Some pa
            \<and> ro_resolved_path ob = Some pb \<longrightarrow> \<not> paths_overlap osp pa pb) \<and>
         ow_current_filters w = pl_filter_snapshot p \<and>
         ow_current_policy_fingerprint w = pl_policy_fingerprint p \<and> ow_settings_error w = None \<and>
         (\<forall>op \<in> set remaining. operation_admissible up x op \<and> operation_evidence_current up p w op) \<and>
         (\<forall>entry \<in> set (ow_paths w). parent_current up p w remaining entry) \<and>
         (\<exists>free. ow_free_space w = Some free \<and>
            calculate_required_bytes remaining (pl_target_profile p) (pl_trash_on_update p)
              \<le> free + ow_reclaimable_temp_bytes w) \<and>
         (needs_trash p remaining \<longrightarrow> trash_usable w))"

lemma all_refusals_Nil: "all_refusals up osp x w = [] \<longleftrightarrow> world_admits up osp x w"
  unfolding all_refusals_def world_admits_def Let_def append_is_Nil_conv concat_eq_Nil_conv
    root_refusals_Nil overlap_refusals_Nil settings_refusals_Nil capacity_refusals_Nil
    trash_refusals_Nil
  by (auto simp: structure_refusals_Nil evidence_refusals_Nil parent_refusals_Nil)

lemma set_preflight_refusals:
  "set (vd_refusals (preflight up osp x w)) = set (all_refusals up osp x w)"
  by (simp add: preflight_def Let_def)

lemma preflight_ok_iff: "vd_ok (preflight up osp x w) \<longleftrightarrow> world_admits up osp x w"
proof -
  have "vd_ok (preflight up osp x w) \<longleftrightarrow> set (all_refusals up osp x w) = {}"
    by (simp add: preflight_def Let_def flip: set_empty)
  then show ?thesis by (simp add: all_refusals_Nil)
qed

lemma preflight_post_init: "verdict_post_init (preflight up osp x w) = Inr ()"
  by (simp add: verdict_post_init_def preflight_def Let_def)

lemma preflight_sorted:
  "sorted (map refusal_sort_key (vd_refusals (preflight up osp x w)))"
  "distinct (vd_refusals (preflight up osp x w))"
  by (simp_all add: preflight_def Let_def)

section \<open>Derived selections are structurally admissible\<close>

lemma operations_by_id_Some:
  "operations_by_id ops d = Some op \<Longrightarrow> op \<in> set ops \<and> po_op_id op = d"
proof -
  have "foldl (\<lambda>m op. m(po_op_id op \<mapsto> op)) m ops d = Some op \<Longrightarrow>
          m d = Some op \<or> op \<in> set ops \<and> po_op_id op = d" for m
    by (induction ops arbitrary: m) (fastforce split: if_splits)+
  then show "operations_by_id ops d = Some op \<Longrightarrow> op \<in> set ops \<and> po_op_id op = d"
    by (force simp: operations_by_id_def)
qed

lemma selection_not_excluded:
  assumes "dependency_ordered (pl_operations p)" and "op \<in> set (pl_operations p)"
    and "po_op_id op \<in> es_selection (derive_execution_selection up p)"
  shows "\<not> must_exclude up p (po_op_id op)"
  using assms by (auto simp: selection_eq)

lemma selection_dependency_closed:
  assumes "dependency_ordered (pl_operations p)" and "op \<in> set (pl_operations p)"
    and "po_op_id op \<in> es_selection (derive_execution_selection up p)"
    and "d \<in> set (po_dependencies op)"
  shows "d \<in> es_selection (derive_execution_selection up p)"
proof -
  obtain dep where "dep \<in> set (pl_operations p)" "po_op_id dep = d"
    using dependency_ordered_member [OF assms(1,2,4)] by auto
  moreover have "\<not> must_exclude up p d"
    using must_exclude.depends [OF assms(2,4)] selection_not_excluded [OF assms(1-3)] by blast
  ultimately show ?thesis by (auto simp: selection_eq)
qed

lemma derived_selection_admissible:
  assumes ord: "dependency_ordered (pl_operations (xs_plan x))"
    and sel: "xs_selection x = es_selection (derive_execution_selection up (xs_plan x))"
    and fresh: "xs_status x = Map.empty"
    and op: "op \<in> set (xs_remaining x)"
  shows "operation_admissible up x op"
proof -
  let ?p = "xs_plan x"
  have o: "op \<in> set (pl_operations ?p)" "po_op_id op \<in> xs_selection x"
    using op by (auto simp: set_remaining)
  then have n: "\<not> must_exclude up ?p (po_op_id op)"
    using selection_not_excluded [OF ord] sel by simp
  then have "\<not> unsafe_operation up ?p op"
    using must_exclude.unsafe [of op ?p up] o by blast
  moreover have "dependency_available x d" if d: "d \<in> set (po_dependencies op)" for d
  proof -
    have ds: "d \<in> xs_selection x"
      using selection_dependency_closed [OF ord o(1) _ d] o sel by simp
    obtain dep where dep: "dep \<in> set (pl_operations ?p)" "po_op_id dep = d"
      using dependency_ordered_member [OF ord o(1) d] by auto
    have "\<not> po_blocked dep"
      using must_exclude.unsafe [OF dep(1)] selection_not_excluded [OF ord dep(1)] ds dep sel
      by (auto simp: unsafe_operation_def)
    then have "\<forall>dop. operations_by_id (pl_operations ?p) d = Some dop \<longrightarrow> \<not> po_blocked dop"
      using op_id_inj [OF ord] operations_by_id_Some dep by metis
    then show ?thesis
      using ds dep fresh by (auto simp: dependency_available_def set_remaining)
  qed
  ultimately show ?thesis
    by (auto simp: operation_admissible_def unsafe_operation_def)
qed

section \<open>Properties\<close>

definition sample_set :: execution_set where
  "sample_set = \<lparr>xs_plan = sample_plan sample_operations,
     xs_selection = es_selection (derive_execution_selection ascii_upper (sample_plan sample_operations)),
     xs_run_id = sample_id 0, xs_status = Map.empty, xs_commitment = None\<rparr>"

lemmas eval_quarantine =
  quarantined_operation_ids_def quarantine_operation_def blocked_source_paths_def
  blocked_target_paths_def inside_any_region_def same_or_descendant_def option_list_def
  destructive_paths_def po_blocked_def path_key_def

lemma sample_fields [simp]:
  "map po_op_id sample_operations = [sample_id 0, sample_id 1, sample_id 2, sample_id 3]"
  "po_op_id sample_mkdir = sample_id 0" "po_op_id sample_copy_into = sample_id 1"
  "po_op_id sample_copy = sample_id 2" "po_op_id sample_trash = sample_id 3"
  "po_dependencies sample_mkdir = []" "po_dependencies sample_copy_into = [sample_id 0]"
  "po_dependencies sample_copy = []" "po_dependencies sample_trash = []"
  "pl_operations (sample_plan ops) = ops"
  "pl_source_complete (sample_plan ops)" "pl_target_complete (sample_plan ops)"
  by (simp_all add: eval_samples)

lemma set_sample_operations:
  "set sample_operations = {sample_mkdir, sample_copy_into, sample_copy, sample_trash}"
  by (simp add: sample_operations_def)

lemma sample_quarantined: "quarantined_operation_ids ascii_upper sample_operations = {}"
  by (simp add: eval_samples eval_quarantine eval_path)

lemma sample_unsafe:
  "unsafe_operation ascii_upper (sample_plan sample_operations) op \<longleftrightarrow> po_blocked op"
  by (simp add: unsafe_operation_def sample_quarantined)

lemma sample_blocked:
  "op \<in> set sample_operations \<Longrightarrow> po_blocked op \<longleftrightarrow> op = sample_mkdir"
  by (auto simp: po_blocked_def eval_samples)

lemma sample_must_exclude:
  "must_exclude ascii_upper (sample_plan sample_operations) d \<longleftrightarrow> d \<in> {sample_id 0, sample_id 1}"
proof
  show "must_exclude ascii_upper (sample_plan sample_operations) d \<Longrightarrow> d \<in> {sample_id 0, sample_id 1}"
  proof (induction rule: must_exclude.induct)
    case (unsafe op)
    then show ?case using sample_blocked [of op] by (simp add: sample_unsafe)
  next
    case (depends op d)
    then show ?case by (auto simp: set_sample_operations)
  qed
  have "must_exclude ascii_upper (sample_plan sample_operations) (po_op_id sample_mkdir)"
    by (rule must_exclude.unsafe) (simp_all add: sample_unsafe sample_blocked set_sample_operations)
  moreover from this have
    "must_exclude ascii_upper (sample_plan sample_operations) (po_op_id sample_copy_into)"
    by (rule must_exclude.depends [rotated 2]) (simp_all add: set_sample_operations)
  ultimately show "d \<in> {sample_id 0, sample_id 1} \<Longrightarrow>
      must_exclude ascii_upper (sample_plan sample_operations) d"
    by auto
qed

lemma sample_selection: "xs_selection sample_set = {sample_id 2, sample_id 3}"
  by (auto simp: sample_set_def selection_eq sample_must_exclude set_sample_operations image_iff
        conj_disj_distribR ex_disj_distrib)

lemma sample_remaining: "xs_remaining sample_set = [sample_copy, sample_trash]"
  unfolding xs_remaining_def sample_selection
  by (simp add: sample_set_def) (simp add: sample_operations_def)


text \<open>C23: A selection derived from the plan never meets a structural refusal: before anything has
  run, every remaining operation is unblocked, outside the quarantine, safe under the scan's
  completeness, and all its dependencies are selected and available.\<close>

theorem derived_selection_has_no_structure_refusals:
  assumes "dependency_ordered (pl_operations (xs_plan x))"
    and "xs_selection x = es_selection (derive_execution_selection up (xs_plan x))"
    and "xs_status x = Map.empty"
  shows "\<forall>op \<in> set (xs_remaining x). structure_refusals up x op = []"
  using derived_selection_admissible [OF assms] by (simp add: structure_refusals_Nil)

theorem derived_selection_has_no_structure_refusals_witness:
  "structure_refusals ascii_upper sample_set sample_copy = [] \<and>
   structure_refusals ascii_upper sample_set sample_trash = []"
proof -
  have "dependency_ordered (pl_operations (xs_plan sample_set))"
    using sample_operations_ordered by (simp add: sample_set_def sample_plan_def)
  then have "\<forall>op \<in> set (xs_remaining sample_set). structure_refusals ascii_upper sample_set op = []"
    by (rule derived_selection_has_no_structure_refusals) (simp_all add: sample_set_def)
  then show ?thesis by (simp add: sample_remaining)
qed

end
