(* ===== verification/Planner.thy ===== *)
theory Planner
  imports Planning_Lemmas
begin

text \<open>
  The pure sync planner (\<^verbatim>\<open>modules/planner.py\<close>). \<open>plan\<close> is cut at the loops of the source: the
  directory loop, the content loop, the removal loop, the unsupported records and the cleanup loop,
  each a fold over the list the source iterates with the variables it updates as the state. Record
  paths are validated by their constructors, so keys are taken with \<open>path_key\<close> and filters asked
  with \<open>excludes\<close>.
\<close>

section \<open>Helpers\<close>

definition depth :: "pystr \<Rightarrow> nat" where
  "depth path = length (win_parts path)"

definition parent_of :: "pystr \<Rightarrow> pystr option" where
  "parent_of path = (let parent = win_parent path in if parent = [dot] then None else Some parent)"

definition is_descendant :: "upper \<Rightarrow> pystr \<Rightarrow> pystr \<Rightarrow> bool" where
  "is_descendant up path directory = starts_with (path_key up directory @ [backslash]) (path_key up path)"

definition metadata_equal :: "file_stat \<Rightarrow> file_stat \<Rightarrow> int \<Rightarrow> bool" where
  "metadata_equal source target granularity_ns \<longleftrightarrow>
     st_size source = st_size target \<and>
     \<bar>st_mtime_ns source - st_mtime_ns target\<bar> \<le> granularity_ns \<and>
     attributes (st_metadata source) = attributes (st_metadata target)"

text \<open>The list that \<^verbatim>\<open>_group_by_key(records).get(key, [])\<close> returns.\<close>

definition group_by_key ::
    "('r \<Rightarrow> pystr) \<Rightarrow> ('r \<Rightarrow> pystr) \<Rightarrow> 'r list \<Rightarrow> pystr \<Rightarrow> 'r list" where
  "group_by_key key_of path_of records key = sort_key path_of (filter (\<lambda>r. key_of r = key) records)"

abbreviation files_by_key :: "file_record list \<Rightarrow> pystr \<Rightarrow> file_record list" where
  "files_by_key \<equiv> group_by_key fr_key fr_rel_path"

abbreviation dirs_by_key :: "dir_record list \<Rightarrow> pystr \<Rightarrow> dir_record list" where
  "dirs_by_key \<equiv> group_by_key dr_key dr_rel_path"

definition normalization_signature :: "runtime \<Rightarrow> pystr \<Rightarrow> pystr \<times> pystr" where
  "normalization_signature rt path = (win_parent path, rt_nfc rt (win_name path))"

definition normalization_pairs ::
    "runtime \<Rightarrow> assignment \<Rightarrow> file_record list \<Rightarrow> (pystr \<times> pystr) \<rightharpoonup> file_record" where
  "normalization_pairs rt assignment target_files =
     (let items = as_items assignment;
          matched = (\<lambda>item. files_by_key target_files (da_target_key item) \<noteq> []);
          directly_matched = map da_target_key (filter matched items);
          desired = filter (\<lambda>item. \<not> matched item) items;
          targets = filter (\<lambda>r. fr_key r \<notin> set directly_matched) target_files
      in map_of (rev (List.map_filter (\<lambda>item.
           let signature = normalization_signature rt (da_target item)
           in case (filter (\<lambda>i. normalization_signature rt (da_target i) = signature) desired,
                    filter (\<lambda>r. normalization_signature rt (fr_rel_path r) = signature) targets) of
                ([i], [t]) \<Rightarrow> if da_target i = fr_rel_path t then None
                             else Some ((da_source_key i, da_source i), t)
              | _ \<Rightarrow> None) desired)))"

definition identity_count :: "file_record list \<Rightarrow> file_identity \<Rightarrow> nat" where
  "identity_count records identity =
     length (filter (\<lambda>r. fr_identity r = Some identity) records)"

definition blocked_operation ::
    "runtime \<Rightarrow> operation_kind \<Rightarrow> pystr option \<Rightarrow> pystr \<Rightarrow> file_stat option \<Rightarrow> file_stat option \<Rightarrow>
     file_stat option \<Rightarrow> operation_reason \<Rightarrow> blocked_reason \<Rightarrow> op_id list \<Rightarrow> plan_operation" where
  "blocked_operation rt kind source target source_expected target_expected intended reason
       blocked_reason dependencies =
     \<lparr>po_op_id = deterministic_operation_id rt kind source target None reason,
      po_kind = kind, po_source = source, po_target = target,
      po_source_expected = source_expected, po_target_expected = target_expected,
      po_intended = intended, po_prior_target = None, po_prior_expected = None,
      po_metadata = map_option st_metadata intended, po_content_bytes = 0,
      po_dependencies = dependencies, po_reason = reason,
      po_blocked_reason = Some blocked_reason\<rparr>"

definition assignment_step ::
    "upper \<Rightarrow> (pystr \<times> pystr) set \<Rightarrow> (pystr \<times> pystr) set \<Rightarrow> destination_assignment \<Rightarrow>
     (pystr \<times> pystr) set res" where
  "assignment_step up source_identities items item =
     bindE (validate_relative_path up False (da_target item)) (\<lambda>_.
     let source_identity = (da_source_key item, da_source item)
     in bindE (raise_if (source_identity \<notin> source_identities)
          (ValueError ''destination policy assigned an unknown source'')) (\<lambda>_.
        bindE (raise_if (source_identity \<in> items)
          (ValueError ''destination policy assigned a source more than once'')) (\<lambda>_.
        Inr (insert source_identity items))))"

definition validate_assignment ::
    "upper \<Rightarrow> assignment \<Rightarrow> file_record list \<Rightarrow> (pystr \<times> pystr) set res" where
  "validate_assignment up assignment source_files =
     (let source_identities = set (map (\<lambda>r. (fr_key r, fr_rel_path r)) source_files)
      in bindE (foldE (assignment_step up source_identities) {} (as_items assignment)) (\<lambda>items.
         bindE (raise_if (items \<noteq> source_identities)
           (ValueError ''destination policy did not assign every source'')) (\<lambda>_.
         Inr items)))"

type_synonym created_directories = "pystr \<rightharpoonup> plan_operation"

definition nearest_created_parent ::
    "upper \<Rightarrow> pystr \<Rightarrow> created_directories \<Rightarrow> plan_operation option" where
  "nearest_created_parent up path created =
     Option.bind (List.find (\<lambda>parent. created (path_key up parent) \<noteq> None) (win_ancestors path))
       (\<lambda>parent. created (path_key up parent))"

definition move_pair ::
    "file_record \<Rightarrow> pystr \<Rightarrow> mapping_snapshot \<Rightarrow> scan_result \<Rightarrow> scan_result \<Rightarrow> file_record list \<Rightarrow>
     file_record list \<Rightarrow> pystr set \<Rightarrow> (mapping_pair \<times> file_record) option" where
  "move_pair source_record desired_key correspondence source target source_files target_files
       assigned_target_keys =
     (case (fr_identity source_record, sr_volume_id source, sr_volume_id target) of
        (Some identity, Some source_volume, Some target_volume) \<Rightarrow>
          (if fr_nlink source_record \<noteq> 1
              \<or> \<not> stable_file_identity (sr_profile source)
              \<or> \<not> stable_file_identity (sr_profile target)
              \<or> ms_source_volume_id correspondence \<noteq> Some source_volume
              \<or> ms_target_volume_id correspondence \<noteq> Some target_volume
              \<or> volume_serial identity \<noteq> vol_serial source_volume
              \<or> identity_count source_files identity \<noteq> 1
              \<or> identity \<in> ms_disqualified_source correspondence
              \<or> fr_key source_record \<in> ms_ambiguous_source_keys correspondence
           then None
           else
             (case filter (\<lambda>pair. mp_source_identity pair = identity) (ms_pairs correspondence) of
                [pair] \<Rightarrow>
                  (if mp_target_key pair = desired_key \<or> mp_target_key pair \<in> assigned_target_keys
                   then None
                   else
                     (case files_by_key target_files (mp_target_key pair) of
                        [old_target] \<Rightarrow>
                          (case fr_identity old_target of
                             None \<Rightarrow> None
                           | Some old_identity \<Rightarrow>
                               (if fr_nlink old_target \<noteq> 1
                                   \<or> volume_serial old_identity \<noteq> vol_serial target_volume
                                   \<or> identity_count target_files old_identity \<noteq> 1
                                   \<or> old_identity \<in> ms_disqualified_target correspondence
                                   \<or> (mp_target_identity pair \<noteq> None
                                      \<and> Some old_identity \<noteq> mp_target_identity pair)
                                then None
                                else Some (pair, old_target)))
                      | _ \<Rightarrow> None))
              | _ \<Rightarrow> None))
      | _ \<Rightarrow> None)"

section \<open>The planner's inputs after sorting and filtering\<close>

record planner_ctx =
  pc_source :: scan_result
  pc_target :: scan_result
  pc_correspondence :: mapping_snapshot
  pc_options :: sync_options
  pc_source_files :: "file_record list"
  pc_target_files :: "file_record list"
  pc_source_dirs :: "dir_record list"
  pc_target_dirs :: "dir_record list"
  pc_assignment :: assignment

definition record_order :: "file_record \<Rightarrow> pystr \<times> pystr" where
  "record_order r = (fr_key r, fr_rel_path r)"

definition dir_order :: "dir_record \<Rightarrow> nat \<times> pystr \<times> pystr" where
  "dir_order r = (if dr_rel_path r = [] then 0 else depth (dr_rel_path r), dr_key r, dr_rel_path r)"

definition planner_files :: "runtime \<Rightarrow> sync_options \<Rightarrow> scan_result \<Rightarrow> file_record list" where
  "planner_files rt options scan =
     filter (\<lambda>r. \<not> excludes rt (so_filters options) (fr_rel_path r))
       (sort_key record_order (sr_files scan))"

definition planner_source_dirs :: "runtime \<Rightarrow> sync_options \<Rightarrow> scan_result \<Rightarrow> dir_record list" where
  "planner_source_dirs rt options scan =
     filter (\<lambda>r. dr_rel_path r \<noteq> [] \<and> \<not> excludes rt (so_filters options) (dr_rel_path r))
       (sort_key dir_order (sr_directories scan))"

definition planner_target_dirs :: "scan_result \<Rightarrow> dir_record list" where
  "planner_target_dirs scan =
     filter (\<lambda>r. dr_rel_path r \<noteq> []) (sort_key dir_order (sr_directories scan))"

definition assigned_target_keys :: "planner_ctx \<Rightarrow> pystr set" where
  "assigned_target_keys ctx = set (map da_target_key (as_items (pc_assignment ctx)))"

definition assigned_group_size :: "planner_ctx \<Rightarrow> pystr \<Rightarrow> nat" where
  "assigned_group_size ctx key =
     length (filter (\<lambda>item. da_target_key item = key) (as_items (pc_assignment ctx)))"

definition directory_order :: "upper \<Rightarrow> pystr \<Rightarrow> nat \<times> pystr \<times> pystr" where
  "directory_order up path = (depth path, path_key up path, path)"

definition required_directory_paths :: "upper \<Rightarrow> planner_ctx \<Rightarrow> pystr list" where
  "required_directory_paths up ctx =
     sort_key (directory_order up) (remdups
       (map dr_rel_path (pc_source_dirs ctx)
        @ concat (map (\<lambda>item. win_ancestors (da_target item)) (as_items (pc_assignment ctx)))))"

section \<open>Directories\<close>

definition mkdir_operation ::
    "runtime \<Rightarrow> planner_ctx \<Rightarrow> created_directories \<Rightarrow> pystr \<Rightarrow> plan_operation" where
  "mkdir_operation rt ctx created directory_path =
     (let up = rt_upper rt; directory_key = path_key up directory_path;
          existing_files = files_by_key (pc_target_files ctx) directory_key;
          source_candidates = dirs_by_key (pc_source_dirs ctx) directory_key;
          source_directory = (case source_candidates of [d] \<Rightarrow> Some d | _ \<Rightarrow> None);
          dependencies = map po_op_id (option_list (nearest_created_parent up directory_path created))
      in case source_directory of
           Some d \<Rightarrow>
             (if existing_files \<noteq> []
              then blocked_operation rt MKDIR (Some (dr_rel_path d)) directory_path (Some (dr_stat d))
                     (case existing_files of [f] \<Rightarrow> Some (fr_stat f) | _ \<Rightarrow> None)
                     (Some (dr_stat d)) R_TYPE_COLLISION B_TYPE_COLLISION dependencies
              else \<lparr>po_op_id = deterministic_operation_id rt MKDIR (Some (dr_rel_path d)) directory_path None
                      R_REQUIRED_DIRECTORY,
                    po_kind = MKDIR, po_source = Some (dr_rel_path d), po_target = directory_path,
                    po_source_expected = Some (dr_stat d), po_target_expected = None,
                    po_intended = Some (dr_stat d), po_prior_target = None, po_prior_expected = None,
                    po_metadata = Some (dr_metadata d), po_content_bytes = 0,
                    po_dependencies = dependencies, po_reason = R_REQUIRED_DIRECTORY,
                    po_blocked_reason = None\<rparr>)
         | None \<Rightarrow>
             blocked_operation rt MKDIR (Some directory_path) directory_path None
               (case existing_files of [f] \<Rightarrow> Some (fr_stat f) | _ \<Rightarrow> None) None
               (if existing_files \<noteq> [] then R_TYPE_COLLISION else R_POLICY_COLLISION)
               (if existing_files \<noteq> [] then B_TYPE_COLLISION else B_DESTINATION_COLLISION)
               dependencies)"

definition mkdir_step ::
    "runtime \<Rightarrow> planner_ctx \<Rightarrow> plan_operation list \<times> created_directories \<Rightarrow> pystr \<Rightarrow>
     plan_operation list \<times> created_directories" where
  "mkdir_step rt ctx st directory_path =
     (let (ops, created) = st; directory_key = path_key (rt_upper rt) directory_path
      in if dirs_by_key (pc_target_dirs ctx) directory_key \<noteq> [] then (ops, created)
         else (let op = mkdir_operation rt ctx created directory_path
               in (ops @ [op], created(directory_key \<mapsto> op))))"

definition mkdir_loop :: "runtime \<Rightarrow> planner_ctx \<Rightarrow> plan_operation list \<times> created_directories" where
  "mkdir_loop rt ctx =
     foldl (mkdir_step rt ctx) ([], Map.empty) (required_directory_paths (rt_upper rt) ctx)"

section \<open>Content\<close>

record content_state =
  cs_operations :: "plan_operation list"
  cs_claimed :: "pystr set"
  cs_moved_from :: "pystr set"

definition granularity :: "planner_ctx \<Rightarrow> int" where
  "granularity ctx = max (mtime_granularity_ns (sr_profile (pc_source ctx)))
                         (mtime_granularity_ns (sr_profile (pc_target ctx)))"

text \<open>The branch of a present target record: no-op, update or recase.\<close>

definition matched_operation ::
    "runtime \<Rightarrow> planner_ctx \<Rightarrow> file_record \<Rightarrow> destination_assignment \<Rightarrow> file_record \<Rightarrow> bool \<Rightarrow>
     op_id list \<Rightarrow> plan_operation" where
  "matched_operation rt ctx source_record item target_record normalization_mismatch dependencies =
     (let matched = metadata_equal (fr_stat source_record) (fr_stat target_record) (granularity ctx);
          desired_name = win_name (da_target item);
          case_mismatch = (\<not> normalization_mismatch \<and> da_target item \<noteq> fr_rel_path target_record);
          recased = (case_mismatch \<and> so_propagate_source_casing (pc_options ctx)
                     \<and> desired_name \<noteq> win_name (fr_rel_path target_record));
          reason = (if normalization_mismatch then R_UNICODE_NORMALIZATION_MISMATCH
                    else if case_mismatch then R_CASE_MISMATCH
                    else if matched then R_METADATA_MATCH else R_METADATA_CHANGED);
          target_path = (if recased
                         then win_join (butlast (win_parts (fr_rel_path target_record)) @ [desired_name])
                         else if normalization_mismatch \<or> case_mismatch then fr_rel_path target_record
                         else da_target item);
          kind = (if recased \<and> matched then RECASE else if matched then NOOP else UPDATE);
          prior = (if kind = RECASE then Some (fr_rel_path target_record) else None);
          prior_expected = (if kind = RECASE then Some (fr_stat target_record) else None);
          intended = (if kind = RECASE then fr_stat target_record else fr_stat source_record)
      in \<lparr>po_op_id = deterministic_operation_id rt kind (Some (fr_rel_path source_record)) target_path
            prior reason,
          po_kind = kind, po_source = Some (fr_rel_path source_record), po_target = target_path,
          po_source_expected = Some (fr_stat source_record),
          po_target_expected = Some (fr_stat target_record), po_intended = Some intended,
          po_prior_target = prior, po_prior_expected = prior_expected,
          po_metadata = Some (st_metadata intended),
          po_content_bytes = (if kind = UPDATE then fr_size source_record else 0),
          po_dependencies = dependencies, po_reason = reason, po_blocked_reason = None\<rparr>)"

definition move_operation ::
    "runtime \<Rightarrow> planner_ctx \<Rightarrow> file_record \<Rightarrow> destination_assignment \<Rightarrow> mapping_pair \<Rightarrow> file_record \<Rightarrow>
     op_id list \<Rightarrow> plan_operation" where
  "move_operation rt ctx source_record item pair old_target dependencies =
     (let matched = metadata_equal (fr_stat source_record) (fr_stat old_target) (granularity ctx);
          kind = (if matched then MOVE else MOVE_UPDATE);
          reason = (if matched then R_IDENTITY_RENAME else R_IDENTITY_RENAME_CHANGED)
      in \<lparr>po_op_id = deterministic_operation_id rt kind (Some (fr_rel_path source_record))
            (da_target item) (Some (mp_target pair)) reason,
          po_kind = kind, po_source = Some (fr_rel_path source_record), po_target = da_target item,
          po_source_expected = Some (fr_stat source_record), po_target_expected = None,
          po_intended = Some (fr_stat source_record), po_prior_target = Some (mp_target pair),
          po_prior_expected = Some (fr_stat old_target),
          po_metadata = Some (fr_metadata source_record),
          po_content_bytes = (if matched then 0 else fr_size source_record),
          po_dependencies = dependencies, po_reason = reason, po_blocked_reason = None\<rparr>)"

definition copy_operation ::
    "runtime \<Rightarrow> file_record \<Rightarrow> destination_assignment \<Rightarrow> op_id list \<Rightarrow> plan_operation" where
  "copy_operation rt source_record item dependencies =
     \<lparr>po_op_id = deterministic_operation_id rt COPY (Some (fr_rel_path source_record)) (da_target item)
        None R_SOURCE_ONLY,
      po_kind = COPY, po_source = Some (fr_rel_path source_record), po_target = da_target item,
      po_source_expected = Some (fr_stat source_record), po_target_expected = None,
      po_intended = Some (fr_stat source_record), po_prior_target = None, po_prior_expected = None,
      po_metadata = Some (fr_metadata source_record), po_content_bytes = fr_size source_record,
      po_dependencies = dependencies, po_reason = R_SOURCE_ONLY, po_blocked_reason = None\<rparr>"

text \<open>
  What one iteration decides: the operation, the target key it claims (if any) and the target key
  it moves from (if any).
\<close>

record content_decision =
  cd_operation :: plan_operation
  cd_claims :: "pystr option"
  cd_moves_from :: "pystr option"

definition decide_content ::
    "runtime \<Rightarrow> planner_ctx \<Rightarrow> created_directories \<Rightarrow> destination_assignment \<Rightarrow> content_decision res" where
  "decide_content rt ctx created item =
     (case files_by_key (pc_source_files ctx) (da_source_key item) of
        [] \<Rightarrow> Inl KeyError
      | source_record # more_sources \<Rightarrow>
        (let up = rt_upper rt;
             direct_values = files_by_key (pc_target_files ctx) (da_target_key item);
             normalization_target =
               normalization_pairs rt (pc_assignment ctx) (pc_target_files ctx)
                 (da_source_key item, da_source item);
             normalization_mismatch = (direct_values = [] \<and> normalization_target \<noteq> None);
             target_values = (if normalization_mismatch then option_list normalization_target
                              else direct_values);
             target_directory_values = dirs_by_key (pc_target_dirs ctx) (da_target_key item);
             parent_operation = nearest_created_parent up (da_target item) created;
             dependencies = map po_op_id (option_list parent_operation);
             inherited_block = (\<exists>op. parent_operation = Some op \<and> po_blocked op);
             assignment_collision = (assigned_group_size ctx (da_target_key item) > 1
                                     \<or> da_conflict item \<noteq> None);
             case_collision = (more_sources \<noteq> [] \<or> length target_values > 1);
             src = Some (fr_rel_path source_record); stat = Some (fr_stat source_record)
         in
         if case_collision \<or> assignment_collision
         then Inr \<lparr>cd_operation = blocked_operation rt COPY src (da_target item) stat
                     (case target_values of [t] \<Rightarrow> Some (fr_stat t) | _ \<Rightarrow> None) stat
                     (if case_collision then R_CASE_COLLISION else R_POLICY_COLLISION)
                     (if case_collision then B_CASE_COLLISION else B_DESTINATION_COLLISION) dependencies,
                   cd_claims = Some (da_target_key item), cd_moves_from = None\<rparr>
         else if target_directory_values \<noteq> []
         then Inr \<lparr>cd_operation = blocked_operation rt COPY src (da_target item) stat
                     (case target_directory_values of [d] \<Rightarrow> Some (dr_stat d) | _ \<Rightarrow> None) stat
                     R_TYPE_COLLISION B_TYPE_COLLISION dependencies,
                   cd_claims = Some (da_target_key item), cd_moves_from = None\<rparr>
         else if inherited_block
         then Inr \<lparr>cd_operation = blocked_operation rt COPY src (da_target item) stat None stat
                     R_SOURCE_ONLY B_BLOCKED_DEPENDENCY dependencies,
                   cd_claims = None, cd_moves_from = None\<rparr>
         else
         (case target_values of
            target_record # _ \<Rightarrow>
              Inr \<lparr>cd_operation = matched_operation rt ctx source_record item target_record
                     normalization_mismatch dependencies,
                   cd_claims = Some (fr_key target_record), cd_moves_from = None\<rparr>
          | [] \<Rightarrow>
            (case move_pair source_record (da_target_key item) (pc_correspondence ctx) (pc_source ctx)
                    (pc_target ctx) (pc_source_files ctx) (pc_target_files ctx)
                    (assigned_target_keys ctx) of
               Some (pair, old_target) \<Rightarrow>
                 Inr \<lparr>cd_operation = move_operation rt ctx source_record item pair old_target dependencies,
                      cd_claims = Some (da_target_key item),
                      cd_moves_from = Some (mp_target_key pair)\<rparr>
             | None \<Rightarrow>
                 Inr \<lparr>cd_operation = copy_operation rt source_record item dependencies,
                      cd_claims = Some (da_target_key item), cd_moves_from = None\<rparr>))))"

definition content_step ::
    "runtime \<Rightarrow> planner_ctx \<Rightarrow> created_directories \<Rightarrow> content_state \<Rightarrow> destination_assignment \<Rightarrow>
     content_state res" where
  "content_step rt ctx created st item =
     bindE (decide_content rt ctx created item) (\<lambda>d.
     Inr \<lparr>cs_operations = cs_operations st @ [cd_operation d],
          cs_claimed = cs_claimed st \<union> set (option_list (cd_claims d)),
          cs_moved_from = cs_moved_from st \<union> set (option_list (cd_moves_from d))\<rparr>)"

definition item_order :: "destination_assignment \<Rightarrow> pystr \<times> pystr \<times> pystr" where
  "item_order item = (da_target_key item, da_target item, da_source item)"

definition content_loop :: "runtime \<Rightarrow> planner_ctx \<Rightarrow> created_directories \<Rightarrow> content_state res" where
  "content_loop rt ctx created =
     foldE (content_step rt ctx created)
       \<lparr>cs_operations = [], cs_claimed = {}, cs_moved_from = {}\<rparr>
       (sort_key item_order (as_items (pc_assignment ctx)))"

section \<open>Removals and unsupported records\<close>

definition removable_files :: "planner_ctx \<Rightarrow> content_state \<Rightarrow> file_record list" where
  "removable_files ctx st =
     (if so_deletion_policy (pc_options ctx) = POLICY_ADDITIVE then []
      else filter (\<lambda>r. fr_key r \<notin> cs_claimed st \<and> fr_key r \<notin> cs_moved_from st) (pc_target_files ctx))"

definition removal_kind :: "sync_options \<Rightarrow> operation_kind" where
  "removal_kind options = (if so_deletion_policy options = POLICY_TRASH then TRASH else DELETE)"

definition removal_operation :: "runtime \<Rightarrow> sync_options \<Rightarrow> file_record \<Rightarrow> plan_operation" where
  "removal_operation rt options r =
     \<lparr>po_op_id = deterministic_operation_id rt (removal_kind options) None (fr_rel_path r) None R_TARGET_ONLY,
      po_kind = removal_kind options, po_source = None, po_target = fr_rel_path r,
      po_source_expected = None, po_target_expected = Some (fr_stat r), po_intended = None,
      po_prior_target = None, po_prior_expected = None, po_metadata = None, po_content_bytes = 0,
      po_dependencies = [], po_reason = R_TARGET_ONLY, po_blocked_reason = None\<rparr>"

definition removed_file_keys :: "planner_ctx \<Rightarrow> content_state \<Rightarrow> pystr set" where
  "removed_file_keys ctx st = cs_moved_from st \<union> set (map fr_key (removable_files ctx st))"

definition unsupported_order :: "unsupported_record \<Rightarrow> pystr \<times> pystr" where
  "unsupported_order r = (ur_key r, ur_rel_path r)"

definition visible_unsupported :: "runtime \<Rightarrow> planner_ctx \<Rightarrow> unsupported_record list" where
  "visible_unsupported rt ctx =
     sort_key unsupported_order (map snd (foldl (\<lambda>d r. dict_set (ur_key r, ur_rel_path r) r d) []
       (filter (\<lambda>r. \<not> excludes rt (so_filters (pc_options ctx)) (ur_rel_path r))
         (sr_unsupported (pc_source ctx) @ sr_unsupported (pc_target ctx)))))"

definition unsupported_operation :: "runtime \<Rightarrow> unsupported_record \<Rightarrow> plan_operation" where
  "unsupported_operation rt r =
     blocked_operation rt NOOP (Some (ur_rel_path r)) (ur_rel_path r) None None None
       R_UNSUPPORTED B_UNSUPPORTED []"

section \<open>Directory cleanup\<close>

definition removal_by_path :: "plan_operation list \<Rightarrow> (pystr, plan_operation) dict" where
  "removal_by_path ops =
     foldl (\<lambda>d op.
         if po_kind op \<in> {TRASH, DELETE} then dict_set (po_target op) op d
         else if po_kind op \<in> {MOVE, MOVE_UPDATE}
           then (case po_prior_target op of None \<Rightarrow> d
                 | Some prior \<Rightarrow> if prior = [] then d else dict_set prior op d)
         else d) [] ops"

definition cleanup_order :: "dir_record \<Rightarrow> int \<times> pystr \<times> pystr" where
  "cleanup_order r = (- int (depth (dr_rel_path r)), dr_key r, dr_rel_path r)"

type_synonym cleanup_state = "plan_operation list \<times> (pystr, plan_operation) dict"

definition cleanup_retained ::
    "runtime \<Rightarrow> planner_ctx \<Rightarrow> pystr set \<Rightarrow> pystr set \<Rightarrow> (pystr, plan_operation) dict \<Rightarrow> dir_record \<Rightarrow> bool" where
  "cleanup_retained rt ctx desired removed cleanup_by_key directory =
     (let up = rt_upper rt; filters = so_filters (pc_options ctx); target = pc_target ctx;
          dir = dr_rel_path directory;
          excluded_child = (\<lambda>path. path \<noteq> dir \<and> path \<noteq> [] \<and> is_descendant up path dir \<and> excludes rt filters path)
      in (\<exists>path \<in> set (map fr_rel_path (sr_files target) @ map dr_rel_path (sr_directories target)).
            excluded_child path)
       \<or> (\<exists>r \<in> set (sr_unsupported target). is_descendant up (ur_rel_path r) dir)
       \<or> (\<exists>r \<in> set (sr_files target). is_descendant up (fr_rel_path r) dir \<and> fr_key r \<notin> removed)
       \<or> (\<exists>child \<in> set (pc_target_dirs ctx). parent_of (dr_rel_path child) = Some dir
            \<and> map_of cleanup_by_key (dr_key child) = None \<and> dr_key child \<notin> desired))"

definition cleanup_dependencies ::
    "upper \<Rightarrow> (pystr, plan_operation) dict \<Rightarrow> (pystr, plan_operation) dict \<Rightarrow> pystr \<Rightarrow> op_id list" where
  "cleanup_dependencies up removals cleanup_by_key dir =
     sort (remdups
       (map (\<lambda>kv. po_op_id (snd kv))
          (filter (\<lambda>kv. fst kv = dir \<or> is_descendant up (fst kv) dir) removals)
        @ map (\<lambda>kv. po_op_id (snd kv))
          (filter (\<lambda>kv. parent_of (po_target (snd kv)) = Some dir) cleanup_by_key)))"

definition cleanup_operation :: "runtime \<Rightarrow> dir_record \<Rightarrow> op_id list \<Rightarrow> plan_operation" where
  "cleanup_operation rt directory dependencies =
     \<lparr>po_op_id = deterministic_operation_id rt DELETE None (dr_rel_path directory) None R_DIRECTORY_CLEANUP,
      po_kind = DELETE, po_source = None, po_target = dr_rel_path directory,
      po_source_expected = None, po_target_expected = Some (dr_stat directory), po_intended = None,
      po_prior_target = None, po_prior_expected = None, po_metadata = None, po_content_bytes = 0,
      po_dependencies = dependencies, po_reason = R_DIRECTORY_CLEANUP, po_blocked_reason = None\<rparr>"

definition cleanup_step ::
    "runtime \<Rightarrow> planner_ctx \<Rightarrow> pystr set \<Rightarrow> pystr set \<Rightarrow> (pystr, plan_operation) dict \<Rightarrow>
     cleanup_state \<Rightarrow> dir_record \<Rightarrow> cleanup_state" where
  "cleanup_step rt ctx desired removed removals st directory =
     (let (ops, cleanup_by_key) = st; options = pc_options ctx
      in if so_deletion_policy options = POLICY_ADDITIVE
            \<or> dr_key directory \<in> desired
            \<or> excludes rt (so_filters options) (dr_rel_path directory)
         then (ops, cleanup_by_key)
         else if cleanup_retained rt ctx desired removed cleanup_by_key directory
         then (ops, cleanup_by_key)
         else (let cleanup = cleanup_operation rt directory
                     (cleanup_dependencies (rt_upper rt) removals cleanup_by_key (dr_rel_path directory))
               in (ops @ [cleanup], dict_set (dr_key directory) cleanup cleanup_by_key)))"

definition cleanup_loop ::
    "runtime \<Rightarrow> planner_ctx \<Rightarrow> pystr set \<Rightarrow> pystr set \<Rightarrow> (pystr, plan_operation) dict \<Rightarrow> cleanup_state" where
  "cleanup_loop rt ctx desired removed removals =
     foldl (cleanup_step rt ctx desired removed removals) ([], [])
       (sort_key cleanup_order (pc_target_dirs ctx))"

section \<open>The plan\<close>

definition plan_operations :: "runtime \<Rightarrow> planner_ctx \<Rightarrow> plan_operation list res" where
  "plan_operations rt ctx =
     (let (mkdirs, created) = mkdir_loop rt ctx
      in bindE (content_loop rt ctx created) (\<lambda>st.
         let removals = map (removal_operation rt (pc_options ctx)) (removable_files ctx st);
             unsupported = map (unsupported_operation rt) (visible_unsupported rt ctx);
             desired = set (map (path_key (rt_upper rt)) (required_directory_paths (rt_upper rt) ctx));
             (cleanups, _) = cleanup_loop rt ctx desired (removed_file_keys ctx st)
               (removal_by_path (cs_operations st @ removals))
         in Inr (mkdirs @ cs_operations st @ removals @ unsupported @ cleanups)))"

definition planner_context ::
    "runtime \<Rightarrow> scan_result \<Rightarrow> scan_result \<Rightarrow> mapping_snapshot \<Rightarrow> sync_options \<Rightarrow> assignment \<Rightarrow> planner_ctx" where
  "planner_context rt source target correspondence options assignment =
     \<lparr>pc_source = source, pc_target = target, pc_correspondence = correspondence,
      pc_options = options, pc_source_files = planner_files rt options source,
      pc_target_files = planner_files rt options target,
      pc_source_dirs = planner_source_dirs rt options source,
      pc_target_dirs = planner_target_dirs target, pc_assignment = assignment\<rparr>"

definition assemble_plan :: "runtime \<Rightarrow> planner_ctx \<Rightarrow> plan_operation list \<Rightarrow> plan" where
  "assemble_plan rt ctx operations =
     (let source = pc_source ctx; target = pc_target ctx; options = pc_options ctx;
          placeholder = \<lparr>pl_source_root = sr_root source, pl_target_root = sr_root target,
            pl_source_volume_id = sr_volume_id source, pl_target_volume_id = sr_volume_id target,
            pl_source_volume_evidence = sr_volume_evidence source,
            pl_target_volume_evidence = sr_volume_evidence target,
            pl_source_profile = sr_profile source, pl_target_profile = sr_profile target,
            pl_source_complete = (sr_complete source \<and> is_full_scan source),
            pl_target_complete = (sr_complete target \<and> is_full_scan target),
            pl_operations = operations, pl_assignment = pc_assignment ctx,
            pl_preservation = so_preservation options, pl_filter_snapshot = so_filters options,
            pl_deletion_policy = so_deletion_policy options,
            pl_trash_on_update = so_trash_on_update options,
            pl_policy_fingerprint = policy_fingerprint rt options,
            pl_worker_count = so_worker_count options,
            pl_required_volumes = remdups (option_list (sr_volume_id source)
                                            @ option_list (sr_volume_id target)),
            pl_required_bytes = calculate_required_bytes operations (sr_profile target)
              (so_trash_on_update options),
            pl_fingerprint = replicate 64 48\<rparr>
      in placeholder\<lparr>pl_fingerprint := plan_fingerprint rt placeholder\<rparr>)"

text \<open>
  The constructor of an operation runs where the operation is built; the checks have no effect
  other than raising, and they are run here over the collected operations.
\<close>

definition plan ::
    "runtime \<Rightarrow> scan_result \<Rightarrow> scan_result \<Rightarrow> mapping_snapshot \<Rightarrow> sync_options \<Rightarrow> scope_kind \<Rightarrow> plan res" where
  "plan rt source target correspondence options scope =
     bindE (raise_if (scope \<noteq> S_EVERYTHING)
       (NotImplementedError ''scope is declared but not implemented in M0'')) (\<lambda>_.
     bindE (dp_assign (so_destination_policy options) (planner_files rt options source) target) (\<lambda>assignment.
     bindE (validate_assignment (rt_upper rt) assignment (planner_files rt options source)) (\<lambda>_.
     let ctx = planner_context rt source target correspondence options assignment
     in bindE (plan_operations rt ctx) (\<lambda>operations.
        bindE (eachE (plan_operation_post_init (rt_upper rt)) operations) (\<lambda>_.
        let p = assemble_plan rt ctx operations
        in bindE (plan_post_init p) (\<lambda>_. Inr p))))))"

end
