(* ===== verification/Planner_Lemmas.thy ===== *)
theory Planner_Lemmas
  imports Planner Selection
begin

text \<open>
  Lemmas on the planner: the content loop decides each assigned item on its own, every dependency
  names an earlier operation, and removals, moves and directory cleanups only touch what the scans
  and the policy allow.
\<close>

section \<open>The loops\<close>

definition content_items :: "planner_ctx \<Rightarrow> destination_assignment list" where
  "content_items ctx = sort_key item_order (as_items (pc_assignment ctx))"

definition decisions_state :: "content_decision list \<Rightarrow> content_state" where
  "decisions_state ds =
     \<lparr>cs_operations = map cd_operation ds,
      cs_claimed = set (concat (map (\<lambda>d. option_list (cd_claims d)) ds)),
      cs_moved_from = set (concat (map (\<lambda>d. option_list (cd_moves_from d)) ds))\<rparr>"

lemma content_fold_eq:
  "foldE (content_step rt ctx created) (decisions_state pre) items =
     bindE (mapE (decide_content rt ctx created) items) (\<lambda>ds. Inr (decisions_state (pre @ ds)))"
proof (induction items arbitrary: pre)
  case (Cons item items)
  show ?case
  proof (cases "decide_content rt ctx created item")
    case (Inr d)
    then have "content_step rt ctx created (decisions_state pre) item = Inr (decisions_state (pre @ [d]))"
      by (simp add: content_step_def decisions_state_def)
    with Inr show ?thesis
      by (simp add: Cons.IH) (cases "mapE (decide_content rt ctx created) items"; simp)
  qed (simp add: content_step_def)
qed simp

lemma content_loop_eq:
  "content_loop rt ctx created =
     bindE (mapE (decide_content rt ctx created) (content_items ctx)) (\<lambda>ds. Inr (decisions_state ds))"
  using content_fold_eq [of rt ctx created "[]" "content_items ctx"]
  by (simp add: content_loop_def content_items_def decisions_state_def)

lemma set_content_items [simp]: "set (content_items ctx) = set (as_items (pc_assignment ctx))"
  by (simp add: content_items_def)

lemma plan_operations_parts:
  assumes "plan_operations rt ctx = Inr ops"
  obtains mkdirs created ds cleanups cleanup_by_key where
    "mkdir_loop rt ctx = (mkdirs, created)"
    "mapE (decide_content rt ctx created) (content_items ctx) = Inr ds"
    "cleanup_loop rt ctx
       (set (map (path_key (rt_upper rt)) (required_directory_paths (rt_upper rt) ctx)))
       (removed_file_keys ctx (decisions_state ds))
       (removal_by_path (map cd_operation ds
          @ map (removal_operation rt (pc_options ctx)) (removable_files ctx (decisions_state ds))))
     = (cleanups, cleanup_by_key)"
    "ops = mkdirs @ map cd_operation ds
       @ map (removal_operation rt (pc_options ctx)) (removable_files ctx (decisions_state ds))
       @ map (unsupported_operation rt) (visible_unsupported rt ctx) @ cleanups"
proof -
  obtain mkdirs created where m: "mkdir_loop rt ctx = (mkdirs, created)"
    by (cases "mkdir_loop rt ctx")
  obtain ds where d: "mapE (decide_content rt ctx created) (content_items ctx) = Inr ds"
    using assms m by (auto simp: plan_operations_def content_loop_eq bindE_eq_Inr)
  obtain cleanups cb where c: "cleanup_loop rt ctx
       (set (map (path_key (rt_upper rt)) (required_directory_paths (rt_upper rt) ctx)))
       (removed_file_keys ctx (decisions_state ds))
       (removal_by_path (map cd_operation ds
          @ map (removal_operation rt (pc_options ctx)) (removable_files ctx (decisions_state ds))))
     = (cleanups, cb)"
    by fastforce
  have "cs_operations (decisions_state ds) = map cd_operation ds"
    by (simp add: decisions_state_def)
  then show ?thesis
    using that [OF m d c] assms m d c by (simp add: plan_operations_def content_loop_eq Let_def)
qed

section \<open>Dependency closure\<close>

text \<open>Every dependency of an operation of \<open>ops\<close> is in \<open>known\<close> or names an earlier operation.\<close>

fun deps_closed :: "op_id set \<Rightarrow> plan_operation list \<Rightarrow> bool" where
  "deps_closed known [] = True"
| "deps_closed known (op # ops) \<longleftrightarrow>
     set (po_dependencies op) \<subseteq> known \<and> deps_closed (insert (po_op_id op) known) ops"

lemma deps_closed_append [simp]:
  "deps_closed known (xs @ ys) \<longleftrightarrow>
     deps_closed known xs \<and> deps_closed (known \<union> set (map po_op_id xs)) ys"
  by (induction xs arbitrary: known) auto

lemma deps_closed_mono: "deps_closed known ops \<Longrightarrow> known \<subseteq> known' \<Longrightarrow> deps_closed known' ops"
  by (induction ops arbitrary: known known') (auto, blast)

lemma deps_closed_all:
  "\<forall>op \<in> set ops. set (po_dependencies op) \<subseteq> known \<Longrightarrow> deps_closed known ops"
  by (induction ops arbitrary: known) (auto intro: deps_closed_mono)

lemma deps_closed_nth:
  "deps_closed known ops \<Longrightarrow> i < length ops \<Longrightarrow> d \<in> set (po_dependencies (ops ! i)) \<Longrightarrow>
     d \<in> known \<or> (\<exists>j < i. po_op_id (ops ! j) = d)"
proof (induction ops arbitrary: known i)
  case (Cons op ops)
  show ?case
  proof (cases i)
    case (Suc k)
    with Cons have "d \<in> insert (po_op_id op) known \<or> (\<exists>j < k. po_op_id (ops ! j) = d)"
      by auto
    with Suc show ?thesis by (auto intro: exI [of _ 0] exI [of _ "Suc _"])
  qed (use Cons in auto)
qed simp

lemma nearest_created_parent_Some:
  "nearest_created_parent up path created = Some op \<Longrightarrow> op \<in> ran created"
  by (auto simp: nearest_created_parent_def ran_def split: Option.bind_splits)

lemma parent_dependency:
  "set (map po_op_id (option_list (nearest_created_parent up path created))) \<subseteq> po_op_id ` ran created"
  by (cases "nearest_created_parent up path created")
     (auto simp: option_list_def dest: nearest_created_parent_Some)

lemma mkdir_operation_deps:
  "set (po_dependencies (mkdir_operation rt ctx created path)) \<subseteq> po_op_id ` ran created"
proof -
  have "po_dependencies (mkdir_operation rt ctx created path) =
      map po_op_id (option_list (nearest_created_parent (rt_upper rt) path created))"
    by (simp add: mkdir_operation_def blocked_operation_def Let_def split: option.split)
  then show ?thesis by (simp only: parent_dependency)
qed

lemma mkdir_step_closed:
  assumes "deps_closed {} ops" and "ran created \<subseteq> set ops"
    and "mkdir_step rt ctx (ops, created) path = (ops', created')"
  shows "deps_closed {} ops' \<and> ran created' \<subseteq> set ops'"
proof (cases "dirs_by_key (pc_target_dirs ctx) (path_key (rt_upper rt) path) = []")
  case True
  let ?op = "mkdir_operation rt ctx created path"
  have "set (po_dependencies ?op) \<subseteq> set (map po_op_id ops)"
    using mkdir_operation_deps [of rt ctx created path] assms(2) by auto
  moreover have "ops' = ops @ [?op]" "created' = created(path_key (rt_upper rt) path \<mapsto> ?op)"
    using True assms(3) by (simp_all add: mkdir_step_def Let_def)
  moreover have "ran (created(path_key (rt_upper rt) path \<mapsto> ?op)) \<subseteq> insert ?op (ran created)"
    by (auto simp: ran_def)
  ultimately show ?thesis using assms(1,2) by auto
next
  case False
  then show ?thesis using assms by (simp add: mkdir_step_def Let_def)
qed

lemma mkdir_loop_closed:
  assumes "mkdir_loop rt ctx = (ops, created)"
  shows "deps_closed {} ops \<and> ran created \<subseteq> set ops"
proof -
  have "deps_closed {} (fst (foldl (mkdir_step rt ctx) ([], Map.empty) paths)) \<and>
        ran (snd (foldl (mkdir_step rt ctx) ([], Map.empty) paths))
          \<subseteq> set (fst (foldl (mkdir_step rt ctx) ([], Map.empty) paths))" for paths
    by (rule foldl_inv [where P = "\<lambda>s. deps_closed {} (fst s) \<and> ran (snd s) \<subseteq> set (fst s)"])
       (use mkdir_step_closed in \<open>metis prod.collapse\<close>, simp)
  with assms show ?thesis by (metis fst_conv mkdir_loop_def snd_conv)
qed

lemma decide_content_deps:
  assumes "decide_content rt ctx created item = Inr d"
  shows "set (po_dependencies (cd_operation d)) \<subseteq> po_op_id ` ran created"
proof -
  have "po_dependencies (cd_operation d) =
      map po_op_id (option_list (nearest_created_parent (rt_upper rt) (da_target item) created))"
    using assms
    by (auto simp: decide_content_def blocked_operation_def matched_operation_def move_operation_def
          copy_operation_def Let_def split: list.splits option.splits if_splits)
  then show ?thesis by (simp only: parent_dependency)
qed


text \<open>The operations that \<open>removal_by_path\<close> records.\<close>

lemma removal_by_path_values:
  "(path, op) \<in> set (removal_by_path ops) \<Longrightarrow> op \<in> set ops"
proof -
  have "set (removal_by_path ops) \<subseteq> UNIV \<times> set ops"
    unfolding removal_by_path_def
    by (rule foldl_inv [where P = "\<lambda>d. set d \<subseteq> UNIV \<times> set ops"])
       (use set_dict_set in \<open>fastforce split: if_splits option.splits\<close>)+
  then show "(path, op) \<in> set (removal_by_path ops) \<Longrightarrow> op \<in> set ops" by blast
qed

lemma cleanup_step_cases:
  assumes "cleanup_step rt ctx desired removed removals (ops, cb) directory = (ops', cb')"
  obtains (skip) "ops' = ops" "cb' = cb"
  | (clean) "ops' = ops @ [cleanup_operation rt directory
        (cleanup_dependencies (rt_upper rt) removals cb (dr_rel_path directory))]"
      "cb' = dict_set (dr_key directory) (cleanup_operation rt directory
        (cleanup_dependencies (rt_upper rt) removals cb (dr_rel_path directory))) cb"
      "so_deletion_policy (pc_options ctx) \<noteq> POLICY_ADDITIVE" "dr_key directory \<notin> desired"
      "\<not> excludes rt (so_filters (pc_options ctx)) (dr_rel_path directory)"
      "\<not> cleanup_retained rt ctx desired removed cb directory"
proof (cases "so_deletion_policy (pc_options ctx) = POLICY_ADDITIVE \<or> dr_key directory \<in> desired
        \<or> excludes rt (so_filters (pc_options ctx)) (dr_rel_path directory)")
  case True
  then show ?thesis
    using assms skip by (simp only: cleanup_step_def Let_def prod.case if_True prod.inject simp_thms)
next
  case False
  show ?thesis
  proof (cases "cleanup_retained rt ctx desired removed cb directory")
    case True
    then show ?thesis
      using assms False skip
      by (simp only: cleanup_step_def Let_def prod.case if_True if_False prod.inject simp_thms)
  next
    case retained: False
    have eq: "(ops @ [cleanup_operation rt directory
          (cleanup_dependencies (rt_upper rt) removals cb (dr_rel_path directory))],
        dict_set (dr_key directory) (cleanup_operation rt directory
          (cleanup_dependencies (rt_upper rt) removals cb (dr_rel_path directory))) cb) = (ops', cb')"
      using assms False retained
      by (simp only: cleanup_step_def Let_def prod.case if_False simp_thms)
    show ?thesis
      by (rule clean) (use eq False retained in \<open>simp_all only: prod.inject simp_thms de_Morgan_disj\<close>)
  qed
qed

lemma set_cleanup_dependencies:
  "set (cleanup_dependencies up removals cb dir) =
     {po_op_id op | path op. (path, op) \<in> set removals \<and> (path = dir \<or> is_descendant up path dir)}
     \<union> {po_op_id op | key op. (key, op) \<in> set cb \<and> parent_of (po_target op) = Some dir}"
  unfolding cleanup_dependencies_def by (auto simp: image_iff) force+

lemma cleanup_loop_closed:
  assumes "cleanup_loop rt ctx desired removed removals = (ops, cb)"
    and "\<forall>kv \<in> set removals. po_op_id (snd kv) \<in> known"
  shows "deps_closed known ops"
proof -
  let ?P = "\<lambda>s. deps_closed known (fst s) \<and> snd ` set (snd s) \<subseteq> set (fst s)"
  have "?P (foldl (cleanup_step rt ctx desired removed removals) ([], []) dirs)" for dirs
  proof (rule foldl_inv [where P = ?P])
    fix s :: cleanup_state and directory
    assume P: "?P s"
    obtain ops cb ops' cb' where s: "s = (ops, cb)"
      and s': "cleanup_step rt ctx desired removed removals s directory = (ops', cb')"
      by (metis surj_pair)
    from s' [unfolded s] have "?P (ops', cb')"
    proof (cases rule: cleanup_step_cases)
      case clean
      let ?op = "cleanup_operation rt directory
        (cleanup_dependencies (rt_upper rt) removals cb (dr_rel_path directory))"
      have "set (po_dependencies ?op) \<subseteq> known \<union> set (map po_op_id ops)"
        using P s assms(2) unfolding cleanup_operation_def set_cleanup_dependencies
        by (force simp: set_cleanup_dependencies)
      moreover have "snd ` set (dict_set (dr_key directory) ?op cb) \<subseteq> insert ?op (snd ` set cb)"
        using set_dict_set [of "dr_key directory" ?op cb] by force
      ultimately show ?thesis using P s clean(1,2) by auto
    qed (use P s in auto)
    then show "?P (cleanup_step rt ctx desired removed removals s directory)"
      by (simp only: s')
  qed simp
  with assms(1) show ?thesis by (metis cleanup_loop_def fst_conv)
qed

lemma plan_operations_closed:
  assumes "plan_operations rt ctx = Inr ops"
  shows "deps_closed {} ops"
  using assms
proof (cases rule: plan_operations_parts)
  case (1 mkdirs created ds cleanups cb)
  let ?removals = "map (removal_operation rt (pc_options ctx)) (removable_files ctx (decisions_state ds))"
  note m = mkdir_loop_closed [OF 1(1)]
  have c: "set (po_dependencies (cd_operation d)) \<subseteq> po_op_id ` set mkdirs" if "d \<in> set ds" for d
    using decide_content_deps mapE_member(1) [OF 1(2) that] m by (metis image_mono subset_trans)
  have "deps_closed (po_op_id ` (set mkdirs \<union> cd_operation ` set ds \<union> set ?removals)) cleanups"
    by (rule cleanup_loop_closed [OF 1(3)]) (auto dest!: removal_by_path_values)
  then have "deps_closed (po_op_id ` set mkdirs \<union> po_op_id ` cd_operation ` set ds \<union> po_op_id ` set ?removals
       \<union> set (map po_op_id (map (unsupported_operation rt) (visible_unsupported rt ctx)))) cleanups"
    by (rule deps_closed_mono) auto
  moreover have "deps_closed (po_op_id ` set mkdirs) (map cd_operation ds)"
    by (rule deps_closed_all) (use c in auto)
  moreover have "deps_closed known ?removals"
     "deps_closed known (map (unsupported_operation rt) (visible_unsupported rt ctx))" for known
    by (rule deps_closed_all; simp add: removal_operation_def unsupported_operation_def blocked_operation_def)+
  ultimately show ?thesis
    using m unfolding 1(4) by (simp add: Un_ac image_Un image_image)
qed

section \<open>What one content decision is\<close>

lemma set_group_by_key: "set (group_by_key key_of path_of records key) = {r \<in> set records. key_of r = key}"
  by (auto simp: group_by_key_def)

lemma group_by_key_Nil: "group_by_key key_of path_of records key = [] \<longleftrightarrow> (\<forall>r \<in> set records. key_of r \<noteq> key)"
  by (metis (mono_tags, lifting) empty_Collect_eq set_empty set_group_by_key)

lemma filter_singleton: "filter P xs = [x] \<Longrightarrow> x \<in> set xs \<and> P x"
  by (metis (mono_tags, lifting) list.set_intros(1) mem_Collect_eq set_filter)

text \<open>
  The declarative contract of an operation that the content loop does not block.
\<close>

definition move_justified ::
    "planner_ctx \<Rightarrow> file_record \<Rightarrow> destination_assignment \<Rightarrow> mapping_pair \<Rightarrow> file_record \<Rightarrow> bool" where
  "move_justified ctx s item pair t \<longleftrightarrow>
     pair \<in> set (ms_pairs (pc_correspondence ctx)) \<and>
     fr_identity s = Some (mp_source_identity pair) \<and>
     identity_count (pc_source_files ctx) (mp_source_identity pair) = 1 \<and> fr_nlink s = 1 \<and>
     mp_target_key pair \<noteq> da_target_key item \<and>
     mp_target_key pair \<notin> assigned_target_keys ctx \<and>
     files_by_key (pc_target_files ctx) (mp_target_key pair) = [t] \<and> fr_nlink t = 1 \<and>
     (\<exists>i. fr_identity t = Some i \<and> identity_count (pc_target_files ctx) i = 1
        \<and> (mp_target_identity pair \<noteq> None \<longrightarrow> mp_target_identity pair = Some i))"

definition content_justified ::
    "planner_ctx \<Rightarrow> file_record \<Rightarrow> destination_assignment \<Rightarrow> plan_operation \<Rightarrow> bool" where
  "content_justified ctx s item op \<longleftrightarrow>
     po_source op = Some (fr_rel_path s) \<and> po_source_expected op = Some (fr_stat s) \<and>
     (case po_kind op of
        COPY \<Rightarrow> po_target op = da_target item \<and> po_target_expected op = None
          \<and> po_content_bytes op = fr_size s
          \<and> (\<forall>t \<in> set (pc_target_files ctx). fr_key t \<noteq> da_target_key item)
      | NOOP \<Rightarrow> (\<exists>t \<in> set (pc_target_files ctx). po_target op = fr_rel_path t
          \<and> po_target_expected op = Some (fr_stat t)
          \<and> metadata_equal (fr_stat s) (fr_stat t) (granularity ctx))
      | UPDATE \<Rightarrow> (\<exists>t \<in> set (pc_target_files ctx). po_target_expected op = Some (fr_stat t)
          \<and> po_content_bytes op = fr_size s
          \<and> \<not> metadata_equal (fr_stat s) (fr_stat t) (granularity ctx))
      | RECASE \<Rightarrow> (\<exists>t \<in> set (pc_target_files ctx). po_prior_target op = Some (fr_rel_path t)
          \<and> po_prior_expected op = Some (fr_stat t) \<and> fr_key t = da_target_key item
          \<and> fr_rel_path t \<noteq> da_target item \<and> so_propagate_source_casing (pc_options ctx)
          \<and> po_target op = win_join (butlast (win_parts (fr_rel_path t)) @ [win_name (da_target item)])
          \<and> metadata_equal (fr_stat s) (fr_stat t) (granularity ctx))
      | MOVE \<Rightarrow> (\<exists>pair t. move_justified ctx s item pair t \<and> po_target op = da_target item
          \<and> po_prior_target op = Some (mp_target pair) \<and> po_prior_expected op = Some (fr_stat t)
          \<and> metadata_equal (fr_stat s) (fr_stat t) (granularity ctx))
      | MOVE_UPDATE \<Rightarrow> (\<exists>pair t. move_justified ctx s item pair t \<and> po_target op = da_target item
          \<and> po_prior_target op = Some (mp_target pair) \<and> po_prior_expected op = Some (fr_stat t)
          \<and> po_content_bytes op = fr_size s
          \<and> \<not> metadata_equal (fr_stat s) (fr_stat t) (granularity ctx))
      | _ \<Rightarrow> False)"

lemma move_pair_justified:
  assumes "move_pair s (da_target_key item) (pc_correspondence ctx) (pc_source ctx) (pc_target ctx)
      (pc_source_files ctx) (pc_target_files ctx) (assigned_target_keys ctx) = Some (pair, t)"
  shows "move_justified ctx s item pair t"
  using assms
  by (auto simp: move_pair_def move_justified_def dest!: filter_singleton
        split: option.splits if_splits list.splits)

lemma map_filter_member: "y \<in> set (List.map_filter f xs) \<Longrightarrow> \<exists>x \<in> set xs. f x = Some y"
  by (auto simp: List.map_filter_def)

lemma normalization_pairs_Some:
  assumes "normalization_pairs rt a files k = Some t"
  shows "t \<in> set files"
proof -
  have "(k, t) \<in> set (List.map_filter f xs)" if "map_of (rev (List.map_filter f xs)) k = Some t" for f xs
    using map_of_SomeD [OF that] by simp
  then show ?thesis
    using assms
    by (fastforce simp: normalization_pairs_def Let_def dest!: map_filter_member filter_singleton
          split: list.splits if_splits)
qed

lemma decide_content_cases:
  assumes "decide_content rt ctx created item = Inr d"
  obtains
    (collision) "po_blocked (cd_operation d)" "po_target (cd_operation d) = da_target item"
      "cd_claims d = Some (da_target_key item)" "cd_moves_from d = None"
  | (inherited) "po_blocked (cd_operation d)" "po_target (cd_operation d) = da_target item"
      "cd_claims d = None" "cd_moves_from d = None"
  | (matched) s t nm deps where "files_by_key (pc_source_files ctx) (da_source_key item) = [s]"
      "cd_operation d = matched_operation rt ctx s item t nm deps"
      "cd_claims d = Some (fr_key t)" "cd_moves_from d = None" "t \<in> set (pc_target_files ctx)"
      "nm \<longrightarrow> files_by_key (pc_target_files ctx) (da_target_key item) = []"
      "\<not> nm \<longrightarrow> files_by_key (pc_target_files ctx) (da_target_key item) = [t]"
  | (move) s pair t deps where "files_by_key (pc_source_files ctx) (da_source_key item) = [s]"
      "cd_operation d = move_operation rt ctx s item pair t deps"
      "cd_claims d = Some (da_target_key item)" "cd_moves_from d = Some (mp_target_key pair)"
      "move_justified ctx s item pair t"
      "files_by_key (pc_target_files ctx) (da_target_key item) = []"
  | (copy) s deps where "files_by_key (pc_source_files ctx) (da_source_key item) = [s]"
      "cd_operation d = copy_operation rt s item deps"
      "cd_claims d = Some (da_target_key item)" "cd_moves_from d = None"
      "files_by_key (pc_target_files ctx) (da_target_key item) = []"
proof -
  obtain s more where s: "files_by_key (pc_source_files ctx) (da_source_key item) = s # more"
    using assms by (auto simp: decide_content_def split: list.splits)
  define direct where "direct = files_by_key (pc_target_files ctx) (da_target_key item)"
  define npair where "npair = normalization_pairs rt (pc_assignment ctx) (pc_target_files ctx)
                                (da_source_key item, da_source item)"
  define nm where "nm = (direct = [] \<and> npair \<noteq> None)"
  define tvs where "tvs = (if nm then option_list npair else direct)"
  define parent where "parent = nearest_created_parent (rt_upper rt) (da_target item) created"
  define stuck where "stuck \<longleftrightarrow> (\<exists>op. parent = Some op \<and> po_blocked op)"
  define deps where "deps = map po_op_id (option_list parent)"
  have tvs: "t \<in> set (pc_target_files ctx)" if "t \<in> set tvs" for t
    using that normalization_pairs_Some [of rt "pc_assignment ctx" "pc_target_files ctx"]
    unfolding tvs_def npair_def direct_def option_list_def
    by (auto simp: set_group_by_key split: if_splits option.splits)
  note defs = direct_def [symmetric] npair_def [symmetric] nm_def [symmetric] tvs_def [symmetric]
    parent_def [symmetric] stuck_def [symmetric] deps_def [symmetric]
  note unf = assms [unfolded decide_content_def s list.case Let_def defs]
  show ?thesis
  proof (cases "(more \<noteq> [] \<or> length tvs > 1) \<or> (assigned_group_size ctx (da_target_key item) > 1
                   \<or> da_conflict item \<noteq> None)")
    case True
    show ?thesis
      by (rule collision) (use unf True in \<open>auto simp: blocked_operation_def po_blocked_def\<close>)
  next
    case c: False
    show ?thesis
    proof (cases "dirs_by_key (pc_target_dirs ctx) (da_target_key item) \<noteq> []")
      case True
      show ?thesis
        by (rule collision) (use unf True c in \<open>auto simp: blocked_operation_def po_blocked_def\<close>)
    next
      case t: False
      show ?thesis
      proof (cases stuck)
        case True
        show ?thesis
          by (rule inherited) (use unf True c t in \<open>auto simp: blocked_operation_def po_blocked_def\<close>)
      next
        case b: False
        have m: "files_by_key (pc_source_files ctx) (da_source_key item) = [s]" using s c by simp
        show ?thesis
        proof (cases tvs)
          case (Cons tr rest)
          then have tr: "tvs = [tr]" using c by (cases rest) auto
          have d: "cd_operation d = matched_operation rt ctx s item tr nm deps"
            "cd_claims d = Some (fr_key tr)" "cd_moves_from d = None"
            using unf tr c t b by auto
          have nm: "nm \<longrightarrow> files_by_key (pc_target_files ctx) (da_target_key item) = []"
            "\<not> nm \<longrightarrow> files_by_key (pc_target_files ctx) (da_target_key item) = [tr]"
            using tr by (auto simp: nm_def tvs_def direct_def split: if_splits)
          from tr have "tr \<in> set (pc_target_files ctx)" using tvs by simp
          then show ?thesis by (rule matched [OF m d _ nm])
        next
          case Nil
          then have dn: "files_by_key (pc_target_files ctx) (da_target_key item) = []"
            by (auto simp: nm_def tvs_def direct_def option_list_def split: if_splits option.splits)
          let ?move = "move_pair s (da_target_key item) (pc_correspondence ctx) (pc_source ctx)
            (pc_target ctx) (pc_source_files ctx) (pc_target_files ctx) (assigned_target_keys ctx)"
          show ?thesis
          proof (cases ?move)
            case None
            show ?thesis
              by (rule copy [OF m _ _ _ dn]) (use unf Nil None c t b in auto)
          next
            case (Some pt)
            obtain pair tr where pt: "?move = Some (pair, tr)" using Some by (cases pt) auto
            show ?thesis
              by (rule move [OF m _ _ _ move_pair_justified [OF pt] dn]) (use unf Nil pt c t b in auto)
          qed
        qed
      qed
    qed
  qed
qed


lemma matched_operation_justified:
  assumes "t \<in> set (pc_target_files ctx)"
    and "\<not> nm \<longrightarrow> files_by_key (pc_target_files ctx) (da_target_key item) = [t]"
  shows "content_justified ctx s item (matched_operation rt ctx s item t nm deps)"
proof -
  have "fr_key t = da_target_key item" if "\<not> nm"
    using assms(2) that set_group_by_key [of fr_key fr_rel_path "pc_target_files ctx" "da_target_key item"]
    by auto
  then show ?thesis
    using assms(1) by (auto simp: content_justified_def matched_operation_def Let_def intro!: bexI [of _ t])
qed

lemma decide_content_justified:
  assumes "decide_content rt ctx created item = Inr d" and "\<not> po_blocked (cd_operation d)"
  shows "\<exists>s. files_by_key (pc_source_files ctx) (da_source_key item) = [s]
           \<and> content_justified ctx s item (cd_operation d)"
  using assms(1)
proof (cases rule: decide_content_cases)
  case (matched s t nm deps)
  then show ?thesis using matched_operation_justified by metis
next
  case (move s pair t deps)
  then show ?thesis by (auto simp: content_justified_def move_operation_def Let_def)
next
  case (copy s deps)
  then show ?thesis
    by (auto simp: content_justified_def copy_operation_def group_by_key_Nil)
qed (use assms(2) in auto)

section \<open>The groups of operations are told apart by kind and reason\<close>

lemma mkdir_loop_kind:
  assumes "mkdir_loop rt ctx = (ops, created)" and "op \<in> set ops"
  shows "po_kind op = MKDIR \<and> po_reason op \<in> {R_REQUIRED_DIRECTORY, R_TYPE_COLLISION, R_POLICY_COLLISION}"
proof -
  let ?K = "\<lambda>op. po_kind op = MKDIR \<and>
      po_reason op \<in> {R_REQUIRED_DIRECTORY, R_TYPE_COLLISION, R_POLICY_COLLISION}"
  have k: "?K (mkdir_operation rt ctx created path)" for created path
    by (auto simp: mkdir_operation_def blocked_operation_def Let_def split: option.splits)
  have "\<forall>op \<in> set (fst (foldl (mkdir_step rt ctx) ([], Map.empty) paths)). ?K op" for paths
    by (rule foldl_inv [where P = "\<lambda>s. \<forall>op \<in> set (fst s). ?K op"])
       (use k in \<open>auto simp: mkdir_step_def Let_def split: prod.splits if_splits\<close>)
  with assms show ?thesis by (metis fst_conv mkdir_loop_def)
qed

lemma decide_content_kind:
  assumes "decide_content rt ctx created item = Inr d"
  shows "po_kind (cd_operation d) \<in> {COPY, UPDATE, MOVE, MOVE_UPDATE, RECASE, NOOP} \<and>
     po_reason (cd_operation d) \<notin> {R_TARGET_ONLY, R_DIRECTORY_CLEANUP, R_UNSUPPORTED} \<and>
     po_source (cd_operation d) \<noteq> None"
  using assms
  by (auto simp: decide_content_def blocked_operation_def matched_operation_def move_operation_def
        copy_operation_def Let_def split: list.splits option.splits if_splits)

lemma cleanup_loop_member:
  assumes "cleanup_loop rt ctx desired removed removals = (ops, cb)" and "op \<in> set ops"
  obtains directory seen where "directory \<in> set (pc_target_dirs ctx)"
    "op = cleanup_operation rt directory
       (cleanup_dependencies (rt_upper rt) removals seen (dr_rel_path directory))"
    "so_deletion_policy (pc_options ctx) \<noteq> POLICY_ADDITIVE" "dr_key directory \<notin> desired"
    "\<not> excludes rt (so_filters (pc_options ctx)) (dr_rel_path directory)"
    "\<not> cleanup_retained rt ctx desired removed seen directory"
proof -
  let ?C = "\<lambda>op. \<exists>directory \<in> set (pc_target_dirs ctx). \<exists>seen.
      op = cleanup_operation rt directory
        (cleanup_dependencies (rt_upper rt) removals seen (dr_rel_path directory)) \<and>
      so_deletion_policy (pc_options ctx) \<noteq> POLICY_ADDITIVE \<and> dr_key directory \<notin> desired \<and>
      \<not> excludes rt (so_filters (pc_options ctx)) (dr_rel_path directory) \<and>
      \<not> cleanup_retained rt ctx desired removed seen directory"
  have "\<forall>op \<in> set (fst (foldl (cleanup_step rt ctx desired removed removals) ([], []) dirs)). ?C op"
    if "set dirs \<subseteq> set (pc_target_dirs ctx)" for dirs
  proof (rule foldl_inv [where P = "\<lambda>s. \<forall>op \<in> set (fst s). ?C op"])
    fix s :: cleanup_state and directory
    assume d: "directory \<in> set dirs" and P: "\<forall>op \<in> set (fst s). ?C op"
    obtain ops cb ops' cb' where s: "s = (ops, cb)"
      and s': "cleanup_step rt ctx desired removed removals s directory = (ops', cb')"
      by (metis surj_pair)
    from s' [unfolded s] have "\<forall>op \<in> set ops'. ?C op"
    proof (cases rule: cleanup_step_cases)
      case clean
      have "directory \<in> set (pc_target_dirs ctx)" using d that by blast
      then have "?C (cleanup_operation rt directory
          (cleanup_dependencies (rt_upper rt) removals cb (dr_rel_path directory)))"
        using clean(3-6) by blast
      with clean(1) P s show ?thesis by auto
    qed (use P s in auto)
    then show "\<forall>op \<in> set (fst (cleanup_step rt ctx desired removed removals s directory)). ?C op"
      by (simp only: s' fst_conv)
  qed simp
  from this [of "sort_key cleanup_order (pc_target_dirs ctx)"] have "?C op"
    using assms by (metis cleanup_loop_def fst_conv set_sort subset_refl)
  then show ?thesis using that by blast
qed

section \<open>Plans the planner returns\<close>

lemma plan_returned:
  assumes "plan rt source target correspondence options scope = Inr p"
  obtains assignment ops where
    "dp_assign (so_destination_policy options) (planner_files rt options source) target = Inr assignment"
    "plan_operations rt (planner_context rt source target correspondence options assignment) = Inr ops"
    "p = assemble_plan rt (planner_context rt source target correspondence options assignment) ops"
    "pl_operations p = ops" "pl_assignment p = assignment" "dependency_ordered ops"
    "\<forall>op \<in> set ops. plan_operation_post_init (rt_upper rt) op = Inr ()"
    "\<exists>items. validate_assignment (rt_upper rt) assignment (planner_files rt options source) = Inr items"
proof -
  obtain assignment ops where a:
    "dp_assign (so_destination_policy options) (planner_files rt options source) target = Inr assignment"
    "plan_operations rt (planner_context rt source target correspondence options assignment) = Inr ops"
    "p = assemble_plan rt (planner_context rt source target correspondence options assignment) ops"
    "eachE (plan_operation_post_init (rt_upper rt)) ops = Inr ()"
    "\<exists>items. validate_assignment (rt_upper rt) assignment (planner_files rt options source) = Inr items"
    "plan_post_init p = Inr ()"
    using assms by (auto simp: plan_def Let_def bindE_eq_Inr)
  moreover have "pl_operations p = ops" "pl_assignment p = assignment"
    using a(3) by (simp_all add: assemble_plan_def planner_context_def Let_def)
  moreover have "dependency_ordered ops"
    using a(6) calculation(7) by (simp add: plan_post_init_ok_iff)
  moreover have "\<forall>op \<in> set ops. plan_operation_post_init (rt_upper rt) op = Inr ()"
    using a(4) by (simp add: eachE_eq_Inr)
  ultimately show ?thesis using that by blast
qed

lemma planner_context_simps [simp]:
  "pc_source (planner_context rt s t c opts a) = s" "pc_target (planner_context rt s t c opts a) = t"
  "pc_correspondence (planner_context rt s t c opts a) = c"
  "pc_options (planner_context rt s t c opts a) = opts"
  "pc_assignment (planner_context rt s t c opts a) = a"
  "pc_source_files (planner_context rt s t c opts a) = planner_files rt opts s"
  "pc_target_files (planner_context rt s t c opts a) = planner_files rt opts t"
  "pc_target_dirs (planner_context rt s t c opts a) = planner_target_dirs t"
  by (simp_all add: planner_context_def)

lemma set_planner_files:
  "set (planner_files rt options scan) =
     {r \<in> set (sr_files scan). \<not> excludes rt (so_filters options) (fr_rel_path r)}"
  by (auto simp: planner_files_def)

lemma set_planner_target_dirs:
  "set (planner_target_dirs scan) = {r \<in> set (sr_directories scan). dr_rel_path r \<noteq> []}"
  by (auto simp: planner_target_dirs_def)

lemma set_removable_files:
  "set (removable_files ctx st) =
     (if so_deletion_policy (pc_options ctx) = POLICY_ADDITIVE then {}
      else {r \<in> set (pc_target_files ctx). fr_key r \<notin> cs_claimed st \<and> fr_key r \<notin> cs_moved_from st})"
  by (simp add: removable_files_def)

lemma decided_kind:
  assumes "mapE (decide_content rt ctx created) items = Inr ds" and "d \<in> set ds"
  shows "po_kind (cd_operation d) \<notin> {TRASH, DELETE, MKDIR} \<and>
     po_reason (cd_operation d) \<notin> {R_TARGET_ONLY, R_DIRECTORY_CLEANUP, R_UNSUPPORTED} \<and>
     po_source (cd_operation d) \<noteq> None"
  using mapE_member(1) [OF assms] decide_content_kind by fastforce

lemma cleanup_kind:
  assumes "cleanup_loop rt ctx desired removed removals = (ops, cb)" and "op \<in> set ops"
  shows "po_kind op = DELETE \<and> po_reason op = R_DIRECTORY_CLEANUP \<and> \<not> po_blocked op \<and>
     so_deletion_policy (pc_options ctx) \<noteq> POLICY_ADDITIVE"
  using assms by (rule cleanup_loop_member) (simp add: cleanup_operation_def po_blocked_def)

text \<open>The operations whose reason is \<open>R_TARGET_ONLY\<close> are the removals.\<close>

lemma target_only_removal:
  assumes "plan_operations rt ctx = Inr ops" and "op \<in> set ops" and "po_reason op = R_TARGET_ONLY"
  obtains created ds r where
    "mapE (decide_content rt ctx created) (content_items ctx) = Inr ds" "cd_operation ` set ds \<subseteq> set ops"
    "r \<in> set (removable_files ctx (decisions_state ds))" "op = removal_operation rt (pc_options ctx) r"
  using assms(1)
proof (cases rule: plan_operations_parts)
  case (1 mkdirs created ds cleanups cb)
  have "op \<notin> set mkdirs"
    using mkdir_loop_kind [OF 1(1), of op] assms(3) by auto
  moreover have "op \<notin> cd_operation ` set ds"
    using decided_kind [OF 1(2)] assms(3) by auto
  moreover have "op \<notin> set (map (unsupported_operation rt) (visible_unsupported rt ctx))"
    using assms(3) by (auto simp: unsupported_operation_def blocked_operation_def)
  moreover have "op \<notin> set cleanups"
    using cleanup_kind [OF 1(3), of op] assms(3) by auto
  ultimately obtain r where "r \<in> set (removable_files ctx (decisions_state ds))"
    "op = removal_operation rt (pc_options ctx) r"
    using assms(2) 1(4) by auto
  then show ?thesis using that [OF 1(2)] 1(4) by auto
qed

lemma destructive_kind:
  assumes "plan_operations rt ctx = Inr ops" and "op \<in> set ops" and "po_kind op \<in> {TRASH, DELETE}"
  shows "so_deletion_policy (pc_options ctx) \<noteq> POLICY_ADDITIVE \<and> \<not> po_blocked op \<and>
     (po_reason op = R_TARGET_ONLY \<and> po_kind op = removal_kind (pc_options ctx)
      \<or> po_reason op = R_DIRECTORY_CLEANUP \<and> po_kind op = DELETE)"
  using assms(1)
proof (cases rule: plan_operations_parts)
  case (1 mkdirs created ds cleanups cb)
  have "op \<notin> set mkdirs"
    using mkdir_loop_kind [OF 1(1), of op] assms(3) by auto
  moreover have "op \<notin> cd_operation ` set ds"
    using decided_kind [OF 1(2)] assms(3) by auto
  moreover have "op \<notin> set (map (unsupported_operation rt) (visible_unsupported rt ctx))"
    using assms(3) by (auto simp: unsupported_operation_def blocked_operation_def)
  moreover have "so_deletion_policy (pc_options ctx) \<noteq> POLICY_ADDITIVE \<and> \<not> po_blocked op
      \<and> po_reason op = R_DIRECTORY_CLEANUP \<and> po_kind op = DELETE" if "op \<in> set cleanups"
    using cleanup_kind [OF 1(3) that] by simp
  moreover have "so_deletion_policy (pc_options ctx) \<noteq> POLICY_ADDITIVE \<and> \<not> po_blocked op
      \<and> po_reason op = R_TARGET_ONLY \<and> po_kind op = removal_kind (pc_options ctx)"
    if "op \<in> removal_operation rt (pc_options ctx) ` set (removable_files ctx (decisions_state ds))"
    using that by (auto simp: removal_operation_def set_removable_files po_blocked_def split: if_splits)
  ultimately show ?thesis
    using assms(2) unfolding 1(4) by auto
qed

lemma claimed_unless_inherited:
  assumes ds: "mapE (decide_content rt ctx created) (content_items ctx) = Inr ds"
    and item: "item \<in> set (as_items (pc_assignment ctx))"
    and r: "r \<in> set (pc_target_files ctx)" "fr_key r = da_target_key item"
    and free: "fr_key r \<notin> cs_claimed (decisions_state ds)"
  shows "\<exists>d \<in> set ds. po_blocked (cd_operation d) \<and> po_target (cd_operation d) = da_target item"
proof -
  obtain d where d: "d \<in> set ds" "decide_content rt ctx created item = Inr d"
    using mapE_member(2) [OF ds, of item] item by auto
  have c: "k \<in> cs_claimed (decisions_state ds)" if "cd_claims d = Some k" for k
    using d(1) that by (force simp: decisions_state_def option_list_def)
  have ne: "files_by_key (pc_target_files ctx) (da_target_key item) \<noteq> []"
    using r by (auto simp: group_by_key_Nil)
  have one: "fr_key t = da_target_key item"
    if "files_by_key (pc_target_files ctx) (da_target_key item) = [t]" for t
    using that set_group_by_key [of fr_key fr_rel_path "pc_target_files ctx" "da_target_key item"] by auto
  from d(2) show ?thesis
  proof (cases rule: decide_content_cases)
    case (matched s t nm deps)
    with ne one have "fr_key t = da_target_key item" by blast
    with matched(3) c free r show ?thesis by auto
  qed (use c free r d ne in auto)
qed

section \<open>What a directory cleanup waits for\<close>

text \<open>The target path an operation takes a file away from.\<close>

definition displaced_path :: "plan_operation \<Rightarrow> pystr option" where
  "displaced_path op =
     (if po_kind op \<in> {TRASH, DELETE} then Some (po_target op)
      else if po_kind op \<in> {MOVE, MOVE_UPDATE}
        then Option.bind (po_prior_target op) (\<lambda>prior. if prior = [] then None else Some prior)
      else None)"

definition removes :: "upper \<Rightarrow> plan_operation \<Rightarrow> file_record \<Rightarrow> bool" where
  "removes up op r \<longleftrightarrow> (\<exists>path. displaced_path op = Some path \<and> path_key up path = fr_key r)"

lemma removal_by_path_eq:
  "removal_by_path ops =
     foldl (\<lambda>d op. case displaced_path op of None \<Rightarrow> d | Some path \<Rightarrow> dict_set path op d) [] ops"
  unfolding removal_by_path_def
  by (rule arg_cong [where f = "\<lambda>f. foldl f [] ops"])
     (auto simp: displaced_path_def fun_eq_iff split: option.splits)

lemma removal_by_path_entry:
  assumes "(path, op) \<in> set (removal_by_path ops)"
  shows "op \<in> set ops \<and> displaced_path op = Some path"
proof -
  let ?P = "\<lambda>d. \<forall>(path, op) \<in> set d. op \<in> set ops \<and> displaced_path op = Some path"
  have "?P (removal_by_path ops)"
    unfolding removal_by_path_eq
    by (rule foldl_inv [where P = ?P])
       (auto split: option.splits dest!: set_dict_set [THEN subsetD])
  with assms show ?thesis by blast
qed

lemma removal_by_path_complete:
  assumes "op \<in> set ops" and "displaced_path op = Some path"
  shows "\<exists>op'. (path, op') \<in> set (removal_by_path ops)"
proof -
  let ?f = "\<lambda>d op. case displaced_path op of None \<Rightarrow> d | Some path \<Rightarrow> dict_set path op d"
  have mono: "fst ` set d \<subseteq> fst ` set (foldl ?f d ops)" for d ops
  proof (induction ops arbitrary: d)
    case (Cons o1 os)
    have "fst ` set d \<subseteq> fst ` set (?f d o1)" by (auto simp: fst_dict_set split: option.split)
    also have "\<dots> \<subseteq> fst ` set (foldl ?f (?f d o1) os)" by (rule Cons)
    finally show ?case by simp
  qed simp
  have "path \<in> fst ` set (foldl ?f d ops)" for d
    using assms
  proof (induction ops arbitrary: d)
    case (Cons o1 os)
    show ?case
    proof (cases "o1 = op")
      case True
      then have "path \<in> fst ` set (?f d o1)" using Cons.prems by (simp add: fst_dict_set)
      then show ?thesis using mono [of "?f d o1" os] by auto
    qed (use Cons in auto)
  qed simp
  then show ?thesis by (fastforce simp: removal_by_path_eq)
qed

lemma descendant_not_same: "is_descendant up path dir \<Longrightarrow> path \<noteq> dir"
  by (auto simp: is_descendant_def starts_with_iff)

lemma descendant_key_cong:
  "path_key up a = path_key up b \<Longrightarrow> is_descendant up a dir = is_descendant up b dir"
  by (simp add: is_descendant_def)


lemma removed_key_displaced:
  assumes ds: "mapE (decide_content rt ctx created) (content_items ctx) = Inr ds"
    and pairs: "\<forall>pair \<in> set (ms_pairs (pc_correspondence ctx)).
        mp_target pair \<noteq> [] \<and> mp_target_key pair = path_key (rt_upper rt) (mp_target pair)"
    and r: "r \<in> set (pc_target_files ctx)" "fr_key r = path_key (rt_upper rt) (fr_rel_path r)"
      "fr_key r \<in> removed_file_keys ctx (decisions_state ds)"
  shows "\<exists>op \<in> set (map cd_operation ds
              @ map (removal_operation rt (pc_options ctx)) (removable_files ctx (decisions_state ds))).
           removes (rt_upper rt) op r"
proof (cases "fr_key r \<in> cs_moved_from (decisions_state ds)")
  case True
  then obtain d where d: "d \<in> set ds" "cd_moves_from d = Some (fr_key r)"
    by (auto simp: decisions_state_def option_list_def split: option.splits)
  from mapE_member(1) [OF ds d(1)] obtain item where "decide_content rt ctx created item = Inr d" by blast
  then show ?thesis
  proof (cases rule: decide_content_cases)
    case (move s pair t deps)
    have "pair \<in> set (ms_pairs (pc_correspondence ctx))"
      using move(5) by (simp add: move_justified_def)
    moreover have "displaced_path (cd_operation d) = Some (mp_target pair)"
      using calculation pairs by (simp add: move(2) move_operation_def displaced_path_def Let_def)
    ultimately have "removes (rt_upper rt) (cd_operation d) r"
      using d move(4) pairs by (simp add: removes_def)
    with d show ?thesis by auto
  qed (use d in auto)
next
  case False
  then have "r \<in> set (removable_files ctx (decisions_state ds))"
    using r(1,3) by (auto simp: removed_file_keys_def set_removable_files split: if_splits)
  moreover have "removes (rt_upper rt) (removal_operation rt (pc_options ctx) r) r"
    using r(2) by (simp add: removes_def displaced_path_def removal_operation_def removal_kind_def)
  ultimately show ?thesis by auto
qed

lemma cleanup_waits:
  assumes parts: "mapE (decide_content rt ctx created) (content_items ctx) = Inr ds"
      "cleanup_loop rt ctx desired (removed_file_keys ctx (decisions_state ds))
         (removal_by_path (map cd_operation ds
          @ map (removal_operation rt (pc_options ctx)) (removable_files ctx (decisions_state ds)))) = (cleanups, cb)"
      "op \<in> set cleanups"
    and files: "set (pc_target_files ctx) =
        {r \<in> set (sr_files (pc_target ctx)). \<not> excludes rt (so_filters (pc_options ctx)) (fr_rel_path r)}"
    and keys: "\<forall>r \<in> set (sr_files (pc_target ctx)). fr_rel_path r \<noteq> [] \<and> fr_key r = path_key (rt_upper rt) (fr_rel_path r)"
    and pairs: "\<forall>pair \<in> set (ms_pairs (pc_correspondence ctx)).
        mp_target pair \<noteq> [] \<and> mp_target_key pair = path_key (rt_upper rt) (mp_target pair)"
    and r: "r \<in> set (sr_files (pc_target ctx))" "is_descendant (rt_upper rt) (fr_rel_path r) (po_target op)"
  shows "\<exists>op' \<in> set (map cd_operation ds
            @ map (removal_operation rt (pc_options ctx)) (removable_files ctx (decisions_state ds))).
           po_op_id op' \<in> set (po_dependencies op) \<and> removes (rt_upper rt) op' r"
proof -
  let ?ops = "map cd_operation ds
      @ map (removal_operation rt (pc_options ctx)) (removable_files ctx (decisions_state ds))"
  obtain dir seen where op: "op = cleanup_operation rt dir
        (cleanup_dependencies (rt_upper rt) (removal_by_path ?ops) seen (dr_rel_path dir))"
    and keep: "\<not> cleanup_retained rt ctx desired (removed_file_keys ctx (decisions_state ds)) seen dir"
    using cleanup_loop_member [OF parts(2,3)] by metis
  have t: "po_target op = dr_rel_path dir" by (simp add: op cleanup_operation_def)
  have "\<not> excludes rt (so_filters (pc_options ctx)) (fr_rel_path r)"
    using keep r keys descendant_not_same [of "rt_upper rt" "fr_rel_path r" "dr_rel_path dir"]
    unfolding cleanup_retained_def Let_def t by auto
  moreover have "fr_key r \<in> removed_file_keys ctx (decisions_state ds)"
    using keep r unfolding cleanup_retained_def Let_def t by blast
  ultimately obtain o1 where o1: "o1 \<in> set ?ops" "removes (rt_upper rt) o1 r"
    using removed_key_displaced [OF parts(1) pairs, of r] r keys files by auto
  then obtain path where path: "displaced_path o1 = Some path" "path_key (rt_upper rt) path = fr_key r"
    by (auto simp: removes_def)
  obtain o2 where o2: "(path, o2) \<in> set (removal_by_path ?ops)"
    using removal_by_path_complete [OF o1(1) path(1)] by blast
  have "is_descendant (rt_upper rt) path (dr_rel_path dir)"
    using r(2) keys r(1) path(2) descendant_key_cong [of "rt_upper rt" path "fr_rel_path r"] t by metis
  then have "po_op_id o2 \<in> set (po_dependencies op)"
    using o2 unfolding op cleanup_operation_def by (auto simp: set_cleanup_dependencies)
  moreover have "o2 \<in> set ?ops" "removes (rt_upper rt) o2 r"
    using removal_by_path_entry [OF o2] path(2) by (auto simp: removes_def)
  ultimately show ?thesis by blast
qed

section \<open>Quarantine of removals\<close>

lemma quarantined_same_target:
  assumes "op \<in> set ops" and "\<not> po_blocked op" and "b \<in> set ops" and "po_blocked b"
    and "path_key up (po_target op) = path_key up (po_target b)"
  shows "po_op_id op \<in> quarantined_operation_ids up ops"
proof -
  have "path_key up (po_target b) \<in> set (blocked_target_paths up ops)"
    using assms(3,4) by (auto simp: blocked_target_paths_def)
  then have "inside_any_region (path_key up (po_target op)) (blocked_target_paths up ops)"
    using assms(5) by (auto simp: inside_any_region_def same_or_descendant_def)
  then have "quarantine_operation up (blocked_source_paths up ops) (blocked_target_paths up ops) op"
    using assms(2) by (simp add: quarantine_operation_def)
  with assms(1) show ?thesis by (auto simp: quarantined_operation_ids_def)
qed

end
