(* ===== verification/Planner_Samples.thy ===== *)
theory Planner_Samples
  imports Planner_Lemmas
begin

text \<open>
  The planner evaluated on two small scans: the source holds one file, the target another one in a
  directory of its own, and the plan copies, trashes and cleans up.
\<close>

lemma sample_runtime_simps [simp]:
  "rt_upper sample_runtime = ascii_upper" "rt_sha256 sample_runtime = sample_hash"
  "rt_nfc sample_runtime = (\<lambda>s. s)"
  by (simp_all add: sample_runtime_def)

definition sample_assignment :: assignment where
  "sample_assignment = \<lparr>as_policy_name = lit ''identity'', as_policy_version = lit ''1'',
     as_items = [\<lparr>da_source = lit ''a'', da_source_key = lit ''A'', da_target = lit ''a'',
       da_target_key = lit ''A'', da_group_id = None, da_conflict = None\<rparr>]\<rparr>"

definition sample_context :: "deletion_policy \<Rightarrow> planner_ctx" where
  "sample_context policy = planner_context sample_runtime sample_source sample_target
     (mapping_snapshot_empty (Some sample_volume) (Some sample_volume)) (sample_options policy) sample_assignment"

lemma sample_files:
  "planner_files sample_runtime (sample_options policy) sample_source = [sample_file (lit ''a'') 7]"
  "planner_files sample_runtime (sample_options policy) sample_target = [sample_file (lit ''d'' @ [92] @ lit ''b'') 9]"
  by (simp_all add: planner_files_def sample_source_def sample_target_def sample_scan_def sample_options_def excludes_def)

lemma sample_assign:
  "identity_assign ascii_upper [sample_file (lit ''a'') 7] t = Inr sample_assignment"
  by (simp add: identity_assign_def destination_assignment_post_init_def sample_assignment_def sample_file_def
     eval_path path_key_def)

lemma sample_context_sel:
  "sample_context policy = \<lparr>pc_source = sample_source, pc_target = sample_target,
     pc_correspondence = mapping_snapshot_empty (Some sample_volume) (Some sample_volume),
     pc_options = sample_options policy, pc_source_files = [sample_file (lit ''a'') 7],
     pc_target_files = [sample_file (lit ''d'' @ [92] @ lit ''b'') 9], pc_source_dirs = [],
     pc_target_dirs = [sample_dir (lit ''d'')], pc_assignment = sample_assignment\<rparr>"
  by (simp add: sample_context_def planner_context_def sample_files)
     (simp add: planner_source_dirs_def planner_target_dirs_def sample_source_def sample_target_def sample_scan_def
        sample_dir_def lit_def)

lemma win_parent_single: "win_parts [c] = [[c]] \<Longrightarrow> win_ancestors [c] = []"
  by (simp add: win_ancestors.simps win_parent_def win_join_def)

lemma sample_mkdirs: "mkdir_loop sample_runtime (sample_context policy) = ([], Map.empty)"
  by (simp add: mkdir_loop_def required_directory_paths_def sample_context_sel sample_assignment_def
      lit_def win_parent_single win_parts_def canonical_separators_def)

abbreviation sample_copy_op where
  "sample_copy_op \<equiv> copy_operation sample_runtime (sample_file (lit ''a'') 7) (hd (as_items sample_assignment)) []"

lemma sample_decide:
  "decide_content sample_runtime (sample_context policy) Map.empty (hd (as_items sample_assignment)) =
     Inr \<lparr>cd_operation = sample_copy_op, cd_claims = Some (lit ''A''), cd_moves_from = None\<rparr>"
  by (simp add: decide_content_def sample_context_sel group_by_key_def nearest_created_parent_def option_list_def
      sample_assignment_def assigned_group_size_def)
     (simp add: sample_file_def sample_dir_def path_key_def eval_path normalization_pairs_def group_by_key_def 
       nearest_created_parent_def win_parent_single win_parts_def move_pair_def List.map_filter_simps normalization_signature_def
       win_parent_def win_name_def)


lemmas eval_op_id = deterministic_operation_id_def intent_json_def jobj_def jopt_def canonical_json_bytes_def
  utf8_encode_def utf8_char_def json_quote_def json_escape_def hexdigest_def hex_digit_def sample_hash_def

definition sample_removal :: plan_operation where
  "sample_removal = removal_operation sample_runtime (sample_options POLICY_TRASH) (sample_file (lit ''d'' @ [92] @ lit ''b'') 9)"

definition sample_cleanup :: plan_operation where
  "sample_cleanup = cleanup_operation sample_runtime (sample_dir (lit ''d'')) [po_op_id sample_removal]"

lemma sample_ids:
  "po_op_id sample_copy_op \<noteq> po_op_id sample_removal"
  "po_op_id sample_copy_op \<noteq> po_op_id sample_cleanup"
  "po_op_id sample_removal \<noteq> po_op_id sample_cleanup"
  by (simp_all add: sample_removal_def sample_cleanup_def removal_operation_def cleanup_operation_def
     copy_operation_def sample_file_def sample_dir_def sample_options_def removal_kind_def sample_assignment_def
     eval_op_id lit_def)

lemma sample_content:
  "mapE (decide_content sample_runtime (sample_context policy) Map.empty) (content_items (sample_context policy)) =
    Inr [\<lparr>cd_operation = sample_copy_op, cd_claims = Some (lit ''A''), cd_moves_from = None\<rparr>]"
proof -
  have "content_items (sample_context policy) = [hd (as_items sample_assignment)]"
    by (simp add: content_items_def sample_context_sel) (simp add: sample_assignment_def)
  then show ?thesis by (simp only: mapE.simps sample_decide bindE_simps)
qed

lemma sample_removable:
  "removable_files (sample_context POLICY_TRASH)
     (decisions_state [\<lparr>cd_operation = sample_copy_op, cd_claims = Some (lit ''A''), cd_moves_from = None\<rparr>])
   = [sample_file (lit ''d'' @ [92] @ lit ''b'') 9]"
  by (simp add: removable_files_def decisions_state_def sample_context_sel sample_options_def option_list_def
     sample_file_def path_key_def eval_path)

lemma sample_cleanups:
  "fst (cleanup_loop sample_runtime (sample_context POLICY_TRASH) {} {lit ''D'' @ [92] @ lit ''B''}
     [(lit ''d'' @ [92] @ lit ''b'', sample_removal)]) = [sample_cleanup]"
  by (simp add: cleanup_loop_def cleanup_step_def sample_context_sel sample_options_def excludes_def
    cleanup_retained_def sample_target_def sample_scan_def  cleanup_dependencies_def sample_cleanup_def)
    (simp add: sample_file_def sample_dir_def is_descendant_def path_key_def eval_path parent_of_def win_parent_def
       win_parts_def win_join_def Let_def)


lemma sample_plan_operations:
  "plan_operations sample_runtime (sample_context POLICY_TRASH) = Inr [sample_copy_op, sample_removal, sample_cleanup]"
proof -
  let ?ctx = "sample_context POLICY_TRASH"
  let ?ds = "[\<lparr>cd_operation = sample_copy_op, cd_claims = Some (lit ''A''), cd_moves_from = None\<rparr>]"
  have d: "required_directory_paths ascii_upper ?ctx = []"
    by (simp add: required_directory_paths_def sample_context_sel sample_assignment_def
        lit_def win_parent_single win_parts_def canonical_separators_def)
  have u: "visible_unsupported sample_runtime ?ctx = []"
    by (simp add: visible_unsupported_def sample_context_sel sample_source_def sample_target_def sample_scan_def)
  have rk: "removed_file_keys ?ctx (decisions_state ?ds) = {lit ''D'' @ [92] @ lit ''B''}"
    unfolding removed_file_keys_def sample_removable
    by (simp add: decisions_state_def option_list_def sample_file_def path_key_def eval_path)
  have rb: "removal_by_path [sample_copy_op, sample_removal] = [(lit ''d'' @ [92] @ lit ''b'', sample_removal)]"
    by (simp add: removal_by_path_def copy_operation_def sample_removal_def removal_operation_def
        removal_kind_def sample_options_def sample_file_def)
  have o: "map (removal_operation sample_runtime (sample_options POLICY_TRASH))
      [sample_file (lit ''d'' @ [92] @ lit ''b'') 9] = [sample_removal]"
    by (simp add: sample_removal_def)
  have p: "pc_options ?ctx = sample_options POLICY_TRASH" by (simp add: sample_context_sel)
  have c: "cs_operations (decisions_state ?ds) = [sample_copy_op]" by (simp add: decisions_state_def)
  have cl: "content_loop sample_runtime ?ctx Map.empty = Inr (decisions_state ?ds)"
    by (simp only: content_loop_eq sample_content bindE_simps)
  obtain cb where cu: "cleanup_loop sample_runtime ?ctx {} {lit ''D'' @ [92] @ lit ''B''}
     [(lit ''d'' @ [92] @ lit ''b'', sample_removal)] = ([sample_cleanup], cb)"
    using sample_cleanups by (metis prod.collapse)
  show ?thesis
    unfolding plan_operations_def sample_mkdirs prod.case cl bindE_simps p sample_removable o u
      sample_runtime_simps d c rk Let_def
    using cu by (simp only: list.map append.simps sample_removal_def [symmetric] rb list.set prod.case)
qed

definition sample_result :: plan where
  "sample_result = assemble_plan sample_runtime (sample_context POLICY_TRASH)
     [sample_copy_op, sample_removal, sample_cleanup]"

lemma sample_result_operations:
  "pl_operations sample_result = [sample_copy_op, sample_removal, sample_cleanup]"
  by (simp add: sample_result_def assemble_plan_def Let_def)

lemma deterministic_operation_id_fixed:
  assumes "\<And>b. length (rt_sha256 rt b) = 32"
  shows "is_fixed_id (deterministic_operation_id rt kind src tgt prior reason)"
  using assms hexdigest_digits
  by (auto simp: is_fixed_id_def deterministic_operation_id_def is_hex_digit_def dest!: in_set_takeD)

lemma sample_id_fixed: "is_fixed_id (deterministic_operation_id sample_runtime kind src tgt prior reason)"
  by (rule deterministic_operation_id_fixed) (simp add: sample_hash_def)

lemma sample_post_init:
  "plan_operation_post_init ascii_upper sample_copy_op = Inr ()"
  "plan_operation_post_init ascii_upper sample_removal = Inr ()"
  "plan_operation_post_init ascii_upper sample_cleanup = Inr ()"
  by (simp_all add: plan_operation_post_init_def copy_operation_def sample_removal_def removal_operation_def
      sample_cleanup_def cleanup_operation_def sample_id_fixed sample_file_def sample_dir_def validate_optional_def
      sample_assignment_def eval_path)

lemma sample_planned:
  "plan sample_runtime sample_source sample_target
     (mapping_snapshot_empty (Some sample_volume) (Some sample_volume)) (sample_options POLICY_TRASH) S_EVERYTHING
   = Inr sample_result"
proof -
  have a: "dp_assign (so_destination_policy (sample_options POLICY_TRASH)) [sample_file (lit ''a'') 7] sample_target
      = Inr sample_assignment"
    by (simp add: sample_options_def identity_destination_policy_def sample_assign)
  have v: "validate_assignment ascii_upper sample_assignment [sample_file (lit ''a'') 7] = Inr {(lit ''A'', lit ''a'')}"
    by (simp add: validate_assignment_def assignment_step_def sample_assignment_def sample_file_def path_key_def eval_path Let_def)
  have p: "plan_post_init sample_result = Inr ()"
    using sample_ids
    by (simp add: plan_post_init_def sample_result_operations)
       (simp add: sample_result_def assemble_plan_def sample_context_sel sample_options_def
          calculate_required_bytes_def operation_required_bytes_def Let_def copy_operation_def
          sample_removal_def removal_operation_def sample_cleanup_def cleanup_operation_def po_blocked_def
          sample_file_def removal_kind_def)
  show ?thesis
    unfolding plan_def sample_files a v sample_runtime_simps bindE_simps sample_context_def [symmetric]
      sample_plan_operations Let_def sample_result_def [symmetric] eachE.simps sample_post_init p
    by simp
qed

end
