(* ===== verification/Planner_Properties.thy ===== *)
theory Planner_Properties
  imports Planner_Samples
begin

text \<open>
  The properties of the planner, alone and together with the safe-subset selection.
\<close>

lemma sample_in_plan:
  "sample_removal \<in> set (pl_operations sample_result)" "sample_cleanup \<in> set (pl_operations sample_result)"
  "sample_copy_op \<in> set (pl_operations sample_result)"
  by (simp_all add: sample_result_operations)

lemma sample_operation_fields:
  "po_kind sample_removal = TRASH" "po_reason sample_removal = R_TARGET_ONLY"
  "po_target sample_removal = lit ''d'' @ [92] @ lit ''b''"
  "po_kind sample_cleanup = DELETE" "po_reason sample_cleanup = R_DIRECTORY_CLEANUP"
  "po_target sample_cleanup = lit ''d''" "po_dependencies sample_cleanup = [po_op_id sample_removal]"
  "po_kind sample_copy_op = COPY" "po_source sample_copy_op = Some (lit ''a'')" "\<not> po_blocked sample_copy_op"
  "po_dependencies sample_copy_op = []" "po_dependencies sample_removal = []"
  by (simp_all add: sample_removal_def removal_operation_def removal_kind_def sample_options_def
      sample_cleanup_def cleanup_operation_def copy_operation_def sample_file_def sample_dir_def po_blocked_def)

text \<open>C8: The operations the planner collects are always in dependency order: whatever the scans, the
  correspondence and the policy, each dependency names an earlier operation of the list, so the
  plan constructor never rejects a plan for its order.\<close>

theorem planner_operations_dependency_ordered:
  assumes "plan_operations rt ctx = Inr ops" and "i < length ops" and "d \<in> set (po_dependencies (ops ! i))"
  shows "\<exists>j < i. po_op_id (ops ! j) = d"
  using deps_closed_nth [OF plan_operations_closed [OF assms(1)] assms(2,3)] by simp

theorem planner_operations_dependency_ordered_witness:
  "\<exists>j < 2. po_op_id ([sample_copy_op, sample_removal, sample_cleanup] ! j) = po_op_id sample_removal"
  by (rule planner_operations_dependency_ordered [OF sample_plan_operations])
     (simp_all add: sample_operation_fields)

text \<open>C7: The deletion policy is respected: a plan made under the additive policy trashes and deletes
  nothing, and a plan made under the trash policy deletes directories emptied by cleanup only; no
  destructive operation is blocked work.\<close>

theorem planner_respects_deletion_policy:
  assumes "plan rt source target correspondence options scope = Inr p" and "op \<in> set (pl_operations p)"
    and "po_kind op \<in> {TRASH, DELETE}"
  shows "so_deletion_policy options \<noteq> POLICY_ADDITIVE \<and> \<not> po_blocked op \<and>
    (so_deletion_policy options = POLICY_TRASH \<and> po_kind op = DELETE \<longrightarrow> po_reason op = R_DIRECTORY_CLEANUP)"
  using assms(1)
proof (rule plan_returned)
  fix assignment ops
  assume "plan_operations rt (planner_context rt source target correspondence options assignment) = Inr ops"
    and "pl_operations p = ops"
  then show ?thesis
    using destructive_kind [of rt _ ops op] assms(2,3) by (fastforce simp: removal_kind_def)
qed

theorem planner_respects_deletion_policy_witness:
  "\<not> po_blocked sample_cleanup \<and> po_reason sample_cleanup = R_DIRECTORY_CLEANUP"
  using planner_respects_deletion_policy [OF sample_planned sample_in_plan(2)]
  by (simp add: sample_operation_fields sample_options_def)

lemma content_operation_decided:
  assumes "plan_operations rt ctx = Inr ops" and "op \<in> set ops" and "po_source op \<noteq> None"
    and "po_kind op \<noteq> MKDIR" and "\<not> po_blocked op"
  obtains d created item where "decide_content rt ctx created item = Inr d"
    "item \<in> set (as_items (pc_assignment ctx))" "op = cd_operation d"
  using assms(1)
proof (cases rule: plan_operations_parts)
  case (1 mkdirs created ds cleanups cb)
  have "op \<notin> set mkdirs" using mkdir_loop_kind [OF 1(1), of op] assms(4) by auto
  moreover have "op \<notin> set (map (unsupported_operation rt) (visible_unsupported rt ctx))"
    using assms(5) by (auto simp: unsupported_operation_def blocked_operation_def po_blocked_def)
  moreover have "op \<notin> removal_operation rt (pc_options ctx) ` A" for A
    using assms(3) by (auto simp: removal_operation_def)
  moreover have "op \<notin> set cleanups"
    using cleanup_loop_member [OF 1(3), of op] assms(3) by (metis cleanup_operation_def plan_operation.select_convs(3))
  ultimately obtain d where "d \<in> set ds" "op = cd_operation d"
    using assms(2) unfolding 1(4) by auto
  then show ?thesis
    using mapE_member(1) [OF 1(2), of d] that by auto
qed

lemma decide_content_source:
  assumes "decide_content rt ctx created item = Inr d"
    and "files_by_key (pc_source_files ctx) (da_source_key item) = s # others"
  shows "po_source (cd_operation d) = Some (fr_rel_path s) \<and>
     po_source_expected (cd_operation d) = Some (fr_stat s) \<and> po_kind (cd_operation d) \<noteq> MKDIR"
  using assms
  by (auto simp: decide_content_def blocked_operation_def matched_operation_def move_operation_def
        copy_operation_def Let_def split: list.splits option.splits if_splits)

lemma validate_assignment_covers:
  assumes "validate_assignment up assignment files = Inr items" and "r \<in> set files"
  shows "\<exists>item \<in> set (as_items assignment). da_source_key item = fr_key r"
proof -
  let ?id = "\<lambda>item. (da_source_key item, da_source item)"
  let ?known = "set (map (\<lambda>r. (fr_key r, fr_rel_path r)) files)"
  have "foldE (assignment_step up ?known) {} (as_items assignment) = Inr items"
    using assms(1) by (auto simp: validate_assignment_def Let_def bindE_eq_Inr)
  then have "items \<subseteq> {} \<union> ?id ` set (as_items assignment)"
    by (rule foldE_collect [rotated]) (auto simp: assignment_step_def bindE_eq_Inr Let_def)
  moreover have "items = set (map (\<lambda>r. (fr_key r, fr_rel_path r)) files)"
    using assms(1) by (auto simp: validate_assignment_def Let_def bindE_eq_Inr)
  ultimately have "(fr_key r, fr_rel_path r) \<in> ?id ` set (as_items assignment)" using assms(2) by auto
  then show ?thesis by auto
qed

text \<open>C4: A removal that the safe subset selects never touches a target to which a source file is
  assigned: it removes a scanned, unfiltered target file with the stat the scan saw, and no item of
  the destination assignment maps to that file's key. (An item whose directory is blocked claims
  nothing, but its blocked operation then quarantines the removal.)\<close>

theorem selected_removal_spares_assigned_targets:
  assumes planned: "plan rt source target correspondence options scope = Inr p"
    and keys: "\<forall>r \<in> set (sr_files target). fr_key r = path_key (rt_upper rt) (fr_rel_path r)"
      "\<forall>item \<in> set (as_items (pl_assignment p)). da_target_key item = path_key (rt_upper rt) (da_target item)"
    and op: "op \<in> set (pl_operations p)" "po_reason op = R_TARGET_ONLY"
      "po_op_id op \<in> es_selection (derive_execution_selection (rt_upper rt) p)"
  shows "\<exists>r \<in> set (sr_files target). po_target op = fr_rel_path r \<and> po_target_expected op = Some (fr_stat r) \<and>
     \<not> excludes rt (so_filters options) (fr_rel_path r) \<and>
     (\<forall>item \<in> set (as_items (pl_assignment p)). da_target_key item \<noteq> fr_key r)"
  using planned
proof (rule plan_returned)
  fix assignment ops
  let ?ctx = "planner_context rt source target correspondence options assignment"
  assume po: "plan_operations rt ?ctx = Inr ops" and ops: "pl_operations p = ops"
    and a: "pl_assignment p = assignment" and ord: "dependency_ordered ops"
  have oo: "op \<in> set ops" using op(1) ops by simp
  obtain created ds r where ds: "mapE (decide_content rt ?ctx created) (content_items ?ctx) = Inr ds"
    and sub: "cd_operation ` set ds \<subseteq> set ops" and r: "r \<in> set (removable_files ?ctx (decisions_state ds))"
    and opr: "op = removal_operation rt options r"
    using target_only_removal [OF po oo op(2), unfolded planner_context_simps(4)] by blast
  have rt: "r \<in> set (pc_target_files ?ctx)" and free: "fr_key r \<notin> cs_claimed (decisions_state ds)"
    using r by (auto simp: set_removable_files split: if_splits)
  have rs: "r \<in> set (sr_files target)" "\<not> excludes rt (so_filters options) (fr_rel_path r)"
    using rt by (auto simp: set_planner_files)
  have "da_target_key item \<noteq> fr_key r" if "item \<in> set (as_items assignment)" for item
  proof
    assume key: "da_target_key item = fr_key r"
    have "\<exists>d \<in> set ds. po_blocked (cd_operation d) \<and> po_target (cd_operation d) = da_target item"
      using claimed_unless_inherited [OF ds _ rt key [symmetric] free] that by simp
    then obtain b where b: "b \<in> set ops" "po_blocked b" "po_target b = da_target item"
      using sub by blast
    have "path_key (rt_upper rt) (po_target op) = path_key (rt_upper rt) (po_target b)"
      using key keys rs(1) that a b(3) opr by (simp add: removal_operation_def)
    moreover have "\<not> po_blocked op"
      by (simp add: opr removal_operation_def po_blocked_def)
    ultimately have "po_op_id op \<in> quarantined_operation_ids (rt_upper rt) ops"
      using b op(1) ops by (auto simp: quarantined_same_target)
    then have "unsafe_operation (rt_upper rt) p op"
      using ops by (simp add: unsafe_operation_def)
    then show False
      using op(1,3) must_exclude.unsafe [of op p "rt_upper rt"] ord ops op_id_inj [OF ord]
      by (auto simp: selection_eq)
  qed
  then show ?thesis
    using rs a opr by (auto simp: removal_operation_def)
qed


lemma sample_assignment_keys:
  "pl_assignment sample_result = sample_assignment"
  "\<forall>item \<in> set (as_items sample_assignment). da_target_key item = path_key ascii_upper (da_target item)"
  "\<forall>r \<in> set (sr_files sample_target). fr_rel_path r \<noteq> [] \<and> fr_key r = path_key ascii_upper (fr_rel_path r)"
proof -
  show "pl_assignment sample_result = sample_assignment"
    by (simp add: sample_result_def assemble_plan_def sample_context_sel Let_def)
  show "\<forall>item \<in> set (as_items sample_assignment). da_target_key item = path_key ascii_upper (da_target item)"
    by (simp add: sample_assignment_def path_key_def eval_path)
  show "\<forall>r \<in> set (sr_files sample_target). fr_rel_path r \<noteq> [] \<and> fr_key r = path_key ascii_upper (fr_rel_path r)"
    by (simp add: sample_target_def sample_scan_def sample_file_def lit_def)
qed

lemma sample_result_selected: "po_op_id op \<in> es_selection (derive_execution_selection ascii_upper sample_result)"
  if "op \<in> set (pl_operations sample_result)"
proof -
  have nb: "\<not> po_blocked op" if "op \<in> set (pl_operations sample_result)" for op
    using that by (auto simp: sample_result_operations po_blocked_def sample_removal_def removal_operation_def
        sample_cleanup_def cleanup_operation_def copy_operation_def)
  then have nb': "filter po_blocked (pl_operations sample_result) = []"
    by (auto simp: filter_empty_conv)
  have "quarantined_operation_ids ascii_upper (pl_operations sample_result) = {}"
    unfolding quarantined_operation_ids_def blocked_source_paths_def blocked_target_paths_def nb'
    by (auto simp: quarantine_operation_def inside_any_region_def split: if_splits)
  moreover have "pl_source_complete sample_result" "pl_target_complete sample_result"
    by (simp_all add: sample_result_def assemble_plan_def sample_context_sel Let_def sample_source_def
        sample_target_def sample_scan_def is_full_scan_def scan_scope_full_def)
  ultimately have safe: "\<not> unsafe_operation ascii_upper sample_result op" if "op \<in> set (pl_operations sample_result)" for op
    using nb [OF that] by (simp add: unsafe_operation_def)
  have "must_exclude ascii_upper sample_result d \<Longrightarrow> False" for d
    by (induction rule: must_exclude.induct) (use safe in auto)
  then show ?thesis using that by (auto simp: selection_eq)
qed

theorem selected_removal_spares_assigned_targets_witness:
  "\<exists>r \<in> set (sr_files sample_target). po_target sample_removal = fr_rel_path r \<and>
     lit ''A'' \<noteq> fr_key r"
proof -
  have "\<forall>r \<in> set (sr_files sample_target). fr_key r = path_key (rt_upper sample_runtime) (fr_rel_path r)"
    using sample_assignment_keys(3) by simp
  from selected_removal_spares_assigned_targets [OF sample_planned this _ sample_in_plan(1)]
  show ?thesis
    using sample_result_selected [OF sample_in_plan(1)] sample_assignment_keys(1,2)
    by (auto simp: sample_operation_fields) (auto simp: sample_assignment_def)
qed

text \<open>C6: Every content operation that is not blocked is justified by the scans: it names the only
  source file of its key with the stat the scan saw; a copy goes where no target file has that key;
  a no-op's and an update's metadata do and do not match; a recase changes the name of a matching
  file only; a move displaces a target file that no item is assigned to, whose recorded identity is
  that of the source file, both identities unique in their scans and both files with one link.\<close>

theorem planner_content_operations_justified:
  assumes planned: "plan rt source target correspondence options scope = Inr p"
    and op: "op \<in> set (pl_operations p)" "po_source op \<noteq> None" "po_kind op \<noteq> MKDIR" "\<not> po_blocked op"
  shows "\<exists>item \<in> set (as_items (pl_assignment p)). \<exists>s.
     let ctx = planner_context rt source target correspondence options (pl_assignment p)
     in files_by_key (pc_source_files ctx) (da_source_key item) = [s] \<and> content_justified ctx s item op"
  using planned
proof (rule plan_returned)
  fix assignment ops
  let ?ctx = "planner_context rt source target correspondence options assignment"
  assume po: "plan_operations rt ?ctx = Inr ops" and ops: "pl_operations p = ops"
    and a: "pl_assignment p = assignment"
  from po obtain d created item where
    "decide_content rt ?ctx created item = Inr d" "item \<in> set (as_items assignment)" "op = cd_operation d"
    by (rule content_operation_decided) (use op ops in auto)
  then show ?thesis
    using decide_content_justified op(4) a unfolding Let_def by blast
qed


theorem planner_content_operations_justified_witness:
  "\<exists>item \<in> set (as_items (pl_assignment sample_result)).
     po_target sample_copy_op = da_target item \<and>
     (\<exists>s. po_source_expected sample_copy_op = Some (fr_stat s) \<and> po_content_bytes sample_copy_op = fr_size s)"
  using planner_content_operations_justified [OF sample_planned sample_in_plan(3)]
  by (simp add: sample_operation_fields Let_def content_justified_def) blast

text \<open>C5: A directory is cleaned up only after everything in it: for every target file below the
  directory, filtered or not, the cleanup depends on an operation of the plan that takes that very
  file away (a removal, or a move from there).\<close>

theorem directory_cleanup_waits_for_its_files:
  assumes planned: "plan rt source target correspondence options scope = Inr p"
    and keys: "\<forall>r \<in> set (sr_files target). fr_rel_path r \<noteq> [] \<and> fr_key r = path_key (rt_upper rt) (fr_rel_path r)"
      "\<forall>pair \<in> set (ms_pairs correspondence). mp_target pair \<noteq> [] \<and> mp_target_key pair = path_key (rt_upper rt) (mp_target pair)"
    and op: "op \<in> set (pl_operations p)" "po_reason op = R_DIRECTORY_CLEANUP"
    and r: "r \<in> set (sr_files target)" "is_descendant (rt_upper rt) (fr_rel_path r) (po_target op)"
  shows "\<exists>op' \<in> set (pl_operations p). po_op_id op' \<in> set (po_dependencies op) \<and> removes (rt_upper rt) op' r"
  using planned
proof (rule plan_returned)
  fix assignment ops
  let ?ctx = "planner_context rt source target correspondence options assignment"
  assume po: "plan_operations rt ?ctx = Inr ops" and ops: "pl_operations p = ops"
  from po show ?thesis
  proof (cases rule: plan_operations_parts)
    case (1 mkdirs created ds cleanups cb)
    have "op \<notin> set mkdirs" using mkdir_loop_kind [OF 1(1), of op] op(2) by auto
    moreover have "op \<notin> cd_operation ` set ds" using decided_kind [OF 1(2)] op(2) by auto
    moreover have "op \<notin> set (map (unsupported_operation rt) (visible_unsupported rt ?ctx))"
      using op(2) by (auto simp: unsupported_operation_def blocked_operation_def)
    moreover have "op \<notin> removal_operation rt options ` A" for A
      using op(2) by (auto simp: removal_operation_def)
    ultimately have c: "op \<in> set cleanups" using op(1) ops unfolding 1(4) by auto
    show ?thesis
      using cleanup_waits [OF 1(2,3) c, of r] keys r unfolding ops 1(4)
      by (auto simp: set_planner_files)
  qed
qed

theorem directory_cleanup_waits_for_its_files_witness:
  "\<exists>op' \<in> set (pl_operations sample_result). po_op_id op' \<in> set (po_dependencies sample_cleanup) \<and>
     removes ascii_upper op' (sample_file (lit ''d'' @ [92] @ lit ''b'') 9)"
proof -
  have r: "sample_file (lit ''d'' @ [92] @ lit ''b'') 9 \<in> set (sr_files sample_target)"
    by (simp add: sample_target_def sample_scan_def)
  have d: "is_descendant (rt_upper sample_runtime)
      (fr_rel_path (sample_file (lit ''d'' @ [92] @ lit ''b'') 9)) (po_target sample_cleanup)"
    by (simp add: sample_operation_fields sample_file_def is_descendant_def path_key_def eval_path)
  show ?thesis
    using directory_cleanup_waits_for_its_files [OF sample_planned _ _ sample_in_plan(2) _ r d]
      sample_assignment_keys(3)
    by (simp add: sample_operation_fields mapping_snapshot_empty_def)
qed

text \<open>C9: No source file is forgotten: every scanned source file that the filters keep, and that no
  other source file collides with, is the source of an operation that carries the stat the scan saw,
  blocked operations included.\<close>

theorem planner_accounts_for_every_source_file:
  assumes planned: "plan rt source target correspondence options scope = Inr p"
    and r: "r \<in> set (sr_files source)" "\<not> excludes rt (so_filters options) (fr_rel_path r)"
    and alone: "\<forall>s \<in> set (sr_files source). fr_key s = fr_key r \<longrightarrow> s = r"
  shows "\<exists>op \<in> set (pl_operations p). po_source op = Some (fr_rel_path r) \<and>
     po_source_expected op = Some (fr_stat r) \<and> po_kind op \<noteq> MKDIR"
  using planned
proof (rule plan_returned)
  fix assignment ops
  let ?ctx = "planner_context rt source target correspondence options assignment"
  assume po: "plan_operations rt ?ctx = Inr ops" and ops: "pl_operations p = ops"
    and v: "\<exists>items. validate_assignment (rt_upper rt) assignment (planner_files rt options source) = Inr items"
  have rf: "r \<in> set (planner_files rt options source)" using r by (simp add: set_planner_files)
  then obtain item where item: "item \<in> set (as_items assignment)" "da_source_key item = fr_key r"
    using v validate_assignment_covers by blast
  from po show ?thesis
  proof (cases rule: plan_operations_parts)
    case (1 mkdirs created ds cleanups cb)
    obtain d where d: "d \<in> set ds" "decide_content rt ?ctx created item = Inr d"
      using mapE_member(2) [OF 1(2), of item] item by auto
    have all: "s = r" if "s \<in> set (files_by_key (pc_source_files ?ctx) (da_source_key item))" for s
      using that alone item(2) by (simp add: set_group_by_key set_planner_files)
    obtain s others where s: "files_by_key (pc_source_files ?ctx) (da_source_key item) = s # others"
      using d(2) by (auto simp: decide_content_def split: list.splits)
    then have "s = r" using all by simp
    then show ?thesis
      using decide_content_source [OF d(2) s] d(1) ops unfolding 1(4) by (intro bexI [of _ "cd_operation d"]) auto
  qed
qed


theorem planner_accounts_for_every_source_file_witness:
  "\<exists>op \<in> set (pl_operations sample_result). po_source op = Some (lit ''a'') \<and> po_kind op \<noteq> MKDIR"
  using planner_accounts_for_every_source_file [OF sample_planned, of "sample_file (lit ''a'') 7"]
  by (auto simp: sample_source_def sample_scan_def sample_options_def excludes_def) (auto simp: sample_file_def)

end
