(* ===== verification/Session.thy ===== *)
theory Session
  imports Evidence Canonical_Json
begin

text \<open>
  Session lifecycle and runner (\<^verbatim>\<open>core/session.py\<close>) with the event bodies of \<^verbatim>\<open>core/events.py\<close>: the
  frozen state machine, terminal results, session records with their constructor checks, and
  \<open>run_session\<close>, which runs a workflow and reports its callbacks in order.
\<close>

section \<open>The state machine\<close>

datatype session_state =
    ST_PENDING | ST_RUNNING | ST_PAUSING | ST_PAUSED | ST_CANCELING
  | ST_COMPLETED | ST_FAILED | ST_CANCELED | ST_REFUSED | ST_INTERRUPTED

fun session_state_value :: "session_state \<Rightarrow> pystr" where
  "session_state_value ST_PENDING = lit ''pending''"
| "session_state_value ST_RUNNING = lit ''running''"
| "session_state_value ST_PAUSING = lit ''pausing''"
| "session_state_value ST_PAUSED = lit ''paused''"
| "session_state_value ST_CANCELING = lit ''canceling''"
| "session_state_value ST_COMPLETED = lit ''completed''"
| "session_state_value ST_FAILED = lit ''failed''"
| "session_state_value ST_CANCELED = lit ''canceled''"
| "session_state_value ST_REFUSED = lit ''refused''"
| "session_state_value ST_INTERRUPTED = lit ''interrupted''"

definition is_terminal :: "session_state \<Rightarrow> bool" where
  "is_terminal s \<longleftrightarrow> s \<in> {ST_COMPLETED, ST_FAILED, ST_CANCELED, ST_REFUSED}"

fun legal_transitions :: "session_state \<Rightarrow> session_state set" where
  "legal_transitions ST_PENDING = {ST_RUNNING, ST_CANCELING, ST_FAILED}"
| "legal_transitions ST_RUNNING =
     {ST_PAUSING, ST_CANCELING, ST_COMPLETED, ST_FAILED, ST_CANCELED, ST_REFUSED}"
| "legal_transitions ST_PAUSING =
     {ST_PAUSED, ST_CANCELING, ST_COMPLETED, ST_FAILED, ST_CANCELED, ST_REFUSED}"
| "legal_transitions ST_PAUSED = {ST_PENDING, ST_CANCELING}"
| "legal_transitions ST_CANCELING = {ST_COMPLETED, ST_FAILED, ST_CANCELED, ST_REFUSED}"
| "legal_transitions ST_COMPLETED = {}"
| "legal_transitions ST_FAILED = {}"
| "legal_transitions ST_CANCELED = {}"
| "legal_transitions ST_REFUSED = {}"
| "legal_transitions ST_INTERRUPTED = {ST_PENDING, ST_CANCELING}"

definition require_transition :: "session_state \<Rightarrow> session_state \<Rightarrow> unit res" where
  "require_transition current requested =
     raise_if (requested \<notin> legal_transitions current) IllegalTransition"

section \<open>Results\<close>

datatype disposition = RAN | UNRUN

fun disposition_value :: "disposition \<Rightarrow> pystr" where
  "disposition_value RAN = lit ''ran''"
| "disposition_value UNRUN = lit ''unrun''"

record failure_detail =
  fd_type_name :: pystr
  fd_message :: pystr

record item_outcome =
  io_item_id :: pystr
  io_kind :: pystr
  io_path :: pystr
  io_outcome :: outcome
  io_reason :: "pystr option"
  io_detail :: "(pystr, json) dict"

definition item_outcome_post_init :: "item_outcome \<Rightarrow> unit res" where
  "item_outcome_post_init i = raise_if (io_item_id i = [] \<or> io_kind i = [])
     (ValueError ''item_id and kind must be non-empty'')"

record operation_result =
  or_status :: session_state
  or_recording :: recording_status
  or_audit :: recording_status
  or_disposition :: disposition
  or_canceled :: bool
  or_operations :: "item_outcome list"
  or_bytes_done :: int
  or_bytes_total :: int
  or_error :: "failure_detail option"

definition operation_result_post_init :: "operation_result \<Rightarrow> unit res" where
  "operation_result_post_init r =
     bindE (raise_if (\<not> is_terminal (or_status r))
       (ValueError ''operation result status must be terminal'')) (\<lambda>_.
     bindE (raise_if (or_bytes_done r < 0 \<or> or_bytes_total r < 0)
       (ValueError ''result byte counts cannot be negative'')) (\<lambda>_.
     bindE (raise_if (or_bytes_done r > or_bytes_total r)
       (ValueError ''bytes_done cannot exceed bytes_total'')) (\<lambda>_.
     bindE (raise_if (or_canceled r \<noteq> (or_status r = ST_CANCELED))
       (ValueError ''canceled must agree with the terminal status'')) (\<lambda>_.
     raise_if (or_status r = ST_REFUSED \<and> or_disposition r \<noteq> UNRUN)
       (ValueError ''refused sessions must have unrun disposition'')))))"

section \<open>Event bodies\<close>

record progress =
  pg_items_done :: int
  pg_items_total :: "int option"
  pg_bytes_done :: int
  pg_bytes_total :: "int option"
  pg_current_path :: "pystr option"

definition progress_post_init :: "progress \<Rightarrow> unit res" where
  "progress_post_init p =
     bindE (raise_if (pg_items_done p < 0 \<or> pg_bytes_done p < 0)
       (ValueError ''progress counters cannot be negative'')) (\<lambda>_.
     bindE (raise_if (\<exists>t \<in> set_option (pg_items_total p) \<union> set_option (pg_bytes_total p). t < 0)
       (ValueError ''progress totals cannot be negative'')) (\<lambda>_.
     bindE (raise_if (\<exists>t \<in> set_option (pg_items_total p). pg_items_done p > t)
       (ValueError ''items_done cannot exceed items_total'')) (\<lambda>_.
     raise_if (\<exists>t \<in> set_option (pg_bytes_total p). pg_bytes_done p > t)
       (ValueError ''bytes_done cannot exceed bytes_total''))))"

datatype event_body =
    StateChanged session_state
  | PhaseChanged pystr
  | Progress progress
  | ItemOutcome item_outcome
  | Gap int
  | Terminal operation_result

definition event_body_post_init :: "event_body \<Rightarrow> unit res" where
  "event_body_post_init b =
     (case b of
        Progress p \<Rightarrow> progress_post_init p
      | ItemOutcome i \<Rightarrow> item_outcome_post_init i
      | Gap n \<Rightarrow> raise_if (n < 1) (ValueError ''first_missed_seq must be positive'')
      | Terminal r \<Rightarrow> operation_result_post_init r
      | _ \<Rightarrow> Inr ())"

section \<open>Resources and records\<close>

datatype resource_id = ResourceId (rs_namespace: pystr) (rs_key: pystr)

text \<open>\<^verbatim>\<open>@dataclass(order=True)\<close>: compared as the tuple of its fields.\<close>

instantiation resource_id :: linorder
begin

definition less_eq_resource_id :: "resource_id \<Rightarrow> resource_id \<Rightarrow> bool" where
  "less_eq_resource_id a b \<longleftrightarrow> (rs_namespace a, rs_key a) \<le> (rs_namespace b, rs_key b)"

definition less_resource_id :: "resource_id \<Rightarrow> resource_id \<Rightarrow> bool" where
  "less_resource_id a b \<longleftrightarrow> (rs_namespace a, rs_key a) < (rs_namespace b, rs_key b)"

instance
  by standard (auto simp: less_eq_resource_id_def less_resource_id_def resource_id.expand)

end

definition resource_id_post_init :: "resource_id \<Rightarrow> unit res" where
  "resource_id_post_init r = raise_if (rs_namespace r = [] \<or> rs_key r = [])
     (ValueError ''resource namespace and key must be non-empty'')"

definition require_utc_optional :: "datetime option \<Rightarrow> unit res" where
  "require_utc_optional v = (case v of None \<Rightarrow> Inr () | Some t \<Rightarrow> require_utc t)"

type_synonym session_id = pystr

record session_record =
  se_session_id :: session_id
  se_kind :: pystr
  se_state :: session_state
  se_resources :: "resource_id list"
  se_payload :: bytes
  se_supports_pause :: bool
  se_admission_order :: int
  se_created_at :: datetime
  se_started_at :: "datetime option"
  se_ended_at :: "datetime option"
  se_result :: "operation_result option"

definition session_record_post_init :: "session_record \<Rightarrow> unit res" where
  "session_record_post_init r =
     bindE (raise_if (se_session_id r = [] \<or> se_kind r = [])
       (ValueError ''session id and kind must be non-empty'')) (\<lambda>_.
     bindE (raise_if (sort (remdups (se_resources r)) \<noteq> se_resources r)
       (ValueError ''resources must be unique and deterministically sorted'')) (\<lambda>_.
     bindE (raise_if (se_admission_order r < 0)
       (ValueError ''admission order cannot be negative'')) (\<lambda>_.
     bindE (require_utc (se_created_at r)) (\<lambda>_.
     bindE (require_utc_optional (se_started_at r)) (\<lambda>_.
     bindE (require_utc_optional (se_ended_at r)) (\<lambda>_.
     bindE (raise_if (is_terminal (se_state r) \<noteq> (se_ended_at r \<noteq> None))
       (ValueError ''terminal state and ended_at must agree'')) (\<lambda>_.
     raise_if (case se_result r of None \<Rightarrow> False | Some result \<Rightarrow> or_status result \<noteq> se_state r)
       (ValueError ''record result status must agree with session state''))))))))"

section \<open>The runner\<close>

text \<open>
  A workflow is Python code that the runner calls with two callbacks. It is modelled by what it
  does: it ends, or it calls \<^verbatim>\<open>emit\<close> or \<^verbatim>\<open>checkpoint\<close> and continues with the exception the call
  raised, if any (which it may let propagate, or catch).
\<close>

datatype exn = Canceled | PauseRequested | OtherError pystr pystr

datatype program =
    Return operation_result
  | ReturnOther
  | Raise exn
  | Emit event_body "exn option \<Rightarrow> program"
  | Checkpoint "exn option \<Rightarrow> program"

datatype work_end = Returned operation_result | Raised exn

text \<open>The callbacks of the runner, in the order they are made.\<close>

datatype run_call =
    CallEmit event_body
  | CallSettle session_state "operation_result option"
  | CallFinalizeAudit operation_result
  | CallPublish operation_result

record run_locals =
  rl_items :: "item_outcome list"
  rl_progress :: "progress option"

definition observe_body :: "event_body \<Rightarrow> run_locals \<Rightarrow> run_locals" where
  "observe_body body st =
     (case body of
        ItemOutcome i \<Rightarrow> st\<lparr>rl_items := rl_items st @ [i]\<rparr>
      | Progress p \<Rightarrow> st\<lparr>rl_progress := Some p\<rparr>
      | _ \<Rightarrow> st)"

text \<open>\<open>checks\<close> are the exceptions that the successive calls of \<^verbatim>\<open>checkpoint\<close> raise.\<close>

primrec run_work ::
    "program \<Rightarrow> exn option list \<Rightarrow> run_locals \<Rightarrow> work_end \<times> run_locals \<times> run_call list" where
  "run_work (Return r) checks st = (Returned r, st, [])"
| "run_work ReturnOther checks st =
     (Raised (OtherError (lit ''TypeError'') (lit ''workflow must return OperationResult'')), st, [])"
| "run_work (Raise e) checks st = (Raised e, st, [])"
| "run_work (Emit body k) checks st =
     (case body of
        Terminal r \<Rightarrow>
          run_work (k (Some (OtherError (lit ''ValueError'') (lit ''workflow code cannot emit Terminal''))))
            checks st
      | _ \<Rightarrow>
          (case run_work (k None) checks (observe_body body st) of
             (e, st', calls) \<Rightarrow> (e, st', CallEmit body # calls)))"
| "run_work (Checkpoint k) checks st =
     (case checks of
        [] \<Rightarrow> run_work (k None) [] st
      | c # cs \<Rightarrow> run_work (k c) cs st)"

definition observed_bytes :: "run_locals \<Rightarrow> int \<times> int" where
  "observed_bytes st =
     (case rl_progress st of
        None \<Rightarrow> (0, 0)
      | Some p \<Rightarrow> (pg_bytes_done p, (case pg_bytes_total p of None \<Rightarrow> pg_bytes_done p | Some t \<Rightarrow> t)))"

definition interrupted_result ::
    "session_state \<Rightarrow> disposition \<Rightarrow> run_locals \<Rightarrow> failure_detail option \<Rightarrow> operation_result" where
  "interrupted_result status disp st err =
     \<lparr>or_status = status, or_recording = REC_OK, or_audit = REC_OK, or_disposition = disp,
      or_canceled = (status = ST_CANCELED), or_operations = rl_items st,
      or_bytes_done = fst (observed_bytes st), or_bytes_total = snd (observed_bytes st),
      or_error = err\<rparr>"

record run_outcome =
  ro_paused :: bool
  ro_result :: "operation_result option"

text \<open>\<open>audit\<close> is what \<^verbatim>\<open>finalize_audit\<close> returns or raises on a result.\<close>

definition conclude ::
    "(operation_result \<Rightarrow> exn + recording_status) \<Rightarrow> operation_result \<Rightarrow> run_outcome \<times> run_call list" where
  "conclude audit result =
     (let status = (case audit result of Inl _ \<Rightarrow> REC_DEGRADED | Inr a \<Rightarrow> a);
          final = result\<lparr>or_audit := status\<rparr>
      in (\<lparr>ro_paused = False, ro_result = Some final\<rparr>,
          [CallSettle (or_status result) (Some result), CallFinalizeAudit result, CallPublish final,
           CallEmit (Terminal final)]))"

definition run_session ::
    "program \<Rightarrow> exn option list \<Rightarrow> (operation_result \<Rightarrow> exn + recording_status) \<Rightarrow> disposition \<Rightarrow>
     item_outcome list \<Rightarrow> run_outcome \<times> run_call list" where
  "run_session work checks audit disp items =
     (case run_work work checks \<lparr>rl_items = items, rl_progress = None\<rparr> of
        (e, st, calls) \<Rightarrow>
          (case e of
             Raised PauseRequested \<Rightarrow>
               (\<lparr>ro_paused = True, ro_result = None\<rparr>, calls @ [CallSettle ST_PAUSED None])
           | Raised Canceled \<Rightarrow>
               (case conclude audit (interrupted_result ST_CANCELED disp st None) of
                  (out, fin) \<Rightarrow> (out, calls @ fin))
           | Raised (OtherError ty msg) \<Rightarrow>
               (case conclude audit (interrupted_result ST_FAILED disp st
                       (Some \<lparr>fd_type_name = ty, fd_message = msg\<rparr>)) of
                  (out, fin) \<Rightarrow> (out, calls @ fin))
           | Returned r \<Rightarrow>
               (case conclude audit r of (out, fin) \<Rightarrow> (out, calls @ fin))))"

section \<open>Lemmas\<close>

lemma terminal_no_transition: "is_terminal s \<longleftrightarrow> legal_transitions s = {}"
  by (cases s) (auto simp: is_terminal_def)

lemma operation_result_ok:
  "operation_result_post_init r = Inr u \<longleftrightarrow>
     is_terminal (or_status r) \<and> 0 \<le> or_bytes_done r \<and> or_bytes_done r \<le> or_bytes_total r \<and>
     or_canceled r = (or_status r = ST_CANCELED) \<and> (or_status r = ST_REFUSED \<longrightarrow> or_disposition r = UNRUN)"
  by (auto simp: operation_result_post_init_def result_simps)

lemma progress_ok:
  assumes "progress_post_init p = Inr u"
  shows "0 \<le> pg_bytes_done p" and "pg_bytes_total p = Some t \<Longrightarrow> pg_bytes_done p \<le> t"
  using assms by (auto simp: progress_post_init_def result_simps)

section \<open>What the runner guarantees\<close>

fun terminal_event :: "event_body \<Rightarrow> bool" where
  "terminal_event (Terminal r) = True"
| "terminal_event _ = False"

fun emitted_item :: "event_body \<Rightarrow> item_outcome list" where
  "emitted_item (ItemOutcome i) = [i]"
| "emitted_item _ = []"

text \<open>A workflow that only constructs values their constructors accept.\<close>

primrec valid_program :: "program \<Rightarrow> bool" where
  "valid_program (Return r) \<longleftrightarrow> operation_result_post_init r = Inr ()"
| "valid_program ReturnOther \<longleftrightarrow> True"
| "valid_program (Raise e) \<longleftrightarrow> True"
| "valid_program (Emit body k) \<longleftrightarrow> event_body_post_init body = Inr () \<and> (\<forall>x. valid_program (k x))"
| "valid_program (Checkpoint k) \<longleftrightarrow> (\<forall>x. valid_program (k x))"

definition valid_locals :: "run_locals \<Rightarrow> bool" where
  "valid_locals st \<longleftrightarrow> (\<forall>p. rl_progress st = Some p \<longrightarrow> progress_post_init p = Inr ())"

lemma run_work_calls:
  "run_work work checks st = (e, st', calls) \<Longrightarrow>
     \<exists>emits. calls = map CallEmit emits \<and> list_all (\<lambda>b. \<not> terminal_event b) emits \<and>
       rl_items st' = rl_items st @ concat (map emitted_item emits)"
proof (induction work arbitrary: checks st e st' calls)
  case (Emit body k)
  show ?case
  proof (cases "terminal_event body")
    case True
    then obtain r where "body = Terminal r" by (cases body) auto
    with Emit.prems show ?thesis by (auto intro: Emit.IH [OF rangeI])
  next
    case False
    then obtain calls' where c: "run_work (k None) checks (observe_body body st) = (e, st', calls')"
      "calls = CallEmit body # calls'"
      using Emit.prems by (cases body) (auto split: prod.splits)
    then obtain emits where m: "calls' = map CallEmit emits" "list_all (\<lambda>b. \<not> terminal_event b) emits"
      "rl_items st' = rl_items (observe_body body st) @ concat (map emitted_item emits)"
      using Emit.IH [OF rangeI c(1)] by blast
    have "rl_items (observe_body body st) = rl_items st @ emitted_item body"
      by (cases body) (auto simp: observe_body_def)
    with m c False show ?thesis by (intro exI [of _ "body # emits"]) simp
  qed
next
  case (Checkpoint k)
  then show ?case by (auto split: list.splits intro: Checkpoint.IH [OF rangeI])
qed auto

lemma run_work_valid:
  "run_work work checks st = (e, st', calls) \<Longrightarrow> valid_program work \<Longrightarrow> valid_locals st \<Longrightarrow>
     valid_locals st' \<and> (\<forall>r. e = Returned r \<longrightarrow> operation_result_post_init r = Inr ())"
proof (induction work arbitrary: checks st e st' calls)
  case (Emit body k)
  have "valid_locals (observe_body body st)"
    using Emit.prems by (cases body) (auto simp: observe_body_def valid_locals_def event_body_post_init_def)
  with Emit.prems Emit.IH [OF rangeI] show ?case
    by (cases body) (auto split: prod.splits)
next
  case (Checkpoint k)
  then have v: "valid_program (k x)" for x by simp
  show ?case
  proof (cases checks)
    case Nil
    then show ?thesis using Checkpoint.prems Checkpoint.IH [OF rangeI _ v] by simp
  next
    case (Cons c cs)
    then show ?thesis using Checkpoint.prems Checkpoint.IH [OF rangeI _ v, of c cs] by simp
  qed
qed auto

lemma interrupted_result_ok:
  assumes "valid_locals st" and "status \<in> {ST_CANCELED, ST_FAILED}"
  shows "operation_result_post_init (interrupted_result status disp st err) = Inr ()"
proof (cases "rl_progress st")
  case None
  with assms(2) show ?thesis
    by (auto simp: operation_result_ok interrupted_result_def observed_bytes_def is_terminal_def)
next
  case (Some p)
  with assms have "0 \<le> pg_bytes_done p" "\<And>t. pg_bytes_total p = Some t \<Longrightarrow> pg_bytes_done p \<le> t"
    using progress_ok [of p "()"] by (auto simp: valid_locals_def)
  with Some assms(2) show ?thesis
    by (auto simp: operation_result_ok interrupted_result_def observed_bytes_def is_terminal_def
          split: option.splits)
qed

lemma interrupted_result_operations [simp]:
  "or_operations (interrupted_result status disp st err) = rl_items st"
  by (simp add: interrupted_result_def)

lemma run_session_cases:
  assumes "run_session work checks audit disp items = (out, calls)"
  obtains (paused) emits where "out = \<lparr>ro_paused = True, ro_result = None\<rparr>"
      "calls = map CallEmit emits @ [CallSettle ST_PAUSED None]" "list_all (\<lambda>b. \<not> terminal_event b) emits"
  | (concluded) emits r fin where "(out, fin) = conclude audit r" "calls = map CallEmit emits @ fin"
      "list_all (\<lambda>b. \<not> terminal_event b) emits"
      "valid_program work \<Longrightarrow> operation_result_post_init r = Inr ()"
      "or_operations r = items @ concat (map emitted_item emits)
        \<or> (\<exists>st. run_work work checks \<lparr>rl_items = items, rl_progress = None\<rparr> = (Returned r, st, map CallEmit emits))"
proof -
  obtain e st cs where w: "run_work work checks \<lparr>rl_items = items, rl_progress = None\<rparr> = (e, st, cs)"
    by (metis prod_cases3)
  obtain emits where m: "cs = map CallEmit emits" "list_all (\<lambda>b. \<not> terminal_event b) emits"
    "rl_items st = items @ concat (map emitted_item emits)"
    using run_work_calls [OF w] by auto
  have v: "valid_locals st \<and> (\<forall>r. e = Returned r \<longrightarrow> operation_result_post_init r = Inr ())"
    if "valid_program work"
    using run_work_valid [OF w that] by (simp add: valid_locals_def)
  show ?thesis
  proof (cases e)
    case (Returned r)
    obtain o1 fin where f: "conclude audit r = (o1, fin)" by (cases "conclude audit r")
    show ?thesis
      by (rule concluded [of fin r emits]) (use assms w Returned f m v in \<open>auto simp: run_session_def\<close>)
  next
    case (Raised x)
    show ?thesis
    proof (cases x)
      case PauseRequested
      show ?thesis
        by (rule paused [of emits]) (use assms w Raised PauseRequested m in \<open>auto simp: run_session_def\<close>)
    next
      case Canceled
      let ?r = "interrupted_result ST_CANCELED disp st None"
      obtain o1 fin where f: "conclude audit ?r = (o1, fin)" by (cases "conclude audit ?r")
      show ?thesis
        by (rule concluded [of fin ?r emits])
           (use assms w Raised Canceled f m v interrupted_result_ok in
             \<open>auto simp: run_session_def\<close>)
    next
      case (OtherError ty msg)
      let ?r = "interrupted_result ST_FAILED disp st (Some \<lparr>fd_type_name = ty, fd_message = msg\<rparr>)"
      obtain o1 fin where f: "conclude audit ?r = (o1, fin)" by (cases "conclude audit ?r")
      show ?thesis
        by (rule concluded [of fin ?r emits])
           (use assms w Raised OtherError f m v interrupted_result_ok in
             \<open>auto simp: run_session_def\<close>)
    qed
  qed
qed


section \<open>Properties\<close>

text \<open>C30: A session has at most one terminal event, and it is the last thing the runner does: a paused
  run ends by settling \<open>PAUSED\<close> with no result and no terminal event; every other run, however the
  workflow ended, settles its state, finalises the audit, publishes the result with the audit status
  and only then emits the single terminal event with that result. A raising audit counts as degraded.\<close>

theorem run_session_sole_terminal_event:
  "case run_session work checks audit disp items of (out, calls) \<Rightarrow>
     \<exists>emits. list_all (\<lambda>b. \<not> terminal_event b) emits \<and>
       (if ro_paused out
        then ro_result out = None \<and> calls = map CallEmit emits @ [CallSettle ST_PAUSED None]
        else \<exists>r. let final = r\<lparr>or_audit := (case audit r of Inl _ \<Rightarrow> REC_DEGRADED | Inr a \<Rightarrow> a)\<rparr>
          in ro_result out = Some final \<and>
             calls = map CallEmit emits @ [CallSettle (or_status r) (Some r), CallFinalizeAudit r,
               CallPublish final, CallEmit (Terminal final)])"
proof (cases "run_session work checks audit disp items")
  case (Pair out calls)
  then show ?thesis
  proof (cases rule: run_session_cases)
    case (paused emits)
    with Pair show ?thesis by auto
  next
    case (concluded emits r fin)
    with Pair show ?thesis by (fastforce simp: conclude_def Let_def)
  qed
qed

text \<open>C31: If the workflow only builds values its constructors accept, the published result is
  accepted by the constructor of a result; and a run that the
  workflow did not conclude itself reports exactly the items it emitted, after those of the earlier
  runs of the session, in order.\<close>

theorem run_session_result_valid:
  assumes "valid_program work" and "run_session work checks audit disp items = (out, calls)"
    and "ro_result out = Some final"
  shows "operation_result_post_init final = Inr () \<and>
    (or_operations final = items @ concat (map (\<lambda>c. case c of CallEmit b \<Rightarrow> emitted_item b | _ \<Rightarrow> []) calls)
     \<or> (\<exists>r st cs. run_work work checks \<lparr>rl_items = items, rl_progress = None\<rparr> = (Returned r, st, cs) \<and>
          final = r\<lparr>or_audit := or_audit final\<rparr>))"
  using assms(2)
proof (cases rule: run_session_cases)
  case (paused emits)
  with assms(3) show ?thesis by simp
next
  case (concluded emits r fin)
  have f: "final = r\<lparr>or_audit := (case audit r of Inl _ \<Rightarrow> REC_DEGRADED | Inr a \<Rightarrow> a)\<rparr>"
    using concluded(1) assms(3) by (auto simp: conclude_def Let_def)
  have "operation_result_post_init final = Inr ()"
    using concluded(4) [OF assms(1)] unfolding f operation_result_ok by simp
  moreover have "concat (map (\<lambda>c. case c of CallEmit b \<Rightarrow> emitted_item b | _ \<Rightarrow> []) calls)
      = concat (map emitted_item emits)"
    using concluded(1,2) by (auto simp: conclude_def Let_def comp_def)
  moreover have "or_operations final = or_operations r" and "final = r\<lparr>or_audit := or_audit final\<rparr>"
    by (simp_all add: f)
  ultimately show ?thesis
    using concluded(5) by metis
qed

definition sample_item :: item_outcome where
  "sample_item = \<lparr>io_item_id = lit ''i'', io_kind = lit ''copy'', io_path = lit ''a'',
     io_outcome = O_SUCCEEDED, io_reason = None, io_detail = []\<rparr>"

theorem run_session_result_valid_witness:
  "operation_result_post_init (interrupted_result ST_CANCELED RAN
     \<lparr>rl_items = [sample_item], rl_progress = None\<rparr> None) = Inr ()"
proof -
  let ?work = "Emit (ItemOutcome sample_item) (\<lambda>_. Checkpoint (\<lambda>x. Raise (the x)))"
  let ?final = "interrupted_result ST_CANCELED RAN \<lparr>rl_items = [sample_item], rl_progress = None\<rparr> None"
  obtain out calls where r: "run_session ?work [Some Canceled] (\<lambda>_. Inr REC_OK) RAN [] = (out, calls)"
    by (cases "run_session ?work [Some Canceled] (\<lambda>_. Inr REC_OK) RAN []")
  then have "ro_result out = Some ?final"
    by (auto simp: run_session_def observe_body_def conclude_def interrupted_result_def Let_def)
  moreover have "valid_program ?work"
    by (simp add: event_body_post_init_def item_outcome_post_init_def sample_item_def lit_def)
  ultimately show ?thesis using run_session_result_valid [OF _ r] by blast
qed

end
