(* ===== verification/Events.thy ===== *)
theory Events
  imports Session
begin

text \<open>
  Versioned envelopes (\<^verbatim>\<open>core/events.py\<close>): the constructor check, delivery classes, and the
  conversion of envelopes to and from plain dictionaries. A dictionary value is a \<open>json\<close> tree.
\<close>

section \<open>Envelopes\<close>

definition schema_version :: int where
  "schema_version = 2"

record envelope =
  en_session_id :: session_id
  en_seq :: int
  en_at :: datetime
  en_schema_version :: int
  en_body :: event_body

definition envelope_post_init :: "envelope \<Rightarrow> unit res" where
  "envelope_post_init e =
     bindE (raise_if (en_session_id e = []) (ValueError ''session_id must be non-empty'')) (\<lambda>_.
     bindE (raise_if (en_seq e < 1) (ValueError ''event sequence must be positive'')) (\<lambda>_.
     bindE (raise_if (en_schema_version e \<noteq> schema_version)
       (ValueError ''unsupported event schema version'')) (\<lambda>_.
     require_utc (en_at e))))"

datatype delivery = LOSSY | RELIABLE

fun delivery_class :: "event_body \<Rightarrow> delivery" where
  "delivery_class (Progress _) = LOSSY"
| "delivery_class _ = RELIABLE"

section \<open>Built-in conversions\<close>

text \<open>
  The interpreter's conversions that are not spelled out here: the text of a list or dictionary,
  the parser of \<^verbatim>\<open>int(str)\<close>, and the ISO format of timestamps.
\<close>

record py_builtins =
  pb_repr :: "json \<Rightarrow> pystr"
  pb_parse_int :: "pystr \<Rightarrow> int option"
  pb_isoformat :: "datetime \<Rightarrow> pystr"
  pb_fromisoformat :: "pystr \<Rightarrow> datetime option"

fun py_str :: "py_builtins \<Rightarrow> json \<Rightarrow> pystr" where
  "py_str pb JNull = lit ''None''"
| "py_str pb (JBool b) = (if b then lit ''True'' else lit ''False'')"
| "py_str pb (JInt i) = int_repr i"
| "py_str pb (JStr s) = s"
| "py_str pb v = pb_repr pb v"

fun py_int :: "py_builtins \<Rightarrow> json \<Rightarrow> int res" where
  "py_int pb (JInt i) = Inr i"
| "py_int pb (JBool b) = Inr (if b then 1 else 0)"
| "py_int pb (JStr s) = (case pb_parse_int pb s of
     None \<Rightarrow> Inl (ValueError ''invalid literal for int()'') | Some i \<Rightarrow> Inr i)"
| "py_int pb _ = Inl (TypeError ''int() argument must be a string or a number'')"

fun py_bool :: "json \<Rightarrow> bool" where
  "py_bool JNull = False"
| "py_bool (JBool b) = b"
| "py_bool (JInt i) = (i \<noteq> 0)"
| "py_bool (JStr s) = (s \<noteq> [])"
| "py_bool (JList vs) = (vs \<noteq> [])"
| "py_bool (JObj kvs) = (kvs \<noteq> [])"

definition get_item :: "string \<Rightarrow> (pystr, json) dict \<Rightarrow> json res" where
  "get_item k d = (case map_of d (lit k) of None \<Rightarrow> Inl KeyError | Some v \<Rightarrow> Inr v)"

definition get_default :: "string \<Rightarrow> json \<Rightarrow> (pystr, json) dict \<Rightarrow> json" where
  "get_default k v d = (case map_of d (lit k) of None \<Rightarrow> v | Some v' \<Rightarrow> v')"

definition optional_int :: "py_builtins \<Rightarrow> json \<Rightarrow> int option res" where
  "optional_int pb v = (if v = JNull then Inr None else bindE (py_int pb v) (\<lambda>i. Inr (Some i)))"

definition optional_str :: "py_builtins \<Rightarrow> json \<Rightarrow> pystr option" where
  "optional_str pb v = (if v = JNull then None else Some (py_str pb v))"

text \<open>\<^verbatim>\<open>Enum(value)\<close>: the member with that value.\<close>

definition enum_of :: "('e \<Rightarrow> pystr) \<Rightarrow> 'e list \<Rightarrow> pystr \<Rightarrow> 'e res" where
  "enum_of value_of members s =
     (case List.find (\<lambda>e. value_of e = s) members of
        None \<Rightarrow> Inl (ValueError ''is not a valid member'') | Some e \<Rightarrow> Inr e)"

definition session_states :: "session_state list" where
  "session_states = [ST_PENDING, ST_RUNNING, ST_PAUSING, ST_PAUSED, ST_CANCELING, ST_COMPLETED,
     ST_FAILED, ST_CANCELED, ST_REFUSED, ST_INTERRUPTED]"

definition outcomes :: "outcome list" where
  "outcomes = [O_SUCCEEDED, O_SKIPPED, O_FAILED, O_CANCELED, O_DEFERRED, O_BLOCKED]"

section \<open>To a dictionary\<close>

definition dict_of :: "(string \<times> json) list \<Rightarrow> (pystr, json) dict" where
  "dict_of kvs = map (\<lambda>(k, v). (lit k, v)) kvs"

definition json_opt :: "('a \<Rightarrow> json) \<Rightarrow> 'a option \<Rightarrow> json" where
  "json_opt f v = (case v of None \<Rightarrow> JNull | Some a \<Rightarrow> f a)"

definition item_to_dict :: "item_outcome \<Rightarrow> (pystr, json) dict" where
  "item_to_dict i = dict_of [(''item_id'', JStr (io_item_id i)), (''kind'', JStr (io_kind i)),
     (''path'', JStr (io_path i)), (''outcome'', JStr (outcome_value (io_outcome i))),
     (''reason'', json_opt JStr (io_reason i)), (''detail'', JObj (io_detail i))]"

definition result_to_dict :: "operation_result \<Rightarrow> (pystr, json) dict" where
  "result_to_dict r = dict_of [(''status'', JStr (session_state_value (or_status r))),
     (''recording'', JStr (recording_status_value (or_recording r))),
     (''audit'', JStr (recording_status_value (or_audit r))),
     (''disposition'', JStr (disposition_value (or_disposition r))),
     (''canceled'', JBool (or_canceled r)),
     (''operations'', JList (map (\<lambda>i. JObj (item_to_dict i)) (or_operations r))),
     (''bytes_done'', JInt (or_bytes_done r)), (''bytes_total'', JInt (or_bytes_total r)),
     (''error'', json_opt (\<lambda>e. JObj (dict_of [(''type_name'', JStr (fd_type_name e)),
                                           (''message'', JStr (fd_message e))])) (or_error r))]"

definition progress_to_dict :: "progress \<Rightarrow> (pystr, json) dict" where
  "progress_to_dict p = dict_of [(''items_done'', JInt (pg_items_done p)),
     (''items_total'', json_opt JInt (pg_items_total p)), (''bytes_done'', JInt (pg_bytes_done p)),
     (''bytes_total'', json_opt JInt (pg_bytes_total p)),
     (''current_path'', json_opt JStr (pg_current_path p))]"

fun body_to_dict :: "event_body \<Rightarrow> string \<times> (pystr, json) dict" where
  "body_to_dict (StateChanged s) = (''StateChanged'', dict_of [(''state'', JStr (session_state_value s))])"
| "body_to_dict (PhaseChanged p) = (''PhaseChanged'', dict_of [(''phase'', JStr p)])"
| "body_to_dict (Progress p) = (''Progress'', progress_to_dict p)"
| "body_to_dict (ItemOutcome i) = (''ItemOutcome'', item_to_dict i)"
| "body_to_dict (Gap n) = (''Gap'', dict_of [(''first_missed_seq'', JInt n)])"
| "body_to_dict (Terminal r) = (''Terminal'', dict_of [(''result'', JObj (result_to_dict r))])"

definition envelope_to_dict :: "py_builtins \<Rightarrow> envelope \<Rightarrow> (pystr, json) dict" where
  "envelope_to_dict pb e =
     (case body_to_dict (en_body e) of (body_type, body) \<Rightarrow>
        dict_of [(''session_id'', JStr (en_session_id e)), (''seq'', JInt (en_seq e)),
          (''at'', JStr (pb_isoformat pb (en_at e))), (''schema_version'', JInt (en_schema_version e)),
          (''body_type'', JStr (lit body_type)), (''body'', JObj body)])"

section \<open>From a dictionary\<close>

definition item_from_dict :: "py_builtins \<Rightarrow> (pystr, json) dict \<Rightarrow> item_outcome res" where
  "item_from_dict pb d =
     (case get_default ''detail'' (JObj []) d of
        JObj detail \<Rightarrow>
          bindE (get_item ''item_id'' d) (\<lambda>item_id.
          bindE (get_item ''kind'' d) (\<lambda>kind.
          bindE (get_item ''path'' d) (\<lambda>path.
          bindE (get_item ''outcome'' d) (\<lambda>out.
          bindE (enum_of outcome_value outcomes (py_str pb out)) (\<lambda>oc.
          let i = \<lparr>io_item_id = py_str pb item_id, io_kind = py_str pb kind, io_path = py_str pb path,
                   io_outcome = oc, io_reason = optional_str pb (get_default ''reason'' JNull d),
                   io_detail = detail\<rparr>
          in bindE (item_outcome_post_init i) (\<lambda>_. Inr i))))))
      | _ \<Rightarrow> Inl (TypeError ''item detail must be a mapping''))"

definition item_from_value :: "py_builtins \<Rightarrow> json \<Rightarrow> item_outcome res" where
  "item_from_value pb v =
     (case v of JObj d \<Rightarrow> item_from_dict pb d
      | _ \<Rightarrow> Inl (TypeError ''value has no attribute get''))"

definition error_from_value :: "py_builtins \<Rightarrow> json \<Rightarrow> failure_detail option res" where
  "error_from_value pb v =
     (case v of
        JObj e \<Rightarrow>
          bindE (get_item ''type_name'' e) (\<lambda>ty.
          bindE (get_item ''message'' e) (\<lambda>msg.
          Inr (Some \<lparr>fd_type_name = py_str pb ty, fd_message = py_str pb msg\<rparr>)))
      | _ \<Rightarrow> Inr None)"

definition result_from_dict :: "py_builtins \<Rightarrow> (pystr, json) dict \<Rightarrow> operation_result res" where
  "result_from_dict pb d =
     bindE (error_from_value pb (get_default ''error'' JNull d)) (\<lambda>err.
     case map_of d (lit ''operations'') of
       Some (JList ops) \<Rightarrow>
         bindE (get_item ''status'' d) (\<lambda>v1.
         bindE (enum_of session_state_value session_states (py_str pb v1)) (\<lambda>status.
         bindE (get_item ''recording'' d) (\<lambda>v2.
         bindE (enum_of recording_status_value [REC_OK, REC_DEGRADED] (py_str pb v2)) (\<lambda>recording.
         bindE (get_item ''audit'' d) (\<lambda>v3.
         bindE (enum_of recording_status_value [REC_OK, REC_DEGRADED] (py_str pb v3)) (\<lambda>audit.
         bindE (get_item ''disposition'' d) (\<lambda>v4.
         bindE (enum_of disposition_value [RAN, UNRUN] (py_str pb v4)) (\<lambda>disp.
         bindE (get_item ''canceled'' d) (\<lambda>v5.
         bindE (mapE (item_from_value pb) ops) (\<lambda>items.
         bindE (get_item ''bytes_done'' d) (\<lambda>v6. bindE (py_int pb v6) (\<lambda>done_bytes.
         bindE (get_item ''bytes_total'' d) (\<lambda>v7. bindE (py_int pb v7) (\<lambda>total_bytes.
         let r = \<lparr>or_status = status, or_recording = recording, or_audit = audit,
                  or_disposition = disp, or_canceled = py_bool v5, or_operations = items,
                  or_bytes_done = done_bytes, or_bytes_total = total_bytes, or_error = err\<rparr>
         in bindE (operation_result_post_init r) (\<lambda>_. Inr r)))))))))))))))
     | _ \<Rightarrow> Inl (TypeError ''terminal operations must be a list''))"

definition progress_from_dict :: "py_builtins \<Rightarrow> (pystr, json) dict \<Rightarrow> progress res" where
  "progress_from_dict pb d =
     bindE (get_item ''items_done'' d) (\<lambda>v1. bindE (py_int pb v1) (\<lambda>items_done.
     bindE (get_item ''items_total'' d) (\<lambda>v2. bindE (optional_int pb v2) (\<lambda>items_total.
     bindE (get_item ''bytes_done'' d) (\<lambda>v3. bindE (py_int pb v3) (\<lambda>bytes_done.
     bindE (get_item ''bytes_total'' d) (\<lambda>v4. bindE (optional_int pb v4) (\<lambda>bytes_total.
     bindE (get_item ''current_path'' d) (\<lambda>v5.
     let p = \<lparr>pg_items_done = items_done, pg_items_total = items_total, pg_bytes_done = bytes_done,
              pg_bytes_total = bytes_total, pg_current_path = optional_str pb v5\<rparr>
     in bindE (progress_post_init p) (\<lambda>_. Inr p))))))))))"

definition body_from_dict :: "py_builtins \<Rightarrow> pystr \<Rightarrow> (pystr, json) dict \<Rightarrow> event_body res" where
  "body_from_dict pb body_type raw =
     (if body_type = lit ''StateChanged''
      then bindE (get_item ''state'' raw) (\<lambda>v.
           bindE (enum_of session_state_value session_states (py_str pb v)) (\<lambda>s. Inr (StateChanged s)))
      else if body_type = lit ''PhaseChanged''
      then bindE (get_item ''phase'' raw) (\<lambda>v. Inr (PhaseChanged (py_str pb v)))
      else if body_type = lit ''Progress''
      then bindE (progress_from_dict pb raw) (\<lambda>p. Inr (Progress p))
      else if body_type = lit ''ItemOutcome''
      then bindE (item_from_dict pb raw) (\<lambda>i. Inr (ItemOutcome i))
      else if body_type = lit ''Gap''
      then bindE (get_item ''first_missed_seq'' raw) (\<lambda>v. bindE (py_int pb v) (\<lambda>n.
           bindE (event_body_post_init (Gap n)) (\<lambda>_. Inr (Gap n))))
      else if body_type = lit ''Terminal''
      then bindE (get_item ''result'' raw) (\<lambda>v.
           case v of
             JObj r \<Rightarrow> bindE (result_from_dict pb r) (\<lambda>result. Inr (Terminal result))
           | _ \<Rightarrow> Inl (TypeError ''terminal result must be a mapping''))
      else Inl (ValueError ''unsupported event body type''))"

definition envelope_from_dict :: "py_builtins \<Rightarrow> (pystr, json) dict \<Rightarrow> envelope res" where
  "envelope_from_dict pb d =
     bindE (get_item ''schema_version'' d) (\<lambda>v0. bindE (py_int pb v0) (\<lambda>version.
     bindE (raise_if (version \<noteq> schema_version)
       (ValueError ''unsupported event schema version'')) (\<lambda>_.
     bindE (get_item ''body_type'' d) (\<lambda>v1.
     bindE (get_item ''body'' d) (\<lambda>v2.
     case v2 of
       JObj raw \<Rightarrow>
         bindE (body_from_dict pb (py_str pb v1) raw) (\<lambda>body.
         bindE (get_item ''session_id'' d) (\<lambda>v3.
         bindE (get_item ''seq'' d) (\<lambda>v4. bindE (py_int pb v4) (\<lambda>seq.
         bindE (get_item ''at'' d) (\<lambda>v5.
         case pb_fromisoformat pb (py_str pb v5) of
           None \<Rightarrow> Inl (ValueError ''Invalid isoformat string'')
         | Some at \<Rightarrow>
             let e = \<lparr>en_session_id = py_str pb v3, en_seq = seq, en_at = at,
                      en_schema_version = version, en_body = body\<rparr>
             in bindE (envelope_post_init e) (\<lambda>_. Inr e))))))
     | _ \<Rightarrow> Inl (TypeError ''event body must be a mapping''))))))"

section \<open>Round trip\<close>

named_theorems dict_simps

lemma lit_eq [dict_simps]: "lit a = lit b \<longleftrightarrow> a = b"
  unfolding lit_def by (rule inj_map_eq_map) (rule inj_of_char)

lemma get_item_dict_of [dict_simps]:
  "get_item k (dict_of kvs) = (case map_of kvs k of None \<Rightarrow> Inl KeyError | Some v \<Rightarrow> Inr v)"
proof -
  have "map_of (dict_of kvs) (lit k) = map_of kvs k"
    by (induction kvs) (auto simp: dict_of_def lit_eq)
  then show ?thesis by (simp add: get_item_def)
qed

lemma map_of_dict_of [dict_simps]: "map_of (dict_of kvs) (lit k) = map_of kvs k"
  by (induction kvs) (auto simp: dict_of_def lit_eq)

lemma get_default_dict_of [dict_simps]:
  "get_default k v (dict_of kvs) = (case map_of kvs k of None \<Rightarrow> v | Some v' \<Rightarrow> v')"
  by (simp add: get_default_def map_of_dict_of)

lemma enum_of_values [dict_simps]:
  "enum_of session_state_value session_states (session_state_value s) = Inr s"
  "enum_of outcome_value outcomes (outcome_value oc) = Inr oc"
  by (cases s; simp add: enum_of_def session_states_def lit_eq)
     (cases oc; simp add: enum_of_def outcomes_def lit_eq)

lemma enum_of_flags [dict_simps]:
  "enum_of recording_status_value [REC_OK, REC_DEGRADED] (recording_status_value rs) = Inr rs"
  "enum_of disposition_value [RAN, UNRUN] (disposition_value dp) = Inr dp"
  by (cases rs; simp add: enum_of_def lit_eq) (cases dp; simp add: enum_of_def lit_eq)

lemma optional_int_json [dict_simps]: "optional_int pb (json_opt JInt v) = Inr v"
  by (cases v) (auto simp: optional_int_def json_opt_def)

lemma optional_str_json [dict_simps]: "optional_str pb (json_opt JStr v) = v"
  by (cases v) (auto simp: optional_str_def json_opt_def)

lemma item_round_trip:
  "item_outcome_post_init i = Inr () \<Longrightarrow> item_from_dict pb (item_to_dict i) = Inr i"
  by (cases i) (simp add: item_from_dict_def item_to_dict_def dict_simps Let_def)

lemma items_round_trip:
  "\<forall>i \<in> set items. item_outcome_post_init i = Inr () \<Longrightarrow>
     mapE (item_from_value pb) (map (\<lambda>i. JObj (item_to_dict i)) items) = Inr items"
  by (induction items) (auto simp: item_from_value_def item_round_trip)

lemma progress_round_trip:
  "progress_post_init p = Inr () \<Longrightarrow> progress_from_dict pb (progress_to_dict p) = Inr p"
  by (cases p) (simp add: progress_from_dict_def progress_to_dict_def dict_simps Let_def)

lemma error_round_trip:
  "error_from_value pb (json_opt (\<lambda>e. JObj (dict_of [(''type_name'', JStr (fd_type_name e)),
     (''message'', JStr (fd_message e))])) err) = Inr err"
  by (cases err) (simp_all add: error_from_value_def json_opt_def dict_simps)

lemma result_round_trip:
  assumes "operation_result_post_init r = Inr ()" and "\<forall>i \<in> set (or_operations r). item_outcome_post_init i = Inr ()"
  shows "result_from_dict pb (result_to_dict r) = Inr r"
  using assms
  by (cases r) (simp add: result_from_dict_def result_to_dict_def dict_simps items_round_trip
      error_round_trip Let_def)

definition serializable_body :: "event_body \<Rightarrow> bool" where
  "serializable_body b \<longleftrightarrow> event_body_post_init b = Inr () \<and>
     (case b of Terminal r \<Rightarrow> \<forall>i \<in> set (or_operations r). item_outcome_post_init i = Inr () | _ \<Rightarrow> True)"

lemma body_round_trip:
  assumes "serializable_body b"
  shows "body_from_dict pb (lit (fst (body_to_dict b))) (snd (body_to_dict b)) = Inr b"
proof (cases b)
  case (Terminal r)
  with assms have "result_from_dict pb (result_to_dict r) = Inr r"
    by (intro result_round_trip) (simp_all add: serializable_body_def event_body_post_init_def)
  with Terminal show ?thesis by (simp add: body_from_dict_def dict_simps)
next
  case (Progress p)
  with assms have "progress_from_dict pb (progress_to_dict p) = Inr p"
    by (intro progress_round_trip) (simp add: serializable_body_def event_body_post_init_def)
  with Progress show ?thesis by (simp add: body_from_dict_def dict_simps)
next
  case (ItemOutcome i)
  with assms have "item_from_dict pb (item_to_dict i) = Inr i"
    by (intro item_round_trip) (simp add: serializable_body_def event_body_post_init_def)
  with ItemOutcome show ?thesis by (simp add: body_from_dict_def dict_simps)
next
  case (Gap n)
  with assms show ?thesis
    by (simp add: body_from_dict_def dict_simps serializable_body_def event_body_post_init_def)
qed (simp_all add: body_from_dict_def dict_simps)

lemma item_from_dict_valid: "item_from_dict pb d = Inr i \<Longrightarrow> item_outcome_post_init i = Inr ()"
  by (auto simp: item_from_dict_def bindE_eq_Inr Let_def split: json.splits)

lemma result_from_dict_valid:
  assumes "result_from_dict pb d = Inr r"
  shows "operation_result_post_init r = Inr ()" "\<forall>i \<in> set (or_operations r). item_outcome_post_init i = Inr ()"
proof -
  obtain ops where ops: "map_of d (lit ''operations'') = Some (JList ops)"
  proof (cases "map_of d (lit ''operations'')")
    case None
    then show ?thesis using assms by (simp add: result_from_dict_def bindE_eq_Inr)
  next
    case (Some v)
    then show ?thesis using assms that by (cases v) (simp_all add: result_from_dict_def bindE_eq_Inr)
  qed
  then have m: "mapE (item_from_value pb) ops = Inr (or_operations r)"
    and v: "operation_result_post_init r = Inr ()"
    using assms by (auto simp: result_from_dict_def bindE_eq_Inr Let_def)
  show "operation_result_post_init r = Inr ()" by (rule v)
  have "item_from_value pb x = Inr i \<Longrightarrow> item_outcome_post_init i = Inr ()" for x i
    by (cases x) (auto simp: item_from_value_def dest: item_from_dict_valid)
  then show "\<forall>i \<in> set (or_operations r). item_outcome_post_init i = Inr ()"
    using mapE_member(1) [OF m] by blast
qed

lemma case_JObj_eq_Inr:
  "(case v of JObj r \<Rightarrow> f r | _ \<Rightarrow> Inl err) = Inr x \<longleftrightarrow> (\<exists>r. v = JObj r \<and> f r = Inr x)"
  by (cases v) auto

lemma body_from_dict_valid: "body_from_dict pb ty raw = Inr b \<Longrightarrow> serializable_body b"
proof -
  have p: "progress_from_dict pb raw = Inr p \<Longrightarrow> progress_post_init p = Inr ()" for p
    by (auto simp: progress_from_dict_def bindE_eq_Inr Let_def)
  assume "body_from_dict pb ty raw = Inr b"
  then show "serializable_body b"
    by (auto simp: body_from_dict_def bindE_eq_Inr case_JObj_eq_Inr serializable_body_def
          event_body_post_init_def dest: p item_from_dict_valid result_from_dict_valid split: if_splits)
qed

section \<open>Properties\<close>

text \<open>C32: An envelope survives the conversion to a dictionary and back unchanged, whatever its body,
  terminal results with their items included, given that the interpreter's ISO text of its
  timestamp parses back.\<close>

theorem envelope_dict_round_trip:
  assumes "envelope_post_init e = Inr ()" and "serializable_body (en_body e)"
    and "pb_fromisoformat pb (pb_isoformat pb (en_at e)) = Some (en_at e)"
  shows "envelope_from_dict pb (envelope_to_dict pb e) = Inr e"
proof -
  have v: "en_schema_version e = schema_version"
    using assms(1) by (auto simp: envelope_post_init_def result_simps)
  have e: "\<lparr>en_session_id = en_session_id e, en_seq = en_seq e, en_at = en_at e,
      en_schema_version = schema_version, en_body = en_body e\<rparr> = e"
    using v by (cases e) simp
  show ?thesis
    using body_round_trip [OF assms(2), of pb] assms(1,3)
    by (simp add: envelope_from_dict_def envelope_to_dict_def split_def dict_simps v e Let_def)
qed

definition sample_builtins :: py_builtins where
  "sample_builtins = \<lparr>pb_repr = (\<lambda>_. []), pb_parse_int = (\<lambda>_. None),
     pb_isoformat = (\<lambda>t. [nat (dt_micros t)]),
     pb_fromisoformat = (\<lambda>s. Some \<lparr>dt_micros = int (hd s), dt_utcoffset = Some 0\<rparr>)\<rparr>"

definition sample_envelope :: envelope where
  "sample_envelope = \<lparr>en_session_id = lit ''s'', en_seq = 1,
     en_at = \<lparr>dt_micros = 5, dt_utcoffset = Some 0\<rparr>, en_schema_version = 2,
     en_body = ItemOutcome sample_item\<rparr>"

theorem envelope_dict_round_trip_witness:
  "envelope_from_dict sample_builtins (envelope_to_dict sample_builtins sample_envelope) = Inr sample_envelope"
  by (rule envelope_dict_round_trip)
     (simp_all add: envelope_post_init_def sample_envelope_def sample_builtins_def serializable_body_def
        event_body_post_init_def item_outcome_post_init_def sample_item_def require_utc_def schema_version_def lit_def)



end
