(* ===== verification/Event_Bus.thy ===== *)
theory Event_Bus
  imports Events Complex_Main
begin

text \<open>
  Per-session sequencing, replay, subscription and audit delivery (\<^verbatim>\<open>dispatcher/event_bus.py\<close>). Every
  method body that runs under a lock is one function. Streams are objects shared by the hub and
  their consumers, so the hub's store holds them by address and the list of subscribers holds
  addresses. A \<^verbatim>\<open>put\<close> that blocks until there is room is the put of a later moment; a put that times
  out is one that finds the queue full.
\<close>

section \<open>EventStream\<close>

record event_stream =
  sm_session_id :: session_id
  sm_current_state :: session_state
  sm_capacity :: int
  sm_items :: "envelope list"
  sm_closed :: bool
  sm_ejected :: bool

definition event_stream_init ::
    "session_id \<Rightarrow> int \<Rightarrow> session_state \<Rightarrow> envelope list \<Rightarrow> event_stream res" where
  "event_stream_init sid capacity state initial =
     bindE (raise_if (capacity < 1) (ValueError ''subscriber capacity must be positive'')) (\<lambda>_.
     Inr \<lparr>sm_session_id = sid, sm_current_state = state, sm_capacity = capacity, sm_items = initial,
          sm_closed = False, sm_ejected = False\<rparr>)"

fun is_progress :: "event_body \<Rightarrow> bool" where
  "is_progress (Progress _) = True"
| "is_progress _ = False"

fun remove_first :: "('a \<Rightarrow> bool) \<Rightarrow> 'a list \<Rightarrow> 'a list" where
  "remove_first P [] = []"
| "remove_first P (x # xs) = (if P x then xs else x # remove_first P xs)"

text \<open>The scan from the right that deletes the newest pending \<^verbatim>\<open>Progress\<close>.\<close>

definition drop_progress :: "envelope list \<Rightarrow> envelope list" where
  "drop_progress items = rev (remove_first (\<lambda>e. is_progress (en_body e)) (rev items))"

definition pending_seq :: "envelope \<Rightarrow> int" where
  "pending_seq e = (case en_body e of Gap n \<Rightarrow> n | _ \<Rightarrow> en_seq e)"

definition gap_envelope :: "envelope \<Rightarrow> int \<Rightarrow> envelope" where
  "gap_envelope e n = e\<lparr>en_body := Gap n\<rparr>"

definition stream_offer :: "envelope \<Rightarrow> event_stream \<Rightarrow> event_stream" where
  "stream_offer e s =
     (if sm_closed s then s
      else if delivery_class (en_body e) = LOSSY
      then (let items = drop_progress (sm_items s)
            in if int (length items) \<ge> sm_capacity s then s\<lparr>sm_items := items\<rparr>
               else s\<lparr>sm_items := items @ [e]\<rparr>)
      else if int (length (sm_items s)) \<ge> sm_capacity s
      then s\<lparr>sm_items := [gap_envelope e (foldl min (en_seq e) (map pending_seq (sm_items s)))],
             sm_ejected := True, sm_closed := True\<rparr>
      else (let s' = s\<lparr>sm_items := sm_items s @ [e]\<rparr>
            in case en_body e of
                 StateChanged st \<Rightarrow> s'\<lparr>sm_current_state := st\<rparr>
               | _ \<Rightarrow> s'))"

text \<open>
  One look of \<^verbatim>\<open>next\<close> at the stream: an item, the end of the stream, or nothing yet, in which case the
  call waits for a notification or times out.
\<close>

datatype next_result = NextItem envelope | StopIteration | NotReady

definition stream_next :: "event_stream \<Rightarrow> next_result \<times> event_stream" where
  "stream_next s =
     (case sm_items s of
        e # rest \<Rightarrow> (NextItem e, s\<lparr>sm_items := rest\<rparr>)
      | [] \<Rightarrow> (if sm_closed s then StopIteration else NotReady, s))"

definition stream_close :: "event_stream \<Rightarrow> event_stream" where
  "stream_close s = s\<lparr>sm_closed := True\<rparr>"

section \<open>The audit pump\<close>

datatype audit_command = AuditEvent envelope | AuditFinalize operation_result | AuditStop

text \<open>The calls the pump makes to the observer.\<close>

datatype audit_call = OnEvent envelope | Finalize operation_result | CloseObserver

text \<open>
  An observer answers a call from the calls it has seen: \<open>True\<close> where it raises.
\<close>

type_synonym audit_observer = "audit_call list \<Rightarrow> audit_call \<Rightarrow> bool"

record audit_pump =
  ap_capacity :: int
  ap_queue :: "audit_command list"
  ap_degraded :: bool
  ap_closed :: bool
  ap_calls :: "audit_call list"

definition audit_pump_init :: "int \<Rightarrow> audit_pump res" where
  "audit_pump_init capacity =
     bindE (raise_if (capacity < 1) (ValueError ''audit capacity must be positive'')) (\<lambda>_.
     Inr \<lparr>ap_capacity = capacity, ap_queue = [], ap_degraded = False, ap_closed = False, ap_calls = []\<rparr>)"

definition pump_full :: "audit_pump \<Rightarrow> bool" where
  "pump_full p \<longleftrightarrow> int (length (ap_queue p)) \<ge> ap_capacity p"

definition pump_put :: "audit_command \<Rightarrow> audit_pump \<Rightarrow> audit_pump" where
  "pump_put c p =
     (if pump_full p then p\<lparr>ap_degraded := True\<rparr> else p\<lparr>ap_queue := ap_queue p @ [c]\<rparr>)"

definition pump_offer :: "envelope \<Rightarrow> audit_pump \<Rightarrow> audit_pump" where
  "pump_offer e p = (if ap_degraded p then p else pump_put (AuditEvent e) p)"

text \<open>A call to the observer, with whether it raised.\<close>

definition observer_call :: "audit_observer \<Rightarrow> audit_call \<Rightarrow> audit_pump \<Rightarrow> bool \<times> audit_pump" where
  "observer_call obs c p = (obs (ap_calls p) c, p\<lparr>ap_calls := ap_calls p @ [c]\<rparr>)"

text \<open>
  One iteration of the pump thread: the command it takes, and whether the thread goes on. The
  boolean of a finalisation is \<^verbatim>\<open>command.succeeded\<close>.
\<close>

datatype pump_status = PumpIdle | PumpRunning | PumpFinalized bool | PumpStopped

definition pump_step :: "audit_observer \<Rightarrow> audit_pump \<Rightarrow> pump_status \<times> audit_pump" where
  "pump_step obs p =
     (case ap_queue p of
        [] \<Rightarrow> (PumpIdle, p)
      | c # rest \<Rightarrow>
        (let p0 = p\<lparr>ap_queue := rest\<rparr>
         in case c of
              AuditStop \<Rightarrow>
                (case observer_call obs CloseObserver p0 of (failed, p1) \<Rightarrow>
                   (PumpStopped, p1\<lparr>ap_degraded := ap_degraded p1 \<or> failed, ap_closed := True\<rparr>))
            | AuditFinalize r \<Rightarrow>
                (if ap_degraded p0 then (PumpFinalized False, p0\<lparr>ap_closed := True\<rparr>)
                 else
                   (case observer_call obs (Finalize r) p0 of (failed, p1) \<Rightarrow>
                      if failed then (PumpFinalized False, p1\<lparr>ap_degraded := True, ap_closed := True\<rparr>)
                      else
                        (case observer_call obs CloseObserver p1 of (failed', p2) \<Rightarrow>
                           (PumpFinalized (\<not> failed'),
                            p2\<lparr>ap_degraded := failed', ap_closed := True\<rparr>))))
            | AuditEvent e \<Rightarrow>
                (if ap_degraded p0 then (PumpRunning, p0)
                 else
                   (case observer_call obs (OnEvent e) p0 of (failed, p1) \<Rightarrow>
                      (PumpRunning, p1\<lparr>ap_degraded := failed\<rparr>)))))"

text \<open>The pump thread until it finalises, stops or has nothing to do.\<close>

fun pump_drain :: "nat \<Rightarrow> audit_observer \<Rightarrow> audit_pump \<Rightarrow> pump_status \<times> audit_pump" where
  "pump_drain 0 obs p = (PumpIdle, p)"
| "pump_drain (Suc n) obs p =
     (case pump_step obs p of
        (PumpRunning, p') \<Rightarrow> pump_drain n obs p'
      | (st, p') \<Rightarrow> (st, p'))"

text \<open>
  \<^verbatim>\<open>finalize\<close>: \<open>in_time\<close> says whether the pump completed the command before the deadline. It drains
  the commands before it, so as many iterations as the queue is long are enough.
\<close>

definition pump_finalize ::
    "audit_observer \<Rightarrow> bool \<Rightarrow> operation_result \<Rightarrow> audit_pump \<Rightarrow> recording_status \<times> audit_pump" where
  "pump_finalize obs in_time r p =
     (if ap_degraded p
      then (REC_DEGRADED, if pump_full p then p else p\<lparr>ap_queue := ap_queue p @ [AuditStop]\<rparr>)
      else if pump_full p then (REC_DEGRADED, p\<lparr>ap_degraded := True\<rparr>)
      else
        (let p1 = p\<lparr>ap_queue := ap_queue p @ [AuditFinalize r]\<rparr>
         in if \<not> in_time then (REC_DEGRADED, p1\<lparr>ap_degraded := True\<rparr>)
            else
              (case pump_drain (length (ap_queue p1)) obs p1 of
                 (PumpFinalized succeeded, p2) \<Rightarrow>
                   (if succeeded \<and> \<not> ap_degraded p2 then REC_OK else REC_DEGRADED, p2)
               | (_, p2) \<Rightarrow> (REC_DEGRADED, p2\<lparr>ap_degraded := True\<rparr>))))"

text \<open>\<open>joined\<close> says whether the pump thread ended before the deadline.\<close>

definition pump_close :: "bool \<Rightarrow> audit_pump \<Rightarrow> bool \<times> audit_pump" where
  "pump_close joined p =
     (if ap_closed p then (True, p)
      else if pump_full p then (False, p\<lparr>ap_degraded := True\<rparr>)
      else (joined, p\<lparr>ap_queue := ap_queue p @ [AuditStop]\<rparr>))"

section \<open>EventHub\<close>

record event_hub =
  eh_session_id :: session_id
  eh_state :: session_state
  eh_replay_capacity :: nat
  eh_subscriber_capacity :: int
  eh_replay :: "envelope list"
  eh_streams :: "event_stream list"
  eh_subscribers :: "nat list"
  eh_seq :: int
  eh_audit :: audit_pump

definition event_hub_init ::
    "session_id \<Rightarrow> session_state \<Rightarrow> int \<Rightarrow> int \<Rightarrow> int \<Rightarrow> rat \<Rightarrow> event_hub res" where
  "event_hub_init sid state replay_capacity subscriber_capacity audit_capacity audit_timeout =
     bindE (raise_if (replay_capacity < 1) (ValueError ''replay capacity must be positive'')) (\<lambda>_.
     bindE (raise_if (subscriber_capacity < 1) (ValueError ''subscriber capacity must be positive'')) (\<lambda>_.
     bindE (raise_if (audit_timeout \<le> 0) (ValueError ''audit timeout must be positive'')) (\<lambda>_.
     bindE (audit_pump_init audit_capacity) (\<lambda>pump.
     Inr \<lparr>eh_session_id = sid, eh_state = state, eh_replay_capacity = nat replay_capacity,
          eh_subscriber_capacity = subscriber_capacity, eh_replay = [], eh_streams = [],
          eh_subscribers = [], eh_seq = 0, eh_audit = pump\<rparr>))))"

text \<open>\<^verbatim>\<open>deque(maxlen=n).append\<close>: the oldest element makes room.\<close>

definition bounded_append :: "nat \<Rightarrow> 'a list \<Rightarrow> 'a \<Rightarrow> 'a list" where
  "bounded_append n xs x = (let ys = xs @ [x] in drop (length ys - n) ys)"

definition update_stream :: "nat \<Rightarrow> (event_stream \<Rightarrow> event_stream) \<Rightarrow> event_hub \<Rightarrow> event_hub" where
  "update_stream a f h =
     (if a < length (eh_streams h) then h\<lparr>eh_streams := (eh_streams h)[a := f (eh_streams h ! a)]\<rparr> else h)"

definition record_replay :: "envelope \<Rightarrow> event_hub \<Rightarrow> event_hub" where
  "record_replay e h =
     (let replay = (if is_progress (en_body e) then drop_progress (eh_replay h) else eh_replay h)
      in h\<lparr>eh_replay := bounded_append (eh_replay_capacity h) replay e\<rparr>)"

definition audit_delivery :: "envelope \<Rightarrow> event_hub \<Rightarrow> event_hub" where
  "audit_delivery e h =
     (if delivery_class (en_body e) = RELIABLE \<and> (case en_body e of Terminal _ \<Rightarrow> False | _ \<Rightarrow> True)
      then h\<lparr>eh_audit := pump_offer e (eh_audit h)\<rparr> else h)"

definition fan_out :: "envelope \<Rightarrow> event_hub \<Rightarrow> event_hub" where
  "fan_out e h =
     (let h' = foldl (\<lambda>h a. update_stream a (stream_offer e) h) h (eh_subscribers h)
      in h'\<lparr>eh_subscribers := filter (\<lambda>a. \<not> sm_ejected (eh_streams h' ! a)) (eh_subscribers h)\<rparr>)"

text \<open>
  \<^verbatim>\<open>emit\<close>: the sequence number is taken before the envelope is built, so a clock that is not UTC
  raises with the number spent.
\<close>

definition hub_emit :: "datetime \<Rightarrow> event_body \<Rightarrow> event_hub \<Rightarrow> envelope res \<times> event_hub" where
  "hub_emit now body h =
     (let h1 = h\<lparr>eh_seq := eh_seq h + 1\<rparr>;
          e = \<lparr>en_session_id = eh_session_id h, en_seq = eh_seq h1, en_at = now,
               en_schema_version = schema_version, en_body = body\<rparr>
      in case envelope_post_init e of
           Inl err \<Rightarrow> (Inl err, h1)
         | Inr _ \<Rightarrow>
           (let h2 = (case body of StateChanged st \<Rightarrow> h1\<lparr>eh_state := st\<rparr> | _ \<Rightarrow> h1)
            in (Inr e, fan_out e (audit_delivery e (record_replay e h2)))))"

definition hub_subscribe :: "datetime \<Rightarrow> int option \<Rightarrow> event_hub \<Rightarrow> nat res \<times> event_hub" where
  "hub_subscribe now from_seq h =
     (let requested = (case from_seq of None \<Rightarrow> 1 | Some n \<Rightarrow> n)
      in if requested < 1 then (Inl (ValueError ''from_seq must be positive''), h)
         else
           (let selected = filter (\<lambda>e. en_seq e \<ge> requested) (eh_replay h);
                gap_needed = (eh_seq h \<ge> requested \<and> (selected = [] \<or> en_seq (hd selected) > requested));
                allowance = nat (eh_subscriber_capacity h - (if gap_needed then 1 else 0));
                overflow = (length selected > allowance);
                selected' = (if overflow then drop (length selected - allowance) selected else selected);
                gap = \<lparr>en_session_id = eh_session_id h, en_seq = requested, en_at = now,
                       en_schema_version = schema_version, en_body = Gap requested\<rparr>;
                initial = (if gap_needed \<or> overflow then [gap] else []) @ selected'
            in case (if gap_needed \<or> overflow then envelope_post_init gap else Inr ()) of
                 Inl err \<Rightarrow> (Inl err, h)
               | Inr _ \<Rightarrow>
                 (case event_stream_init (eh_session_id h) (eh_subscriber_capacity h) (eh_state h) initial of
                    Inl err \<Rightarrow> (Inl err, h)
                  | Inr stream \<Rightarrow>
                      (Inr (length (eh_streams h)),
                       h\<lparr>eh_streams := eh_streams h @ [stream],
                         eh_subscribers := eh_subscribers h @ [length (eh_streams h)]\<rparr>))))"

definition hub_finalize_audit ::
    "audit_observer \<Rightarrow> bool \<Rightarrow> operation_result \<Rightarrow> event_hub \<Rightarrow> recording_status \<times> event_hub" where
  "hub_finalize_audit obs in_time r h =
     (case pump_finalize obs in_time r (eh_audit h) of (st, p) \<Rightarrow> (st, h\<lparr>eh_audit := p\<rparr>))"

definition hub_close :: "bool \<Rightarrow> event_hub \<Rightarrow> bool \<times> event_hub" where
  "hub_close joined h =
     (let h1 = foldl (\<lambda>h a. update_stream a stream_close h) (h\<lparr>eh_subscribers := []\<rparr>) (eh_subscribers h)
      in case pump_close joined (eh_audit h1) of (stopped, p) \<Rightarrow> (stopped, h1\<lparr>eh_audit := p\<rparr>))"

end
