(* ===== verification/Event_Bus_Lemmas.thy ===== *)
theory Event_Bus_Lemmas
  imports Event_Bus "HOL-Library.Sublist"
begin

text \<open>
  What subscribers and the audit observer are promised: no reliable event is lost silently, the
  replay is a suffix of the compressed history, sequence numbers have no gap, and an audit that is
  reported complete has seen every reliable event.
\<close>

section \<open>A stream and its consumer\<close>

definition reliable :: "envelope \<Rightarrow> bool" where
  "reliable e \<longleftrightarrow> delivery_class (en_body e) = RELIABLE"

lemma reliable_iff: "reliable e \<longleftrightarrow> \<not> is_progress (en_body e)"
  by (cases "en_body e") (auto simp: reliable_def)

text \<open>The stream with what it was created with, what it was offered and what was taken from it.\<close>

record stream_run =
  sx_initial :: "envelope list"
  sx_offered :: "envelope list"
  sx_consumed :: "envelope list"
  sx_stream :: event_stream

definition stream_start :: "stream_run \<Rightarrow> bool" where
  "stream_start r \<longleftrightarrow> sx_offered r = [] \<and> sx_consumed r = [] \<and>
     sm_items (sx_stream r) = sx_initial r \<and> 1 \<le> sm_capacity (sx_stream r) \<and> \<not> sm_closed (sx_stream r) \<and> \<not> sm_ejected (sx_stream r)"

inductive stream_step :: "stream_run \<Rightarrow> stream_run \<Rightarrow> bool" where
  offer: "\<lbrakk>\<forall>x \<in> set (sx_offered r). en_seq x < en_seq e; \<forall>n. en_body e \<noteq> Gap n\<rbrakk> \<Longrightarrow>
     stream_step r (r\<lparr>sx_offered := sx_offered r @ [e], sx_stream := stream_offer e (sx_stream r)\<rparr>)"
| consume: "stream_next (sx_stream r) = (NextItem e, s) \<Longrightarrow>
     stream_step r (r\<lparr>sx_consumed := sx_consumed r @ [e], sx_stream := s\<rparr>)"
| close: "stream_step r (r\<lparr>sx_stream := stream_close (sx_stream r)\<rparr>)"

inductive_cases stream_stepE: "stream_step r r'"

interpretation stream: transition_system stream_start stream_step .

definition owed :: "stream_run \<Rightarrow> envelope list" where
  "owed r = filter reliable (sx_initial r @ sx_offered r)"

definition received :: "stream_run \<Rightarrow> envelope list" where
  "received r = filter reliable (sx_consumed r @ sm_items (sx_stream r))"

definition gap_reported :: "stream_run \<Rightarrow> bool" where
  "gap_reported r \<longleftrightarrow> (\<exists>before gap g e.
     sx_consumed r @ sm_items (sx_stream r) = before @ [gap] \<and> en_body gap = Gap g \<and>
     prefix (filter reliable before) (owed r) \<and>
     e \<in> set (sx_offered r) \<and> g \<le> en_seq e \<and>
     (\<forall>x \<in> set (drop (length (filter reliable before)) (owed r)). g \<le> pending_seq x))"

definition stream_inv :: "stream_run \<Rightarrow> bool" where
  "stream_inv r \<longleftrightarrow> 1 \<le> sm_capacity (sx_stream r) \<and>
     (sm_ejected (sx_stream r) \<longrightarrow> sm_closed (sx_stream r) \<and> gap_reported r) \<and>
     (\<not> sm_ejected (sx_stream r) \<longrightarrow> prefix (received r) (owed r)) \<and>
     (\<not> sm_closed (sx_stream r) \<longrightarrow> received r = owed r) \<and>
     int (length (sm_items (sx_stream r))) \<le> max (sm_capacity (sx_stream r)) (int (length (sx_initial r)))"

lemma filter_remove_first: "(\<And>x. P x \<Longrightarrow> \<not> Q x) \<Longrightarrow> filter Q (remove_first P xs) = filter Q xs"
  by (induction xs) auto

lemma length_remove_first: "length (remove_first P xs) \<le> length xs"
  by (induction xs) auto

lemma filter_drop_progress [simp]: "filter reliable (drop_progress items) = filter reliable items"
  by (simp add: drop_progress_def filter_remove_first reliable_iff rev_filter [symmetric])

lemma length_drop_progress: "length (drop_progress items) \<le> length items"
  using length_remove_first [of _ "rev items"] by (simp add: drop_progress_def)

lemma foldl_min_le: "foldl min (a::int) xs \<le> a" "x \<in> set xs \<Longrightarrow> foldl min a xs \<le> x"
proof -
  have le: "foldl min (a::int) xs \<le> a" for a xs
  proof (induction xs arbitrary: a)
    case (Cons x xs)
    show ?case using Cons [of "min a x"] by simp
  qed simp
  show "foldl min a xs \<le> a" by (rule le)
  show "x \<in> set xs \<Longrightarrow> foldl min a xs \<le> x"
  proof (induction xs arbitrary: a)
    case (Cons y ys)
    then show ?case using le [of "min a y" ys] by auto
  qed simp
qed

lemma pending_seq_offered: "\<forall>n. en_body e \<noteq> Gap n \<Longrightarrow> pending_seq e = en_seq e"
  by (cases "en_body e") (auto simp: pending_seq_def)

lemma stream_offer_closed: "sm_closed s \<Longrightarrow> stream_offer e s = s"
  by (simp add: stream_offer_def)

lemma gap_reported_offer:
  assumes "gap_reported r" and "\<forall>x \<in> set (sx_offered r). en_seq x < en_seq e" and "\<forall>n. en_body e \<noteq> Gap n"
  shows "gap_reported (r\<lparr>sx_offered := sx_offered r @ [e]\<rparr>)"
proof -
  obtain before gap g x where gap:
    "sx_consumed r @ sm_items (sx_stream r) = before @ [gap]" "en_body gap = Gap g"
    "prefix (filter reliable before) (owed r)" "x \<in> set (sx_offered r)" "g \<le> en_seq x"
    "\<forall>x \<in> set (drop (length (filter reliable before)) (owed r)). g \<le> pending_seq x"
    using assms(1) unfolding gap_reported_def by blast
  have "g \<le> pending_seq e"
    using gap(4,5) assms(2) pending_seq_offered [OF assms(3)] by force
  moreover have "owed (r\<lparr>sx_offered := sx_offered r @ [e]\<rparr>) = owed r @ filter reliable [e]"
    by (simp add: owed_def)
  moreover have "length (filter reliable before) \<le> length (owed r)"
    using gap(3) by (simp add: prefix_length_le)
  ultimately have "\<forall>x \<in> set (drop (length (filter reliable before))
        (owed (r\<lparr>sx_offered := sx_offered r @ [e]\<rparr>))). g \<le> pending_seq x"
    using gap(6) by auto
  moreover have "prefix (filter reliable before) (owed (r\<lparr>sx_offered := sx_offered r @ [e]\<rparr>))"
    using gap(3) by (simp add: owed_def prefix_def) (metis append.assoc)
  ultimately show ?thesis
    unfolding gap_reported_def using gap(1,2,4,5)
    by (intro exI [of _ before] exI [of _ gap] exI [of _ g] exI [of _ x]) simp
qed


lemma stream_inv_eject:
  assumes inv: "stream_inv r" and open_stream: "\<not> sm_closed (sx_stream r)" and rel: "reliable e"
    and offer: "\<forall>n. en_body e \<noteq> Gap n"
    and s': "sm_items s' = [gap_envelope e (foldl min (en_seq e) (map pending_seq (sm_items (sx_stream r))))]"
  shows "gap_reported (r\<lparr>sx_offered := sx_offered r @ [e], sx_stream := s'\<rparr>)"
proof -
  let ?r = "r\<lparr>sx_offered := sx_offered r @ [e], sx_stream := s'\<rparr>"
  let ?items = "sm_items (sx_stream r)"
  let ?g = "foldl min (en_seq e) (map pending_seq ?items)"
  have eq: "filter reliable (sx_consumed r) @ filter reliable ?items = owed r"
    using inv open_stream by (simp add: stream_inv_def received_def)
  then have owed: "owed ?r = filter reliable (sx_consumed r) @ filter reliable ?items @ [e]"
    using rel by (simp add: owed_def)
  have "?g \<le> pending_seq x" if "x \<in> set (filter reliable ?items @ [e])" for x
    using that foldl_min_le(1) [of "en_seq e"] foldl_min_le(2) [of _ "map pending_seq ?items" "en_seq e"]
      pending_seq_offered [OF offer] by auto
  then have "\<forall>x \<in> set (drop (length (filter reliable (sx_consumed r))) (owed ?r)). ?g \<le> pending_seq x"
    unfolding owed by (simp only: append_eq_conv_conj drop_append) auto
  moreover have "prefix (filter reliable (sx_consumed r)) (owed ?r)"
    unfolding owed by simp
  moreover have "?g \<le> en_seq e" by (rule foldl_min_le)
  ultimately show ?thesis
    unfolding gap_reported_def
    by (intro exI [of _ "sx_consumed r"] exI [of _ "gap_envelope e ?g"] exI [of _ ?g] exI [of _ e])
       (simp add: s' gap_envelope_def)
qed

lemma stream_inv_offer:
  assumes inv: "stream_inv r" and fresh: "\<forall>x \<in> set (sx_offered r). en_seq x < en_seq e"
    and body: "\<forall>n. en_body e \<noteq> Gap n"
  shows "stream_inv (r\<lparr>sx_offered := sx_offered r @ [e], sx_stream := stream_offer e (sx_stream r)\<rparr>)"
    (is "stream_inv ?r")
proof (cases "sm_closed (sx_stream r)")
  case True
  then have "stream_offer e (sx_stream r) = sx_stream r" by (rule stream_offer_closed)
  moreover have "gap_reported (r\<lparr>sx_offered := sx_offered r @ [e]\<rparr>)" if "sm_ejected (sx_stream r)"
    using inv that gap_reported_offer fresh body by (simp add: stream_inv_def)
  moreover have "owed (r\<lparr>sx_offered := sx_offered r @ [e]\<rparr>) = owed r @ filter reliable [e]"
    "received (r\<lparr>sx_offered := sx_offered r @ [e]\<rparr>) = received r"
    by (simp_all add: owed_def received_def)
  ultimately show ?thesis
    using inv True by (auto simp: stream_inv_def)
next
  case False
  have ej: "\<not> sm_ejected (sx_stream r)" and eq: "received r = owed r"
    using inv False by (auto simp: stream_inv_def)
  have ow: "owed ?r = owed r @ filter reliable [e]" by (simp add: owed_def)
  have cap: "1 \<le> sm_capacity (sx_stream r)"
    and bound: "int (length (sm_items (sx_stream r))) \<le> max (sm_capacity (sx_stream r)) (int (length (sx_initial r)))"
    using inv by (simp_all add: stream_inv_def)
  show ?thesis
  proof (cases "reliable e")
    case lossy: False
    have items: "sm_items (stream_offer e (sx_stream r)) = drop_progress (sm_items (sx_stream r)) @
        (if int (length (drop_progress (sm_items (sx_stream r)))) \<ge> sm_capacity (sx_stream r) then [] else [e])"
      and flags: "sm_closed (stream_offer e (sx_stream r)) = False"
        "sm_ejected (stream_offer e (sx_stream r)) = False"
        "sm_capacity (stream_offer e (sx_stream r)) = sm_capacity (sx_stream r)"
      using False lossy ej
      by (auto simp: stream_offer_def reliable_def Let_def intro: delivery.exhaust)
    have "received ?r = owed ?r"
      unfolding ow using eq lossy by (simp add: received_def items)
    moreover have "int (length (sm_items (stream_offer e (sx_stream r))))
        \<le> max (sm_capacity (sx_stream r)) (int (length (sx_initial r)))"
      using bound length_drop_progress [of "sm_items (sx_stream r)"] unfolding items by auto
    ultimately show ?thesis using flags cap by (simp add: stream_inv_def)
  next
    case rel: True
    then have r: "delivery_class (en_body e) = RELIABLE" by (simp add: reliable_def)
    show ?thesis
    proof (cases "int (length (sm_items (sx_stream r))) \<ge> sm_capacity (sx_stream r)")
      case full: True
      have s': "stream_offer e (sx_stream r) = (sx_stream r)\<lparr>sm_items := [gap_envelope e
          (foldl min (en_seq e) (map pending_seq (sm_items (sx_stream r))))], sm_ejected := True, sm_closed := True\<rparr>"
        using False r full by (simp add: stream_offer_def)
      have "gap_reported ?r"
        by (rule stream_inv_eject [OF inv False rel body]) (simp add: s')
      then show ?thesis using cap by (auto simp: stream_inv_def s')
    next
      case room: False
      have items: "sm_items (stream_offer e (sx_stream r)) = sm_items (sx_stream r) @ [e]"
        and flags: "sm_closed (stream_offer e (sx_stream r)) = False"
          "sm_ejected (stream_offer e (sx_stream r)) = False"
          "sm_capacity (stream_offer e (sx_stream r)) = sm_capacity (sx_stream r)"
        using False r room ej by (auto simp: stream_offer_def Let_def split: event_body.splits)
      have "received ?r = owed ?r"
        unfolding ow using eq rel by (simp add: received_def items)
      moreover have "int (length (sm_items (stream_offer e (sx_stream r))))
          \<le> max (sm_capacity (sx_stream r)) (int (length (sx_initial r)))"
        using room unfolding items by simp
      ultimately show ?thesis using flags cap by (simp add: stream_inv_def)
    qed
  qed
qed

lemma stream_inv_step: "stream_inv r \<Longrightarrow> stream_step r r' \<Longrightarrow> stream_inv r'"
proof (erule stream_stepE, goal_cases)
  case (1 e)
  then show ?case using stream_inv_offer by blast
next
  case (2 e s)
  then obtain rest where items: "sm_items (sx_stream r) = e # rest" and s: "s = (sx_stream r)\<lparr>sm_items := rest\<rparr>"
    by (auto simp: stream_next_def split: list.splits if_splits)
  have "received r' = received r" "owed r' = owed r"
    using 2 items s by (simp_all add: received_def owed_def)
  moreover have "gap_reported r' = gap_reported r"
    using 2 items s calculation(2) by (simp add: gap_reported_def)
  ultimately show ?case using 2 items s by (auto simp: stream_inv_def)
next
  case 3
  then have "received r' = received r" "owed r' = owed r" "gap_reported r' = gap_reported r"
    by (simp_all add: received_def owed_def gap_reported_def stream_close_def)
  with 3 show ?case by (auto simp: stream_inv_def stream_close_def)
qed

lemma stream_inv_start: "stream_start r \<Longrightarrow> stream_inv r"
  by (auto simp: stream_inv_def stream_start_def received_def owed_def)

lemma stream_inv_reachable: "stream.reachable r \<Longrightarrow> stream_inv r"
  by (erule stream.invariant) (auto intro: stream_inv_start stream_inv_step)

section \<open>The hub's sequencer and replay\<close>

text \<open>
  A hub with every event it has published and, for each stream, the sequence number it was asked to
  start from, how much had been published then, what it was created with and what was taken from
  it. Publishers send no \<^verbatim>\<open>Gap\<close>: only the bus makes them.
\<close>

record hub_run =
  hr_history :: "envelope list"
  hr_requested :: "nat \<Rightarrow> int"
  hr_offset :: "nat \<Rightarrow> nat"
  hr_initial :: "nat \<Rightarrow> envelope list"
  hr_consumed :: "nat \<Rightarrow> envelope list"
  hr_hub :: event_hub

definition hub_start :: "hub_run \<Rightarrow> bool" where
  "hub_start r \<longleftrightarrow> hr_history r = [] \<and>
     (\<exists>sid st rc sc ac tm. event_hub_init sid st rc sc ac tm = Inr (hr_hub r))"

inductive hub_step :: "hub_run \<Rightarrow> hub_run \<Rightarrow> bool" where
  emit: "\<lbrakk>hub_emit now body (hr_hub r) = (Inr e, h); \<forall>n. body \<noteq> Gap n\<rbrakk> \<Longrightarrow>
     hub_step r (r\<lparr>hr_history := hr_history r @ [e], hr_hub := h\<rparr>)"
| emit_fails: "hub_emit now body (hr_hub r) = (Inl err, h) \<Longrightarrow> hub_step r (r\<lparr>hr_hub := h\<rparr>)"
| subscribe: "hub_subscribe now from_seq (hr_hub r) = (Inr a, h) \<Longrightarrow>
     hub_step r (r\<lparr>hr_requested := (hr_requested r)(a := case from_seq of None \<Rightarrow> 1 | Some n \<Rightarrow> n),
       hr_offset := (hr_offset r)(a := length (hr_history r)),
       hr_initial := (hr_initial r)(a := sm_items (eh_streams h ! a)),
       hr_consumed := (hr_consumed r)(a := []), hr_hub := h\<rparr>)"
| consume: "\<lbrakk>a < length (eh_streams (hr_hub r)); stream_next (eh_streams (hr_hub r) ! a) = (NextItem e, s)\<rbrakk> \<Longrightarrow>
     hub_step r (r\<lparr>hr_consumed := (hr_consumed r)(a := hr_consumed r a @ [e]),
       hr_hub := update_stream a (\<lambda>_. s) (hr_hub r)\<rparr>)"
| leave: "hub_step r (r\<lparr>hr_hub := update_stream a stream_close (hr_hub r)\<rparr>)"
| pump: "pump_step obs (eh_audit (hr_hub r)) = (status, p) \<Longrightarrow>
     hub_step r (r\<lparr>hr_hub := (hr_hub r)\<lparr>eh_audit := p\<rparr>\<rparr>)"
| finalize: "hub_finalize_audit obs in_time res (hr_hub r) = (rec, h) \<Longrightarrow> hub_step r (r\<lparr>hr_hub := h\<rparr>)"
| close: "hub_close joined (hr_hub r) = (stopped, h) \<Longrightarrow> hub_step r (r\<lparr>hr_hub := h\<rparr>)"

inductive_cases hub_stepE: "hub_step r r'"

interpretation hub: transition_system hub_start hub_step .

text \<open>The history with every \<^verbatim>\<open>Progress\<close> but the newest left out: what an unbounded replay holds.\<close>

definition compress_step :: "envelope list \<Rightarrow> envelope \<Rightarrow> envelope list" where
  "compress_step acc e = (if is_progress (en_body e) then drop_progress acc else acc) @ [e]"

definition compress :: "envelope list \<Rightarrow> envelope list" where
  "compress history = foldl compress_step [] history"

lemma compress_snoc [simp]: "compress (history @ [e]) = compress_step (compress history) e"
  and compress_Nil [simp]: "compress [] = []"
  by (simp_all add: compress_def)

lemma filter_compress [simp]: "filter reliable (compress history) = filter reliable history"
  by (induction history rule: rev_induct) (simp_all add: compress_step_def)

lemma subseq_remove_first: "subseq (remove_first P xs) xs"
  by (induction xs) auto

lemma subseq_rev: "subseq xs ys \<Longrightarrow> subseq (rev xs) (rev ys)"
  by (induction rule: list_emb.induct) (auto intro: subseq_rev_drop_many)

lemma subseq_drop_progress: "subseq (drop_progress xs) xs"
  using subseq_rev [OF subseq_remove_first, of _ "rev xs"] by (simp add: drop_progress_def)

lemma subseq_compress: "subseq (compress history) history"
proof (induction history rule: rev_induct)
  case (snoc e history)
  have "subseq (compress_step (compress history) e) (compress history @ [e])"
    by (simp add: compress_step_def subseq_drop_progress subseq_append')
  with snoc show ?case
    by (metis compress_snoc list_emb_append_mono subseq_order.trans subseq_order.refl)
qed simp

lemma remove_first_append:
  "remove_first P (xs @ ys) = (if \<exists>x \<in> set xs. P x then remove_first P xs @ ys else xs @ remove_first P ys)"
  by (induction xs) auto

lemma remove_first_id: "\<forall>x \<in> set xs. \<not> P x \<Longrightarrow> remove_first P xs = xs"
  by (induction xs) auto

lemma suffix_drop_progress: "suffix xs ys \<Longrightarrow> suffix (drop_progress xs) (drop_progress ys)"
  unfolding suffix_to_prefix drop_progress_def rev_rev_ident
  by (auto simp: prefix_def remove_first_append remove_first_id)

definition hub_inv :: "hub_run \<Rightarrow> bool" where
  "hub_inv r \<longleftrightarrow>
     sorted_wrt (<) (map en_seq (hr_history r)) \<and>
     (\<forall>e \<in> set (hr_history r). 1 \<le> en_seq e \<and> en_seq e \<le> eh_seq (hr_hub r)) \<and>
     0 \<le> eh_seq (hr_hub r) \<and> 1 \<le> eh_replay_capacity (hr_hub r) \<and> 1 \<le> eh_subscriber_capacity (hr_hub r) \<and>
     suffix (eh_replay (hr_hub r)) (compress (hr_history r)) \<and>
     length (eh_replay (hr_hub r)) \<le> eh_replay_capacity (hr_hub r)"

definition same_sequencer :: "event_hub \<Rightarrow> event_hub \<Rightarrow> bool" where
  "same_sequencer h h' \<longleftrightarrow> eh_seq h' = eh_seq h \<and> eh_replay h' = eh_replay h \<and>
     eh_replay_capacity h' = eh_replay_capacity h \<and> eh_subscriber_capacity h' = eh_subscriber_capacity h \<and>
     eh_session_id h' = eh_session_id h"

lemma same_sequencer_simps [simp]:
  "same_sequencer h h"
  "same_sequencer h (update_stream a f h)"
  "same_sequencer h (h\<lparr>eh_streams := v\<rparr>)" "same_sequencer h (h\<lparr>eh_subscribers := u\<rparr>)"
  "same_sequencer h (h\<lparr>eh_audit := p\<rparr>)" "same_sequencer h (h\<lparr>eh_state := st\<rparr>)"
  by (simp_all add: same_sequencer_def update_stream_def)

lemma same_sequencer_trans: "same_sequencer a b \<Longrightarrow> same_sequencer b c \<Longrightarrow> same_sequencer a c"
  by (simp add: same_sequencer_def)

lemma same_sequencer_foldl: "same_sequencer h (foldl (\<lambda>h a. update_stream a f h) h as)"
proof (induction as arbitrary: h)
  case (Cons a as)
  show ?case using same_sequencer_trans [OF same_sequencer_simps(2) Cons] by simp
qed simp

lemma same_sequencer_fan_out: "same_sequencer h (fan_out e h)"
  using same_sequencer_foldl [of h "stream_offer e" "eh_subscribers h"]
  by (simp add: fan_out_def Let_def same_sequencer_def)

lemma same_sequencer_audit: "same_sequencer h (audit_delivery e h)"
  by (simp add: audit_delivery_def)

lemma same_sequencer_close: "hub_close joined h = (b, h') \<Longrightarrow> same_sequencer h h'"
  using same_sequencer_foldl [of "h\<lparr>eh_subscribers := []\<rparr>" stream_close "eh_subscribers h"]
  by (auto simp: hub_close_def Let_def same_sequencer_def split: prod.splits)

lemma same_sequencer_subscribe: "hub_subscribe now q h = (res, h') \<Longrightarrow> same_sequencer h h'"
  by (auto simp: hub_subscribe_def Let_def same_sequencer_def split: if_splits sum.splits)

lemma hub_inv_same: "hub_inv r \<Longrightarrow> same_sequencer (hr_hub r) h \<Longrightarrow> hub_inv (r\<lparr>hr_hub := h\<rparr>)"
  by (simp add: hub_inv_def same_sequencer_def)

lemma suffix_bounded_append: "suffix xs ys \<Longrightarrow> suffix (bounded_append n xs x) (ys @ [x])"
  unfolding bounded_append_def Let_def
  by (rule suffix_order.trans [OF suffix_drop]) simp

lemma length_bounded_append: "length (bounded_append n xs x) \<le> n"
  by (simp add: bounded_append_def)

text \<open>What an emission does to the sequencer.\<close>

lemma hub_emit_Inr:
  assumes "hub_emit now body h = (Inr e, h')"
  shows "en_seq e = eh_seq h + 1 \<and> en_body e = body \<and> en_session_id e = eh_session_id h \<and> eh_seq h' = eh_seq h + 1 \<and>
     eh_replay h' = bounded_append (eh_replay_capacity h)
       (if is_progress body then drop_progress (eh_replay h) else eh_replay h) e \<and>
     eh_replay_capacity h' = eh_replay_capacity h \<and> eh_subscriber_capacity h' = eh_subscriber_capacity h"
proof -
  let ?h2 = "case body of StateChanged st \<Rightarrow> h\<lparr>eh_seq := eh_seq h + 1, eh_state := st\<rparr> | _ \<Rightarrow> h\<lparr>eh_seq := eh_seq h + 1\<rparr>"
  have e: "en_seq e = eh_seq h + 1 \<and> en_body e = body \<and> en_session_id e = eh_session_id h"
    and h': "h' = fan_out e (audit_delivery e (record_replay e ?h2))"
    using assms by (auto simp: hub_emit_def Let_def split: sum.splits event_body.splits)
  have "same_sequencer (record_replay e ?h2) h'"
    unfolding h' by (rule same_sequencer_trans [OF same_sequencer_audit same_sequencer_fan_out])
  with e show ?thesis
    by (auto simp: same_sequencer_def record_replay_def Let_def split: event_body.splits)
qed

lemma hub_emit_Inl: "hub_emit now body h = (Inl err, h') \<Longrightarrow> h' = h\<lparr>eh_seq := eh_seq h + 1\<rparr>"
  by (auto simp: hub_emit_def Let_def split: sum.splits event_body.splits)

lemma hub_inv_emit:
  assumes "hub_inv r" and "hub_emit now body (hr_hub r) = (Inr e, h)"
  shows "hub_inv (r\<lparr>hr_history := hr_history r @ [e], hr_hub := h\<rparr>)"
proof -
  note e = hub_emit_Inr [OF assms(2)]
  have "suffix (eh_replay h) (compress_step (compress (hr_history r)) e)"
    using assms(1) e unfolding compress_step_def hub_inv_def
    by (metis suffix_bounded_append suffix_drop_progress)
  then show ?thesis
    using assms(1) e by (auto simp: hub_inv_def sorted_wrt_append length_bounded_append)
qed

lemma hub_inv_spent: "hub_inv r \<Longrightarrow> hub_inv (r\<lparr>hr_hub := (hr_hub r)\<lparr>eh_seq := eh_seq (hr_hub r) + 1\<rparr>\<rparr>)"
  by (auto simp: hub_inv_def)

lemma hub_inv_logs [simp]:
  "hub_inv (r\<lparr>hr_requested := u\<rparr>) = hub_inv r" "hub_inv (r\<lparr>hr_offset := v\<rparr>) = hub_inv r"
  "hub_inv (r\<lparr>hr_initial := w\<rparr>) = hub_inv r" "hub_inv (r\<lparr>hr_consumed := w\<rparr>) = hub_inv r"
  by (simp_all add: hub_inv_def)

lemma hub_inv_step: "hub_inv r \<Longrightarrow> hub_step r r' \<Longrightarrow> hub_inv r'"
proof (erule hub_stepE, goal_cases)
  case (1 now body e h)
  then show ?case using hub_inv_emit by blast
next
  case (2 now body err h)
  then show ?case using hub_emit_Inl hub_inv_spent by metis
next
  case (3 now q a h)
  have "hub_inv (r\<lparr>hr_hub := h\<rparr>)" using 3 hub_inv_same same_sequencer_subscribe by blast
  with 3 show ?case by (simp add: hub_inv_def)
next
  case (4 a e s)
  have "hub_inv (r\<lparr>hr_hub := update_stream a (\<lambda>_. s) (hr_hub r)\<rparr>)" using 4 hub_inv_same by simp
  with 4 show ?case by (simp add: hub_inv_def)
next
  case (7 obs in_time res rec h)
  then show ?case by (auto simp: hub_finalize_audit_def hub_inv_same split: prod.splits)
qed (simp_all add: hub_inv_same same_sequencer_close)

lemma hub_inv_start: "hub_start r \<Longrightarrow> hub_inv r"
  by (auto simp: hub_start_def hub_inv_def event_hub_init_def audit_pump_init_def bindE_eq_Inr dest!: sym [of _ "hr_hub r"])

lemma hub_inv_reachable: "hub.reachable r \<Longrightarrow> hub_inv r"
  by (erule hub.invariant) (auto intro: hub_inv_start hub_inv_step)

section \<open>Claims\<close>

lemma sorted_wrt_subseq: "subseq xs ys \<Longrightarrow> sorted_wrt R ys \<Longrightarrow> sorted_wrt R xs"
  by (induction rule: list_emb.induct) (auto dest: list_emb_set)

lemma received_from_replay:
  assumes "hub_inv r" and "eh_replay (hr_hub r) = before @ e # after" and "en_seq e = n"
  shows "filter reliable (filter (\<lambda>e. n \<le> en_seq e) (eh_replay (hr_hub r))) =
     filter (\<lambda>e. reliable e \<and> n \<le> en_seq e) (hr_history r)"
proof -
  let ?replay = "eh_replay (hr_hub r)"
  obtain old where c: "compress (hr_history r) = old @ ?replay"
    using assms(1) by (auto simp: hub_inv_def suffix_def)
  have "subseq (map en_seq (compress (hr_history r))) (map en_seq (hr_history r))"
    by (rule subseq_map [OF subseq_compress])
  then have "sorted_wrt (<) (map en_seq (compress (hr_history r)))"
    using assms(1) unfolding hub_inv_def by (metis sorted_wrt_subseq)
  then have "\<forall>x \<in> set old. en_seq x < n"
    using assms(2,3) by (auto simp: c sorted_wrt_append)
  then have "filter (\<lambda>e. n \<le> en_seq e) (filter reliable old) = []"
    by (auto simp: filter_empty_conv)
  then have "filter (\<lambda>e. n \<le> en_seq e) (filter reliable (compress (hr_history r))) =
      filter (\<lambda>e. n \<le> en_seq e) (filter reliable ?replay)"
    unfolding c by simp
  then show ?thesis unfolding filter_compress by (simp add: conj_commute)
qed

section \<open>Subscription\<close>

text \<open>What a stream starts with: all it asked for, or a Gap and the newest part of it.\<close>

definition replay_start :: "int \<Rightarrow> envelope list \<Rightarrow> envelope list \<Rightarrow> bool" where
  "replay_start n history items \<longleftrightarrow>
     (suffix items (filter (\<lambda>e. n \<le> en_seq e) (compress history)) \<and>
      filter reliable items = filter (\<lambda>e. reliable e \<and> n \<le> en_seq e) history) \<or>
     (\<exists>gap rest. items = gap # rest \<and> en_body gap = Gap n \<and>
        suffix rest (filter (\<lambda>e. n \<le> en_seq e) (compress history)))"

lemma hub_subscribe_Inr:
  assumes "hub_subscribe now q h = (Inr a, h')"
  shows "a = length (eh_streams h) \<and> (\<exists>s. eh_streams h' = eh_streams h @ [s] \<and>
     \<not> sm_closed s \<and> \<not> sm_ejected s \<and> sm_capacity s = eh_subscriber_capacity h \<and> 1 \<le> sm_capacity s) \<and>
     eh_subscribers h' = eh_subscribers h @ [length (eh_streams h)]"
  using assms
  by (auto simp: hub_subscribe_def Let_def event_stream_init_def result_simps split: if_splits sum.splits)

lemma hub_subscribe_items:
  assumes "hub_inv r" and "hub_subscribe now q (hr_hub r) = (Inr a, h)" and n: "n = (case q of None \<Rightarrow> 1 | Some n \<Rightarrow> n)"
  shows "replay_start n (hr_history r) (sm_items (eh_streams h ! a)) \<and>
     int (length (sm_items (eh_streams h ! a))) \<le> eh_subscriber_capacity (hr_hub r) + 1"
proof -
  let ?h = "hr_hub r"
  let ?sel = "filter (\<lambda>e. n \<le> en_seq e) (eh_replay ?h)"
  define gap_needed where "gap_needed \<longleftrightarrow> eh_seq ?h \<ge> n \<and> (?sel = [] \<or> en_seq (hd ?sel) > n)"
  define allowance where "allowance = nat (eh_subscriber_capacity ?h - (if gap_needed then 1 else 0))"
  define gap where "gap = \<lparr>en_session_id = eh_session_id ?h, en_seq = n, en_at = now,
                       en_schema_version = schema_version, en_body = Gap n\<rparr>"
  have items: "sm_items (eh_streams h ! a) = (if gap_needed \<or> length ?sel > allowance then [gap] else []) @
      (if length ?sel > allowance then drop (length ?sel - allowance) ?sel else ?sel)"
    using assms(2) unfolding hub_subscribe_def Let_def n [symmetric] gap_needed_def allowance_def gap_def
    by (auto simp: event_stream_init_def result_simps split: if_splits sum.splits)
  have suffix: "suffix (eh_replay ?h) (compress (hr_history r))"
    using assms(1) by (simp add: hub_inv_def)
  have sel: "suffix (drop k ?sel) (filter (\<lambda>e. n \<le> en_seq e) (compress (hr_history r)))" for k
    by (rule suffix_order.trans [OF suffix_drop]) (use suffix in \<open>auto simp: suffix_def\<close>)
  have all: "filter reliable ?sel = filter (\<lambda>e. reliable e \<and> n \<le> en_seq e) (hr_history r)" if "\<not> gap_needed"
  proof (cases "eh_seq ?h \<ge> n")
    case True
    with that obtain e rest where "?sel = e # rest" "en_seq e \<le> n"
      by (auto simp: gap_needed_def neq_Nil_conv)
    then obtain before "after" where "eh_replay ?h = before @ e # after" and "en_seq e = n"
      by (auto simp: filter_eq_Cons_iff)
    then show ?thesis by (rule received_from_replay [OF assms(1)])
  next
    case False
    then have "\<forall>e \<in> set (hr_history r). \<not> n \<le> en_seq e"
      using assms(1) by (auto simp: hub_inv_def)
    moreover have "set (eh_replay ?h) \<subseteq> set (hr_history r)"
      using set_mono_suffix [OF suffix] list_emb_set [OF subseq_compress] by blast
    ultimately show ?thesis by (auto simp: filter_empty_conv)
  qed
  have cap: "1 \<le> eh_subscriber_capacity ?h"
    using assms(1) by (simp add: hub_inv_def)
  show ?thesis
  proof (cases "gap_needed \<or> length ?sel > allowance")
    case True
    then show ?thesis
      using sel [of 0] sel [of "length ?sel - allowance"] cap
      by (auto simp: items replay_start_def gap_def allowance_def)
  next
    case False
    then show ?thesis using sel [of 0] all cap by (auto simp: items replay_start_def allowance_def)
  qed
qed

section \<open>Every stream of the hub is a stream of the first section\<close>

lemma foldl_update_stream:
  assumes "distinct as" and "\<forall>a \<in> set as. a < length (eh_streams h)"
  shows "eh_streams (foldl (\<lambda>h a. update_stream a f h) h as) =
     map (\<lambda>a. if a \<in> set as then f (eh_streams h ! a) else eh_streams h ! a) [0..<length (eh_streams h)]"
  using assms
proof (induction as arbitrary: h)
  case Nil
  show ?case by (simp add: map_nth)
next
  case (Cons b as)
  have len: "length (eh_streams (update_stream b f h)) = length (eh_streams h)"
    by (simp add: update_stream_def)
  show ?case
    using Cons.prems Cons.IH [of "update_stream b f h"]
    by (auto simp: len update_stream_def nth_list_update intro!: map_cong)
qed

definition subscribers_inv :: "event_hub \<Rightarrow> bool" where
  "subscribers_inv h \<longleftrightarrow> distinct (eh_subscribers h) \<and>
     (\<forall>a \<in> set (eh_subscribers h). a < length (eh_streams h)) \<and>
     (\<forall>a < length (eh_streams h). a \<notin> set (eh_subscribers h) \<longrightarrow> sm_closed (eh_streams h ! a))"

lemma stream_offer_ejected:
  "sm_ejected (stream_offer e s) \<Longrightarrow> (sm_ejected s \<longrightarrow> sm_closed s) \<Longrightarrow> sm_closed (stream_offer e s)"
  by (auto simp: stream_offer_def Let_def split: if_splits event_body.splits)

lemma eh_streams_fan_out:
  assumes "subscribers_inv h"
  shows "eh_streams (fan_out e h) = map (stream_offer e) (eh_streams h)"
proof -
  have "eh_streams (fan_out e h) = map (\<lambda>a. if a \<in> set (eh_subscribers h)
      then stream_offer e (eh_streams h ! a) else eh_streams h ! a) [0..<length (eh_streams h)]"
    using assms foldl_update_stream [of "eh_subscribers h" h "stream_offer e"]
    by (simp add: fan_out_def Let_def subscribers_inv_def)
  also have "\<dots> = map (\<lambda>a. stream_offer e (eh_streams h ! a)) [0..<length (eh_streams h)]"
    using assms by (auto simp: subscribers_inv_def stream_offer_closed)
  also have "\<dots> = map (stream_offer e) (eh_streams h)"
    by (rule nth_equalityI) simp_all
  finally show ?thesis .
qed

lemma subscribers_inv_fan_out:
  assumes "subscribers_inv h" and "\<forall>s \<in> set (eh_streams h). sm_ejected s \<longrightarrow> sm_closed s"
  shows "subscribers_inv (fan_out e h)"
proof -
  have subs: "eh_subscribers (fan_out e h) = filter (\<lambda>a. \<not> sm_ejected (eh_streams (fan_out e h) ! a)) (eh_subscribers h)"
    by (simp add: fan_out_def Let_def)
  show ?thesis
    using assms unfolding subscribers_inv_def subs eh_streams_fan_out [OF assms(1)]
    by (auto simp: stream_offer_closed intro: stream_offer_ejected)
qed

definition view :: "nat \<Rightarrow> hub_run \<Rightarrow> stream_run" where
  "view a r = \<lparr>sx_initial = hr_initial r a, sx_offered = drop (hr_offset r a) (hr_history r),
     sx_consumed = hr_consumed r a, sx_stream = eh_streams (hr_hub r) ! a\<rparr>"

definition views_inv :: "hub_run \<Rightarrow> bool" where
  "views_inv r \<longleftrightarrow> hub_inv r \<and> (\<forall>e \<in> set (hr_history r). \<forall>n. en_body e \<noteq> Gap n) \<and> subscribers_inv (hr_hub r) \<and>
     (\<forall>a < length (eh_streams (hr_hub r)). stream.reachable (view a r) \<and> hr_offset r a \<le> length (hr_history r) \<and>
        replay_start (hr_requested r a) (take (hr_offset r a) (hr_history r)) (hr_initial r a))"

lemma views_inv_ejected:
  assumes "views_inv r"
  shows "\<forall>s \<in> set (eh_streams (hr_hub r)). sm_ejected s \<longrightarrow> sm_closed s"
proof -
  have "stream_inv (view a r)" if "a < length (eh_streams (hr_hub r))" for a
    using assms that stream_inv_reachable by (simp add: views_inv_def)
  then show ?thesis unfolding set_conv_nth by (auto simp: stream_inv_def view_def)
qed

lemma hub_emit_streams:
  assumes "hub_emit now body h = (Inr e, h')" and "subscribers_inv h"
    and "\<forall>s \<in> set (eh_streams h). sm_ejected s \<longrightarrow> sm_closed s"
  shows "eh_streams h' = map (stream_offer e) (eh_streams h) \<and> subscribers_inv h'"
proof -
  let ?h2 = "case body of StateChanged st \<Rightarrow> h\<lparr>eh_seq := eh_seq h + 1, eh_state := st\<rparr> | _ \<Rightarrow> h\<lparr>eh_seq := eh_seq h + 1\<rparr>"
  have h': "h' = fan_out e (audit_delivery e (record_replay e ?h2))"
    using assms(1) by (auto simp: hub_emit_def Let_def split: sum.splits event_body.splits)
  have s: "eh_streams (audit_delivery e (record_replay e ?h2)) = eh_streams h"
    "eh_subscribers (audit_delivery e (record_replay e ?h2)) = eh_subscribers h"
    by (simp_all add: audit_delivery_def record_replay_def Let_def split: event_body.splits)
  then have "subscribers_inv (audit_delivery e (record_replay e ?h2))"
    using assms(2) by (simp add: subscribers_inv_def)
  then show ?thesis
    using assms(3) eh_streams_fan_out subscribers_inv_fan_out s by (simp add: h')
qed

lemma view_emit:
  assumes "views_inv r" and e: "hub_emit now body (hr_hub r) = (Inr e, h)" and body: "\<forall>n. body \<noteq> Gap n"
    and a: "a < length (eh_streams (hr_hub r))"
  shows "stream_step (view a r) (view a (r\<lparr>hr_history := hr_history r @ [e], hr_hub := h\<rparr>))"
proof -
  have streams: "eh_streams h = map (stream_offer e) (eh_streams (hr_hub r))"
    using hub_emit_streams [OF e] views_inv_ejected [OF assms(1)] assms(1) by (simp add: views_inv_def)
  have "\<forall>x \<in> set (hr_history r). en_seq x < en_seq e"
    using assms(1) hub_emit_Inr [OF e] by (auto simp: views_inv_def hub_inv_def)
  then have "\<forall>x \<in> set (sx_offered (view a r)). en_seq x < en_seq e"
    by (auto simp: view_def dest: in_set_dropD)
  moreover have "\<forall>n. en_body e \<noteq> Gap n" using hub_emit_Inr [OF e] body by simp
  moreover have "view a (r\<lparr>hr_history := hr_history r @ [e], hr_hub := h\<rparr>) =
      (view a r)\<lparr>sx_offered := sx_offered (view a r) @ [e], sx_stream := stream_offer e (sx_stream (view a r))\<rparr>"
    using assms(1) a by (simp add: view_def streams views_inv_def)
  ultimately show ?thesis using stream_step.offer [of "view a r" e] by simp
qed

lemma view_subscribe:
  assumes "views_inv r" and "hub_subscribe now q (hr_hub r) = (Inr a, h)"
  defines "r' \<equiv> r\<lparr>hr_requested := (hr_requested r)(a := case q of None \<Rightarrow> 1 | Some n \<Rightarrow> n),
       hr_offset := (hr_offset r)(a := length (hr_history r)),
       hr_initial := (hr_initial r)(a := sm_items (eh_streams h ! a)),
       hr_consumed := (hr_consumed r)(a := []), hr_hub := h\<rparr>"
  shows "views_inv r'"
proof -
  note s = hub_subscribe_Inr [OF assms(2)]
  have inv: "hub_inv r" using assms(1) by (simp add: views_inv_def)
  have hub: "hub_inv r'"
    using hub_inv_same [OF inv same_sequencer_subscribe [OF assms(2)]] by (simp add: hub_inv_def r'_def)
  have subs: "subscribers_inv h"
    using assms(1) s by (auto simp: views_inv_def subscribers_inv_def nth_append)
  have new: "stream.reachable (view a r')"
    using s by (intro stream.start) (auto simp: view_def r'_def stream_start_def nth_append)
  have old: "view b r' = view b r" if "b < length (eh_streams (hr_hub r))" for b
    using s that by (auto simp: view_def r'_def nth_append)
  have starts: "replay_start (case q of None \<Rightarrow> 1 | Some n \<Rightarrow> n) (hr_history r) (sm_items (eh_streams h ! a))"
    using hub_subscribe_items [OF inv assms(2) refl] by simp
  have "stream.reachable (view b r') \<and> hr_offset r' b \<le> length (hr_history r') \<and>
        replay_start (hr_requested r' b) (take (hr_offset r' b) (hr_history r')) (hr_initial r' b)"
    if "b < length (eh_streams h)" for b
  proof (cases "b = a")
    case True
    then show ?thesis using new starts by (simp add: r'_def)
  next
    case False
    then have b: "b < length (eh_streams (hr_hub r))" using that s by auto
    then show ?thesis using assms(1) old [OF b] False by (simp add: views_inv_def r'_def)
  qed
  then show ?thesis using hub subs assms(1) by (simp add: views_inv_def r'_def)
qed

lemma view_update_stream:
  assumes "a < length (eh_streams (hr_hub r))"
  shows "view b (r\<lparr>hr_hub := update_stream a f (hr_hub r)\<rparr>) =
     (if b = a then (view a r)\<lparr>sx_stream := f (sx_stream (view a r))\<rparr> else view b r)"
  using assms by (simp add: view_def update_stream_def)

lemma subscribers_inv_update:
  assumes "subscribers_inv h" and "sm_closed (eh_streams h ! a) \<Longrightarrow> sm_closed (f (eh_streams h ! a))"
  shows "subscribers_inv (update_stream a f h)"
  using assms by (auto simp: subscribers_inv_def update_stream_def nth_list_update)

lemma stream_next_closed: "stream_next s = (res, s') \<Longrightarrow> sm_closed s' = sm_closed s"
  by (auto simp: stream_next_def split: list.splits if_splits)

lemma views_inv_update:
  assumes "views_inv r" and a: "a < length (eh_streams (hr_hub r))"
    and closed: "sm_closed (eh_streams (hr_hub r) ! a) \<Longrightarrow> sm_closed (f (eh_streams (hr_hub r) ! a))"
    and other: "\<forall>b. b \<noteq> a \<longrightarrow> consumed b = hr_consumed r b"
    and step: "stream_step (view a r) ((view a r)\<lparr>sx_consumed := consumed a, sx_stream := f (eh_streams (hr_hub r) ! a)\<rparr>)"
  shows "views_inv (r\<lparr>hr_consumed := consumed, hr_hub := update_stream a f (hr_hub r)\<rparr>)" (is "views_inv ?r")
proof -
  have "hub_inv (r\<lparr>hr_hub := update_stream a f (hr_hub r)\<rparr>)"
    using assms(1) hub_inv_same by (simp add: views_inv_def)
  then have "hub_inv ?r" by (simp add: hub_inv_def)
  moreover have "subscribers_inv (hr_hub ?r)"
    using assms(1) closed subscribers_inv_update by (simp add: views_inv_def)
  moreover have "view b ?r = (if b = a
      then (view a r)\<lparr>sx_consumed := consumed a, sx_stream := f (eh_streams (hr_hub r) ! a)\<rparr> else view b r)" for b
    using a other by (simp add: view_def update_stream_def)
  moreover have "length (eh_streams (hr_hub ?r)) = length (eh_streams (hr_hub r))"
    by (simp add: update_stream_def)
  ultimately show ?thesis
    using assms(1) stream.next_step [OF _ step] a by (simp add: views_inv_def)
qed

lemma hub_close_streams:
  assumes "hub_close joined h = (stopped, h')" and "subscribers_inv h"
  shows "eh_streams h' = map (\<lambda>a. if a \<in> set (eh_subscribers h) then stream_close (eh_streams h ! a)
      else eh_streams h ! a) [0..<length (eh_streams h)] \<and> subscribers_inv h'"
proof -
  let ?h1 = "foldl (\<lambda>h a. update_stream a stream_close h) (h\<lparr>eh_subscribers := []\<rparr>) (eh_subscribers h)"
  have subs: "eh_subscribers (foldl (\<lambda>h a. update_stream a f h) h0 as) = eh_subscribers h0" for f h0 as
    by (induction as arbitrary: h0) (simp_all add: update_stream_def)
  have h': "eh_streams h' = eh_streams ?h1" "eh_subscribers h' = []"
    using assms(1) subs by (auto simp: hub_close_def Let_def split: prod.splits)
  then have streams: "eh_streams h' = map (\<lambda>a. if a \<in> set (eh_subscribers h) then stream_close (eh_streams h ! a)
      else eh_streams h ! a) [0..<length (eh_streams h)]"
    using assms(2) foldl_update_stream [of "eh_subscribers h" "h\<lparr>eh_subscribers := []\<rparr>" stream_close]
    by (simp add: subscribers_inv_def)
  then show ?thesis
    using assms(2) unfolding subscribers_inv_def streams h'(2) by (auto simp: stream_close_def)
qed

lemma views_inv_close:
  assumes "views_inv r" and "hub_close joined (hr_hub r) = (stopped, h)"
  shows "views_inv (r\<lparr>hr_hub := h\<rparr>)"
proof -
  have "subscribers_inv (hr_hub r)" using assms(1) by (simp add: views_inv_def)
  note c = hub_close_streams [OF assms(2) this]
  have "view a (r\<lparr>hr_hub := h\<rparr>) = (if a \<in> set (eh_subscribers (hr_hub r))
      then (view a r)\<lparr>sx_stream := stream_close (sx_stream (view a r))\<rparr> else view a r)"
    if "a < length (eh_streams (hr_hub r))" for a
    using c that by (simp add: view_def)
  then have "stream.reachable (view a (r\<lparr>hr_hub := h\<rparr>))" if "a < length (eh_streams (hr_hub r))" for a
    using assms(1) that stream.next_step [OF _ stream_step.close] by (simp add: views_inv_def)
  then show ?thesis
    using assms hub_inv_same [OF _ same_sequencer_close] c by (simp add: views_inv_def)
qed

lemma views_inv_hub:
  assumes "views_inv r" and "same_sequencer (hr_hub r) h \<or> h = (hr_hub r)\<lparr>eh_seq := eh_seq (hr_hub r) + 1\<rparr>"
    and "eh_streams h = eh_streams (hr_hub r)" and "eh_subscribers h = eh_subscribers (hr_hub r)"
  shows "views_inv (r\<lparr>hr_hub := h\<rparr>)"
proof -
  have "view a (r\<lparr>hr_hub := h\<rparr>) = view a r" for a using assms(3) by (simp add: view_def)
  moreover have "hub_inv (r\<lparr>hr_hub := h\<rparr>)"
    using assms(1,2) hub_inv_same hub_inv_spent by (auto simp: views_inv_def)
  ultimately show ?thesis using assms by (simp add: views_inv_def subscribers_inv_def)
qed

lemma views_inv_emit:
  assumes "views_inv r" and e: "hub_emit now body (hr_hub r) = (Inr e, h)" and body: "\<forall>n. body \<noteq> Gap n"
  shows "views_inv (r\<lparr>hr_history := hr_history r @ [e], hr_hub := h\<rparr>)"
proof -
  have streams: "eh_streams h = map (stream_offer e) (eh_streams (hr_hub r))" "subscribers_inv h"
    using hub_emit_streams [OF e] views_inv_ejected [OF assms(1)] assms(1) by (simp_all add: views_inv_def)
  then show ?thesis
    using assms(1) hub_inv_emit [OF _ e] stream.next_step [OF _ view_emit [OF assms]] body hub_emit_Inr [OF e]
    by (auto simp: views_inv_def le_SucI)
qed

lemma views_inv_step: "views_inv r \<Longrightarrow> hub_step r r' \<Longrightarrow> views_inv r'"
proof (erule hub_stepE, goal_cases)
  case (1 now body e h)
  then show ?case using views_inv_emit by blast
next
  case (2 now body err h)
  then show ?case using hub_emit_Inl [of now body "hr_hub r" err h] by (simp add: views_inv_hub)
next
  case (3 now q a h)
  then show ?case using view_subscribe by blast
next
  case (4 a e s)
  have "stream_step (view a r) ((view a r)\<lparr>sx_consumed := sx_consumed (view a r) @ [e], sx_stream := s\<rparr>)"
    using 4 by (intro stream_step.consume) (simp add: view_def)
  then show ?case
    using 4 stream_next_closed [of "eh_streams (hr_hub r) ! a"] by (auto simp: view_def intro!: views_inv_update)
next
  case (5 a)
  show ?case
  proof (cases "a < length (eh_streams (hr_hub r))")
    case True
    have "views_inv (r\<lparr>hr_consumed := hr_consumed r, hr_hub := update_stream a stream_close (hr_hub r)\<rparr>)"
      using 5 True stream_step.close [of "view a r"]
      by (intro views_inv_update) (auto simp: stream_close_def view_def)
    with 5 show ?thesis by simp
  qed (use 5 in \<open>simp add: update_stream_def\<close>)
next
  case (6 obs status p)
  then show ?case by (simp add: views_inv_hub)
next
  case (7 obs in_time res rec h)
  then show ?case by (auto simp: hub_finalize_audit_def views_inv_hub split: prod.splits)
next
  case (8 joined stopped h)
  then show ?case using views_inv_close by blast
qed

lemma views_inv_reachable: "hub.reachable r \<Longrightarrow> views_inv r"
proof (erule hub.invariant)
  show "views_inv s" if "hub_start s" for s
    using that hub_inv_start [OF that]
    by (auto simp: views_inv_def subscribers_inv_def hub_start_def event_hub_init_def audit_pump_init_def
        bindE_eq_Inr dest!: sym [of _ "hr_hub s"])
qed (rule views_inv_step)

section \<open>What a subscriber is promised\<close>

definition wanted :: "hub_run \<Rightarrow> nat \<Rightarrow> envelope list" where
  "wanted r a = filter (\<lambda>e. reliable e \<and> hr_requested r a \<le> en_seq e) (take (hr_offset r a) (hr_history r)) @
     filter reliable (drop (hr_offset r a) (hr_history r))"

definition gotten :: "hub_run \<Rightarrow> nat \<Rightarrow> envelope list" where
  "gotten r a = hr_consumed r a @ sm_items (eh_streams (hr_hub r) ! a)"

fun is_gap :: "event_body \<Rightarrow> bool" where
  "is_gap (Gap _) = True"
| "is_gap _ = False"

lemma subscriber_coverage:
  assumes r: "hub.reachable r" and a: "a < length (eh_streams (hr_hub r))" and e: "e \<in> set (wanted r a)"
    and live: "sm_closed (eh_streams (hr_hub r) ! a) \<Longrightarrow> sm_ejected (eh_streams (hr_hub r) ! a)"
  shows "e \<in> set (gotten r a) \<or> (\<exists>gap n. gap \<in> set (gotten r a) \<and> en_body gap = Gap n \<and> n \<le> en_seq e)"
proof -
  let ?v = "view a r" and ?n = "hr_requested r a"
  have inv: "views_inv r" by (rule views_inv_reachable [OF r])
  have vinv: "stream_inv ?v" and no_gap: "\<forall>n. en_body e \<noteq> Gap n"
    and start: "replay_start ?n (take (hr_offset r a) (hr_history r)) (hr_initial r a)"
    using inv a e stream_inv_reachable
    by (auto simp: views_inv_def wanted_def dest: in_set_takeD in_set_dropD)
  have got: "sx_consumed ?v @ sm_items (sx_stream ?v) = gotten r a" by (simp add: view_def gotten_def)
  have owed: "set (owed ?v) = set (filter reliable (hr_initial r a)) \<union> set (filter reliable (drop (hr_offset r a) (hr_history r)))"
    by (simp add: owed_def view_def)
  obtain x where x: "x \<in> set (owed ?v)" "x = e \<or> (\<exists>n. en_body x = Gap n \<and> n \<le> en_seq e)"
  proof (cases "e \<in> set (owed ?v)")
    case False
    then have "e \<in> set (filter (\<lambda>e. reliable e \<and> ?n \<le> en_seq e) (take (hr_offset r a) (hr_history r)))"
      "?n \<le> en_seq e" "e \<notin> set (filter reliable (hr_initial r a))"
      using e by (auto simp: owed wanted_def)
    then obtain gap rest where "hr_initial r a = gap # rest" "en_body gap = Gap ?n"
      using start unfolding replay_start_def by metis
    then show ?thesis using that [of gap] \<open>?n \<le> en_seq e\<close> by (auto simp: owed reliable_iff)
  qed (use that in blast)
  have px: "pending_seq x \<le> en_seq e" using x(2) no_gap by (auto simp: pending_seq_def split: event_body.splits)
  show ?thesis
  proof (cases "sm_ejected (eh_streams (hr_hub r) ! a)")
    case False
    then have "received ?v = owed ?v" using vinv live by (auto simp: stream_inv_def view_def)
    then have "x \<in> set (gotten r a)" using x(1) unfolding received_def got by (metis filter_is_subset subsetD)
    then show ?thesis using x(2) by blast
  next
    case True
    then have "gap_reported ?v" using vinv by (simp add: stream_inv_def view_def)
    then obtain before gap g where g: "gotten r a = before @ [gap]" "en_body gap = Gap g"
      "prefix (filter reliable before) (owed ?v)"
      "\<forall>x \<in> set (drop (length (filter reliable before)) (owed ?v)). g \<le> pending_seq x"
      unfolding gap_reported_def got by blast
    then have "x \<in> set before \<or> g \<le> pending_seq x"
      using x(1) by (auto simp: prefix_def)
    then show ?thesis using x(2) g(1,2) px by (cases "x \<in> set before") auto
  qed
qed

text \<open>C26: A subscriber that neither it nor the hub closed misses no reliable event silently: every reliable
  event it asked for from the past, and every one published since, has been handed to it or waits in
  its stream, or a Gap it is given announces a first missed number not above it.\<close>

theorem subscriber_misses_nothing_silently:
  assumes "hub.reachable r" and "a < length (eh_streams (hr_hub r))"
    and "sm_closed (eh_streams (hr_hub r) ! a) \<Longrightarrow> sm_ejected (eh_streams (hr_hub r) ! a)"
  shows "\<forall>e \<in> set (wanted r a). e \<in> set (gotten r a) \<or>
     (\<exists>gap n. gap \<in> set (gotten r a) \<and> en_body gap = Gap n \<and> n \<le> en_seq e)"
  using subscriber_coverage [OF assms(1,2)] assms(3) by blast

text \<open>C27: Whatever is done with the hub, the published sequence numbers increase strictly and do not pass
  the counter, and the bounded replay refines the unbounded one: it is a suffix of the published
  history with every Progress but the newest left out, no longer than its capacity.\<close>

theorem hub_replay_refines_history:
  assumes "hub.reachable r"
  shows "sorted_wrt (<) (map en_seq (hr_history r)) \<and>
     (\<forall>e \<in> set (hr_history r). 1 \<le> en_seq e \<and> en_seq e \<le> eh_seq (hr_hub r)) \<and>
     suffix (eh_replay (hr_hub r)) (compress (hr_history r)) \<and>
     length (eh_replay (hr_hub r)) \<le> eh_replay_capacity (hr_hub r)"
  using hub_inv_reachable [OF assms] by (simp add: hub_inv_def)

text \<open>C28: A new stream starts with everything from the requested number on that is still wanted, or
  with a Gap that names the requested number and then the newest part; the entry for the Gap is the
  only one that can go beyond the stream's capacity.\<close>

theorem subscribe_complete_or_gap:
  assumes "hub.reachable r" and "hub_subscribe now q (hr_hub r) = (Inr a, h)"
  shows "replay_start (case q of None \<Rightarrow> 1 | Some n \<Rightarrow> n) (hr_history r) (sm_items (eh_streams h ! a)) \<and>
     int (length (sm_items (eh_streams h ! a))) \<le> eh_subscriber_capacity (hr_hub r) + 1"
  by (rule hub_subscribe_items [OF hub_inv_reachable [OF assms(1)] assms(2) refl])

section \<open>A sample hub\<close>

definition sample_now :: datetime where
  "sample_now = en_at sample_envelope"

definition sample_hub :: event_hub where
  "sample_hub = (case event_hub_init (lit ''s'') ST_RUNNING 2 1 4 5 of Inr h \<Rightarrow> h)"

definition emitted :: "event_body \<Rightarrow> hub_run \<Rightarrow> hub_run" where
  "emitted body r = (case hub_emit sample_now body (hr_hub r) of
     (Inr e, h) \<Rightarrow> r\<lparr>hr_history := hr_history r @ [e], hr_hub := h\<rparr> | (Inl _, h) \<Rightarrow> r\<lparr>hr_hub := h\<rparr>)"

definition subscribed :: "hub_run \<Rightarrow> hub_run" where
  "subscribed r = (case hub_subscribe sample_now None (hr_hub r) of
     (Inr a, h) \<Rightarrow> r\<lparr>hr_requested := (hr_requested r)(a := 1), hr_offset := (hr_offset r)(a := length (hr_history r)),
       hr_initial := (hr_initial r)(a := sm_items (eh_streams h ! a)), hr_consumed := (hr_consumed r)(a := []), hr_hub := h\<rparr>
   | (Inl _, h) \<Rightarrow> r)"

definition sample_hub_run :: hub_run where
  "sample_hub_run = emitted (PhaseChanged (lit ''copy'')) (subscribed (emitted (StateChanged ST_RUNNING)
     \<lparr>hr_history = [], hr_requested = (\<lambda>_. 1), hr_offset = (\<lambda>_. 0), hr_initial = (\<lambda>_. []),
      hr_consumed = (\<lambda>_. []), hr_hub = sample_hub\<rparr>))"

lemma emitted_reachable:
  assumes "hub.reachable r" and "\<not> is_gap body"
  shows "hub.reachable (emitted body r)"
proof -
  have "\<forall>n. body \<noteq> Gap n" using assms(2) by (cases body) auto
  then show ?thesis
    using assms(1) hub.next_step hub_step.emit hub_step.emit_fails
    by (fastforce simp: emitted_def split: prod.splits sum.splits)
qed

lemma subscribed_reachable: "hub.reachable r \<Longrightarrow> hub.reachable (subscribed r)"
  using hub.next_step [OF _ hub_step.subscribe [of sample_now None r]]
  by (auto simp: subscribed_def split: prod.splits sum.splits)

lemmas eval_hub = sample_hub_def event_hub_init_def audit_pump_init_def sample_now_def sample_envelope_def
  emitted_def subscribed_def hub_emit_def hub_subscribe_def envelope_post_init_def record_replay_def
  bounded_append_def audit_delivery_def pump_offer_def pump_put_def pump_full_def fan_out_def update_stream_def
  stream_offer_def event_stream_init_def require_utc_def schema_version_def lit_def Let_def
  gap_envelope_def pending_seq_def drop_progress_def

lemma sample_hub_init: "event_hub_init (lit ''s'') ST_RUNNING 2 1 4 5 = Inr sample_hub"
  by (simp add: eval_hub)

lemma sample_hub_run_reachable: "hub.reachable sample_hub_run"
  unfolding sample_hub_run_def
proof (intro emitted_reachable subscribed_reachable hub.start)
  show "hub_start \<lparr>hr_history = [], hr_requested = \<lambda>_. 1, hr_offset = \<lambda>_. 0, hr_initial = \<lambda>_. [],
      hr_consumed = \<lambda>_. [], hr_hub = sample_hub\<rparr>"
    unfolding hub_start_def using sample_hub_init
    by (simp, intro exI)
qed simp_all

definition sample_event :: "int \<Rightarrow> event_body \<Rightarrow> envelope" where
  "sample_event n body = \<lparr>en_session_id = lit ''s'', en_seq = n, en_at = sample_now, en_schema_version = 2, en_body = body\<rparr>"

lemma sample_hub_run_eval:
  "hr_history sample_hub_run = [sample_event 1 (StateChanged ST_RUNNING), sample_event 2 (PhaseChanged (lit ''copy''))]"
  "gotten sample_hub_run 0 = [sample_event 2 (Gap 1)]"
  "wanted sample_hub_run 0 = hr_history sample_hub_run"
  "length (eh_streams (hr_hub sample_hub_run)) = 1" "sm_ejected (eh_streams (hr_hub sample_hub_run) ! 0)"
  by (simp_all add: sample_hub_run_def eval_hub sample_event_def gotten_def wanted_def reliable_def)

theorem subscriber_misses_nothing_silently_witness:
  "(\<exists>gap n. gap \<in> set (gotten sample_hub_run 0) \<and> en_body gap = Gap n \<and> n \<le> 1)"
proof -
  let ?e = "sample_event 1 (StateChanged ST_RUNNING)"
  have "?e \<in> set (wanted sample_hub_run 0)" "?e \<notin> set (gotten sample_hub_run 0)"
    by (simp_all add: sample_hub_run_eval) (simp_all add: sample_event_def)
  moreover have "en_seq ?e = 1" by (simp add: sample_event_def)
  ultimately show ?thesis
    using subscriber_misses_nothing_silently [OF sample_hub_run_reachable, of 0] sample_hub_run_eval(4,5) by force
qed

theorem hub_replay_refines_history_witness:
  "sorted_wrt (<) (map en_seq (hr_history sample_hub_run)) \<and> length (hr_history sample_hub_run) = 2 \<and>
   suffix (eh_replay (hr_hub sample_hub_run)) (compress (hr_history sample_hub_run))"
  using hub_replay_refines_history [OF sample_hub_run_reachable] by (simp add: sample_hub_run_eval(1))

lemma sample_subscribe:
  "(case hub_subscribe sample_now None (hr_hub sample_hub_run) of (res, h) \<Rightarrow>
      res = Inr 1 \<and> map en_body (sm_items (eh_streams h ! 1)) = [Gap 1, PhaseChanged (lit ''copy'')] \<and>
      eh_subscriber_capacity h = 1)"
  by (simp add: sample_hub_run_def eval_hub)

text \<open>The bound of one entry beyond the capacity is reached: the allowance is computed before an
  overflow asks for a Gap, so a stream of capacity one can start with a Gap and an event.\<close>

theorem subscribe_exceeds_capacity:
  "\<exists>r a h. hub.reachable r \<and> hub_subscribe sample_now None (hr_hub r) = (Inr a, h) \<and>
     int (length (sm_items (eh_streams h ! a))) = sm_capacity (eh_streams h ! a) + 1"
  by (rule exI [of _ sample_hub_run])
     (simp add: sample_hub_run_reachable, simp add: sample_hub_run_def eval_hub)

theorem subscribe_complete_or_gap_witness:
  "\<exists>h. hub_subscribe sample_now None (hr_hub sample_hub_run) = (Inr 1, h) \<and>
     replay_start 1 (hr_history sample_hub_run) (sm_items (eh_streams h ! 1))"
proof -
  obtain res h where sub: "hub_subscribe sample_now None (hr_hub sample_hub_run) = (res, h)" by fastforce
  then have "hub_subscribe sample_now None (hr_hub sample_hub_run) = (Inr 1, h)"
    using sample_subscribe by simp
  then show ?thesis
    using subscribe_complete_or_gap [OF sample_hub_run_reachable] by fastforce
qed

section \<open>Audit completeness\<close>

text \<open>The pump with the events it was offered, and whether its thread still runs.\<close>

record pump_run =
  pr_offered :: "envelope list"
  pr_pump :: audit_pump

definition pump_start :: "pump_run \<Rightarrow> bool" where
  "pump_start r \<longleftrightarrow> pr_offered r = [] \<and> (\<exists>capacity. audit_pump_init capacity = Inr (pr_pump r))"

inductive pump_run_step :: "audit_observer \<Rightarrow> pump_run \<Rightarrow> pump_run \<Rightarrow> bool" for obs where
  offer: "pump_run_step obs r (r\<lparr>pr_offered := pr_offered r @ [e], pr_pump := pump_offer e (pr_pump r)\<rparr>)"
| work: "pump_step obs (pr_pump r) = (PumpRunning, p) \<Longrightarrow> pump_run_step obs r (r\<lparr>pr_pump := p\<rparr>)"

interpretation pump: transition_system pump_start "pump_run_step obs" for obs .

definition pump_inv :: "audit_observer \<Rightarrow> pump_run \<Rightarrow> bool" where
  "pump_inv obs r \<longleftrightarrow> \<not> ap_degraded (pr_pump r) \<longrightarrow>
     (\<exists>done waiting. pr_offered r = done @ waiting \<and> ap_calls (pr_pump r) = map OnEvent done \<and>
        ap_queue (pr_pump r) = map AuditEvent waiting)"

lemma pump_inv_step:
  assumes "pump_inv obs r" and "pump_run_step obs r r'"
  shows "pump_inv obs r'"
  using assms(2)
proof cases
  case (offer e)
  show ?thesis
  proof (cases "ap_degraded (pr_pump r) \<or> pump_full (pr_pump r)")
    case False
    then obtain "done" waiting where "pr_offered r = done @ waiting" "ap_calls (pr_pump r) = map OnEvent done"
      "ap_queue (pr_pump r) = map AuditEvent waiting"
      using assms(1) by (auto simp: pump_inv_def)
    with False offer show ?thesis
      unfolding pump_inv_def
      by (intro impI exI [of _ "done"] exI [of _ "waiting @ [e]"]) (simp add: pump_offer_def pump_put_def)
  qed (use offer in \<open>auto simp: pump_inv_def pump_offer_def pump_put_def\<close>)
next
  case (work p)
  show ?thesis
  proof (cases "ap_degraded p")
    case False
    then have ok: "\<not> ap_degraded (pr_pump r)"
      using work by (auto simp: pump_step_def Let_def observer_call_def split: list.splits audit_command.splits if_splits)
    then obtain "done" waiting where d: "pr_offered r = done @ waiting" "ap_calls (pr_pump r) = map OnEvent done"
      "ap_queue (pr_pump r) = map AuditEvent waiting"
      using assms(1) by (auto simp: pump_inv_def)
    then obtain e rest where "waiting = e # rest"
      using work by (cases waiting) (auto simp: pump_step_def)
    with d ok work show ?thesis
      unfolding pump_inv_def
      by (intro impI exI [of _ "done @ [e]"] exI [of _ rest]) (auto simp: pump_step_def Let_def observer_call_def)
  qed (use work in \<open>simp add: pump_inv_def\<close>)
qed

lemma pump_inv_reachable: "pump.reachable obs r \<Longrightarrow> pump_inv obs r"
proof (erule pump.invariant)
  show "pump_inv obs s" if "pump_start s" for s
    using that by (auto simp: pump_start_def pump_inv_def audit_pump_init_def bindE_eq_Inr dest!: sym [of _ "pr_pump s"])
qed (rule pump_inv_step)

text \<open>Draining waiting events and the finalisation behind them.\<close>

lemma pump_drain_finalize:
  assumes "pump_drain (length waiting + 1) obs p = (PumpFinalized True, p')"
    and "ap_queue p = map AuditEvent waiting @ [AuditFinalize r]" and "\<not> ap_degraded p"
    and "\<not> ap_degraded p'"
  shows "ap_calls p' = ap_calls p @ map OnEvent waiting @ [Finalize r, CloseObserver]"
  using assms
proof (induction waiting arbitrary: p)
  case Nil
  then show ?case
    by (auto simp: pump_step_def observer_call_def Let_def split: if_splits)
next
  case (Cons e waiting)
  let ?p = "p\<lparr>ap_queue := map AuditEvent waiting @ [AuditFinalize r], ap_calls := ap_calls p @ [OnEvent e],
      ap_degraded := obs (ap_calls p) (OnEvent e)\<rparr>"
  have drain: "pump_drain (length waiting + 1) obs ?p = (PumpFinalized True, p')"
    using Cons.prems(1-3) by (simp add: pump_step_def observer_call_def Let_def)
  have "fst (pump_drain n obs q) \<noteq> PumpFinalized True" if "ap_degraded q" for n q
    using that
    by (induction n arbitrary: q)
       (auto simp: pump_step_def Let_def observer_call_def split: list.splits audit_command.splits if_splits prod.splits pump_status.splits)
  then have "\<not> ap_degraded ?p" using drain by (metis fst_conv)
  then have "ap_calls p' = ap_calls ?p @ map OnEvent waiting @ [Finalize r, CloseObserver]"
    using Cons.IH [OF drain] Cons.prems(4) by simp
  then show ?case by simp
qed

text \<open>C29: When the audit of a session is reported complete, the observer has been called with every event
  the pump was offered, in the order of publication, then with the result, and then closed.\<close>

theorem audit_ok_means_complete:
  assumes "pump.reachable obs r" and "pump_finalize obs in_time res (pr_pump r) = (REC_OK, p)"
  shows "ap_calls p = map OnEvent (pr_offered r) @ [Finalize res, CloseObserver]"
proof -
  let ?p1 = "(pr_pump r)\<lparr>ap_queue := ap_queue (pr_pump r) @ [AuditFinalize res]\<rparr>"
  have ok: "\<not> ap_degraded (pr_pump r)"
    and drain: "pump_drain (length (ap_queue ?p1)) obs ?p1 = (PumpFinalized True, p)" and "\<not> ap_degraded p"
    using assms(2) by (auto simp: pump_finalize_def Let_def split: if_splits prod.splits pump_status.splits)
  then obtain "done" waiting where d: "pr_offered r = done @ waiting" "ap_calls (pr_pump r) = map OnEvent done"
      "ap_queue (pr_pump r) = map AuditEvent waiting"
    using pump_inv_reachable [OF assms(1)] by (auto simp: pump_inv_def)
  have "ap_calls p = ap_calls ?p1 @ map OnEvent waiting @ [Finalize res, CloseObserver]"
    by (rule pump_drain_finalize) (use drain d ok \<open>\<not> ap_degraded p\<close> in auto)
  then show ?thesis using d by simp
qed

definition sample_result :: operation_result where
  "sample_result = interrupted_result ST_CANCELED RAN \<lparr>rl_items = [sample_item], rl_progress = None\<rparr> None"

text \<open>An observer that never raises, a pump of capacity four, one event taken and one waiting.\<close>

definition sample_pump_run :: pump_run where
  "sample_pump_run =
     \<lparr>pr_offered = [sample_envelope, sample_envelope],
      pr_pump = \<lparr>ap_capacity = 4, ap_queue = [AuditEvent sample_envelope], ap_degraded = False, ap_closed = False,
        ap_calls = [OnEvent sample_envelope]\<rparr>\<rparr>"

lemma sample_pump_run_reachable: "pump.reachable (\<lambda>_ _. False) sample_pump_run"
proof -
  let ?p0 = "\<lparr>ap_capacity = 4, ap_queue = [], ap_degraded = False, ap_closed = False, ap_calls = []\<rparr>"
  let ?r0 = "\<lparr>pr_offered = [], pr_pump = ?p0\<rparr>"
  let ?r1 = "?r0\<lparr>pr_offered := [sample_envelope], pr_pump := ?p0\<lparr>ap_queue := [AuditEvent sample_envelope]\<rparr>\<rparr>"
  let ?r2 = "?r1\<lparr>pr_pump := ?p0\<lparr>ap_calls := [OnEvent sample_envelope]\<rparr>\<rparr>"
  note eval = pump_offer_def pump_put_def pump_full_def pump_step_def observer_call_def
  have "pump_start ?r0" by (auto simp: pump_start_def audit_pump_init_def intro!: exI [of _ 4])
  then have "pump.reachable (\<lambda>_ _. False) ?r0" by (rule pump.start)
  moreover have "pump_run_step (\<lambda>_ _. False) ?r0 ?r1"
    using pump_run_step.offer [of _ ?r0 sample_envelope] by (simp add: eval)
  moreover have "pump_run_step (\<lambda>_ _. False) ?r1 ?r2"
    using pump_run_step.work [of "\<lambda>_ _. False" ?r1] by (simp add: eval)
  moreover have "pump_run_step (\<lambda>_ _. False) ?r2 sample_pump_run"
    using pump_run_step.offer [of _ ?r2 sample_envelope] by (simp add: eval sample_pump_run_def)
  ultimately show ?thesis by (meson pump.next_step)
qed

theorem audit_ok_means_complete_witness:
  "ap_calls (snd (pump_finalize (\<lambda>_ _. False) True sample_result (pr_pump sample_pump_run))) =
     [OnEvent sample_envelope, OnEvent sample_envelope, Finalize sample_result, CloseObserver]"
proof -
  obtain st p where p: "pump_finalize (\<lambda>_ _. False) True sample_result (pr_pump sample_pump_run) = (st, p)" by fastforce
  then have "st = REC_OK"
    by (auto simp: sample_pump_run_def pump_finalize_def pump_full_def pump_step_def observer_call_def Let_def)
  then show ?thesis
    using audit_ok_means_complete [OF sample_pump_run_reachable] p by (simp add: sample_pump_run_def)
qed

end
