(* ===== verification/Custody.thy ===== *)
theory Custody
  imports Session Canonical_Json Complex_Main
begin

text \<open>
  Resource custody (\<^verbatim>\<open>dispatcher/custody.py\<close>): the contract every lock provider promises, as a locale;
  the in-process provider, which the contract is proved of; and the Windows provider, which takes one
  named mutex after the other. What the operating system answers is a parameter.
\<close>

section \<open>The contract of a provider\<close>

datatype acquire_result = Acquired nat | AcquireCanceled | AcquireWaits

locale lock_provider =
  fixes held :: "'s \<Rightarrow> resource_id set"
    and owns :: "nat \<Rightarrow> 's \<Rightarrow> resource_id set"
    and acquire :: "resource_id list \<Rightarrow> bool \<Rightarrow> 's \<Rightarrow> acquire_result \<times> 's"
    and release :: "nat \<Rightarrow> 's \<Rightarrow> 's"
  assumes acquired: "acquire rs canceled s = (Acquired l, s') \<Longrightarrow>
      owns l s = {} \<and> owns l s' = set rs \<and> set rs \<inter> held s = {} \<and> held s' = held s \<union> set rs"
    and acquired_other: "acquire rs canceled s = (Acquired l, s') \<Longrightarrow> m \<noteq> l \<Longrightarrow> owns m s' = owns m s"
    and not_acquired: "acquire rs canceled s = (r, s') \<Longrightarrow> (\<forall>l. r \<noteq> Acquired l) \<Longrightarrow> s' = s"
    and released: "held (release l s) = held s - owns l s" "owns l (release l s) = {}"
    and released_other: "m \<noteq> l \<Longrightarrow> owns m (release l s) = owns m s"
begin

definition exclusive :: "'s \<Rightarrow> bool" where
  "exclusive s \<longleftrightarrow> (\<forall>l m. l \<noteq> m \<longrightarrow> owns l s \<inter> owns m s = {}) \<and> (\<forall>l. owns l s \<subseteq> held s)"

lemma exclusiveD: "exclusive s \<Longrightarrow> x \<in> owns l s \<Longrightarrow> x \<in> owns m s \<Longrightarrow> l = m"
  by (auto simp: exclusive_def)

lemma exclusive_acquire:
  assumes "exclusive s" and "acquire rs canceled s = (r, s')"
  shows "exclusive s'"
proof (cases "\<exists>l. r = Acquired l")
  case True
  then obtain l where r: "acquire rs canceled s = (Acquired l, s')" using assms(2) by auto
  note new = acquired [OF r]
  have "owns m s' = (if m = l then set rs else owns m s)" for m
    using new acquired_other [OF r] by simp
  then show ?thesis using assms(1) new by (fastforce simp: exclusive_def)
next
  case False
  then show ?thesis using assms not_acquired [OF assms(2)] by auto
qed

lemma owns_release: "owns m (release l s) = (if m = l then {} else owns m s)"
  using released(2) released_other by auto

lemma exclusive_release:
  assumes "exclusive s"
  shows "exclusive (release l s)"
proof -
  have "owns m s \<subseteq> held s - owns l s" if "m \<noteq> l" for m
    using assms that unfolding exclusive_def by blast
  then show ?thesis
    using assms unfolding exclusive_def owns_release released(1) by auto
qed

text \<open>Releasing a lease again changes nothing.\<close>

lemma release_again: "held (release l (release l s)) = held (release l s)"
  by (simp add: released)

end

section \<open>The in-process provider\<close>

text \<open>
  \<^verbatim>\<open>_LOCAL_HELD\<close> and the leases handed out, each with its resources and its \<^verbatim>\<open>_released\<close> flag. One look
  of \<^verbatim>\<open>acquire\<close> at the table either takes the resources, finds the caller canceled, or waits.
\<close>

record lock_table =
  lt_held :: "resource_id set"
  lt_leases :: "(resource_id list \<times> bool) list"

definition poll_interval_check :: "rat \<Rightarrow> unit res" where
  "poll_interval_check poll_interval =
     raise_if (poll_interval \<le> 0) (ValueError ''poll_interval must be positive'')"

definition custody_order :: "resource_id list \<Rightarrow> resource_id list" where
  "custody_order resources = sorted_list_of_set (set resources)"

definition lock_acquire :: "resource_id list \<Rightarrow> bool \<Rightarrow> lock_table \<Rightarrow> acquire_result \<times> lock_table" where
  "lock_acquire resources canceled t =
     (let ordered = custody_order resources
      in if \<exists>r \<in> set ordered. r \<in> lt_held t
         then (if canceled then AcquireCanceled else AcquireWaits, t)
         else if canceled then (AcquireCanceled, t)
         else (Acquired (length (lt_leases t)),
               t\<lparr>lt_held := lt_held t \<union> set ordered, lt_leases := lt_leases t @ [(ordered, False)]\<rparr>))"

text \<open>\<^verbatim>\<open>_CallbackLease.release\<close> with the callback of this provider.\<close>

definition lease_release :: "nat \<Rightarrow> lock_table \<Rightarrow> lock_table" where
  "lease_release l t =
     (if l < length (lt_leases t)
      then (case lt_leases t ! l of (ordered, already) \<Rightarrow>
              if already then t
              else t\<lparr>lt_held := lt_held t - set ordered, lt_leases := (lt_leases t)[l := (ordered, True)]\<rparr>)
      else t)"

definition lease_owns :: "nat \<Rightarrow> lock_table \<Rightarrow> resource_id set" where
  "lease_owns l t =
     (if l < length (lt_leases t) \<and> \<not> snd (lt_leases t ! l) then set (fst (lt_leases t ! l)) else {})"

lemma set_custody_order [simp]: "set (custody_order rs) = set rs"
  by (simp add: custody_order_def)

interpretation locks: lock_provider lt_held lease_owns lock_acquire lease_release
proof
  fix rs canceled t l m t'
  assume a: "lock_acquire rs canceled t = (Acquired l, t')"
  then show "lease_owns l t = {} \<and> lease_owns l t' = set rs \<and> set rs \<inter> lt_held t = {} \<and> lt_held t' = lt_held t \<union> set rs"
    by (auto simp: lock_acquire_def Let_def lease_owns_def nth_append split: if_splits)
  from a show "lease_owns m t' = lease_owns m t" if "m \<noteq> l"
    using that by (auto simp: lock_acquire_def Let_def lease_owns_def nth_append split: if_splits)
next
  fix rs canceled t r t'
  assume "lock_acquire rs canceled t = (r, t')" and "\<forall>l. r \<noteq> Acquired l"
  then show "t' = t" by (auto simp: lock_acquire_def Let_def split: if_splits)
next
  fix l t
  show "lt_held (lease_release l t) = lt_held t - lease_owns l t" "lease_owns l (lease_release l t) = {}"
    by (auto simp: lease_release_def lease_owns_def split: prod.splits)
next
  fix m l t
  assume "m \<noteq> (l::nat)"
  then show "lease_owns m (lease_release l t) = lease_owns m t"
    by (auto simp: lease_release_def lease_owns_def split: prod.splits)
qed

section \<open>The Windows provider\<close>

text \<open>\<open>sha\<close> is SHA-256. The name is \<^verbatim>\<open>Global\\NamiSync.Resource.\<close> and the hexadecimal digest.\<close>

definition mutex_name :: "(bytes \<Rightarrow> bytes) \<Rightarrow> resource_id \<Rightarrow> pystr" where
  "mutex_name sha r =
     lit ''Global'' @ [92] @ lit ''NamiSync.Resource.'' @
     hexdigest (sha (utf8_encode (rs_namespace r @ [0] @ rs_key r)))"

datatype wait_result = WAIT_OBJECT_0 | WAIT_ABANDONED | WAIT_TIMEOUT | WAIT_FAILED | WAIT_UNEXPECTED int

datatype mutex_exn = MutexCanceled | MutexOSError

datatype mutex_wait = MutexOwned | MutexRaised mutex_exn | MutexPending

text \<open>The loop of one mutex: each iteration asks whether the caller is canceled, then waits.\<close>

fun mutex_wait_loop :: "(bool \<times> wait_result) list \<Rightarrow> mutex_wait" where
  "mutex_wait_loop [] = MutexPending"
| "mutex_wait_loop ((canceled, outcome) # rest) =
     (if canceled then MutexRaised MutexCanceled
      else case outcome of
             WAIT_OBJECT_0 \<Rightarrow> MutexOwned
           | WAIT_ABANDONED \<Rightarrow> MutexOwned
           | WAIT_TIMEOUT \<Rightarrow> mutex_wait_loop rest
           | WAIT_FAILED \<Rightarrow> MutexRaised MutexOSError
           | WAIT_UNEXPECTED _ \<Rightarrow> MutexRaised MutexOSError)"

text \<open>
  What the system answers for one resource: whether the caller is canceled before the mutex is
  created, the handle (zero where creation fails), and the answers of its loop. The calls that
  change what the process holds are recorded.
\<close>

record mutex_answers =
  ma_canceled :: bool
  ma_handle :: nat
  ma_waits :: "(bool \<times> wait_result) list"

datatype mutex_call = CreateMutex pystr nat | OwnMutex nat | ReleaseMutex nat | CloseHandle nat

datatype mutex_end = MutexLease "nat list" | MutexFailed mutex_exn | MutexBlocked

definition release_handles :: "nat list \<Rightarrow> mutex_call list" where
  "release_handles handles = concat (map (\<lambda>h. [ReleaseMutex h, CloseHandle h]) (rev handles))"

fun mutex_acquire ::
    "(resource_id \<Rightarrow> pystr) \<Rightarrow> (resource_id \<times> mutex_answers) list \<Rightarrow> nat list \<Rightarrow> mutex_end \<times> mutex_call list" where
  "mutex_acquire name [] handles = (MutexLease handles, [])"
| "mutex_acquire name ((r, a) # rest) handles =
     (if ma_canceled a then (MutexFailed MutexCanceled, release_handles handles)
      else if ma_handle a = 0 then (MutexFailed MutexOSError, release_handles handles)
      else
        (let h = ma_handle a; opened = CreateMutex (name r) h
         in case mutex_wait_loop (ma_waits a) of
              MutexOwned \<Rightarrow>
                (case mutex_acquire name rest (handles @ [h]) of
                   (e, calls) \<Rightarrow> (e, opened # OwnMutex h # calls))
            | MutexRaised e \<Rightarrow> (MutexFailed e, opened # CloseHandle h # release_handles handles)
            | MutexPending \<Rightarrow> (MutexBlocked, [opened])))"

definition windows_acquire ::
    "(bytes \<Rightarrow> bytes) \<Rightarrow> resource_id list \<Rightarrow> (resource_id \<Rightarrow> mutex_answers) \<Rightarrow> mutex_end \<times> mutex_call list" where
  "windows_acquire sha resources os =
     mutex_acquire (mutex_name sha) (map (\<lambda>r. (r, os r)) (custody_order resources)) []"

section \<open>What the process holds\<close>

text \<open>The handles that are open and the mutexes that are owned after some calls.\<close>

fun mutex_effect :: "mutex_call \<Rightarrow> nat set \<times> nat set \<Rightarrow> nat set \<times> nat set" where
  "mutex_effect (CreateMutex _ h) (opened, owned) = (insert h opened, owned)"
| "mutex_effect (OwnMutex h) (opened, owned) = (opened, insert h owned)"
| "mutex_effect (ReleaseMutex h) (opened, owned) = (opened, owned - {h})"
| "mutex_effect (CloseHandle h) (opened, owned) = (opened - {h}, owned)"

definition mutex_effects :: "mutex_call list \<Rightarrow> nat set \<times> nat set \<Rightarrow> nat set \<times> nat set" where
  "mutex_effects calls st = foldl (\<lambda>st c. mutex_effect c st) st calls"

lemma mutex_effects_simps [simp]:
  "mutex_effects [] st = st"
  "mutex_effects (c # calls) st = mutex_effects calls (mutex_effect c st)"
  "mutex_effects (calls @ calls') st = mutex_effects calls' (mutex_effects calls st)"
  by (simp_all add: mutex_effects_def)

lemma effects_release: "mutex_effects (release_handles hs) (opened, owned) = (opened - set hs, owned - set hs)"
  by (induction hs arbitrary: opened owned rule: rev_induct) (auto simp: release_handles_def)

lemma mutex_acquire_effects:
  assumes "mutex_acquire name todo handles = (e, calls)"
    and "distinct (map (ma_handle \<circ> snd) todo)" and "set (map (ma_handle \<circ> snd) todo) \<inter> set handles = {}"
  shows "(\<forall>x. e = MutexFailed x \<longrightarrow> mutex_effects calls (set handles, set handles) = ({}, {})) \<and>
     (\<forall>hs. e = MutexLease hs \<longrightarrow> mutex_effects calls (set handles, set handles) = (set hs, set hs) \<and>
        hs = handles @ map (ma_handle \<circ> snd) todo)"
  using assms
proof (induction name todo handles arbitrary: e calls rule: mutex_acquire.induct)
  case (1 name handles)
  then show ?case by auto
next
  case (2 name r a rest handles)
  show ?case
  proof (cases "\<not> ma_canceled a \<and> ma_handle a \<noteq> 0 \<and> mutex_wait_loop (ma_waits a) = MutexOwned")
    case True
    then obtain calls' where rest: "mutex_acquire name rest (handles @ [ma_handle a]) = (e, calls')"
      and calls: "calls = CreateMutex (name r) (ma_handle a) # OwnMutex (ma_handle a) # calls'"
      using "2.prems"(1) by (auto simp: Let_def split: prod.splits)
    have "distinct (map (ma_handle \<circ> snd) rest)" "set (map (ma_handle \<circ> snd) rest) \<inter> set (handles @ [ma_handle a]) = {}"
      using "2.prems"(2,3) by (auto simp: comp_def)
    from "2.IH" [OF _ _ refl refl _ rest this] True show ?thesis
      by (simp add: calls)
  next
    case False
    then show ?thesis
      using "2.prems" by (auto simp: Let_def effects_release split: if_splits mutex_wait.splits)
  qed
qed


definition sample_resources :: "resource_id list" where
  "sample_resources = [ResourceId (lit ''root'') (lit ''b''), ResourceId (lit ''root'') (lit ''a'')]"

definition sample_mutexes :: "resource_id \<Rightarrow> mutex_answers" where
  "sample_mutexes r =
     (if rs_key r = lit ''a'' then \<lparr>ma_canceled = False, ma_handle = 7, ma_waits = [(False, WAIT_TIMEOUT), (False, WAIT_OBJECT_0)]\<rparr>
      else \<lparr>ma_canceled = False, ma_handle = 8, ma_waits = [(False, WAIT_TIMEOUT), (True, WAIT_TIMEOUT)]\<rparr>)"

lemma custody_order_sample: "custody_order sample_resources = rev sample_resources"
  by (simp add: custody_order_def sample_resources_def less_eq_resource_id_def lit_def)


section \<open>No deadlock among acquiring workers\<close>

text \<open>
  A worker has taken some of its resources and wants the others, in custody order. It is blocked
  by a worker that has the one it wants next.
\<close>

record acquiring =
  aq_have :: "resource_id list"
  aq_want :: "resource_id list"

definition acquires :: "resource_id list \<Rightarrow> acquiring \<Rightarrow> bool" where
  "acquires resources w \<longleftrightarrow> aq_have w @ aq_want w = custody_order resources"

definition blocked_by :: "acquiring \<Rightarrow> acquiring \<Rightarrow> bool" where
  "blocked_by w v \<longleftrightarrow> aq_want w \<noteq> [] \<and> hd (aq_want w) \<in> set (aq_have v)"

lemma blocked_by_increases:
  assumes "acquires rs v" and "blocked_by w v" and "aq_want v \<noteq> []"
  shows "hd (aq_want w) < hd (aq_want v)"
proof -
  have "sorted_wrt (<) (aq_have v @ aq_want v)"
    using assms(1) by (simp add: acquires_def custody_order_def)
  then show ?thesis using assms(2,3) by (auto simp: sorted_wrt_append blocked_by_def hd_in_set)
qed



end
