(* ===== verification/Dispatcher.thy ===== *)
theory Dispatcher
  imports Event_Bus Custody
begin

text \<open>
  Admission, scheduling, control and custody of sessions (\<^verbatim>\<open>dispatcher/contracts.py\<close>, \<^verbatim>\<open>store.py\<close> and
  \<^verbatim>\<open>dispatcher.py\<close>). Every block that runs under the dispatcher's condition is one function on the
  dispatcher's state; what a thread does between two blocks is its phase. Objects that several
  dictionaries and threads share (event hubs, controls, item lists) live in heaps and are referred to
  by address. The registered workflows, the clock, the store's failures and the observer are
  parameters or answers of a step.
\<close>

section \<open>Contracts\<close>

record prepared_session =
  ps_payload :: bytes
  ps_resources :: "resource_id set"

record 'req workflow_registration =
  rg_prepare :: "'req \<Rightarrow> prepared_session res"
  rg_open :: "bytes \<Rightarrow> exn + program"
  rg_supports_pause :: bool

type_synonym 'req registry = "pystr \<Rightarrow> 'req workflow_registration option"

datatype control_code = CC_ACCEPTED | CC_NOT_FOUND | CC_ILLEGAL_STATE | CC_UNSUPPORTED

datatype control_action = CA_PAUSE | CA_RESUME | CA_CANCEL

definition control_decision :: "control_action \<Rightarrow> session_state \<Rightarrow> bool \<Rightarrow> control_code" where
  "control_decision action state supports_pause =
     (case action of
        CA_PAUSE \<Rightarrow>
          (if \<not> supports_pause then CC_UNSUPPORTED
           else if state = ST_RUNNING then CC_ACCEPTED else CC_ILLEGAL_STATE)
      | CA_RESUME \<Rightarrow>
          (if state \<in> {ST_PAUSED, ST_INTERRUPTED} then CC_ACCEPTED else CC_ILLEGAL_STATE)
      | CA_CANCEL \<Rightarrow>
          (if \<not> is_terminal state \<and> state \<noteq> ST_CANCELING then CC_ACCEPTED else CC_ILLEGAL_STATE))"

record control_result =
  cr_code :: control_code
  cr_session_id :: session_id
  cr_before :: "session_state option"
  cr_after :: "session_state option"
  cr_detail :: pystr

record shutdown_result =
  sr_complete :: bool
  sr_unfinished :: "session_id list"
  sr_custody_released :: bool

section \<open>Store and control\<close>

definition store_put :: "session_record \<Rightarrow> (session_id, session_record) dict \<Rightarrow> (session_id, session_record) dict" where
  "store_put r st = dict_set (se_session_id r) r st"

definition store_drop :: "session_id \<Rightarrow> (session_id, session_record) dict \<Rightarrow> (session_id, session_record) dict" where
  "store_drop sid st = dict_pop sid st"

definition store_snapshot :: "(session_id, session_record) dict \<Rightarrow> session_record list" where
  "store_snapshot st = sort_key se_admission_order (map snd st)"

record control =
  ct_pause :: bool
  ct_cancel :: bool

definition request_pause :: "control \<Rightarrow> control" where
  "request_pause c = c\<lparr>ct_pause := True\<rparr>"

definition request_cancel :: "control \<Rightarrow> control" where
  "request_cancel c = c\<lparr>ct_cancel := True\<rparr>"

definition control_reset :: "control \<Rightarrow> control" where
  "control_reset c = c\<lparr>ct_pause := False, ct_cancel := False\<rparr>"

definition control_checkpoint :: "control \<Rightarrow> exn option" where
  "control_checkpoint c = (if ct_cancel c then Some Canceled else if ct_pause c then Some PauseRequested else None)"

section \<open>State\<close>

text \<open>
  The variables of one \<^verbatim>\<open>_run_core\<close> call: the addresses of the hub, the control and the item list it
  captured, its disposition, whether the registration supports pausing, and the latest progress.
\<close>

record core =
  co_hub :: nat
  co_control :: nat
  co_items :: nat
  co_disposition :: disposition
  co_supports_pause :: bool
  co_progress :: "progress option"

text \<open>
  Where a thread stands. The phases of a worker follow \<^verbatim>\<open>_run_worker\<close>, \<^verbatim>\<open>_run_core\<close>, \<^verbatim>\<open>run_session\<close>, \<^verbatim>\<open>_settle\<close>
  and \<^verbatim>\<open>_release_custody\<close>; the phases of a client follow \<^verbatim>\<open>_admit\<close>, \<^verbatim>\<open>close\<close>, \<^verbatim>\<open>shutdown\<close> and the events that
  a control operation publishes after it has left the lock.
\<close>

datatype after_release = SettleTo session_state "operation_result option" core | Finally

datatype phase =
    WStart
  | WAcquire session_record nat
  | WLeased nat
  | WOpen session_record
  | WBegin program
  | WAnnounce nat program
  | WCore "program option" disposition "exn option"
  | WCheck "program option" "exn option" core
  | WRun program core
  | WSnapshot core
  | WRelease after_release
  | WUnlock nat "session_record option" after_release
  | WUnreserve "session_record option" after_release
  | WTransition session_state "operation_result option" core
  | WStateEvent session_state "operation_result option" core
  | WAudit operation_result core
  | WPublish operation_result core
  | WTerminal operation_result core
  | WDropItems
  | WDone
  | CAdmit pystr prepared_session bool datetime
  | CInsert session_record event_hub
  | CStopped event_hub
  | CLeave
  | CEmit nat session_state bool
  | CClosing
  | CHubClose nat
  | CShutdown "session_id list"
  | TEnd

record dispatcher =
  dp_records :: "(session_id, session_record) dict"
  dp_controls :: "(session_id, nat) dict"
  dp_hubs :: "(session_id, nat) dict"
  dp_item_events :: "(session_id, nat) dict"
  dp_pending :: "session_id list"
  dp_reserved :: "resource_id set"
  dp_leases :: "(session_id, nat) dict"
  dp_workers :: "(session_id, nat) dict"
  dp_admitting :: int
  dp_admission_order :: int
  dp_accepting :: bool
  dp_store_failures :: "py_error list"
  dp_custody_failures :: "py_error list"
  dp_store :: "(session_id, session_record) dict"
  dp_locks :: lock_table
  dp_hub_heap :: "event_hub list"
  dp_control_heap :: "control list"
  dp_item_heap :: "item_outcome list list"
  dp_threads :: "(session_id \<times> phase) list"

record config =
  cf_replay_capacity :: int
  cf_subscriber_capacity :: int
  cf_audit_capacity :: int
  cf_audit_timeout :: rat

definition dispatcher_init :: dispatcher where
  "dispatcher_init =
     \<lparr>dp_records = [], dp_controls = [], dp_hubs = [], dp_item_events = [], dp_pending = [], dp_reserved = {},
      dp_leases = [], dp_workers = [], dp_admitting = 0, dp_admission_order = 0, dp_accepting = True,
      dp_store_failures = [], dp_custody_failures = [], dp_store = [],
      dp_locks = \<lparr>lt_held = {}, lt_leases = []\<rparr>, dp_hub_heap = [], dp_control_heap = [], dp_item_heap = [],
      dp_threads = []\<rparr>"

text \<open>What the world answers at a step.\<close>

record answers =
  an_now :: datetime
  an_put_error :: "py_error option"
  an_acquire_error :: "exn option"
  an_release_error :: "py_error option"
  an_snapshot :: "exn + bytes"
  an_observer :: audit_observer
  an_in_time :: bool

section \<open>Helpers of the dispatcher\<close>

definition exn_of :: "py_error \<Rightarrow> exn" where
  "exn_of e =
     (case e of
        ValueError m \<Rightarrow> OtherError (lit ''ValueError'') (lit m)
      | TypeError m \<Rightarrow> OtherError (lit ''TypeError'') (lit m)
      | _ \<Rightarrow> OtherError (lit ''KeyError'') [])"

definition dispatcher_now :: "datetime \<Rightarrow> datetime res" where
  "dispatcher_now t = bindE (require_utc t) (\<lambda>_. Inr t)"

definition disposition_of :: "session_record \<Rightarrow> disposition" where
  "disposition_of r = (if se_started_at r \<noteq> None then RAN else UNRUN)"

definition is_settled :: "session_record \<Rightarrow> bool" where
  "is_settled r \<longleftrightarrow> is_terminal (se_state r) \<and> se_result r \<noteq> None"

definition missing_control :: "session_id \<Rightarrow> control_result" where
  "missing_control sid =
     \<lparr>cr_code = CC_NOT_FOUND, cr_session_id = sid, cr_before = None, cr_after = None,
      cr_detail = lit ''session does not exist''\<rparr>"

definition illegal_control :: "session_record \<Rightarrow> string \<Rightarrow> control_result" where
  "illegal_control r operation =
     \<lparr>cr_code = CC_ILLEGAL_STATE, cr_session_id = se_session_id r, cr_before = Some (se_state r),
      cr_after = Some (se_state r),
      cr_detail = lit ''cannot '' @ lit operation @ lit '' a session in '' @ session_state_value (se_state r)\<rparr>"

definition get_key :: "session_id \<Rightarrow> (session_id, 'v) dict \<Rightarrow> 'v res" where
  "get_key sid d = (case map_of d sid of None \<Rightarrow> Inl KeyError | Some v \<Rightarrow> Inr v)"

definition goto :: "nat \<Rightarrow> phase \<Rightarrow> dispatcher \<Rightarrow> dispatcher" where
  "goto t ph s = s\<lparr>dp_threads := (dp_threads s)[t := (fst (dp_threads s ! t), ph)]\<rparr>"

definition spawn :: "session_id \<Rightarrow> phase \<Rightarrow> dispatcher \<Rightarrow> dispatcher" where
  "spawn sid ph s = s\<lparr>dp_threads := dp_threads s @ [(sid, ph)]\<rparr>"

definition update_control :: "nat \<Rightarrow> (control \<Rightarrow> control) \<Rightarrow> dispatcher \<Rightarrow> dispatcher" where
  "update_control a f s =
     s\<lparr>dp_control_heap := (dp_control_heap s)[a := f (dp_control_heap s ! a)]\<rparr>"

definition emit_at :: "datetime \<Rightarrow> nat \<Rightarrow> event_body \<Rightarrow> dispatcher \<Rightarrow> py_error option \<times> dispatcher" where
  "emit_at now a body s =
     (case hub_emit now body (dp_hub_heap s ! a) of
        (res, h) \<Rightarrow> (case res of Inl e \<Rightarrow> Some e | Inr _ \<Rightarrow> None, s\<lparr>dp_hub_heap := (dp_hub_heap s)[a := h]\<rparr>))"

definition persist_locked :: "py_error option \<Rightarrow> session_record \<Rightarrow> dispatcher \<Rightarrow> dispatcher" where
  "persist_locked put_error r s =
     (case put_error of
        None \<Rightarrow> s\<lparr>dp_store := store_put r (dp_store s)\<rparr>
      | Some e \<Rightarrow> s\<lparr>dp_store_failures := dp_store_failures s @ [e]\<rparr>)"

text \<open>
  \<^verbatim>\<open>_transition_locked\<close>, with the updated record and the address of the hub. Records and hubs are
  inserted and removed in the same blocks, so the lookup of the hub never fails after the update.
\<close>

definition transition_locked ::
    "answers \<Rightarrow> session_id \<Rightarrow> session_state \<Rightarrow> operation_result option \<Rightarrow> dispatcher \<Rightarrow>
     (session_record \<times> nat \<times> dispatcher) res" where
  "transition_locked ans sid state result s =
     bindE (get_key sid (dp_records s)) (\<lambda>record.
     bindE (require_transition (se_state record) state) (\<lambda>_.
     bindE (dispatcher_now (an_now ans)) (\<lambda>now.
       let started = (if state = ST_RUNNING \<and> se_started_at record = None then Some now else se_started_at record);
           ended = (if is_terminal state then Some now else None);
           updated = record\<lparr>se_state := state, se_started_at := started, se_ended_at := ended, se_result := result\<rparr>
       in bindE (session_record_post_init updated) (\<lambda>_.
          let s' = persist_locked (an_put_error ans) updated (s\<lparr>dp_records := dict_set sid updated (dp_records s)\<rparr>)
          in bindE (get_key sid (dp_hubs s')) (\<lambda>hub. Inr (updated, hub, s'))))))"

definition publish_result :: "answers \<Rightarrow> session_id \<Rightarrow> operation_result \<Rightarrow> dispatcher \<Rightarrow> dispatcher res" where
  "publish_result ans sid result s =
     bindE (get_key sid (dp_records s)) (\<lambda>record.
       let updated = record\<lparr>se_result := Some result\<rparr>
       in bindE (session_record_post_init updated) (\<lambda>_.
          Inr (persist_locked (an_put_error ans) updated (s\<lparr>dp_records := dict_set sid updated (dp_records s)\<rparr>))))"

definition replace_payload :: "answers \<Rightarrow> session_id \<Rightarrow> bytes \<Rightarrow> dispatcher \<Rightarrow> dispatcher res" where
  "replace_payload ans sid payload s =
     bindE (get_key sid (dp_records s)) (\<lambda>record.
       let updated = record\<lparr>se_payload := payload\<rparr>
       in bindE (session_record_post_init updated) (\<lambda>_.
          Inr (persist_locked (an_put_error ans) updated (s\<lparr>dp_records := dict_set sid updated (dp_records s)\<rparr>))))"

section \<open>Clients\<close>

text \<open>
  \<^verbatim>\<open>submit\<close>: its first block, then \<^verbatim>\<open>prepare\<close>, which is the workflow's code and does not look at the
  dispatcher. \<open>sid\<close> is the fresh identifier; the call goes on as the thread that is added.
\<close>

definition submit_begin ::
    "'req registry \<Rightarrow> answers \<Rightarrow> session_id \<Rightarrow> pystr \<Rightarrow> 'req \<Rightarrow> dispatcher \<Rightarrow> unit res \<times> dispatcher" where
  "submit_begin reg ans sid kind request s =
     (if \<not> dp_accepting s then (Inl AdmissionClosed, s)
      else case reg kind of
             None \<Rightarrow> (Inl UnknownWorkflowKind, s)
           | Some rg \<Rightarrow>
               (let s1 = s\<lparr>dp_admitting := dp_admitting s + 1\<rparr>
                in case rg_prepare rg request of
                     Inl e \<Rightarrow> (Inl e, spawn sid CLeave s1)
                   | Inr prepared \<Rightarrow>
                       (case dispatcher_now (an_now ans) of
                          Inl e \<Rightarrow> (Inl e, spawn sid CLeave s1)
                        | Inr now \<Rightarrow> (Inr (), spawn sid (CAdmit kind prepared (rg_supports_pause rg) now) s1))))"

text \<open>The admission order, the record, the hub and the store's copy.\<close>

definition admit_step ::
    "config \<Rightarrow> answers \<Rightarrow> nat \<Rightarrow> session_id \<Rightarrow> pystr \<Rightarrow> prepared_session \<Rightarrow> bool \<Rightarrow> datetime \<Rightarrow> dispatcher \<Rightarrow> dispatcher" where
  "admit_step cfg ans t sid kind prepared supports_pause created s =
     (let s1 = s\<lparr>dp_admission_order := dp_admission_order s + 1\<rparr>;
          record = \<lparr>se_session_id = sid, se_kind = kind, se_state = ST_PENDING,
                    se_resources = sorted_list_of_set (ps_resources prepared), se_payload = ps_payload prepared,
                    se_supports_pause = supports_pause, se_admission_order = dp_admission_order s,
                    se_created_at = created, se_started_at = None, se_ended_at = None, se_result = None\<rparr>
      in case session_record_post_init record of
           Inl _ \<Rightarrow> goto t CLeave s1
         | Inr _ \<Rightarrow>
             (case event_hub_init sid (se_state record) (cf_replay_capacity cfg) (cf_subscriber_capacity cfg)
                     (cf_audit_capacity cfg) (cf_audit_timeout cfg) of
                Inl _ \<Rightarrow> goto t CLeave s1
              | Inr hub \<Rightarrow>
                  (case an_put_error ans of
                     Some _ \<Rightarrow> goto t CLeave s1
                   | None \<Rightarrow> goto t (CInsert record hub) (s1\<lparr>dp_store := store_put record (dp_store s1)\<rparr>))))"

text \<open>The block that makes the session visible, unless the dispatcher has stopped meanwhile.\<close>

definition insert_step :: "nat \<Rightarrow> session_record \<Rightarrow> event_hub \<Rightarrow> dispatcher \<Rightarrow> dispatcher" where
  "insert_step t record hub s =
     (if \<not> dp_accepting s then goto t (CStopped hub) s
      else
        (let sid = se_session_id record; a = length (dp_hub_heap s)
         in goto t (CEmit a ST_PENDING True)
              (s\<lparr>dp_records := dict_set sid record (dp_records s),
                 dp_controls := dict_set sid (length (dp_control_heap s)) (dp_controls s),
                 dp_hubs := dict_set sid a (dp_hubs s),
                 dp_item_events := dict_set sid (length (dp_item_heap s)) (dp_item_events s),
                 dp_pending := dp_pending s @ [sid],
                 dp_hub_heap := dp_hub_heap s @ [hub],
                 dp_control_heap := dp_control_heap s @ [\<lparr>ct_pause = False, ct_cancel = False\<rparr>],
                 dp_item_heap := dp_item_heap s @ [[]]\<rparr>)))"

definition stopped_step :: "nat \<Rightarrow> session_id \<Rightarrow> dispatcher \<Rightarrow> dispatcher" where
  "stopped_step t sid s = goto t CLeave (s\<lparr>dp_store := store_drop sid (dp_store s)\<rparr>)"

definition leave_step :: "nat \<Rightarrow> dispatcher \<Rightarrow> dispatcher" where
  "leave_step t s = goto t TEnd (s\<lparr>dp_admitting := dp_admitting s - 1\<rparr>)"

text \<open>Events published outside the lock; the admission of a session ends with one.\<close>

definition emit_step :: "answers \<Rightarrow> nat \<Rightarrow> nat \<Rightarrow> session_state \<Rightarrow> bool \<Rightarrow> dispatcher \<Rightarrow> dispatcher" where
  "emit_step ans t a state admitting s =
     goto t (if admitting then CLeave else TEnd) (snd (emit_at (an_now ans) a (StateChanged state) s))"

definition dispatcher_get :: "session_id \<Rightarrow> dispatcher \<Rightarrow> session_record res" where
  "dispatcher_get sid s =
     (case map_of (dp_records s) sid of None \<Rightarrow> Inl SessionNotFound | Some r \<Rightarrow> Inr r)"

definition dispatcher_list :: "(session_record \<Rightarrow> bool) option \<Rightarrow> dispatcher \<Rightarrow> session_record list" where
  "dispatcher_list query s =
     (let records = sort_key se_admission_order (map snd (dp_records s))
      in case query of None \<Rightarrow> records | Some q \<Rightarrow> filter q records)"

definition dispatcher_subscribe ::
    "answers \<Rightarrow> session_id \<Rightarrow> int option \<Rightarrow> dispatcher \<Rightarrow> (nat \<times> nat) res \<times> dispatcher" where
  "dispatcher_subscribe ans sid from_seq s =
     (case map_of (dp_hubs s) sid of
        None \<Rightarrow> (Inl SessionNotFound, s)
      | Some a \<Rightarrow>
          (case hub_subscribe (an_now ans) from_seq (dp_hub_heap s ! a) of
             (Inl e, h) \<Rightarrow> (Inl e, s\<lparr>dp_hub_heap := (dp_hub_heap s)[a := h]\<rparr>)
           | (Inr st, h) \<Rightarrow> (Inr (a, st), s\<lparr>dp_hub_heap := (dp_hub_heap s)[a := h]\<rparr>)))"

definition accepted :: "session_id \<Rightarrow> session_record \<Rightarrow> session_state \<Rightarrow> string \<Rightarrow> control_result" where
  "accepted sid before after detail =
     \<lparr>cr_code = CC_ACCEPTED, cr_session_id = sid, cr_before = Some (se_state before), cr_after = Some after,
      cr_detail = lit detail\<rparr>"

definition dispatcher_pause :: "answers \<Rightarrow> session_id \<Rightarrow> dispatcher \<Rightarrow> control_result res \<times> dispatcher" where
  "dispatcher_pause ans sid s =
     (case map_of (dp_records s) sid of
        None \<Rightarrow> (Inr (missing_control sid), s)
      | Some record \<Rightarrow>
          (case control_decision CA_PAUSE (se_state record) (se_supports_pause record) of
             CC_UNSUPPORTED \<Rightarrow>
               (Inr \<lparr>cr_code = CC_UNSUPPORTED, cr_session_id = sid, cr_before = Some (se_state record),
                     cr_after = Some (se_state record),
                     cr_detail = lit ''this registered session kind does not support pause''\<rparr>, s)
           | CC_ACCEPTED \<Rightarrow>
               (case get_key sid (dp_controls s) of
                  Inl e \<Rightarrow> (Inl e, s)
                | Inr c \<Rightarrow>
                    (let s1 = update_control c request_pause s
                     in case transition_locked ans sid ST_PAUSING None s1 of
                          Inl e \<Rightarrow> (Inl e, s1)
                        | Inr (updated, hub, s2) \<Rightarrow>
                            (Inr (accepted sid record (se_state updated)
                               ''pause requested; custody releases after the next checkpoint''),
                             spawn sid (CEmit hub (se_state updated) False) s2)))
           | _ \<Rightarrow> (Inr (illegal_control record ''pause''), s)))"

definition dispatcher_resume :: "answers \<Rightarrow> session_id \<Rightarrow> dispatcher \<Rightarrow> control_result res \<times> dispatcher" where
  "dispatcher_resume ans sid s =
     (case map_of (dp_records s) sid of
        None \<Rightarrow> (Inr (missing_control sid), s)
      | Some record \<Rightarrow>
          if control_decision CA_RESUME (se_state record) (se_supports_pause record) \<noteq> CC_ACCEPTED
          then (Inr (illegal_control record ''resume''), s)
          else
            (case get_key sid (dp_controls s) of
               Inl e \<Rightarrow> (Inl e, s)
             | Inr c \<Rightarrow>
                 (let s1 = update_control c control_reset s
                  in case transition_locked ans sid ST_PENDING None s1 of
                       Inl e \<Rightarrow> (Inl e, s1)
                     | Inr (updated, hub, s2) \<Rightarrow>
                         (Inr (accepted sid record (se_state updated)
                            ''session returned to the back of resource admission''),
                          spawn sid (CEmit hub (se_state updated) False)
                            (s2\<lparr>dp_pending := dp_pending s2 @ [sid]\<rparr>)))))"

definition dispatcher_cancel :: "answers \<Rightarrow> session_id \<Rightarrow> dispatcher \<Rightarrow> control_result res \<times> dispatcher" where
  "dispatcher_cancel ans sid s =
     (case map_of (dp_records s) sid of
        None \<Rightarrow> (Inr (missing_control sid), s)
      | Some record \<Rightarrow>
          if control_decision CA_CANCEL (se_state record) (se_supports_pause record) \<noteq> CC_ACCEPTED
          then (Inr (illegal_control record ''cancel''), s)
          else
            (case get_key sid (dp_controls s) of
               Inl e \<Rightarrow> (Inl e, s)
             | Inr c \<Rightarrow>
                 (let s1 = update_control c request_cancel s
                  in if se_state record = ST_PAUSING
                     then (Inr (accepted sid record (se_state record)
                              ''cancel will settle after the in-progress pause drain''), s1)
                     else
                       (case transition_locked ans sid ST_CANCELING None s1 of
                          Inl e \<Rightarrow> (Inl e, s1)
                        | Inr (updated, hub, s2) \<Rightarrow>
                            (Inr (accepted sid record (se_state updated) ''cancellation requested''),
                             spawn sid (CEmit hub (se_state updated) False)
                               (if se_state record \<in> {ST_PENDING, ST_PAUSED, ST_INTERRUPTED} \<and> sid \<notin> set (dp_pending s2)
                                then s2\<lparr>dp_pending := dp_pending s2 @ [sid]\<rparr> else s2))))))"

definition close_begin :: "session_id \<Rightarrow> dispatcher \<Rightarrow> unit res \<times> dispatcher" where
  "close_begin sid s =
     (case map_of (dp_records s) sid of
        None \<Rightarrow> (Inl SessionNotFound, s)
      | Some record \<Rightarrow>
          if \<not> is_settled record then (Inl SessionNotTerminal, s) else (Inr (), spawn sid CClosing s))"

text \<open>The store forgets the session, then the second block does; the hub is closed last.\<close>

definition close_session_step :: "nat \<Rightarrow> session_id \<Rightarrow> dispatcher \<Rightarrow> dispatcher" where
  "close_session_step t sid s =
     (let s1 = s\<lparr>dp_store := store_drop sid (dp_store s)\<rparr>
      in case get_key sid (dp_hubs s1) of
           Inl _ \<Rightarrow> goto t TEnd s1
         | Inr a \<Rightarrow>
             goto t (CHubClose a)
               (s1\<lparr>dp_hubs := dict_pop sid (dp_hubs s1), dp_records := dict_pop sid (dp_records s1),
                   dp_controls := dict_pop sid (dp_controls s1),
                   dp_item_events := dict_pop sid (dp_item_events s1)\<rparr>))"

definition hub_close_step :: "answers \<Rightarrow> nat \<Rightarrow> nat \<Rightarrow> dispatcher \<Rightarrow> dispatcher" where
  "hub_close_step ans t a s =
     goto t TEnd (s\<lparr>dp_hub_heap := (dp_hub_heap s)[a := snd (hub_close (an_in_time ans) (dp_hub_heap s ! a))]\<rparr>)"

definition shutdown_begin :: "rat \<Rightarrow> dispatcher \<Rightarrow> unit res \<times> dispatcher" where
  "shutdown_begin timeout s =
     (if timeout < 0 then (Inl (ValueError ''shutdown timeout cannot be negative''), s)
      else
        (Inr (),
         spawn [] (CShutdown (map (se_session_id \<circ> snd)
             (filter (\<lambda>(_, r). \<not> is_terminal (se_state r)) (dp_records s)))) (s\<lparr>dp_accepting := False\<rparr>)))"

definition shutdown_step :: "answers \<Rightarrow> nat \<Rightarrow> session_id list \<Rightarrow> dispatcher \<Rightarrow> dispatcher" where
  "shutdown_step ans t candidates s =
     (case candidates of
        [] \<Rightarrow> goto t TEnd s
      | sid # rest \<Rightarrow> goto t (CShutdown rest) (snd (dispatcher_cancel ans sid s)))"

definition unfinished_sessions :: "dispatcher \<Rightarrow> session_id list" where
  "unfinished_sessions s = map (se_session_id \<circ> snd) (filter (\<lambda>(_, r). \<not> is_settled r) (dp_records s))"

text \<open>The loop of \<^verbatim>\<open>shutdown\<close> stops waiting when this holds.\<close>

definition shutdown_drained :: "dispatcher \<Rightarrow> bool" where
  "shutdown_drained s \<longleftrightarrow> unfinished_sessions s = [] \<and> dp_workers s = [] \<and> dp_admitting s = 0"

text \<open>
  What \<^verbatim>\<open>shutdown\<close> reports when it stops waiting in the state \<open>s\<close>. \<open>hub_closed\<close> says of which settled
  sessions the hub closed in time, \<open>scheduler_alive\<close> whether the scheduler's thread is still there.
\<close>

definition shutdown_report :: "(session_id \<Rightarrow> bool) \<Rightarrow> bool \<Rightarrow> dispatcher \<Rightarrow> shutdown_result" where
  "shutdown_report hub_closed scheduler_alive s =
     (let unfinished = unfinished_sessions s;
          custody_released = (dp_leases s = [] \<and> dp_reserved s = {});
          observer_incomplete = filter (\<lambda>sid. \<not> hub_closed sid)
            (map fst (filter (\<lambda>(_, r). is_settled r) (dp_records s)));
          all_unfinished = dedupe (unfinished @ observer_incomplete)
      in \<lparr>sr_complete = (all_unfinished = [] \<and> custody_released \<and> \<not> scheduler_alive \<and> dp_admitting s = 0),
          sr_unfinished = all_unfinished, sr_custody_released = custody_released\<rparr>)"

section \<open>The scheduler\<close>

text \<open>
  One pass over the pending sessions: which are taken out of the queue, and the reservations after it.
  A session that has to wait makes the ones behind it wait for its resources too.
\<close>

record pass =
  pa_selected :: "session_id list"
  pa_waiting :: "resource_id set"
  pa_reserved :: "resource_id set"

definition schedule_visit :: "(session_id, session_record) dict \<Rightarrow> pass \<Rightarrow> session_id \<Rightarrow> pass" where
  "schedule_visit records p sid =
     (case map_of records sid of
        None \<Rightarrow> p\<lparr>pa_selected := pa_selected p @ [sid]\<rparr>
      | Some r \<Rightarrow>
          if se_state r = ST_CANCELING then p\<lparr>pa_selected := pa_selected p @ [sid]\<rparr>
          else if se_state r \<noteq> ST_PENDING then p\<lparr>pa_selected := pa_selected p @ [sid]\<rparr>
          else if \<exists>x \<in> set (se_resources r). x \<in> pa_reserved p \<or> x \<in> pa_waiting p
          then p\<lparr>pa_waiting := pa_waiting p \<union> set (se_resources r)\<rparr>
          else p\<lparr>pa_reserved := pa_reserved p \<union> set (se_resources r), pa_selected := pa_selected p @ [sid]\<rparr>)"

definition schedule_scan ::
    "(session_id, session_record) dict \<Rightarrow> session_id list \<Rightarrow> resource_id set \<Rightarrow> pass" where
  "schedule_scan records pending reserved =
     foldl (schedule_visit records) \<lparr>pa_selected = [], pa_waiting = {}, pa_reserved = reserved\<rparr> pending"

definition launch :: "session_id \<Rightarrow> dispatcher \<Rightarrow> dispatcher" where
  "launch sid s =
     (case map_of (dp_records s) sid of
        None \<Rightarrow> s
      | Some _ \<Rightarrow> spawn sid WStart (s\<lparr>dp_workers := dict_set sid (length (dp_threads s)) (dp_workers s)\<rparr>))"

text \<open>
  One turn of the scheduler under the lock: it launches workers, ends, or waits (and changes
  nothing). The selected identifiers leave the queue wherever they stand in it.
\<close>

datatype schedule_end = Launched "session_id list" | SchedulerEnds | SchedulerWaits

definition schedule_turn :: "dispatcher \<Rightarrow> schedule_end \<times> dispatcher" where
  "schedule_turn s =
     (let p = schedule_scan (dp_records s) (dp_pending s) (dp_reserved s)
      in if pa_selected p \<noteq> []
         then (Launched (pa_selected p),
               fold launch (pa_selected p)
                 (s\<lparr>dp_reserved := pa_reserved p,
                    dp_pending := filter (\<lambda>sid. sid \<notin> set (pa_selected p)) (dp_pending s)\<rparr>))
         else if \<not> dp_accepting s \<and> dp_pending s = [] \<and> dp_workers s = [] then (SchedulerEnds, s)
         else (SchedulerWaits, s))"

section \<open>Workers\<close>

text \<open>An exception that leaves \<^verbatim>\<open>_run_core\<close> or the worker's own code ends in the \<^verbatim>\<open>finally\<close> block.\<close>

abbreviation finish :: "nat \<Rightarrow> dispatcher \<Rightarrow> dispatcher" where
  "finish t s \<equiv> goto t (WRelease Finally) s"

definition start_step :: "'req registry \<Rightarrow> nat \<Rightarrow> session_id \<Rightarrow> dispatcher \<Rightarrow> dispatcher" where
  "start_step reg t sid s =
     (case map_of (dp_records s) sid of
        None \<Rightarrow> finish t s
      | Some record \<Rightarrow>
          (case reg (se_kind record) of
             None \<Rightarrow> finish t s
           | Some _ \<Rightarrow>
               (case map_of (dp_controls s) sid of
                  None \<Rightarrow> finish t s
                | Some c \<Rightarrow>
                    if se_state record = ST_CANCELING then goto t (WCore None (disposition_of record) None) s
                    else goto t (WAcquire record c) s)))"

text \<open>One look of the lock provider: it takes the resources, raises, or looks again later.\<close>

definition acquire_step :: "answers \<Rightarrow> nat \<Rightarrow> session_record \<Rightarrow> nat \<Rightarrow> dispatcher \<Rightarrow> dispatcher" where
  "acquire_step ans t record c s =
     (case an_acquire_error ans of
        Some e \<Rightarrow>
          goto t (if e = Canceled then WCore None (disposition_of record) None else WCore None UNRUN (Some e)) s
      | None \<Rightarrow>
          (case lock_acquire (se_resources record) (ct_cancel (dp_control_heap s ! c)) (dp_locks s) of
             (Acquired l, locks) \<Rightarrow> goto t (WLeased l) (s\<lparr>dp_locks := locks\<rparr>)
           | (AcquireCanceled, _) \<Rightarrow> goto t (WCore None (disposition_of record) None) s
           | (AcquireWaits, _) \<Rightarrow> s))"

definition leased_step :: "nat \<Rightarrow> session_id \<Rightarrow> nat \<Rightarrow> dispatcher \<Rightarrow> dispatcher" where
  "leased_step t sid l s =
     (let s1 = s\<lparr>dp_leases := dict_set sid l (dp_leases s)\<rparr>
      in case map_of (dp_records s) sid of
           None \<Rightarrow> finish t s1
         | Some current \<Rightarrow>
             if se_state current = ST_CANCELING then goto t (WCore None (disposition_of current) None) s1
             else goto t (WOpen current) s1)"

definition open_step :: "'req registry \<Rightarrow> nat \<Rightarrow> session_record \<Rightarrow> dispatcher \<Rightarrow> dispatcher" where
  "open_step reg t record s =
     (case reg (se_kind record) of
        None \<Rightarrow> finish t s
      | Some rg \<Rightarrow>
          (case rg_open rg (se_payload record) of
             Inl e \<Rightarrow> goto t (WCore None UNRUN (Some e)) s
           | Inr invocation \<Rightarrow> goto t (WBegin invocation) s))"

definition begin_step :: "answers \<Rightarrow> nat \<Rightarrow> session_id \<Rightarrow> program \<Rightarrow> dispatcher \<Rightarrow> dispatcher" where
  "begin_step ans t sid invocation s =
     (case map_of (dp_records s) sid of
        None \<Rightarrow> finish t s
      | Some current \<Rightarrow>
          if se_state current = ST_CANCELING then goto t (WCore None (disposition_of current) None) s
          else (case transition_locked ans sid ST_RUNNING None s of
                  Inl _ \<Rightarrow> finish t s
                | Inr (_, hub, s1) \<Rightarrow> goto t (WAnnounce hub invocation) s1))"

definition announce_step :: "answers \<Rightarrow> nat \<Rightarrow> nat \<Rightarrow> program \<Rightarrow> dispatcher \<Rightarrow> dispatcher" where
  "announce_step ans t hub invocation s =
     (case emit_at (an_now ans) hub (StateChanged ST_RUNNING) s of
        (None, s1) \<Rightarrow> goto t (WCore (Some invocation) RAN None) s1
      | (Some _, s1) \<Rightarrow> finish t s1)"

text \<open>\<^verbatim>\<open>_run_core\<close>: the objects it captures.\<close>

definition core_step ::
    "'req registry \<Rightarrow> nat \<Rightarrow> session_id \<Rightarrow> program option \<Rightarrow> disposition \<Rightarrow> exn option \<Rightarrow> dispatcher \<Rightarrow> dispatcher" where
  "core_step reg t sid invocation disp failure s =
     (case (map_of (dp_records s) sid, map_of (dp_controls s) sid, map_of (dp_hubs s) sid, map_of (dp_item_events s) sid) of
        (rec, Some c, Some hub, Some items) \<Rightarrow>
          goto t (WCheck invocation failure
            \<lparr>co_hub = hub, co_control = c, co_items = items, co_disposition = disp,
             co_supports_pause = (case rec of None \<Rightarrow> False
               | Some r \<Rightarrow> (case reg (se_kind r) of None \<Rightarrow> False | Some rg \<Rightarrow> rg_supports_pause rg)),
             co_progress = None\<rparr>) s
      | _ \<Rightarrow> finish t s)"

text \<open>The end of the work: the result that \<^verbatim>\<open>run_session\<close> settles, or a pause.\<close>

definition core_locals :: "core \<Rightarrow> dispatcher \<Rightarrow> run_locals" where
  "core_locals co s = \<lparr>rl_items = dp_item_heap s ! co_items co, rl_progress = co_progress co\<rparr>"

definition settle_result :: "operation_result \<Rightarrow> core \<Rightarrow> phase" where
  "settle_result r co = WRelease (SettleTo (or_status r) (Some r) co)"

definition raised :: "exn \<Rightarrow> core \<Rightarrow> dispatcher \<Rightarrow> phase" where
  "raised e co s =
     (case e of
        PauseRequested \<Rightarrow> WRelease (SettleTo ST_PAUSED None co)
      | Canceled \<Rightarrow> settle_result (interrupted_result ST_CANCELED (co_disposition co) (core_locals co s) None) co
      | OtherError ty msg \<Rightarrow>
          settle_result (interrupted_result ST_FAILED (co_disposition co) (core_locals co s)
            (Some \<lparr>fd_type_name = ty, fd_message = msg\<rparr>)) co)"

text \<open>\<^verbatim>\<open>work\<close> up to the invocation: a checkpoint, the failure, the missing invocation.\<close>

definition check_step :: "nat \<Rightarrow> program option \<Rightarrow> exn option \<Rightarrow> core \<Rightarrow> dispatcher \<Rightarrow> dispatcher" where
  "check_step t invocation failure co s =
     goto t
       (case control_checkpoint (dp_control_heap s ! co_control co) of
          Some e \<Rightarrow> raised e co s
        | None \<Rightarrow>
            (case failure of
               Some e \<Rightarrow> raised e co s
             | None \<Rightarrow> (case invocation of None \<Rightarrow> raised Canceled co s | Some p \<Rightarrow> WRun p co))) s"

text \<open>One step of the invocation's own code.\<close>

definition observed_emit :: "answers \<Rightarrow> event_body \<Rightarrow> core \<Rightarrow> dispatcher \<Rightarrow> exn option \<times> core \<times> dispatcher" where
  "observed_emit ans body co s =
     (case body of
        Terminal _ \<Rightarrow>
          (Some (OtherError (lit ''ValueError'') (lit ''workflow code cannot emit Terminal'')), co, s)
      | _ \<Rightarrow>
          (let s1 = (case body of
                       ItemOutcome i \<Rightarrow>
                         s\<lparr>dp_item_heap := (dp_item_heap s)[co_items co := dp_item_heap s ! co_items co @ [i]]\<rparr>
                     | _ \<Rightarrow> s);
               co1 = (case body of Progress p \<Rightarrow> co\<lparr>co_progress := Some p\<rparr> | _ \<Rightarrow> co)
           in case emit_at (an_now ans) (co_hub co) body s1 of
                (None, s2) \<Rightarrow> (None, co1, s2)
              | (Some e, s2) \<Rightarrow> (Some (exn_of e), co1, s2)))"

definition run_step :: "answers \<Rightarrow> nat \<Rightarrow> program \<Rightarrow> core \<Rightarrow> dispatcher \<Rightarrow> dispatcher" where
  "run_step ans t p co s =
     (case p of
        Return r \<Rightarrow> goto t (settle_result r co) s
      | ReturnOther \<Rightarrow>
          goto t (raised (OtherError (lit ''TypeError'') (lit ''workflow must return OperationResult'')) co s) s
      | Raise e \<Rightarrow>
          goto t
            (if e = PauseRequested
             then (if co_supports_pause co then WSnapshot co
                   else raised (OtherError (lit ''RuntimeError'')
                          (lit ''registered invocation paused without capability'')) co s)
             else raised e co s) s
      | Emit body k \<Rightarrow>
          (case observed_emit ans body co s of (x, co1, s1) \<Rightarrow> goto t (WRun (k x) co1) s1)
      | Checkpoint k \<Rightarrow>
          goto t (WRun (k (control_checkpoint (dp_control_heap s ! co_control co))) co) s)"

definition snapshot_step :: "answers \<Rightarrow> nat \<Rightarrow> session_id \<Rightarrow> core \<Rightarrow> dispatcher \<Rightarrow> dispatcher" where
  "snapshot_step ans t sid co s =
     (case an_snapshot ans of
        Inl e \<Rightarrow> goto t (raised e co s) s
      | Inr payload \<Rightarrow>
          (case replace_payload ans sid payload s of
             Inl e \<Rightarrow> goto t (raised (exn_of e) co s) s
           | Inr s1 \<Rightarrow> goto t (raised PauseRequested co s1) s1))"

section \<open>Custody and settlement\<close>

definition release_step :: "nat \<Rightarrow> session_id \<Rightarrow> after_release \<Rightarrow> dispatcher \<Rightarrow> dispatcher" where
  "release_step t sid k s =
     (let record = map_of (dp_records s) sid; s1 = s\<lparr>dp_leases := dict_pop sid (dp_leases s)\<rparr>
      in case map_of (dp_leases s) sid of
           None \<Rightarrow> goto t (WUnreserve record k) s1
         | Some l \<Rightarrow> goto t (WUnlock l record k) s1)"

definition unlock_step :: "answers \<Rightarrow> nat \<Rightarrow> nat \<Rightarrow> session_record option \<Rightarrow> after_release \<Rightarrow> dispatcher \<Rightarrow> dispatcher" where
  "unlock_step ans t l record k s =
     (let s1 = s\<lparr>dp_locks := lease_release l (dp_locks s)\<rparr>
      in goto t (WUnreserve record k)
           (case an_release_error ans of
              None \<Rightarrow> s1
            | Some e \<Rightarrow> s1\<lparr>dp_custody_failures := dp_custody_failures s1 @ [e]\<rparr>))"

definition unreserve_step :: "nat \<Rightarrow> session_record option \<Rightarrow> after_release \<Rightarrow> dispatcher \<Rightarrow> dispatcher" where
  "unreserve_step t record k s =
     goto t (case k of SettleTo st r co \<Rightarrow> WTransition st r co | Finally \<Rightarrow> WDone)
       (case record of
          None \<Rightarrow> s
        | Some r \<Rightarrow> s\<lparr>dp_reserved := dp_reserved s - set (se_resources r)\<rparr>)"

text \<open>The record of a terminal state gets its result only when the audit has settled.\<close>

definition settle_step ::
    "answers \<Rightarrow> nat \<Rightarrow> session_id \<Rightarrow> session_state \<Rightarrow> operation_result option \<Rightarrow> core \<Rightarrow> dispatcher \<Rightarrow> dispatcher" where
  "settle_step ans t sid state result co s =
     (case transition_locked ans sid state (if is_terminal state then None else result) s of
        Inl _ \<Rightarrow> finish t s
      | Inr (_, hub, s1) \<Rightarrow> goto t (WStateEvent state result (co\<lparr>co_hub := hub\<rparr>)) s1)"

definition state_event_step ::
    "answers \<Rightarrow> nat \<Rightarrow> session_state \<Rightarrow> operation_result option \<Rightarrow> core \<Rightarrow> dispatcher \<Rightarrow> dispatcher" where
  "state_event_step ans t state result co s =
     (case emit_at (an_now ans) (co_hub co) (StateChanged state) s of
        (Some _, s1) \<Rightarrow> finish t s1
      | (None, s1) \<Rightarrow> (case result of None \<Rightarrow> finish t s1 | Some r \<Rightarrow> goto t (WAudit r co) s1))"

definition audit_step :: "answers \<Rightarrow> nat \<Rightarrow> operation_result \<Rightarrow> core \<Rightarrow> dispatcher \<Rightarrow> dispatcher" where
  "audit_step ans t r co s =
     (case hub_finalize_audit (an_observer ans) (an_in_time ans) r (dp_hub_heap s ! co_hub co) of
        (audit, h) \<Rightarrow>
          goto t (WPublish (r\<lparr>or_audit := audit\<rparr>) co) (s\<lparr>dp_hub_heap := (dp_hub_heap s)[co_hub co := h]\<rparr>))"

definition publish_step :: "answers \<Rightarrow> nat \<Rightarrow> session_id \<Rightarrow> operation_result \<Rightarrow> core \<Rightarrow> dispatcher \<Rightarrow> dispatcher" where
  "publish_step ans t sid r co s =
     (case publish_result ans sid r s of
        Inl _ \<Rightarrow> finish t s
      | Inr s1 \<Rightarrow> goto t (WTerminal r co) s1)"

definition terminal_step :: "answers \<Rightarrow> nat \<Rightarrow> operation_result \<Rightarrow> core \<Rightarrow> dispatcher \<Rightarrow> dispatcher" where
  "terminal_step ans t r co s =
     (case emit_at (an_now ans) (co_hub co) (Terminal r) s of
        (None, s1) \<Rightarrow> goto t WDropItems s1
      | (Some _, s1) \<Rightarrow> finish t s1)"

definition drop_items_step :: "nat \<Rightarrow> session_id \<Rightarrow> dispatcher \<Rightarrow> dispatcher" where
  "drop_items_step t sid s = finish t (s\<lparr>dp_item_events := dict_pop sid (dp_item_events s)\<rparr>)"

definition done_step :: "answers \<Rightarrow> nat \<Rightarrow> session_id \<Rightarrow> dispatcher \<Rightarrow> dispatcher" where
  "done_step ans t sid s =
     (let s1 = s\<lparr>dp_workers := dict_pop sid (dp_workers s)\<rparr>
      in case (map_of (dp_records s1) sid, map_of (dp_controls s1) sid) of
           (Some record, Some c) \<Rightarrow>
             if se_state record = ST_PAUSED \<and> ct_cancel (dp_control_heap s1 ! c)
             then (case transition_locked ans sid ST_CANCELING None s1 of
                     Inl _ \<Rightarrow> goto t TEnd s1
                   | Inr (updated, hub, s2) \<Rightarrow>
                       goto t (CEmit hub (se_state updated) False) (s2\<lparr>dp_pending := dp_pending s2 @ [sid]\<rparr>))
             else goto t TEnd s1
         | _ \<Rightarrow> goto t TEnd s1)"

section \<open>Steps of the system\<close>

definition thread_step :: "'req registry \<Rightarrow> config \<Rightarrow> answers \<Rightarrow> nat \<Rightarrow> dispatcher \<Rightarrow> dispatcher" where
  "thread_step reg cfg ans t s =
     (case dp_threads s ! t of
        (sid, ph) \<Rightarrow>
          (case ph of
             WStart \<Rightarrow> start_step reg t sid s
           | WAcquire record c \<Rightarrow> acquire_step ans t record c s
           | WLeased l \<Rightarrow> leased_step t sid l s
           | WOpen record \<Rightarrow> open_step reg t record s
           | WBegin invocation \<Rightarrow> begin_step ans t sid invocation s
           | WAnnounce hub invocation \<Rightarrow> announce_step ans t hub invocation s
           | WCore invocation disp failure \<Rightarrow> core_step reg t sid invocation disp failure s
           | WCheck invocation failure co \<Rightarrow> check_step t invocation failure co s
           | WRun p co \<Rightarrow> run_step ans t p co s
           | WSnapshot co \<Rightarrow> snapshot_step ans t sid co s
           | WRelease k \<Rightarrow> release_step t sid k s
           | WUnlock l record k \<Rightarrow> unlock_step ans t l record k s
           | WUnreserve record k \<Rightarrow> unreserve_step t record k s
           | WTransition st r co \<Rightarrow> settle_step ans t sid st r co s
           | WStateEvent st r co \<Rightarrow> state_event_step ans t st r co s
           | WAudit r co \<Rightarrow> audit_step ans t r co s
           | WPublish r co \<Rightarrow> publish_step ans t sid r co s
           | WTerminal r co \<Rightarrow> terminal_step ans t r co s
           | WDropItems \<Rightarrow> drop_items_step t sid s
           | WDone \<Rightarrow> done_step ans t sid s
           | CAdmit kind prepared pause now \<Rightarrow> admit_step cfg ans t sid kind prepared pause now s
           | CInsert record hub \<Rightarrow> insert_step t record hub s
           | CStopped hub \<Rightarrow> stopped_step t sid s
           | CLeave \<Rightarrow> leave_step t s
           | CEmit a st admitting \<Rightarrow> emit_step ans t a st admitting s
           | CClosing \<Rightarrow> close_session_step t sid s
           | CHubClose a \<Rightarrow> hub_close_step ans t a s
           | CShutdown candidates \<Rightarrow> shutdown_step ans t candidates s
           | TEnd \<Rightarrow> s))"

text \<open>\<^verbatim>\<open>uuid4\<close> gives identifiers that were never used before.\<close>

definition fresh_session :: "session_id \<Rightarrow> dispatcher \<Rightarrow> bool" where
  "fresh_session sid s \<longleftrightarrow> sid \<noteq> [] \<and> sid \<notin> fst ` set (dp_threads s) \<and> map_of (dp_records s) sid = None"

text \<open>
  \<open>may_resume\<close> says which sessions clients resume in which states; it is always true for clients that
  are not restricted.
\<close>

inductive dispatcher_step ::
    "'req registry \<Rightarrow> config \<Rightarrow> (session_id \<Rightarrow> dispatcher \<Rightarrow> bool) \<Rightarrow> dispatcher \<Rightarrow> dispatcher \<Rightarrow> bool"
  for reg cfg may_resume where
  submit: "fresh_session sid s \<Longrightarrow> dispatcher_step reg cfg may_resume s (snd (submit_begin reg ans sid kind request s))"
| subscribe: "dispatcher_step reg cfg may_resume s (snd (dispatcher_subscribe ans sid from_seq s))"
| pause: "dispatcher_step reg cfg may_resume s (snd (dispatcher_pause ans sid s))"
| resume: "may_resume sid s \<Longrightarrow> dispatcher_step reg cfg may_resume s (snd (dispatcher_resume ans sid s))"
| cancel: "dispatcher_step reg cfg may_resume s (snd (dispatcher_cancel ans sid s))"
| close: "dispatcher_step reg cfg may_resume s (snd (close_begin sid s))"
| shutdown: "dispatcher_step reg cfg may_resume s (snd (shutdown_begin timeout s))"
| schedule: "dispatcher_step reg cfg may_resume s (snd (schedule_turn s))"
| thread: "t < length (dp_threads s) \<Longrightarrow> dispatcher_step reg cfg may_resume s (thread_step reg cfg ans t s)"
| pump: "a < length (dp_hub_heap s) \<Longrightarrow> pump_step obs (eh_audit (dp_hub_heap s ! a)) = (st, p) \<Longrightarrow>
    dispatcher_step reg cfg may_resume s
      (s\<lparr>dp_hub_heap := (dp_hub_heap s)[a := (dp_hub_heap s ! a)\<lparr>eh_audit := p\<rparr>]\<rparr>)"

interpretation dispatcher: transition_system "\<lambda>s. s = dispatcher_init" "dispatcher_step reg cfg may_resume"
  for reg cfg may_resume .

end
