(* ===== verification/Custody_Protocol.thy ===== *)
theory Custody_Protocol
  imports Custody
begin

text \<open>
  What the dispatcher promises about custody, without its events, stores and results: sessions with
  their state and resources, the pending queue, the leases by session, the lock provider, and threads
  that are before, in, or after the part that runs a workflow. Clients resume a session only when no
  worker of it is left.
\<close>

section \<open>The protocol\<close>

datatype custody_phase =
    PNew | PStart | PLeased nat | PHold | PExec | PWind | PUnlock nat | PClosing | POther

definition live :: "custody_phase \<Rightarrow> bool" where
  "live ph \<longleftrightarrow> ph \<notin> {PNew, PClosing, POther}"

lemma live_simps [simp]:
  "live PStart" "live (PLeased l)" "live PHold" "live PExec" "live PWind" "live (PUnlock l)"
  "\<not> live PNew" "\<not> live PClosing" "\<not> live POther"
  by (simp_all add: live_def)

record custody =
  cu_sessions :: "session_id \<Rightarrow> (session_state \<times> resource_id list) option"
  cu_pending :: "session_id list"
  cu_leases :: "session_id \<Rightarrow> nat option"
  cu_locks :: lock_table
  cu_threads :: "(session_id \<times> custody_phase) list"

definition thread_at :: "custody \<Rightarrow> nat \<Rightarrow> session_id \<Rightarrow> custody_phase \<Rightarrow> bool" where
  "thread_at c i sid ph \<longleftrightarrow> i < length (cu_threads c) \<and> cu_threads c ! i = (sid, ph)"

definition move :: "nat \<Rightarrow> session_id \<Rightarrow> custody_phase \<Rightarrow> custody \<Rightarrow> custody" where
  "move i sid ph c = c\<lparr>cu_threads := (cu_threads c)[i := (sid, ph)]\<rparr>"

definition add_threads :: "(session_id \<times> custody_phase) list \<Rightarrow> custody \<Rightarrow> custody" where
  "add_threads ts c = c\<lparr>cu_threads := cu_threads c @ ts\<rparr>"

definition set_state :: "session_id \<Rightarrow> session_state \<Rightarrow> resource_id list \<Rightarrow> custody \<Rightarrow> custody" where
  "set_state sid st rs c = c\<lparr>cu_sessions := (cu_sessions c)(sid \<mapsto> (st, rs))\<rparr>"

definition enqueue :: "session_id \<Rightarrow> custody \<Rightarrow> custody" where
  "enqueue sid c = c\<lparr>cu_pending := cu_pending c @ [sid]\<rparr>"

definition quiet :: "session_id \<Rightarrow> custody \<Rightarrow> bool" where
  "quiet sid c \<longleftrightarrow> (\<forall>i ph. thread_at c i sid ph \<longrightarrow> \<not> live ph)"

text \<open>Which phases follow each other without touching the shared state.\<close>

inductive winds :: "custody_phase \<Rightarrow> custody_phase \<Rightarrow> bool" where
  "winds ph ph"
| "winds PStart PWind"
| "winds PHold PWind"
| "winds PExec PWind"
| "winds PWind POther"
| "winds PNew POther"
| "winds PClosing POther"

inductive custody_step :: "custody \<Rightarrow> custody \<Rightarrow> bool" where
  arrive: "\<lbrakk>sid \<noteq> []; sid \<notin> fst ` set (cu_threads c); cu_sessions c sid = None\<rbrakk> \<Longrightarrow>
     custody_step c (add_threads [(sid, PNew)] c)"
| client: "cu_sessions c sid \<noteq> None \<or> sid = [] \<Longrightarrow> custody_step c (add_threads [(sid, POther)] c)"
| closing: "\<lbrakk>cu_sessions c sid = Some (st, rs); is_terminal st\<rbrakk> \<Longrightarrow> custody_step c (add_threads [(sid, PClosing)] c)"
| insert: "thread_at c i sid PNew \<Longrightarrow>
     custody_step c (enqueue sid (set_state sid ST_PENDING rs (move i sid POther c)))"
| pause: "cu_sessions c sid = Some (ST_RUNNING, rs) \<Longrightarrow> custody_step c (set_state sid ST_PAUSING rs c)"
| resume: "\<lbrakk>cu_sessions c sid = Some (st, rs); st \<in> {ST_PAUSED, ST_INTERRUPTED}; quiet sid c\<rbrakk> \<Longrightarrow>
     custody_step c (enqueue sid (set_state sid ST_PENDING rs c))"
| cancel: "\<lbrakk>cu_sessions c sid = Some (st, rs); ST_CANCELING \<in> legal_transitions st\<rbrakk> \<Longrightarrow>
     custody_step c (set_state sid ST_CANCELING rs c)"
| cancel_enqueue: "\<lbrakk>cu_sessions c sid = Some (st, rs); st \<in> {ST_PENDING, ST_PAUSED, ST_INTERRUPTED}\<rbrakk> \<Longrightarrow>
     custody_step c (enqueue sid (set_state sid ST_CANCELING rs c))"
| schedule: "\<lbrakk>set chosen \<subseteq> set (cu_pending c); \<forall>sid. count_list chosen sid \<le> count_list (cu_pending c) sid\<rbrakk> \<Longrightarrow>
     custody_step c (add_threads (map (\<lambda>sid. (sid, PStart)) (filter (\<lambda>sid. cu_sessions c sid \<noteq> None) chosen))
        (c\<lparr>cu_pending := filter (\<lambda>sid. sid \<notin> set chosen) (cu_pending c)\<rparr>))"
| acquire: "\<lbrakk>thread_at c i sid PStart; lock_acquire rs canceled (cu_locks c) = (Acquired l, locks);
      \<forall>st rs'. cu_sessions c sid = Some (st, rs') \<longrightarrow> rs' = rs\<rbrakk> \<Longrightarrow>
     custody_step c (move i sid (PLeased l) (c\<lparr>cu_locks := locks\<rparr>))"
| lease: "\<lbrakk>thread_at c i sid (PLeased l); ph = PHold \<or> ph = PWind\<rbrakk> \<Longrightarrow>
     custody_step c (move i sid ph (c\<lparr>cu_leases := (cu_leases c)(sid \<mapsto> l)\<rparr>))"
| begin_work: "\<lbrakk>thread_at c i sid PHold; cu_sessions c sid = Some (ST_PENDING, rs)\<rbrakk> \<Longrightarrow>
     custody_step c (move i sid PExec (set_state sid ST_RUNNING rs c))"
| wind: "\<lbrakk>thread_at c i sid ph; winds ph ph'\<rbrakk> \<Longrightarrow> custody_step c (move i sid ph' c)"
| release: "\<lbrakk>thread_at c i sid PWind; cu_leases c sid = Some l\<rbrakk> \<Longrightarrow>
     custody_step c (move i sid (PUnlock l) (c\<lparr>cu_leases := (cu_leases c)(sid := None)\<rparr>))"
| unlock: "thread_at c i sid (PUnlock l) \<Longrightarrow>
     custody_step c (move i sid PWind (c\<lparr>cu_locks := lease_release l (cu_locks c)\<rparr>))"
| settle: "\<lbrakk>thread_at c i sid PWind; cu_sessions c sid = Some (st, rs); st' \<in> legal_transitions st;
      st' = ST_PAUSED \<or> is_terminal st'\<rbrakk> \<Longrightarrow>
     custody_step c (move i sid PWind (set_state sid st' rs c))"
| canceled_pause: "\<lbrakk>thread_at c i sid PWind; cu_sessions c sid = Some (ST_PAUSED, rs)\<rbrakk> \<Longrightarrow>
     custody_step c (move i sid POther (enqueue sid (set_state sid ST_CANCELING rs c)))"
| close: "thread_at c i sid PClosing \<Longrightarrow>
     custody_step c (move i sid POther (c\<lparr>cu_sessions := (cu_sessions c)(sid := None)\<rparr>))"

definition custody_init :: custody where
  "custody_init = \<lparr>cu_sessions = (\<lambda>_. None), cu_pending = [], cu_leases = (\<lambda>_. None),
     cu_locks = \<lparr>lt_held = {}, lt_leases = []\<rparr>, cu_threads = []\<rparr>"

interpretation protocol: transition_system "\<lambda>c. c = custody_init" custody_step .

section \<open>The invariant\<close>

text \<open>The lease numbers that something still refers to.\<close>

datatype lease_ref = RefTable session_id | RefThread nat

definition refers :: "custody \<Rightarrow> lease_ref \<Rightarrow> nat \<Rightarrow> bool" where
  "refers c r l \<longleftrightarrow>
     (case r of
        RefTable sid \<Rightarrow> cu_leases c sid = Some l
      | RefThread i \<Rightarrow> (\<exists>sid. thread_at c i sid (PLeased l) \<or> thread_at c i sid (PUnlock l)))"

definition leases_inv :: "custody \<Rightarrow> bool" where
  "leases_inv c \<longleftrightarrow> locks.exclusive (cu_locks c) \<and>
     (\<forall>r l. refers c r l \<longrightarrow> l < length (lt_leases (cu_locks c))) \<and>
     (\<forall>r r' l. refers c r l \<longrightarrow> refers c r' l \<longrightarrow> r = r')"

text \<open>The thread is the only live one of its session, and the session is not queued.\<close>

definition solo :: "custody \<Rightarrow> nat \<Rightarrow> session_id \<Rightarrow> bool" where
  "solo c i sid \<longleftrightarrow> sid \<notin> set (cu_pending c) \<and> (\<forall>j ph. thread_at c j sid ph \<longrightarrow> live ph \<longrightarrow> j = i)"

definition holds :: "custody \<Rightarrow> session_id \<Rightarrow> resource_id list \<Rightarrow> bool" where
  "holds c sid rs \<longleftrightarrow> (\<exists>l. cu_leases c sid = Some l \<and> lease_owns l (cu_locks c) = set rs)"

definition exec_ok :: "custody \<Rightarrow> nat \<Rightarrow> session_id \<Rightarrow> bool" where
  "exec_ok c i sid \<longleftrightarrow> solo c i sid \<and>
     (\<exists>st rs. cu_sessions c sid = Some (st, rs) \<and> st \<in> {ST_RUNNING, ST_PAUSING, ST_CANCELING} \<and> holds c sid rs)"

text \<open>A worker on its way to run a session that is still pending.\<close>

definition start_ok :: "custody \<Rightarrow> nat \<Rightarrow> session_id \<Rightarrow> custody_phase \<Rightarrow> bool" where
  "start_ok c i sid ph \<longleftrightarrow>
     (\<forall>rs. cu_sessions c sid = Some (ST_PENDING, rs) \<longrightarrow> solo c i sid \<and>
        (ph = PHold \<longrightarrow> holds c sid rs) \<and> (\<forall>l. ph = PLeased l \<longrightarrow> lease_owns l (cu_locks c) = set rs))"

definition thread_inv :: "custody \<Rightarrow> nat \<Rightarrow> session_id \<Rightarrow> custody_phase \<Rightarrow> bool" where
  "thread_inv c i sid ph \<longleftrightarrow>
     (ph = PExec \<longrightarrow> exec_ok c i sid) \<and>
     (ph \<in> {PStart, PHold} \<or> (\<exists>l. ph = PLeased l) \<longrightarrow> start_ok c i sid ph) \<and>
     (ph = PNew \<longrightarrow> sid \<noteq> [] \<and> cu_sessions c sid = None \<and> sid \<notin> set (cu_pending c) \<and>
        (\<forall>j ph'. thread_at c j sid ph' \<longrightarrow> j = i)) \<and>
     (ph = PClosing \<longrightarrow> (\<forall>st rs. cu_sessions c sid = Some (st, rs) \<longrightarrow> is_terminal st))"

definition queue_inv :: "custody \<Rightarrow> bool" where
  "queue_inv c \<longleftrightarrow>
     (\<forall>sid st rs. sid \<in> set (cu_pending c) \<longrightarrow> cu_sessions c sid = Some (st, rs) \<longrightarrow>
        st \<in> {ST_PENDING, ST_CANCELING} \<or> is_terminal st) \<and>
     (\<forall>sid rs. sid \<in> set (cu_pending c) \<longrightarrow> cu_sessions c sid = Some (ST_PENDING, rs) \<longrightarrow>
        count_list (cu_pending c) sid = 1 \<and> quiet sid c) \<and>
     (\<forall>sid \<in> set (cu_pending c). sid \<in> fst ` set (cu_threads c)) \<and>
     (\<forall>sid st rs. cu_sessions c sid = Some (st, rs) \<longrightarrow> st \<noteq> ST_INTERRUPTED \<and> sid \<in> fst ` set (cu_threads c))"

definition custody_inv :: "custody \<Rightarrow> bool" where
  "custody_inv c \<longleftrightarrow> leases_inv c \<and> queue_inv c \<and> (\<forall>i sid ph. thread_at c i sid ph \<longrightarrow> thread_inv c i sid ph)"

section \<open>Preservation\<close>

lemma updates [simp]:
  "cu_sessions (move i sid ph c) = cu_sessions c" "cu_pending (move i sid ph c) = cu_pending c"
  "cu_leases (move i sid ph c) = cu_leases c" "cu_locks (move i sid ph c) = cu_locks c"
  "cu_sessions (add_threads ts c) = cu_sessions c" "cu_pending (add_threads ts c) = cu_pending c"
  "cu_leases (add_threads ts c) = cu_leases c" "cu_locks (add_threads ts c) = cu_locks c"
  "cu_sessions (set_state sid st rs c) = (cu_sessions c)(sid \<mapsto> (st, rs))"
  "cu_pending (set_state sid st rs c) = cu_pending c" "cu_leases (set_state sid st rs c) = cu_leases c"
  "cu_locks (set_state sid st rs c) = cu_locks c" "cu_threads (set_state sid st rs c) = cu_threads c"
  "cu_sessions (enqueue sid c) = cu_sessions c" "cu_pending (enqueue sid c) = cu_pending c @ [sid]"
  "cu_leases (enqueue sid c) = cu_leases c" "cu_locks (enqueue sid c) = cu_locks c"
  "cu_threads (enqueue sid c) = cu_threads c"
  by (simp_all add: move_def add_threads_def set_state_def enqueue_def)

lemma thread_at_more [simp]:
  "thread_at (set_state sid st rs c) = thread_at c" "thread_at (enqueue sid c) = thread_at c"
  "thread_at (c\<lparr>cu_pending := p\<rparr>) = thread_at c" "thread_at (c\<lparr>cu_leases := m\<rparr>) = thread_at c"
  "thread_at (c\<lparr>cu_locks := t\<rparr>) = thread_at c" "thread_at (c\<lparr>cu_sessions := r\<rparr>) = thread_at c"
  by (simp_all add: thread_at_def fun_eq_iff)

lemma thread_at_add:
  "thread_at (add_threads ts c) i sid ph \<longleftrightarrow>
     thread_at c i sid ph \<or> (length (cu_threads c) \<le> i \<and> i < length (cu_threads c) + length ts \<and>
       ts ! (i - length (cu_threads c)) = (sid, ph))"
  by (auto simp: thread_at_def add_threads_def nth_append)

lemma thread_at_add1:
  "thread_at (add_threads [(sid', ph')] c) i sid ph \<longleftrightarrow>
     thread_at c i sid ph \<or> (i = length (cu_threads c) \<and> sid = sid' \<and> ph = ph')"
  by (auto simp: thread_at_add)

lemma thread_at_move:
  assumes "thread_at c i sid ph"
  shows "thread_at (move i sid ph' c) j sid' ph'' \<longleftrightarrow>
     (if j = i then sid' = sid \<and> ph'' = ph' else thread_at c j sid' ph'')"
  using assms by (auto simp: thread_at_def move_def nth_list_update)

lemma threads_fst [simp]:
  "thread_at c i sid ph \<Longrightarrow> fst ` set (cu_threads (move i sid ph' c)) = fst ` set (cu_threads c)"
  "fst ` set (cu_threads (add_threads ts c)) = fst ` set (cu_threads c) \<union> fst ` set ts"
proof -
  assume a: "thread_at c i sid ph"
  have "map fst ((cu_threads c)[i := (sid, ph')]) = (map fst (cu_threads c))[i := sid]"
    by (simp add: map_update)
  also have "\<dots> = map fst (cu_threads c)"
    using a by (auto simp: thread_at_def intro!: list_update_same_conv [THEN iffD2])
  finally have "set (map fst ((cu_threads c)[i := (sid, ph')])) = set (map fst (cu_threads c))"
    by (rule arg_cong)
  then show "fst ` set (cu_threads (move i sid ph' c)) = fst ` set (cu_threads c)"
    by (simp add: move_def)
qed (auto simp: add_threads_def)

lemma thread_at_unique: "thread_at c i sid ph \<Longrightarrow> thread_at c i sid' ph' \<Longrightarrow> sid' = sid \<and> ph' = ph"
  by (simp add: thread_at_def)

lemma thread_at_fst: "thread_at c i sid ph \<Longrightarrow> sid \<in> fst ` set (cu_threads c)"
  by (force simp: thread_at_def set_conv_nth)

lemma refers_table: "refers c (RefTable sid) l \<longleftrightarrow> cu_leases c sid = Some l"
  and refers_thread: "refers c (RefThread i) l \<longleftrightarrow> (\<exists>sid. thread_at c i sid (PLeased l) \<or> thread_at c i sid (PUnlock l))"
  by (simp_all add: refers_def)

lemma refers_more [simp]:
  "refers (set_state sid st rs c) = refers c" "refers (enqueue sid c) = refers c"
  "refers (c\<lparr>cu_pending := p\<rparr>) = refers c" "refers (c\<lparr>cu_locks := t\<rparr>) = refers c"
  "refers (c\<lparr>cu_sessions := u\<rparr>) = refers c"
  by (auto simp: refers_def fun_eq_iff split: lease_ref.splits)

text \<open>References and locks decide whether the leases stay in order.\<close>

lemma leases_inv_refers:
  assumes "leases_inv c" and "cu_locks c' = cu_locks c" and "\<And>r l. refers c' r l \<Longrightarrow> refers c r l"
  shows "leases_inv c'"
  using assms unfolding leases_inv_def by metis

lemma leases_inv_map:
  assumes "leases_inv c" and "cu_locks c' = cu_locks c" and "\<And>r l. refers c' r l \<Longrightarrow> refers c (g r) l"
    and "\<And>r r' l. refers c' r l \<Longrightarrow> refers c' r' l \<Longrightarrow> g r = g r' \<Longrightarrow> r = r'"
  shows "leases_inv c'"
  using assms unfolding leases_inv_def by metis

lemma refers_move:
  assumes "thread_at c i sid ph" and "\<forall>l. ph' \<noteq> PLeased l \<and> ph' \<noteq> PUnlock l"
  shows "refers (move i sid ph' c) r l \<longleftrightarrow> refers c r l \<and> r \<noteq> RefThread i"
  using assms by (cases r) (auto simp: refers_def thread_at_move)

lemma refers_add:
  assumes "\<forall>(sid, ph) \<in> set ts. \<forall>l. ph \<noteq> PLeased l \<and> ph \<noteq> PUnlock l"
  shows "refers (add_threads ts c) r l \<Longrightarrow> refers c r l"
proof (cases r)
  case (RefThread i)
  assume "refers (add_threads ts c) r l"
  moreover have "ts ! k \<noteq> (sid, PLeased l) \<and> ts ! k \<noteq> (sid, PUnlock l)" if "k < length ts" for k sid
    using assms nth_mem [OF that] by force
  ultimately show ?thesis using RefThread by (auto simp: refers_thread thread_at_add)
qed (simp add: refers_table)

lemma winds_phase: "winds ph ph' \<Longrightarrow> ph' = ph \<or> ph' \<in> {PWind, POther}"
  by (erule winds.cases) auto

lemma leases_inv_wind:
  assumes "leases_inv c" and "thread_at c i sid ph" and "winds ph ph'"
  shows "leases_inv (move i sid ph' c)"
proof (cases "ph' = ph")
  case True
  then have "(cu_threads c)[i := (sid, ph')] = cu_threads c"
    using assms(2) by (simp add: thread_at_def list_update_same_conv)
  then have "move i sid ph' c = c" by (simp add: move_def)
  then show ?thesis using assms(1) by simp
next
  case False
  then have "\<forall>l. ph' \<noteq> PLeased l \<and> ph' \<noteq> PUnlock l" using winds_phase [OF assms(3)] by auto
  then show ?thesis
    using assms(1,2) by (intro leases_inv_refers [OF assms(1)]) (auto simp: refers_move)
qed

lemma length_lease_release [simp]: "length (lt_leases (lease_release l t)) = length (lt_leases t)"
  by (auto simp: lease_release_def split: prod.splits)

lemma leases_inv_acquire:
  assumes inv: "leases_inv c" and t: "thread_at c i sid PStart"
    and a: "lock_acquire rs canceled (cu_locks c) = (Acquired l, locks)"
  shows "leases_inv (move i sid (PLeased l) (c\<lparr>cu_locks := locks\<rparr>))" (is "leases_inv ?c")
proof -
  have l: "l = length (lt_leases (cu_locks c))" "length (lt_leases locks) = Suc l"
    using a by (auto simp: lock_acquire_def Let_def split: if_splits)
  have r: "refers ?c r k \<Longrightarrow> refers c r k \<or> (r = RefThread i \<and> k = l)" for r k
    using t by (cases r) (auto simp: refers_table refers_thread thread_at_move split: if_splits)
  have lt: "refers c r k \<Longrightarrow> k < l" for r k using inv l(1) by (auto simp: leases_inv_def)
  have "r = r'" if "refers ?c r k" "refers ?c r' k" for r r' k
    using r [OF that(1)] r [OF that(2)] lt inv by (auto simp: leases_inv_def)
  moreover have "k < Suc l" if "refers ?c r k" for r k using r [OF that] lt less_Suc_eq by auto
  moreover have "locks.exclusive locks" using locks.exclusive_acquire [OF _ a] inv by (simp add: leases_inv_def)
  ultimately show ?thesis using l by (auto simp: leases_inv_def)
qed

lemma leases_inv_lease:
  assumes inv: "leases_inv c" and t: "thread_at c i sid (PLeased l)" and ph: "ph = PHold \<or> ph = PWind"
  shows "leases_inv (move i sid ph (c\<lparr>cu_leases := (cu_leases c)(sid \<mapsto> l)\<rparr>))" (is "leases_inv ?c")
proof -
  let ?g = "\<lambda>r. if r = RefTable sid then RefThread i else r"
  have r: "if r = RefTable sid then k = l else refers c r k \<and> r \<noteq> RefThread i" if "refers ?c r k" for r k
    using that t ph by (cases r) (auto simp: refers_table refers_thread thread_at_move split: if_splits)
  have l: "refers c (RefThread i) l" using t by (auto simp: refers_thread)
  show ?thesis
    by (rule leases_inv_map [OF inv, where g = ?g]) (use l in \<open>auto split: if_splits dest!: r\<close>)
qed

lemma leases_inv_release:
  assumes inv: "leases_inv c" and t: "thread_at c i sid PWind" and l: "cu_leases c sid = Some l"
  shows "leases_inv (move i sid (PUnlock l) (c\<lparr>cu_leases := (cu_leases c)(sid := None)\<rparr>))" (is "leases_inv ?c")
proof -
  have r: "if r = RefThread i then k = l else refers c r k \<and> r \<noteq> RefTable sid" if "refers ?c r k" for r k
    using that t by (cases r) (auto simp: refers_table refers_thread thread_at_move split: if_splits)
  have l: "refers c (RefTable sid) l" using l by (auto simp: refers_table)
  show ?thesis
    by (rule leases_inv_map [OF inv, where g = "\<lambda>r. if r = RefThread i then RefTable sid else r"])
       (use l in \<open>auto split: if_splits dest!: r\<close>)
qed

lemma leases_inv_unlock:
  assumes inv: "leases_inv c" and t: "thread_at c i sid (PUnlock l)"
  shows "leases_inv (move i sid PWind (c\<lparr>cu_locks := lease_release l (cu_locks c)\<rparr>))"
proof -
  have "locks.exclusive (lease_release l (cu_locks c))"
    using locks.exclusive_release inv by (simp add: leases_inv_def)
  moreover have "refers (move i sid PWind (c\<lparr>cu_locks := lease_release l (cu_locks c)\<rparr>)) r k \<Longrightarrow> refers c r k" for r k
    using t refers_move [of "c\<lparr>cu_locks := lease_release l (cu_locks c)\<rparr>" i sid "PUnlock l" PWind] by simp
  ultimately show ?thesis using inv unfolding leases_inv_def by simp metis
qed

lemma leases_inv_step:
  assumes inv: "leases_inv c" and step: "custody_step c c'"
  shows "leases_inv c'"
  using step
proof cases
  case (schedule chosen)
  show ?thesis unfolding schedule(1)
    by (rule leases_inv_refers [OF inv]) (auto dest!: refers_add [rotated])
next
  case (wind i sid ph ph')
  then show ?thesis using leases_inv_wind inv by blast
qed (use inv leases_inv_acquire leases_inv_lease leases_inv_release leases_inv_unlock in
      \<open>auto intro!: leases_inv_refers [OF inv] dest!: refers_add [rotated] simp: refers_move\<close>)

lemma quiet_more [simp]:
  "quiet sid (set_state sid' st rs c) = quiet sid c" "quiet sid (enqueue sid' c) = quiet sid c"
  "quiet sid (c\<lparr>cu_pending := p\<rparr>) = quiet sid c" "quiet sid (c\<lparr>cu_leases := m\<rparr>) = quiet sid c"
  "quiet sid (c\<lparr>cu_locks := t\<rparr>) = quiet sid c" "quiet sid (c\<lparr>cu_sessions := r\<rparr>) = quiet sid c"
  by (simp_all add: quiet_def)

lemma quiet_move: "thread_at c i sid ph \<Longrightarrow> live ph \<or> \<not> live ph' \<Longrightarrow> quiet sid' c \<Longrightarrow> quiet sid' (move i sid ph' c)"
  by (auto simp: quiet_def thread_at_move split: if_splits)

lemma quiet_add1: "\<not> live ph \<Longrightarrow> quiet sid' c \<Longrightarrow> quiet sid' (add_threads [(sid, ph)] c)"
  by (auto simp: quiet_def thread_at_add1)

lemma quiet_add: "sid \<notin> fst ` set ts \<Longrightarrow> quiet sid c \<Longrightarrow> quiet sid (add_threads ts c)"
  by (auto simp: quiet_def thread_at_add) (metis fst_conv image_eqI nth_mem add_diff_inverse_nat nat_add_left_cancel_less not_le)

lemma winds_live: "winds ph ph' \<Longrightarrow> live ph \<or> \<not> live ph'"
  by (erule winds.cases) auto

text \<open>A move of a thread that leaves sessions and queue alone.\<close>

lemma queue_inv_move:
  assumes "queue_inv c" and "thread_at c i sid ph" and "live ph \<or> \<not> live ph'"
  shows "queue_inv (move i sid ph' c)"
  using assms quiet_move [OF assms(2,3)] unfolding queue_inv_def by simp

lemma queue_inv_same:
  "queue_inv c \<Longrightarrow> queue_inv (c\<lparr>cu_leases := m\<rparr>)" "queue_inv c \<Longrightarrow> queue_inv (c\<lparr>cu_locks := t\<rparr>)"
  by (simp_all add: queue_inv_def)

text \<open>A session that takes a state it cannot be queued in is not queued.\<close>

lemma queue_inv_set_state:
  assumes "queue_inv c" and "cu_sessions c sid = Some (st, rs)" and "st' \<noteq> ST_PENDING" "st' \<noteq> ST_INTERRUPTED"
    and "sid \<notin> set (cu_pending c) \<or> st' = ST_CANCELING \<or> is_terminal st'"
  shows "queue_inv (set_state sid st' rs c)"
  using assms unfolding queue_inv_def by auto

lemma queue_inv_enqueue_canceling:
  assumes "queue_inv c" and "cu_sessions c sid = Some (ST_CANCELING, rs)"
  shows "queue_inv (enqueue sid c)"
  using assms unfolding queue_inv_def by auto

lemma queue_inv_enqueue_pending:
  assumes "queue_inv c" and "sid \<notin> set (cu_pending c)" and "quiet sid c" and "sid \<in> fst ` set (cu_threads c)"
  shows "queue_inv (enqueue sid (set_state sid ST_PENDING rs c))"
  using assms unfolding queue_inv_def by auto

lemma queue_inv_schedule:
  assumes "queue_inv c" and "set chosen \<subseteq> set (cu_pending c)"
  shows "queue_inv (add_threads (map (\<lambda>sid. (sid, PStart)) (filter (\<lambda>sid. cu_sessions c sid \<noteq> None) chosen))
        (c\<lparr>cu_pending := filter (\<lambda>sid. sid \<notin> set chosen) (cu_pending c)\<rparr>))"
proof -
  have "count_list (filter (\<lambda>sid. sid \<notin> set chosen) xs) sid = count_list xs sid" if "sid \<notin> set chosen" for xs sid
    using that by (induction xs) auto
  then show ?thesis
    using assms unfolding queue_inv_def by (auto intro!: quiet_add)
qed

lemma pending_pausing: "queue_inv c \<Longrightarrow> cu_sessions c sid = Some (st, rs) \<Longrightarrow>
    st \<notin> {ST_PENDING, ST_CANCELING} \<Longrightarrow> \<not> is_terminal st \<Longrightarrow> sid \<notin> set (cu_pending c)"
  unfolding queue_inv_def by blast

lemma only_pausing_pauses: "ST_PAUSED \<in> legal_transitions st \<longleftrightarrow> st = ST_PAUSING"
  and not_interrupted: "ST_INTERRUPTED \<notin> legal_transitions st"
  and canceling_from: "ST_CANCELING \<in> legal_transitions st \<longleftrightarrow>
    st \<in> {ST_PENDING, ST_RUNNING, ST_PAUSING, ST_PAUSED, ST_INTERRUPTED}"
  by (cases st; simp)+

lemma queue_inv_step:
  assumes inv: "custody_inv c" and step: "custody_step c c'"
  shows "queue_inv c'"
proof -
  have q: "queue_inv c" using inv by (simp add: custody_inv_def)
  have at: "thread_inv c i sid ph" if "thread_at c i sid ph" for i sid ph
    using inv that by (simp add: custody_inv_def)
  show ?thesis using step
  proof cases
    case (arrive sid)
    then show ?thesis using q quiet_add1 [of PNew] unfolding queue_inv_def by auto
  next
    case (client sid)
    then show ?thesis using q quiet_add1 [of POther] unfolding queue_inv_def by auto
  next
    case (closing sid st rs)
    then show ?thesis using q quiet_add1 [of PClosing] unfolding queue_inv_def by auto
  next
    case (insert i sid rs)
    have new: "cu_sessions c sid = None" "sid \<notin> set (cu_pending c)" "quiet sid c"
      using at [OF insert(2)] thread_at_unique [OF insert(2)] by (fastforce simp: thread_inv_def quiet_def)+
    have "queue_inv (enqueue sid (set_state sid ST_PENDING rs (move i sid POther c)))"
      by (rule queue_inv_enqueue_pending)
         (use new insert q quiet_move [OF insert(2)] queue_inv_move [OF q insert(2)] in \<open>auto simp: thread_at_fst\<close>)
    then show ?thesis by (simp add: insert)
  next
    case (pause sid rs)
    then show ?thesis using queue_inv_set_state [OF q] pending_pausing [OF q] by (simp add: is_terminal_def)
  next
    case (resume sid st rs)
    have "sid \<notin> set (cu_pending c)" using pending_pausing [OF q resume(2)] resume(3) by (auto simp: is_terminal_def)
    moreover have "sid \<in> fst ` set (cu_threads c)" using q resume(2) by (auto simp: queue_inv_def)
    ultimately show ?thesis using queue_inv_enqueue_pending [OF q] resume by simp
  next
    case (cancel sid st rs)
    then show ?thesis using queue_inv_set_state [OF q] by simp
  next
    case (cancel_enqueue sid st rs)
    then show ?thesis using queue_inv_set_state [OF q] by (simp add: queue_inv_enqueue_canceling)
  next
    case (schedule chosen)
    then show ?thesis using queue_inv_schedule [OF q] by blast
  next
    case (acquire i sid rs canceled l locks)
    then show ?thesis using queue_inv_move [of "c\<lparr>cu_locks := locks\<rparr>"] q by (simp add: queue_inv_same)
  next
    case (lease i sid l ph)
    then show ?thesis
      using queue_inv_move [of "c\<lparr>cu_leases := (cu_leases c)(sid \<mapsto> l)\<rparr>"] q by (simp add: queue_inv_same)
  next
    case (begin_work i sid rs)
    have "sid \<notin> set (cu_pending c)"
      using at [OF begin_work(2)] begin_work(3) by (simp add: thread_inv_def start_ok_def solo_def)
    then have "queue_inv (set_state sid ST_RUNNING rs c)"
      using queue_inv_set_state [OF q begin_work(3)] by simp
    then show ?thesis using queue_inv_move begin_work by simp
  next
    case (wind i sid ph ph')
    then show ?thesis using queue_inv_move [OF q] winds_live by simp
  next
    case (release i sid l)
    then show ?thesis
      using queue_inv_move [of "c\<lparr>cu_leases := (cu_leases c)(sid := None)\<rparr>"] q by (simp add: queue_inv_same)
  next
    case (unlock i sid l)
    then show ?thesis
      using queue_inv_move [of "c\<lparr>cu_locks := lease_release l (cu_locks c)\<rparr>"] q by (simp add: queue_inv_same)
  next
    case (settle i sid st rs st')
    have "st' \<noteq> ST_PENDING" "st' \<noteq> ST_INTERRUPTED" using settle(4,5) not_interrupted by (auto simp: is_terminal_def)
    moreover have "sid \<notin> set (cu_pending c) \<or> is_terminal st'"
      using settle only_pausing_pauses pending_pausing [OF q settle(3)] by (auto simp: is_terminal_def)
    ultimately have "queue_inv (set_state sid st' rs c)" using queue_inv_set_state [OF q settle(3)] by blast
    then show ?thesis using queue_inv_move settle by simp
  next
    case (canceled_pause i sid rs)
    have "queue_inv (enqueue sid (set_state sid ST_CANCELING rs c))"
      using queue_inv_set_state [OF q canceled_pause(3)] by (simp add: queue_inv_enqueue_canceling)
    then show ?thesis using queue_inv_move canceled_pause by simp
  next
    case (close i sid)
    have "queue_inv (c\<lparr>cu_sessions := (cu_sessions c)(sid := None)\<rparr>)" using q by (auto simp: queue_inv_def)
    then show ?thesis using queue_inv_move close by simp
  qed
qed

text \<open>What a thread relies on: its session, the queue, its lease, and the live threads of its session.\<close>

lemma thread_inv_frame:
  assumes "thread_inv c j sid ph" and "cu_sessions c' sid = cu_sessions c sid"
    and "sid \<in> set (cu_pending c') \<Longrightarrow> sid \<in> set (cu_pending c)"
    and "\<And>k ph'. thread_at c' k sid ph' \<Longrightarrow> live ph' \<Longrightarrow> \<exists>ph''. thread_at c k sid ph'' \<and> live ph''"
    and "\<And>k ph'. thread_at c' k sid ph' \<Longrightarrow> \<exists>ph''. thread_at c k sid ph''"
    and "cu_leases c' sid = cu_leases c sid"
    and "\<And>l. cu_leases c sid = Some l \<or> ph = PLeased l \<Longrightarrow> lease_owns l (cu_locks c') = lease_owns l (cu_locks c)"
  shows "thread_inv c' j sid ph"
proof -
  have solo: "solo c j sid \<Longrightarrow> solo c' j sid"
    using assms(3,4) unfolding solo_def by blast
  moreover have holds: "holds c sid rs \<Longrightarrow> holds c' sid rs" for rs
    using assms(6,7) by (auto simp: holds_def)
  ultimately have "exec_ok c j sid \<Longrightarrow> exec_ok c' j sid" "start_ok c j sid ph \<Longrightarrow> start_ok c' j sid ph"
    using assms(2,7) by (auto simp: exec_ok_def start_ok_def)
  then show ?thesis
    using assms(1,2,3,5) unfolding thread_inv_def by metis
qed

text \<open>A thread that does not run its session only waits for it to end.\<close>

lemma thread_inv_idle:
  assumes "ph \<noteq> PExec" "ph \<noteq> PNew" and "cu_sessions c' sid = Some (st', rs)" and "st' \<noteq> ST_PENDING"
    and "ph = PClosing \<Longrightarrow> is_terminal st'"
  shows "thread_inv c' j sid ph"
  using assms by (auto simp: thread_inv_def start_ok_def)

lemma thread_inv_trivial: "ph \<in> {PWind, POther} \<or> (\<exists>l. ph = PUnlock l) \<Longrightarrow> thread_inv c j sid ph"
  by (auto simp: thread_inv_def)

lemma thread_inv_exec: "thread_inv c j sid PExec \<longleftrightarrow> exec_ok c j sid"
  by (auto simp: thread_inv_def)

lemma thread_inv_known: "thread_inv c j sid ph \<Longrightarrow> cu_sessions c sid = Some x \<Longrightarrow> ph \<noteq> PNew"
  by (auto simp: thread_inv_def)

lemma thread_inv_closing:
  "thread_inv c j sid PClosing \<Longrightarrow> cu_sessions c sid = Some (st, rs) \<Longrightarrow> is_terminal st"
  by (auto simp: thread_inv_def)

text \<open>The threads of a session whose state changes, when nothing else does.\<close>

lemma thread_inv_set_state:
  assumes "thread_inv c j sid ph" and "cu_sessions c sid = Some (st, rs)" and "\<not> is_terminal st" "st' \<noteq> ST_PENDING"
    and "ph = PExec \<Longrightarrow> st' \<in> {ST_RUNNING, ST_PAUSING, ST_CANCELING}"
  shows "thread_inv (set_state sid st' rs c) j sid ph"
proof (cases "ph = PExec")
  case True
  then show ?thesis
    using assms by (auto simp: thread_inv_exec exec_ok_def solo_def holds_def)
next
  case False
  show ?thesis
    by (rule thread_inv_idle [OF False])
       (use assms thread_inv_known [OF assms(1,2)] thread_inv_closing [of c j sid] in auto)
qed

lemma thread_inv_other:
  assumes "thread_inv c j sid' ph" and "sid' \<noteq> sid"
  shows "thread_inv (set_state sid st rs c) j sid' ph" and "thread_inv (enqueue sid c) j sid' ph"
  by (rule thread_inv_frame [OF assms(1)]; use assms(2) in auto)+

lemma thread_inv_enqueue:
  assumes "thread_inv c j sid ph" and "cu_sessions c sid = Some (ST_CANCELING, rs)" and "ph \<noteq> PExec"
  shows "thread_inv (enqueue sid c) j sid ph"
  using assms by (intro thread_inv_idle) (auto dest: thread_inv_known thread_inv_closing simp: is_terminal_def)

text \<open>Another thread of the session moves on without becoming live.\<close>

lemma thread_inv_move:
  assumes "thread_inv c j sid' ph'" and "thread_at c i sid ph" and "live ph \<or> \<not> live ph''"
  shows "thread_inv (move i sid ph'' c) j sid' ph'"
  by (rule thread_inv_frame [OF assms(1)])
     (use assms(2,3) in \<open>auto simp: thread_at_move split: if_splits\<close>)

text \<open>A thread beside a live thread of the same session neither runs it nor is about to.\<close>

lemma thread_inv_beside:
  assumes "thread_inv c j sid ph" and "thread_at c i sid phi" and "live phi" and "j \<noteq> i"
    and "cu_sessions c' sid = cu_sessions c sid"
  shows "thread_inv c' j sid ph"
proof -
  have "\<not> solo c j sid" using assms(2,3,4) by (auto simp: solo_def)
  then have "ph \<noteq> PExec" "ph \<noteq> PNew" and
    "ph \<in> {PStart, PHold} \<or> (\<exists>l. ph = PLeased l) \<Longrightarrow> cu_sessions c sid \<noteq> Some (ST_PENDING, rs)" for rs
    using assms(1,2,4) by (auto simp: thread_inv_def exec_ok_def start_ok_def)
  then show ?thesis using assms(1,5) by (auto simp: thread_inv_def start_ok_def)
qed

definition threads_inv :: "custody \<Rightarrow> bool" where
  "threads_inv c \<longleftrightarrow> (\<forall>i sid ph. thread_at c i sid ph \<longrightarrow> thread_inv c i sid ph)"

lemma threads_invI: "(\<And>i sid ph. thread_at c i sid ph \<Longrightarrow> thread_inv c i sid ph) \<Longrightarrow> threads_inv c"
  by (simp add: threads_inv_def)

lemma threads_invD: "threads_inv c \<Longrightarrow> thread_at c i sid ph \<Longrightarrow> thread_inv c i sid ph"
  by (simp add: threads_inv_def)

lemma threads_inv_arrive:
  assumes "threads_inv c" "queue_inv c" and "sid \<noteq> []" "sid \<notin> fst ` set (cu_threads c)" "cu_sessions c sid = None"
  shows "threads_inv (add_threads [(sid, PNew)] c)"
proof (rule threads_invI)
  fix j sid' ph
  assume "thread_at (add_threads [(sid, PNew)] c) j sid' ph"
  then consider "thread_at c j sid' ph" | "j = length (cu_threads c)" "sid' = sid" "ph = PNew"
    by (auto simp: thread_at_add1)
  then show "thread_inv (add_threads [(sid, PNew)] c) j sid' ph"
  proof cases
    case 1
    then have "sid' \<noteq> sid" using assms(4) thread_at_fst by metis
    then show ?thesis
      by (intro thread_inv_frame [OF threads_invD [OF assms(1) 1]]) (auto simp: thread_at_add1)
  next
    case 2
    have "sid \<notin> set (cu_pending c)" using assms(2,4) by (auto simp: queue_inv_def)
    moreover have "\<not> thread_at c k sid ph'" for k ph' using assms(4) thread_at_fst by metis
    ultimately show ?thesis using 2 assms(3,5) by (simp add: thread_inv_def thread_at_add1)
  qed
qed

lemma threads_inv_client:
  assumes "threads_inv c" and "cu_sessions c sid \<noteq> None \<or> sid = []" and "ph \<in> {POther, PClosing}"
    and "ph = PClosing \<Longrightarrow> \<forall>st rs. cu_sessions c sid = Some (st, rs) \<longrightarrow> is_terminal st"
  shows "threads_inv (add_threads [(sid, ph)] c)"
proof (rule threads_invI)
  fix j sid' ph'
  assume "thread_at (add_threads [(sid, ph)] c) j sid' ph'"
  then consider "thread_at c j sid' ph'" | "j = length (cu_threads c)" "sid' = sid" "ph' = ph"
    by (auto simp: thread_at_add1)
  then show "thread_inv (add_threads [(sid, ph)] c) j sid' ph'"
  proof cases
    case 1
    note inv = threads_invD [OF assms(1) 1]
    show ?thesis
    proof (cases "sid' = sid")
      case True
      then have "ph' \<noteq> PNew" using inv assms(2) by (auto simp: thread_inv_def)
      moreover have "solo c j sid' \<Longrightarrow> solo (add_threads [(sid, ph)] c) j sid'"
        using assms(3) by (auto simp: solo_def thread_at_add1)
      ultimately show ?thesis
        using inv by (auto simp: thread_inv_def exec_ok_def start_ok_def holds_def)
    next
      case False
      then show ?thesis by (intro thread_inv_frame [OF inv]) (auto simp: thread_at_add1)
    qed
  next
    case 2
    then show ?thesis using assms(3,4) by (auto simp: thread_inv_def)
  qed
qed

lemma threads_inv_set_state:
  assumes "threads_inv c" and "cu_sessions c sid = Some (st, rs)" and "\<not> is_terminal st" "st' \<noteq> ST_PENDING"
    and "\<And>j. thread_at c j sid PExec \<Longrightarrow> st' \<in> {ST_RUNNING, ST_PAUSING, ST_CANCELING}"
  shows "threads_inv (set_state sid st' rs c)"
  using assms thread_inv_set_state thread_inv_other(1) by (metis threads_inv_def thread_at_more(1))

lemma threads_inv_enqueue_canceling:
  assumes "threads_inv c" and "cu_sessions c sid = Some (ST_CANCELING, rs)" and "\<And>j. \<not> thread_at c j sid PExec"
  shows "threads_inv (enqueue sid c)"
  using assms thread_inv_enqueue thread_inv_other(2) by (metis threads_inv_def thread_at_more(2))

lemma threads_inv_move:
  assumes "threads_inv c" and "thread_at c i sid ph" and "winds ph ph'"
  shows "threads_inv (move i sid ph' c)"
proof (rule threads_invI)
  fix j sid' ph''
  assume t: "thread_at (move i sid ph' c) j sid' ph''"
  show "thread_inv (move i sid ph' c) j sid' ph''"
  proof (cases "j = i \<and> ph' \<in> {PWind, POther}")
    case True
    then show ?thesis using t assms(2) by (auto simp: thread_at_move intro: thread_inv_trivial)
  next
    case False
    then have "thread_at c j sid' ph''"
      using t assms(2) winds_phase [OF assms(3)] by (auto simp: thread_at_move split: if_splits)
    then show ?thesis
      using thread_inv_move [OF threads_invD [OF assms(1)] assms(2) winds_live [OF assms(3)]] by blast
  qed
qed

lemma threads_inv_insert:
  assumes "threads_inv c" and i: "thread_at c i sid PNew"
  shows "threads_inv (enqueue sid (set_state sid ST_PENDING rs (move i sid POther c)))"
proof (rule threads_invI, simp)
  fix j sid' ph
  assume t: "thread_at (move i sid POther c) j sid' ph"
  show "thread_inv (enqueue sid (set_state sid ST_PENDING rs (move i sid POther c))) j sid' ph"
  proof (cases "sid' = sid")
    case True
    then have "ph = POther"
      using t i threads_invD [OF assms] by (auto simp: thread_at_move thread_inv_def split: if_splits)
    then show ?thesis by (simp add: thread_inv_trivial)
  next
    case False
    then have "thread_at c j sid' ph" using t i by (auto simp: thread_at_move split: if_splits)
    then have "thread_inv (move i sid POther c) j sid' ph"
      using thread_inv_move [OF threads_invD [OF assms(1)] i] by simp
    then show ?thesis using False thread_inv_other by simp
  qed
qed

lemma threads_inv_resume:
  assumes "threads_inv c" and s: "cu_sessions c sid = Some (st, rs)" and st: "\<not> is_terminal st" and q: "quiet sid c"
  shows "threads_inv (enqueue sid (set_state sid ST_PENDING rs c))"
proof (rule threads_invI, simp)
  fix j sid' ph
  assume t: "thread_at c j sid' ph"
  note inv = threads_invD [OF assms(1) t]
  show "thread_inv (enqueue sid (set_state sid ST_PENDING rs c)) j sid' ph"
  proof (cases "sid' = sid")
    case True
    then have "\<not> live ph" "ph \<noteq> PNew" "ph \<noteq> PClosing"
      using t q inv s st by (auto simp: quiet_def thread_inv_def)
    then have "ph = POther" by (auto simp: live_def)
    then show ?thesis by (simp add: thread_inv_trivial)
  qed (use inv thread_inv_other in simp)
qed

lemma count_list_nth:
  "i < length xs \<Longrightarrow> j < length xs \<Longrightarrow> xs ! i = x \<Longrightarrow> xs ! j = x \<Longrightarrow> i \<noteq> j \<Longrightarrow> 2 \<le> count_list xs x"
proof -
  assume "i < length xs" "j < length xs" "xs ! i = x" "xs ! j = x" "i \<noteq> j"
  then have "card {i, j} \<le> card {k. k < length xs \<and> x = xs ! k}" by (intro card_mono) auto
  then show ?thesis
    using \<open>i \<noteq> j\<close> by (simp add: count_list_eq_length_filter length_filter_conv_card)
qed

lemma threads_inv_schedule:
  assumes "threads_inv c" "queue_inv c" and sub: "set chosen \<subseteq> set (cu_pending c)"
    and cnt: "\<forall>sid. count_list chosen sid \<le> count_list (cu_pending c) sid"
  defines "new \<equiv> map (\<lambda>sid. (sid, PStart)) (filter (\<lambda>sid. cu_sessions c sid \<noteq> None) chosen)"
  defines "c' \<equiv> add_threads new (c\<lparr>cu_pending := filter (\<lambda>sid. sid \<notin> set chosen) (cu_pending c)\<rparr>)"
  shows "threads_inv c'"
proof (rule threads_invI)
  let ?n = "length (cu_threads c)"
  have at: "thread_at c' j sid ph \<longleftrightarrow> thread_at c j sid ph \<or>
      (?n \<le> j \<and> j < ?n + length new \<and> new ! (j - ?n) = (sid, ph))" for j sid ph
    unfolding c'_def by (simp add: thread_at_add)
  have fields: "cu_sessions c' = cu_sessions c" "cu_leases c' = cu_leases c" "cu_locks c' = cu_locks c"
    "cu_pending c' = filter (\<lambda>sid. sid \<notin> set chosen) (cu_pending c)"
    by (simp_all add: c'_def)
  have chosen: "ph = PStart \<and> sid \<in> set chosen" if "k < length new" "new ! k = (sid, ph)" for k sid ph
    using nth_mem [OF that(1)] that(2) by (auto simp: new_def)
  fix j sid ph
  assume "thread_at c' j sid ph"
  then consider (old) "thread_at c j sid ph" | (new) "?n \<le> j" "j < ?n + length new" "new ! (j - ?n) = (sid, ph)"
    using at by blast
  then show "thread_inv c' j sid ph"
  proof cases
    case old
    note inv = threads_invD [OF assms(1) old]
    show ?thesis
    proof (cases "sid \<in> set chosen")
      case True
      then have "\<not> solo c j sid" "ph \<noteq> PNew" using sub inv by (auto simp: solo_def thread_inv_def)
      then show ?thesis using inv by (auto simp: thread_inv_def exec_ok_def start_ok_def fields)
    next
      case False
      have "thread_at c k sid ph'" if "thread_at c' k sid ph'" for k ph'
        using that False chosen [of "k - ?n" sid ph'] unfolding at by (auto simp: less_diff_conv2)
      then show ?thesis by (intro thread_inv_frame [OF inv]) (auto simp: fields)
    qed
  next
    case new
    then have ph: "ph = PStart" "sid \<in> set chosen" using chosen [of "j - ?n"] by auto
    have "solo c' j sid" if "cu_sessions c sid = Some (ST_PENDING, rs)" for rs
    proof -
      have q: "count_list (cu_pending c) sid = 1" "quiet sid c"
        using assms(2) that ph sub unfolding queue_inv_def by blast+
      have "k = j" if k: "thread_at c' k sid ph'" "live ph'" for k ph'
      proof -
        have k': "?n \<le> k" "k < ?n + length new" "new ! (k - ?n) = (sid, ph')"
          using k q(2) at by (auto simp: quiet_def)
        let ?xs = "filter (\<lambda>sid. cu_sessions c sid \<noteq> None) chosen"
        have "?xs ! (k - ?n) = sid" "?xs ! (j - ?n) = sid" "k - ?n < length ?xs" "j - ?n < length ?xs"
          using k' new by (auto simp: new_def)
        moreover have "count_list ?xs sid \<le> count_list chosen sid" by (induction chosen) auto
        then have "count_list ?xs sid \<le> 1" using cnt q(1) by (metis order_trans)
        ultimately have "k - ?n = j - ?n" using count_list_nth [of "k - ?n" ?xs "j - ?n" sid] by fastforce
        then show ?thesis using k'(1) new(1) by simp
      qed
      then show ?thesis using ph by (auto simp: solo_def fields)
    qed
    then show ?thesis using ph by (auto simp: thread_inv_def start_ok_def fields)
  qed
qed

lemma solo_more [simp]:
  "solo (set_state sid' st rs c) i sid = solo c i sid" "solo (c\<lparr>cu_leases := m\<rparr>) i sid = solo c i sid"
  "solo (c\<lparr>cu_locks := t\<rparr>) i sid = solo c i sid"
  by (simp_all add: solo_def)

lemma solo_move:
  assumes "thread_at c i sid ph" and "solo c i sid"
  shows "solo (move i sid ph' c) i sid"
  using assms(2) unfolding solo_def thread_at_move [OF assms(1)] by auto

lemma threads_inv_acquire:
  assumes "threads_inv c" "leases_inv c" and i: "thread_at c i sid PStart"
    and a: "lock_acquire rs canceled (cu_locks c) = (Acquired l, locks)"
    and rs: "\<forall>st rs'. cu_sessions c sid = Some (st, rs') \<longrightarrow> rs' = rs"
  shows "threads_inv (move i sid (PLeased l) (c\<lparr>cu_locks := locks\<rparr>))" (is "threads_inv ?c")
proof (rule threads_invI)
  have l: "l = length (lt_leases (cu_locks c))"
    using a by (auto simp: lock_acquire_def Let_def split: if_splits)
  have owns: "lease_owns k locks = lease_owns k (cu_locks c)" if "refers c r k" for r k
    using locks.acquired_other [OF a] assms(2) that l by (force simp: leases_inv_def)
  fix j sid' ph
  assume t: "thread_at ?c j sid' ph"
  show "thread_inv ?c j sid' ph"
  proof (cases "j = i")
    case True
    then have "sid' = sid" "ph = PLeased l" using t i by (auto simp: thread_at_move)
    moreover have "solo c i sid \<Longrightarrow> solo ?c i sid" using i by (simp add: solo_move)
    ultimately show ?thesis
      using threads_invD [OF assms(1) i] locks.acquired [OF a] rs True
      by (auto simp: thread_inv_def start_ok_def)
  next
    case False
    then have old: "thread_at c j sid' ph" using t i by (simp add: thread_at_move)
    have "lease_owns k locks = lease_owns k (cu_locks c)" if "cu_leases c sid' = Some k \<or> ph = PLeased k" for k
      using that old owns [of "RefTable sid'" k] owns [of "RefThread j" k] by (auto simp: refers_table refers_thread)
    then show ?thesis
      using i by (intro thread_inv_frame [OF threads_invD [OF assms(1) old]])
                 (auto simp: thread_at_move split: if_splits)
  qed
qed

lemma threads_inv_lease:
  assumes "threads_inv c" and i: "thread_at c i sid (PLeased l)" and ph: "ph = PHold \<or> ph = PWind"
  shows "threads_inv (move i sid ph (c\<lparr>cu_leases := (cu_leases c)(sid \<mapsto> l)\<rparr>))" (is "threads_inv ?c")
proof (rule threads_invI)
  fix j sid' ph'
  assume t: "thread_at ?c j sid' ph'"
  have solo: "solo c i sid \<Longrightarrow> solo ?c i sid" using i by (simp add: solo_move)
  consider (own) "j = i" | (same) "j \<noteq> i" "sid' = sid" | (other) "j \<noteq> i" "sid' \<noteq> sid" by blast
  then show "thread_inv ?c j sid' ph'"
  proof cases
    case own
    then have "sid' = sid" "ph' = ph" using t i by (auto simp: thread_at_move)
    then show ?thesis
      using own ph solo threads_invD [OF assms(1) i] by (auto simp: thread_inv_def start_ok_def holds_def)
  next
    case same
    then have "thread_at c j sid ph'" using t i by (simp add: thread_at_move)
    then show ?thesis using same thread_inv_beside [OF threads_invD [OF assms(1)] i] by simp
  next
    case other
    then have old: "thread_at c j sid' ph'" using t i by (simp add: thread_at_move)
    show ?thesis
      using other i by (intro thread_inv_frame [OF threads_invD [OF assms(1) old]])
                       (auto simp: thread_at_move split: if_splits)
  qed
qed

lemma threads_inv_release:
  assumes "threads_inv c" and i: "thread_at c i sid PWind"
  shows "threads_inv (move i sid (PUnlock l) (c\<lparr>cu_leases := (cu_leases c)(sid := None)\<rparr>))" (is "threads_inv ?c")
proof (rule threads_invI)
  fix j sid' ph'
  assume t: "thread_at ?c j sid' ph'"
  consider (own) "j = i" | (same) "j \<noteq> i" "sid' = sid" | (other) "j \<noteq> i" "sid' \<noteq> sid" by blast
  then show "thread_inv ?c j sid' ph'"
  proof cases
    case own
    then show ?thesis using t i by (auto simp: thread_at_move intro: thread_inv_trivial)
  next
    case same
    then have "thread_at c j sid ph'" using t i by (simp add: thread_at_move)
    then show ?thesis using same thread_inv_beside [OF threads_invD [OF assms(1)] i] by simp
  next
    case other
    then have old: "thread_at c j sid' ph'" using t i by (simp add: thread_at_move)
    show ?thesis
      using other i by (intro thread_inv_frame [OF threads_invD [OF assms(1) old]])
                       (auto simp: thread_at_move split: if_splits)
  qed
qed

lemma threads_inv_unlock:
  assumes "threads_inv c" "leases_inv c" and i: "thread_at c i sid (PUnlock l)"
  shows "threads_inv (move i sid PWind (c\<lparr>cu_locks := lease_release l (cu_locks c)\<rparr>))" (is "threads_inv ?c")
proof (rule threads_invI)
  have "refers c (RefThread i) l" using i by (auto simp: refers_thread)
  then have owns: "lease_owns k (lease_release l (cu_locks c)) = lease_owns k (cu_locks c)"
    if "refers c r k" "r \<noteq> RefThread i" for r k
    using that assms(2) unfolding leases_inv_def by (metis locks.released_other)
  fix j sid' ph
  assume t: "thread_at ?c j sid' ph"
  show "thread_inv ?c j sid' ph"
  proof (cases "j = i")
    case True
    then show ?thesis using t i by (auto simp: thread_at_move intro: thread_inv_trivial)
  next
    case False
    then have old: "thread_at c j sid' ph" using t i by (simp add: thread_at_move)
    have "lease_owns k (lease_release l (cu_locks c)) = lease_owns k (cu_locks c)"
      if "cu_leases c sid' = Some k \<or> ph = PLeased k" for k
      using that old False owns [of "RefTable sid'" k] owns [of "RefThread j" k]
      by (auto simp: refers_table refers_thread)
    then show ?thesis
      using i by (intro thread_inv_frame [OF threads_invD [OF assms(1) old]])
                 (auto simp: thread_at_move split: if_splits)
  qed
qed

lemma threads_inv_begin:
  assumes "threads_inv c" and i: "thread_at c i sid PHold" and s: "cu_sessions c sid = Some (ST_PENDING, rs)"
  shows "threads_inv (move i sid PExec (set_state sid ST_RUNNING rs c))" (is "threads_inv ?c")
proof (rule threads_invI)
  have i': "thread_at (set_state sid ST_RUNNING rs c) i sid PHold" using i by simp
  have start: "solo c i sid" "holds c sid rs"
    using threads_invD [OF assms(1) i] s by (auto simp: thread_inv_def start_ok_def)
  then have "solo ?c i sid" "holds ?c sid rs"
    using i' by (auto simp: holds_def intro: solo_move)
  then have exec: "thread_inv ?c i sid PExec" by (auto simp: thread_inv_exec exec_ok_def)
  have set: "threads_inv (set_state sid ST_RUNNING rs c)"
    by (rule threads_inv_set_state [OF assms(1) s]) (simp_all add: is_terminal_def)
  fix j sid' ph
  assume t: "thread_at ?c j sid' ph"
  show "thread_inv ?c j sid' ph"
  proof (cases "j = i")
    case True
    then show ?thesis using t i' exec by (auto simp: thread_at_move)
  next
    case False
    then have "thread_at (set_state sid ST_RUNNING rs c) j sid' ph" using t i' thread_at_move [OF i'] by simp
    from thread_inv_move [OF threads_invD [OF set this] i'] show ?thesis by simp
  qed
qed

lemma threads_inv_close:
  assumes "threads_inv c" and i: "thread_at c i sid PClosing"
  shows "threads_inv (move i sid POther (c\<lparr>cu_sessions := (cu_sessions c)(sid := None)\<rparr>))" (is "threads_inv ?c")
proof (rule threads_invI)
  fix j sid' ph
  assume t: "thread_at ?c j sid' ph"
  consider (own) "j = i" | (same) "j \<noteq> i" "sid' = sid" | (other) "j \<noteq> i" "sid' \<noteq> sid" by blast
  then show "thread_inv ?c j sid' ph"
  proof cases
    case own
    then show ?thesis using t i by (auto simp: thread_at_move intro: thread_inv_trivial)
  next
    case same
    then have "thread_at c j sid ph" using t i by (simp add: thread_at_move)
    from threads_invD [OF assms(1) this] threads_invD [OF assms(1) i] have "ph \<noteq> PExec" "ph \<noteq> PNew"
      using same i by (auto simp: thread_inv_def exec_ok_def is_terminal_def)
    then show ?thesis using same by (auto simp: thread_inv_def start_ok_def)
  next
    case other
    then have old: "thread_at c j sid' ph" using t i by (simp add: thread_at_move)
    show ?thesis
      using other i by (intro thread_inv_frame [OF threads_invD [OF assms(1) old]])
                       (auto simp: thread_at_move split: if_splits)
  qed
qed

lemma no_exec_beside:
  assumes "threads_inv c" and i: "thread_at c i sid ph" and "live ph" "ph \<noteq> PExec"
  shows "\<not> thread_at c j sid PExec"
proof
  assume j: "thread_at c j sid PExec"
  from threads_invD [OF assms(1) j] have "solo c j sid" by (simp add: thread_inv_exec exec_ok_def)
  then have "i = j" using i assms(3) by (auto simp: solo_def)
  then show False using i j assms(4) thread_at_unique by blast
qed

lemma no_exec_state:
  "threads_inv c \<Longrightarrow> cu_sessions c sid = Some (st, rs) \<Longrightarrow> st \<notin> {ST_RUNNING, ST_PAUSING, ST_CANCELING} \<Longrightarrow>
   \<not> thread_at c j sid PExec"
  by (auto simp: thread_inv_exec exec_ok_def dest!: threads_invD)

lemma not_terminal: "st' \<in> legal_transitions st \<Longrightarrow> \<not> is_terminal st"
  by (cases st) (auto simp: is_terminal_def)

lemma threads_inv_step:
  assumes inv: "threads_inv c" "leases_inv c" "queue_inv c" and step: "custody_step c c'"
  shows "threads_inv c'"
  using step
proof cases
  case (arrive sid)
  then show ?thesis using threads_inv_arrive inv by blast
next
  case (client sid)
  then show ?thesis using threads_inv_client [OF inv(1), of sid POther] by simp
next
  case (closing sid st rs)
  then show ?thesis using threads_inv_client [OF inv(1), of sid PClosing] by simp
next
  case (insert i sid rs)
  then show ?thesis using threads_inv_insert inv by blast
next
  case (pause sid rs)
  then show ?thesis using threads_inv_set_state [OF inv(1)] by (simp add: is_terminal_def)
next
  case (resume sid st rs)
  then have "\<not> is_terminal st" by (auto simp: is_terminal_def)
  then show ?thesis using threads_inv_resume [OF inv(1)] resume by blast
next
  case (cancel sid st rs)
  then show ?thesis using threads_inv_set_state [OF inv(1)] not_terminal by simp
next
  case (cancel_enqueue sid st rs)
  then have "\<not> is_terminal st" "\<And>j. \<not> thread_at c j sid PExec"
    using no_exec_state [OF inv(1)] by (auto simp: is_terminal_def)
  then have "threads_inv (set_state sid ST_CANCELING rs c)"
    using threads_inv_set_state [OF inv(1) cancel_enqueue(2)] by simp
  then show ?thesis
    using cancel_enqueue threads_inv_enqueue_canceling \<open>\<And>j. \<not> thread_at c j sid PExec\<close> by simp
next
  case (schedule chosen)
  then show ?thesis using threads_inv_schedule inv by blast
next
  case (acquire i sid rs canceled l locks)
  then show ?thesis using threads_inv_acquire inv by blast
next
  case (lease i sid l ph)
  then show ?thesis using threads_inv_lease inv by blast
next
  case (begin_work i sid rs)
  then show ?thesis using threads_inv_begin inv by blast
next
  case (wind i sid ph ph')
  then show ?thesis using threads_inv_move inv by blast
next
  case (release i sid l)
  then show ?thesis using threads_inv_release inv by blast
next
  case (unlock i sid l)
  then show ?thesis using threads_inv_unlock inv by blast
next
  case (settle i sid st rs st')
  have "threads_inv (set_state sid st' rs c)"
    by (rule threads_inv_set_state [OF inv(1) settle(3)])
       (use settle not_terminal no_exec_beside [OF inv(1) settle(2)] in \<open>auto simp: is_terminal_def\<close>)
  then show ?thesis using threads_inv_move [of _ i sid PWind PWind] settle winds.intros(1) by simp
next
  case (canceled_pause i sid rs)
  have none: "\<not> thread_at c j sid PExec" for j using no_exec_state [OF inv(1) canceled_pause(3)] by simp
  then have "threads_inv (set_state sid ST_CANCELING rs c)"
    using threads_inv_set_state [OF inv(1) canceled_pause(3)] by (simp add: is_terminal_def)
  then have "threads_inv (enqueue sid (set_state sid ST_CANCELING rs c))"
    using threads_inv_enqueue_canceling none by simp
  then show ?thesis using threads_inv_move [of _ i sid PWind POther] canceled_pause winds.intros(5) by simp
next
  case (close i sid)
  then show ?thesis using threads_inv_close inv by blast
qed

lemma custody_inv_iff: "custody_inv c \<longleftrightarrow> leases_inv c \<and> queue_inv c \<and> threads_inv c"
  by (simp add: custody_inv_def threads_inv_def)

lemma custody_inv_step: "custody_inv c \<Longrightarrow> custody_step c c' \<Longrightarrow> custody_inv c'"
  using leases_inv_step queue_inv_step threads_inv_step unfolding custody_inv_iff by blast

lemma custody_inv_init: "custody_inv custody_init"
  unfolding custody_inv_iff leases_inv_def queue_inv_def threads_inv_def
  by (auto simp: custody_init_def refers_def thread_at_def locks.exclusive_def lease_owns_def split: lease_ref.splits)

lemma custody_inv_reachable: "protocol.reachable c \<Longrightarrow> custody_inv c"
  by (erule protocol.invariant) (auto intro: custody_inv_init custody_inv_step)

text \<open>Two threads that run workflows run different sessions, whose resources are disjoint.\<close>

lemma protocol_exclusive:
  assumes "custody_inv c" and i: "thread_at c i sid PExec" and j: "thread_at c j sid' PExec" and "i \<noteq> j"
    and "cu_sessions c sid = Some (st, rs)" and "cu_sessions c sid' = Some (st', rs')"
  shows "sid \<noteq> sid' \<and> set rs \<inter> set rs' = {}"
proof -
  have e: "exec_ok c i sid" "exec_ok c j sid'"
    using assms(1) i j by (auto simp: custody_inv_iff thread_inv_exec dest: threads_invD)
  have diff: "sid \<noteq> sid'" using e(1) j \<open>i \<noteq> j\<close> by (auto simp: exec_ok_def solo_def)
  obtain l l' where l: "cu_leases c sid = Some l" "lease_owns l (cu_locks c) = set rs"
    and l': "cu_leases c sid' = Some l'" "lease_owns l' (cu_locks c) = set rs'"
    using e assms(5,6) by (auto simp: exec_ok_def holds_def)
  have "l \<noteq> l'"
    using assms(1) l(1) l'(1) diff unfolding custody_inv_iff leases_inv_def by (metis lease_ref.inject(1) refers_table)
  then have "lease_owns l (cu_locks c) \<inter> lease_owns l' (cu_locks c) = {}"
    using assms(1) unfolding custody_inv_iff leases_inv_def locks.exclusive_def by blast
  then show ?thesis using l(2) l'(2) diff by simp
qed

end
