(* ===== verification/Dispatcher_Refinement.thy ===== *)
theory Dispatcher_Refinement
  imports Dispatcher Custody_Protocol "HOL-Library.Sublist"
begin

text \<open>
  The dispatcher implements the custody protocol: every step of the detailed model is, seen through
  an abstraction of its state, a sequence of steps of the protocol, as long as clients resume a
  session only when no worker of it is left.
\<close>

section \<open>Abstraction\<close>

fun abs_phase :: "phase \<Rightarrow> custody_phase" where
  "abs_phase WStart = PStart"
| "abs_phase (WAcquire _ _) = PStart"
| "abs_phase (WLeased l) = PLeased l"
| "abs_phase (WOpen _) = PHold"
| "abs_phase (WBegin _) = PHold"
| "abs_phase (WAnnounce _ _) = PExec"
| "abs_phase (WCore (Some _) _ _) = PExec"
| "abs_phase (WCore None _ _) = PWind"
| "abs_phase (WCheck (Some _) _ _) = PExec"
| "abs_phase (WCheck None _ _) = PWind"
| "abs_phase (WRun _ _) = PExec"
| "abs_phase (WSnapshot _) = PExec"
| "abs_phase (WUnlock l _ _) = PUnlock l"
| "abs_phase (CAdmit _ _ _ _) = PNew"
| "abs_phase (CInsert _ _) = PNew"
| "abs_phase CClosing = PClosing"
| "abs_phase (CStopped _) = POther"
| "abs_phase CLeave = POther"
| "abs_phase (CEmit _ _ _) = POther"
| "abs_phase (CHubClose _) = POther"
| "abs_phase (CShutdown _) = POther"
| "abs_phase TEnd = POther"
| "abs_phase _ = PWind"

definition custody_of :: "dispatcher \<Rightarrow> custody" where
  "custody_of s =
     \<lparr>cu_sessions = (\<lambda>sid. map_option (\<lambda>r. (se_state r, se_resources r)) (map_of (dp_records s) sid)),
      cu_pending = dp_pending s, cu_leases = map_of (dp_leases s), cu_locks = dp_locks s,
      cu_threads = map (\<lambda>(sid, ph). (sid, abs_phase ph)) (dp_threads s)\<rparr>"

text \<open>No worker of the session is left: the guard of calm clients.\<close>

definition no_worker_left :: "session_id \<Rightarrow> dispatcher \<Rightarrow> bool" where
  "no_worker_left sid s \<longleftrightarrow> (\<forall>(sid', ph) \<in> set (dp_threads s). sid' = sid \<longrightarrow> \<not> live (abs_phase ph))"

section \<open>What threads carry\<close>

definition settles :: "session_state \<Rightarrow> bool" where
  "settles st \<longleftrightarrow> st = ST_PAUSED \<or> is_terminal st"

fun release_ok :: "after_release \<Rightarrow> bool" where
  "release_ok (SettleTo st _ _) = settles st"
| "release_ok Finally = True"

fun phase_ok :: "(session_id, session_record) dict \<Rightarrow> session_id \<Rightarrow> phase \<Rightarrow> bool" where
  "phase_ok records sid (WAcquire r _) = (\<forall>r'. map_of records sid = Some r' \<longrightarrow> se_resources r' = se_resources r)"
| "phase_ok records sid (WBegin p) = valid_program p"
| "phase_ok records sid (WAnnounce _ p) = valid_program p"
| "phase_ok records sid (WCore invocation _ _) = (\<forall>p. invocation = Some p \<longrightarrow> valid_program p)"
| "phase_ok records sid (WCheck invocation _ _) = (\<forall>p. invocation = Some p \<longrightarrow> valid_program p)"
| "phase_ok records sid (WRun p _) = valid_program p"
| "phase_ok records sid (WRelease k) = release_ok k"
| "phase_ok records sid (WUnlock _ _ k) = release_ok k"
| "phase_ok records sid (WUnreserve _ k) = release_ok k"
| "phase_ok records sid (WTransition st _ _) = settles st"
| "phase_ok records sid (CInsert r _) = (se_session_id r = sid \<and> se_state r = ST_PENDING)"
| "phase_ok records sid _ = True"

definition phases_ok :: "dispatcher \<Rightarrow> bool" where
  "phases_ok s \<longleftrightarrow> (\<forall>(sid, ph) \<in> set (dp_threads s). phase_ok (dp_records s) sid ph)"

text \<open>Registered workflows return valid results and emit valid events.\<close>

definition registry_ok :: "'req registry \<Rightarrow> bool" where
  "registry_ok reg \<longleftrightarrow> (\<forall>kind rg payload p. reg kind = Some rg \<longrightarrow> rg_open rg payload = Inr p \<longrightarrow> valid_program p)"

section \<open>Simulation\<close>

definition simulates :: "dispatcher \<Rightarrow> dispatcher \<Rightarrow> bool" where
  "simulates s s' \<longleftrightarrow> rtranclp custody_step (custody_of s) (custody_of s') \<and> phases_ok s'"

text \<open>States that the protocol cannot tell apart.\<close>

definition same_custody :: "dispatcher \<Rightarrow> dispatcher \<Rightarrow> bool" where
  "same_custody s s' \<longleftrightarrow> dp_records s' = dp_records s \<and> dp_pending s' = dp_pending s \<and> dp_leases s' = dp_leases s \<and>
     dp_locks s' = dp_locks s \<and> dp_threads s' = dp_threads s"

lemma same_custody_simps [simp]:
  "same_custody s s"
  "same_custody s (s\<lparr>dp_hub_heap := h\<rparr>)" "same_custody s (s\<lparr>dp_control_heap := c\<rparr>)"
  "same_custody s (s\<lparr>dp_item_heap := i\<rparr>)" "same_custody s (s\<lparr>dp_item_events := ie\<rparr>)"
  "same_custody s (s\<lparr>dp_store := st\<rparr>)" "same_custody s (s\<lparr>dp_store_failures := sf\<rparr>)"
  "same_custody s (s\<lparr>dp_custody_failures := sf\<rparr>)" "same_custody s (s\<lparr>dp_workers := w\<rparr>)"
  "same_custody s (s\<lparr>dp_reserved := rs\<rparr>)" "same_custody s (s\<lparr>dp_admitting := n\<rparr>)"
  "same_custody s (s\<lparr>dp_admission_order := n\<rparr>)" "same_custody s (s\<lparr>dp_accepting := b\<rparr>)"
  "same_custody s (update_control a f s)" "same_custody s (snd (emit_at now a body s))"
  by (simp_all add: same_custody_def update_control_def emit_at_def split: prod.splits)

lemma same_custody_emit: "emit_at now a body s = (x, s') \<Longrightarrow> same_custody s s'"
  using same_custody_simps(15) by (metis snd_conv)

lemma same_custody_trans: "same_custody a b \<Longrightarrow> same_custody b c \<Longrightarrow> same_custody a c"
  by (simp add: same_custody_def)

lemma custody_of_same: "same_custody s s' \<Longrightarrow> custody_of s' = custody_of s"
  and phases_ok_same: "same_custody s s' \<Longrightarrow> phases_ok s' = phases_ok s"
  by (simp_all add: same_custody_def custody_of_def phases_ok_def)

lemma simulates_same: "phases_ok s \<Longrightarrow> same_custody s s' \<Longrightarrow> simulates s s'"
  by (simp add: simulates_def custody_of_same phases_ok_same)

lemma simulates_trans: "simulates a b \<Longrightarrow> simulates b c \<Longrightarrow> simulates a c"
  by (auto simp: simulates_def)

lemma simulates_step: "custody_step (custody_of s) (custody_of s') \<Longrightarrow> phases_ok s' \<Longrightarrow> simulates s s'"
  by (simp add: simulates_def r_into_rtranclp)

definition thread_of :: "dispatcher \<Rightarrow> nat \<Rightarrow> session_id \<Rightarrow> phase \<Rightarrow> bool" where
  "thread_of s t sid ph \<longleftrightarrow> t < length (dp_threads s) \<and> dp_threads s ! t = (sid, ph)"

lemma thread_of_custody: "thread_of s t sid ph \<Longrightarrow> thread_at (custody_of s) t sid (abs_phase ph)"
  by (simp add: thread_of_def thread_at_def custody_of_def)

lemma custody_of_goto:
  "thread_of s t sid ph \<Longrightarrow> custody_of (goto t ph' s) = move t sid (abs_phase ph') (custody_of s)"
  by (simp add: custody_of_def goto_def move_def thread_of_def map_update)

lemma custody_of_spawn: "custody_of (spawn sid ph s) = add_threads [(sid, abs_phase ph)] (custody_of s)"
  by (simp add: custody_of_def spawn_def add_threads_def)

lemma phases_ok_goto:
  assumes "phases_ok s" and "thread_of s t sid ph" and "phase_ok (dp_records s) sid ph'"
  shows "phases_ok (goto t ph' s)"
proof -
  have "set ((dp_threads s)[t := (sid, ph')]) \<subseteq> insert (sid, ph') (set (dp_threads s))"
    by (rule set_update_subset_insert)
  then show ?thesis using assms by (fastforce simp: phases_ok_def goto_def thread_of_def)
qed

lemma phases_ok_spawn: "phases_ok s \<Longrightarrow> phase_ok (dp_records s) sid ph \<Longrightarrow> phases_ok (spawn sid ph s)"
  by (auto simp: phases_ok_def spawn_def)

lemma phases_okD: "phases_ok s \<Longrightarrow> thread_of s t sid ph \<Longrightarrow> phase_ok (dp_records s) sid ph"
  by (fastforce simp: phases_ok_def thread_of_def dest: nth_mem)

text \<open>A thread goes on without touching what the protocol sees.\<close>

lemma simulates_goto:
  assumes "phases_ok s" and "thread_of s t sid ph" and "same_custody s s1"
    and "winds (abs_phase ph) (abs_phase ph')" and "phase_ok (dp_records s) sid ph'"
  shows "simulates s (goto t ph' s1)"
proof -
  have t: "thread_of s1 t sid ph" and r: "dp_records s1 = dp_records s"
    using assms(2,3) by (simp_all add: thread_of_def same_custody_def)
  have "custody_of (goto t ph' s1) = move t sid (abs_phase ph') (custody_of s)"
    using custody_of_goto [OF t] custody_of_same [OF assms(3)] by simp
  then have "custody_step (custody_of s) (custody_of (goto t ph' s1))"
    using custody_step.wind [OF thread_of_custody [OF assms(2)] assms(4)] by simp
  then show ?thesis
    using phases_ok_goto [of s1 t sid ph ph'] t assms(1,3,5) r by (simp add: simulates_step phases_ok_same)
qed

lemma winds_exec [simp]: "winds PExec PWind" "winds PHold PWind" "winds PStart PWind" "winds PWind POther"
    "winds PNew POther" "winds PClosing POther" "winds ph ph"
  by (rule winds.intros)+

section \<open>Blocks that change a old\<close>

lemma persist_locked_fields [simp]:
  "dp_records (persist_locked e r s) = dp_records s" "same_custody s (persist_locked e r s)"
  by (auto simp: persist_locked_def split: option.splits)

lemma transition_locked_Inr:
  assumes "transition_locked ans sid st result s = Inr (updated, hub, s')"
  obtains old where "map_of (dp_records s) sid = Some old" and "st \<in> legal_transitions (se_state old)"
    and "se_state updated = st" and "se_resources updated = se_resources old"
    and "se_session_id updated = se_session_id old" and "se_result updated = result"
    and "session_record_post_init updated = Inr ()"
    and "dp_records s' = dict_set sid updated (dp_records s)"
    and "same_custody (s\<lparr>dp_records := dict_set sid updated (dp_records s)\<rparr>) s'"
proof -
  obtain old started ended where r: "map_of (dp_records s) sid = Some old"
    and u: "updated = old\<lparr>se_state := st, se_started_at := started, se_ended_at := ended, se_result := result\<rparr>"
    and c: "require_transition (se_state old) st = Inr ()" "session_record_post_init updated = Inr ()"
    and s': "s' = persist_locked (an_put_error ans) updated (s\<lparr>dp_records := dict_set sid updated (dp_records s)\<rparr>)"
    using assms
    by (auto simp: transition_locked_def bindE_eq_Inr get_key_def Let_def split: option.splits)
  have "st \<in> legal_transitions (se_state old)"
    using c(1) by (simp add: require_transition_def raise_if_def split: if_splits)
  then show thesis using that [OF r] u c(2) s' by simp
qed

lemma record_update_custody:
  assumes "map_of (dp_records s) sid = Some old" and "se_resources updated = se_resources old"
    and "same_custody (s\<lparr>dp_records := dict_set sid updated (dp_records s)\<rparr>) s'"
  shows "custody_of s' = set_state sid (se_state updated) (se_resources old) (custody_of s)"
    and "phases_ok s \<Longrightarrow> phases_ok s'"
proof -
  let ?s = "s\<lparr>dp_records := dict_set sid updated (dp_records s)\<rparr>"
  have "custody_of ?s = set_state sid (se_state updated) (se_resources old) (custody_of s)"
    using assms(1,2) by (auto simp: custody_of_def set_state_def fun_eq_iff)
  then show "custody_of s' = set_state sid (se_state updated) (se_resources old) (custody_of s)"
    using custody_of_same [OF assms(3)] by simp
  have "phase_ok (dict_set sid updated (dp_records s)) sid' ph" if "phase_ok (dp_records s) sid' ph" for sid' ph
    using that assms(1,2) by (cases "(dp_records s, sid', ph)" rule: phase_ok.cases) auto
  then have "phases_ok s \<Longrightarrow> phases_ok ?s" by (auto simp: phases_ok_def)
  then show "phases_ok s \<Longrightarrow> phases_ok s'" using phases_ok_same [OF assms(3)] by simp
qed

lemma session_of: "map_of (dp_records s) sid = Some old \<Longrightarrow>
    cu_sessions (custody_of s) sid = Some (se_state old, se_resources old)"
  by (simp add: custody_of_def)

lemma set_state_id: "cu_sessions c sid = Some (st, rs) \<Longrightarrow> set_state sid st rs c = c"
  by (simp add: set_state_def fun_upd_idem)

lemma publish_result_Inr:
  assumes "publish_result ans sid r s = Inr s'" and "phases_ok s"
  shows "simulates s s'" and "dp_threads s' = dp_threads s"
proof -
  obtain old where rec: "map_of (dp_records s) sid = Some old"
    and s': "s' = persist_locked (an_put_error ans) (old\<lparr>se_result := Some r\<rparr>)
      (s\<lparr>dp_records := dict_set sid (old\<lparr>se_result := Some r\<rparr>) (dp_records s)\<rparr>)"
    using assms(1) by (auto simp: publish_result_def bindE_eq_Inr get_key_def Let_def split: option.splits)
  have same: "same_custody (s\<lparr>dp_records := dict_set sid (old\<lparr>se_result := Some r\<rparr>) (dp_records s)\<rparr>) s'"
    unfolding s' by simp
  then show "dp_threads s' = dp_threads s" by (simp add: same_custody_def)
  show "simulates s s'"
    using record_update_custody [OF rec _ same] assms(2) set_state_id [OF session_of [OF rec]]
    by (simp add: simulates_def)
qed

lemma replace_payload_Inr:
  assumes "replace_payload ans sid payload s = Inr s'" and "phases_ok s"
  shows "simulates s s'" and "dp_threads s' = dp_threads s"
proof -
  obtain old where rec: "map_of (dp_records s) sid = Some old"
    and s': "s' = persist_locked (an_put_error ans) (old\<lparr>se_payload := payload\<rparr>)
      (s\<lparr>dp_records := dict_set sid (old\<lparr>se_payload := payload\<rparr>) (dp_records s)\<rparr>)"
    using assms(1) by (auto simp: replace_payload_def bindE_eq_Inr get_key_def Let_def split: option.splits)
  have same: "same_custody (s\<lparr>dp_records := dict_set sid (old\<lparr>se_payload := payload\<rparr>) (dp_records s)\<rparr>) s'"
    unfolding s' by simp
  then show "dp_threads s' = dp_threads s" by (simp add: same_custody_def)
  show "simulates s s'"
    using record_update_custody [OF rec _ same] assms(2) set_state_id [OF session_of [OF rec]]
    by (simp add: simulates_def)
qed

section \<open>Workers\<close>

lemma thread_of_same: "thread_of s t sid ph \<Longrightarrow> dp_threads s' = dp_threads s \<Longrightarrow> thread_of s' t sid ph"
  by (simp add: thread_of_def)

lemma phases_ok_simulates: "simulates s s' \<Longrightarrow> phases_ok s'"
  by (simp add: simulates_def)

lemma interrupted_settles [simp]: "settles (or_status (interrupted_result ST_CANCELED d l e))"
    "settles (or_status (interrupted_result ST_FAILED d l e))"
  by (simp_all add: settles_def is_terminal_def interrupted_result_def)

lemma raised_ok [simp]: "abs_phase (raised e co s) = PWind" "phase_ok records sid (raised e co s')"
  by (auto simp: raised_def settle_result_def settles_def split: exn.splits)
     (simp_all add: interrupted_result_def is_terminal_def)

lemma result_settles: "operation_result_post_init r = Inr () \<Longrightarrow> settles (or_status r)"
  by (simp add: operation_result_ok settles_def)

lemma settle_result_ok: "abs_phase (settle_result r co) = PWind"
    "settles (or_status r) \<Longrightarrow> phase_ok records sid (settle_result r co)"
  by (simp_all add: settle_result_def)

lemma start_simulates:
  assumes "phases_ok s" and "thread_of s t sid WStart"
  shows "simulates s (start_step reg t sid s)"
  unfolding start_step_def
  by (auto split: option.splits intro!: simulates_goto [OF assms])

lemma open_simulates:
  assumes "phases_ok s" and "thread_of s t sid (WOpen r)" and "registry_ok reg"
  shows "simulates s (open_step reg t r s)"
  using assms(3) unfolding open_step_def registry_ok_def
  by (auto split: option.splits sum.splits intro!: simulates_goto [OF assms(1,2)])

lemma announce_simulates:
  assumes "phases_ok s" and "thread_of s t sid (WAnnounce hub p)"
  shows "simulates s (announce_step ans t hub p s)"
  using phases_okD [OF assms] unfolding announce_step_def
  by (auto split: prod.splits option.splits intro!: simulates_goto [OF assms] dest: same_custody_emit)

lemma core_simulates:
  assumes "phases_ok s" and "thread_of s t sid (WCore invocation disp failure)"
  shows "simulates s (core_step reg t sid invocation disp failure s)"
  using phases_okD [OF assms] unfolding core_step_def
  by (cases invocation) (auto split: option.splits intro!: simulates_goto [OF assms])

lemma check_simulates:
  assumes "phases_ok s" and "thread_of s t sid (WCheck invocation failure co)"
  shows "simulates s (check_step t invocation failure co s)"
  using phases_okD [OF assms] unfolding check_step_def
  by (cases invocation) (auto split: option.splits intro!: simulates_goto [OF assms])

lemma observed_emit_same:
  assumes "observed_emit ans body co s = (x, co1, s1)"
  shows "same_custody s s1"
proof -
  have "same_custody (s\<lparr>dp_item_heap := v\<rparr>) s' \<Longrightarrow> same_custody s s'" for v s'
    by (simp add: same_custody_def)
  then show ?thesis
    using assms same_custody_emit
    by (fastforce simp: observed_emit_def Let_def split: event_body.splits prod.splits option.splits)
qed

lemma run_simulates:
  assumes "phases_ok s" and "thread_of s t sid (WRun p co)"
  shows "simulates s (run_step ans t p co s)"
proof (cases p)
  case (Emit body k)
  obtain x co1 s1 where e: "observed_emit ans body co s = (x, co1, s1)" by (metis prod_cases3)
  have "valid_program (k x)" using phases_okD [OF assms] Emit by simp
  then show ?thesis
    using e Emit observed_emit_same [OF e] by (auto simp: run_step_def intro!: simulates_goto [OF assms])
qed (use phases_okD [OF assms] in \<open>auto simp: run_step_def settle_result_ok result_settles intro!: simulates_goto [OF assms]\<close>)

lemma snapshot_simulates:
  assumes "phases_ok s" and "thread_of s t sid (WSnapshot co)"
  shows "simulates s (snapshot_step ans t sid co s)"
proof (cases "an_snapshot ans")
  case (Inr payload)
  show ?thesis
  proof (cases "replace_payload ans sid payload s")
    case (Inr s1)
    note r = replace_payload_Inr [OF Inr assms(1)]
    have "simulates s1 (goto t (raised PauseRequested co s1) s1)"
      by (rule simulates_goto [OF phases_ok_simulates [OF r(1)] thread_of_same [OF assms(2) r(2)]]) simp_all
    then show ?thesis
      using simulates_trans [OF r(1)] Inr \<open>an_snapshot ans = _\<close> by (simp add: snapshot_step_def)
  qed (use Inr in \<open>auto simp: snapshot_step_def intro!: simulates_goto [OF assms]\<close>)
qed (auto simp: snapshot_step_def intro!: simulates_goto [OF assms])

lemma custody_of_updates:
  "custody_of (s\<lparr>dp_locks := locks\<rparr>) = (custody_of s)\<lparr>cu_locks := locks\<rparr>"
  "custody_of (s\<lparr>dp_pending := pending\<rparr>) = (custody_of s)\<lparr>cu_pending := pending\<rparr>"
  "custody_of (s\<lparr>dp_leases := leases\<rparr>) = (custody_of s)\<lparr>cu_leases := map_of leases\<rparr>"
  "cu_locks (custody_of s) = dp_locks s" "cu_leases (custody_of s) = map_of (dp_leases s)"
  "cu_pending (custody_of s) = dp_pending s"
  by (simp_all add: custody_of_def)

lemma custody_of_enqueue: "custody_of (s\<lparr>dp_pending := dp_pending s @ [sid]\<rparr>) = enqueue sid (custody_of s)"
  by (simp add: custody_of_def enqueue_def)

lemma phases_ok_updates [simp]:
  "phases_ok (s\<lparr>dp_locks := locks\<rparr>) = phases_ok s" "phases_ok (s\<lparr>dp_pending := pending\<rparr>) = phases_ok s"
  "phases_ok (s\<lparr>dp_leases := leases\<rparr>) = phases_ok s"
  by (simp_all add: phases_ok_def)

text \<open>A thread goes on after the state changed in a way the protocol sees.\<close>

lemma simulates_goto_after:
  assumes "thread_of s1 t sid ph" and "phases_ok s1" and "phase_ok (dp_records s1) sid ph'"
    and "custody_step (custody_of s) (move t sid (abs_phase ph') (custody_of s1))"
  shows "simulates s (goto t ph' s1)"
  by (rule simulates_step) (use assms custody_of_goto [OF assms(1)] phases_ok_goto in auto)

lemma acquire_simulates:
  assumes "phases_ok s" and "thread_of s t sid (WAcquire old c)"
  shows "simulates s (acquire_step ans t old c s)"
proof (cases "an_acquire_error ans")
  case (Some e)
  then show ?thesis by (auto simp: acquire_step_def intro!: simulates_goto [OF assms])
next
  case None
  obtain res locks where a: "lock_acquire (se_resources old) (ct_cancel (dp_control_heap s ! c)) (dp_locks s) = (res, locks)"
    by fastforce
  show ?thesis
  proof (cases res)
    case (Acquired l)
    have rs: "\<forall>st rs'. cu_sessions (custody_of s) sid = Some (st, rs') \<longrightarrow> rs' = se_resources old"
      using phases_okD [OF assms] by (auto simp: custody_of_def)
    have "custody_step (custody_of s) (move t sid (PLeased l) ((custody_of s)\<lparr>cu_locks := locks\<rparr>))"
      by (rule custody_step.acquire [OF _ _ rs])
         (use thread_of_custody [OF assms(2)] a Acquired in \<open>simp_all add: custody_of_updates\<close>)
    then have "simulates s (goto t (WLeased l) (s\<lparr>dp_locks := locks\<rparr>))"
      by (intro simulates_goto_after [where sid = sid and ph = "WAcquire old c"])
         (use assms in \<open>simp_all add: custody_of_updates thread_of_def\<close>)
    then show ?thesis using a None Acquired by (simp add: acquire_step_def)
  next
    case AcquireCanceled
    then show ?thesis using a None by (auto simp: acquire_step_def intro!: simulates_goto [OF assms])
  next
    case AcquireWaits
    then show ?thesis using a None assms(1) by (simp add: acquire_step_def simulates_same)
  qed
qed

lemma leased_simulates:
  assumes "phases_ok s" and "thread_of s t sid (WLeased l)"
  shows "simulates s (leased_step t sid l s)"
proof -
  let ?s1 = "s\<lparr>dp_leases := dict_set sid l (dp_leases s)\<rparr>"
  have "simulates s (goto t ph ?s1)" if "abs_phase ph = PHold \<or> abs_phase ph = PWind" "phase_ok (dp_records s) sid ph" for ph
    using custody_step.lease [OF _ that(1), of "custody_of s" t sid l] thread_of_custody [OF assms(2)] assms that(2)
    by (intro simulates_goto_after [where sid = sid and ph = "WLeased l"]) (simp_all add: custody_of_updates thread_of_def)
  then show ?thesis by (auto simp: leased_step_def Let_def split: option.splits)
qed

lemma begin_simulates:
  assumes "phases_ok s" and "thread_of s t sid (WBegin p)"
  shows "simulates s (begin_step ans t sid p s)"
proof (cases "map_of (dp_records s) sid")
  case None
  then show ?thesis by (auto simp: begin_step_def intro!: simulates_goto [OF assms])
next
  case (Some current)
  show ?thesis
  proof (cases "transition_locked ans sid ST_RUNNING None s")
    case (Inl e)
    then show ?thesis using Some by (auto simp: begin_step_def intro!: simulates_goto [OF assms])
  next
    case (Inr x)
    then obtain updated hub s1 where x: "transition_locked ans sid ST_RUNNING None s = Inr (updated, hub, s1)"
      by (cases x) auto
    then obtain old where old: "map_of (dp_records s) sid = Some old" "ST_RUNNING \<in> legal_transitions (se_state old)"
      "se_state updated = ST_RUNNING" "se_resources updated = se_resources old"
      "same_custody (s\<lparr>dp_records := dict_set sid updated (dp_records s)\<rparr>) s1"
      using transition_locked_Inr [OF x] by metis
    note c = record_update_custody [OF old(1,4,5)]
    have pending: "se_state old = ST_PENDING" using old(2) by (cases "se_state old") auto
    have "custody_step (custody_of s) (move t sid PExec (set_state sid ST_RUNNING (se_resources old) (custody_of s)))"
      by (rule custody_step.begin_work)
         (use thread_of_custody [OF assms(2)] session_of [OF old(1)] pending in auto)
    then have "simulates s (goto t (WAnnounce hub p) s1)"
      using assms phases_okD [OF assms] c old(3,5)
      by (intro simulates_goto_after [where sid = sid and ph = "WBegin p"]) (auto simp: thread_of_def same_custody_def)
    moreover have "simulates s (goto t (WCore None (disposition_of current) None) s)"
      by (auto intro!: simulates_goto [OF assms])
    ultimately show ?thesis using Some x by (simp add: begin_step_def)
  qed
qed

lemma release_simulates:
  assumes "phases_ok s" and "thread_of s t sid (WRelease k)"
  shows "simulates s (release_step t sid k s)"
proof (cases "map_of (dp_leases s) sid")
  case None
  then have "custody_of (s\<lparr>dp_leases := dict_pop sid (dp_leases s)\<rparr>) = custody_of s"
    by (simp add: custody_of_def fun_upd_idem)
  moreover have "custody_step (custody_of s) (move t sid PWind (custody_of s))"
    by (rule custody_step.wind [OF thread_of_custody [OF assms(2)]]) simp
  ultimately have "simulates s (goto t (WUnreserve (map_of (dp_records s) sid) k) (s\<lparr>dp_leases := dict_pop sid (dp_leases s)\<rparr>))"
    using assms phases_okD [OF assms]
    by (intro simulates_goto_after [where sid = sid and ph = "WRelease k"]) (simp_all add: thread_of_def)
  with None show ?thesis by (simp add: release_step_def)
next
  case (Some l)
  have "custody_step (custody_of s) (move t sid (PUnlock l) ((custody_of s)\<lparr>cu_leases := (map_of (dp_leases s))(sid := None)\<rparr>))"
    using custody_step.release [of "custody_of s" t sid l] thread_of_custody [OF assms(2)] Some
    by (simp add: custody_of_updates)
  then have "simulates s (goto t (WUnlock l (map_of (dp_records s) sid) k) (s\<lparr>dp_leases := dict_pop sid (dp_leases s)\<rparr>))"
    using assms phases_okD [OF assms]
    by (intro simulates_goto_after [where sid = sid and ph = "WRelease k"]) (simp_all add: thread_of_def custody_of_updates)
  with Some show ?thesis by (simp add: release_step_def)
qed

lemma unlock_simulates:
  assumes "phases_ok s" and "thread_of s t sid (WUnlock l old k)"
  shows "simulates s (unlock_step ans t l old k s)"
proof -
  let ?s1 = "s\<lparr>dp_locks := lease_release l (dp_locks s)\<rparr>"
  have "custody_step (custody_of s) (move t sid PWind ((custody_of s)\<lparr>cu_locks := lease_release l (dp_locks s)\<rparr>))"
    using custody_step.unlock [of "custody_of s" t sid l] thread_of_custody [OF assms(2)] by (simp add: custody_of_updates)
  then have "simulates s (goto t (WUnreserve old k) s2)" if "same_custody ?s1 s2" for s2
    using assms phases_okD [OF assms] that custody_of_same [OF that] phases_ok_same [OF that]
    by (intro simulates_goto_after [where sid = sid and ph = "WUnlock l old k"])
       (auto simp: thread_of_def custody_of_updates same_custody_def)
  then show ?thesis by (auto simp: unlock_step_def Let_def split: option.splits)
qed

lemma unreserve_simulates:
  assumes "phases_ok s" and "thread_of s t sid (WUnreserve old k)"
  shows "simulates s (unreserve_step t old k s)"
  using phases_okD [OF assms] unfolding unreserve_step_def
  by (cases k; cases old) (auto intro!: simulates_goto [OF assms])

lemma settle_simulates:
  assumes "phases_ok s" and "thread_of s t sid (WTransition st r co)"
  shows "simulates s (settle_step ans t sid st r co s)"
proof (cases "transition_locked ans sid st (if is_terminal st then None else r) s")
  case (Inl e)
  then show ?thesis by (auto simp: settle_step_def intro!: simulates_goto [OF assms])
next
  case (Inr x)
  then obtain updated hub s1 where x: "transition_locked ans sid st (if is_terminal st then None else r) s = Inr (updated, hub, s1)"
    by (cases x) auto
  then obtain old where old: "map_of (dp_records s) sid = Some old" "st \<in> legal_transitions (se_state old)"
    "se_state updated = st" "se_resources updated = se_resources old"
    "same_custody (s\<lparr>dp_records := dict_set sid updated (dp_records s)\<rparr>) s1"
    using transition_locked_Inr [OF x] by metis
  note c = record_update_custody [OF old(1,4,5)]
  have "custody_step (custody_of s) (move t sid PWind (set_state sid st (se_resources old) (custody_of s)))"
    by (rule custody_step.settle)
       (use thread_of_custody [OF assms(2)] session_of [OF old(1)] old(2) phases_okD [OF assms] in \<open>auto simp: settles_def\<close>)
  then show ?thesis
    using assms c old(3,5) x
    by (auto simp: settle_step_def thread_of_def same_custody_def
        intro!: simulates_goto_after [where sid = sid and ph = "WTransition st r co"])
qed

lemma wind_simulates:
  assumes "phases_ok s"
  shows "thread_of s t sid (WStateEvent st r co) \<Longrightarrow> simulates s (state_event_step ans t st r co s)"
    and "thread_of s t sid (WAudit res co) \<Longrightarrow> simulates s (audit_step ans t res co s)"
    and "thread_of s t sid (WTerminal res co) \<Longrightarrow> simulates s (terminal_step ans t res co s)"
    and "thread_of s t sid WDropItems \<Longrightarrow> simulates s (drop_items_step t sid s)"
    and "thread_of s t sid (CStopped h) \<Longrightarrow> simulates s (stopped_step t sid s)"
    and "thread_of s t sid CLeave \<Longrightarrow> simulates s (leave_step t s)"
    and "thread_of s t sid (CEmit a st b) \<Longrightarrow> simulates s (emit_step ans t a st b s)"
    and "thread_of s t sid (CHubClose a) \<Longrightarrow> simulates s (hub_close_step ans t a s)"
  by (auto simp: state_event_step_def audit_step_def terminal_step_def drop_items_step_def stopped_step_def
      leave_step_def emit_step_def hub_close_step_def split: prod.splits option.splits
      intro!: simulates_goto [OF assms] dest: same_custody_emit)

lemma publish_simulates:
  assumes "phases_ok s" and "thread_of s t sid (WPublish r co)"
  shows "simulates s (publish_step ans t sid r co s)"
proof (cases "publish_result ans sid r s")
  case (Inr s1)
  note p = publish_result_Inr [OF Inr assms(1)]
  have "simulates s1 (goto t (WTerminal r co) s1)"
    by (rule simulates_goto [OF phases_ok_simulates [OF p(1)] thread_of_same [OF assms(2) p(2)]]) simp_all
  then show ?thesis using simulates_trans [OF p(1)] Inr by (simp add: publish_step_def)
qed (auto simp: publish_step_def intro!: simulates_goto [OF assms])

lemma done_simulates:
  assumes "phases_ok s" and "thread_of s t sid WDone"
  shows "simulates s (done_step ans t sid s)"
proof -
  let ?s1 = "s\<lparr>dp_workers := dict_pop sid (dp_workers s)\<rparr>"
  have stay: "simulates s (goto t TEnd ?s1)" by (rule simulates_goto [OF assms]) simp_all
  show ?thesis
  proof (cases "\<exists>old c x. map_of (dp_records s) sid = Some old \<and> map_of (dp_controls s) sid = Some c \<and>
      se_state old = ST_PAUSED \<and> ct_cancel (dp_control_heap s ! c) \<and> transition_locked ans sid ST_CANCELING None ?s1 = Inr x")
    case False
    then show ?thesis
      using stay by (auto simp: done_step_def Let_def split: option.splits sum.splits if_splits)
  next
    case True
    then obtain old c updated hub s2 where d: "map_of (dp_records s) sid = Some old" "map_of (dp_controls s) sid = Some c"
      "se_state old = ST_PAUSED" "ct_cancel (dp_control_heap s ! c)"
      and x: "transition_locked ans sid ST_CANCELING None ?s1 = Inr (updated, hub, s2)"
      by auto
    have old: "map_of (dp_records ?s1) sid = Some old" using d(1) by simp
    obtain old' where "map_of (dp_records ?s1) sid = Some old'" and u: "se_state updated = ST_CANCELING"
      "se_resources updated = se_resources old'"
      "same_custody (?s1\<lparr>dp_records := dict_set sid updated (dp_records ?s1)\<rparr>) s2"
      using transition_locked_Inr [OF x] by metis
    then have "old' = old" using old by simp
    note u = u [unfolded this]
    note c = record_update_custody [OF old u(2,3)]
    have "custody_step (custody_of s)
        (move t sid POther (enqueue sid (set_state sid ST_CANCELING (se_resources old) (custody_of s))))"
      by (rule custody_step.canceled_pause)
         (use thread_of_custody [OF assms(2)] session_of [OF d(1)] d(3) in auto)
    moreover have "custody_of s2 = set_state sid ST_CANCELING (se_resources old) (custody_of s)"
      using c(1) u(1) custody_of_same [of s ?s1] by simp
    then have "custody_of (s2\<lparr>dp_pending := dp_pending s2 @ [sid]\<rparr>) =
        enqueue sid (set_state sid ST_CANCELING (se_resources old) (custody_of s))"
      by (simp add: custody_of_enqueue)
    moreover have "phases_ok s2" using c(2) assms(1) phases_ok_same [of s ?s1] by simp
    moreover have "thread_of s2 t sid WDone" using assms(2) u(3) by (simp add: thread_of_def same_custody_def)
    ultimately have "simulates s (goto t (CEmit hub ST_CANCELING False) (s2\<lparr>dp_pending := dp_pending s2 @ [sid]\<rparr>))"
      by (intro simulates_goto_after [where sid = sid and ph = WDone]) (simp_all add: thread_of_def)
    then show ?thesis using d x u(1) by (simp add: done_step_def)
  qed
qed

section \<open>Clients\<close>

lemma admit_simulates:
  assumes "phases_ok s" and "thread_of s t sid (CAdmit kind prepared pause now)"
  shows "simulates s (admit_step cfg ans t sid kind prepared pause now s)"
proof -
  have "same_custody s (s\<lparr>dp_admission_order := n, dp_store := d\<rparr>)" for n d
    by (simp add: same_custody_def)
  then show ?thesis
    unfolding admit_step_def Let_def
    by (auto split: sum.splits option.splits intro!: simulates_goto [OF assms])
qed

text \<open>The thread that inserts a session is the only one that knows its identifier.\<close>

lemma insert_simulates:
  assumes "phases_ok s" and t: "thread_of s t sid (CInsert old hub)" and inv: "custody_inv (custody_of s)"
  shows "simulates s (insert_step t old hub s)"
proof (cases "dp_accepting s")
  case False
  then show ?thesis by (auto simp: insert_step_def intro!: simulates_goto [OF assms(1,2)])
next
  case True
  have old: "se_session_id old = sid" "se_state old = ST_PENDING" using phases_okD [OF assms(1,2)] by simp_all
  let ?s1 = "s\<lparr>dp_records := dict_set sid old (dp_records s), dp_pending := dp_pending s @ [sid]\<rparr>"
  define s2 where "s2 = s\<lparr>dp_records := dict_set sid old (dp_records s),
      dp_controls := dict_set sid (length (dp_control_heap s)) (dp_controls s),
      dp_hubs := dict_set sid (length (dp_hub_heap s)) (dp_hubs s),
      dp_item_events := dict_set sid (length (dp_item_heap s)) (dp_item_events s), dp_pending := dp_pending s @ [sid],
      dp_hub_heap := dp_hub_heap s @ [hub], dp_control_heap := dp_control_heap s @ [\<lparr>ct_pause = False, ct_cancel = False\<rparr>],
      dp_item_heap := dp_item_heap s @ [[]]\<rparr>"
  have s2: "same_custody ?s1 s2" "insert_step t old hub s = goto t (CEmit (length (dp_hub_heap s)) ST_PENDING True) s2"
    using True old by (simp_all add: insert_step_def Let_def same_custody_def s2_def)
  have "custody_of ?s1 = enqueue sid (set_state sid ST_PENDING (se_resources old) (custody_of s))"
    using old by (auto simp: custody_of_def enqueue_def set_state_def fun_eq_iff)
  moreover have "move t sid POther (enqueue sid (set_state sid ST_PENDING (se_resources old) (custody_of s))) =
      enqueue sid (set_state sid ST_PENDING (se_resources old) (move t sid POther (custody_of s)))"
    by (simp add: move_def enqueue_def set_state_def)
  ultimately have step: "custody_step (custody_of s) (move t sid POther (custody_of s2))"
    using custody_step.insert [of "custody_of s" t sid "se_resources old"] thread_of_custody [OF t] custody_of_same [OF s2(1)]
    by simp
  have only: "j = t" if "thread_of s j sid ph" for j ph
  proof -
    have "thread_inv (custody_of s) t sid PNew"
      using inv thread_of_custody [OF t] by (simp add: custody_inv_def)
    then show ?thesis using thread_of_custody [OF that] by (auto simp: thread_inv_def)
  qed
  have "phase_ok (dp_records ?s1) sid' ph" if j: "thread_of s j sid' ph" for j sid' ph
  proof (cases "sid' = sid")
    case True
    then show ?thesis using only [of j ph] j t old by (auto simp: thread_of_def)
  next
    case False
    then show ?thesis
      using phases_okD [OF assms(1) j] by (cases "(dp_records s, sid', ph)" rule: phase_ok.cases) auto
  qed
  then have "phases_ok ?s1"
    by (auto simp: phases_ok_def thread_of_def in_set_conv_nth)
  then show ?thesis
    unfolding s2(2)
    by (intro simulates_goto_after [where sid = sid and ph = "CInsert old hub"])
       (use phases_ok_same [OF s2(1)] s2(1) t step in \<open>auto simp: thread_of_def same_custody_def\<close>)
qed

lemma close_simulates:
  assumes "phases_ok s" and t: "thread_of s t sid CClosing"
  shows "simulates s (close_session_step t sid s)"
proof (cases "map_of (dp_hubs s) sid")
  case None
  then show ?thesis by (auto simp: close_session_step_def get_key_def Let_def intro!: simulates_goto [OF assms])
next
  case (Some a)
  let ?s1 = "s\<lparr>dp_records := dict_pop sid (dp_records s)\<rparr>"
  define s2 where "s2 = s\<lparr>dp_store := store_drop sid (dp_store s), dp_hubs := dict_pop sid (dp_hubs s),
      dp_records := dict_pop sid (dp_records s),
      dp_controls := dict_pop sid (dp_controls s), dp_item_events := dict_pop sid (dp_item_events s)\<rparr>"
  have s2: "same_custody ?s1 s2" "close_session_step t sid s = goto t (CHubClose a) s2"
    using Some by (simp_all add: close_session_step_def get_key_def Let_def same_custody_def s2_def)
  have "custody_of ?s1 = (custody_of s)\<lparr>cu_sessions := (cu_sessions (custody_of s))(sid := None)\<rparr>"
    by (auto simp: custody_of_def fun_eq_iff)
  then have step: "custody_step (custody_of s) (move t sid POther (custody_of s2))"
    using custody_step.close [of "custody_of s" t sid] thread_of_custody [OF t] custody_of_same [OF s2(1)] by simp
  have "phase_ok (dict_pop sid (dp_records s)) sid' ph" if "phase_ok (dp_records s) sid' ph" for sid' ph
    using that by (cases "(dp_records s, sid', ph)" rule: phase_ok.cases) auto
  then have "phases_ok ?s1" using assms(1) by (auto simp: phases_ok_def)
  then show ?thesis
    unfolding s2(2)
    by (intro simulates_goto_after [where sid = sid and ph = CClosing])
       (use phases_ok_same [OF s2(1)] s2(1) t step in \<open>auto simp: thread_of_def same_custody_def\<close>)
qed

text \<open>A client thread that only publishes an event is added.\<close>

lemma simulates_spawn:
  assumes "phases_ok s" and "map_of (dp_records s) sid \<noteq> None \<or> sid = []" and "abs_phase ph = POther"
  shows "simulates s (spawn sid ph s)"
proof (rule simulates_step)
  have "cu_sessions (custody_of s) sid \<noteq> None \<or> sid = []" using assms(2) by (auto simp: custody_of_def)
  then show "custody_step (custody_of s) (custody_of (spawn sid ph s))"
    using custody_step.client assms(3) by (simp add: custody_of_spawn)
  show "phases_ok (spawn sid ph s)"
    using assms(3) by (intro phases_ok_spawn [OF assms(1)])
      (cases "(dp_records s, sid, ph)" rule: phase_ok.cases; auto split: if_splits)
qed

text \<open>A control operation: it raises a flag, changes the state, and publishes the change.\<close>

lemma control_simulates:
  assumes "phases_ok s" and same: "same_custody s s1" and x: "transition_locked ans sid st None s1 = Inr (updated, hub, s2)"
    and old: "map_of (dp_records s) sid = Some old"
    and step: "custody_step (custody_of s) (if queue then enqueue sid (set_state sid st (se_resources old) (custody_of s))
        else set_state sid st (se_resources old) (custody_of s))"
  shows "simulates s (spawn sid (CEmit hub (se_state updated) False)
      (if queue then s2\<lparr>dp_pending := dp_pending s2 @ [sid]\<rparr> else s2))" (is "simulates s (spawn _ _ ?s3)")
proof -
  have old1: "map_of (dp_records s1) sid = Some old" using old same by (simp add: same_custody_def)
  obtain old' where "map_of (dp_records s1) sid = Some old'" and u: "se_state updated = st"
    "se_resources updated = se_resources old'" "dp_records s2 = dict_set sid updated (dp_records s1)"
    "same_custody (s1\<lparr>dp_records := dict_set sid updated (dp_records s1)\<rparr>) s2"
    using transition_locked_Inr [OF x] by metis
  then have "old' = old" using old1 by simp
  note u = u [unfolded this]
  note c = record_update_custody [OF old1 u(2,4)]
  have c2: "custody_of s2 = set_state sid st (se_resources old) (custody_of s)"
    using c(1) u(1) custody_of_same [OF same] by simp
  have "custody_of ?s3 = (if queue then enqueue sid (set_state sid st (se_resources old) (custody_of s))
        else set_state sid st (se_resources old) (custody_of s))"
    using c2 by (simp add: custody_of_enqueue)
  moreover have ok: "phases_ok ?s3" using c(2) phases_ok_same [OF same] assms(1) by simp
  ultimately have "simulates s ?s3" using step by (intro simulates_step) simp_all
  moreover have "simulates ?s3 (spawn sid (CEmit hub (se_state updated) False) ?s3)"
    by (rule simulates_spawn [OF ok]) (use u(3) in simp_all)
  ultimately show ?thesis by (rule simulates_trans)
qed

lemma pause_simulates:
  assumes "phases_ok s"
  shows "simulates s (snd (dispatcher_pause ans sid s))"
proof (cases "map_of (dp_records s) sid")
  case (Some old)
  have "simulates s (spawn sid (CEmit hub (se_state updated) False) s2)"
    if "transition_locked ans sid ST_PAUSING None s1 = Inr (updated, hub, s2)" "same_custody s s1"
      "se_state old = ST_RUNNING" for s1 updated hub s2
    using control_simulates [OF assms that(2,1) Some, of False] custody_step.pause session_of [OF Some] that(3) by simp
  then show ?thesis
    using Some assms
    by (auto simp: dispatcher_pause_def control_decision_def Let_def simulates_same
        split: control_code.splits sum.splits if_splits)
qed (use assms in \<open>simp add: dispatcher_pause_def simulates_same\<close>)

lemma resume_simulates:
  assumes "phases_ok s" and "no_worker_left sid s"
  shows "simulates s (snd (dispatcher_resume ans sid s))"
proof (cases "map_of (dp_records s) sid")
  case (Some old)
  have quiet: "quiet sid (custody_of s)"
    using assms(2) by (force simp: quiet_def no_worker_left_def thread_at_def custody_of_def dest: nth_mem split: prod.splits)
  have "simulates s (spawn sid (CEmit hub (se_state updated) False) (s2\<lparr>dp_pending := dp_pending s2 @ [sid]\<rparr>))"
    if "transition_locked ans sid ST_PENDING None s1 = Inr (updated, hub, s2)" "same_custody s s1"
      "se_state old \<in> {ST_PAUSED, ST_INTERRUPTED}" for s1 updated hub s2
    using control_simulates [OF assms(1) that(2,1) Some, of True]
      custody_step.resume [OF session_of [OF Some] that(3) quiet] by simp
  then show ?thesis
    using Some assms(1)
    by (auto simp: dispatcher_resume_def control_decision_def Let_def simulates_same
        split: control_code.splits sum.splits if_splits)
qed (use assms in \<open>simp add: dispatcher_resume_def simulates_same\<close>)

lemma cancel_simulates:
  assumes "phases_ok s"
  shows "simulates s (snd (dispatcher_cancel ans sid s))"
proof (cases "map_of (dp_records s) sid")
  case (Some old)
  have "simulates s (spawn sid (CEmit hub (se_state updated) False)
        (if se_state old \<in> {ST_PENDING, ST_PAUSED, ST_INTERRUPTED} \<and> sid \<notin> set (dp_pending s2)
         then s2\<lparr>dp_pending := dp_pending s2 @ [sid]\<rparr> else s2))"
    if x: "transition_locked ans sid ST_CANCELING None s1 = Inr (updated, hub, s2)" and same: "same_custody s s1"
    for s1 updated hub s2
  proof -
    have "ST_CANCELING \<in> legal_transitions (se_state old)"
      using transition_locked_Inr [OF x] Some same unfolding same_custody_def by (metis option.inject)
    then have "custody_step (custody_of s)
       (if queue then enqueue sid (set_state sid ST_CANCELING (se_resources old) (custody_of s))
        else set_state sid ST_CANCELING (se_resources old) (custody_of s))"
      if "queue \<Longrightarrow> se_state old \<in> {ST_PENDING, ST_PAUSED, ST_INTERRUPTED}" for queue
      using that custody_step.cancel [OF session_of [OF Some]] custody_step.cancel_enqueue [OF session_of [OF Some]] by auto
    then show ?thesis by (intro control_simulates [OF assms same x Some]) simp
  qed
  then show ?thesis
    using Some assms
    by (auto simp: dispatcher_cancel_def control_decision_def Let_def simulates_same
        split: control_code.splits sum.splits if_splits)
qed (use assms in \<open>simp add: dispatcher_cancel_def simulates_same\<close>)

lemma submit_simulates:
  assumes "phases_ok s" and "fresh_session sid s"
  shows "simulates s (snd (submit_begin reg ans sid kind request s))"
proof -
  let ?s1 = "s\<lparr>dp_admitting := dp_admitting s + 1\<rparr>"
  have fresh: "sid \<noteq> []" "sid \<notin> fst ` set (cu_threads (custody_of s))" "cu_sessions (custody_of s) sid = None"
    using assms(2) by (auto simp: fresh_session_def custody_of_def image_image split_def)
  have c1: "custody_of ?s1 = custody_of s" "phases_ok ?s1"
    using assms(1) custody_of_same [of s ?s1] phases_ok_same [of s ?s1] by simp_all
  have admit: "simulates s (spawn sid ph ?s1)" if "abs_phase ph = PNew" "phase_ok (dp_records s) sid ph" for ph
    by (rule simulates_step)
       (use that fresh c1 custody_step.arrive phases_ok_spawn [OF c1(2)] in \<open>auto simp: custody_of_spawn\<close>)
  have "simulates s (spawn sid CLeave ?s1)"
  proof -
    let ?c = "add_threads [(sid, PNew)] (custody_of s)"
    have n: "thread_at ?c (length (cu_threads (custody_of s))) sid PNew" by (simp add: thread_at_add1)
    have "custody_step (custody_of s) ?c" using custody_step.arrive fresh by blast
    moreover have "custody_step ?c (move (length (cu_threads (custody_of s))) sid POther ?c)"
      by (rule custody_step.wind [OF n]) simp
    moreover have "move (length (cu_threads (custody_of s))) sid POther ?c = custody_of (spawn sid CLeave ?s1)"
      using c1(1) by (simp add: custody_of_spawn move_def add_threads_def)
    ultimately show ?thesis
      using c1(2) by (auto simp: simulates_def intro!: phases_ok_spawn)
  qed
  then show ?thesis
    using admit assms(1)
    by (auto simp: submit_begin_def Let_def simulates_same split: option.splits sum.splits)
qed

lemma close_begin_simulates:
  assumes "phases_ok s"
  shows "simulates s (snd (close_begin sid s))"
proof (cases "map_of (dp_records s) sid")
  case (Some old)
  have "simulates s (spawn sid CClosing s)" if "is_settled old"
    using that custody_step.closing [OF session_of [OF Some]] assms
    by (intro simulates_step) (auto simp: custody_of_spawn is_settled_def intro!: phases_ok_spawn)
  then show ?thesis using Some assms by (auto simp: close_begin_def simulates_same)
qed (use assms in \<open>simp add: close_begin_def simulates_same\<close>)

lemma shutdown_begin_simulates:
  assumes "phases_ok s"
  shows "simulates s (snd (shutdown_begin timeout s))"
proof -
  let ?s1 = "s\<lparr>dp_accepting := False\<rparr>"
  have "simulates s ?s1" using assms by (simp add: simulates_same)
  moreover have "simulates ?s1 (spawn [] (CShutdown xs) ?s1)" for xs
    by (rule simulates_spawn) (use assms phases_ok_same [of s ?s1] in auto)
  ultimately show ?thesis
    using assms simulates_trans by (fastforce simp: shutdown_begin_def simulates_same)
qed

text \<open>Control operations only add threads.\<close>

lemma transition_locked_threads:
  "transition_locked ans sid st res s = Inr (u, hub, s') \<Longrightarrow> dp_threads s' = dp_threads s"
  using transition_locked_Inr [of ans sid st res s u hub s'] by (auto simp: same_custody_def)

lemma cancel_threads: "\<exists>new. dp_threads (snd (dispatcher_cancel ans sid s)) = dp_threads s @ new"
  by (auto simp: dispatcher_cancel_def Let_def spawn_def update_control_def
      dest: transition_locked_threads split: option.splits sum.splits)

lemma shutdown_step_simulates:
  assumes "phases_ok s" and "thread_of s t sid (CShutdown xs)"
  shows "simulates s (shutdown_step ans t xs s)"
proof (cases xs)
  case Nil
  then show ?thesis by (auto simp: shutdown_step_def intro!: simulates_goto [OF assms])
next
  case (Cons x rest)
  let ?s1 = "snd (dispatcher_cancel ans x s)"
  note sim = cancel_simulates [OF assms(1), of ans x]
  have t1: "thread_of ?s1 t sid (CShutdown xs)"
    using assms(2) cancel_threads [of ans x s] by (auto simp: thread_of_def nth_append)
  have "simulates ?s1 (goto t (CShutdown rest) ?s1)"
    by (rule simulates_goto [OF phases_ok_simulates [OF sim] t1]) simp_all
  then show ?thesis using simulates_trans [OF sim] Cons by (simp add: shutdown_step_def)
qed

section \<open>The scheduler\<close>

lemma schedule_visit_selected:
  "pa_selected (schedule_visit records p sid) = pa_selected p \<or>
   pa_selected (schedule_visit records p sid) = pa_selected p @ [sid]"
  by (simp add: schedule_visit_def split: option.splits)

lemma schedule_scan_subseq:
  "\<exists>ys. pa_selected (foldl (schedule_visit records) p xs) = pa_selected p @ ys \<and> subseq ys xs"
proof (induction xs arbitrary: p)
  case (Cons x xs)
  obtain ys where ys: "pa_selected (foldl (schedule_visit records) (schedule_visit records p x) xs) =
      pa_selected (schedule_visit records p x) @ ys" "subseq ys xs"
    using Cons by blast
  then show ?case
    using schedule_visit_selected [of records p x] by (elim disjE) (auto intro: subseq_Cons2 list_emb_Cons)
qed simp

lemma count_list_subseq: "subseq ys xs \<Longrightarrow> count_list ys x \<le> count_list xs x"
  by (induction rule: list_emb.induct) auto

lemma launch_records: "dp_records (fold launch xs s) = dp_records s"
  by (induction xs arbitrary: s) (simp_all add: launch_def spawn_def split: option.splits)

lemma custody_of_launch:
  "custody_of (fold launch xs s) =
     add_threads (map (\<lambda>sid. (sid, PStart)) (filter (\<lambda>sid. cu_sessions (custody_of s) sid \<noteq> None) xs)) (custody_of s)"
proof (induction xs arbitrary: s)
  case Nil
  show ?case by (simp add: add_threads_def)
next
  case (Cons x xs)
  have r: "cu_sessions (custody_of (launch x s)) = cu_sessions (custody_of s)"
    by (simp add: custody_of_def launch_def spawn_def split: option.splits)
  have "custody_of (launch x s) = (if cu_sessions (custody_of s) x \<noteq> None then add_threads [(x, PStart)] (custody_of s) else custody_of s)"
    by (auto simp: launch_def custody_of_spawn split: option.splits) (auto simp: custody_of_def add_threads_def)
  then show ?case by (simp add: Cons r add_threads_def)
qed

lemma phases_ok_launch: "phases_ok s \<Longrightarrow> phases_ok (fold launch xs s)"
proof (induction xs arbitrary: s)
  case (Cons x xs)
  have "phases_ok (launch x s)"
    using Cons.prems by (auto simp: launch_def phases_ok_def spawn_def split: option.splits)
  then show ?case using Cons.IH by simp
qed simp

lemma schedule_simulates:
  assumes "phases_ok s"
  shows "simulates s (snd (schedule_turn s))"
proof -
  let ?p = "schedule_scan (dp_records s) (dp_pending s) (dp_reserved s)"
  let ?s1 = "s\<lparr>dp_reserved := pa_reserved ?p, dp_pending := filter (\<lambda>sid. sid \<notin> set (pa_selected ?p)) (dp_pending s)\<rparr>"
  have sub: "subseq (pa_selected ?p) (dp_pending s)"
    using schedule_scan_subseq [of "dp_records s" "\<lparr>pa_selected = [], pa_waiting = {}, pa_reserved = dp_reserved s\<rparr>" "dp_pending s"]
    by (auto simp: schedule_scan_def)
  have c1: "custody_of ?s1 = (custody_of s)\<lparr>cu_pending := filter (\<lambda>sid. sid \<notin> set (pa_selected ?p)) (dp_pending s)\<rparr>"
    by (simp add: custody_of_def)
  have "set (pa_selected ?p) \<subseteq> set (cu_pending (custody_of s))"
    using list_emb_set [OF sub] by (auto simp: custody_of_updates)
  then have "custody_step (custody_of s) (custody_of (fold launch (pa_selected ?p) ?s1))"
    using custody_step.schedule [of "pa_selected ?p" "custody_of s"] count_list_subseq [OF sub]
    unfolding custody_of_launch c1 by (simp add: custody_of_updates)
  moreover have "phases_ok (fold launch (pa_selected ?p) ?s1)"
    using assms by (intro phases_ok_launch) (simp add: phases_ok_def)
  ultimately have "simulates s (fold launch (pa_selected ?p) ?s1)" by (rule simulates_step)
  then show ?thesis using assms by (simp add: schedule_turn_def Let_def simulates_same)
qed

section \<open>Every step\<close>

lemma thread_simulates:
  assumes "phases_ok s" and "custody_inv (custody_of s)" and "registry_ok reg" and "t < length (dp_threads s)"
  shows "simulates s (thread_step reg cfg ans t s)"
proof -
  obtain sid ph where nth: "dp_threads s ! t = (sid, ph)" by fastforce
  then have t: "thread_of s t sid ph" using assms(4) by (simp add: thread_of_def)
  note sims = start_simulates acquire_simulates leased_simulates open_simulates begin_simulates announce_simulates
    core_simulates check_simulates run_simulates snapshot_simulates release_simulates unlock_simulates
    unreserve_simulates settle_simulates wind_simulates publish_simulates done_simulates admit_simulates
    insert_simulates close_simulates shutdown_step_simulates
  show ?thesis
    using t assms(1-3) nth by (cases ph) (auto simp: thread_step_def simulates_same intro: sims)
qed

end
