(* ===== verification/Dispatcher_Properties.thy ===== *)
theory Dispatcher_Properties
  imports Dispatcher_Refinement
begin

text \<open>
  What the dispatcher guarantees: exclusive custody, and where it fails; fair admission; legal control
  operations and records.
\<close>

definition reaches :: "'req registry \<Rightarrow> config \<Rightarrow> (session_id \<Rightarrow> dispatcher \<Rightarrow> bool) \<Rightarrow> dispatcher \<Rightarrow> bool" where
  "reaches reg cfg may_resume s \<longleftrightarrow> dispatcher.reachable TYPE('req) reg cfg may_resume s"

lemma dispatcher_step_simulates:
  assumes "phases_ok s" and "custody_inv (custody_of s)" and "registry_ok reg"
    and "dispatcher_step reg cfg no_worker_left s s'"
  shows "simulates s s'"
  using assms(4)
proof cases
  case (subscribe ans sid q)
  have "same_custody s s'"
    using subscribe by (auto simp: dispatcher_subscribe_def same_custody_def split: option.splits prod.splits sum.splits)
  then show ?thesis using assms(1) by (rule simulates_same [rotated])
qed (use assms in \<open>auto simp: simulates_same submit_simulates pause_simulates resume_simulates cancel_simulates
      close_begin_simulates shutdown_begin_simulates schedule_simulates thread_simulates\<close>)

lemma dispatcher_reachable_inv:
  assumes "registry_ok reg" and "reaches reg cfg no_worker_left s"
  shows "protocol.reachable (custody_of s) \<and> phases_ok s"
proof (rule dispatcher.invariant [OF assms(2) [unfolded reaches_def]])
  have "custody_of dispatcher_init = custody_init"
    by (simp add: custody_of_def dispatcher_init_def custody_init_def)
  moreover have "phases_ok dispatcher_init" by (simp add: phases_ok_def dispatcher_init_def)
  ultimately show "\<And>s. s = dispatcher_init \<Longrightarrow> protocol.reachable (custody_of s) \<and> phases_ok s"
    using protocol.start by simp
next
  fix s s'
  assume inv: "protocol.reachable (custody_of s) \<and> phases_ok s" and "dispatcher_step reg cfg no_worker_left s s'"
  then have "simulates s s'"
    using dispatcher_step_simulates [OF _ custody_inv_reachable assms(1)] by blast
  then show "protocol.reachable (custody_of s') \<and> phases_ok s'"
    using inv protocol.reachable_steps unfolding simulates_def by blast
qed

section \<open>Claims\<close>

fun runs_workflow :: "phase \<Rightarrow> bool" where
  "runs_workflow (WRun _ _) = True"
| "runs_workflow (WSnapshot _) = True"
| "runs_workflow _ = False"

lemma runs_workflow_exec: "runs_workflow ph \<Longrightarrow> abs_phase ph = PExec"
  by (erule runs_workflow.elims) simp_all


text \<open>C10: Two workers that run workflow code at the same time run different sessions, and no resource belongs to
  both, however clients, scheduler and workers interleave, when clients resume a session only after
  its last worker has ended.\<close>

theorem running_workflows_share_no_resource:
  assumes "registry_ok reg" and "reaches reg cfg no_worker_left s"
    and t: "thread_of s t sid ph" "runs_workflow ph" and t': "thread_of s t' sid' ph'" "runs_workflow ph'" and "t \<noteq> t'"
  shows "sid \<noteq> sid' \<and> (\<exists>r r'. map_of (dp_records s) sid = Some r \<and> map_of (dp_records s) sid' = Some r' \<and>
      set (se_resources r) \<inter> set (se_resources r') = {})"
proof -
  have inv: "custody_inv (custody_of s)"
    using dispatcher_reachable_inv [OF assms(1,2)] custody_inv_reachable by blast
  have x: "thread_at (custody_of s) t sid PExec" "thread_at (custody_of s) t' sid' PExec"
    using thread_of_custody t t' runs_workflow_exec by metis+
  then have "exec_ok (custody_of s) t sid" "exec_ok (custody_of s) t' sid'"
    using inv unfolding custody_inv_iff by (metis threads_invD thread_inv_exec)+
  then obtain r r' where r: "map_of (dp_records s) sid = Some r" "map_of (dp_records s) sid' = Some r'"
    by (auto simp: exec_ok_def custody_of_def)
  then show ?thesis
    using protocol_exclusive [OF inv x \<open>t \<noteq> t'\<close> session_of [OF r(1)] session_of [OF r(2)]] by blast
qed

section \<open>Scripts\<close>

text \<open>Concrete runs: a list of actions, each one step of the system.\<close>

datatype action = DoSubmit session_id pystr | DoPause session_id | DoResume session_id | DoSchedule | DoThread nat

definition sample_answers :: answers where
  "sample_answers = \<lparr>an_now = \<lparr>dt_micros = 5, dt_utcoffset = Some 0\<rparr>, an_put_error = None, an_acquire_error = None,
     an_release_error = None, an_snapshot = Inr [], an_observer = (\<lambda>_ _. False), an_in_time = True\<rparr>"

definition sample_config :: config where
  "sample_config = \<lparr>cf_replay_capacity = 1, cf_subscriber_capacity = 1, cf_audit_capacity = 1, cf_audit_timeout = 5\<rparr>"

text \<open>One workflow kind: it stops at a checkpoint, then is canceled. A request names the resource it needs.\<close>

definition sample_workflow :: program where
  "sample_workflow = Checkpoint (\<lambda>x. case x of Some e \<Rightarrow> Raise e | None \<Rightarrow> Raise Canceled)"

definition sample_resource :: "pystr \<Rightarrow> resource_id" where
  "sample_resource key = ResourceId (lit ''root'') key"

definition sample_registry :: "pystr registry" where
  "sample_registry kind = Some \<lparr>rg_prepare = (\<lambda>key. Inr \<lparr>ps_payload = [], ps_resources = {sample_resource key}\<rparr>),
     rg_open = (\<lambda>_. Inr sample_workflow), rg_supports_pause = True\<rparr>"

fun act :: "action \<Rightarrow> dispatcher \<Rightarrow> dispatcher" where
  "act (DoSubmit sid key) s =
     (if fresh_session sid s then snd (submit_begin sample_registry sample_answers sid (lit ''sync'') key s) else s)"
| "act (DoPause sid) s = snd (dispatcher_pause sample_answers sid s)"
| "act (DoResume sid) s = snd (dispatcher_resume sample_answers sid s)"
| "act DoSchedule s = snd (schedule_turn s)"
| "act (DoThread t) s = (if t < length (dp_threads s) then thread_step sample_registry sample_config sample_answers t s else s)"

definition perform :: "action list \<Rightarrow> dispatcher" where
  "perform script = fold act script dispatcher_init"

definition calm_action :: "action \<Rightarrow> bool" where
  "calm_action a \<longleftrightarrow> (\<forall>sid. a \<noteq> DoResume sid)"

lemma act_reaches:
  assumes "reaches sample_registry sample_config may_resume s" and "\<And>sid. a = DoResume sid \<Longrightarrow> may_resume sid s"
  shows "reaches sample_registry sample_config may_resume (act a s)"
  using assms unfolding reaches_def
  by (cases a) (auto intro: dispatcher.next_step dispatcher_step.intros)

lemma perform_reaches:
  "(\<forall>sid s. may_resume sid s) \<or> list_all calm_action script \<Longrightarrow>
   reaches sample_registry sample_config may_resume (perform script)"
proof (induction script rule: rev_induct)
  case Nil
  show ?case by (simp add: perform_def reaches_def dispatcher.start)
next
  case (snoc a script)
  then have "reaches sample_registry sample_config may_resume (perform script)" by auto
  then have "reaches sample_registry sample_config may_resume (act a (perform script))"
    by (rule act_reaches) (use snoc.prems in \<open>auto simp: calm_action_def\<close>)
  then show ?case by (simp add: perform_def)
qed

lemma sample_registry_ok: "registry_ok sample_registry"
  by (auto simp: registry_ok_def sample_registry_def sample_workflow_def split: option.splits)

definition started :: "session_id \<Rightarrow> pystr \<Rightarrow> nat \<Rightarrow> nat \<Rightarrow> action list" where
  "started sid key client worker = DoSubmit sid key # map DoThread [client, client] @
     DoSchedule # map DoThread [worker, worker, worker, worker, worker, worker, worker, worker]"

text \<open>
  The first worker of session \<^verbatim>\<open>a\<close> settles a pause; before it reaches its \<^verbatim>\<open>finally\<close> block the session is
  resumed and a second worker runs it; then the first worker releases custody again.
\<close>

definition race_script :: "action list" where
  "race_script = started (lit ''a'') (lit ''x'') 0 1 @ DoPause (lit ''a'') # map DoThread [1, 1, 1, 1, 1, 1, 1] @
     DoResume (lit ''a'') # DoSchedule # map DoThread [4, 4, 4, 4, 4, 4, 4, 4, 1, 1, 1, 1] @
     started (lit ''b'') (lit ''x'') 5 6"

definition running_session :: "dispatcher \<Rightarrow> nat \<Rightarrow> session_id option" where
  "running_session s t = (case dp_threads s ! t of (sid, ph) \<Rightarrow> if runs_workflow ph then Some sid else None)"

definition resources_of :: "dispatcher \<Rightarrow> session_id \<Rightarrow> resource_id list" where
  "resources_of s sid = (case map_of (dp_records s) sid of None \<Rightarrow> [] | Some r \<Rightarrow> se_resources r)"

lemma thread_step_phase:
  "dp_threads s ! t = (sid, WStart) \<Longrightarrow> thread_step reg cfg ans t s = start_step reg t sid s"
  "dp_threads s ! t = (sid, WAcquire r c) \<Longrightarrow> thread_step reg cfg ans t s = acquire_step ans t r c s"
  "dp_threads s ! t = (sid, WLeased l) \<Longrightarrow> thread_step reg cfg ans t s = leased_step t sid l s"
  "dp_threads s ! t = (sid, WOpen r) \<Longrightarrow> thread_step reg cfg ans t s = open_step reg t r s"
  "dp_threads s ! t = (sid, WBegin p) \<Longrightarrow> thread_step reg cfg ans t s = begin_step ans t sid p s"
  "dp_threads s ! t = (sid, WAnnounce h p) \<Longrightarrow> thread_step reg cfg ans t s = announce_step ans t h p s"
  "dp_threads s ! t = (sid, WCore i d f) \<Longrightarrow> thread_step reg cfg ans t s = core_step reg t sid i d f s"
  "dp_threads s ! t = (sid, WCheck i f co) \<Longrightarrow> thread_step reg cfg ans t s = check_step t i f co s"
  "dp_threads s ! t = (sid, WRun p co) \<Longrightarrow> thread_step reg cfg ans t s = run_step ans t p co s"
  "dp_threads s ! t = (sid, WSnapshot co) \<Longrightarrow> thread_step reg cfg ans t s = snapshot_step ans t sid co s"
  "dp_threads s ! t = (sid, WRelease k) \<Longrightarrow> thread_step reg cfg ans t s = release_step t sid k s"
  "dp_threads s ! t = (sid, WUnlock l ro k) \<Longrightarrow> thread_step reg cfg ans t s = unlock_step ans t l ro k s"
  "dp_threads s ! t = (sid, WUnreserve ro k) \<Longrightarrow> thread_step reg cfg ans t s = unreserve_step t ro k s"
  "dp_threads s ! t = (sid, WTransition st res co) \<Longrightarrow> thread_step reg cfg ans t s = settle_step ans t sid st res co s"
  "dp_threads s ! t = (sid, WStateEvent st res co) \<Longrightarrow> thread_step reg cfg ans t s = state_event_step ans t st res co s"
  "dp_threads s ! t = (sid, CAdmit kind prep b now) \<Longrightarrow> thread_step reg cfg ans t s = admit_step cfg ans t sid kind prep b now s"
  "dp_threads s ! t = (sid, CInsert r hub) \<Longrightarrow> thread_step reg cfg ans t s = insert_step t r hub s"
  by (simp_all add: thread_step_def)

lemma list_update_Cons_numeral:
  "(x # xs)[numeral k := y] = x # xs[pred_numeral k := y]"
  by (simp add: numeral_eq_Suc)

lemmas eval_dispatcher = list_update_Cons_numeral started_def perform_def dispatcher_init_def sample_registry_def sample_answers_def
  sample_config_def sample_workflow_def sample_resource_def submit_begin_def fresh_session_def dispatcher_now_def
  require_utc_def spawn_def goto_def thread_step_phase admit_step_def session_record_post_init_def
  require_utc_optional_def event_hub_init_def audit_pump_init_def store_put_def insert_step_def emit_step_def
  emit_at_def hub_emit_def envelope_post_init_def schema_version_def record_replay_def bounded_append_def
  audit_delivery_def pump_offer_def pump_put_def pump_full_def fan_out_def leave_step_def schedule_turn_def
  schedule_scan_def schedule_visit_def launch_def start_step_def acquire_step_def lock_acquire_def custody_order_def
  leased_step_def open_step_def begin_step_def transition_locked_def get_key_def require_transition_def
  persist_locked_def announce_step_def core_step_def check_step_def control_checkpoint_def is_terminal_def
  dispatcher_pause_def dispatcher_resume_def control_decision_def update_control_def request_pause_def
  control_reset_def accepted_def run_step_def snapshot_step_def replace_payload_def raised_def release_step_def
  unlock_step_def lease_release_def unreserve_step_def settle_step_def state_event_step_def dict_pop_def
  running_session_def resources_of_def result_simps Let_def lit_def

definition custody_broken :: "dispatcher \<Rightarrow> bool" where
  "custody_broken s \<longleftrightarrow> length (dp_threads s) = 7 \<and>
     map (running_session s) [4, 6] = [Some (lit ''a''), Some (lit ''b'')] \<and>
     resources_of s (lit ''a'') = [sample_resource (lit ''x'')] \<and> resources_of s (lit ''b'') = [sample_resource (lit ''x'')]"

lemma race_result: "custody_broken (perform race_script)"
  by (simp add: race_script_def eval_dispatcher custody_broken_def)

lemma running_session_thread:
  "running_session s t = Some sid \<Longrightarrow> t < length (dp_threads s) \<Longrightarrow> \<exists>ph. thread_of s t sid ph \<and> runs_workflow ph"
  by (auto simp: running_session_def thread_of_def split: prod.splits if_splits)

lemma resources_of_record: "resources_of s sid = x # xs \<Longrightarrow> \<exists>r. map_of (dp_records s) sid = Some r \<and> se_resources r = x # xs"
  by (auto simp: resources_of_def split: option.splits)

text \<open>C15: Without that restriction the exclusion fails: a session that is resumed while the worker that
  paused it is still in its last block loses the lease of its new worker to that block, and another
  session runs with the same resource.\<close>

theorem resume_race_breaks_exclusion:
  "\<exists>s t t' sid sid' ph ph' r r'. reaches sample_registry sample_config (\<lambda>_ _. True) s \<and>
     thread_of s t sid ph \<and> runs_workflow ph \<and> thread_of s t' sid' ph' \<and> runs_workflow ph' \<and> sid \<noteq> sid' \<and>
     map_of (dp_records s) sid = Some r \<and> map_of (dp_records s) sid' = Some r' \<and>
     set (se_resources r) \<inter> set (se_resources r') \<noteq> {}"
proof -
  let ?s = "perform race_script"
  have reach: "reaches sample_registry sample_config (\<lambda>_ _. True) ?s" by (simp add: perform_reaches)
  have run: "running_session ?s 4 = Some (lit ''a'')" "running_session ?s 6 = Some (lit ''b'')"
    and len: "4 < length (dp_threads ?s)" "6 < length (dp_threads ?s)"
    and res: "resources_of ?s (lit ''a'') = [sample_resource (lit ''x'')]" "resources_of ?s (lit ''b'') = [sample_resource (lit ''x'')]"
    using race_result unfolding custody_broken_def by simp_all
  obtain ph ph' where ph: "thread_of ?s 4 (lit ''a'') ph" "runs_workflow ph" "thread_of ?s 6 (lit ''b'') ph'" "runs_workflow ph'"
    using running_session_thread [OF run(1) len(1)] running_session_thread [OF run(2) len(2)] by blast
  obtain r r' where r: "map_of (dp_records ?s) (lit ''a'') = Some r" "map_of (dp_records ?s) (lit ''b'') = Some r'"
    and rs: "se_resources r = [sample_resource (lit ''x'')]" "se_resources r' = [sample_resource (lit ''x'')]"
    using resources_of_record [OF res(1)] resources_of_record [OF res(2)] by blast
  have "set (se_resources r) \<inter> set (se_resources r') \<noteq> {}" using rs by simp
  moreover have "lit ''a'' \<noteq> lit ''b''" by (simp add: lit_def)
  ultimately show ?thesis using reach ph r by blast
qed

text \<open>Two sessions with different resources do run side by side.\<close>

definition calm_script :: "action list" where
  "calm_script = started (lit ''a'') (lit ''x'') 0 1 @ started (lit ''b'') (lit ''y'') 2 3"

definition both_run :: "dispatcher \<Rightarrow> bool" where
  "both_run s \<longleftrightarrow> length (dp_threads s) = 4 \<and> map (running_session s) [1, 3] = [Some (lit ''a''), Some (lit ''b'')]"

lemma calm_result: "both_run (perform calm_script)"
  by (simp add: calm_script_def eval_dispatcher both_run_def)

lemma calm_reaches: "reaches sample_registry sample_config no_worker_left (perform calm_script)"
  by (rule perform_reaches) (simp add: calm_script_def started_def calm_action_def)


theorem running_workflows_share_no_resource_witness:
  "\<exists>r r'. map_of (dp_records (perform calm_script)) (lit ''a'') = Some r \<and>
     map_of (dp_records (perform calm_script)) (lit ''b'') = Some r' \<and> set (se_resources r) \<inter> set (se_resources r') = {}"
proof -
  let ?s = "perform calm_script"
  have run: "running_session ?s 1 = Some (lit ''a'')" "running_session ?s 3 = Some (lit ''b'')"
    and len: "1 < length (dp_threads ?s)" "3 < length (dp_threads ?s)"
    using calm_result unfolding both_run_def by simp_all
  obtain ph ph' where ph: "thread_of ?s 1 (lit ''a'') ph" "runs_workflow ph" "thread_of ?s 3 (lit ''b'') ph'" "runs_workflow ph'"
    using running_session_thread [OF run(1) len(1)] running_session_thread [OF run(2) len(2)] by blast
  have "(1::nat) \<noteq> 3" by simp
  from running_workflows_share_no_resource [OF sample_registry_ok calm_reaches ph this] show ?thesis by blast
qed

section \<open>Fair admission\<close>

text \<open>A pending session that a pass over the queue admits, or leaves waiting.\<close>

definition pending_in :: "(session_id, session_record) dict \<Rightarrow> session_id \<Rightarrow> session_record \<Rightarrow> bool" where
  "pending_in records sid r \<longleftrightarrow> map_of records sid = Some r \<and> se_state r = ST_PENDING"

lemma foldl_visit_mono:
  "pa_reserved p \<subseteq> pa_reserved (foldl (schedule_visit records) p xs) \<and>
   pa_waiting p \<subseteq> pa_waiting (foldl (schedule_visit records) p xs)"
proof (induction xs arbitrary: p)
  case (Cons x xs)
  have "pa_reserved p \<subseteq> pa_reserved (schedule_visit records p x) \<and> pa_waiting p \<subseteq> pa_waiting (schedule_visit records p x)"
    by (auto simp: schedule_visit_def split: option.splits)
  then show ?case using Cons [of "schedule_visit records p x"] by auto
qed simp

lemma visit_pending:
  assumes "pending_in records sid r"
  shows "schedule_visit records p sid =
     (if set (se_resources r) \<inter> (pa_reserved p \<union> pa_waiting p) = {}
      then p\<lparr>pa_reserved := pa_reserved p \<union> set (se_resources r), pa_selected := pa_selected p @ [sid]\<rparr>
      else p\<lparr>pa_waiting := pa_waiting p \<union> set (se_resources r)\<rparr>)"
  using assms by (auto simp: schedule_visit_def pending_in_def)

lemma selected_foldl:
  "set (pa_selected (foldl (schedule_visit records) p xs)) \<subseteq> set (pa_selected p) \<union> set xs"
proof (induction xs arbitrary: p)
  case (Cons x xs)
  show ?case using Cons [of "schedule_visit records p x"] schedule_visit_selected [of records p x] by auto
qed simp

lemma selected_mono: "set (pa_selected p) \<subseteq> set (pa_selected (foldl (schedule_visit records) p xs))"
proof (induction xs arbitrary: p)
  case (Cons x xs)
  show ?case using Cons [of "schedule_visit records p x"] schedule_visit_selected [of records p x] by auto
qed simp

text \<open>Whether a session is selected is decided when the pass reaches it.\<close>

lemma selected_iff:
  assumes "distinct (before @ sid # after)" and "pending_in records sid r" and "sid \<notin> set (pa_selected p)"
  defines "q \<equiv> foldl (schedule_visit records) p before"
  shows "sid \<in> set (pa_selected (foldl (schedule_visit records) p (before @ sid # after))) \<longleftrightarrow>
     set (se_resources r) \<inter> (pa_reserved q \<union> pa_waiting q) = {}"
proof -
  let ?v = "schedule_visit records q sid"
  have "sid \<notin> set (pa_selected q)"
    using selected_foldl [of records p before] assms(1,3) unfolding q_def by auto
  then have "sid \<in> set (pa_selected ?v) \<longleftrightarrow> set (se_resources r) \<inter> (pa_reserved q \<union> pa_waiting q) = {}"
    by (simp add: visit_pending [OF assms(2)])
  moreover have "sid \<in> set (pa_selected (foldl (schedule_visit records) ?v after)) \<longleftrightarrow> sid \<in> set (pa_selected ?v)"
    using selected_foldl [of records ?v "after"] selected_mono [of ?v records "after"] assms(1) by auto
  ultimately show ?thesis by (simp add: q_def)
qed

definition admitted :: "(session_id, session_record) dict \<Rightarrow> session_id list \<Rightarrow> resource_id set \<Rightarrow> session_id set" where
  "admitted records pending reserved = set (pa_selected (schedule_scan records pending reserved))"


definition sample_pending :: "session_id \<Rightarrow> int \<Rightarrow> session_record" where
  "sample_pending sid n = \<lparr>se_session_id = sid, se_kind = lit ''sync'', se_state = ST_PENDING,
     se_resources = [ResourceId (lit ''root'') (lit ''x'')], se_payload = [], se_supports_pause = True,
     se_admission_order = n, se_created_at = \<lparr>dt_micros = 5, dt_utcoffset = Some 0\<rparr>, se_started_at = None,
     se_ended_at = None, se_result = None\<rparr>"

definition sample_queue :: "(session_id, session_record) dict" where
  "sample_queue = [(lit ''a'', sample_pending (lit ''a'') 0), (lit ''b'', sample_pending (lit ''b'') 1)]"


section \<open>Control operations\<close>

lemma transition_locked_succeeds:
  assumes "map_of (dp_records s) sid = Some r" and "session_record_post_init r = Inr ()"
    and "map_of (dp_hubs s) sid = Some h" and "dt_utcoffset (an_now ans) = Some 0"
    and "st \<in> legal_transitions (se_state r)" and "\<not> is_terminal st"
  shows "\<exists>r' s'. transition_locked ans sid st None s = Inr (r', h, s') \<and> se_state r' = st \<and>
     map_of (dp_records s') sid = Some r'"
proof -
  let ?started = "if st = ST_RUNNING \<and> se_started_at r = None then Some (an_now ans) else se_started_at r"
  let ?r = "r\<lparr>se_state := st, se_started_at := ?started, se_ended_at := None, se_result := None\<rparr>"
  have ok: "session_record_post_init ?r = Inr ()"
    using assms(2,4,6)
    by (auto simp: session_record_post_init_def result_simps require_utc_optional_def split: option.splits)
  have hubs: "dp_hubs (persist_locked e u (s\<lparr>dp_records := d\<rparr>)) = dp_hubs s" for e u d
    by (simp add: persist_locked_def split: option.splits)
  have "transition_locked ans sid st None s =
      Inr (?r, h, persist_locked (an_put_error ans) ?r (s\<lparr>dp_records := dict_set sid ?r (dp_records s)\<rparr>))"
    using assms ok hubs
    by (simp add: transition_locked_def get_key_def require_transition_def dispatcher_now_def Let_def raise_if_def
        require_utc_def)
  then show ?thesis by (simp add: persist_locked_fields(1))
qed

fun control_operation ::
    "control_action \<Rightarrow> answers \<Rightarrow> session_id \<Rightarrow> dispatcher \<Rightarrow> control_result res \<times> dispatcher" where
  "control_operation CA_PAUSE = dispatcher_pause"
| "control_operation CA_RESUME = dispatcher_resume"
| "control_operation CA_CANCEL = dispatcher_cancel"

text \<open>C35: A control operation on a known session never raises: it answers with the code of the control matrix
  and the session's state before it; if it is not accepted nothing changes, and if it is, the session
  has the state the answer names, reached by a legal transition or, for a cancel during a pause, not
  left at all.\<close>

theorem control_operations_follow_matrix:
  assumes "map_of (dp_records s) sid = Some r" and "session_record_post_init r = Inr ()"
    and "map_of (dp_controls s) sid = Some c" and "map_of (dp_hubs s) sid = Some h" and "dt_utcoffset (an_now ans) = Some 0"
    and "se_session_id r = sid"
  shows "\<exists>answer s' r'. control_operation action ans sid s = (Inr answer, s') \<and>
     cr_code answer = control_decision action (se_state r) (se_supports_pause r) \<and>
     cr_session_id answer = sid \<and> cr_before answer = Some (se_state r) \<and>
     map_of (dp_records s') sid = Some r' \<and> cr_after answer = Some (se_state r') \<and>
     (cr_code answer \<noteq> CC_ACCEPTED \<longrightarrow> s' = s) \<and>
     (se_state r' = se_state r \<or> se_state r' \<in> legal_transitions (se_state r))"
proof -
  have control: "\<exists>r' s'. transition_locked ans sid st None (update_control c f s) = Inr (r', h, s') \<and> se_state r' = st \<and>
     map_of (dp_records s') sid = Some r'" if "st \<in> legal_transitions (se_state r)" "\<not> is_terminal st" for st f
    using transition_locked_succeeds [of "update_control c f s"] assms that by (simp add: update_control_def)
  show ?thesis
  proof (cases "control_decision action (se_state r) (se_supports_pause r) = CC_ACCEPTED")
    case False
    then show ?thesis
      using assms by (cases action) (auto simp: dispatcher_pause_def dispatcher_resume_def dispatcher_cancel_def
          illegal_control_def control_decision_def split: if_splits)
  next
    case accept: True
    show ?thesis
    proof (cases "action = CA_CANCEL \<and> se_state r = ST_PAUSING")
      case True
      then show ?thesis
        using assms accept by (simp add: dispatcher_cancel_def get_key_def Let_def accepted_def update_control_def)
    next
      case False
      define st where "st = (case action of CA_PAUSE \<Rightarrow> ST_PAUSING | CA_RESUME \<Rightarrow> ST_PENDING | CA_CANCEL \<Rightarrow> ST_CANCELING)"
      define f where "f = (case action of CA_PAUSE \<Rightarrow> request_pause | CA_RESUME \<Rightarrow> control_reset | CA_CANCEL \<Rightarrow> request_cancel)"
      have "st \<in> legal_transitions (se_state r)" "\<not> is_terminal st"
        using accept False by (cases "se_state r"; cases action; auto simp: st_def control_decision_def is_terminal_def split: if_splits)+
      then obtain r' s' where x: "transition_locked ans sid st None (update_control c f s) = Inr (r', h, s')"
        "se_state r' = st" "map_of (dp_records s') sid = Some r'"
        using control by blast
      with assms accept False \<open>st \<in> legal_transitions (se_state r)\<close> show ?thesis
        by (cases action) (auto simp: dispatcher_pause_def dispatcher_resume_def dispatcher_cancel_def get_key_def Let_def
            accepted_def spawn_def st_def f_def)
    qed
  qed
qed

definition sample_dispatcher :: dispatcher where
  "sample_dispatcher = dispatcher_init\<lparr>dp_records := sample_queue, dp_controls := [(lit ''a'', 0)],
     dp_hubs := [(lit ''a'', 0)], dp_control_heap := [\<lparr>ct_pause = False, ct_cancel = False\<rparr>], dp_pending := [lit ''a'']\<rparr>"

theorem control_operations_follow_matrix_witness:
  "\<exists>answer s'. control_operation CA_CANCEL sample_answers (lit ''a'') sample_dispatcher = (Inr answer, s') \<and>
     cr_code answer = CC_ACCEPTED"
proof -
  let ?r = "sample_pending (lit ''a'') 0"
  have "map_of (dp_records sample_dispatcher) (lit ''a'') = Some ?r" "map_of (dp_controls sample_dispatcher) (lit ''a'') = Some 0"
    "map_of (dp_hubs sample_dispatcher) (lit ''a'') = Some 0" "dt_utcoffset (an_now sample_answers) = Some 0"
    "se_session_id ?r = lit ''a''"
    by (simp_all add: sample_dispatcher_def sample_queue_def sample_answers_def sample_pending_def)
  moreover have "session_record_post_init ?r = Inr ()"
    by (simp add: session_record_post_init_def sample_pending_def require_utc_optional_def is_terminal_def lit_def result_simps)
  moreover have "control_decision CA_CANCEL (se_state ?r) (se_supports_pause ?r) = CC_ACCEPTED"
    by (simp add: control_decision_def sample_pending_def is_terminal_def)
  ultimately show ?thesis
    using control_operations_follow_matrix [of sample_dispatcher "lit ''a''" ?r 0 0 sample_answers CA_CANCEL] by auto
qed

end
