(* ===== verification/Effects.thy ===== *)
theory Effects
  imports Execution_Set
begin

text \<open>
  Python code with side effects: exception objects with the classes the handlers of the program
  distinguish, computations that return or raise and update a state, the statements \<^verbatim>\<open>try\<close>,
  \<^verbatim>\<open>finally\<close> and \<^verbatim>\<open>for\<close>, and two ways to reason about them: weakest preconditions, and relations
  between the states before and after that every path of a computation respects.
\<close>

section \<open>Exceptions\<close>

text \<open>
  The class of an exception is the finest one that a handler of the program names. \<open>X_BASE\<close> is a
  \<^verbatim>\<open>BaseException\<close> that is not an \<^verbatim>\<open>Exception\<close>, for example \<^verbatim>\<open>KeyboardInterrupt\<close>. An exception also
  carries the name of its type, its text, the \<^verbatim>\<open>winerror\<close> attribute if it has an integer one, and
  its \<^verbatim>\<open>__cause__\<close>.
\<close>

datatype exn_class =
    X_CANCELED | X_PAUSE | X_FILE_NOT_FOUND | X_FILE_EXISTS | X_UNSAFE_PATH
  | X_UNSUPPORTED_VERIFICATION | X_OS_ERROR | X_OPERATION_FAILURE execution_reason
  | X_VALUE_ERROR | X_OTHER | X_BASE

datatype exception =
  Exn (ex_class: exn_class) (ex_type: pystr) (ex_text: pystr) (ex_winerror: "int option")
      (ex_cause: "exception option")

definition is_exception :: "exception \<Rightarrow> bool" where
  "is_exception e \<longleftrightarrow> ex_class e \<noteq> X_BASE"

text \<open>\<^verbatim>\<open>Canceled\<close> and \<^verbatim>\<open>PauseRequested\<close> are subclasses of \<^verbatim>\<open>Exception\<close>.\<close>

definition is_signal :: "exception \<Rightarrow> bool" where
  "is_signal e \<longleftrightarrow> ex_class e = X_CANCELED \<or> ex_class e = X_PAUSE"

definition is_os_error :: "exception \<Rightarrow> bool" where
  "is_os_error e \<longleftrightarrow> ex_class e \<in>
     {X_FILE_NOT_FOUND, X_FILE_EXISTS, X_UNSAFE_PATH, X_UNSUPPORTED_VERIFICATION, X_OS_ERROR}"

definition simple_exn :: "exn_class \<Rightarrow> string \<Rightarrow> pystr \<Rightarrow> exception" where
  "simple_exn c ty msg = Exn c (lit ty) msg None None"

fun of_py_error :: "py_error \<Rightarrow> exception" where
  "of_py_error (PathValidationError m) = simple_exn X_VALUE_ERROR ''PathValidationError'' (lit m)"
| "of_py_error (ValueError m) = simple_exn X_VALUE_ERROR ''ValueError'' (lit m)"
| "of_py_error (TypeError m) = simple_exn X_OTHER ''TypeError'' (lit m)"
| "of_py_error (NotImplementedError m) = simple_exn X_OTHER ''NotImplementedError'' (lit m)"
| "of_py_error KeyError = simple_exn X_OTHER ''KeyError'' []"
| "of_py_error IllegalTransition = simple_exn X_OTHER ''IllegalTransition'' []"
| "of_py_error AdmissionClosed = simple_exn X_OTHER ''AdmissionClosed'' []"
| "of_py_error UnknownWorkflowKind = simple_exn X_OTHER ''UnknownWorkflowKind'' []"
| "of_py_error SessionNotFound = simple_exn X_OTHER ''SessionNotFound'' []"
| "of_py_error SessionNotTerminal = simple_exn X_OTHER ''SessionNotTerminal'' []"

section \<open>Computations\<close>

type_synonym ('s, 'a) effect = "'s \<Rightarrow> (exception + 'a) \<times> 's"

definition returnS :: "'a \<Rightarrow> ('s, 'a) effect" where
  "returnS a s = (Inr a, s)"

definition raiseS :: "exception \<Rightarrow> ('s, 'a) effect" where
  "raiseS e s = (Inl e, s)"

definition bindS :: "('s, 'a) effect \<Rightarrow> ('a \<Rightarrow> ('s, 'b) effect) \<Rightarrow> ('s, 'b) effect" where
  "bindS m f s = (case m s of (Inl e, s') \<Rightarrow> (Inl e, s') | (Inr a, s') \<Rightarrow> f a s')"

definition thenS :: "('s, 'a) effect \<Rightarrow> ('s, 'b) effect \<Rightarrow> ('s, 'b) effect" where
  "thenS m n = bindS m (\<lambda>_. n)"

definition readS :: "('s \<Rightarrow> 'a) \<Rightarrow> ('s, 'a) effect" where
  "readS f s = (Inr (f s), s)"

definition updateS :: "('s \<Rightarrow> 's) \<Rightarrow> ('s, unit) effect" where
  "updateS f s = (Inr (), f s)"

definition whenS :: "bool \<Rightarrow> ('s, unit) effect \<Rightarrow> ('s, unit) effect" where
  "whenS c m = (if c then m else returnS ())"

text \<open>
  \<open>exceptS m p h\<close> is \<^verbatim>\<open>try: m except p as e: h(e)\<close>; \<open>tryElseS m p h k\<close> continues with \<open>k\<close> in the
  \<^verbatim>\<open>else\<close> branch, whose exceptions are not caught.
\<close>

definition tryElseS ::
    "('s, 'a) effect \<Rightarrow> (exception \<Rightarrow> bool) \<Rightarrow> (exception \<Rightarrow> ('s, 'b) effect) \<Rightarrow> ('a \<Rightarrow> ('s, 'b) effect) \<Rightarrow>
     ('s, 'b) effect" where
  "tryElseS m p h k s =
     (case m s of (Inl e, s') \<Rightarrow> (if p e then h e s' else (Inl e, s')) | (Inr a, s') \<Rightarrow> k a s')"

definition exceptS ::
    "('s, 'a) effect \<Rightarrow> (exception \<Rightarrow> bool) \<Rightarrow> (exception \<Rightarrow> ('s, 'a) effect) \<Rightarrow> ('s, 'a) effect" where
  "exceptS m p h = tryElseS m p h returnS"

text \<open>\<^verbatim>\<open>try: m finally: c\<close>; an exception raised by \<open>c\<close> replaces the outcome of \<open>m\<close>.\<close>

definition finallyS :: "('s, 'a) effect \<Rightarrow> ('s, unit) effect \<Rightarrow> ('s, 'a) effect" where
  "finallyS m c s =
     (case m s of (r, s') \<Rightarrow> (case c s' of (Inl e, s'') \<Rightarrow> (Inl e, s'') | (Inr _, s'') \<Rightarrow> (r, s'')))"

primrec forS :: "'a list \<Rightarrow> ('a \<Rightarrow> ('s, unit) effect) \<Rightarrow> ('s, unit) effect" where
  "forS [] f = returnS ()"
| "forS (x # xs) f = thenS (f x) (forS xs f)"

text \<open>A pure computation that may raise, such as a constructor check.\<close>

definition pureS :: "'a res \<Rightarrow> ('s, 'a) effect" where
  "pureS r = (case r of Inl e \<Rightarrow> raiseS (of_py_error e) | Inr a \<Rightarrow> returnS a)"

lemmas effect_defs = returnS_def raiseS_def bindS_def thenS_def readS_def updateS_def whenS_def
  tryElseS_def exceptS_def finallyS_def pureS_def

lemma bindS_cong [fundef_cong]:
  "m = m' \<Longrightarrow> (\<And>a. f a = f' a) \<Longrightarrow> bindS m f = bindS m' f'"
  by (rule arg_cong2 [where f = bindS]) auto

lemma tryElseS_cong [fundef_cong]:
  "m = m' \<Longrightarrow> p = p' \<Longrightarrow> (\<And>e. h e = h' e) \<Longrightarrow> (\<And>a. k a = k' a) \<Longrightarrow> tryElseS m p h k = tryElseS m' p' h' k'"
  by (subgoal_tac "h = h' \<and> k = k'") auto

section \<open>Weakest preconditions\<close>

text \<open>\<open>wp m Q E s\<close>: from \<open>s\<close>, \<open>m\<close> returns a value and a state in \<open>Q\<close> or raises in \<open>E\<close>.\<close>

definition wp ::
    "('s, 'a) effect \<Rightarrow> ('a \<Rightarrow> 's \<Rightarrow> bool) \<Rightarrow> (exception \<Rightarrow> 's \<Rightarrow> bool) \<Rightarrow> 's \<Rightarrow> bool" where
  "wp m Q E s = (case m s of (Inl e, s') \<Rightarrow> E e s' | (Inr a, s') \<Rightarrow> Q a s')"

named_theorems wp_rules

lemma wp_return [wp_rules]: "wp (returnS a) Q E s = Q a s"
  by (simp add: wp_def effect_defs)

lemma wp_returns: "(\<lambda>a. wp (returnS a) Q E) = Q"
  by (simp add: fun_eq_iff wp_return)

lemma wp_raise [wp_rules]: "wp (raiseS e) Q E s = E e s"
  by (simp add: wp_def effect_defs)

lemma wp_read [wp_rules]: "wp (readS f) Q E s = Q (f s) s"
  by (simp add: wp_def effect_defs)

lemma wp_update [wp_rules]: "wp (updateS g) Q E s = Q () (g s)"
  by (simp add: wp_def effect_defs)

lemma wp_bind [wp_rules]: "wp (bindS m f) Q E s = wp m (\<lambda>a. wp (f a) Q E) E s"
  by (simp add: wp_def effect_defs split: prod.split sum.split)

lemma wp_then [wp_rules]: "wp (thenS m n) Q E s = wp m (\<lambda>_. wp n Q E) E s"
  by (simp add: thenS_def wp_bind)

lemma wp_when [wp_rules]: "wp (whenS c m) Q E s = (if c then wp m Q E s else Q () s)"
  by (simp add: whenS_def wp_return)

lemma wp_try_else [wp_rules]:
  "wp (tryElseS m p h k) Q E s =
     wp m (\<lambda>a. wp (k a) Q E) (\<lambda>e t. if p e then wp (h e) Q E t else E e t) s"
  by (simp add: wp_def effect_defs split: prod.split sum.split)

lemma wp_except [wp_rules]:
  "wp (exceptS m p h) Q E s = wp m Q (\<lambda>e t. if p e then wp (h e) Q E t else E e t) s"
  by (simp add: exceptS_def wp_try_else wp_returns)

lemma wp_finally [wp_rules]:
  "wp (finallyS m c) Q E s = wp m (\<lambda>a. wp c (\<lambda>_. Q a) E) (\<lambda>e. wp c (\<lambda>_. E e) E) s"
  by (simp add: wp_def effect_defs split: prod.split sum.split)

lemma wp_pure [wp_rules]:
  "wp (pureS r) Q E s = (case r of Inl e \<Rightarrow> E (of_py_error e) s | Inr a \<Rightarrow> Q a s)"
  by (cases r) (simp_all add: pureS_def wp_raise wp_return)

lemma wp_if [wp_rules]:
  "wp (if c then m else n) Q E s = (if c then wp m Q E s else wp n Q E s)"
  by simp

lemma wp_ifI: "(c \<Longrightarrow> wp m Q E s) \<Longrightarrow> (\<not> c \<Longrightarrow> wp n Q E s) \<Longrightarrow> wp (if c then m else n) Q E s"
  by simp

lemma wp_mono:
  assumes "wp m Q E s"
    and "\<And>a t. Q a t \<Longrightarrow> Q' a t" and "\<And>e t. E e t \<Longrightarrow> E' e t"
  shows "wp m Q' E' s"
  using assms by (auto simp: wp_def split: prod.splits sum.splits)

lemma wp_conj: "wp m Q E s \<Longrightarrow> wp m Q' E' s \<Longrightarrow> wp m (\<lambda>a t. Q a t \<and> Q' a t) (\<lambda>e t. E e t \<and> E' e t) s"
  by (auto simp: wp_def split: prod.splits sum.splits)

lemma wp_run:
  "wp m Q E s \<Longrightarrow> m s = (Inr a, t) \<Longrightarrow> Q a t"
  "wp m Q E s \<Longrightarrow> m s = (Inl e, t) \<Longrightarrow> E e t"
  by (simp_all add: wp_def)

lemma wp_for:
  assumes "\<And>x s. x \<in> set xs \<Longrightarrow> I s \<Longrightarrow> wp (f x) (\<lambda>_. I) E s"
    and "I s"
  shows "wp (forS xs f) (\<lambda>_. I) E s"
  using assms
proof (induction xs arbitrary: s)
  case (Cons x xs)
  have "wp (f x) (\<lambda>_. I) E s" using Cons.prems by simp
  then show ?case
    by (simp add: wp_then) (erule wp_mono; simp add: Cons)
qed (simp add: wp_return)

text \<open>A loop that counts the elements it is through with.\<close>

lemma wp_loop:
  assumes step: "\<And>k s. k < length xs \<Longrightarrow> P k s \<Longrightarrow> wp (f (xs ! k)) (\<lambda>_. P (Suc k)) (\<lambda>_. E) s"
    and "P k s" "k \<le> length xs"
  shows "wp (forS (drop k xs) f) (\<lambda>_. P (length xs)) (\<lambda>_. E) s"
  using assms(2,3)
proof (induction "length xs - k" arbitrary: k s)
  case 0
  then show ?case by (simp add: wp_return)
next
  case (Suc n)
  then have k: "k < length xs" by simp
  have "drop k xs = xs ! k # drop (Suc k) xs" using k by (simp add: Cons_nth_drop_Suc)
  then show ?case
    using Suc k by (simp add: wp_then) (rule wp_mono [OF step], auto)
qed

text \<open>What holds whenever a computation returns, and the exceptions it can raise.\<close>

definition ensures :: "('s, 'a) effect \<Rightarrow> ('s \<Rightarrow> bool) \<Rightarrow> bool" where
  "ensures m P \<longleftrightarrow> (\<forall>s. wp m (\<lambda>_. P) (\<lambda>_ _. True) s)"

definition raises_only :: "(exception \<Rightarrow> bool) \<Rightarrow> ('s, 'a) effect \<Rightarrow> bool" where
  "raises_only p m \<longleftrightarrow> (\<forall>s. wp m (\<lambda>_ _. True) (\<lambda>e _. p e) s)"

lemma wp_True: "wp m (\<lambda>_ _. True) (\<lambda>_ _. True) s"
  by (simp add: wp_def split: prod.split sum.split)

lemma ensuresI: "(\<And>s. wp m (\<lambda>_. P) (\<lambda>_ _. True) s) \<Longrightarrow> ensures m P"
  by (simp add: ensures_def)

lemma ensuresD: "ensures m P \<Longrightarrow> wp m (\<lambda>_. P) (\<lambda>_ _. True) s"
  by (simp add: ensures_def)

lemma raises_onlyD: "raises_only p m \<Longrightarrow> wp m (\<lambda>_ _. True) (\<lambda>e _. p e) s"
  by (simp add: raises_only_def)

lemma wp_any_exn: "wp m Q E s \<Longrightarrow> wp m Q (\<lambda>_ _. True) s"
  by (erule wp_mono) simp_all

lemma ensures_mono: "ensures m P \<Longrightarrow> (\<And>s. P s \<Longrightarrow> Q s) \<Longrightarrow> ensures m Q"
  unfolding ensures_def [of m Q] by (intro allI, erule wp_mono [OF ensuresD]) auto

lemma ensures_raise: "ensures (raiseS e) P"
  by (simp add: ensures_def wp_rules)

lemma ensures_bind: "(\<And>a. ensures (f a) P) \<Longrightarrow> ensures (bindS m f) P"
  unfolding ensures_def wp_bind by (auto intro: wp_mono [OF wp_True])

lemma ensures_then: "ensures n P \<Longrightarrow> ensures (thenS m n) P"
  unfolding thenS_def by (rule ensures_bind)

lemma ensures_if: "(c \<Longrightarrow> ensures m P) \<Longrightarrow> (\<not> c \<Longrightarrow> ensures n P) \<Longrightarrow> ensures (if c then m else n) P"
  by simp

lemma ensures_option:
  "ensures m P \<Longrightarrow> (\<And>a. ensures (f a) P) \<Longrightarrow> ensures (case x of None \<Rightarrow> m | Some a \<Rightarrow> f a) P"
  by (simp split: option.split)

lemma ensures_try_else:
  "(\<And>e. p e \<Longrightarrow> ensures (h e) P) \<Longrightarrow> (\<And>a. ensures (k a) P) \<Longrightarrow> ensures (tryElseS m p h k) P"
  unfolding ensures_def wp_try_else by (auto intro: wp_mono [OF wp_True])

lemma ensures_except:
  "ensures m P \<Longrightarrow> (\<And>e. p e \<Longrightarrow> ensures (h e) P) \<Longrightarrow> ensures (exceptS m p h) P"
  unfolding ensures_def wp_except by (auto intro: wp_mono)

lemmas ensures_rules = ensures_raise ensures_bind ensures_then ensures_if ensures_option
  ensures_try_else ensures_except

lemma raises_only_basic:
  "raises_only p (returnS a)" "p e \<Longrightarrow> raises_only p (raiseS e)"
  "raises_only p (readS f)" "raises_only p (updateS g)"
  by (simp_all add: raises_only_def wp_rules)

lemma raises_only_pure: "(\<And>e. p (of_py_error e)) \<Longrightarrow> raises_only p (pureS r)"
  by (simp add: raises_only_def wp_rules split: sum.split)

lemma raises_only_bind:
  "raises_only p m \<Longrightarrow> (\<And>a. raises_only p (f a)) \<Longrightarrow> raises_only p (bindS m f)"
  unfolding raises_only_def wp_bind by (auto intro: wp_mono)

lemma raises_only_then: "raises_only p m \<Longrightarrow> raises_only p n \<Longrightarrow> raises_only p (thenS m n)"
  unfolding thenS_def by (rule raises_only_bind)

lemma raises_only_when: "(c \<Longrightarrow> raises_only p m) \<Longrightarrow> raises_only p (whenS c m)"
  by (simp add: whenS_def raises_only_basic)

lemma raises_only_if:
  "(c \<Longrightarrow> raises_only p m) \<Longrightarrow> (\<not> c \<Longrightarrow> raises_only p n) \<Longrightarrow> raises_only p (if c then m else n)"
  by simp

lemma raises_only_option:
  "raises_only p m \<Longrightarrow> (\<And>a. raises_only p (f a)) \<Longrightarrow> raises_only p (case x of None \<Rightarrow> m | Some a \<Rightarrow> f a)"
  by (simp split: option.split)

lemma raises_only_except:
  "raises_only (\<lambda>e. q e \<or> p e) m \<Longrightarrow> (\<And>e. q e \<Longrightarrow> raises_only p (h e)) \<Longrightarrow> raises_only p (exceptS m q h)"
  unfolding raises_only_def wp_except by (auto elim!: wp_mono)

lemma raises_only_finally:
  "raises_only p m \<Longrightarrow> raises_only p c \<Longrightarrow> raises_only p (finallyS m c)"
  unfolding raises_only_def wp_finally
  by (auto elim!: wp_mono) (auto intro: wp_mono)

lemma raises_only_for: "(\<And>x. raises_only p (f x)) \<Longrightarrow> raises_only p (forS xs f)"
  by (induction xs) (simp_all add: raises_only_basic raises_only_then)

lemmas raises_only_rules = raises_only_basic raises_only_bind raises_only_then raises_only_when
  raises_only_if raises_only_option raises_only_finally raises_only_for

lemma raises_only_mono: "raises_only p m \<Longrightarrow> (\<And>e. p e \<Longrightarrow> q e) \<Longrightarrow> raises_only q m"
  unfolding raises_only_def [of q] by (intro allI, erule wp_mono [OF raises_onlyD]) auto

section \<open>Relations between the states before and after\<close>

definition stays :: "('s \<Rightarrow> 's \<Rightarrow> bool) \<Rightarrow> ('s, 'a) effect \<Rightarrow> bool" where
  "stays R m \<longleftrightarrow> (\<forall>s. R s (snd (m s)))"

text \<open>
  A reflexive and transitive relation is respected by a statement when its parts respect it. The
  invariants of the program, the growth of its logs and the settling of its items are such
  relations.
\<close>

locale step_relation =
  fixes R :: "'s \<Rightarrow> 's \<Rightarrow> bool"
  assumes refl: "R s s"
    and trans: "R s t \<Longrightarrow> R t u \<Longrightarrow> R s u"
begin

lemma stays_basic:
  "stays R (returnS a)" "stays R (raiseS e)" "stays R (readS f)" "stays R (pureS r)"
  by (simp_all add: stays_def effect_defs refl split: sum.split)

lemma stays_bind: "stays R m \<Longrightarrow> (\<And>a. stays R (f a)) \<Longrightarrow> stays R (bindS m f)"
  by (simp add: stays_def effect_defs split: prod.split sum.split) (metis snd_conv trans)

lemma stays_then: "stays R m \<Longrightarrow> stays R n \<Longrightarrow> stays R (thenS m n)"
  by (simp add: thenS_def stays_bind)

lemma stays_when: "(c \<Longrightarrow> stays R m) \<Longrightarrow> stays R (whenS c m)"
  by (cases c) (simp_all add: whenS_def stays_basic)

lemma stays_if: "(c \<Longrightarrow> stays R m) \<Longrightarrow> (\<not> c \<Longrightarrow> stays R n) \<Longrightarrow> stays R (if c then m else n)"
  by simp

lemma stays_option:
  "stays R m \<Longrightarrow> (\<And>a. stays R (f a)) \<Longrightarrow> stays R (case x of None \<Rightarrow> m | Some a \<Rightarrow> f a)"
  by (simp split: option.split)

lemma stays_try_else:
  "stays R m \<Longrightarrow> (\<And>e. p e \<Longrightarrow> stays R (h e)) \<Longrightarrow> (\<And>a. stays R (k a)) \<Longrightarrow> stays R (tryElseS m p h k)"
  by (simp add: stays_def effect_defs split: prod.split sum.split) (metis snd_conv trans)

lemma stays_except:
  "stays R m \<Longrightarrow> (\<And>e. p e \<Longrightarrow> stays R (h e)) \<Longrightarrow> stays R (exceptS m p h)"
  by (simp add: exceptS_def stays_try_else stays_basic)

lemma stays_finally: "stays R m \<Longrightarrow> stays R c \<Longrightarrow> stays R (finallyS m c)"
  by (simp add: stays_def effect_defs split: prod.split sum.split) (metis snd_conv trans)

lemma stays_for: "(\<And>x. x \<in> set xs \<Longrightarrow> stays R (f x)) \<Longrightarrow> stays R (forS xs f)"
  by (induction xs) (simp_all add: stays_basic stays_then)

lemmas stays_rules = stays_basic stays_bind stays_then stays_when stays_if stays_option
  stays_try_else stays_except stays_finally stays_for

end

lemma wp_stays:
  assumes "stays R m"
  shows "wp m (\<lambda>_. R s) (\<lambda>_. R s) s"
  using assms by (auto simp: wp_def stays_def split: prod.split sum.split) (metis snd_conv)+

lemma stays_wp: "stays R m \<longleftrightarrow> (\<forall>s. wp m (\<lambda>_. R s) (\<lambda>_. R s) s)"
proof -
  have "wp m (\<lambda>_. R s) (\<lambda>_. R s) s = R s (snd (m s))" for s
    by (cases "m s"; cases "fst (m s)") (simp_all add: wp_def)
  then show ?thesis by (simp add: stays_def)
qed

text \<open>Invariants are the relations \<open>I s \<longrightarrow> I t\<close>.\<close>

definition keeps :: "('s \<Rightarrow> bool) \<Rightarrow> 's \<Rightarrow> 's \<Rightarrow> bool" where
  "keeps I s t \<longleftrightarrow> (I s \<longrightarrow> I t)"

interpretation invariants: step_relation "keeps I" for I
  by unfold_locales (auto simp: keeps_def)

lemma stays_keeps: "stays (keeps I) m \<longleftrightarrow> (\<forall>s. I s \<longrightarrow> wp m (\<lambda>_. I) (\<lambda>_. I) s)"
  by (auto simp: stays_wp keeps_def wp_def split: prod.splits sum.splits)

lemma wp_keeps: "stays (keeps I) m \<Longrightarrow> I s \<Longrightarrow> wp m (\<lambda>_. I) (\<lambda>_. I) s"
  by (simp add: stays_keeps)

lemma ensures_then_keeps: "ensures m P \<Longrightarrow> stays (keeps P) n \<Longrightarrow> ensures (thenS m n) P"
  unfolding ensures_def [of "thenS m n"] wp_then
  by (intro allI, erule wp_mono [OF ensuresD]) (auto simp: stays_keeps intro: wp_any_exn)

lemma ensures_finally: "ensures m P \<Longrightarrow> stays (keeps P) c \<Longrightarrow> ensures (finallyS m c) P"
  unfolding ensures_def [of "finallyS m c"] wp_finally
  by (intro allI, erule wp_mono [OF ensuresD]) (auto simp: stays_keeps intro: wp_any_exn wp_True)

text \<open>A loop whose body establishes \<open>P x\<close> for its element, and breaks no other, ends with all of them.\<close>

lemma ensures_for:
  assumes "\<And>x. ensures (f x) (P x)" and "\<And>x y. stays (keeps (P y)) (f x)"
  shows "ensures (forS xs f) (\<lambda>t. \<forall>x \<in> set xs. P x t)"
proof (induction xs)
  case (Cons x xs)
  have "stays (keeps (P x)) (forS xs f)" by (intro invariants.stays_for assms)
  then have "wp (forS xs f) (\<lambda>_ t. P x t \<and> (\<forall>y \<in> set xs. P y t)) (\<lambda>_ t. True) s" if "P x s" for s
    using wp_conj [of "forS xs f" "\<lambda>_. P x" "\<lambda>_. P x" s "\<lambda>_ t. \<forall>y \<in> set xs. P y t" "\<lambda>_ _. True"] Cons that
    by (auto simp: stays_keeps ensures_def elim: wp_mono)
  with assms(1) [of x] show ?case
    unfolding ensures_def [of "forS (x # xs) f"]
    by (intro allI, simp add: wp_then) (erule wp_mono [OF ensuresD], auto)
qed (simp add: ensures_def wp_rules)

section \<open>Calls to a collaborator\<close>

text \<open>
  The collaborators of a component are outside it. Their operations are computations on a world
  \<open>'w\<close> that the component does not look into; \<open>through g u\<close> runs one on the world kept in a field.
\<close>

definition through :: "('s \<Rightarrow> 'w) \<Rightarrow> (('w \<Rightarrow> 'w) \<Rightarrow> 's \<Rightarrow> 's) \<Rightarrow> ('w, 'a) effect \<Rightarrow> ('s, 'a) effect" where
  "through g u m s = (case m (g s) of (r, w) \<Rightarrow> (r, u (\<lambda>_. w) s))"

lemma stays_through: "(\<And>w s. R s (u (\<lambda>_. w) s)) \<Longrightarrow> stays R (through g u m)"
  by (simp add: stays_def through_def split: prod.split)

lemma wp_through:
  "(\<And>r w. m (g s) = (r, w) \<Longrightarrow> case r of Inl e \<Rightarrow> E e (u (\<lambda>_. w) s) | Inr a \<Rightarrow> Q a (u (\<lambda>_. w) s)) \<Longrightarrow>
     wp (through g u m) Q E s"
  by (cases "m (g s)"; cases "fst (m (g s))") (simp_all add: wp_def through_def)

section \<open>Calm computations\<close>

text \<open>Computations that raise neither \<^verbatim>\<open>Canceled\<close> nor \<^verbatim>\<open>PauseRequested\<close>.\<close>

abbreviation calm :: "('s, 'a) effect \<Rightarrow> bool" where
  "calm m \<equiv> raises_only (\<lambda>e. \<not> is_signal e) m"

lemma not_signal_py_error [simp]: "\<not> is_signal (of_py_error err)"
  by (cases err) (simp_all add: is_signal_def simple_exn_def)

lemma signal_is_exception: "is_signal e \<Longrightarrow> is_exception e"
  by (auto simp: is_signal_def is_exception_def)

lemma not_signal_not_canceled: "\<not> is_signal e \<Longrightarrow> ex_class e \<noteq> X_CANCELED"
  by (auto simp: is_signal_def)

lemma calm_caught: "(\<And>e. is_exception e \<Longrightarrow> calm (h e)) \<Longrightarrow> calm (exceptS m is_exception h)"
  by (rule raises_only_except)
     (auto simp: raises_only_def wp_def intro: signal_is_exception split: prod.split sum.split)

lemma calm_through: "calm m \<Longrightarrow> calm (through g u m)"
  by (auto simp: raises_only_def wp_def through_def split: prod.splits sum.splits)

lemma calm_pure: "calm (pureS r)"
  by (rule raises_only_pure) simp

lemma calm_except: "calm m \<Longrightarrow> (\<And>e. calm (h e)) \<Longrightarrow> calm (exceptS m q h)"
  by (rule raises_only_except) (auto intro: raises_only_mono)

end
