(* ===== verification/Executor_State.thy ===== *)
theory Executor_State
  imports Effects Session Planning_Lemmas
begin

text \<open>
  State, collaborators and evidence guards of the executor (\<^verbatim>\<open>modules/executor.py\<close>): the native
  paths it passes around, the filesystem, recorder, run-context and policy operations it calls, the
  mutable state of one run with the progress tracker, and the guards every operation shares. The
  collaborators are fields of \<open>exec_env\<close> over a world \<open>'w\<close>; the log \<open>es_log\<close> of the calls is the only
  thing added to the code's state.
\<close>

section \<open>Native paths\<close>

text \<open>
  A \<^verbatim>\<open>pathlib.Path\<close> on Windows: the anchor and the parts below it. Paths are compared and hashed by
  their lowercased text; the lowercase table is the parameter \<open>lower\<close>.
\<close>

datatype path = Path (pa_anchor: pystr) (pa_parts: "pystr list")

text \<open>\<^verbatim>\<open>ntpath.splitroot\<close> on a text whose separators are backslashes, and the parser of \<^verbatim>\<open>Path\<close>.\<close>

definition split_root :: "upper \<Rightarrow> pystr \<Rightarrow> pystr \<times> pystr \<times> pystr" where
  "split_root up p =
     (if starts_with [backslash, backslash] p
      then let start = (if concat (map up (take 8 p)) = [backslash, backslash, 63, backslash] @ lit ''UNC'' @ [backslash]
                        then 8 else 2);
               server = takeWhile (\<lambda>c. c \<noteq> backslash) (drop start p);
               after = dropWhile (\<lambda>c. c \<noteq> backslash) (drop start p)
           in if after = [] then (p, [], [])
              else let share = takeWhile (\<lambda>c. c \<noteq> backslash) (tl after);
                       rest = dropWhile (\<lambda>c. c \<noteq> backslash) (tl after)
                   in if rest = [] then (p, [], [])
                      else (take start p @ server @ [backslash] @ share, [backslash], tl rest)
      else if starts_with [backslash] p then ([], [backslash], tl p)
      else if length p \<ge> 2 \<and> p ! 1 = colon
      then (if starts_with [backslash] (drop 2 p) then (take 2 p, [backslash], drop 3 p)
            else (take 2 p, [], drop 2 p))
      else ([], [], p))"

definition path_of :: "upper \<Rightarrow> pystr \<Rightarrow> path" where
  "path_of up value =
     (case split_root up (canonical_separators value) of
        (drive, rt, rel) \<Rightarrow>
          let drive_parts = split_on backslash drive;
              rt' = (if rt = [] \<and> starts_with [backslash] drive \<and> last drive \<noteq> backslash
                          \<and> (length drive_parts = 4
                              \<and> drive_parts ! 2 \<notin> {[], lit ''?'', lit ''.'', lit ''?.''}
                             \<or> length drive_parts = 6)
                       then [backslash] else rt)
          in Path (drive @ rt') (filter (\<lambda>x. x \<noteq> [] \<and> x \<noteq> [dot]) (split_on backslash rel)))"

definition path_str :: "path \<Rightarrow> pystr" where
  "path_str p =
     (if pa_anchor p = [] \<and> pa_parts p = [] then [dot]
      else pa_anchor p @ join_with [backslash] (pa_parts p))"

definition path_parent :: "path \<Rightarrow> path" where
  "path_parent p = Path (pa_anchor p) (butlast (pa_parts p))"

definition path_name :: "path \<Rightarrow> pystr" where
  "path_name p = (if pa_parts p = [] then [] else last (pa_parts p))"

definition path_fold :: "(pystr \<Rightarrow> pystr) \<Rightarrow> path \<Rightarrow> pystr" where
  "path_fold lower p = lower (path_str p)"

definition path_relative_to :: "(pystr \<Rightarrow> pystr) \<Rightarrow> path \<Rightarrow> path \<Rightarrow> path res" where
  "path_relative_to lower p base =
     (let n = length (pa_parts base)
      in if n \<le> length (pa_parts p)
            \<and> path_fold lower (Path (pa_anchor p) (take n (pa_parts p))) = path_fold lower base
         then Inr (Path [] (drop n (pa_parts p)))
         else Inl (ValueError ''path is not in the subpath of the base''))"

section \<open>Collaborators\<close>

datatype record_command =
    RecordCopied op_id attestation
  | RecordUpdated op_id attestation
  | RecordMoved op_id file_stat
  | RecordRecased op_id file_stat
  | RecordMoveUpdated op_id attestation
  | RecordMkdir op_id file_stat
  | RecordTrashed op_id pystr file_stat
  | RecordDeleted op_id file_stat
  | RecordNoop op_id file_stat file_stat

text \<open>
  The streams of the copy backend are used in one loop. The reads of an opened source are the list
  of what the successive \<^verbatim>\<open>read(chunk_size)\<close> calls return or raise up to the end of the file; a write
  returns the number of bytes it took, or \<^verbatim>\<open>None\<close>.
\<close>

record 'w exec_env =
  en_lower :: "pystr \<Rightarrow> pystr"
  en_emit :: "event_body \<Rightarrow> ('w, unit) effect"
  en_checkpoint :: "('w, unit) effect"
  en_monotonic :: "('w, real) effect"
  en_sleep :: "real \<Rightarrow> ('w, unit) effect"
  en_now :: "('w, datetime) effect"
  en_on_item_failed :: "plan_operation \<Rightarrow> exception \<Rightarrow> int \<Rightarrow> ('w, failure_decision) effect"
  en_flush :: "('w, unit) effect"
  en_record :: "record_command \<Rightarrow> ('w, unit) effect"
  en_resolve :: "path \<Rightarrow> pystr \<Rightarrow> bool \<Rightarrow> ('w, path) effect"
  en_stat :: "path \<Rightarrow> pystr \<Rightarrow> ('w, file_stat option) effect"
  en_stat_path :: "path \<Rightarrow> ('w, file_stat option) effect"
  en_owned_temp :: "path \<Rightarrow> pystr \<Rightarrow> op_id \<Rightarrow> ('w, path) effect"
  en_remove_owned_temp :: "path \<Rightarrow> ('w, unit) effect"
  en_open_source :: "path \<Rightarrow> int \<Rightarrow> ('w, (exception + bytes) list) effect"
  en_create_temp :: "path \<Rightarrow> ('w, unit) effect"
  en_write :: "path \<Rightarrow> bytes \<Rightarrow> ('w, int option) effect"
  en_close :: "path \<Rightarrow> ('w, unit) effect"
  en_flush_file :: "path \<Rightarrow> ('w, unit) effect"
  en_flush_path :: "path \<Rightarrow> ('w, unit) effect"
  en_apply_metadata :: "path \<Rightarrow> file_stat \<Rightarrow> bool \<Rightarrow> bool \<Rightarrow> ('w, unit) effect"
  en_copy_security :: "path \<Rightarrow> path \<Rightarrow> ('w, unit) effect"
  en_publish_new :: "path \<Rightarrow> path \<Rightarrow> ('w, unit) effect"
  en_replace :: "path \<Rightarrow> path \<Rightarrow> ('w, unit) effect"
  en_hardlink :: "path \<Rightarrow> path \<Rightarrow> ('w, unit) effect"
  en_copy_backup :: "path \<Rightarrow> path \<Rightarrow> path \<Rightarrow> ('w, unit) effect"
  en_clear_readonly :: "path \<Rightarrow> ('w, unit) effect"
  en_rename_new :: "path \<Rightarrow> path \<Rightarrow> ('w, unit) effect"
  en_mkdir_new :: "path \<Rightarrow> ('w, unit) effect"
  en_remove_file :: "path \<Rightarrow> ('w, unit) effect"
  en_remove_directory :: "path \<Rightarrow> ('w, unit) effect"
  en_trash_destination :: "path \<Rightarrow> pystr \<Rightarrow> pystr \<Rightarrow> ('w, path) effect"
  en_flush_directory :: "path \<Rightarrow> ('w, bool) effect"

record executor_policies =
  ep_chunk_size :: int
  ep_max_retries :: int
  ep_progress_interval :: real

definition executor_policies_post_init :: "executor_policies \<Rightarrow> unit res" where
  "executor_policies_post_init p =
     bindE (raise_if (ep_chunk_size p \<le> 0) (ValueError ''copy chunk size must be positive'')) (\<lambda>_.
     bindE (raise_if (ep_max_retries p < 0) (ValueError ''maximum retries cannot be negative'')) (\<lambda>_.
     raise_if (ep_progress_interval p < 0) (ValueError ''progress interval cannot be negative'')))"

text \<open>The failure policy of the program: retry sharing violations, with exponential delays.\<close>

fun find_winerror :: "exception \<Rightarrow> int option" where
  "find_winerror (Exn c ty msg (Some w) cause) = Some w"
| "find_winerror (Exn c ty msg None None) = None"
| "find_winerror (Exn c ty msg None (Some e)) = find_winerror e"

definition sharing_violation :: "exception \<Rightarrow> bool" where
  "sharing_violation e \<longleftrightarrow> find_winerror e = Some 32 \<or> find_winerror e = Some 33"

definition bounded_failure_policy_init :: "int \<Rightarrow> real \<Rightarrow> unit res" where
  "bounded_failure_policy_init retries initial_delay =
     bindE (raise_if (retries < 0) (ValueError ''retry count cannot be negative'')) (\<lambda>_.
     raise_if (initial_delay < 0) (ValueError ''retry delay cannot be negative''))"

definition bounded_failure_policy :: "int \<Rightarrow> real \<Rightarrow> exception \<Rightarrow> int \<Rightarrow> failure_decision" where
  "bounded_failure_policy retries initial_delay error attempt =
     (if sharing_violation error \<and> attempt \<le> retries
      then Retry (initial_delay * 2 ^ nat (attempt - 1)) else Continue)"

section \<open>Run state\<close>

type_synonym detail = "(pystr, json) dict"

record settled =
  sd_outcome :: outcome
  sd_reason :: "execution_reason option"
  sd_detail :: detail

record prepared_copy =
  pc_source :: path
  pc_target_path :: path
  pc_temp :: path
  pc_digest :: copy_digest
  pc_intended :: file_stat

record update_continuation =
  uc_prepared :: prepared_copy
  uc_prepared_stat :: file_stat
  uc_live_stat :: file_stat
  uc_trash :: "path option"
  uc_backup_stat :: "file_stat option"
  uc_detail :: detail
  uc_published :: bool

record move_update_continuation =
  mc_prepared :: prepared_copy
  mc_old_rel :: pystr
  mc_old_expected :: file_stat
  mc_published_stat :: file_stat
  mc_trash :: "path option"
  mc_attestation :: "attestation option"

datatype continuation =
  UpdateContinuation update_continuation | MoveUpdateContinuation move_update_continuation

text \<open>The last emission time is minus infinity, \<open>None\<close>, before the first one.\<close>

record tracker =
  tr_items_total :: int
  tr_items_done :: int
  tr_bytes_total :: int
  tr_committed :: int
  tr_bytes_done :: int
  tr_file_bytes :: int
  tr_current :: "plan_operation option"
  tr_last_emitted :: "real option"

text \<open>
  What the log keeps: observations with their result, and mutations, once when they are attempted
  and once more, as \<open>Completed\<close>, when they returned.
\<close>

datatype exec_call =
    SawStat path pystr "file_stat option"
  | SawPath path "file_stat option"
  | TempName path path op_id
  | TrashName path pystr
  | RecorderFlushed
  | Recorded record_command
  | RemoveTemp path
  | CreateTemp path
  | Wrote path bytes
  | ApplyMetadata path file_stat bool bool
  | PublishNew path path
  | Replace path path
  | HardLink path path
  | CopyBackup path path path
  | ClearReadonly path
  | RenameNew path path
  | MkdirNew path
  | RemoveFile path
  | RemoveDirectory path
  | Emitted event_body
  | Slept real
  | Resolved path pystr path
  | Completed exec_call

record 'w exec_state =
  es_xset :: execution_set
  es_outcomes :: "op_id \<rightharpoonup> item_outcome"
  es_recording :: recording_status
  es_inflight :: "path option"
  es_pending_dirs :: "plan_operation list"
  es_ready_dirs :: "op_id set"
  es_restore_dirs :: "op_id set"
  es_retry :: "op_id \<rightharpoonup> continuation"
  es_fs_failed :: bool
  es_tracker :: tracker
  es_stop :: bool
  es_current :: "plan_operation option"
  es_log :: "exec_call list"
  es_world :: 'w

type_synonym ('w, 'a) exec = "('w exec_state, 'a) effect"

definition world :: "('w, 'a) effect \<Rightarrow> ('w, 'a) exec" where
  "world m = through es_world es_world_update m"

definition log_call :: "exec_call \<Rightarrow> ('w, unit) exec" where
  "log_call c = updateS (\<lambda>s. s\<lparr>es_log := es_log s @ [c]\<rparr>)"

definition logged :: "('a \<Rightarrow> exec_call) \<Rightarrow> ('w, 'a) effect \<Rightarrow> ('w, 'a) exec" where
  "logged c m = bindS (world m) (\<lambda>r. thenS (log_call (c r)) (returnS r))"

definition mutating :: "exec_call \<Rightarrow> ('w, 'a) effect \<Rightarrow> ('w, 'a) exec" where
  "mutating c m = thenS (log_call c) (logged (\<lambda>_. Completed c) m)"

definition emit_body :: "'w exec_env \<Rightarrow> event_body \<Rightarrow> ('w, unit) exec" where
  "emit_body env body = logged (\<lambda>_. Emitted body) (en_emit env body)"

definition operation_failure :: "execution_reason \<Rightarrow> pystr \<Rightarrow> exception option \<Rightarrow> exception" where
  "operation_failure reason detail cause =
     Exn (X_OPERATION_FAILURE reason) (lit ''OperationFailure'') detail None cause"

abbreviation fail_op :: "execution_reason \<Rightarrow> pystr \<Rightarrow> ('w, 'a) exec" where
  "fail_op reason detail \<equiv> raiseS (operation_failure reason detail None)"

section \<open>Progress\<close>

definition content_kind :: "operation_kind \<Rightarrow> bool" where
  "content_kind k \<longleftrightarrow> k \<in> {COPY, UPDATE, MOVE_UPDATE}"

text \<open>
  \<^verbatim>\<open>len(xset.status)\<close> is counted along the selection: the constructor of the execution set lets only
  selected operations have a status.
\<close>

definition tracker_init :: "execution_set \<Rightarrow> tracker" where
  "tracker_init x =
     (let ops = pl_operations (xs_plan x);
          total = sum_list (map po_content_bytes
            (filter (\<lambda>op. po_op_id op \<in> xs_selection x \<and> content_kind (po_kind op)) ops));
          committed = sum_list (map po_content_bytes
            (filter (\<lambda>op. xs_status x (po_op_id op) = Some O_SUCCEEDED \<and> content_kind (po_kind op)) ops))
      in \<lparr>tr_items_total = int (card (xs_selection x)), tr_items_done = int (card (Set.filter (\<lambda>k. xs_status x k \<noteq> None) (xs_selection x))),
          tr_bytes_total = total, tr_committed = committed, tr_bytes_done = min committed total,
          tr_file_bytes = 0, tr_current = None, tr_last_emitted = None\<rparr>)"

definition tracker_progress :: "tracker \<Rightarrow> progress" where
  "tracker_progress t =
     \<lparr>pg_items_done = tr_items_done t, pg_items_total = Some (tr_items_total t),
      pg_bytes_done = min (tr_bytes_done t) (tr_bytes_total t), pg_bytes_total = Some (tr_bytes_total t),
      pg_current_path = map_option po_target (tr_current t)\<rparr>"

definition progress_emit :: "executor_policies \<Rightarrow> 'w exec_env \<Rightarrow> bool \<Rightarrow> ('w, unit) exec" where
  "progress_emit pol env force =
     bindS (world (en_monotonic env)) (\<lambda>now.
     bindS (readS es_tracker) (\<lambda>t.
     if \<not> force \<and> (case tr_last_emitted t of None \<Rightarrow> False | Some before \<Rightarrow> now - before < ep_progress_interval pol)
     then returnS ()
     else thenS (updateS (\<lambda>s. s\<lparr>es_tracker := (es_tracker s)\<lparr>tr_last_emitted := Some now\<rparr>\<rparr>))
            (thenS (pureS (progress_post_init (tracker_progress t)))
              (emit_body env (Progress (tracker_progress t))))))"

definition progress_start :: "executor_policies \<Rightarrow> 'w exec_env \<Rightarrow> plan_operation \<Rightarrow> ('w, unit) exec" where
  "progress_start pol env op =
     thenS (updateS (\<lambda>s. s\<lparr>es_tracker := (es_tracker s)\<lparr>tr_current := Some op, tr_file_bytes := 0\<rparr>\<rparr>))
       (progress_emit pol env False)"

definition tracker_copied :: "int \<Rightarrow> tracker \<Rightarrow> tracker" where
  "tracker_copied n t =
     (let file_bytes = tr_file_bytes t + n;
          content = (case tr_current t of None \<Rightarrow> 0 | Some op \<Rightarrow> po_content_bytes op);
          candidate = min (tr_bytes_total t) (tr_committed t + min file_bytes content)
      in t\<lparr>tr_file_bytes := file_bytes, tr_bytes_done := max (tr_bytes_done t) candidate\<rparr>)"

definition progress_copied :: "executor_policies \<Rightarrow> 'w exec_env \<Rightarrow> int \<Rightarrow> ('w, unit) exec" where
  "progress_copied pol env n =
     thenS (updateS (\<lambda>s. s\<lparr>es_tracker := tracker_copied n (es_tracker s)\<rparr>))
       (progress_emit pol env False)"

definition tracker_settled :: "plan_operation \<Rightarrow> outcome \<Rightarrow> tracker \<Rightarrow> tracker" where
  "tracker_settled op out t =
     (let committed = (if out = O_SUCCEEDED \<and> content_kind (po_kind op)
            then min (tr_bytes_total t) (tr_committed t + po_content_bytes op) else tr_committed t);
          done = (if out = O_SUCCEEDED \<and> content_kind (po_kind op)
            then max (tr_bytes_done t) committed else tr_bytes_done t)
      in t\<lparr>tr_items_done := tr_items_done t + 1, tr_committed := committed, tr_bytes_done := done,
           tr_current := Some op\<rparr>)"

definition progress_settled ::
    "executor_policies \<Rightarrow> 'w exec_env \<Rightarrow> plan_operation \<Rightarrow> outcome \<Rightarrow> ('w, unit) exec" where
  "progress_settled pol env op out =
     thenS (updateS (\<lambda>s. s\<lparr>es_tracker := tracker_settled op out (es_tracker s)\<rparr>))
       (progress_emit pol env False)"

section \<open>Settling\<close>

fun execution_reason_value :: "execution_reason \<Rightarrow> pystr" where
  "execution_reason_value E_NOOP = lit ''noop''"
| "execution_reason_value E_ALREADY_EXISTS = lit ''already-exists''"
| "execution_reason_value E_BLOCKED = lit ''blocked''"
| "execution_reason_value E_DEPENDENCY_FAILED = lit ''dependency-failed''"
| "execution_reason_value E_SOURCE_DRIFT = lit ''source-drift''"
| "execution_reason_value E_TARGET_DRIFT = lit ''target-drift''"
| "execution_reason_value E_DESTINATION_OCCUPIED = lit ''destination-occupied''"
| "execution_reason_value E_WRONG_TYPE = lit ''wrong-type''"
| "execution_reason_value E_SOURCE_MISSING = lit ''source-missing''"
| "execution_reason_value E_TARGET_MISSING = lit ''target-missing''"
| "execution_reason_value E_TRASH_COLLISION = lit ''trash-collision''"
| "execution_reason_value E_UNSAFE_PATH = lit ''unsafe-path''"
| "execution_reason_value E_SHARING_VIOLATION = lit ''sharing-violation''"
| "execution_reason_value E_ACL_COPY_FAILED = lit ''acl-copy-failed''"
| "execution_reason_value E_CLEANUP_FAILED = lit ''cleanup-failed''"
| "execution_reason_value E_IO_ERROR = lit ''io-error''"
| "execution_reason_value E_POLICY_STOP = lit ''policy-stop''"
| "execution_reason_value E_CANCELED = lit ''canceled''"
| "execution_reason_value E_RECORDER_FAILED = lit ''recorder-failed''"

definition settled_event :: "plan_operation \<Rightarrow> settled \<Rightarrow> item_outcome" where
  "settled_event op sd =
     \<lparr>io_item_id = po_op_id op, io_kind = operation_kind_value (po_kind op), io_path = po_target op,
      io_outcome = sd_outcome sd, io_reason = map_option execution_reason_value (sd_reason sd),
      io_detail = sd_detail sd\<rparr>"

definition store_settled :: "plan_operation \<Rightarrow> settled \<Rightarrow> 'w exec_state \<Rightarrow> 'w exec_state" where
  "store_settled op sd s =
     s\<lparr>es_xset := (es_xset s)\<lparr>xs_status := (xs_status (es_xset s))(po_op_id op \<mapsto> sd_outcome sd)\<rparr>,
       es_outcomes := (es_outcomes s)(po_op_id op \<mapsto> settled_event op sd)\<rparr>"

definition settle ::
    "executor_policies \<Rightarrow> 'w exec_env \<Rightarrow> plan_operation \<Rightarrow> settled \<Rightarrow> ('w, unit) exec" where
  "settle pol env op sd =
     bindS (readS (\<lambda>s. xs_status (es_xset s) (po_op_id op) \<noteq> None)) (\<lambda>known.
     if known then returnS ()
     else thenS (pureS (item_outcome_post_init (settled_event op sd)))
       (thenS (updateS (store_settled op sd))
       (thenS (emit_body env (ItemOutcome (settled_event op sd)))
         (progress_settled pol env op (sd_outcome sd)))))"

definition failure_settlement :: "exception \<Rightarrow> settled" where
  "failure_settlement e =
     \<lparr>sd_outcome = O_FAILED,
      sd_reason = Some (case ex_class e of
          X_OPERATION_FAILURE reason \<Rightarrow> reason
        | X_UNSAFE_PATH \<Rightarrow> E_UNSAFE_PATH
        | _ \<Rightarrow> (if sharing_violation e then E_SHARING_VIOLATION else E_IO_ERROR)),
      sd_detail = [(lit ''error_type'', JStr (ex_type e)), (lit ''message'', JStr (ex_text e))]\<rparr>"

definition settle_failure ::
    "executor_policies \<Rightarrow> 'w exec_env \<Rightarrow> plan_operation \<Rightarrow> exception \<Rightarrow> ('w, unit) exec" where
  "settle_failure pol env op e = settle pol env op (failure_settlement e)"

definition cleanup_inflight :: "'w exec_env \<Rightarrow> ('w, exception option) exec" where
  "cleanup_inflight env =
     bindS (readS es_inflight) (\<lambda>inflight.
     case inflight of
       None \<Rightarrow> returnS None
     | Some temp \<Rightarrow>
         thenS (updateS (\<lambda>s. s\<lparr>es_inflight := None\<rparr>))
           (exceptS (thenS (mutating (RemoveTemp temp) (en_remove_owned_temp env temp)) (returnS None))
              is_exception (\<lambda>e. returnS (Some e))))"

section \<open>Guards\<close>

definition matches_expected :: "file_stat \<Rightarrow> file_stat \<Rightarrow> bool" where
  "matches_expected actual expected \<longleftrightarrow>
     st_kind actual = st_kind expected \<and> st_size actual = st_size expected
     \<and> st_mtime_ns actual = st_mtime_ns expected \<and> st_nlink actual = st_nlink expected
     \<and> st_metadata actual = st_metadata expected
     \<and> (st_identity expected = None \<or> st_identity actual = st_identity expected)"

definition matches_directory_cleanup :: "file_stat \<Rightarrow> file_stat \<Rightarrow> bool" where
  "matches_directory_cleanup actual expected \<longleftrightarrow>
     st_kind actual = DIRECTORY \<and> st_kind expected = DIRECTORY
     \<and> st_size actual = st_size expected \<and> st_metadata actual = st_metadata expected
     \<and> (st_identity expected = None \<or> st_identity actual = st_identity expected)"

definition same_file_version :: "file_stat \<Rightarrow> file_stat \<Rightarrow> bool" where
  "same_file_version actual expected \<longleftrightarrow>
     st_kind actual = st_kind expected \<and> st_size actual = st_size expected
     \<and> st_mtime_ns actual = st_mtime_ns expected
     \<and> (st_identity expected = None \<or> st_identity actual = st_identity expected)"

definition fs_stat :: "'w exec_env \<Rightarrow> path \<Rightarrow> pystr \<Rightarrow> ('w, file_stat option) exec" where
  "fs_stat env base rel = logged (SawStat base rel) (en_stat env base rel)"

definition fs_stat_path :: "'w exec_env \<Rightarrow> path \<Rightarrow> ('w, file_stat option) exec" where
  "fs_stat_path env p = logged (SawPath p) (en_stat_path env p)"

definition fs_resolve :: "'w exec_env \<Rightarrow> path \<Rightarrow> pystr \<Rightarrow> bool \<Rightarrow> ('w, path) exec" where
  "fs_resolve env base rel must_exist = logged (Resolved base rel) (en_resolve env base rel must_exist)"

definition guard_present ::
    "'w exec_env \<Rightarrow> path \<Rightarrow> pystr \<Rightarrow> file_stat \<Rightarrow> execution_reason \<Rightarrow> execution_reason \<Rightarrow>
     (file_stat \<Rightarrow> file_stat \<Rightarrow> bool) \<Rightarrow> ('w, file_stat) exec" where
  "guard_present env base rel expected missing drift matcher =
     bindS (exceptS (fs_stat env base rel) (\<lambda>e. ex_class e = X_UNSAFE_PATH)
              (\<lambda>e. raiseS (operation_failure E_UNSAFE_PATH (ex_text e) (Some e)))) (\<lambda>actual.
     case actual of
       None \<Rightarrow> fail_op missing (lit ''planned path is missing: '' @ rel)
     | Some st \<Rightarrow>
         if matcher st expected then returnS st
         else fail_op (if st_kind st \<noteq> st_kind expected then E_WRONG_TYPE else drift)
                (lit ''planned evidence drifted: '' @ rel))"

definition guard_path_stat ::
    "file_stat \<Rightarrow> file_stat \<Rightarrow> execution_reason \<Rightarrow> pystr \<Rightarrow> ('w, unit) exec" where
  "guard_path_stat actual expected reason msg =
     (if matches_expected actual expected then returnS ()
      else fail_op (if st_kind actual \<noteq> st_kind expected then E_WRONG_TYPE else reason) msg)"

definition guard_absent :: "'w exec_env \<Rightarrow> path \<Rightarrow> pystr \<Rightarrow> ('w, unit) exec" where
  "guard_absent env base rel =
     bindS (fs_stat env base rel) (\<lambda>actual.
     if actual \<noteq> None
     then fail_op E_DESTINATION_OCCUPIED (lit ''planned absent destination is occupied: '' @ rel)
     else returnS ())"

definition guard_expected_target :: "'w exec_env \<Rightarrow> path \<Rightarrow> plan_operation \<Rightarrow> ('w, unit) exec" where
  "guard_expected_target env target_root op =
     (case po_target_expected op of
        None \<Rightarrow> guard_absent env target_root (po_target op)
      | Some expected \<Rightarrow>
          thenS (guard_present env target_root (po_target op) expected E_TARGET_MISSING E_TARGET_DRIFT
                   matches_expected) (returnS ()))"

definition prior_target :: "plan_operation \<Rightarrow> ('w, pystr \<times> file_stat) exec" where
  "prior_target op =
     (case (po_prior_target op, po_prior_expected op) of
        (Some rel, Some st) \<Rightarrow> returnS (rel, st)
      | _ \<Rightarrow> fail_op E_TARGET_MISSING (lit ''move operation lacks prior-target evidence''))"

definition require_stat_path :: "'w exec_env \<Rightarrow> path \<Rightarrow> ('w, file_stat) exec" where
  "require_stat_path env p =
     bindS (fs_stat_path env p) (\<lambda>st.
     case st of
       None \<Rightarrow> fail_op E_IO_ERROR (lit ''filesystem result disappeared: '' @ path_str p)
     | Some st \<Rightarrow> returnS st)"

definition profiled_stat :: "file_stat \<Rightarrow> bool \<Rightarrow> file_stat" where
  "profiled_stat st has_identity =
     (if has_identity \<or> st_identity st = None then st else st\<lparr>st_identity := None\<rparr>)"

definition normalized_live_stat :: "file_stat \<Rightarrow> file_stat \<Rightarrow> file_stat" where
  "normalized_live_stat actual expected =
     (if st_identity expected = None \<and> st_identity actual \<noteq> None
      then actual\<lparr>st_identity := None\<rparr> else actual)"

definition copy_attestation :: "copy_digest \<Rightarrow> file_stat \<Rightarrow> datetime \<Rightarrow> attestation" where
  "copy_attestation digest subject now =
     \<lparr>at_content = \<lparr>ce_algorithm = lit ''sha256'', ce_digest = cd_digest digest, ce_size = cd_size digest,
        ce_provenance = COPY_ATTESTED, ce_observed_at = now\<rparr>,
      at_subject = subject\<rparr>"

definition attest_copy :: "'w exec_env \<Rightarrow> copy_digest \<Rightarrow> file_stat \<Rightarrow> ('w, attestation) exec" where
  "attest_copy env digest subject =
     bindS (world (en_now env)) (\<lambda>now.
     let a = copy_attestation digest subject now
     in thenS (pureS (content_evidence_post_init (at_content a))) (returnS a))"

definition record_evidence :: "'w exec_env \<Rightarrow> detail \<Rightarrow> record_command \<Rightarrow> ('w, detail) exec" where
  "record_evidence env detail command =
     exceptS (thenS (logged (\<lambda>_. Recorded command) (en_record env command)) (returnS detail))
       is_exception
       (\<lambda>e. thenS (updateS (\<lambda>s. s\<lparr>es_recording := REC_DEGRADED\<rparr>))
         (returnS (dict_set (lit ''recording_error'') (JStr (ex_type e @ lit '': '' @ ex_text e))
           (dict_set (lit ''recording'') (JStr (recording_status_value REC_DEGRADED)) detail))))"

definition recorder_flush :: "'w exec_env \<Rightarrow> ('w, unit) exec" where
  "recorder_flush env = logged (\<lambda>_. RecorderFlushed) (en_flush env)"

definition flush_before_destructive :: "'w exec_env \<Rightarrow> ('w, unit) exec" where
  "flush_before_destructive env =
     exceptS (recorder_flush env) is_exception
       (\<lambda>e. thenS (updateS (\<lambda>s. s\<lparr>es_recording := REC_DEGRADED\<rparr>))
         (raiseS (operation_failure E_RECORDER_FAILED
           (lit ''recorder flush failed before destructive operation'') (Some e))))"

text \<open>The flush that ends a run: a failure only degrades the recording status.\<close>

definition flush_at_end :: "'w exec_env \<Rightarrow> ('w, unit) exec" where
  "flush_at_end env =
     exceptS (recorder_flush env) is_exception (\<lambda>_. updateS (\<lambda>s. s\<lparr>es_recording := REC_DEGRADED\<rparr>))"

primrec flush_directories :: "'w exec_env \<Rightarrow> pystr list \<Rightarrow> path list \<Rightarrow> ('w, pystr list) exec" where
  "flush_directories env seen [] = returnS []"
| "flush_directories env seen (d # ds) =
     (if path_fold (en_lower env) d \<in> set seen then flush_directories env seen ds
      else bindS (exceptS (world (en_flush_directory env d)) is_exception (\<lambda>_. returnS False)) (\<lambda>flushed.
           bindS (flush_directories env (path_fold (en_lower env) d # seen) ds) (\<lambda>warnings.
           returnS (if flushed then warnings
                    else (lit ''parent directory flush unsupported: '' @ path_str d) # warnings))))"

definition durability_detail :: "'w exec_env \<Rightarrow> path list \<Rightarrow> ('w, detail) exec" where
  "durability_detail env directories =
     bindS (flush_directories env [] directories) (\<lambda>warnings.
     returnS (if warnings = [] then []
              else [(lit ''durability_warnings'', JList (map JStr warnings))]))"

end
