(* ===== verification/Executor.thy ===== *)
theory Executor
  imports Executor_State
begin

text \<open>
  The operations of the executor (\<^verbatim>\<open>modules/executor.py\<close>) and the run itself: the copy loop of the
  native backend, one definition per operation kind, deferred directories, the retry loop and
  \<open>execute\<close> with its handlers for cancellation, pause and unexpected exceptions.
\<close>

record 'w run_env =
  rn_runtime :: runtime
  rn_policies :: executor_policies
  rn_env :: "'w exec_env"

section \<open>The native copy backend\<close>

text \<open>\<^verbatim>\<open>while view: written = target.write(view)\<close>; every round takes at least one byte.\<close>

function write_all :: "'w exec_env \<Rightarrow> path \<Rightarrow> bytes \<Rightarrow> ('w, unit) exec" where
  "write_all env target view =
     (if view = [] then returnS ()
      else bindS (logged (\<lambda>r. Wrote target (case r of None \<Rightarrow> [] | Some n \<Rightarrow> take (nat n) view))
              (en_write env target view)) (\<lambda>written.
        case written of
          None \<Rightarrow> raiseS (simple_exn X_OS_ERROR ''OSError'' (lit ''copy backend made no forward write progress''))
        | Some n \<Rightarrow>
            (if n \<le> 0
             then raiseS (simple_exn X_OS_ERROR ''OSError'' (lit ''copy backend made no forward write progress''))
             else write_all env target (drop (nat n) view))))"
  by pat_completeness auto
termination by (relation "measure (\<lambda>(env, target, view). length view)") auto

declare write_all.simps [simp del]

primrec copy_chunks ::
    "'w run_env \<Rightarrow> path \<Rightarrow> (exception + bytes) list \<Rightarrow> bytes \<Rightarrow> ('w, copy_digest) exec" where
  "copy_chunks rn target [] data =
     thenS (world (en_checkpoint (rn_env rn)))
       (let digest = \<lparr>cd_digest = rt_sha256 (rn_runtime rn) data, cd_size = int (length data)\<rparr>
        in thenS (pureS (copy_digest_post_init digest)) (returnS digest))"
| "copy_chunks rn target (r # rs) data =
     thenS (world (en_checkpoint (rn_env rn)))
       (case r of
          Inl e \<Rightarrow> raiseS e
        | Inr chunk \<Rightarrow>
            (if chunk = []
             then let digest = \<lparr>cd_digest = rt_sha256 (rn_runtime rn) data, cd_size = int (length data)\<rparr>
                  in thenS (pureS (copy_digest_post_init digest)) (returnS digest)
             else thenS (write_all (rn_env rn) target chunk)
                    (thenS (progress_copied (rn_policies rn) (rn_env rn) (int (length chunk)))
                      (copy_chunks rn target rs (data @ chunk)))))"

text \<open>\<^verbatim>\<open>with fs.open_source(source) as reader, fs.create_temp(temp) as writer\<close>.\<close>

definition copy_streams :: "'w run_env \<Rightarrow> path \<Rightarrow> path \<Rightarrow> ('w, copy_digest) exec" where
  "copy_streams rn source temp =
     (let env = rn_env rn
      in bindS (world (en_open_source env source (ep_chunk_size (rn_policies rn)))) (\<lambda>reads.
         finallyS
           (thenS (mutating (CreateTemp temp) (en_create_temp env temp))
             (finallyS
               (bindS (copy_chunks rn temp reads []) (\<lambda>digest.
                 thenS (world (en_flush_file env temp)) (returnS digest)))
               (world (en_close env temp))))
           (world (en_close env source))))"

section \<open>Preparing a copy\<close>

definition preserve :: "execution_set \<Rightarrow> bool" where
  "preserve x = preserve_created (pl_preservation (xs_plan x))"

definition stable_identity :: "execution_set \<Rightarrow> bool" where
  "stable_identity x = stable_file_identity (pl_target_profile (xs_plan x))"

definition source_root_of :: "'w run_env \<Rightarrow> execution_set \<Rightarrow> path" where
  "source_root_of rn x = path_of (rt_upper (rn_runtime rn)) (root_path (pl_source_root (xs_plan x)))"

definition target_root_of :: "'w run_env \<Rightarrow> execution_set \<Rightarrow> path" where
  "target_root_of rn x = path_of (rt_upper (rn_runtime rn)) (root_path (pl_target_root (xs_plan x)))"

definition apply_metadata ::
    "'w exec_env \<Rightarrow> path \<Rightarrow> file_stat \<Rightarrow> bool \<Rightarrow> bool \<Rightarrow> ('w, unit) exec" where
  "apply_metadata env p st created readonly =
     mutating (ApplyMetadata p st created readonly) (en_apply_metadata env p st created readonly)"

text \<open>
  \<^verbatim>\<open>fs.owned_temp\<close> names the temporary; the log keeps the name it gave.
\<close>

definition owned_temp :: "'w exec_env \<Rightarrow> path \<Rightarrow> pystr \<Rightarrow> op_id \<Rightarrow> ('w, path) exec" where
  "owned_temp env target run_id op = logged (\<lambda>t. TempName t target op) (en_owned_temp env target run_id op)"

definition remove_stale_temp :: "'w exec_env \<Rightarrow> pystr \<Rightarrow> path \<Rightarrow> ('w, unit) exec" where
  "remove_stale_temp env msg temp =
     exceptS (mutating (RemoveTemp temp) (en_remove_owned_temp env temp)) is_exception
       (\<lambda>e. raiseS (operation_failure E_CLEANUP_FAILED (msg @ path_str temp) (Some e)))"

definition source_evidence :: "plan_operation \<Rightarrow> pystr \<Rightarrow> ('w, pystr \<times> file_stat) exec" where
  "source_evidence op msg =
     (case (po_source op, po_source_expected op) of
        (Some rel, Some st) \<Rightarrow> returnS (rel, st)
      | _ \<Rightarrow> fail_op E_SOURCE_MISSING msg)"

definition guard_source :: "'w run_env \<Rightarrow> execution_set \<Rightarrow> pystr \<Rightarrow> file_stat \<Rightarrow> ('w, file_stat) exec" where
  "guard_source rn x rel expected =
     guard_present (rn_env rn) (source_root_of rn x) rel expected E_SOURCE_MISSING E_SOURCE_DRIFT
       matches_expected"

definition guard_target :: "'w run_env \<Rightarrow> execution_set \<Rightarrow> pystr \<Rightarrow> file_stat \<Rightarrow> ('w, file_stat) exec" where
  "guard_target rn x rel expected =
     guard_present (rn_env rn) (target_root_of rn x) rel expected E_TARGET_MISSING E_TARGET_DRIFT
       matches_expected"

definition fill_temp ::
    "'w run_env \<Rightarrow> execution_set \<Rightarrow> plan_operation \<Rightarrow> pystr \<Rightarrow> file_stat \<Rightarrow> path \<Rightarrow> path \<Rightarrow> path \<Rightarrow>
     ('w, prepared_copy) exec" where
  "fill_temp rn x op rel expected source target temp =
     (let env = rn_env rn;
          intended = (case po_intended op of Some st \<Rightarrow> st | None \<Rightarrow> expected)
      in bindS (copy_streams rn source temp) (\<lambda>digest.
         if cd_size digest \<noteq> st_size expected
         then fail_op E_SOURCE_DRIFT (lit ''source byte count changed during copy'')
         else
           thenS (whenS (preserve_acl (pl_preservation (xs_plan x)))
             (exceptS (world (en_copy_security env source temp)) is_exception
               (\<lambda>e. raiseS (operation_failure E_ACL_COPY_FAILED
                 (lit ''security descriptor copy failed before publish'') (Some e)))))
           (thenS (apply_metadata env temp intended (preserve x) False)
           (thenS (world (en_flush_path env temp))
           (thenS (world (en_checkpoint env))
           (bindS (guard_source rn x rel expected) (\<lambda>_.
           (thenS (guard_expected_target env (target_root_of rn x) op)
             (returnS \<lparr>pc_source = source, pc_target_path = target, pc_temp = temp, pc_digest = digest,
                       pc_intended = intended\<rparr>)))))))))"

definition prepare_copy ::
    "'w run_env \<Rightarrow> execution_set \<Rightarrow> plan_operation \<Rightarrow> ('w, prepared_copy) exec" where
  "prepare_copy rn x op =
     (let env = rn_env rn
      in bindS (source_evidence op (lit ''copy operation has no source evidence'')) (\<lambda>(rel, expected).
         bindS (guard_source rn x rel expected) (\<lambda>_.
         thenS (guard_expected_target env (target_root_of rn x) op)
         (bindS (fs_resolve env (source_root_of rn x) rel True) (\<lambda>source.
         bindS (fs_resolve env (target_root_of rn x) (po_target op) False) (\<lambda>target.
         bindS (owned_temp env target (xs_run_id x) (po_op_id op)) (\<lambda>temp.
         thenS (remove_stale_temp env (lit ''cannot recover owned temp: '') temp)
         (thenS (updateS (\<lambda>s. s\<lparr>es_inflight := Some temp\<rparr>))
           (fill_temp rn x op rel expected source target temp)))))))))"

section \<open>Copy\<close>

definition publish_new :: "'w exec_env \<Rightarrow> pystr \<Rightarrow> prepared_copy \<Rightarrow> ('w, unit) exec" where
  "publish_new env msg p =
     thenS (exceptS
       (mutating (PublishNew (pc_temp p) (pc_target_path p))
         (en_publish_new env (pc_temp p) (pc_target_path p)))
       (\<lambda>e. ex_class e = X_FILE_EXISTS)
       (\<lambda>e. raiseS (operation_failure E_DESTINATION_OCCUPIED msg (Some e))))
     (updateS (\<lambda>s. s\<lparr>es_inflight := None\<rparr>))"

definition succeeded :: "detail \<Rightarrow> settled" where
  "succeeded d = \<lparr>sd_outcome = O_SUCCEEDED, sd_reason = None, sd_detail = d\<rparr>"

definition run_copy :: "'w run_env \<Rightarrow> execution_set \<Rightarrow> plan_operation \<Rightarrow> ('w, settled) exec" where
  "run_copy rn x op =
     (let env = rn_env rn
      in bindS (prepare_copy rn x op) (\<lambda>p.
         thenS (publish_new env (lit ''destination appeared before conditional publish'') p)
         (thenS (apply_metadata env (pc_target_path p) (pc_intended p) (preserve x) True)
         (bindS (durability_detail env [path_parent (pc_target_path p)]) (\<lambda>detail.
         bindS (require_stat_path env (pc_target_path p)) (\<lambda>st.
         bindS (attest_copy env (pc_digest p) (profiled_stat st (stable_identity x))) (\<lambda>a.
         bindS (record_evidence env detail (RecordCopied (po_op_id op) a)) (\<lambda>detail'.
         returnS (succeeded detail')))))))))"

section \<open>Update\<close>

definition set_continuation :: "op_id \<Rightarrow> continuation \<Rightarrow> ('w, unit) exec" where
  "set_continuation op c = updateS (\<lambda>s. s\<lparr>es_retry := (es_retry s)(op \<mapsto> c)\<rparr>)"

text \<open>The backup of the live target in the trash; what is caught is raised again once it is stored.\<close>

definition make_backup ::
    "'w run_env \<Rightarrow> execution_set \<Rightarrow> plan_operation \<Rightarrow> path \<Rightarrow> path \<Rightarrow> ('w, detail \<times> exception option) exec" where
  "make_backup rn x op target trash =
     (let env = rn_env rn; hard = supports_hardlinks (pl_target_profile (xs_plan x));
          detail = [(lit ''backup'', JStr (if hard then lit ''hardlink'' else lit ''copy''))]
      in exceptS
           (thenS
             (if hard then mutating (HardLink target trash) (en_hardlink env target trash)
              else bindS (owned_temp env trash (xs_run_id x) (po_op_id op)) (\<lambda>temp.
                thenS (remove_stale_temp env (lit ''cannot recover exact backup temp: '') temp)
                  (mutating (CopyBackup target temp trash) (en_copy_backup env target temp trash))))
             (returnS (detail, None)))
           (\<lambda>e. is_exception e \<and> \<not> is_signal e)
           (\<lambda>e. bindS (fs_stat_path env trash) (\<lambda>st.
              if st = None then raiseS e else returnS (detail, Some e))))"

definition begin_update ::
    "'w run_env \<Rightarrow> execution_set \<Rightarrow> plan_operation \<Rightarrow> file_stat \<Rightarrow> ('w, update_continuation) exec" where
  "begin_update rn x op target_expected =
     (let env = rn_env rn
      in bindS (prepare_copy rn x op) (\<lambda>p.
         bindS (guard_target rn x (po_target op) target_expected) (\<lambda>_.
         bindS (if pl_trash_on_update (xs_plan x)
                then bindS (logged (\<lambda>t. TrashName t (po_target op))
                        (en_trash_destination env (target_root_of rn x) (xs_run_id x) (po_target op))) (\<lambda>trash.
                     bindS (fs_stat_path env trash) (\<lambda>st.
                     if st \<noteq> None
                     then fail_op E_TRASH_COLLISION (lit ''update trash exists: '' @ path_str trash)
                     else bindS (make_backup rn x op (pc_target_path p) trash) (\<lambda>(detail, err).
                       returnS (Some trash, detail, err))))
                else returnS (None, [], None)) (\<lambda>(trash, detail, err).
         bindS (require_stat_path env (pc_temp p)) (\<lambda>prepared_stat.
         bindS (require_stat_path env (pc_target_path p)) (\<lambda>live_stat.
         bindS (case trash of None \<Rightarrow> returnS None
                | Some t \<Rightarrow> bindS (require_stat_path env t) (\<lambda>st. returnS (Some st))) (\<lambda>backup_stat.
         let c = \<lparr>uc_prepared = p, uc_prepared_stat = prepared_stat, uc_live_stat = live_stat,
                  uc_trash = trash, uc_backup_stat = backup_stat, uc_detail = detail,
                  uc_published = False\<rparr>
         in thenS (set_continuation (po_op_id op) (UpdateContinuation c))
              (case err of None \<Rightarrow> returnS c | Some e \<Rightarrow> raiseS e))))))))"

definition mark_published :: "op_id \<Rightarrow> update_continuation \<Rightarrow> ('w, update_continuation) exec" where
  "mark_published op c =
     thenS (updateS (\<lambda>s. s\<lparr>es_inflight := None\<rparr>))
       (thenS (set_continuation op (UpdateContinuation (c\<lparr>uc_published := True\<rparr>)))
         (returnS (c\<lparr>uc_published := True\<rparr>)))"

definition is_published :: "op_id \<Rightarrow> 'w exec_state \<Rightarrow> bool" where
  "is_published op s =
     (case es_retry s op of Some (UpdateContinuation c) \<Rightarrow> uc_published c | _ \<Rightarrow> False)"

definition has_readonly :: "file_stat \<Rightarrow> bool" where
  "has_readonly st \<longleftrightarrow> odd (attributes (st_metadata st))"

text \<open>The replacement of the live target, with the restoring of its attributes if it did not happen.\<close>

definition replace_live ::
    "'w run_env \<Rightarrow> execution_set \<Rightarrow> plan_operation \<Rightarrow> file_stat \<Rightarrow> update_continuation \<Rightarrow>
     ('w, update_continuation) exec" where
  "replace_live rn x op target_expected c =
     (let env = rn_env rn; target = pc_target_path (uc_prepared c); readonly = has_readonly target_expected
      in finallyS
           (thenS (whenS readonly (mutating (ClearReadonly target) (en_clear_readonly env target)))
           (thenS (flush_before_destructive env)
           (thenS (mutating (Replace (pc_temp (uc_prepared c)) target)
                    (en_replace env (pc_temp (uc_prepared c)) target))
             (mark_published (po_op_id op) c))))
           (bindS (fs_stat_path env target) (\<lambda>live.
            bindS (readS (is_published (po_op_id op))) (\<lambda>published.
              whenS (readonly \<and> \<not> published
                  \<and> (case live of None \<Rightarrow> False | Some st \<Rightarrow> same_file_version st (uc_live_stat c)))
                (apply_metadata env target target_expected (preserve x) True)))))"

definition publish_update ::
    "'w run_env \<Rightarrow> execution_set \<Rightarrow> plan_operation \<Rightarrow> file_stat \<Rightarrow> update_continuation \<Rightarrow>
     ('w, update_continuation) exec" where
  "publish_update rn x op target_expected c =
     (let env = rn_env rn; p = uc_prepared c
      in bindS (fs_stat_path env (pc_temp p)) (\<lambda>temp_stat.
         case temp_stat of
           None \<Rightarrow>
             bindS (require_stat_path env (pc_target_path p)) (\<lambda>published.
             if \<not> same_file_version published (uc_prepared_stat c)
             then fail_op E_TARGET_DRIFT
               (lit ''update temp disappeared without the prepared file being published'')
             else mark_published (po_op_id op) c)
         | Some temp_stat \<Rightarrow>
             bindS (source_evidence op (lit ''copy operation has no source evidence'')) (\<lambda>(rel, expected).
             bindS (guard_source rn x rel expected) (\<lambda>_.
             thenS (guard_path_stat temp_stat (uc_prepared_stat c) E_TARGET_DRIFT
               (lit ''prepared update temp drifted before retry''))
             (bindS (require_stat_path env (pc_target_path p)) (\<lambda>live.
             thenS (guard_path_stat live (uc_live_stat c) E_TARGET_DRIFT
               (lit ''live update target drifted after its backup was created''))
             (thenS (case (uc_trash c, uc_backup_stat c) of
                  (Some trash, Some expected_backup) \<Rightarrow>
                    bindS (require_stat_path env trash) (\<lambda>backup.
                      guard_path_stat backup expected_backup E_TRASH_COLLISION
                        (lit ''update backup drifted before retry''))
                | _ \<Rightarrow> returnS ())
             (replace_live rn x op target_expected c))))))))"

definition finish_update ::
    "'w run_env \<Rightarrow> execution_set \<Rightarrow> plan_operation \<Rightarrow> file_stat \<Rightarrow> update_continuation \<Rightarrow>
     ('w, settled) exec" where
  "finish_update rn x op target_expected c =
     (let env = rn_env rn; p = uc_prepared c
      in thenS (case uc_trash c of None \<Rightarrow> returnS ()
             | Some trash \<Rightarrow> apply_metadata env trash target_expected (preserve x) True)
         (thenS (apply_metadata env (pc_target_path p) (pc_intended p) (preserve x) True)
         (bindS (durability_detail env (path_parent (pc_target_path p)
              # (case uc_trash c of None \<Rightarrow> [] | Some trash \<Rightarrow> [path_parent trash]))) (\<lambda>warnings.
         let detail = foldl (\<lambda>d kv. dict_set (fst kv) (snd kv) d) (uc_detail c) warnings
         in thenS (set_continuation (po_op_id op) (UpdateContinuation (c\<lparr>uc_detail := detail\<rparr>)))
           (bindS (require_stat_path env (pc_target_path p)) (\<lambda>st.
            bindS (attest_copy env (pc_digest p) (profiled_stat st (stable_identity x))) (\<lambda>a.
            bindS (record_evidence env detail (RecordUpdated (po_op_id op) a)) (\<lambda>detail'.
            returnS (succeeded detail')))))))))"

definition run_update :: "'w run_env \<Rightarrow> execution_set \<Rightarrow> plan_operation \<Rightarrow> ('w, settled) exec" where
  "run_update rn x op =
     (case po_target_expected op of
        None \<Rightarrow> fail_op E_TARGET_MISSING (lit ''update has no displaced target evidence'')
      | Some target_expected \<Rightarrow>
          bindS (readS (\<lambda>s. es_retry s (po_op_id op))) (\<lambda>existing.
          bindS (case existing of
                   None \<Rightarrow> begin_update rn x op target_expected
                 | Some (UpdateContinuation c) \<Rightarrow> returnS c
                 | Some (MoveUpdateContinuation _) \<Rightarrow> raiseS (simple_exn X_OTHER ''RuntimeError''
                     (lit ''executor continuation kind does not match update''))) (\<lambda>c.
          bindS (if uc_published c then returnS c else publish_update rn x op target_expected c) (\<lambda>c'.
            finish_update rn x op target_expected c'))))"

section \<open>Move, recase, move-update\<close>

text \<open>
  \<open>rename_new\<close> with the flush that precedes every destructive step; \<open>occupied\<close> and \<open>msg\<close> are the
  failure when the destination exists.
\<close>

definition guarded_rename ::
    "'w exec_env \<Rightarrow> execution_reason \<Rightarrow> pystr \<Rightarrow> path \<Rightarrow> path \<Rightarrow> ('w, unit) exec" where
  "guarded_rename env occupied msg old new =
     thenS (flush_before_destructive env)
       (exceptS (mutating (RenameNew old new) (en_rename_new env old new))
          (\<lambda>e. ex_class e = X_FILE_EXISTS)
          (\<lambda>e. raiseS (operation_failure occupied msg (Some e))))"

definition run_move :: "'w run_env \<Rightarrow> execution_set \<Rightarrow> plan_operation \<Rightarrow> ('w, settled) exec" where
  "run_move rn x op =
     (let env = rn_env rn
      in bindS (prior_target op) (\<lambda>(old_rel, old_expected).
         bindS (guard_target rn x old_rel old_expected) (\<lambda>_.
         thenS (guard_absent env (target_root_of rn x) (po_target op))
         (bindS (fs_resolve env (target_root_of rn x) old_rel True) (\<lambda>old.
         bindS (fs_resolve env (target_root_of rn x) (po_target op) False) (\<lambda>new.
         thenS (guarded_rename env E_DESTINATION_OCCUPIED
           (lit ''move destination appeared before conditional rename'') old new)
         (bindS (durability_detail env [path_parent old, path_parent new]) (\<lambda>detail.
         bindS (require_stat_path env new) (\<lambda>st.
         bindS (record_evidence env detail
           (RecordMoved (po_op_id op) (profiled_stat st (stable_identity x)))) (\<lambda>detail'.
         returnS (succeeded detail')))))))))))"

definition run_recase :: "'w run_env \<Rightarrow> execution_set \<Rightarrow> plan_operation \<Rightarrow> ('w, settled) exec" where
  "run_recase rn x op =
     (let env = rn_env rn; up = rt_upper (rn_runtime rn)
      in bindS (prior_target op) (\<lambda>(old_rel, old_expected).
         bindS (source_evidence op (lit ''recase operation lacks source evidence'')) (\<lambda>(rel, expected).
         bindS (if old_rel = po_target op then returnS True
                else bindS (pureS (normalize_relative_path up False old_rel)) (\<lambda>old_key.
                     bindS (pureS (normalize_relative_path up False (po_target op))) (\<lambda>new_key.
                     returnS (old_key \<noteq> new_key)))) (\<lambda>bad.
         thenS (whenS bad (fail_op E_UNSAFE_PATH
           (lit ''recase paths must differ only by Windows filename casing'')))
         (bindS (guard_source rn x rel expected) (\<lambda>_.
         bindS (guard_target rn x old_rel old_expected) (\<lambda>_.
         bindS (fs_resolve env (target_root_of rn x) old_rel True) (\<lambda>old.
         bindS (fs_resolve env (target_root_of rn x) (po_target op) False) (\<lambda>new.
         thenS (guarded_rename env E_DESTINATION_OCCUPIED
           (lit ''recase destination is a distinct occupied entry'') old new)
         (bindS (durability_detail env [path_parent old, path_parent new]) (\<lambda>detail.
         bindS (require_stat_path env new) (\<lambda>st.
         bindS (record_evidence env detail
           (RecordRecased (po_op_id op) (profiled_stat st (stable_identity x)))) (\<lambda>detail'.
         returnS (succeeded detail'))))))))))))))"

definition begin_move_update ::
    "'w run_env \<Rightarrow> execution_set \<Rightarrow> plan_operation \<Rightarrow> ('w, move_update_continuation) exec" where
  "begin_move_update rn x op =
     (let env = rn_env rn
      in bindS (prior_target op) (\<lambda>(old_rel, old_expected).
         bindS (guard_target rn x old_rel old_expected) (\<lambda>_.
         bindS (prepare_copy rn x op) (\<lambda>p.
         thenS (publish_new env (lit ''move-update destination appeared before conditional publish'') p)
         (bindS (require_stat_path env (pc_target_path p)) (\<lambda>st.
         let c = \<lparr>mc_prepared = p, mc_old_rel = old_rel, mc_old_expected = old_expected,
                  mc_published_stat = st, mc_trash = None, mc_attestation = None\<rparr>
         in thenS (set_continuation (po_op_id op) (MoveUpdateContinuation c)) (returnS c)))))))"

definition move_update_attestation ::
    "'w run_env \<Rightarrow> execution_set \<Rightarrow> plan_operation \<Rightarrow> move_update_continuation \<Rightarrow>
     ('w, attestation \<times> move_update_continuation) exec" where
  "move_update_attestation rn x op c =
     (case mc_attestation c of
        Some a \<Rightarrow> returnS (a, c)
      | None \<Rightarrow>
          bindS (require_stat_path (rn_env rn) (pc_target_path (mc_prepared c))) (\<lambda>st.
          bindS (attest_copy (rn_env rn) (pc_digest (mc_prepared c))
                   (profiled_stat st (stable_identity x))) (\<lambda>a.
          let c' = c\<lparr>mc_attestation := Some a\<rparr>
          in thenS (set_continuation (po_op_id op) (MoveUpdateContinuation c')) (returnS (a, c')))))"

definition move_update_trash ::
    "'w run_env \<Rightarrow> execution_set \<Rightarrow> plan_operation \<Rightarrow> move_update_continuation \<Rightarrow> ('w, path) exec" where
  "move_update_trash rn x op c =
     (case mc_trash c of
        Some t \<Rightarrow> returnS t
      | None \<Rightarrow>
          bindS (logged (\<lambda>t. TrashName t (mc_old_rel c))
                  (en_trash_destination (rn_env rn) (target_root_of rn x) (xs_run_id x) (mc_old_rel c))) (\<lambda>t.
          thenS (set_continuation (po_op_id op) (MoveUpdateContinuation (c\<lparr>mc_trash := Some t\<rparr>)))
            (returnS t)))"

text \<open>The old path goes to the trash, unless an earlier attempt already moved it there.\<close>

definition retire_old ::
    "'w run_env \<Rightarrow> execution_set \<Rightarrow> move_update_continuation \<Rightarrow> path \<Rightarrow> path \<Rightarrow> ('w, unit) exec" where
  "retire_old rn x c old trash =
     (let env = rn_env rn
      in bindS (fs_stat env (target_root_of rn x) (mc_old_rel c)) (\<lambda>old_actual.
         bindS (fs_stat_path env trash) (\<lambda>trash_actual.
         case old_actual of
           None \<Rightarrow>
             (if (case trash_actual of None \<Rightarrow> True | Some t \<Rightarrow> \<not> matches_expected t (mc_old_expected c))
              then fail_op E_TARGET_MISSING
                (lit ''move-update old path vanished without reaching owned trash'')
              else returnS ())
         | Some actual \<Rightarrow>
             thenS (guard_path_stat actual (mc_old_expected c) E_TARGET_DRIFT
               (lit ''move-update old path drifted before trash''))
             (if trash_actual \<noteq> None
              then fail_op E_TRASH_COLLISION (lit ''move-update trash exists: '' @ path_str trash)
              else guarded_rename env E_TRASH_COLLISION
                (lit ''move-update trash destination appeared before conditional rename'') old trash))))"

definition run_move_update :: "'w run_env \<Rightarrow> execution_set \<Rightarrow> plan_operation \<Rightarrow> ('w, settled) exec" where
  "run_move_update rn x op =
     (let env = rn_env rn
      in bindS (readS (\<lambda>s. es_retry s (po_op_id op))) (\<lambda>existing.
         bindS (case existing of
                  None \<Rightarrow> begin_move_update rn x op
                | Some (MoveUpdateContinuation c) \<Rightarrow> returnS c
                | Some (UpdateContinuation _) \<Rightarrow> raiseS (simple_exn X_OTHER ''RuntimeError''
                    (lit ''executor continuation kind does not match move-update''))) (\<lambda>c.
         bindS (require_stat_path env (pc_target_path (mc_prepared c))) (\<lambda>actual.
         if \<not> same_file_version actual (mc_published_stat c)
         then fail_op E_TARGET_DRIFT (lit ''published move-update target drifted before completion'')
         else
           thenS (apply_metadata env (pc_target_path (mc_prepared c)) (pc_intended (mc_prepared c))
             (preserve x) True)
           (bindS (move_update_attestation rn x op c) (\<lambda>(a, c').
            bindS (move_update_trash rn x op c') (\<lambda>trash.
            bindS (fs_resolve env (target_root_of rn x) (mc_old_rel c') False) (\<lambda>old.
            thenS (retire_old rn x c' old trash)
            (bindS (durability_detail env
               [path_parent (pc_target_path (mc_prepared c)), path_parent old, path_parent trash]) (\<lambda>detail.
            bindS (record_evidence env detail (RecordMoveUpdated (po_op_id op) a)) (\<lambda>detail'.
            returnS (succeeded detail'))))))))))))"

section \<open>Trash, delete, no-op\<close>

definition run_trash :: "'w run_env \<Rightarrow> execution_set \<Rightarrow> plan_operation \<Rightarrow> ('w, settled) exec" where
  "run_trash rn x op =
     (let env = rn_env rn; base = target_root_of rn x
      in case po_target_expected op of
           None \<Rightarrow> fail_op E_TARGET_MISSING (lit ''trash operation has no target evidence'')
         | Some expected \<Rightarrow>
             bindS (guard_target rn x (po_target op) expected) (\<lambda>_.
             bindS (fs_resolve env base (po_target op) True) (\<lambda>source.
             bindS (logged (\<lambda>t. TrashName t (po_target op))
                     (en_trash_destination env base (xs_run_id x) (po_target op))) (\<lambda>trash.
             bindS (fs_stat_path env trash) (\<lambda>st.
             if st \<noteq> None
             then fail_op E_TRASH_COLLISION (lit ''trash destination exists: '' @ path_str trash)
             else
               thenS (guarded_rename env E_TRASH_COLLISION
                 (lit ''trash destination appeared before conditional rename'') source trash)
               (bindS (durability_detail env [path_parent source, path_parent trash]) (\<lambda>detail.
                bindS (require_stat_path env trash) (\<lambda>moved.
                bindS (pureS (path_relative_to (en_lower env) trash base)) (\<lambda>rel.
                bindS (record_evidence env detail (RecordTrashed (po_op_id op) (path_str rel)
                         (profiled_stat moved (stable_identity x)))) (\<lambda>detail'.
                returnS (succeeded detail')))))))))))"

definition remove_target ::
    "'w exec_env \<Rightarrow> path \<Rightarrow> file_stat \<Rightarrow> ('w, bool) exec" where
  "remove_target env target expected =
     thenS (whenS (has_readonly expected) (mutating (ClearReadonly target) (en_clear_readonly env target)))
     (thenS (if st_kind expected = DIRECTORY
             then mutating (RemoveDirectory target) (en_remove_directory env target)
             else mutating (RemoveFile target) (en_remove_file env target))
       (returnS True))"

definition restore_attributes :: "'w exec_env \<Rightarrow> path \<Rightarrow> file_stat \<Rightarrow> ('w, unit) exec" where
  "restore_attributes env target expected =
     whenS (has_readonly expected)
       (bindS (fs_stat_path env target) (\<lambda>st.
         whenS (st \<noteq> None) (apply_metadata env target expected True True)))"

text \<open>
  The \<^verbatim>\<open>finally\<close> block of the source acts only when the removal did not complete, that is, on the
  exceptional path.
\<close>

definition run_delete :: "'w run_env \<Rightarrow> execution_set \<Rightarrow> plan_operation \<Rightarrow> ('w, settled) exec" where
  "run_delete rn x op =
     (let env = rn_env rn; base = target_root_of rn x
      in case po_target_expected op of
           None \<Rightarrow> fail_op E_TARGET_MISSING (lit ''delete operation has no target evidence'')
         | Some expected \<Rightarrow>
             (let cleanup = (st_kind expected = DIRECTORY \<and> po_reason op = R_DIRECTORY_CLEANUP)
              in bindS (guard_present env base (po_target op) expected E_TARGET_MISSING E_TARGET_DRIFT
                   (if cleanup then matches_directory_cleanup else matches_expected)) (\<lambda>_.
                 bindS (fs_resolve env base (po_target op) True) (\<lambda>target.
                 thenS (flush_before_destructive env)
                 (bindS (exceptS (remove_target env target expected) (\<lambda>_. True)
                      (\<lambda>e. thenS (restore_attributes env target expected) (raiseS e))) (\<lambda>_.
                 bindS (durability_detail env [path_parent target]) (\<lambda>detail.
                 bindS (record_evidence env detail (RecordDeleted (po_op_id op) expected)) (\<lambda>detail'.
                 returnS (succeeded detail')))))))))"

definition run_noop :: "'w run_env \<Rightarrow> execution_set \<Rightarrow> plan_operation \<Rightarrow> ('w, settled) exec" where
  "run_noop rn x op =
     (case (po_source op, po_source_expected op, po_target_expected op) of
        (Some rel, Some expected, Some target_expected) \<Rightarrow>
          bindS (guard_source rn x rel expected) (\<lambda>source.
          bindS (guard_target rn x (po_target op) target_expected) (\<lambda>target.
          bindS (record_evidence (rn_env rn) [] (RecordNoop (po_op_id op)
                   (normalized_live_stat source expected)
                   (normalized_live_stat target target_expected))) (\<lambda>detail.
          returnS \<lparr>sd_outcome = O_SKIPPED, sd_reason = Some E_NOOP, sd_detail = detail\<rparr>)))
      | _ \<Rightarrow> fail_op E_SOURCE_DRIFT (lit ''noop lacks matching two-sided evidence''))"

definition execute_operation :: "'w run_env \<Rightarrow> execution_set \<Rightarrow> plan_operation \<Rightarrow> ('w, settled) exec" where
  "execute_operation rn x op =
     (case po_kind op of
        COPY \<Rightarrow> run_copy rn x op
      | UPDATE \<Rightarrow> run_update rn x op
      | MOVE \<Rightarrow> run_move rn x op
      | RECASE \<Rightarrow> run_recase rn x op
      | MOVE_UPDATE \<Rightarrow> run_move_update rn x op
      | TRASH \<Rightarrow> run_trash rn x op
      | DELETE \<Rightarrow> run_delete rn x op
      | NOOP \<Rightarrow> run_noop rn x op
      | MKDIR \<Rightarrow> fail_op E_IO_ERROR (lit ''unsupported operation kind: mkdir''))"

section \<open>Directories\<close>

text \<open>
  A directory is created in plan order and settled at the end of the run, deepest first, when its
  metadata can be applied without being disturbed by its children.
\<close>

definition start_directory :: "'w run_env \<Rightarrow> execution_set \<Rightarrow> plan_operation \<Rightarrow> ('w, unit) exec" where
  "start_directory rn x op =
     (let env = rn_env rn
      in thenS (guard_absent env (target_root_of rn x) (po_target op))
         (bindS (fs_resolve env (target_root_of rn x) (po_target op) False) (\<lambda>target.
          thenS (exceptS (mutating (MkdirNew target) (en_mkdir_new env target))
             (\<lambda>e. ex_class e = X_FILE_EXISTS)
             (\<lambda>e. raiseS (operation_failure E_DESTINATION_OCCUPIED
               (lit ''directory appeared before conditional create'') (Some e))))
          (updateS (\<lambda>s. s\<lparr>es_pending_dirs := es_pending_dirs s @ [op],
                          es_ready_dirs := insert (po_op_id op) (es_ready_dirs s)\<rparr>)))))"

definition intended_stat :: "plan_operation \<Rightarrow> file_stat option" where
  "intended_stat op = (case po_intended op of Some st \<Rightarrow> Some st | None \<Rightarrow> po_source_expected op)"

definition directory_metadata ::
    "'w run_env \<Rightarrow> execution_set \<Rightarrow> plan_operation \<Rightarrow> file_stat \<Rightarrow> ('w, path) exec" where
  "directory_metadata rn x op intended =
     bindS (fs_resolve (rn_env rn) (target_root_of rn x) (po_target op) True) (\<lambda>target.
     thenS (apply_metadata (rn_env rn) target intended (preserve x) True) (returnS target))"

definition complete_directory :: "'w run_env \<Rightarrow> execution_set \<Rightarrow> plan_operation \<Rightarrow> ('w, unit) exec" where
  "complete_directory rn x op =
     (let env = rn_env rn
      in case intended_stat op of
           None \<Rightarrow> fail_op E_WRONG_TYPE (lit ''mkdir operation lacks intended directory metadata'')
         | Some intended \<Rightarrow>
             (if st_kind intended \<noteq> DIRECTORY
              then fail_op E_WRONG_TYPE (lit ''mkdir operation lacks intended directory metadata'')
              else
                bindS (directory_metadata rn x op intended) (\<lambda>target.
                bindS (durability_detail env [path_parent target]) (\<lambda>detail.
                bindS (require_stat_path env target) (\<lambda>st.
                bindS (record_evidence env detail
                  (RecordMkdir (po_op_id op) (profiled_stat st (stable_identity x)))) (\<lambda>detail'.
                settle (rn_policies rn) env op (succeeded detail')))))))"

definition finalize_directory :: "'w run_env \<Rightarrow> execution_set \<Rightarrow> plan_operation \<Rightarrow> ('w, unit) exec" where
  "finalize_directory rn x op =
     finallyS
       (exceptS (complete_directory rn x op) (\<lambda>e. is_exception e \<and> \<not> is_signal e)
          (settle_failure (rn_policies rn) (rn_env rn) op))
       (updateS (\<lambda>s. s\<lparr>es_ready_dirs := es_ready_dirs s - {po_op_id op}\<rparr>))"

definition finalize_directories :: "'w run_env \<Rightarrow> execution_set \<Rightarrow> ('w, unit) exec" where
  "finalize_directories rn x =
     bindS (readS (\<lambda>s. sort_key (\<lambda>op. - int (length (win_parts (po_target op)))) (es_pending_dirs s)))
       (\<lambda>pending.
        thenS (updateS (\<lambda>s. s\<lparr>es_pending_dirs := []\<rparr>)) (forS pending (finalize_directory rn x)))"

definition restore_directory :: "'w run_env \<Rightarrow> execution_set \<Rightarrow> plan_operation \<Rightarrow> ('w, unit) exec" where
  "restore_directory rn x op =
     bindS (readS es_restore_dirs) (\<lambda>restore.
     if po_kind op \<noteq> MKDIR \<or> po_op_id op \<notin> xs_selection x \<or> po_op_id op \<notin> restore then returnS ()
     else case intended_stat op of
            None \<Rightarrow> returnS ()
          | Some intended \<Rightarrow>
              exceptS (thenS (directory_metadata rn x op intended) (returnS ())) is_exception
                (\<lambda>_. updateS (\<lambda>s. s\<lparr>es_fs_failed := True\<rparr>)))"

definition restore_completed_directory_metadata ::
    "'w run_env \<Rightarrow> execution_set \<Rightarrow> ('w, unit) exec" where
  "restore_completed_directory_metadata rn x =
     forS (rev (pl_operations (xs_plan x))) (restore_directory rn x)"

section \<open>The run\<close>

definition dependencies_succeeded :: "'w exec_state \<Rightarrow> plan_operation \<Rightarrow> bool" where
  "dependencies_succeeded s op \<longleftrightarrow>
     (\<forall>d \<in> set (po_dependencies op).
        xs_status (es_xset s) d = Some O_SUCCEEDED \<or> d \<in> es_ready_dirs s)"

definition pop_continuation :: "op_id \<Rightarrow> ('w, unit) exec" where
  "pop_continuation op = updateS (\<lambda>s. s\<lparr>es_retry := (es_retry s)(op := None)\<rparr>)"

text \<open>
  What follows a failed attempt when it is not retried: the owned temporary is removed, the failure
  is settled, and a \<open>Stop\<close> decision is kept for the operations that follow.
\<close>

definition give_up ::
    "'w run_env \<Rightarrow> plan_operation \<Rightarrow> exception \<Rightarrow> failure_decision \<Rightarrow> ('w, unit) exec" where
  "give_up rn op e decision =
     bindS (cleanup_inflight (rn_env rn)) (\<lambda>cleanup_error.
     thenS (pop_continuation (po_op_id op))
     (thenS (settle_failure (rn_policies rn) (rn_env rn) op
        (case cleanup_error of
           None \<Rightarrow> e
         | Some ce \<Rightarrow> operation_failure E_CLEANUP_FAILED
             (lit ''operation failed and its owned temp could not be removed: '' @ ex_text ce) None))
       (whenS (decision = Stop) (updateS (\<lambda>s. s\<lparr>es_stop := True\<rparr>)))))"

definition before_retry :: "'w run_env \<Rightarrow> plan_operation \<Rightarrow> real \<Rightarrow> ('w, unit) exec" where
  "before_retry rn op delay =
     bindS (readS (\<lambda>s. es_retry s (po_op_id op))) (\<lambda>continuation.
     thenS (whenS (continuation = None) (thenS (cleanup_inflight (rn_env rn)) (returnS ())))
     (thenS (world (en_checkpoint (rn_env rn)))
     (thenS (mutating (Slept delay) (en_sleep (rn_env rn) delay))
       (world (en_checkpoint (rn_env rn))))))"

text \<open>The \<^verbatim>\<open>while True\<close> loop over the attempts; it goes round only while \<open>n \<le> max_retries\<close>.\<close>

function run_attempts :: "'w run_env \<Rightarrow> execution_set \<Rightarrow> plan_operation \<Rightarrow> int \<Rightarrow> ('w, unit) exec" where
  "run_attempts rn x op n =
     tryElseS (execute_operation rn x op) (\<lambda>e. is_exception e \<and> \<not> is_signal e)
       (\<lambda>e. bindS (world (en_on_item_failed (rn_env rn) op e n)) (\<lambda>decision.
         case decision of
           Retry delay \<Rightarrow>
             (if n \<le> ep_max_retries (rn_policies rn)
              then bindS (before_retry rn op delay) (\<lambda>_. run_attempts rn x op (n + 1))
              else give_up rn op e decision)
         | _ \<Rightarrow> give_up rn op e decision))
       (\<lambda>sd. thenS (pop_continuation (po_op_id op)) (settle (rn_policies rn) (rn_env rn) op sd))"
  by pat_completeness auto
termination by (relation "measure (\<lambda>(rn, x, op, n). nat (ep_max_retries (rn_policies rn) + 1 - n))") auto

declare run_attempts.simps [simp del]

text \<open>The branches of the loop body; \<open>stop\<close> and \<open>ready\<close> are its tests on the state.\<close>

definition settle_or_run ::
    "'w run_env \<Rightarrow> execution_set \<Rightarrow> plan_operation \<Rightarrow> bool \<Rightarrow> bool \<Rightarrow> ('w, unit) exec" where
  "settle_or_run rn x op stop ready =
     (let pol = rn_policies rn; env = rn_env rn
      in if stop
         then settle pol env op \<lparr>sd_outcome = O_CANCELED, sd_reason = Some E_POLICY_STOP, sd_detail = []\<rparr>
         else case po_blocked_reason op of
           None \<Rightarrow>
            (if \<not> ready
             then settle pol env op
               \<lparr>sd_outcome = O_DEFERRED, sd_reason = Some E_DEPENDENCY_FAILED, sd_detail = []\<rparr>
             else if po_kind op = MKDIR
             then exceptS (start_directory rn x op) (\<lambda>e. is_exception e \<and> \<not> is_signal e)
                    (settle_failure pol env op)
             else run_attempts rn x op 1)
         | Some r \<Rightarrow> settle pol env op
             \<lparr>sd_outcome = O_FAILED, sd_reason = Some E_BLOCKED,
              sd_detail = [(lit ''blocked_reason'', JStr (blocked_reason_value r))]\<rparr>)"

definition execute_one :: "'w run_env \<Rightarrow> execution_set \<Rightarrow> plan_operation \<Rightarrow> ('w, unit) exec" where
  "execute_one rn x op =
     bindS (readS (\<lambda>s. xs_status (es_xset s) (po_op_id op))) (\<lambda>status.
     if po_op_id op \<notin> xs_selection x \<or> status \<noteq> None then returnS ()
     else thenS (updateS (\<lambda>s. s\<lparr>es_current := Some op\<rparr>))
       (thenS (world (en_checkpoint (rn_env rn)))
       (thenS (progress_start (rn_policies rn) (rn_env rn) op)
       (bindS (readS es_stop) (\<lambda>stop.
        bindS (readS (\<lambda>s. dependencies_succeeded s op)) (\<lambda>ready.
          settle_or_run rn x op stop ready))))))"

definition run_operations :: "'w run_env \<Rightarrow> execution_set \<Rightarrow> ('w, unit) exec" where
  "run_operations rn x =
     thenS (forS (pl_operations (xs_plan x)) (execute_one rn x))
     (thenS (finalize_directories rn x)
     (thenS (restore_completed_directory_metadata rn x)
       (flush_at_end (rn_env rn))))"

definition cancel_remaining ::
    "'w run_env \<Rightarrow> execution_set \<Rightarrow> exception option \<Rightarrow> plan_operation \<Rightarrow> ('w, unit) exec" where
  "cancel_remaining rn x cleanup_error op =
     bindS (readS (\<lambda>s. xs_status (es_xset s) (po_op_id op))) (\<lambda>status.
     bindS (readS es_current) (\<lambda>current.
     whenS (po_op_id op \<in> xs_selection x \<and> status = None)
       (settle (rn_policies rn) (rn_env rn) op
         \<lparr>sd_outcome = O_CANCELED, sd_reason = Some E_CANCELED,
          sd_detail = (case cleanup_error of
              Some ce \<Rightarrow> (if current = Some op then [(lit ''cleanup_error'', JStr (ex_text ce))] else [])
            | None \<Rightarrow> [])\<rparr>)))"

definition on_canceled :: "'w run_env \<Rightarrow> execution_set \<Rightarrow> ('w, unit) exec" where
  "on_canceled rn x =
     bindS (cleanup_inflight (rn_env rn)) (\<lambda>cleanup_error.
     thenS (finalize_directories rn x)
     (thenS (forS (pl_operations (xs_plan x)) (cancel_remaining rn x cleanup_error))
       (flush_at_end (rn_env rn))))"

definition on_paused :: "'w run_env \<Rightarrow> execution_set \<Rightarrow> ('w, unit) exec" where
  "on_paused rn x =
     thenS (thenS (cleanup_inflight (rn_env rn)) (finalize_directories rn x))
     (thenS (restore_completed_directory_metadata rn x)
       (flush_at_end (rn_env rn)))"

definition on_crash :: "'w run_env \<Rightarrow> ('w, unit) exec" where
  "on_crash rn = thenS (cleanup_inflight (rn_env rn)) (flush_at_end (rn_env rn))"

definition guarded_run :: "'w run_env \<Rightarrow> execution_set \<Rightarrow> ('w, unit) exec" where
  "guarded_run rn x =
     exceptS (run_operations rn x) (\<lambda>_. True)
       (\<lambda>e. thenS
         (if ex_class e = X_CANCELED then on_canceled rn x
          else if ex_class e = X_PAUSE then on_paused rn x
          else on_crash rn)
         (raiseS e))"

definition previously_settled :: "plan_operation \<Rightarrow> outcome \<Rightarrow> item_outcome" where
  "previously_settled op out =
     \<lparr>io_item_id = po_op_id op, io_kind = operation_kind_value (po_kind op), io_path = po_target op,
      io_outcome = out, io_reason = Some (lit ''previously-settled''),
      io_detail = [(lit ''continued'', JBool True)]\<rparr>"

definition reported_outcome :: "'w exec_state \<Rightarrow> plan_operation \<Rightarrow> item_outcome res" where
  "reported_outcome s op =
     (case es_outcomes s (po_op_id op) of
        Some i \<Rightarrow> Inr i
      | None \<Rightarrow>
          (case xs_status (es_xset s) (po_op_id op) of
             None \<Rightarrow> Inl KeyError
           | Some out \<Rightarrow> Inr (previously_settled op out)))"

text \<open>
  \<^verbatim>\<open>xset.status.values()\<close> is enumerated along the operations of the plan: the constructor of the
  execution set and \<open>settle\<close> let only operations of the plan have a status.
\<close>

definition run_failed :: "execution_set \<Rightarrow> 'w exec_state \<Rightarrow> bool" where
  "run_failed x s \<longleftrightarrow>
     es_fs_failed s
     \<or> (\<exists>op \<in> set (pl_operations (xs_plan x)).
          xs_status (es_xset s) (po_op_id op) \<in> {Some O_FAILED, Some O_CANCELED, Some O_DEFERRED})"

definition run_result :: "execution_set \<Rightarrow> 'w exec_state \<Rightarrow> item_outcome list \<Rightarrow> operation_result" where
  "run_result x s items =
     \<lparr>or_status = (if run_failed x s then ST_FAILED else ST_COMPLETED),
      or_recording = es_recording s, or_audit = REC_OK, or_disposition = RAN, or_canceled = False,
      or_operations = items, or_bytes_done = min (tr_bytes_done (es_tracker s)) (tr_bytes_total (es_tracker s)),
      or_bytes_total = tr_bytes_total (es_tracker s), or_error = None\<rparr>"

definition exec_start :: "execution_set \<Rightarrow> 'w \<Rightarrow> 'w exec_state" where
  "exec_start x w =
     \<lparr>es_xset = x, es_outcomes = Map.empty, es_recording = REC_OK, es_inflight = None,
      es_pending_dirs = [], es_ready_dirs = {},
      es_restore_dirs = set (map po_op_id
        (filter (\<lambda>op. po_kind op = MKDIR \<and> xs_status x (po_op_id op) = Some O_SUCCEEDED)
          (pl_operations (xs_plan x)))),
      es_retry = Map.empty, es_fs_failed = False, es_tracker = tracker_init x, es_stop = False,
      es_current = None, es_log = [], es_world = w\<rparr>"

definition execute_body :: "'w run_env \<Rightarrow> execution_set \<Rightarrow> ('w, operation_result) exec" where
  "execute_body rn x =
     thenS (emit_body (rn_env rn) (PhaseChanged (lit ''execute'')))
     (thenS (progress_emit (rn_policies rn) (rn_env rn) True)
     (thenS (guarded_run rn x)
     (bindS (readS (\<lambda>s. mapE (reported_outcome s)
        (filter (\<lambda>op. po_op_id op \<in> xs_selection x) (pl_operations (xs_plan x))))) (\<lambda>items.
      bindS (pureS items) (\<lambda>operations.
      thenS (progress_emit (rn_policies rn) (rn_env rn) True)
      (bindS (readS (\<lambda>s. run_result x s operations)) (\<lambda>result.
      thenS (pureS (operation_result_post_init result)) (returnS result))))))))"

text \<open>\<open>execute\<close> returns or raises; the execution set it mutated and the log are in the final state.\<close>

definition execute ::
    "'w run_env \<Rightarrow> execution_set \<Rightarrow> 'w \<Rightarrow> (exception + operation_result) \<times> 'w exec_state" where
  "execute rn x w = execute_body rn x (exec_start x w)"

end
