(* ===== verification/Executor_Lemmas.thy ===== *)
theory Executor_Lemmas
  imports Executor
begin

text \<open>
  What every statement of the executor respects. The locale \<open>exec_frame\<close> is the interface of a
  relation between executor states that the collaborators' calls and the bookkeeping of a run
  cannot break; its lemmas climb from the primitive calls to the operations, so that a relation is
  proved to hold of every run by one interpretation.
\<close>

section \<open>Frames\<close>

locale exec_frame = step_relation R
  for R :: "'w exec_state \<Rightarrow> 'w exec_state \<Rightarrow> bool" +
  fixes allowed :: "exec_call \<Rightarrow> bool"
  assumes frame_world: "R s (s\<lparr>es_world := w\<rparr>)"
    and frame_log: "allowed c \<Longrightarrow> R s (s\<lparr>es_log := es_log s @ [c]\<rparr>)"
    and frame_recording: "R s (s\<lparr>es_recording := r\<rparr>)"
begin

lemma stays_world: "stays R (world m)"
  unfolding world_def by (rule stays_through) (simp add: frame_world)

lemma stays_log: "allowed c \<Longrightarrow> stays R (log_call c)"
  by (simp add: stays_def log_call_def updateS_def frame_log)

lemma stays_logged: "(\<And>r. allowed (c r)) \<Longrightarrow> stays R (logged c m)"
  unfolding logged_def by (intro stays_rules stays_world stays_log) auto

lemma stays_mutating: "allowed c \<Longrightarrow> allowed (Completed c) \<Longrightarrow> stays R (mutating c m)"
  unfolding mutating_def by (intro stays_rules stays_logged stays_log) auto

lemma stays_recording: "stays R (updateS (\<lambda>s. s\<lparr>es_recording := r\<rparr>))"
  by (simp add: stays_def updateS_def frame_recording)

lemmas frame_rules = stays_rules stays_world stays_logged stays_mutating stays_recording

lemma stays_case_sum:
  "(\<And>e. stays R (f e)) \<Longrightarrow> (\<And>a. stays R (g a)) \<Longrightarrow> stays R (case r of Inl e \<Rightarrow> f e | Inr a \<Rightarrow> g a)"
  by (simp split: sum.split)

lemma stays_case_prod: "(\<And>a b. stays R (f a b)) \<Longrightarrow> stays R (case p of (a, b) \<Rightarrow> f a b)"
  by (simp split: prod.split)

lemma stays_let: "(\<And>v. stays R (f v)) \<Longrightarrow> stays R (let v = e in f v)"
  by (simp add: Let_def)

lemmas case_rules = stays_case_sum stays_case_prod stays_let

end

text \<open>Calls that observe, and calls that only the progress of a run makes.\<close>

fun observation :: "exec_call \<Rightarrow> bool" where
  "observation (SawStat b r s) = True"
| "observation (SawPath p s) = True"
| "observation (Resolved b r p) = True"
| "observation (TempName t p op) = True"
| "observation (TrashName t r) = True"
| "observation RecorderFlushed = True"
| "observation (Recorded c) = True"
| "observation (Emitted b) = True"
| "observation _ = False"

text \<open>
  What the progress of a run may do to its tracker between two settled operations: only the bytes of
  the current one grow, never beyond the total.
\<close>

definition tracker_step :: "tracker \<Rightarrow> tracker \<Rightarrow> bool" where
  "tracker_step a b \<longleftrightarrow>
     tr_items_total b = tr_items_total a \<and> tr_items_done b = tr_items_done a
     \<and> tr_bytes_total b = tr_bytes_total a \<and> tr_committed b = tr_committed a
     \<and> tr_bytes_done a \<le> tr_bytes_done b
     \<and> tr_bytes_done b \<le> max (tr_bytes_done a) (tr_bytes_total a)"

lemma tracker_steps:
  "tracker_step t (t\<lparr>tr_last_emitted := v\<rparr>)" "tracker_step t (t\<lparr>tr_current := c, tr_file_bytes := n\<rparr>)"
  "tracker_step t (tracker_copied n t)"
  by (auto simp: tracker_step_def tracker_copied_def Let_def)

locale exec_observer = exec_frame R allowed
  for R :: "'w exec_state \<Rightarrow> 'w exec_state \<Rightarrow> bool" and allowed +
  assumes observations_allowed: "observation c \<Longrightarrow> allowed c"
    and frame_progress: "tracker_step (es_tracker s) t \<Longrightarrow> R s (s\<lparr>es_tracker := t\<rparr>)"
begin

lemma stays_observe:
  "stays R (fs_stat env b r)" "stays R (fs_stat_path env p)" "stays R (fs_resolve env b r e)"
  "stays R (owned_temp env p i op)" "stays R (emit_body env body)" "stays R (recorder_flush env)"
  unfolding fs_stat_def fs_stat_path_def fs_resolve_def owned_temp_def emit_body_def
    recorder_flush_def
  by (intro stays_logged observations_allowed; simp)+

lemma stays_guard_present: "stays R (guard_present env b r e m d f)"
  unfolding guard_present_def by (intro frame_rules stays_observe)

lemma stays_guards:
  "stays R (guard_path_stat a ex reason msg)" "stays R (guard_absent env b rel)"
  "stays R (require_stat_path env p)" "stays R (prior_target op)" "stays R (source_evidence op msg)"
  "stays R (guard_source rn x rel ex)" "stays R (guard_target rn x rel ex)"
  unfolding guard_path_stat_def guard_absent_def require_stat_path_def prior_target_def
    source_evidence_def guard_source_def guard_target_def
  by (intro frame_rules stays_observe stays_guard_present case_rules; auto simp: stays_basic split: option.split)+

lemma stays_guard_expected_target: "stays R (guard_expected_target env b op)"
  unfolding guard_expected_target_def
  by (intro frame_rules stays_guards stays_guard_present)

lemma stays_attest_copy: "stays R (attest_copy env d s)"
  unfolding attest_copy_def by (intro frame_rules case_rules)

lemma stays_record_evidence: "stays R (record_evidence env d c)"
  unfolding record_evidence_def
  by (intro frame_rules stays_logged observations_allowed) simp

lemma stays_flush_before_destructive: "stays R (flush_before_destructive env)"
  unfolding flush_before_destructive_def by (intro frame_rules stays_observe)

lemma stays_flush_at_end: "stays R (flush_at_end env)"
  unfolding flush_at_end_def by (intro frame_rules stays_observe)

lemma stays_flush_directories: "stays R (flush_directories env seen ds)"
proof (induction ds arbitrary: seen)
  case (Cons d ds)
  show ?case by (simp add: Cons.IH) (intro frame_rules impI Cons.IH)
qed (simp add: stays_basic)

lemma stays_durability_detail: "stays R (durability_detail env ds)"
  unfolding durability_detail_def by (intro frame_rules stays_flush_directories)

lemma stays_tracker:
  "(\<And>t. tracker_step t (f t)) \<Longrightarrow> stays R (updateS (\<lambda>s. s\<lparr>es_tracker := f (es_tracker s)\<rparr>))"
  by (simp add: stays_def updateS_def frame_progress)

lemma stays_progress_emit: "stays R (progress_emit pol env force)"
  unfolding progress_emit_def by (intro frame_rules stays_observe stays_tracker tracker_steps)

lemma stays_progress:
  "stays R (progress_start pol env op)" "stays R (progress_copied pol env n)"
  unfolding progress_start_def progress_copied_def
  by (intro frame_rules stays_tracker tracker_steps stays_progress_emit)+

lemma stays_progress_settled:
  assumes "\<And>s. R s (s\<lparr>es_tracker := tracker_settled op out (es_tracker s)\<rparr>)"
  shows "stays R (progress_settled pol env op out)"
  unfolding progress_settled_def
  by (intro frame_rules stays_progress_emit) (simp add: stays_def updateS_def assms)

lemmas observer_rules = frame_rules case_rules stays_observe stays_guard_present stays_guards
  stays_guard_expected_target stays_attest_copy stays_record_evidence
  stays_flush_before_destructive stays_flush_at_end stays_durability_detail stays_progress_emit
  stays_progress

lemma stays_settle:
  assumes "\<And>s. xs_status (es_xset s) (po_op_id op) = None \<Longrightarrow> R s (store_settled op sd s)"
    and counted: "\<And>s. R s (s\<lparr>es_tracker := tracker_settled op (sd_outcome sd) (es_tracker s)\<rparr>)"
  shows "stays R (settle pol env op sd)"
proof -
  let ?rest = "thenS (emit_body env (ItemOutcome (settled_event op sd)))
    (progress_settled pol env op (sd_outcome sd))"
  have rest: "stays R ?rest" by (intro observer_rules stays_progress_settled counted)
  have "R s (snd (settle pol env op sd s))" for s
  proof (cases "xs_status (es_xset s) (po_op_id op)")
    case None
    show ?thesis
    proof (cases "item_outcome_post_init (settled_event op sd)")
      case (Inr u)
      have "settle pol env op sd s = ?rest (store_settled op sd s)"
        using None Inr by (simp add: settle_def effect_defs)
      then show ?thesis using assms(1) [OF None] rest by (simp add: stays_def trans)
    qed (use None in \<open>simp add: settle_def effect_defs refl\<close>)
  qed (simp add: settle_def effect_defs refl)
  then show ?thesis by (simp add: stays_def)
qed

end

text \<open>The calls that take something away from the target.\<close>

fun destructive :: "exec_call \<Rightarrow> bool" where
  "destructive (Replace t p) = True"
| "destructive (RenameNew p q) = True"
| "destructive (RemoveFile p) = True"
| "destructive (RemoveDirectory p) = True"
| "destructive _ = False"

text \<open>The calls that an attempt at an operation makes without taking anything away.\<close>

fun harmless :: "exec_call \<Rightarrow> bool" where
  "harmless (Slept d) = False"
| "harmless c = (\<not> destructive c)"

lemma quiet_not_destructive: "harmless c \<Longrightarrow> \<not> destructive c"
  by (cases c) auto

lemma observation_quiet: "observation c \<Longrightarrow> harmless c"
  by (cases c) auto

locale exec_quiet = exec_observer R allowed
  for R :: "'w exec_state \<Rightarrow> 'w exec_state \<Rightarrow> bool" and allowed +
  assumes quiet_allowed: "harmless c \<Longrightarrow> allowed c"
    and frame_inflight: "R s (s\<lparr>es_inflight := v1\<rparr>)"
    and frame_ready: "R s (s\<lparr>es_ready_dirs := v3\<rparr>)"
    and frame_fs_failed: "R s (s\<lparr>es_fs_failed := v5\<rparr>)"
    and frame_stop: "R s (s\<lparr>es_stop := v6\<rparr>)"
    and frame_current: "R s (s\<lparr>es_current := v7\<rparr>)"
begin

lemma stays_fields:
  "stays R (updateS (\<lambda>s. s\<lparr>es_inflight := f1 s\<rparr>))"
  "stays R (updateS (\<lambda>s. s\<lparr>es_ready_dirs := f3 s\<rparr>))"
  "stays R (updateS (\<lambda>s. s\<lparr>es_fs_failed := f5 s\<rparr>))"
  "stays R (updateS (\<lambda>s. s\<lparr>es_stop := f6 s\<rparr>))"
  "stays R (updateS (\<lambda>s. s\<lparr>es_current := f7 s\<rparr>))"
  by (simp_all add: stays_def updateS_def frame_inflight frame_ready
      frame_fs_failed frame_stop frame_current)

lemma stays_mutating_quiet: "harmless c \<Longrightarrow> stays R (mutating c m)"
  by (rule stays_mutating) (simp_all add: quiet_allowed)

lemmas quiet_rules = observer_rules stays_fields stays_mutating_quiet

lemma stays_write_all: "stays R (write_all env t view)"
proof (induction env t view rule: write_all.induct)
  case (1 env t view)
  show ?case
    by (subst write_all.simps) (intro quiet_rules quiet_allowed 1; simp split: option.split)
qed

lemma stays_copy_chunks: "stays R (copy_chunks rn t reads data)"
proof (induction reads arbitrary: data)
  case Nil
  show ?case by (simp only: copy_chunks.simps) (intro quiet_rules)
next
  case (Cons r rs)
  show ?case
    by (simp only: copy_chunks.simps) (intro quiet_rules stays_write_all Cons)
qed

lemma stays_copy_streams: "stays R (copy_streams rn a t)"
  unfolding copy_streams_def by (intro quiet_rules stays_copy_chunks) simp

lemma stays_apply_metadata: "stays R (apply_metadata env p st c r)"
  unfolding apply_metadata_def by (intro quiet_rules) simp

lemma stays_remove_stale_temp: "stays R (remove_stale_temp env msg t)"
  unfolding remove_stale_temp_def by (intro quiet_rules) simp

lemma stays_fill_temp: "stays R (fill_temp rn x op rel ex a b t)"
  unfolding fill_temp_def by (intro quiet_rules stays_copy_streams stays_apply_metadata)

lemma stays_prepare_copy: "stays R (prepare_copy rn x op)"
  unfolding prepare_copy_def by (intro quiet_rules stays_remove_stale_temp stays_fill_temp)

lemma stays_publish_new: "stays R (publish_new env msg p)"
  unfolding publish_new_def by (intro quiet_rules) simp

lemma stays_run_copy: "stays R (run_copy rn x op)"
  unfolding run_copy_def
  by (intro quiet_rules stays_prepare_copy stays_publish_new stays_apply_metadata)

lemma stays_make_backup: "stays R (make_backup rn x op a t)"
  unfolding make_backup_def
  by (intro quiet_rules stays_remove_stale_temp) simp_all

lemma stays_restore_attributes: "stays R (restore_attributes env p ex)"
  unfolding restore_attributes_def by (intro quiet_rules stays_apply_metadata)

lemma stays_run_noop: "stays R (run_noop rn x op)"
  unfolding run_noop_def by (intro quiet_rules)

lemma stays_directory_metadata: "stays R (directory_metadata rn x op ex)"
  unfolding directory_metadata_def by (intro quiet_rules stays_apply_metadata)

lemma stays_restore_completed: "stays R (restore_completed_directory_metadata rn x)"
  unfolding restore_completed_directory_metadata_def restore_directory_def
  by (intro quiet_rules stays_directory_metadata)

lemma stays_cleanup_inflight: "stays R (cleanup_inflight env)"
  unfolding cleanup_inflight_def by (intro quiet_rules) simp

lemma stays_before_retry: "allowed (Slept delay) \<Longrightarrow> stays R (before_retry rn op delay)"
  unfolding before_retry_def
  by (intro quiet_rules stays_cleanup_inflight) (simp_all add: quiet_allowed)

lemmas still_rules = quiet_rules stays_apply_metadata stays_remove_stale_temp stays_prepare_copy
  stays_publish_new stays_run_copy stays_make_backup stays_restore_attributes stays_run_noop
  stays_directory_metadata stays_restore_completed stays_cleanup_inflight

end

text \<open>The steps that store or drop a retry continuation.\<close>

locale exec_continuing = exec_quiet R allowed
  for R :: "'w exec_state \<Rightarrow> 'w exec_state \<Rightarrow> bool" and allowed +
  assumes frame_retry: "R s (s\<lparr>es_retry := v\<rparr>)"
begin

lemma stays_retry: "stays R (updateS (\<lambda>s. s\<lparr>es_retry := f s\<rparr>))"
  by (simp add: stays_def updateS_def frame_retry)

lemma stays_set_continuation: "stays R (set_continuation op c)"
  unfolding set_continuation_def by (intro quiet_rules stays_retry)

lemma stays_begin_update: "stays R (begin_update rn x op ex)"
  unfolding begin_update_def
  by (intro quiet_rules stays_retry stays_prepare_copy stays_make_backup stays_set_continuation stays_logged
      quiet_allowed) simp

lemma stays_mark_published: "stays R (mark_published op c)"
  unfolding mark_published_def by (intro quiet_rules stays_retry stays_set_continuation)

lemma stays_finish_update: "stays R (finish_update rn x op ex c)"
  unfolding finish_update_def by (intro quiet_rules stays_retry stays_apply_metadata stays_set_continuation)

lemma stays_begin_move_update: "stays R (begin_move_update rn x op)"
  unfolding begin_move_update_def
  by (intro quiet_rules stays_retry stays_prepare_copy stays_publish_new stays_set_continuation)

lemma stays_move_update_parts:
  "stays R (move_update_attestation rn x op c)" "stays R (move_update_trash rn x op c)"
  unfolding move_update_attestation_def move_update_trash_def
  by (intro quiet_rules stays_retry stays_set_continuation stays_logged quiet_allowed; simp)+

lemma stays_pop_continuation: "stays R (pop_continuation op)"
  unfolding pop_continuation_def by (intro quiet_rules stays_retry)

lemmas operation_rules = still_rules stays_set_continuation stays_begin_update
  stays_mark_published stays_finish_update stays_begin_move_update stays_move_update_parts
  stays_pop_continuation

end

text \<open>A relation that no call of an attempt breaks, and that settling an operation does not break.\<close>

locale exec_total = exec_continuing R allowed
  for R :: "'w exec_state \<Rightarrow> 'w exec_state \<Rightarrow> bool" and allowed +
  assumes destructive_allowed: "destructive c \<Longrightarrow> allowed c"
    and stays_settle_total: "stays R (settle pol env op sd)"
    and frame_started: "R s (s\<lparr>es_pending_dirs := es_pending_dirs s @ [op]\<rparr>)"
begin

lemma stays_any: "(\<And>d. c \<noteq> Slept d) \<Longrightarrow> stays R (mutating c m)"
  by (intro stays_mutating; cases c) (auto intro: quiet_allowed destructive_allowed)

lemma stays_settle_failure: "stays R (settle_failure pol env op e)"
  unfolding settle_failure_def by (rule stays_settle_total)

lemma stays_guarded_rename: "stays R (guarded_rename env r m a b)"
  unfolding guarded_rename_def by (intro operation_rules stays_any; simp)

lemma stays_replace_live: "stays R (replace_live rn x op ex c)"
  unfolding replace_live_def by (intro operation_rules stays_any; simp)

lemma stays_publish_update: "stays R (publish_update rn x op ex c)"
  unfolding publish_update_def by (intro operation_rules stays_replace_live)

lemma stays_run_update: "stays R (run_update rn x op)"
  unfolding run_update_def
proof (intro operation_rules stays_publish_update)
  show "stays R (case k of UpdateContinuation c \<Rightarrow> returnS c
      | MoveUpdateContinuation u \<Rightarrow> raiseS e)" for k e
    by (cases k) (simp_all add: stays_basic)
qed

lemma stays_run_move: "stays R (run_move rn x op)"
  unfolding run_move_def by (intro operation_rules stays_guarded_rename)

lemma stays_run_recase: "stays R (run_recase rn x op)"
  unfolding run_recase_def by (intro operation_rules stays_guarded_rename)

lemma stays_retire_old: "stays R (retire_old rn x c a b)"
  unfolding retire_old_def by (intro operation_rules stays_guarded_rename)

lemma stays_run_move_update: "stays R (run_move_update rn x op)"
  unfolding run_move_update_def
proof (intro operation_rules stays_retire_old)
  show "stays R (case k of UpdateContinuation u \<Rightarrow> raiseS e
      | MoveUpdateContinuation c \<Rightarrow> returnS c)" for k e
    by (cases k) (simp_all add: stays_basic)
qed

lemma stays_run_trash: "stays R (run_trash rn x op)"
  unfolding run_trash_def by (intro operation_rules stays_guarded_rename stays_logged quiet_allowed) simp

lemma stays_run_delete: "stays R (run_delete rn x op)"
  unfolding run_delete_def remove_target_def by (intro operation_rules stays_any; simp)

lemma stays_execute_operation: "stays R (execute_operation rn x op)"
  unfolding execute_operation_def
  by (cases "po_kind op")
     (simp_all add: stays_run_copy stays_run_update stays_run_move stays_run_recase
       stays_run_move_update stays_run_trash stays_run_delete stays_run_noop stays_basic)

lemma stays_give_up: "stays R (give_up rn op e d)"
  unfolding give_up_def by (intro operation_rules stays_settle_failure)

lemma stays_start_directory: "stays R (start_directory rn x op)"
proof -
  have "stays R (updateS (\<lambda>s. s\<lparr>es_pending_dirs := es_pending_dirs s @ [op],
      es_ready_dirs := f s\<rparr>))" for f :: "'w exec_state \<Rightarrow> op_id set"
    by (auto simp: stays_def updateS_def intro: trans [OF frame_started frame_ready])
  then show ?thesis
    unfolding start_directory_def by (intro operation_rules stays_any; simp)
qed

lemma stays_complete_directory: "stays R (complete_directory rn x op)"
  unfolding complete_directory_def by (intro operation_rules stays_settle_total)

lemma stays_finalize_directory: "stays R (finalize_directory rn x op)"
  unfolding finalize_directory_def
  by (intro operation_rules stays_complete_directory stays_settle_failure)

lemma stays_cancel_remaining: "stays R (cancel_remaining rn x ce op)"
  unfolding cancel_remaining_def by (intro operation_rules stays_settle_total)

end

text \<open>A relation that the pause before a retry does not break either holds of the whole run.\<close>

locale exec_run = exec_total R allowed
  for R :: "'w exec_state \<Rightarrow> 'w exec_state \<Rightarrow> bool" and allowed +
  assumes slept_allowed: "allowed (Slept d)"
begin

lemma stays_run_attempts: "stays R (run_attempts rn x op n)"
proof (induction rn x op n rule: run_attempts.induct)
  case (1 rn x op n)
  have "stays R (case d of
       Retry delay \<Rightarrow>
         (if n \<le> ep_max_retries (rn_policies rn)
          then bindS (before_retry rn op delay) (\<lambda>_. run_attempts rn x op (n + 1))
          else give_up rn op e d)
     | _ \<Rightarrow> give_up rn op e d)" for e d
  proof (cases d)
    case (Retry delay)
    then show ?thesis
      by (simp only: failure_decision.case) (intro operation_rules stays_before_retry slept_allowed stays_give_up 1; assumption)
  qed (simp_all add: stays_give_up)
  then show ?case
    by (subst run_attempts.simps)
       (intro operation_rules stays_execute_operation stays_settle_total)
qed

lemma stays_execute_one: "stays R (execute_one rn x op)"
  unfolding execute_one_def settle_or_run_def
  by (intro operation_rules stays_settle_total stays_start_directory stays_run_attempts
      stays_settle_failure)

lemmas total_rules = operation_rules stays_execute_one stays_finalize_directory
  stays_cancel_remaining

text \<open>With the clearing of the pending directories, the relation holds of the whole run.\<close>

lemma stays_execute_body:
  assumes clear: "\<And>s. R s (s\<lparr>es_pending_dirs := []\<rparr>)"
  shows "stays R (finalize_directories rn x)" "stays R (run_operations rn x)"
    "stays R (on_canceled rn x)" "stays R (on_paused rn x)" "stays R (on_crash rn)"
    "stays R (guarded_run rn x)" "stays R (execute_body rn x)"
proof -
  have pending: "stays R (updateS (\<lambda>s. s\<lparr>es_pending_dirs := []\<rparr>))"
    by (simp add: stays_def updateS_def clear)
  show fin: "stays R (finalize_directories rn x)"
    unfolding finalize_directories_def by (intro total_rules pending)
  show ops: "stays R (run_operations rn x)"
    unfolding run_operations_def by (intro total_rules fin)
  show canceled: "stays R (on_canceled rn x)"
    unfolding on_canceled_def by (intro total_rules fin)
  show paused: "stays R (on_paused rn x)"
    unfolding on_paused_def by (intro total_rules fin)
  show crash: "stays R (on_crash rn)"
    unfolding on_crash_def by (intro total_rules)
  show run: "stays R (guarded_run rn x)"
    unfolding guarded_run_def by (intro total_rules ops canceled paused crash)
  show "stays R (execute_body rn x)"
    unfolding execute_body_def by (intro total_rules run)
qed

end

section \<open>From the loop to the run\<close>

text \<open>
  A property of a whole run, from the loop over the operations: \<open>I\<close> holds before it, \<open>J\<close> after it, and
  what comes before and after the loop keeps them.
\<close>

lemma wp_execute_body_via:
  assumes loop: "\<And>s. I s \<Longrightarrow> wp (forS (pl_operations (xs_plan x)) (execute_one rn x)) (\<lambda>_. J) (\<lambda>_. J) s"
    and first: "stays (keeps I) (emit_body (rn_env rn) (PhaseChanged (lit ''execute'')))"
      "stays (keeps I) (progress_emit (rn_policies rn) (rn_env rn) True)" "\<And>s. I s \<Longrightarrow> J s"
    and final: "stays (keeps J) (finalize_directories rn x)"
      "stays (keeps J) (restore_completed_directory_metadata rn x)" "stays (keeps J) (flush_at_end (rn_env rn))"
      "stays (keeps J) (on_canceled rn x)" "stays (keeps J) (on_paused rn x)" "stays (keeps J) (on_crash rn)"
      "stays (keeps J) (progress_emit (rn_policies rn) (rn_env rn) True)"
    and start: "I s"
  shows "wp (execute_body rn x) (\<lambda>_. J) (\<lambda>_. J) s"
proof -
  have keep: "wp m (\<lambda>_. J) (\<lambda>_. J) t" if "stays (keeps J) m" "J t" for m :: "('a, 'b) exec" and t
    using that by (auto simp: stays_keeps)
  have operations: "wp (run_operations rn x) (\<lambda>_. J) (\<lambda>_. J) t" if "I t" for t
    unfolding run_operations_def wp_then [of "forS xs f" for xs f]
    by (rule wp_mono [OF loop [OF that]]) (auto intro: keep invariants.stays_then final)
  have handled: "wp (thenS h (raiseS e)) (\<lambda>_. J) (\<lambda>_. J) t" if "stays (keeps J) h" "J t"
    for h :: "('a, unit) exec" and e t
    by (intro keep that invariants.stays_then invariants.stays_basic)
  have run: "wp (guarded_run rn x) (\<lambda>_. J) (\<lambda>_. J) t" if "I t" for t
    unfolding guarded_run_def wp_except
    by (rule wp_mono [OF operations [OF that]]) (auto intro: handled final)
  define rest where "rest = (bindS (readS (\<lambda>s. mapE (reported_outcome s)
        (filter (\<lambda>op. po_op_id op \<in> xs_selection x) (pl_operations (xs_plan x))))) (\<lambda>items.
      bindS (pureS items) (\<lambda>operations.
      thenS (progress_emit (rn_policies rn) (rn_env rn) True)
      (bindS (readS (\<lambda>s. run_result x s operations)) (\<lambda>result.
      thenS (pureS (operation_result_post_init result)) (returnS result))))))"
  have rest: "stays (keeps J) rest"
    unfolding rest_def by (intro invariants.stays_rules final)
  have early: "wp m (\<lambda>_. I) (\<lambda>_. J) t" if "stays (keeps I) m" "I t" for m :: "('a, unit) exec" and t
    using that first(3) by (auto simp: stays_keeps intro: wp_mono)
  show ?thesis
    unfolding execute_body_def rest_def [symmetric] wp_then
    by (rule wp_mono [OF early [OF first(1) start]], rule wp_mono [OF early [OF first(2)]], assumption,
        rule wp_mono [OF run], assumption) (auto intro: keep rest)
qed

lemma wp_snd: "wp m (\<lambda>_. P) (\<lambda>_. P) s \<Longrightarrow> P (snd (m s))"
  by (cases "m s"; cases "fst (m s)") (auto simp: wp_def)

section \<open>Settled operations stay settled\<close>

text \<open>
  \<open>settles_more s t\<close>: the plan is the same, a status never changes once it is set, and the reported
  outcomes agree with the statuses if they did before.
\<close>

definition consistent :: "'w exec_state \<Rightarrow> bool" where
  "consistent s \<longleftrightarrow>
     (\<forall>k i. es_outcomes s k = Some i \<longrightarrow>
        io_item_id i = k \<and> xs_status (es_xset s) k = Some (io_outcome i))"

definition settles_more :: "'w exec_state \<Rightarrow> 'w exec_state \<Rightarrow> bool" where
  "settles_more s t \<longleftrightarrow>
     xs_plan (es_xset t) = xs_plan (es_xset s) \<and> xs_selection (es_xset t) = xs_selection (es_xset s)
     \<and> xs_run_id (es_xset t) = xs_run_id (es_xset s)
     \<and> (\<forall>k out. xs_status (es_xset s) k = Some out \<longrightarrow> xs_status (es_xset t) k = Some out)
     \<and> (consistent s \<longrightarrow> consistent t)"

lemma settles_fields: "es_xset t = es_xset s \<Longrightarrow> es_outcomes t = es_outcomes s \<Longrightarrow> settles_more s t"
  by (simp add: settles_more_def consistent_def)

lemma settles_trans: "settles_more s t \<Longrightarrow> settles_more t u \<Longrightarrow> settles_more s u"
  by (simp add: settles_more_def)

lemma settles_store:
  "xs_status (es_xset s) (po_op_id op) = None \<Longrightarrow> settles_more s (store_settled op sd s)"
  by (auto simp: settles_more_def consistent_def store_settled_def settled_event_def)

lemma settles_observed: "exec_observer settles_more (\<lambda>_. True)"
  by unfold_locales (simp_all add: settles_fields, rule settles_trans)

interpretation settling: exec_run settles_more "\<lambda>_. True"
  by (intro exec_run.intro exec_total.intro exec_continuing.intro exec_quiet.intro settles_observed)
     (unfold_locales, simp_all add: settles_fields settles_store exec_observer.stays_settle [OF settles_observed])

lemmas settling_run = settling.stays_execute_body [OF settles_fields]

end
