(* ===== verification/Executor_Guards.thy ===== *)
theory Executor_Guards
  imports Executor_Lemmas
begin

text \<open>
  Which evidence precedes a destructive call. \<open>justified\<close> says, per operation kind, what the
  executor must have seen since its last destructive call; a small calculus of computations that
  learn facts (\<open>learns\<close>) and of computations that are safe once the facts are known (\<open>yields\<close>) is what
  the proofs about the operations are built from.
\<close>

section \<open>Evidence\<close>

definition recent :: "exec_call list \<Rightarrow> exec_call list" where
  "recent past = rev (takeWhile (\<lambda>c. \<not> destructive c) (rev past))"

lemma recent_snoc: "recent (past @ [c]) = (if destructive c then [] else recent past @ [c])"
  by (simp add: recent_def)

lemma recent_append: "\<forall>c \<in> set cs. \<not> destructive c \<Longrightarrow> recent (past @ cs) = recent past @ cs"
  by (induction cs rule: rev_induct) (auto simp: recent_snoc append_assoc [symmetric] simp del: append_assoc)

lemma recent_subset: "set (recent past) \<subseteq> set past"
  by (auto simp: recent_def dest: set_takeWhileD)

text \<open>
  The planned evidence of an operation and a destructive call it may make. \<open>past\<close> is everything the
  executor has done before, \<open>saw\<close> the part since the last destructive call.
\<close>

definition removal_evidence :: "path \<Rightarrow> exec_call set \<Rightarrow> plan_operation \<Rightarrow> path \<Rightarrow> bool" where
  "removal_evidence base saw op p \<longleftrightarrow>
     (\<exists>expected st. po_target_expected op = Some expected \<and> Resolved base (po_target op) p \<in> saw
        \<and> SawStat base (po_target op) (Some st) \<in> saw
        \<and> (if st_kind expected = DIRECTORY \<and> po_reason op = R_DIRECTORY_CLEANUP
           then matches_directory_cleanup st expected else matches_expected st expected))"

definition prior_evidence :: "path \<Rightarrow> exec_call set \<Rightarrow> plan_operation \<Rightarrow> path \<Rightarrow> bool" where
  "prior_evidence base saw op p \<longleftrightarrow>
     (\<exists>rel expected st. po_prior_target op = Some rel \<and> po_prior_expected op = Some expected
        \<and> Resolved base rel p \<in> saw \<and> SawStat base rel (Some st) \<in> saw \<and> matches_expected st expected)"

definition source_seen :: "path \<Rightarrow> exec_call set \<Rightarrow> plan_operation \<Rightarrow> bool" where
  "source_seen base saw op \<longleftrightarrow>
     (\<exists>rel expected st. po_source op = Some rel \<and> po_source_expected op = Some expected
        \<and> SawStat base rel (Some st) \<in> saw \<and> matches_expected st expected)"

text \<open>The new content of a move-update is complete at its path before the old path is touched.\<close>

definition published_first :: "path \<Rightarrow> exec_call set \<Rightarrow> plan_operation \<Rightarrow> bool" where
  "published_first base past op \<longleftrightarrow>
     (\<exists>temp target. Completed (PublishNew temp target) \<in> past \<and> Resolved base (po_target op) target \<in> past
        \<and> TempName temp target (po_op_id op) \<in> past)"

definition update_evidence :: "path \<Rightarrow> exec_call set \<Rightarrow> plan_operation \<Rightarrow> path \<Rightarrow> path \<Rightarrow> bool" where
  "update_evidence base past op temp target \<longleftrightarrow>
     TempName temp target (po_op_id op) \<in> past \<and> Resolved base (po_target op) target \<in> past
     \<and> (\<exists>expected st. po_target_expected op = Some expected
          \<and> SawStat base (po_target op) (Some st) \<in> past \<and> matches_expected st expected)"

definition backup_seen :: "execution_set \<Rightarrow> exec_call set \<Rightarrow> exec_call set \<Rightarrow> plan_operation \<Rightarrow> bool" where
  "backup_seen x past saw op \<longleftrightarrow>
     (pl_trash_on_update (xs_plan x) \<longrightarrow>
        (\<exists>trash st. TrashName trash (po_target op) \<in> past \<and> SawPath trash (Some st) \<in> saw))"

definition operation_evidence ::
    "'w run_env \<Rightarrow> execution_set \<Rightarrow> exec_call set \<Rightarrow> exec_call set \<Rightarrow> plan_operation \<Rightarrow> exec_call \<Rightarrow> bool" where
  "operation_evidence rn x past saw op c =
     (let base = target_root_of rn x
      in case c of
           RenameNew old new \<Rightarrow>
             (case po_kind op of
                MOVE \<Rightarrow> prior_evidence base saw op old \<and> Resolved base (po_target op) new \<in> saw
                  \<and> SawStat base (po_target op) None \<in> saw
              | RECASE \<Rightarrow> prior_evidence base saw op old \<and> Resolved base (po_target op) new \<in> saw
                  \<and> source_seen (source_root_of rn x) saw op
              | MOVE_UPDATE \<Rightarrow> prior_evidence base saw op old \<and> SawPath new None \<in> saw
                  \<and> published_first base past op
              | TRASH \<Rightarrow> removal_evidence base saw op old \<and> SawPath new None \<in> saw
                  \<and> TrashName new (po_target op) \<in> saw
              | _ \<Rightarrow> False)
         | Replace temp target \<Rightarrow>
             po_kind op = UPDATE \<and> update_evidence base past op temp target
             \<and> source_seen (source_root_of rn x) saw op \<and> backup_seen x past saw op
             \<and> (\<exists>st. SawPath target (Some st) \<in> saw) \<and> (\<exists>st. SawPath temp (Some st) \<in> saw)
         | RemoveFile p \<Rightarrow> po_kind op = DELETE \<and> removal_evidence base saw op p
         | RemoveDirectory p \<Rightarrow> po_kind op = DELETE \<and> removal_evidence base saw op p
         | _ \<Rightarrow> False)"

definition justified ::
    "'w run_env \<Rightarrow> execution_set \<Rightarrow> exec_call list \<Rightarrow> exec_call \<Rightarrow> bool" where
  "justified rn x past c \<longleftrightarrow>
     RecorderFlushed \<in> set (recent past)
     \<and> (\<exists>op \<in> set (pl_operations (xs_plan x)). po_op_id op \<in> xs_selection x
          \<and> operation_evidence rn x (set past) (set (recent past)) op c)"

definition log_ok :: "'w run_env \<Rightarrow> execution_set \<Rightarrow> exec_call list \<Rightarrow> bool" where
  "log_ok rn x past \<longleftrightarrow> (\<forall>pre c post. past = pre @ c # post \<longrightarrow> destructive c \<longrightarrow> justified rn x pre c)"

lemma log_ok_Nil: "log_ok rn x []"
  by (simp add: log_ok_def)

lemma log_ok_snoc:
  "log_ok rn x past \<Longrightarrow> (destructive c \<Longrightarrow> justified rn x past c) \<Longrightarrow> log_ok rn x (past @ [c])"
  by (auto simp: log_ok_def append_eq_append_conv2 append_eq_Cons_conv Cons_eq_append_conv)

section \<open>Steps without destruction\<close>

definition still :: "'w exec_state \<Rightarrow> 'w exec_state \<Rightarrow> bool" where
  "still s t \<longleftrightarrow>
     es_retry t = es_retry s
     \<and> (\<exists>cs. es_log t = es_log s @ cs \<and> (\<forall>c \<in> set cs. \<not> destructive c))"

lemma still_fields: "es_retry t = es_retry s \<Longrightarrow> es_log t = es_log s \<Longrightarrow> still s t"
  by (simp add: still_def)

lemma still_trans: "still s t \<Longrightarrow> still t u \<Longrightarrow> still s u"
  by (fastforce simp: still_def)

interpretation still: exec_quiet still "\<lambda>c. \<not> destructive c"
  by unfold_locales
     (auto simp: still_fields dest: quiet_not_destructive observation_quiet intro: still_trans,
      simp add: still_def)

lemma still_log:
  assumes "still s t"
  shows "set (es_log s) \<subseteq> set (es_log t)" "set (recent (es_log s)) \<subseteq> set (recent (es_log t))"
    "log_ok rn x (es_log s) \<Longrightarrow> log_ok rn x (es_log t)"
proof -
  obtain cs where cs: "es_log t = es_log s @ cs" "\<forall>c \<in> set cs. \<not> destructive c"
    using assms by (auto simp: still_def)
  then show "set (es_log s) \<subseteq> set (es_log t)" by auto
  show "set (recent (es_log s)) \<subseteq> set (recent (es_log t))" using cs by (simp add: recent_append)
  have "log_ok rn x past \<Longrightarrow> \<forall>c \<in> set cs. \<not> destructive c \<Longrightarrow> log_ok rn x (past @ cs)" for past
    by (induction cs rule: rev_induct)
       (auto simp: append_assoc [symmetric] simp del: append_assoc intro: log_ok_snoc)
  then show "log_ok rn x (es_log s) \<Longrightarrow> log_ok rn x (es_log t)" using cs by simp
qed

section \<open>Learning facts\<close>

text \<open>
  \<open>learns C m F P\<close>: where the calls \<open>C\<close> were recently logged, \<open>m\<close> destroys nothing, and when it returns
  \<open>a\<close> then \<open>F a\<close> was recently logged too and \<open>P a\<close> holds.
\<close>

definition learns ::
    "exec_call set \<Rightarrow> ('w, 'a) exec \<Rightarrow> ('a \<Rightarrow> exec_call set) \<Rightarrow> ('a \<Rightarrow> bool) \<Rightarrow> bool" where
  "learns C m F P \<longleftrightarrow>
     (\<forall>s. C \<subseteq> set (recent (es_log s)) \<longrightarrow>
        wp m (\<lambda>a t. still s t \<and> C \<union> F a \<subseteq> set (recent (es_log t)) \<and> P a) (\<lambda>_. still s) s)"

lemma learnsD:
  "learns C m F P \<Longrightarrow> C \<subseteq> set (recent (es_log s)) \<Longrightarrow>
     wp m (\<lambda>a t. still s t \<and> C \<union> F a \<subseteq> set (recent (es_log t)) \<and> P a) (\<lambda>_. still s) s"
  by (simp add: learns_def)

lemma learns_still: "stays still m \<Longrightarrow> learns C m (\<lambda>_. {}) (\<lambda>_. True)"
  unfolding learns_def
  by (intro allI impI, erule wp_mono [OF wp_stays]) (auto dest: still_log)

lemma learns_return: "F a \<subseteq> C \<Longrightarrow> P a \<Longrightarrow> learns C (returnS a) F P"
  by (auto simp: learns_def wp_return still.refl)

lemma learns_raise: "learns C (raiseS e) F P"
  by (simp add: learns_def wp_raise still.refl)

lemma learns_bind:
  fixes m :: "('w, 'a) exec"
  assumes m: "learns C m F P" and g: "\<And>a. P a \<Longrightarrow> learns (C \<union> F a) (g a) G Q"
  shows "learns C (bindS m g) (\<lambda>b. G b) Q"
  unfolding learns_def wp_bind
proof (intro allI impI)
  fix s :: "'w exec_state"
  assume C: "C \<subseteq> set (recent (es_log s))"
  have "wp (g a) (\<lambda>b u. still s u \<and> C \<union> G b \<subseteq> set (recent (es_log u)) \<and> Q b) (\<lambda>_. still s) t"
    if "still s t" "C \<union> F a \<subseteq> set (recent (es_log t))" "P a" for a t
    by (rule wp_mono [OF learnsD [OF g [OF that(3)] that(2)]]) (use that(1) in \<open>auto intro: still_trans\<close>)
  then show "wp m (\<lambda>a. wp (g a) (\<lambda>b u. still s u \<and> C \<union> G b \<subseteq> set (recent (es_log u)) \<and> Q b) (\<lambda>_. still s))
      (\<lambda>_. still s) s"
    by (auto intro: wp_mono [OF learnsD [OF m C]])
qed

lemma learns_then: "learns C m (\<lambda>_. F) P \<Longrightarrow> learns (C \<union> F) n G Q \<Longrightarrow> learns C (thenS m n) G Q"
  unfolding thenS_def by (rule learns_bind)

lemma learns_bind_still:
  "stays still m \<Longrightarrow> (\<And>a. learns C (g a) G Q) \<Longrightarrow> learns C (bindS m g) G Q"
  by (rule learns_bind [OF learns_still]) simp_all

lemma learns_then_still: "stays still m \<Longrightarrow> learns C n G Q \<Longrightarrow> learns C (thenS m n) G Q"
  unfolding thenS_def by (rule learns_bind_still)

lemma learns_if:
  "(c \<Longrightarrow> learns C m F P) \<Longrightarrow> (\<not> c \<Longrightarrow> learns C n F P) \<Longrightarrow> learns C (if c then m else n) F P"
  by simp

lemma learns_option:
  "(x = None \<Longrightarrow> learns C m F P) \<Longrightarrow> (\<And>a. x = Some a \<Longrightarrow> learns C (f a) F P) \<Longrightarrow>
     learns C (case x of None \<Rightarrow> m | Some a \<Rightarrow> f a) F P"
  by (simp split: option.split)

lemma learns_except:
  fixes m :: "('w, 'a) exec"
  assumes m: "learns C m F P" and h: "\<And>e. p e \<Longrightarrow> learns C (h e) F P"
  shows "learns C (exceptS m p h) F P"
  unfolding learns_def wp_except
proof (intro allI impI)
  fix s :: "'w exec_state"
  assume C: "C \<subseteq> set (recent (es_log s))"
  have "wp (h e) (\<lambda>b u. still s u \<and> C \<union> F b \<subseteq> set (recent (es_log u)) \<and> P b) (\<lambda>_. still s) t"
    if "still s t" "p e" for e t
    using that still_log(2) [OF that(1)] C
    by (intro wp_mono [OF learnsD [OF h [OF that(2)]]]) (auto intro: still_trans)
  then show "wp m (\<lambda>a t. still s t \<and> C \<union> F a \<subseteq> set (recent (es_log t)) \<and> P a)
      (\<lambda>e t. if p e then wp (h e) (\<lambda>b u. still s u \<and> C \<union> F b \<subseteq> set (recent (es_log u)) \<and> P b) (\<lambda>_. still s) t
              else still s t) s"
    by (auto intro: wp_mono [OF learnsD [OF m C]])
qed

lemma learns_weaken:
  "learns C m F P \<Longrightarrow> (\<And>a. P a \<Longrightarrow> G a \<subseteq> C \<union> F a \<and> Q a) \<Longrightarrow> learns C m G Q"
  unfolding learns_def by (fastforce intro: wp_mono)

lemma learns_logged:
  assumes "\<And>r. \<not> destructive (c r)"
  shows "learns C (logged c m) (\<lambda>r. {c r}) (\<lambda>_. True)"
proof -
  have "learns C (thenS (log_call (c r)) (returnS r)) (\<lambda>r. {c r}) (\<lambda>_. True)" for r C
    using assms [of r]
    by (auto simp: learns_def log_call_def wp_then wp_update wp_return recent_snoc still_def)
  then show ?thesis
    unfolding logged_def by (intro learns_bind_still still.stays_world)
qed

lemma learns_fs_stat: "learns C (fs_stat env base rel) (\<lambda>r. {SawStat base rel r}) (\<lambda>_. True)"
  unfolding fs_stat_def by (rule learns_logged) simp

lemma learns_fs_stat_path: "learns C (fs_stat_path env p) (\<lambda>r. {SawPath p r}) (\<lambda>_. True)"
  unfolding fs_stat_path_def by (rule learns_logged) simp

lemma learns_fs_resolve: "learns C (fs_resolve env base rel m) (\<lambda>p. {Resolved base rel p}) (\<lambda>_. True)"
  unfolding fs_resolve_def by (rule learns_logged) simp

lemma learns_owned_temp: "learns C (owned_temp env t i op) (\<lambda>p. {TempName p t op}) (\<lambda>_. True)"
  unfolding owned_temp_def by (rule learns_logged) simp

lemma learns_guard_present:
  "learns C (guard_present env base rel expected mi dr matcher)
     (\<lambda>st. {SawStat base rel (Some st)}) (\<lambda>st. matcher st expected)"
  unfolding guard_present_def
  by (rule learns_bind [OF learns_except [OF learns_fs_stat learns_raise]])
     (intro learns_option learns_if learns_raise learns_return; simp)

lemma learns_guard_absent:
  "learns C (guard_absent env base rel) (\<lambda>_. {SawStat base rel None}) (\<lambda>_. True)"
  unfolding guard_absent_def
  by (rule learns_bind [OF learns_fs_stat]) (intro learns_if learns_raise learns_return; simp)

lemma learns_require_stat_path:
  "learns C (require_stat_path env p) (\<lambda>st. {SawPath p (Some st)}) (\<lambda>_. True)"
  unfolding require_stat_path_def
  by (rule learns_bind [OF learns_fs_stat_path]) (intro learns_option learns_raise learns_return; simp)

lemma learns_flush: "learns C (flush_before_destructive env) (\<lambda>_. {RecorderFlushed}) (\<lambda>_. True)"
proof -
  have "learns C (recorder_flush env) (\<lambda>_. {RecorderFlushed}) (\<lambda>_. True)" for C
    unfolding recorder_flush_def by (rule learns_logged) simp
  then show ?thesis
    unfolding flush_before_destructive_def
    by (intro learns_except learns_then_still learns_raise still.stays_recording)
qed

lemma learns_source_evidence:
  "learns C (source_evidence op msg) (\<lambda>_. {}) (\<lambda>(rel, st). po_source op = Some rel \<and> po_source_expected op = Some st)"
  unfolding source_evidence_def by (auto split: option.split intro: learns_raise learns_return)

lemma learns_prior_target:
  "learns C (prior_target op) (\<lambda>_. {}) (\<lambda>(rel, st). po_prior_target op = Some rel \<and> po_prior_expected op = Some st)"
  unfolding prior_target_def by (auto split: option.split intro: learns_raise learns_return)

section \<open>Safe computations\<close>

definition continuation_ok ::
    "'w run_env \<Rightarrow> execution_set \<Rightarrow> plan_operation \<Rightarrow> continuation \<Rightarrow> exec_call set \<Rightarrow> bool" where
  "continuation_ok rn x op k past =
     (case k of
        UpdateContinuation c \<Rightarrow>
          update_evidence (target_root_of rn x) past op (pc_temp (uc_prepared c)) (pc_target_path (uc_prepared c))
          \<and> (pl_trash_on_update (xs_plan x) \<longrightarrow>
               (\<exists>trash st. uc_trash c = Some trash \<and> uc_backup_stat c = Some st \<and> TrashName trash (po_target op) \<in> past))
      | MoveUpdateContinuation c \<Rightarrow>
          published_first (target_root_of rn x) past op
          \<and> po_prior_target op = Some (mc_old_rel c) \<and> po_prior_expected op = Some (mc_old_expected c))"

lemma continuation_ok_mono: "past \<subseteq> past' \<Longrightarrow> continuation_ok rn x op k past \<Longrightarrow> continuation_ok rn x op k past'"
  by (cases k) (fastforce simp: continuation_ok_def update_evidence_def published_first_def)+

definition op_inv :: "'w run_env \<Rightarrow> execution_set \<Rightarrow> plan_operation \<Rightarrow> 'w exec_state \<Rightarrow> bool" where
  "op_inv rn x op s \<longleftrightarrow>
     log_ok rn x (es_log s) \<and> (\<forall>i. i \<noteq> po_op_id op \<longrightarrow> es_retry s i = None)
     \<and> (\<forall>k. es_retry s (po_op_id op) = Some k \<longrightarrow> continuation_ok rn x op k (set (es_log s)))"

lemma op_inv_still: "still s t \<Longrightarrow> op_inv rn x op s \<Longrightarrow> op_inv rn x op t"
  using still_log [of s t] by (auto simp: op_inv_def still_def intro: continuation_ok_mono)

definition grows :: "'w exec_state \<Rightarrow> 'w exec_state \<Rightarrow> bool" where
  "grows s t \<longleftrightarrow> set (es_log s) \<subseteq> set (es_log t)"

text \<open>
  \<open>yields rn x op P D C m\<close>: from a state with the invariant, where \<open>D\<close> was logged and \<open>C\<close> recently
  logged, \<open>m\<close> keeps the invariant and only appends to the log, and when it returns \<open>a\<close> then \<open>P a\<close>
  holds of the logged calls.
\<close>

definition yields ::
    "'w run_env \<Rightarrow> execution_set \<Rightarrow> plan_operation \<Rightarrow> ('a \<Rightarrow> exec_call set \<Rightarrow> bool) \<Rightarrow> exec_call set \<Rightarrow>
     exec_call set \<Rightarrow> ('w, 'a) exec \<Rightarrow> bool" where
  "yields rn x op P D C m \<longleftrightarrow>
     (\<forall>s. op_inv rn x op s \<longrightarrow> D \<subseteq> set (es_log s) \<longrightarrow> C \<subseteq> set (recent (es_log s)) \<longrightarrow>
        wp m (\<lambda>a t. op_inv rn x op t \<and> grows s t \<and> P a (set (es_log t)))
          (\<lambda>_ t. op_inv rn x op t \<and> grows s t) s)"

abbreviation safe ::
    "'w run_env \<Rightarrow> execution_set \<Rightarrow> plan_operation \<Rightarrow> exec_call set \<Rightarrow> exec_call set \<Rightarrow> ('w, 'a) exec \<Rightarrow> bool" where
  "safe rn x op D C m \<equiv> yields rn x op (\<lambda>_ _. True) D C m"

lemma yieldsD:
  "yields rn x op P D C m \<Longrightarrow> op_inv rn x op s \<Longrightarrow> D \<subseteq> set (es_log s) \<Longrightarrow> C \<subseteq> set (recent (es_log s)) \<Longrightarrow>
     grows r s \<Longrightarrow>
     wp m (\<lambda>a t. op_inv rn x op t \<and> grows r t \<and> P a (set (es_log t))) (\<lambda>_ t. op_inv rn x op t \<and> grows r t) s"
  unfolding yields_def by (fastforce simp: grows_def intro: wp_mono)

lemma yieldsI:
  "(\<And>s. op_inv rn x op s \<Longrightarrow> D \<subseteq> set (es_log s) \<Longrightarrow> C \<subseteq> set (recent (es_log s)) \<Longrightarrow>
     wp m (\<lambda>a t. op_inv rn x op t \<and> grows s t \<and> P a (set (es_log t))) (\<lambda>_ t. op_inv rn x op t \<and> grows s t) s) \<Longrightarrow>
     yields rn x op P D C m"
  by (simp add: yields_def)

lemma grows_refl: "grows s s"
  by (simp add: grows_def)

lemma growsD: "grows s t \<Longrightarrow> set (es_log s) \<subseteq> set (es_log t)"
  by (simp add: grows_def)

lemma grows_trans: "grows s t \<Longrightarrow> grows t u \<Longrightarrow> grows s u"
  unfolding grows_def by (rule subset_trans)

lemma still_grows: "still s t \<Longrightarrow> grows s t"
  by (simp add: grows_def still_log)

lemma safe_still: "stays still m \<Longrightarrow> safe rn x op D C m"
  by (rule yieldsI, erule wp_mono [OF wp_stays]) (auto intro: op_inv_still still_grows)

lemma yields_return: "(\<And>past. D \<subseteq> past \<Longrightarrow> P a past) \<Longrightarrow> yields rn x op P D C (returnS a)"
  by (rule yieldsI) (simp add: wp_return grows_refl)

lemma yields_raise: "yields rn x op P D C (raiseS e)"
  by (rule yieldsI) (simp add: wp_raise grows_refl)

lemma yields_learn:
  fixes m :: "('w, 'a) exec"
  assumes m: "learns C m F Q" and g: "\<And>a. Q a \<Longrightarrow> yields rn x op P (D \<union> F a) (C \<union> F a) (g a)"
  shows "yields rn x op P D C (bindS m g)"
proof (rule yieldsI)
  fix s :: "'w exec_state"
  assume s: "op_inv rn x op s" "D \<subseteq> set (es_log s)" "C \<subseteq> set (recent (es_log s))"
  have "wp (g a) (\<lambda>a u. op_inv rn x op u \<and> grows s u \<and> P a (set (es_log u))) (\<lambda>_ u. op_inv rn x op u \<and> grows s u) t"
    if t: "still s t" "C \<union> F a \<subseteq> set (recent (es_log t))" "Q a" for a t
  proof (rule yieldsD [OF g [OF t(3)] op_inv_still [OF t(1) s(1)] _ t(2) still_grows [OF t(1)]])
    show "D \<union> F a \<subseteq> set (es_log t)"
      using s(2) t(2) still_log(1) [OF t(1)] recent_subset [of "es_log t"] by blast
  qed
  then show "wp (bindS m g) (\<lambda>a u. op_inv rn x op u \<and> grows s u \<and> P a (set (es_log u)))
      (\<lambda>_ u. op_inv rn x op u \<and> grows s u) s"
    unfolding wp_bind
    using s(1) by (intro wp_mono [OF learnsD [OF m s(3)]]) (auto intro: op_inv_still still_grows)
qed

lemma yields_learn_then:
  "learns C m (\<lambda>_. F) Q \<Longrightarrow> yields rn x op P (D \<union> F) (C \<union> F) n \<Longrightarrow> yields rn x op P D C (thenS m n)"
  unfolding thenS_def by (rule yields_learn)

lemma yields_bind_still:
  "stays still m \<Longrightarrow> (\<And>a. yields rn x op P D C (g a)) \<Longrightarrow> yields rn x op P D C (bindS m g)"
  by (rule yields_learn [OF learns_still]) simp_all

lemma yields_then_still: "stays still m \<Longrightarrow> yields rn x op P D C n \<Longrightarrow> yields rn x op P D C (thenS m n)"
  unfolding thenS_def by (rule yields_bind_still)

text \<open>After a part that may destroy something, only what was logged remains known.\<close>

lemma yields_bind:
  fixes m :: "('w, 'a) exec"
  assumes m: "yields rn x op Q D C m" and g: "\<And>a past. D \<subseteq> past \<Longrightarrow> Q a past \<Longrightarrow> yields rn x op P past {} (g a)"
  shows "yields rn x op P D C (bindS m g)"
proof (rule yieldsI)
  fix s :: "'w exec_state"
  assume s: "op_inv rn x op s" "D \<subseteq> set (es_log s)" "C \<subseteq> set (recent (es_log s))"
  have "wp (g a) (\<lambda>a u. op_inv rn x op u \<and> grows s u \<and> P a (set (es_log u))) (\<lambda>_ u. op_inv rn x op u \<and> grows s u) t"
    if "op_inv rn x op t" "grows s t" "Q a (set (es_log t))" for a t
    using s(2) that by (intro yieldsD [OF g [where past = "set (es_log t)"]]) (auto simp: grows_def)
  then show "wp (bindS m g) (\<lambda>a u. op_inv rn x op u \<and> grows s u \<and> P a (set (es_log u)))
      (\<lambda>_ u. op_inv rn x op u \<and> grows s u) s"
    unfolding wp_bind by (intro wp_mono [OF yieldsD [OF m s grows_refl]]) auto
qed

lemma yields_weaken: "D \<subseteq> D' \<Longrightarrow> yields rn x op P D C m \<Longrightarrow> yields rn x op P D' C m"
  by (auto simp: yields_def)

lemma safe_bind:
  "safe rn x op D C m \<Longrightarrow> (\<And>a. yields rn x op P D {} (g a)) \<Longrightarrow> yields rn x op P D C (bindS m g)"
  by (erule yields_bind) (rule yields_weaken)

lemma safe_then: "safe rn x op D C m \<Longrightarrow> yields rn x op P D {} n \<Longrightarrow> yields rn x op P D C (thenS m n)"
  unfolding thenS_def by (rule safe_bind)

lemma yields_try_else:
  fixes m :: "('w, 'a) exec"
  assumes m: "safe rn x op D C m" and h: "\<And>e. p e \<Longrightarrow> yields rn x op P D {} (h e)"
    and k: "\<And>a. yields rn x op P D {} (k a :: ('w, 'b) exec)"
  shows "yields rn x op P D C (tryElseS m p h k)"
proof (rule yieldsI)
  fix s :: "'w exec_state"
  assume s: "op_inv rn x op s" "D \<subseteq> set (es_log s)" "C \<subseteq> set (recent (es_log s))"
  have "wp n (\<lambda>a u. op_inv rn x op u \<and> grows s u \<and> P a (set (es_log u))) (\<lambda>_ u. op_inv rn x op u \<and> grows s u) t"
    if "op_inv rn x op t" "grows s t" "yields rn x op P D {} n" for n :: "('w, 'b) exec" and t
    using s(2) that(1,2) by (intro yieldsD [OF that(3)]) (auto simp: grows_def)
  then show "wp (tryElseS m p h k) (\<lambda>a u. op_inv rn x op u \<and> grows s u \<and> P a (set (es_log u)))
      (\<lambda>_ u. op_inv rn x op u \<and> grows s u) s"
    unfolding wp_try_else by (intro wp_mono [OF yieldsD [OF m s grows_refl]]) (auto intro: h k)
qed

lemma safe_except:
  "safe rn x op D C m \<Longrightarrow> (\<And>e. p e \<Longrightarrow> safe rn x op D {} (h e)) \<Longrightarrow> safe rn x op D C (exceptS m p h)"
  unfolding exceptS_def by (rule yields_try_else) (auto intro: yields_return)

lemma yields_finally:
  fixes m :: "('w, 'a) exec"
  assumes m: "yields rn x op P D C m" and c: "safe rn x op D {} c"
    and mono: "\<And>a past past'. P a past \<Longrightarrow> past \<subseteq> past' \<Longrightarrow> P a past'"
  shows "yields rn x op P D C (finallyS m c)"
proof (rule yieldsI)
  fix s :: "'w exec_state"
  assume s: "op_inv rn x op s" "D \<subseteq> set (es_log s)" "C \<subseteq> set (recent (es_log s))"
  have clean: "wp c (\<lambda>_ u. op_inv rn x op u \<and> grows t u) (\<lambda>_ u. op_inv rn x op u \<and> grows t u) t"
    if "op_inv rn x op t" "grows s t" for t
    using s(2) that by (intro wp_mono [OF yieldsD [OF c _ _ _ grows_refl]]) (auto simp: grows_def)
  show "wp (finallyS m c) (\<lambda>a u. op_inv rn x op u \<and> grows s u \<and> P a (set (es_log u)))
      (\<lambda>_ u. op_inv rn x op u \<and> grows s u) s"
    unfolding wp_finally
    by (intro wp_mono [OF yieldsD [OF m s grows_refl]])
       (auto intro!: wp_mono [OF clean] intro: mono [OF _ growsD] grows_trans)
qed

lemma yields_if:
  "(c \<Longrightarrow> yields rn x op P D C m) \<Longrightarrow> (\<not> c \<Longrightarrow> yields rn x op P D C n) \<Longrightarrow>
     yields rn x op P D C (if c then m else n)"
  by simp

lemma yields_option:
  "(v = None \<Longrightarrow> yields rn x op P D C m) \<Longrightarrow> (\<And>a. v = Some a \<Longrightarrow> yields rn x op P D C (f a)) \<Longrightarrow>
     yields rn x op P D C (case v of None \<Rightarrow> m | Some a \<Rightarrow> f a)"
  by (simp split: option.split)

lemma yields_prod:
  "(\<And>a b. v = (a, b) \<Longrightarrow> yields rn x op P D C (f a b)) \<Longrightarrow> yields rn x op P D C (case v of (a, b) \<Rightarrow> f a b)"
  by (cases v) simp

text \<open>A destructive call, justified by what is known, spends that knowledge.\<close>

lemma safe_mutating:
  assumes "\<And>past. D \<subseteq> set past \<Longrightarrow> C \<subseteq> set (recent past) \<Longrightarrow> destructive d \<Longrightarrow> justified rn x past d"
  shows "safe rn x op D C (mutating d m)"
proof -
  have "safe rn x op D C (log_call d)"
    unfolding yields_def log_call_def wp_update
    using assms by (auto simp: op_inv_def grows_def intro: log_ok_snoc continuation_ok_mono)
  then show ?thesis
    unfolding mutating_def
    by (rule safe_then) (intro safe_still still.stays_logged; simp)
qed

lemma safe_set_continuation:
  assumes "\<And>past. D \<subseteq> past \<Longrightarrow> continuation_ok rn x op k past"
  shows "safe rn x op D C (set_continuation (po_op_id op) k)"
  unfolding yields_def set_continuation_def wp_update
  using assms by (auto simp: op_inv_def grows_def)

lemma safe_pop_continuation: "safe rn x op D C (pop_continuation (po_op_id op))"
  unfolding yields_def pop_continuation_def wp_update by (auto simp: op_inv_def grows_def)

end
