(* ===== verification/Executor_Safety.thy ===== *)
theory Executor_Safety
  imports Executor_Guards
begin

text \<open>
  Every operation, the retry loop and the run with its handlers keep the log of the executor
  justified: the calculus of \<open>Executor_Guards\<close> applied to each definition of \<open>Executor\<close>.
\<close>

section \<open>The operations are safe\<close>

lemmas learn_rules = learns_flush learns_guard_present learns_guard_absent learns_fs_resolve
  learns_fs_stat learns_fs_stat_path learns_require_stat_path learns_owned_temp
  learns_source_evidence learns_prior_target

lemma learns_guard_source:
  "learns C (guard_source rn x rel ex) (\<lambda>st. {SawStat (source_root_of rn x) rel (Some st)})
     (\<lambda>st. matches_expected st ex)"
  unfolding guard_source_def by (rule learns_guard_present)

lemma learns_guard_target:
  "learns C (guard_target rn x rel ex) (\<lambda>st. {SawStat (target_root_of rn x) rel (Some st)})
     (\<lambda>st. matches_expected st ex)"
  unfolding guard_target_def by (rule learns_guard_present)

lemma learns_trash:
  "learns C (logged (\<lambda>t. TrashName t rel) m) (\<lambda>t. {TrashName t rel}) (\<lambda>_. True)"
  by (rule learns_logged) simp

lemma matches_expected_cleanup:
  "matches_expected st expected \<Longrightarrow> st_kind expected = DIRECTORY \<Longrightarrow> matches_directory_cleanup st expected"
  by (simp add: matches_expected_def matches_directory_cleanup_def)

text \<open>A rename after a flush, from whatever makes it justified.\<close>

lemma safe_guarded_rename:
  assumes "\<And>past. D \<subseteq> set past \<Longrightarrow> insert RecorderFlushed C \<subseteq> set (recent past) \<Longrightarrow> justified rn x past (RenameNew a b)"
  shows "safe rn x op D C (guarded_rename env r m a b)"
  unfolding guarded_rename_def
  by (intro yields_learn_then [OF learns_flush] safe_except safe_mutating assms safe_still
      still.stays_basic) auto

lemma justifiedI:
  "RecorderFlushed \<in> set (recent past) \<Longrightarrow> op \<in> set (pl_operations (xs_plan x)) \<Longrightarrow>
     po_op_id op \<in> xs_selection x \<Longrightarrow> operation_evidence rn x (set past) (set (recent past)) op c \<Longrightarrow>
     justified rn x past c"
  by (auto simp: justified_def)

lemmas still_steps = still.still_rules

lemma safe_run_move:
  assumes "op \<in> set (pl_operations (xs_plan x))" "po_op_id op \<in> xs_selection x" "po_kind op = MOVE"
  shows "safe rn x op D C (run_move rn x op)"
  unfolding run_move_def Let_def split_def
  by (rule yields_learn [OF learns_prior_target], rule yields_learn [OF learns_guard_target],
      rule yields_learn_then [OF learns_guard_absent], rule yields_learn [OF learns_fs_resolve],
      rule yields_learn [OF learns_fs_resolve], rule safe_then, rule safe_guarded_rename,
      rule justifiedI [OF _ assms(1,2)])
     (auto simp: operation_evidence_def assms(3) prior_evidence_def split_def,
      intro safe_still still_steps)

lemma safe_run_recase:
  assumes "op \<in> set (pl_operations (xs_plan x))" "po_op_id op \<in> xs_selection x" "po_kind op = RECASE"
  shows "safe rn x op D C (run_recase rn x op)"
proof -
  have check: "stays still (if c then returnS True
      else bindS (pureS a) (\<lambda>old_key. bindS (pureS b) (\<lambda>new_key. returnS (old_key \<noteq> new_key))))"
    for c and a b :: "pystr res"
    by (intro still_steps)
  show ?thesis
    unfolding run_recase_def Let_def split_def
    by (rule yields_learn [OF learns_prior_target], rule yields_learn [OF learns_source_evidence],
        rule yields_bind_still [OF check], rule yields_then_still,
        (intro still_steps)[1], rule yields_learn [OF learns_guard_source],
        rule yields_learn [OF learns_guard_target], rule yields_learn [OF learns_fs_resolve],
        rule yields_learn [OF learns_fs_resolve], rule safe_then, rule safe_guarded_rename,
        rule justifiedI [OF _ assms(1,2)])
       (auto simp: operation_evidence_def assms(3) prior_evidence_def source_seen_def split_def,
        intro safe_still still_steps)
qed

lemma safe_run_trash:
  assumes "op \<in> set (pl_operations (xs_plan x))" "po_op_id op \<in> xs_selection x" "po_kind op = TRASH"
  shows "safe rn x op D C (run_trash rn x op)"
proof (cases "po_target_expected op")
  case None
  then show ?thesis
    by (simp add: run_trash_def) (intro safe_still still_steps)
next
  case (Some expected)
  show ?thesis
    unfolding run_trash_def Let_def Some option.case
    by (rule yields_learn [OF learns_guard_target], rule yields_learn [OF learns_fs_resolve],
        rule yields_learn [OF learns_trash], rule yields_learn [OF learns_fs_stat_path], rule yields_if,
        (intro safe_still still_steps)[1], rule safe_then, rule safe_guarded_rename,
        rule justifiedI [OF _ assms(1,2)])
       (auto simp: operation_evidence_def assms(3) removal_evidence_def Some
         intro: matches_expected_cleanup, intro safe_still still_steps)
qed

lemma safe_run_delete:
  assumes "op \<in> set (pl_operations (xs_plan x))" "po_op_id op \<in> xs_selection x" "po_kind op = DELETE"
  shows "safe rn x op D C (run_delete rn x op)"
proof (cases "po_target_expected op")
  case None
  then show ?thesis
    by (simp add: run_delete_def) (intro safe_still still_steps)
next
  case (Some expected)
  let ?base = "target_root_of rn x"
  let ?matcher = "if st_kind expected = DIRECTORY \<and> po_reason op = R_DIRECTORY_CLEANUP
    then matches_directory_cleanup else matches_expected"
  have remove: "safe rn x op D' C' (remove_target (rn_env rn) p expected)"
    if "{RecorderFlushed, Resolved ?base (po_target op) p, SawStat ?base (po_target op) (Some st)} \<subseteq> C'"
      "?matcher st expected" for D' C' p st
    unfolding remove_target_def
    by (rule yields_then_still, intro still.stays_when still.stays_mutating_quiet, simp,
        rule safe_then, intro yields_if safe_mutating justifiedI [OF _ assms(1,2)])
       (use that in \<open>auto simp: operation_evidence_def Let_def assms(3) removal_evidence_def Some
         intro: safe_still still.stays_basic split: if_splits\<close>)
  show ?thesis
    unfolding run_delete_def Let_def Some option.case
    by (rule yields_learn [OF learns_guard_present], rule yields_learn [OF learns_fs_resolve],
        rule yields_learn_then [OF learns_flush], rule safe_bind, rule safe_except, rule remove)
       (auto, (intro safe_still still_steps)+)
qed

lemma safe_run_copy: "safe rn x op D C (run_copy rn x op)"
  by (intro safe_still still.stays_run_copy)

lemma safe_run_noop: "safe rn x op D C (run_noop rn x op)"
  by (intro safe_still still.stays_run_noop)

section \<open>Update and move-update\<close>

lemma learns_expected_target:
  "learns C (guard_expected_target env base op)
     (\<lambda>_. {}) (\<lambda>_. True)"
  unfolding guard_expected_target_def
  by (intro learns_still still_steps)

lemma learns_fill_temp:
  "learns C (fill_temp rn x op rel ex a b t) (\<lambda>_. {}) (\<lambda>p. pc_temp p = t \<and> pc_target_path p = b)"
  unfolding fill_temp_def Let_def
  by (rule learns_bind_still, rule still.stays_copy_streams, rule learns_if, rule learns_raise,
      rule learns_then_still, (intro still_steps)[1], rule learns_then_still, (intro still_steps)[1],
      rule learns_then_still, (intro still_steps)[1], rule learns_then_still, (intro still_steps)[1],
      rule learns_bind_still, (intro still_steps)[1], rule learns_then_still, (intro still_steps)[1],
      rule learns_return) simp_all

definition prepared_facts ::
    "'w run_env \<Rightarrow> execution_set \<Rightarrow> plan_operation \<Rightarrow> prepared_copy \<Rightarrow> exec_call set" where
  "prepared_facts rn x op p =
     {Resolved (target_root_of rn x) (po_target op) (pc_target_path p),
      TempName (pc_temp p) (pc_target_path p) (po_op_id op)}"

lemma learns_prepare_copy:
  "learns C (prepare_copy rn x op) (prepared_facts rn x op) (\<lambda>_. True)"
  unfolding prepare_copy_def Let_def split_def
  by (rule learns_bind_still, (intro still_steps)[1], rule learns_bind_still, (intro still_steps)[1],
      rule learns_then_still, (intro still_steps)[1], rule learns_bind_still, (intro still_steps)[1],
      rule learns_bind [OF learns_fs_resolve], rule learns_bind [OF learns_owned_temp],
      rule learns_then_still, (intro still_steps)[1], rule learns_then_still, (intro still_steps)[1],
      rule learns_weaken [OF learns_fill_temp])
     (auto simp: prepared_facts_def)

abbreviation update_ok ::
    "'w run_env \<Rightarrow> execution_set \<Rightarrow> plan_operation \<Rightarrow> update_continuation \<Rightarrow> exec_call set \<Rightarrow> bool" where
  "update_ok rn x op c past \<equiv> continuation_ok rn x op (UpdateContinuation c) past"

definition trash_fact :: "plan_operation \<Rightarrow> path option \<Rightarrow> exec_call set" where
  "trash_fact op trash = (case trash of None \<Rightarrow> {} | Some t \<Rightarrow> {TrashName t (po_target op)})"

lemma learns_backup:
  "learns C (if keep
     then bindS (logged (\<lambda>t. TrashName t (po_target op)) m) (\<lambda>trash.
          bindS (fs_stat_path env trash) (\<lambda>st.
          if st \<noteq> None then fail_op r (msg trash)
          else bindS (make_backup rn x op a trash) (\<lambda>(detail, err). returnS (Some trash, detail, err))))
     else returnS (None, [], None))
   (\<lambda>r. trash_fact op (fst r)) (\<lambda>r. keep \<longrightarrow> fst r \<noteq> None)"
  unfolding split_def
  by (rule learns_if, rule learns_bind [OF learns_trash], rule learns_bind_still,
      rule still.stays_observe, rule learns_if, rule learns_raise, rule learns_bind_still,
      rule still.stays_make_backup, rule learns_return)
     (auto simp: trash_fact_def intro: learns_return)

lemma learns_backup_stat:
  "learns C (case trash of None \<Rightarrow> returnS None
     | Some t \<Rightarrow> bindS (require_stat_path env t) (\<lambda>st. returnS (Some st)))
   (\<lambda>_. {}) (\<lambda>st. trash \<noteq> None \<longrightarrow> st \<noteq> None)"
  by (rule learns_option, rule learns_return, simp, simp, rule learns_bind_still,
      rule still.stays_guards, rule learns_return) simp_all

lemma yields_begin_update:
  assumes "po_target_expected op = Some expected"
  shows "yields rn x op (update_ok rn x op) D C (begin_update rn x op expected)"
  unfolding begin_update_def Let_def split_def
  by (rule yields_learn [OF learns_prepare_copy], rule yields_learn [OF learns_guard_target],
      rule yields_learn [OF learns_backup [unfolded split_def]], rule yields_bind_still, rule still.stays_guards,
      rule yields_bind_still, rule still.stays_guards, rule yields_learn [OF learns_backup_stat],
      rule safe_then, rule safe_set_continuation, rule_tac [2] yields_option,
      rule_tac [2] yields_return, rule_tac [3] yields_raise)
     (auto simp: continuation_ok_def update_evidence_def prepared_facts_def trash_fact_def assms
       split: option.splits)

lemma yields_mark_published:
  assumes "\<And>past. D \<subseteq> past \<Longrightarrow> update_ok rn x op c past"
  shows "yields rn x op (update_ok rn x op) D C (mark_published (po_op_id op) c)"
  using assms unfolding mark_published_def
  by (intro yields_then_still safe_then safe_set_continuation yields_return still.stays_fields)
     (auto simp: continuation_ok_def)

lemma yields_replace_live:
  assumes op: "op \<in> set (pl_operations (xs_plan x))" "po_op_id op \<in> xs_selection x" "po_kind op = UPDATE"
    and ok: "\<And>past. D \<subseteq> past \<Longrightarrow> update_ok rn x op c past"
    and seen: "\<And>saw. C \<subseteq> saw \<Longrightarrow> source_seen (source_root_of rn x) saw op
      \<and> (\<exists>st. SawPath (pc_target_path (uc_prepared c)) (Some st) \<in> saw)
      \<and> (\<exists>st. SawPath (pc_temp (uc_prepared c)) (Some st) \<in> saw)"
    and backup: "\<And>past saw. D \<subseteq> past \<Longrightarrow> C \<subseteq> saw \<Longrightarrow> backup_seen x past saw op"
  shows "yields rn x op (update_ok rn x op) D C (replace_live rn x op expected c)"
  unfolding replace_live_def Let_def
proof (rule yields_finally, rule yields_then_still, intro still.stays_when still.stays_mutating_quiet, simp,
    rule yields_learn_then [OF learns_flush], rule safe_then, rule safe_mutating,
    rule justifiedI [OF _ op(1,2)])
  fix past
  assume past: "D \<union> {RecorderFlushed} \<subseteq> set past" "C \<union> {RecorderFlushed} \<subseteq> set (recent past)"
  show "RecorderFlushed \<in> set (recent past)" using past by simp
  have "update_evidence (target_root_of rn x) (set past) op (pc_temp (uc_prepared c)) (pc_target_path (uc_prepared c))"
    using ok [of "set past"] past by (simp add: continuation_ok_def)
  then show "operation_evidence rn x (set past) (set (recent past)) op
      (Replace (pc_temp (uc_prepared c)) (pc_target_path (uc_prepared c)))"
    using seen [of "set (recent past)"] backup [of "set past" "set (recent past)"] past
    by (simp add: operation_evidence_def Let_def op(3))
next
  show "yields rn x op (update_ok rn x op) (D \<union> {RecorderFlushed}) {} (mark_published (po_op_id op) c)"
    by (rule yields_mark_published) (simp add: ok)
qed (intro safe_still still_steps, auto intro: continuation_ok_mono)

lemma thenS_bindS: "thenS (bindS m k) n = bindS m (\<lambda>a. thenS (k a) n)"
  by (simp add: thenS_def bindS_def fun_eq_iff split: prod.split sum.split)

lemma source_seenI:
  "po_source op = Some rel \<Longrightarrow> po_source_expected op = Some ex \<Longrightarrow> SawStat base rel (Some st) \<in> saw \<Longrightarrow>
     matches_expected st ex \<Longrightarrow> source_seen base saw op"
  by (auto simp: source_seen_def)

lemma yields_publish_update:
  assumes op: "op \<in> set (pl_operations (xs_plan x))" "po_op_id op \<in> xs_selection x" "po_kind op = UPDATE"
    and ok: "\<And>past. D \<subseteq> past \<Longrightarrow> update_ok rn x op c past"
  shows "yields rn x op (update_ok rn x op) D C (publish_update rn x op expected c)"
proof -
  let ?temp = "pc_temp (uc_prepared c)" and ?target = "pc_target_path (uc_prepared c)"
  have replace: "yields rn x op (update_ok rn x op) D' C' (thenS
       (case (uc_trash c, uc_backup_stat c) of
          (Some trash, Some b) \<Rightarrow> bindS (require_stat_path env trash) (k b)
        | _ \<Rightarrow> returnS ())
       (replace_live rn x op expected c))"
    if D: "D \<subseteq> D'" and C: "SawPath ?temp (Some t1) \<in> C'" "SawPath ?target (Some t2) \<in> C'"
      "source_seen (source_root_of rn x) C' op" and k: "\<And>b st. stays still (k b st)"
    for D' C' t1 t2 env and k :: "file_stat \<Rightarrow> file_stat \<Rightarrow> ('a, unit) exec"
  proof -
    have ok': "update_ok rn x op c past" if "D' \<subseteq> past" for past using ok D that by blast
    have seen: "source_seen (source_root_of rn x) saw op \<and> (\<exists>st. SawPath ?target (Some st) \<in> saw)
        \<and> (\<exists>st. SawPath ?temp (Some st) \<in> saw)" if "C' \<subseteq> saw" for saw
      using C that by (fastforce simp: source_seen_def)
    show ?thesis
    proof (cases "uc_trash c \<noteq> None \<and> uc_backup_stat c \<noteq> None")
      case True
      then obtain trash b where tb: "uc_trash c = Some trash" "uc_backup_stat c = Some b" by auto
      have backup: "backup_seen x past saw op"
        if "D' \<subseteq> past" "SawPath trash (Some st) \<in> saw" for past saw st
        using ok' [OF that(1)] that(2) tb by (auto simp: continuation_ok_def backup_seen_def)
      show ?thesis
        unfolding tb prod.case option.case thenS_bindS
        by (rule yields_learn [OF learns_require_stat_path], rule yields_then_still, rule k,
            rule yields_replace_live [OF op])
           (use seen ok' in \<open>auto intro: backup\<close>)
    next
      case False
      then have backup: "backup_seen x past saw op" if "D' \<subseteq> past" for past saw
        using ok' [OF that] by (auto simp: continuation_ok_def backup_seen_def)
      from False have "(case (uc_trash c, uc_backup_stat c) of
          (Some trash, Some b) \<Rightarrow> bindS (require_stat_path env trash) (k b)
        | _ \<Rightarrow> returnS ()) = returnS ()"
        by (auto split: option.split)
      then show ?thesis
        by (simp only:, intro yields_then_still still.stays_basic yields_replace_live [OF op])
           (use seen ok' backup in auto)
    qed
  qed
  show ?thesis
    unfolding publish_update_def Let_def
    by (rule yields_learn [OF learns_fs_stat_path], rule yields_option, rule yields_bind_still,
        rule still.stays_guards, rule yields_if, rule yields_raise, rule yields_mark_published,
        rule ok, simp, rule yields_learn [OF learns_source_evidence], rule yields_prod,
        rule yields_learn [OF learns_guard_source], rule yields_then_still, rule still.stays_guards,
        rule yields_learn [OF learns_require_stat_path], rule yields_then_still,
        rule still.stays_guards, rule replace)
       (auto intro: source_seenI still.stays_guards split: prod.splits)
qed

lemma safe_finish_update:
  assumes "\<And>past. D \<subseteq> past \<Longrightarrow> update_ok rn x op c past"
  shows "safe rn x op D C (finish_update rn x op expected c)"
  unfolding finish_update_def Let_def
  by (rule yields_then_still, (intro still_steps)[1], rule yields_then_still, (intro still_steps)[1],
      rule yields_bind_still, (intro still_steps)[1], rule safe_then, rule safe_set_continuation)
     (use assms in \<open>simp add: continuation_ok_def\<close>, intro safe_still still_steps)

lemma yields_read_continuation:
  assumes "yields rn x op P D C (g None)"
    and "\<And>k past. D \<subseteq> past \<Longrightarrow> continuation_ok rn x op k past \<Longrightarrow> yields rn x op P past C (g (Some k))"
  shows "yields rn x op P D C (bindS (readS (\<lambda>s. es_retry s (po_op_id op))) g)"
proof (rule yieldsI)
  fix s
  assume s: "op_inv rn x op s" "D \<subseteq> set (es_log s)" "C \<subseteq> set (recent (es_log s))"
  show "wp (bindS (readS (\<lambda>s. es_retry s (po_op_id op))) g)
      (\<lambda>a t. op_inv rn x op t \<and> grows s t \<and> P a (set (es_log t))) (\<lambda>_ t. op_inv rn x op t \<and> grows s t) s"
  proof (cases "es_retry s (po_op_id op)")
    case None
    with yieldsD [OF assms(1) s grows_refl] show ?thesis by (simp add: wp_bind wp_read)
  next
    case (Some k)
    then have "continuation_ok rn x op k (set (es_log s))" using s(1) by (simp add: op_inv_def)
    from yieldsD [OF assms(2) [OF s(2) this] s(1) subset_refl s(3) grows_refl] Some
    show ?thesis by (simp add: wp_bind wp_read)
  qed
qed

lemma safe_run_update:
  assumes op: "op \<in> set (pl_operations (xs_plan x))" "po_op_id op \<in> xs_selection x" "po_kind op = UPDATE"
  shows "safe rn x op D C (run_update rn x op)"
proof (cases "po_target_expected op")
  case (Some expected)
  have finish: "safe rn x op past {} (bindS (if uc_published c then returnS c else publish_update rn x op expected c)
      (\<lambda>c'. finish_update rn x op expected c'))"
    if "update_ok rn x op c past" for c past
    by (rule yields_bind [where Q = "update_ok rn x op"], intro yields_if yields_return yields_publish_update [OF op])
       (auto intro: continuation_ok_mono [OF _ that] safe_finish_update elim: continuation_ok_mono)
  have begin_: "safe rn x op D' C (bindS m (\<lambda>c. bindS
      (if uc_published c then returnS c else publish_update rn x op expected c)
      (\<lambda>c'. finish_update rn x op expected c')))"
    if "yields rn x op (update_ok rn x op) D' C m" for D' m
    by (rule yields_bind [OF that]) (rule finish)
  show ?thesis
    unfolding run_update_def Some option.case
  proof (rule yields_read_continuation)
    show "safe rn x op past C (bindS (case Some k of None \<Rightarrow> begin_update rn x op expected
          | Some (UpdateContinuation c) \<Rightarrow> returnS c
          | Some (MoveUpdateContinuation _) \<Rightarrow> raiseS e)
        (\<lambda>c. bindS (if uc_published c then returnS c else publish_update rn x op expected c)
          (\<lambda>c'. finish_update rn x op expected c')))"
      if "continuation_ok rn x op k past" for k past e
      using that
      by (intro begin_) (cases k, auto intro: yields_return yields_raise elim: continuation_ok_mono)
  qed (simp only: option.case, intro begin_ yields_begin_update Some)
qed (simp add: run_update_def yields_raise)

section \<open>Move-update\<close>

lemma learns_mutating:
  assumes "\<not> destructive c"
  shows "learns C (mutating c m) (\<lambda>_. {Completed c}) (\<lambda>_. True)"
proof -
  have "stays still (log_call c)"
    using assms by (auto simp: stays_def log_call_def updateS_def still_def)
  moreover have "learns C (logged (\<lambda>_. Completed c) m) (\<lambda>_. {Completed c}) (\<lambda>_. True)"
    by (rule learns_logged) simp
  ultimately show ?thesis
    unfolding mutating_def by (rule learns_then_still)
qed

lemma learns_publish_new:
  "learns C (publish_new env msg p) (\<lambda>_. {Completed (PublishNew (pc_temp p) (pc_target_path p))}) (\<lambda>_. True)"
proof -
  have "learns C' (updateS (\<lambda>s. s\<lparr>es_inflight := None\<rparr>)) (\<lambda>_. C') (\<lambda>_. True)" for C'
    by (rule learns_weaken [OF learns_still]) (auto intro: still.stays_fields)
  then show ?thesis
    unfolding publish_new_def
    by (intro learns_then [OF learns_except [OF learns_mutating learns_raise]])
       (auto intro: learns_weaken)
qed

abbreviation move_update_ok ::
    "'w run_env \<Rightarrow> execution_set \<Rightarrow> plan_operation \<Rightarrow> move_update_continuation \<Rightarrow> exec_call set \<Rightarrow> bool" where
  "move_update_ok rn x op c past \<equiv> continuation_ok rn x op (MoveUpdateContinuation c) past"

lemma yields_begin_move_update:
  "yields rn x op (move_update_ok rn x op) D C (begin_move_update rn x op)"
  unfolding begin_move_update_def Let_def
  by (rule yields_learn [OF learns_prior_target], rule yields_prod, rule yields_bind_still,
      rule still.stays_guards, rule yields_learn [OF learns_prepare_copy],
      rule yields_learn_then [OF learns_publish_new], rule yields_bind_still, rule still.stays_guards,
      rule safe_then, rule safe_set_continuation, rule_tac [2] yields_return)
     (fastforce simp: continuation_ok_def published_first_def prepared_facts_def)+

lemma yields_move_update_attestation:
  assumes "\<And>past. D \<subseteq> past \<Longrightarrow> move_update_ok rn x op c past"
  shows "yields rn x op (\<lambda>r. move_update_ok rn x op (snd r)) D C (move_update_attestation rn x op c)"
  unfolding move_update_attestation_def Let_def
  by (rule yields_option, rule yields_bind_still, rule still.stays_guards, rule yields_bind_still,
      rule still.stays_attest_copy, rule safe_then, rule safe_set_continuation,
      rule_tac [2] yields_return, rule_tac [3] yields_return)
     (use assms in \<open>auto simp: continuation_ok_def\<close>)

lemma yields_move_update_trash:
  assumes "\<And>past. D \<subseteq> past \<Longrightarrow> move_update_ok rn x op c past"
  shows "safe rn x op D C (move_update_trash rn x op c)"
  unfolding move_update_trash_def
  by (rule yields_option, rule yields_bind_still, rule still.stays_logged, simp, rule safe_then,
      rule safe_set_continuation, rule_tac [2] yields_return, rule_tac [3] yields_return)
     (use assms in \<open>auto simp: continuation_ok_def\<close>)

lemma safe_retire_old:
  assumes op: "op \<in> set (pl_operations (xs_plan x))" "po_op_id op \<in> xs_selection x" "po_kind op = MOVE_UPDATE"
    and ok: "\<And>past. D \<subseteq> past \<Longrightarrow> move_update_ok rn x op c past"
    and old: "Resolved (target_root_of rn x) (mc_old_rel c) old \<in> C"
  shows "safe rn x op D C (retire_old rn x c old trash)"
proof -
  have rename: "justified rn x past (RenameNew old trash)"
    if "D \<subseteq> set past" "C \<subseteq> set (recent past)" "RecorderFlushed \<in> set (recent past)"
      "SawStat (target_root_of rn x) (mc_old_rel c) (Some st) \<in> set (recent past)"
      "SawPath trash None \<in> set (recent past)" "matches_expected st (mc_old_expected c)" for past st
    using ok [OF that(1)] that old
    by (intro justifiedI [OF _ op(1,2)])
       (auto simp: operation_evidence_def Let_def op(3) prior_evidence_def continuation_ok_def)
  have guard: "learns C' (guard_path_stat a e r m) (\<lambda>_. {}) (\<lambda>_. matches_expected a e)" for C' a e r m
    unfolding guard_path_stat_def by (intro learns_if learns_return learns_raise) simp_all
  show ?thesis
    unfolding retire_old_def Let_def
    by (rule yields_learn [OF learns_fs_stat], rule yields_learn [OF learns_fs_stat_path],
        rule yields_option, (intro safe_still still_steps)[1], unfold thenS_def,
        rule yields_learn [OF guard], rule yields_if, rule yields_raise, rule safe_guarded_rename,
        rule rename) auto
qed

lemma safe_retire_old_tail:
  assumes op: "op \<in> set (pl_operations (xs_plan x))" "po_op_id op \<in> xs_selection x" "po_kind op = MOVE_UPDATE"
    and ok: "move_update_ok rn x op c past" and n: "\<And>old. stays still (n old)"
  shows "safe rn x op past {} (bindS (fs_resolve env (target_root_of rn x) (mc_old_rel c) False) (\<lambda>old.
    thenS (retire_old rn x c old trash) (n old)))"
  by (rule yields_learn [OF learns_fs_resolve], rule safe_then, rule safe_retire_old [OF op])
     (use ok n in \<open>auto intro: safe_still elim: continuation_ok_mono\<close>)

lemma safe_run_move_update:
  assumes op: "op \<in> set (pl_operations (xs_plan x))" "po_op_id op \<in> xs_selection x" "po_kind op = MOVE_UPDATE"
  shows "safe rn x op D C (run_move_update rn x op)"
proof -
  define rest where "rest c = bindS (require_stat_path (rn_env rn) (pc_target_path (mc_prepared c))) (\<lambda>actual.
         if \<not> same_file_version actual (mc_published_stat c)
         then fail_op E_TARGET_DRIFT (lit ''published move-update target drifted before completion'')
         else
           thenS (apply_metadata (rn_env rn) (pc_target_path (mc_prepared c)) (pc_intended (mc_prepared c))
             (preserve x) True)
           (bindS (move_update_attestation rn x op c) (\<lambda>(a, c').
            bindS (move_update_trash rn x op c') (\<lambda>trash.
            bindS (fs_resolve (rn_env rn) (target_root_of rn x) (mc_old_rel c') False) (\<lambda>old.
            thenS (retire_old rn x c' old trash)
            (bindS (durability_detail (rn_env rn)
               [path_parent (pc_target_path (mc_prepared c)), path_parent old, path_parent trash]) (\<lambda>detail.
            bindS (record_evidence (rn_env rn) detail (RecordMoveUpdated (po_op_id op) a)) (\<lambda>detail'.
            returnS (succeeded detail')))))))))" for c
  have rest: "safe rn x op past {} (rest c)" if "move_update_ok rn x op c past" for c past
  proof -
    have att: "yields rn x op (\<lambda>r. move_update_ok rn x op (snd r)) past {} (move_update_attestation rn x op c)"
      by (rule yields_move_update_attestation) (rule continuation_ok_mono [OF _ that])
    have tail: "safe rn x op past' {} (bindS (move_update_trash rn x op c') (\<lambda>trash.
            bindS (fs_resolve env (target_root_of rn x) (mc_old_rel c') False) (\<lambda>old.
            thenS (retire_old rn x c' old trash) (n trash old))))"
      if "move_update_ok rn x op c' past'" "\<And>trash old. stays still (n trash old)" for past' c' n env
      by (rule yields_bind [OF yields_move_update_trash], rule continuation_ok_mono [OF _ that(1)],
          assumption, rule safe_retire_old_tail [OF op], rule continuation_ok_mono [OF _ that(1)],
          assumption, rule that(2))
    show ?thesis
      unfolding rest_def
      by (rule yields_bind_still, rule still.stays_guards, rule yields_if, rule yields_raise,
          rule yields_then_still, rule still.stays_apply_metadata, rule yields_bind [OF att],
          rule yields_prod, rule tail, simp) (intro still_steps)
  qed
  show ?thesis
    unfolding run_move_update_def Let_def rest_def [symmetric]
  proof (rule yields_read_continuation)
    show "safe rn x op D C (bindS (case None of None \<Rightarrow> begin_move_update rn x op
          | Some (MoveUpdateContinuation c) \<Rightarrow> returnS c
          | Some (UpdateContinuation _) \<Rightarrow> raiseS e) rest)" for e
      by (simp only: option.case) (rule yields_bind [OF yields_begin_move_update rest])
  next
    fix k past e
    assume k: "continuation_ok rn x op k past"
    show "safe rn x op past C (bindS (case Some k of None \<Rightarrow> begin_move_update rn x op
          | Some (MoveUpdateContinuation c) \<Rightarrow> returnS c
          | Some (UpdateContinuation _) \<Rightarrow> raiseS e) rest)"
      using k by (cases k)
        (auto intro!: yields_bind [where Q = "move_update_ok rn x op", OF _ rest] yields_return yields_raise
          elim: continuation_ok_mono)
  qed
qed

lemma safe_execute_operation:
  assumes op: "op \<in> set (pl_operations (xs_plan x))" "po_op_id op \<in> xs_selection x"
  shows "safe rn x op D C (execute_operation rn x op)"
  unfolding execute_operation_def
  by (cases "po_kind op")
     (simp_all add: op safe_run_copy safe_run_update safe_run_move safe_run_recase
       safe_run_move_update safe_run_trash safe_run_delete safe_run_noop yields_raise)


section \<open>The run is safe\<close>

text \<open>Between operations no continuation is kept.\<close>

definition idle :: "'w run_env \<Rightarrow> execution_set \<Rightarrow> 'w exec_state \<Rightarrow> bool" where
  "idle rn x s \<longleftrightarrow> log_ok rn x (es_log s) \<and> es_retry s = Map.empty"

abbreviation safe_log :: "'w run_env \<Rightarrow> execution_set \<Rightarrow> 'w exec_state \<Rightarrow> bool" where
  "safe_log rn x s \<equiv> log_ok rn x (es_log s)"

lemma idle_op_inv: "idle rn x s \<Longrightarrow> op_inv rn x op s"
  by (simp add: idle_def op_inv_def)

lemma idle_still: "still s t \<Longrightarrow> idle rn x s \<Longrightarrow> idle rn x t"
  using still_log(3) [of s t] by (auto simp: idle_def still_def)

lemma wp_idle:
  assumes "stays still m" "idle rn x s"
  shows "wp m (\<lambda>_. idle rn x) (\<lambda>_. safe_log rn x) s"
  by (rule wp_mono [OF wp_stays [OF assms(1)]]) (use idle_still assms(2) in \<open>auto simp: idle_def\<close>)

lemma wp_safe_log:
  assumes "stays still m" "safe_log rn x s"
  shows "wp m (\<lambda>_. safe_log rn x) (\<lambda>_. safe_log rn x) s"
  by (rule wp_mono [OF wp_stays [OF assms(1)]]) (use still_log(3) assms(2) in auto)

lemma wp_op_inv:
  assumes "safe rn x op {} {} m" "op_inv rn x op s"
  shows "wp m (\<lambda>_. op_inv rn x op) (\<lambda>_. op_inv rn x op) s"
  by (rule wp_mono [OF yieldsD [OF assms _ _ grows_refl]]) auto

lemma op_inv_safe_log: "op_inv rn x op s \<Longrightarrow> safe_log rn x s"
  by (simp add: op_inv_def)

lemma still_settle: "stays still (settle pol env op sd)"
  by (intro still.stays_settle still_fields) (simp_all add: store_settled_def)

lemma still_settle_failure: "stays still (settle_failure pol env op e)"
  unfolding settle_failure_def by (rule still_settle)

lemma wp_pop_then:
  assumes "op_inv rn x op s" "stays still m"
  shows "wp (thenS (pop_continuation (po_op_id op)) m) (\<lambda>_. idle rn x) (\<lambda>_. safe_log rn x) s"
proof -
  have "idle rn x (s\<lparr>es_retry := (es_retry s)(po_op_id op := None)\<rparr>)"
    using assms(1) by (auto simp: idle_def op_inv_def fun_eq_iff)
  from wp_idle [OF assms(2) this] show ?thesis
    by (simp add: wp_then pop_continuation_def wp_update)
qed

lemma wp_give_up:
  assumes "op_inv rn x op s"
  shows "wp (give_up rn op e d) (\<lambda>_. idle rn x) (\<lambda>_. safe_log rn x) s"
  unfolding give_up_def wp_bind
  by (rule wp_mono [OF wp_op_inv [OF safe_still [OF still.stays_cleanup_inflight] assms]])
     (auto intro!: wp_pop_then still.stays_then still_settle_failure still.stays_when still.stays_fields
       op_inv_safe_log)

lemma wp_run_attempts:
  assumes "op \<in> set (pl_operations (xs_plan x))" "po_op_id op \<in> xs_selection x" "op_inv rn x op s"
  shows "wp (run_attempts rn x op n) (\<lambda>_. idle rn x) (\<lambda>_. safe_log rn x) s"
  using assms
proof (induction rn x op n arbitrary: s rule: run_attempts.induct)
  case (1 rn x op n)
  let ?wp = "\<lambda>m. wp m (\<lambda>_. idle rn x) (\<lambda>_. safe_log rn x)"
  have retry: "?wp (bindS (before_retry rn op delay) (\<lambda>_. run_attempts rn x op (n + 1))) t"
    if "n \<le> ep_max_retries (rn_policies rn)" "op_inv rn x op t" for e delay t
    unfolding wp_bind
    by (rule wp_mono [OF wp_op_inv [OF safe_still [OF still.stays_before_retry] that(2)]])
       (auto intro: 1 that(1) op_inv_safe_log)
  have decided: "?wp (case d of
       Retry delay \<Rightarrow>
         (if n \<le> ep_max_retries (rn_policies rn)
          then bindS (before_retry rn op delay) (\<lambda>_. run_attempts rn x op (n + 1))
          else give_up rn op e d)
     | _ \<Rightarrow> give_up rn op e d) t" if "op_inv rn x op t" for d e t
    using that by (cases d) (auto intro: wp_give_up retry)
  have failed: "?wp (bindS (world (en_on_item_failed (rn_env rn) op e n)) (\<lambda>d. case d of
       Retry delay \<Rightarrow>
         (if n \<le> ep_max_retries (rn_policies rn)
          then bindS (before_retry rn op delay) (\<lambda>_. run_attempts rn x op (n + 1))
          else give_up rn op e d)
     | _ \<Rightarrow> give_up rn op e d)) t" if "op_inv rn x op t" for e t
    unfolding wp_bind [of "world m" for m]
    by (rule wp_mono [OF wp_op_inv [OF safe_still [OF still.stays_world] that]])
       (auto intro: decided op_inv_safe_log)
  show ?case
    unfolding run_attempts.simps [of rn x op n] wp_try_else
    by (rule wp_mono [OF wp_op_inv [OF safe_execute_operation [OF 1(2,3)] 1(4)]])
       (auto intro!: wp_pop_then still_settle intro: op_inv_safe_log failed)
qed

lemma still_start_directory: "stays still (start_directory rn x op)"
proof -
  have "stays still (updateS (\<lambda>s. s\<lparr>es_pending_dirs := f s, es_ready_dirs := g s\<rparr>))"
    for f and g :: "'a exec_state \<Rightarrow> op_id set"
    by (simp add: stays_def updateS_def still_fields)
  then show ?thesis
    unfolding start_directory_def by (intro still_steps) simp_all
qed

lemma still_finalize_directories: "stays still (finalize_directories rn x)"
proof -
  have "stays still (updateS (\<lambda>s. s\<lparr>es_pending_dirs := []\<rparr>))"
    by (simp add: stays_def updateS_def still_fields)
  then show ?thesis
    unfolding finalize_directories_def finalize_directory_def complete_directory_def
    by (intro still_steps still_settle still_settle_failure)
qed

lemma still_on_canceled: "stays still (on_canceled rn x)"
  unfolding on_canceled_def cancel_remaining_def
  by (intro still_steps still_finalize_directories still_settle)

lemma still_on_paused: "stays still (on_paused rn x)"
  unfolding on_paused_def by (intro still_steps still_finalize_directories)

lemma still_on_crash: "stays still (on_crash rn)"
  unfolding on_crash_def by (intro still_steps)

lemma wp_settle_or_run:
  assumes "op \<in> set (pl_operations (xs_plan x))" "po_op_id op \<in> xs_selection x" "idle rn x s"
  shows "wp (settle_or_run rn x op stop ready) (\<lambda>_. idle rn x) (\<lambda>_. safe_log rn x) s"
proof -
  have harmless: "wp m (\<lambda>_. idle rn x) (\<lambda>_. safe_log rn x) s" if "stays still m" for m :: "('a, unit) exec"
    using wp_idle [OF that assms(3)] .
  have "stays still (exceptS (start_directory rn x op) p (settle_failure (rn_policies rn) (rn_env rn) op))" for p
    by (intro still.stays_except still_start_directory still_settle_failure)
  then show ?thesis
    unfolding settle_or_run_def Let_def
    by (auto intro!: harmless still_settle wp_run_attempts [OF assms(1,2) idle_op_inv [OF assms(3)]]
        split: option.split)
qed

lemma wp_still_then:
  assumes "stays still m" "idle rn x s" "\<And>a t. idle rn x t \<Longrightarrow> wp (g a) (\<lambda>_. idle rn x) (\<lambda>_. safe_log rn x) t"
  shows "wp (bindS m g) (\<lambda>_. idle rn x) (\<lambda>_. safe_log rn x) s"
  unfolding wp_bind by (rule wp_mono [OF wp_idle [OF assms(1,2)]]) (auto intro: assms(3))

lemma wp_execute_one:
  assumes "op \<in> set (pl_operations (xs_plan x))" "idle rn x s"
  shows "wp (execute_one rn x op) (\<lambda>_. idle rn x) (\<lambda>_. safe_log rn x) s"
proof (cases "po_op_id op \<in> xs_selection x")
  case True
  show ?thesis
    unfolding execute_one_def thenS_def
    by (rule wp_still_then [OF still.stays_basic(3) assms(2)], rule wp_ifI,
        simp add: wp_return, (rule wp_still_then, (intro still_steps)[1], assumption)+,
        rule wp_settle_or_run [OF assms(1) True])
next
  case False
  then show ?thesis
    by (simp add: execute_one_def wp_bind wp_read wp_return assms(2))
qed

lemma wp_execute_body_safe:
  assumes "idle rn x s"
  shows "wp (execute_body rn x) (\<lambda>_. safe_log rn x) (\<lambda>_. safe_log rn x) s"
proof -
  have early: "stays (keeps (idle rn x)) m" if "stays still m" for m :: "('a, unit) exec"
    using that unfolding stays_def keeps_def by (blast intro: idle_still)
  have late: "stays (keeps (safe_log rn x)) m" if "stays still m" for m :: "('a, unit) exec"
    using that unfolding stays_def keeps_def by (blast intro: still_log(3))
  show ?thesis
  proof (rule wp_execute_body_via [where I = "idle rn x"])
    show "wp (forS (pl_operations (xs_plan x)) (execute_one rn x)) (\<lambda>_. safe_log rn x) (\<lambda>_. safe_log rn x) t"
      if "idle rn x t" for t
      by (rule wp_mono [OF wp_for [OF wp_execute_one that]]) (auto simp: idle_def)
  qed (use assms in \<open>(intro early late still_steps still_finalize_directories still_on_canceled
      still_on_paused still_on_crash | simp add: idle_def)+\<close>)
qed

end
