(* ===== verification/Executor_Settling.thy ===== *)
theory Executor_Settling
  imports Executor_Lemmas
begin

text \<open>
  How a run accounts for the selected operations: every path through an operation, a directory, a
  cancellation settles_more it, a settled operation keeps its outcome, and the result reports one
  outcome for each.
\<close>

section \<open>What a return means\<close>

definition has_outcome :: "op_id \<Rightarrow> 'w exec_state \<Rightarrow> bool" where
  "has_outcome k s \<longleftrightarrow> xs_status (es_xset s) k \<noteq> None"

definition covered :: "plan_operation \<Rightarrow> 'w exec_state \<Rightarrow> bool" where
  "covered op s \<longleftrightarrow> has_outcome (po_op_id op) s \<or> op \<in> set (es_pending_dirs s)"

lemma settles_settled: "settles_more s t \<Longrightarrow> has_outcome k s \<Longrightarrow> has_outcome k t"
  by (auto simp: settles_more_def has_outcome_def)

lemma settled_kept_observed: "exec_observer (keeps (has_outcome k)) (\<lambda>_. True)"
  by unfold_locales (auto simp: keeps_def has_outcome_def)

interpretation settled_kept: exec_run "keeps (has_outcome k)" "\<lambda>_. True" for k
  by unfold_locales
     (auto simp: keeps_def has_outcome_def store_settled_def
       intro!: exec_observer.stays_settle [OF settled_kept_observed])

lemma covering_observed: "exec_observer (keeps (covered op)) (\<lambda>_. True)"
  by unfold_locales (auto simp: keeps_def covered_def has_outcome_def)

interpretation covering: exec_run "keeps (covered op)" "\<lambda>_. True" for op
  by unfold_locales
     (auto simp: keeps_def covered_def has_outcome_def store_settled_def
       intro!: exec_observer.stays_settle [OF covering_observed])

lemma settled_kept_clear: "keeps (has_outcome k) s (s\<lparr>es_pending_dirs := []\<rparr>)"
  by (simp add: keeps_def has_outcome_def)

lemma ensures_settle: "ensures (settle pol env op sd) (has_outcome (po_op_id op))"
proof -
  let ?rest = "thenS (emit_body env (ItemOutcome (settled_event op sd)))
    (progress_settled pol env op (sd_outcome sd))"
  have rest: "stays (keeps (has_outcome (po_op_id op))) ?rest"
    by (intro settled_kept.observer_rules settled_kept.stays_progress_settled) (simp add: keeps_def has_outcome_def)
  have store: "has_outcome (po_op_id op) (store_settled op sd s)" for s :: "'w exec_state"
    by (simp add: has_outcome_def store_settled_def)
  have "wp ?rest (\<lambda>_. has_outcome (po_op_id op)) (\<lambda>_ _. True) (store_settled op sd s)" for s
    using rest store by (auto simp: stays_keeps intro: wp_any_exn)
  then show ?thesis
    by (auto simp: ensures_def settle_def wp_rules has_outcome_def split: sum.split)
qed

lemma ensures_settle_failure: "ensures (settle_failure pol env op e) (has_outcome (po_op_id op))"
  unfolding settle_failure_def by (rule ensures_settle)

lemma ensures_give_up: "ensures (give_up rn op e d) (has_outcome (po_op_id op))"
  unfolding give_up_def
  by (intro ensures_bind ensures_then [OF ensures_then_keeps] ensures_settle_failure
      settled_kept.operation_rules)

lemma ensures_run_attempts: "ensures (run_attempts rn x op n) (has_outcome (po_op_id op))"
proof (induction rn x op n rule: run_attempts.induct)
  case (1 rn x op n)
  have "ensures (case d of
       Retry delay \<Rightarrow>
         (if n \<le> ep_max_retries (rn_policies rn)
          then bindS (before_retry rn op delay) (\<lambda>_. run_attempts rn x op (n + 1))
          else give_up rn op e d)
     | _ \<Rightarrow> give_up rn op e d) (has_outcome (po_op_id op))" for e d
  proof (cases d)
    case (Retry delay)
    then show ?thesis
      by (simp only: failure_decision.case) (intro ensures_if ensures_bind ensures_give_up 1; assumption)
  qed (simp_all add: ensures_give_up)
  then show ?case
    by (subst run_attempts.simps) (intro ensures_try_else ensures_bind ensures_then ensures_settle)
qed

lemma ensures_complete_directory: "ensures (complete_directory rn x op) (has_outcome (po_op_id op))"
  unfolding complete_directory_def Let_def by (intro ensures_rules ensures_settle)

lemma ensures_finalize_directory: "ensures (finalize_directory rn x op) (has_outcome (po_op_id op))"
  unfolding finalize_directory_def
  by (intro ensures_finally ensures_except ensures_complete_directory ensures_settle_failure
      settled_kept.operation_rules)

lemma covered_settled: "ensures m (has_outcome (po_op_id op)) \<Longrightarrow> ensures m (covered op)"
  by (erule ensures_mono) (simp add: covered_def)

lemma ensures_start_directory: "ensures (start_directory rn x op) (covered op)"
  unfolding start_directory_def Let_def
  by (intro ensures_bind ensures_then) (simp add: ensures_def wp_rules covered_def)

lemma ensures_settle_or_run: "ensures (settle_or_run rn x op stop ready) (covered op)"
  unfolding settle_or_run_def Let_def
  by (intro ensures_if ensures_option ensures_except ensures_start_directory covered_settled
      ensures_settle ensures_settle_failure ensures_run_attempts)

lemma ensures_execute_one:
  "ensures (execute_one rn x op) (\<lambda>s. po_op_id op \<in> xs_selection x \<longrightarrow> covered op s)"
proof (rule ensuresI)
  fix s
  have rest: "ensures (thenS m1 (thenS m2 (thenS m3 (bindS m4 (\<lambda>stop. bindS m5
      (\<lambda>ready. settle_or_run rn x op stop ready)))))) (covered op)" for m1 m2 m3 m4 m5
    by (intro ensures_then ensures_bind ensures_settle_or_run)
  show "wp (execute_one rn x op) (\<lambda>_ s. po_op_id op \<in> xs_selection x \<longrightarrow> covered op s) (\<lambda>_ _. True) s"
    unfolding execute_one_def wp_bind [of "readS (\<lambda>s. xs_status (es_xset s) (po_op_id op))"] wp_read wp_if
    by (auto simp: wp_return covered_def has_outcome_def
        intro: wp_mono [OF ensuresD [OF rest [unfolded covered_def has_outcome_def]]])
qed

definition all_settled :: "execution_set \<Rightarrow> 'w exec_state \<Rightarrow> bool" where
  "all_settled x s \<longleftrightarrow>
     (\<forall>op \<in> set (pl_operations (xs_plan x)). po_op_id op \<in> xs_selection x \<longrightarrow> has_outcome (po_op_id op) s)"

lemma all_settled_mono: "settles_more s t \<Longrightarrow> all_settled x s \<Longrightarrow> all_settled x t"
  by (auto simp: all_settled_def intro: settles_settled)

lemma keeps_all_settled: "stays settles_more m \<Longrightarrow> stays (keeps (all_settled x)) m"
  unfolding stays_def keeps_def by (meson all_settled_mono)

lemma wp_finalize_directories:
  "wp (finalize_directories rn x) (\<lambda>_ t. \<forall>op. covered op s \<longrightarrow> has_outcome (po_op_id op) t) (\<lambda>_ _. True) s"
proof -
  define ops where "ops = sort_key (\<lambda>op. - int (length (win_parts (po_target op)))) (es_pending_dirs s)"
  let ?s = "s\<lparr>es_pending_dirs := []\<rparr>"
  have loop: "wp (forS ops (finalize_directory rn x))
      (\<lambda>_ t. \<forall>op \<in> set ops. has_outcome (po_op_id op) t) (\<lambda>_ _. True) ?s"
    by (intro ensuresD ensures_for ensures_finalize_directory settled_kept.stays_finalize_directory)
  have grows: "wp (forS ops (finalize_directory rn x)) (\<lambda>_. settles_more ?s) (\<lambda>_. settles_more ?s) ?s"
    by (intro wp_stays settling.stays_for settling.stays_finalize_directory)
  have "has_outcome (po_op_id op) t"
    if "\<forall>op \<in> set ops. has_outcome (po_op_id op) t" "settles_more ?s t" "covered op s" for op t
  proof (cases "op \<in> set (es_pending_dirs s)")
    case False
    with that(3) have "has_outcome (po_op_id op) ?s" by (simp add: covered_def has_outcome_def)
    with that(2) show ?thesis by (rule settles_settled)
  qed (use that(1) in \<open>simp add: ops_def\<close>)
  then show ?thesis
    unfolding finalize_directories_def ops_def [symmetric]
    by (auto simp: wp_bind wp_read wp_then wp_update ops_def [symmetric]
        intro: wp_mono [OF wp_conj [OF loop grows]])
qed

lemma wp_run_operations:
  "wp (run_operations rn x) (\<lambda>_. all_settled x) (\<lambda>_ _. True) s"
proof -
  have loop: "ensures (forS (pl_operations (xs_plan x)) (execute_one rn x))
      (\<lambda>s. \<forall>op \<in> set (pl_operations (xs_plan x)). po_op_id op \<in> xs_selection x \<longrightarrow> covered op s)"
    (is "ensures _ ?covered")
  proof (intro ensures_for ensures_execute_one)
    show "stays (keeps (\<lambda>s. po_op_id op \<in> xs_selection x \<longrightarrow> covered op s)) (execute_one rn x op')"
      for op op'
      using covering.stays_execute_one [of op rn x op'] by (auto simp: stays_def keeps_def)
  qed
  have tail: "stays (keeps (all_settled x)) (thenS (restore_completed_directory_metadata rn x) (flush_at_end (rn_env rn)))"
    for x rn
    by (intro keeps_all_settled settling.stays_then settling.stays_restore_completed
        settling.stays_flush_at_end)
  have settled: "wp (finalize_directories rn x) (\<lambda>_. all_settled x) (\<lambda>_ _. True) t" if "?covered t" for t
    by (rule wp_mono [OF wp_finalize_directories]) (use that in \<open>auto simp: all_settled_def\<close>)
  have fin: "wp (finalize_directories rn x)
      (\<lambda>_. wp (thenS (restore_completed_directory_metadata rn x) (flush_at_end (rn_env rn)))
         (\<lambda>_. all_settled x) (\<lambda>_ _. True)) (\<lambda>_ _. True) t" if "?covered t" for t
    by (rule wp_mono [OF settled [OF that]]) (use tail [of x rn] in \<open>auto simp: stays_keeps intro: wp_any_exn\<close>)
  show ?thesis
    unfolding run_operations_def wp_then [of "forS xs f" for xs f] wp_then [of "finalize_directories rn x"]
    by (rule wp_mono [OF ensuresD [OF loop]]) (auto intro: fin)
qed

lemma wp_on_canceled: "wp (on_canceled rn x) (\<lambda>_. all_settled x) (\<lambda>_ _. True) s"
proof -
  let ?P = "\<lambda>op s. po_op_id op \<in> xs_selection x \<longrightarrow> has_outcome (po_op_id op) s"
  have one: "ensures (cancel_remaining rn x ce op) (?P op)" for ce op
    unfolding ensures_def cancel_remaining_def wp_bind wp_read wp_when
    by (auto simp: has_outcome_def intro: ensuresD ensures_mono [OF ensures_settle [unfolded has_outcome_def]])
  have loop: "ensures (forS (pl_operations (xs_plan x)) (cancel_remaining rn x ce)) (all_settled x)" for ce
    unfolding all_settled_def
  proof (intro ensures_for one)
    show "stays (keeps (?P op)) (cancel_remaining rn x ce op')" for op op'
      using settled_kept.stays_cancel_remaining [of "po_op_id op" rn x ce op'] by (auto simp: stays_def keeps_def)
  qed
  have tail: "stays (keeps (all_settled x)) (flush_at_end env)" for env :: "'a exec_env"
    by (intro keeps_all_settled settling.stays_flush_at_end)
  have "ensures (on_canceled rn x) (all_settled x)"
    unfolding on_canceled_def
    by (intro ensures_bind ensures_then [OF ensures_then_keeps] loop tail)
  then show ?thesis by (rule ensuresD)
qed

section \<open>Where cancellation comes from\<close>

text \<open>
  \<^verbatim>\<open>Canceled\<close> and \<^verbatim>\<open>PauseRequested\<close> are raised by the checkpoint of the run context, which the executor
  calls itself and hands to the copies. \<open>calm_env\<close> says that the other collaborators that the
  winding-down uses do not raise them: the event sink, the clock, and the path, stat and metadata
  primitives of the filesystem.
\<close>

definition calm_env :: "'w exec_env \<Rightarrow> bool" where
  "calm_env env \<longleftrightarrow>
     (\<forall>b. calm (en_emit env b)) \<and> calm (en_monotonic env)
     \<and> (\<forall>b r m. calm (en_resolve env b r m)) \<and> (\<forall>p. calm (en_stat_path env p))
     \<and> (\<forall>p st c r. calm (en_apply_metadata env p st c r))"

lemma not_signal_operation_failure [simp]: "\<not> is_signal (operation_failure r m c)"
  by (simp add: is_signal_def operation_failure_def)

lemma calm_world: "calm m \<Longrightarrow> calm (world m)"
  unfolding world_def by (rule calm_through)

lemma calm_logged: "calm m \<Longrightarrow> calm (logged c m)"
  unfolding logged_def log_call_def by (intro raises_only_rules calm_world)

lemma calm_mutating: "calm m \<Longrightarrow> calm (mutating c m)"
  unfolding mutating_def log_call_def by (intro raises_only_rules calm_logged)

lemmas calm_rules = raises_only_rules calm_caught calm_world calm_logged calm_mutating calm_pure

lemma calm_flush_directories: "calm (flush_directories env seen ds)"
proof (induction ds arbitrary: seen)
  case (Cons d ds)
  show ?case by (simp add: Cons.IH) (intro calm_rules impI Cons.IH)
qed (simp add: raises_only_basic)

lemma calm_calls:
  assumes "calm_env env"
  shows "calm (emit_body env b)" "calm (fs_resolve env base rel must)" "calm (fs_stat_path env p)"
    "calm (apply_metadata env p st c r)" "calm (world (en_monotonic env))"
  using assms unfolding calm_env_def emit_body_def fs_resolve_def fs_stat_path_def apply_metadata_def
  by (auto intro: calm_rules)

lemma calm_progress_emit: "calm_env env \<Longrightarrow> calm (progress_emit pol env force)"
  unfolding progress_emit_def by (intro calm_rules calm_calls)

lemma calm_settle: "calm_env env \<Longrightarrow> calm (settle pol env op sd)"
  unfolding settle_def progress_settled_def
  by (intro calm_rules calm_calls calm_progress_emit)

lemma calm_settle_failure: "calm_env env \<Longrightarrow> calm (settle_failure pol env op e)"
  unfolding settle_failure_def by (rule calm_settle)

lemma calm_cleanup_inflight: "calm (cleanup_inflight env)"
  unfolding cleanup_inflight_def by (intro calm_rules)

lemma calm_flush_at_end: "calm (flush_at_end env)"
  unfolding flush_at_end_def by (intro calm_rules)

lemma calm_durability_detail: "calm (durability_detail env ds)"
  unfolding durability_detail_def by (intro calm_rules calm_flush_directories)

lemma calm_record_evidence: "calm (record_evidence env d c)"
  unfolding record_evidence_def by (intro calm_rules)

lemma calm_require_stat_path: "calm_env env \<Longrightarrow> calm (require_stat_path env p)"
  unfolding require_stat_path_def by (intro calm_rules calm_calls) simp_all

lemma calm_directory_metadata: "calm_env (rn_env rn) \<Longrightarrow> calm (directory_metadata rn x op st)"
  unfolding directory_metadata_def by (intro calm_rules calm_calls)

lemma calm_finalize_directories: "calm_env (rn_env rn) \<Longrightarrow> calm (finalize_directories rn x)"
  unfolding finalize_directories_def finalize_directory_def complete_directory_def Let_def
  by (intro calm_rules calm_except calm_settle_failure calm_settle calm_directory_metadata
      calm_durability_detail calm_require_stat_path calm_record_evidence) simp_all

lemma calm_restore_completed: "calm (restore_completed_directory_metadata rn x)"
  unfolding restore_completed_directory_metadata_def restore_directory_def
  by (intro calm_rules)

lemma calm_on_canceled: "calm_env (rn_env rn) \<Longrightarrow> calm (on_canceled rn x)"
  unfolding on_canceled_def cancel_remaining_def
  by (intro calm_rules calm_cleanup_inflight calm_finalize_directories calm_settle calm_flush_at_end)

lemma calm_on_paused: "calm_env (rn_env rn) \<Longrightarrow> calm (on_paused rn x)"
  unfolding on_paused_def
  by (intro calm_rules calm_cleanup_inflight calm_finalize_directories calm_restore_completed
      calm_flush_at_end)

lemma calm_on_crash: "calm (on_crash rn)"
  unfolding on_crash_def by (intro calm_rules calm_cleanup_inflight calm_flush_at_end)

section \<open>Every selected operation is accounted for\<close>

abbreviation settled_if_canceled :: "execution_set \<Rightarrow> exception \<Rightarrow> 'w exec_state \<Rightarrow> bool" where
  "settled_if_canceled x e s \<equiv> ex_class e = X_CANCELED \<longrightarrow> all_settled x s"

lemma wp_guarded_run:
  assumes "calm_env (rn_env rn)"
  shows "wp (guarded_run rn x) (\<lambda>_. all_settled x) (settled_if_canceled x) s"
proof -
  have canceled: "wp (on_canceled rn x) (\<lambda>_. all_settled x) (settled_if_canceled x) t" for t
    by (rule wp_mono [OF wp_conj [OF wp_on_canceled raises_onlyD [OF calm_on_canceled [OF assms]]]])
       (auto dest: not_signal_not_canceled)
  have harmless: "wp m (\<lambda>_ _. True) (settled_if_canceled x) t" if "calm m" for m :: "('a, unit) exec" and t
    by (rule wp_mono [OF raises_onlyD [OF that]]) (auto dest: not_signal_not_canceled)
  show ?thesis
    unfolding guarded_run_def wp_except
    by (rule wp_mono [OF wp_run_operations])
       (auto simp: wp_then wp_raise wp_if
         intro!: wp_mono [OF canceled] wp_mono [OF harmless [OF calm_on_paused [OF assms]]]
           wp_mono [OF harmless [OF calm_on_crash]])
qed

lemma wp_execute_body:
  assumes "calm_env (rn_env rn)"
  shows "wp (execute_body rn x) (\<lambda>_. all_settled x) (settled_if_canceled x) s"
proof -
  have calm: "wp m (\<lambda>_. P) (settled_if_canceled x) t"
    if "calm m" "stays (keeps P) m" "P t" for m :: "('a, 'c) exec" and P t
    by (rule wp_mono [OF wp_conj [OF raises_onlyD [OF that(1)]
          that(2) [unfolded stays_keeps, rule_format, OF that(3)]]])
       (auto dest: not_signal_not_canceled)
  define rest where "rest = (bindS (readS (\<lambda>s. mapE (reported_outcome s)
        (filter (\<lambda>op. po_op_id op \<in> xs_selection x) (pl_operations (xs_plan x))))) (\<lambda>items.
      bindS (pureS items) (\<lambda>operations.
      thenS (progress_emit (rn_policies rn) (rn_env rn) True)
      (bindS (readS (\<lambda>s. run_result x s operations)) (\<lambda>result.
      thenS (pureS (operation_result_post_init result)) (returnS result))))))"
  have rest: "wp rest (\<lambda>_. all_settled x) (settled_if_canceled x) t" if "all_settled x t" for t
    unfolding rest_def
    by (intro calm that calm_rules calm_progress_emit assms keeps_all_settled settling.total_rules)
  have first: "wp (emit_body (rn_env rn) b) (\<lambda>_ _. True) (settled_if_canceled x) t" for b t
    by (rule wp_mono [OF raises_onlyD [OF calm_calls(1) [OF assms]]]) (auto dest: not_signal_not_canceled)
  have second: "wp (progress_emit (rn_policies rn) (rn_env rn) True) (\<lambda>_ _. True) (settled_if_canceled x) t" for t
    by (rule wp_mono [OF raises_onlyD [OF calm_progress_emit [OF assms]]])
       (auto dest: not_signal_not_canceled)
  show ?thesis
    unfolding execute_body_def rest_def [symmetric] wp_then
    by (rule wp_mono [OF first], rule wp_mono [OF second], rule wp_mono [OF wp_guarded_run [OF assms]])
       (auto intro: rest)
qed

end
