(* ===== verification/Executor_Samples.thy ===== *)
theory Executor_Samples
  imports Executor_Settling Samples
begin

text \<open>
  A small disk on which runs of the executor are evaluated: files by path, and the number of
  checkpoints after which the run context cancels.
\<close>

record disk =
  dk_files :: "(path \<times> (file_stat \<times> bytes)) list"
  dk_checkpoints :: nat
  dk_written :: bytes

definition disk_file :: "path \<Rightarrow> disk \<Rightarrow> (file_stat \<times> bytes) option" where
  "disk_file p d = map_of (dk_files d) p"

definition disk_put :: "path \<Rightarrow> file_stat \<times> bytes \<Rightarrow> disk \<Rightarrow> disk" where
  "disk_put p f d = d\<lparr>dk_files := (p, f) # filter (\<lambda>kv. fst kv \<noteq> p) (dk_files d)\<rparr>"

definition disk_remove :: "path \<Rightarrow> disk \<Rightarrow> disk" where
  "disk_remove p d = d\<lparr>dk_files := filter (\<lambda>kv. fst kv \<noteq> p) (dk_files d)\<rparr>"

definition disk_join :: "path \<Rightarrow> pystr \<Rightarrow> path" where
  "disk_join base rel = Path (pa_anchor base) (pa_parts base @ split_on backslash rel)"

definition disk_rename :: "path \<Rightarrow> path \<Rightarrow> (disk, unit) effect" where
  "disk_rename old new =
     bindS (readS (disk_file old)) (\<lambda>f.
       case f of
         None \<Rightarrow> raiseS (simple_exn X_FILE_NOT_FOUND ''FileNotFoundError'' [])
       | Some f \<Rightarrow> updateS (\<lambda>d. disk_put new f (disk_remove old d)))"

definition disk_checkpoint :: "(disk, unit) effect" where
  "disk_checkpoint =
     bindS (readS dk_checkpoints) (\<lambda>n.
       if n = 0 then raiseS (simple_exn X_CANCELED ''Canceled'' [])
       else updateS (\<lambda>d. d\<lparr>dk_checkpoints := n - 1\<rparr>))"

definition disk_env :: "disk exec_env" where
  "disk_env = \<lparr>
     en_lower = (\<lambda>s. s),
     en_emit = (\<lambda>_. returnS ()),
     en_checkpoint = disk_checkpoint,
     en_monotonic = returnS 0,
     en_sleep = (\<lambda>_. returnS ()),
     en_now = returnS \<lparr>dt_micros = 0, dt_utcoffset = Some 0\<rparr>,
     en_on_item_failed = (\<lambda>_ _ _. returnS Continue),
     en_flush = returnS (),
     en_record = (\<lambda>_. returnS ()),
     en_resolve = (\<lambda>base rel _. returnS (disk_join base rel)),
     en_stat = (\<lambda>base rel. readS (\<lambda>d. map_option fst (disk_file (disk_join base rel) d))),
     en_stat_path = (\<lambda>p. readS (\<lambda>d. map_option fst (disk_file p d))),
     en_owned_temp = (\<lambda>p _ _. returnS (Path (pa_anchor p) (pa_parts p @ [lit ''tmp'']))),
     en_remove_owned_temp = (\<lambda>p. updateS (disk_remove p)),
     en_open_source = (\<lambda>p n. readS (\<lambda>d. case disk_file p d of
        None \<Rightarrow> [] | Some (_, data) \<Rightarrow> [Inr data, Inr []])),
     en_create_temp = (\<lambda>p. updateS (\<lambda>d. disk_put p (sample_stat FILE 0 0, []) (d\<lparr>dk_written := []\<rparr>))),
     en_write = (\<lambda>p v. thenS (updateS (\<lambda>d. d\<lparr>dk_written := dk_written d @ v\<rparr>)) (returnS (Some (int (length v))))),
     en_close = (\<lambda>_. returnS ()),
     en_flush_file = (\<lambda>p. updateS (\<lambda>d. disk_put p
        (sample_stat FILE (int (length (dk_written d))) 0, dk_written d) d)),
     en_flush_path = (\<lambda>_. returnS ()),
     en_apply_metadata = (\<lambda>p st _ _. updateS (\<lambda>d. case disk_file p d of
        None \<Rightarrow> d | Some (_, data) \<Rightarrow> disk_put p (st, data) d)),
     en_copy_security = (\<lambda>_ _. returnS ()),
     en_publish_new = disk_rename,
     en_replace = disk_rename,
     en_hardlink = (\<lambda>_ _. returnS ()),
     en_copy_backup = (\<lambda>_ _ _. returnS ()),
     en_clear_readonly = (\<lambda>_. returnS ()),
     en_rename_new = disk_rename,
     en_mkdir_new = (\<lambda>p. updateS (disk_put p (sample_stat DIRECTORY 0 0, []))),
     en_remove_file = (\<lambda>p. updateS (disk_remove p)),
     en_remove_directory = (\<lambda>p. updateS (disk_remove p)),
     en_trash_destination = (\<lambda>base _ rel. returnS (disk_join (disk_join base (lit ''trash'')) rel)),
     en_flush_directory = (\<lambda>_. returnS True)\<rparr>"

definition disk_run :: "disk run_env" where
  "disk_run = \<lparr>rn_runtime = sample_runtime,
     rn_policies = \<lparr>ep_chunk_size = 4, ep_max_retries = 2, ep_progress_interval = 0\<rparr>,
     rn_env = disk_env\<rparr>"

text \<open>A copy of a file of seven bytes, and a file that goes to the trash.\<close>

definition disk_trash :: plan_operation where
  "disk_trash = sample_operation 3 TRASH None (lit ''old'') 9 [] None"

definition disk_set :: execution_set where
  "disk_set = \<lparr>xs_plan = sample_plan [sample_copy, disk_trash],
     xs_selection = {sample_id 2, sample_id 3}, xs_run_id = replicate 32 48,
     xs_status = Map.empty, xs_commitment = None\<rparr>"

definition disk_start :: "nat \<Rightarrow> disk" where
  "disk_start n = \<lparr>dk_files =
     [(Path (lit ''C:'') [lit ''a''], (sample_stat FILE 7 1000, [1, 2, 3, 4, 5, 6, 7])),
      (Path (lit ''D:'') [lit ''old''], (sample_stat FILE 9 5, []))],
     dk_checkpoints = n, dk_written = []\<rparr>"

lemma disk_calm: "calm_env (rn_env disk_run)"
  by (simp add: calm_env_def disk_run_def disk_env_def raises_only_def wp_return wp_read wp_update)

end
