(* ===== verification/Executor_Properties.thy ===== *)
theory Executor_Properties
  imports Executor_Safety Executor_Samples
begin

text \<open>
  What a run of the executor promises: destructive calls come after their evidence, every selected
  operation is accounted for, retries are bounded.
\<close>

section \<open>Retries\<close>

fun slept :: "exec_call \<Rightarrow> bool" where
  "slept (Slept d) = True"
| "slept c = False"

definition naps :: "'w exec_state \<Rightarrow> nat" where
  "naps s = length (filter slept (es_log s))"

definition awake :: "'w exec_state \<Rightarrow> 'w exec_state \<Rightarrow> bool" where
  "awake s t \<longleftrightarrow> naps t = naps s"

lemma awake_log: "es_log t = es_log s \<Longrightarrow> awake s t"
  by (simp add: awake_def naps_def)

lemma quiet_not_slept: "harmless c \<Longrightarrow> \<not> slept c" "destructive c \<Longrightarrow> \<not> slept c" "observation c \<Longrightarrow> \<not> slept c"
  by (cases c; simp)+

lemma awake_observed: "exec_observer awake (\<lambda>c. \<not> slept c)"
  by unfold_locales (auto simp: awake_def naps_def quiet_not_slept)

interpretation awake: exec_total awake "\<lambda>c. \<not> slept c"
  by unfold_locales
     (auto simp: awake_def naps_def quiet_not_slept store_settled_def
       intro!: exec_observer.stays_settle [OF awake_observed])

text \<open>A part of a run with a budget of naps.\<close>

definition naps_at_most :: "nat \<Rightarrow> ('w, 'a) exec \<Rightarrow> bool" where
  "naps_at_most n m \<longleftrightarrow> (\<forall>s. naps (snd (m s)) \<le> naps s + n)"

lemma naps_at_most_awake: "stays awake m \<Longrightarrow> naps_at_most 0 m"
  by (simp add: naps_at_most_def stays_def awake_def)

lemma naps_at_most_mono: "naps_at_most m c \<Longrightarrow> m \<le> n \<Longrightarrow> naps_at_most n c"
  by (auto simp: naps_at_most_def intro: le_trans)

lemma naps_at_mostD: "naps_at_most n m \<Longrightarrow> m s = (r, t) \<Longrightarrow> naps t \<le> naps s + n"
  unfolding naps_at_most_def by (metis snd_conv)

lemma naps_at_most_try_else:
  fixes m :: "('w, 'a) exec" and k :: "'a \<Rightarrow> ('w, 'b) exec"
  assumes "naps_at_most i m" "\<And>e. p e \<Longrightarrow> naps_at_most j (h e)" "\<And>a. naps_at_most j (k a)"
  shows "naps_at_most (i + j) (tryElseS m p h k)"
  unfolding naps_at_most_def
proof (intro allI)
  fix s
  obtain r t where m: "m s = (r, t)" by force
  have rest: "naps (snd (n t)) \<le> naps s + (i + j)" if "naps_at_most j n" for n :: "('w, 'b) exec"
  proof -
    have "naps (snd (n t)) \<le> naps t + j" using that by (simp add: naps_at_most_def)
    with naps_at_mostD [OF assms(1) m] show ?thesis by linarith
  qed
  show "naps (snd (tryElseS m p h k s)) \<le> naps s + (i + j)"
    using naps_at_mostD [OF assms(1) m]
    by (auto simp: tryElseS_def m intro: rest assms(2,3) split: sum.split)
qed

lemma bindS_tryElseS: "bindS m f = tryElseS m (\<lambda>_. False) h f"
  by (simp add: fun_eq_iff tryElseS_def bindS_def split: prod.split sum.split)

lemma naps_at_most_bind:
  "naps_at_most i m \<Longrightarrow> (\<And>a. naps_at_most j (f a)) \<Longrightarrow> naps_at_most (i + j) (bindS m f)"
  unfolding bindS_tryElseS [of m f raiseS] by (rule naps_at_most_try_else) auto

lemma naps_at_most_bind_awake: "stays awake m \<Longrightarrow> (\<And>a. naps_at_most j (f a)) \<Longrightarrow> naps_at_most j (bindS m f)"
  using naps_at_most_bind [OF naps_at_most_awake, of m j f] by simp

lemma naps_at_most_then_awake: "stays awake m \<Longrightarrow> naps_at_most j n \<Longrightarrow> naps_at_most j (thenS m n)"
  unfolding thenS_def by (rule naps_at_most_bind_awake)

lemma naps_at_most_before_retry: "naps_at_most 1 (before_retry rn op delay)"
proof -
  have log: "naps_at_most 1 (log_call (Slept delay))"
    by (simp add: naps_at_most_def log_call_def updateS_def naps_def)
  have "naps_at_most (1 + 0) (mutating (Slept delay) m)" for m :: "('a, unit) effect"
    unfolding mutating_def thenS_def
    by (intro naps_at_most_bind log naps_at_most_awake awake.stays_logged) simp
  then have "naps_at_most (1 + 0 + 0) (thenS (mutating (Slept delay) (en_sleep (rn_env rn) delay))
      (world (en_checkpoint (rn_env rn))))"
    unfolding thenS_def by (intro naps_at_most_bind naps_at_most_awake awake.stays_world)
  then have "naps_at_most 1 (thenS (mutating (Slept delay) (en_sleep (rn_env rn) delay))
      (world (en_checkpoint (rn_env rn))))" by simp
  then show ?thesis
    unfolding before_retry_def
    by (intro naps_at_most_bind_awake [OF awake.stays_basic(3)]
        naps_at_most_then_awake [OF awake.stays_when] naps_at_most_then_awake [OF awake.stays_world]
        awake.stays_then awake.stays_cleanup_inflight awake.stays_basic)
qed

lemma naps_at_most_run_attempts:
  "naps_at_most (nat (ep_max_retries (rn_policies rn) + 1 - n)) (run_attempts rn x op n)"
proof (induction rn x op n rule: run_attempts.induct)
  case (1 rn x op n)
  let ?b = "nat (ep_max_retries (rn_policies rn) + 1 - n)"
  have retry: "naps_at_most ?b (bindS (before_retry rn op delay) (\<lambda>_. run_attempts rn x op (n + 1)))"
    if "n \<le> ep_max_retries (rn_policies rn)" for delay
    using that
    by (intro naps_at_most_mono [OF naps_at_most_bind [OF naps_at_most_before_retry 1]]) auto
  have "naps_at_most ?b (case d of
       Retry delay \<Rightarrow>
         (if n \<le> ep_max_retries (rn_policies rn)
          then bindS (before_retry rn op delay) (\<lambda>_. run_attempts rn x op (n + 1))
          else give_up rn op e d)
     | _ \<Rightarrow> give_up rn op e d)" for d e
    by (cases d) (auto intro: retry naps_at_most_mono [OF naps_at_most_awake [OF awake.stays_give_up]])
  then have "naps_at_most ?b (bindS (world w) (\<lambda>d. case d of
       Retry delay \<Rightarrow>
         (if n \<le> ep_max_retries (rn_policies rn)
          then bindS (before_retry rn op delay) (\<lambda>_. run_attempts rn x op (n + 1))
          else give_up rn op e d)
     | _ \<Rightarrow> give_up rn op e d))" for w e
    by (rule naps_at_most_bind_awake [OF awake.stays_world])
  moreover have "naps_at_most ?b (thenS (pop_continuation (po_op_id op)) (settle pol env op sd))" for pol env sd
    by (intro naps_at_most_mono [OF naps_at_most_awake] awake.stays_then awake.stays_settle_total
        awake.stays_pop_continuation) simp
  ultimately have "naps_at_most (0 + ?b) (run_attempts rn x op n)"
    unfolding run_attempts.simps [of rn x op n]
    by (intro naps_at_most_try_else naps_at_most_awake awake.stays_execute_operation)
  then show ?case by simp
qed

definition unsettled_in :: "execution_set \<Rightarrow> plan_operation \<Rightarrow> bool" where
  "unsettled_in x op \<longleftrightarrow> po_op_id op \<in> xs_selection x \<and> xs_status x (po_op_id op) = None"

definition status_kept :: "execution_set \<Rightarrow> 'w exec_state \<Rightarrow> bool" where
  "status_kept x s \<longleftrightarrow> (\<forall>k out. xs_status x k = Some out \<longrightarrow> xs_status (es_xset s) k = Some out)"

lemma status_kept_settles: "settles_more s t \<Longrightarrow> status_kept x s \<Longrightarrow> status_kept x t"
  by (auto simp: settles_more_def status_kept_def)

lemma naps_execute_one:
  assumes "status_kept x s"
  shows "naps (snd (execute_one rn x op s))
     \<le> naps s + (if unsettled_in x op then nat (ep_max_retries (rn_policies rn)) else 0)"
proof (cases "unsettled_in x op")
  case True
  let ?n = "nat (ep_max_retries (rn_policies rn))"
  have awake0: "naps_at_most ?n m" if "stays awake m" for m :: "('a, unit) exec"
    using that by (intro naps_at_most_mono [OF naps_at_most_awake]) auto
  have run: "naps_at_most ?n (run_attempts rn x op 1)"
    using naps_at_most_run_attempts [of rn 1 x op] by simp
  have start: "stays awake (exceptS (start_directory rn x op) p (settle_failure (rn_policies rn) (rn_env rn) op))" for p
    by (intro awake.stays_except awake.stays_start_directory awake.stays_settle_failure)
  have "naps_at_most ?n (settle_or_run rn x op stop ready)" for stop ready
    unfolding settle_or_run_def Let_def
    by (auto intro!: awake0 awake.stays_settle_total start run split: option.split)
  then have "naps_at_most ?n (thenS (updateS (\<lambda>s. s\<lparr>es_current := Some op\<rparr>))
       (thenS (world (en_checkpoint (rn_env rn)))
       (thenS (progress_start (rn_policies rn) (rn_env rn) op)
       (bindS (readS es_stop) (\<lambda>stop.
        bindS (readS (\<lambda>s. dependencies_succeeded s op)) (\<lambda>ready.
          settle_or_run rn x op stop ready))))))"
    by (intro naps_at_most_then_awake naps_at_most_bind_awake awake.stays_basic awake.stays_world
        awake.stays_progress awake.stays_fields)
  then have "naps_at_most ?n (execute_one rn x op)"
    unfolding execute_one_def
    by (intro naps_at_most_bind_awake [OF awake.stays_basic(3)]) (auto intro: awake0 awake.stays_basic)
  with True show ?thesis by (simp add: naps_at_most_def)
next
  case False
  then have "execute_one rn x op s = (Inr (), s)"
    using assms by (auto simp: execute_one_def unsettled_in_def status_kept_def effect_defs)
  with False show ?thesis by simp
qed

lemma naps_execute_all:
  assumes "status_kept x s"
  shows "naps (snd (forS ops (execute_one rn x) s))
     \<le> naps s + nat (ep_max_retries (rn_policies rn)) * length (filter (unsettled_in x) ops)"
  using assms
proof (induction ops arbitrary: s)
  case (Cons op ops)
  obtain r t where one: "execute_one rn x op s = (r, t)" by force
  have "status_kept x t"
    using settling.stays_execute_one [of rn x op] Cons.prems one
    by (auto simp: stays_def dest!: spec [of _ s] intro: status_kept_settles)
  with naps_execute_one [OF Cons.prems, of rn op] Cons.IH [of t] one show ?case
    by (auto simp: thenS_def bindS_def split: sum.split if_splits)
qed (simp add: effect_defs)

lemma awake_on_canceled: "stays awake (finalize_directories rn x)" "stays awake (on_canceled rn x)"
  "stays awake (on_paused rn x)" "stays awake (on_crash rn)"
proof -
  have "stays awake (updateS (\<lambda>s. s\<lparr>es_pending_dirs := []\<rparr>))"
    by (simp add: stays_def updateS_def awake_log)
  then show fin: "stays awake (finalize_directories rn x)" for rn x
    unfolding finalize_directories_def by (intro awake.operation_rules awake.stays_finalize_directory)
  show "stays awake (on_canceled rn x)" "stays awake (on_paused rn x)" "stays awake (on_crash rn)"
    unfolding on_canceled_def on_paused_def on_crash_def
    by (intro awake.operation_rules fin awake.stays_cancel_remaining)+
qed

text \<open>C11: The retry loops terminate within the policy: over a whole run the executor pauses for a
  retry at most \<open>max_retries\<close> times for each operation that had no outcome yet, whatever the failure
  policy answers, and whether the run returns or raises.\<close>

theorem retries_are_bounded:
  "length (filter slept (es_log (snd (execute rn x w))))
     \<le> nat (ep_max_retries (rn_policies rn)) * length (xs_remaining x)"
proof -
  let ?b = "nat (ep_max_retries (rn_policies rn)) * length (xs_remaining x)"
  let ?J = "\<lambda>s. naps s \<le> ?b" and ?I = "\<lambda>s. naps s = 0 \<and> status_kept x s"
  have awake: "stays (keeps ?J) m" if "stays awake m" for m :: "('a, 'b) exec"
    using that unfolding stays_def keeps_def awake_def by auto
  have early: "stays (keeps ?I) m" if "stays awake m" "stays settles_more m" for m :: "('a, unit) exec"
    using that unfolding stays_def keeps_def awake_def by (auto intro: status_kept_settles)
  have "filter (unsettled_in x) (pl_operations (xs_plan x)) = xs_remaining x"
    by (simp add: xs_remaining_def unsettled_in_def [abs_def])
  then have loop: "wp (forS (pl_operations (xs_plan x)) (execute_one rn x)) (\<lambda>_. ?J) (\<lambda>_. ?J) s" if "?I s" for s
    using naps_execute_all [of x s "pl_operations (xs_plan x)" rn] that
    by (auto simp: wp_def split: prod.split sum.split)
  have "wp (execute_body rn x) (\<lambda>_. ?J) (\<lambda>_. ?J) (exec_start x w)"
  proof (rule wp_execute_body_via [where I = ?I and J = ?J])
    show "?I (exec_start x w)" by (simp add: naps_def exec_start_def status_kept_def)
  qed (intro early awake loop awake_on_canceled awake.operation_rules settling.observer_rules | simp)+
  from wp_snd [OF this] show ?thesis by (simp add: execute_def naps_def)
qed

section \<open>What the result says\<close>

abbreviation selected_operations :: "execution_set \<Rightarrow> plan_operation list" where
  "selected_operations x \<equiv> filter (\<lambda>op. po_op_id op \<in> xs_selection x) (pl_operations (xs_plan x))"

definition reports ::
    "execution_set \<Rightarrow> 'w exec_state \<Rightarrow> item_outcome list \<Rightarrow> bool" where
  "reports x s items \<longleftrightarrow>
     list_all2 (\<lambda>op i. io_item_id i = po_op_id op \<and> xs_status (es_xset s) (po_op_id op) = Some (io_outcome i))
       (selected_operations x) items"

lemma reports_settles: "settles_more s t \<Longrightarrow> reports x s items \<Longrightarrow> reports x t items"
  unfolding reports_def by (erule list_all2_mono) (auto simp: settles_more_def)

lemma reported_outcomes:
  assumes "consistent s" "mapE (reported_outcome s) (selected_operations x) = Inr items"
  shows "reports x s items"
  using assms(2) unfolding mapE_eq_Inr_iff reports_def
  by (rule list_all2_mono)
     (use assms(1) in \<open>auto simp: reported_outcome_def consistent_def previously_settled_def
       split: option.splits\<close>)

lemma reports_failed:
  assumes "reports x s items" "\<not> run_failed x s"
  shows "list_all (\<lambda>i. io_outcome i \<notin> {O_FAILED, O_CANCELED, O_DEFERRED}) items"
proof -
  have "io_outcome (items ! n) \<notin> {O_FAILED, O_CANCELED, O_DEFERRED}" if "n < length items" for n
  proof -
    let ?op = "selected_operations x ! n"
    have n: "n < length (selected_operations x)" "xs_status (es_xset s) (po_op_id ?op) = Some (io_outcome (items ! n))"
      using assms(1) that by (auto simp: reports_def list_all2_conv_all_nth)
    then have "?op \<in> set (pl_operations (xs_plan x))" using nth_mem [OF n(1)] by auto
    with n(2) assms(2) show ?thesis by (auto simp: run_failed_def)
  qed
  then show ?thesis by (simp add: list_all_length)
qed

definition faithful_result :: "execution_set \<Rightarrow> 'w exec_state \<Rightarrow> operation_result \<Rightarrow> bool" where
  "faithful_result x s r \<longleftrightarrow>
     reports x s (or_operations r) \<and> xs_status x \<subseteq>\<^sub>m xs_status (es_xset s)
     \<and> (or_status r = ST_FAILED
        \<or> or_status r = ST_COMPLETED \<and> es_fs_failed s = False
          \<and> list_all (\<lambda>i. io_outcome i \<notin> {O_FAILED, O_CANCELED, O_DEFERRED}) (or_operations r))
     \<and> or_recording r = es_recording s"

lemma wp_execute_body_result:
  "wp (execute_body rn x) (\<lambda>r s. faithful_result x s r) (\<lambda>_ _. True) (exec_start x w)"
proof -
  let ?s0 = "exec_start x w"
  have before: "wp (thenS (emit_body (rn_env rn) b) (thenS (progress_emit pol (rn_env rn) force) (guarded_run rn x)))
      (\<lambda>_. settles_more ?s0) (\<lambda>_ _. True) ?s0" for b pol force
    by (rule wp_any_exn [OF wp_stays])
       (intro settling.stays_then settling.stays_observe settling.stays_progress_emit settling_run;
         simp add: settles_fields)
  have rest: "wp (bindS (readS (\<lambda>s. mapE (reported_outcome s) (selected_operations x))) (\<lambda>items.
      bindS (pureS items) (\<lambda>operations.
      thenS (progress_emit pol env True)
      (bindS (readS (\<lambda>s. run_result x s operations)) (\<lambda>result.
      thenS (pureS (operation_result_post_init result)) (returnS result))))))
      (\<lambda>r s. faithful_result x s r) (\<lambda>_ _. True) s" if "settles_more ?s0 s" for s pol env
  proof -
    have s: "consistent s" using that by (auto simp: settles_more_def consistent_def exec_start_def)
    have result: "faithful_result x t (run_result x t items)" if "reports x s items" "settles_more s t" for items t
    proof -
      have r: "reports x t items" using reports_settles that by blast
      have "settles_more ?s0 t" using settles_trans \<open>settles_more ?s0 s\<close> that(2) by blast
      then have "xs_status x \<subseteq>\<^sub>m xs_status (es_xset t)"
        by (auto simp: settles_more_def exec_start_def map_le_def)
      then show ?thesis
        using r reports_failed [OF r] by (auto simp: faithful_result_def run_result_def run_failed_def)
    qed
    have emit: "wp (progress_emit pol env True) (\<lambda>_. settles_more s) (\<lambda>_ _. True) s"
      by (intro wp_any_exn [OF wp_stays] settling.stays_progress_emit)
    show ?thesis
    proof (cases "mapE (reported_outcome s) (selected_operations x)")
      case (Inl e)
      then show ?thesis by (simp add: wp_bind wp_read wp_pure)
    next
      case (Inr items)
      note r = reported_outcomes [OF s Inr]
      show ?thesis
        unfolding wp_bind wp_read Inr wp_pure sum.case wp_then
        by (rule wp_mono [OF emit]) (auto simp: wp_return result [OF r] split: sum.split)
    qed
  qed
  have assoc: "thenS a (thenS b (thenS c d)) = thenS (thenS a (thenS b c)) d"
    for a b c :: "('a, unit) exec" and d :: "('a, operation_result) exec"
    by (simp add: fun_eq_iff effect_defs split: prod.split sum.split)
  define run where "run = thenS (emit_body (rn_env rn) (PhaseChanged (lit ''execute'')))
    (thenS (progress_emit (rn_policies rn) (rn_env rn) True) (guarded_run rn x))"
  have "execute_body rn x = thenS run (bindS (readS (\<lambda>s. mapE (reported_outcome s) (selected_operations x))) (\<lambda>items.
      bindS (pureS items) (\<lambda>operations.
      thenS (progress_emit (rn_policies rn) (rn_env rn) True)
      (bindS (readS (\<lambda>s. run_result x s operations)) (\<lambda>result.
      thenS (pureS (operation_result_post_init result)) (returnS result))))))"
    by (simp only: execute_body_def run_def assoc)
  moreover have "wp run (\<lambda>_. settles_more ?s0) (\<lambda>_ _. True) ?s0" unfolding run_def by (rule before)
  ultimately show ?thesis
    by (simp only: wp_then) (erule wp_mono, rule rest, simp_all)
qed

text \<open>C2: A run that returns reports the truth: the result lists one outcome per selected operation,
  in plan order, and it is the status that the operation has in the execution set; a status that was
  there before the run is unchanged; the run counts as completed only if no reported outcome is
  failed, canceled or deferred and no directory restoration failed.\<close>

theorem result_reports_every_selected_operation:
  "case execute rn x w of
     (Inl e, s) \<Rightarrow> True
   | (Inr result, s) \<Rightarrow>
       map io_item_id (or_operations result) = map po_op_id (selected_operations x)
       \<and> map (Some \<circ> io_outcome) (or_operations result)
           = map (xs_status (es_xset s) \<circ> po_op_id) (selected_operations x)
       \<and> xs_status x \<subseteq>\<^sub>m xs_status (es_xset s)
       \<and> (or_status result = ST_FAILED
          \<or> or_status result = ST_COMPLETED \<and> es_fs_failed s = False
            \<and> list_all (\<lambda>i. io_outcome i \<notin> {O_FAILED, O_CANCELED, O_DEFERRED}) (or_operations result))
       \<and> or_recording result = es_recording s"
proof -
  have maps: "map io_item_id items = map po_op_id ops
      \<and> map (Some \<circ> io_outcome) items = map (f \<circ> po_op_id) ops"
    if "list_all2 (\<lambda>op i. io_item_id i = po_op_id op \<and> f (po_op_id op) = Some (io_outcome i)) ops items"
    for items ops and f :: "op_id \<Rightarrow> outcome option"
    using that by (induction rule: list_all2_induct) auto
  show ?thesis
  proof (cases "execute rn x w")
    case (Pair r s)
    show ?thesis
    proof (cases r)
      case (Inr result)
      have "faithful_result x s result"
        using wp_run(1) [OF wp_execute_body_result, of rn x w result s] Pair Inr by (simp add: execute_def)
      then show ?thesis
        unfolding Pair Inr faithful_result_def reports_def by (auto dest: maps)
    qed (simp add: Pair)
  qed
qed

text \<open>C3: Cancellation leaves no operation without an outcome: when the run returns, and also when it
  ends by raising \<^verbatim>\<open>Canceled\<close>, every selected operation has a status, provided that only the run
  context raises \<^verbatim>\<open>Canceled\<close> and \<^verbatim>\<open>PauseRequested\<close>.\<close>

theorem canceled_run_settles_every_operation:
  assumes "calm_env (rn_env rn)"
  shows "case execute rn x w of
           (Inl e, s) \<Rightarrow> ex_class e = X_CANCELED \<longrightarrow>
             (\<forall>op \<in> set (selected_operations x). xs_status (es_xset s) (po_op_id op) \<noteq> None)
         | (Inr result, s) \<Rightarrow>
             (\<forall>op \<in> set (selected_operations x). xs_status (es_xset s) (po_op_id op) \<noteq> None)"
  using wp_execute_body [OF assms, of x "exec_start x w"]
  by (auto simp: execute_def wp_def all_settled_def has_outcome_def split: prod.splits sum.splits)

theorem canceled_run_settles_every_operation_witness:
  "case execute disk_run disk_set (disk_start 4) of
     (Inl e, s) \<Rightarrow> ex_class e = X_CANCELED \<longrightarrow>
       (\<forall>op \<in> set (selected_operations disk_set). xs_status (es_xset s) (po_op_id op) \<noteq> None)
   | (Inr result, s) \<Rightarrow>
       (\<forall>op \<in> set (selected_operations disk_set). xs_status (es_xset s) (po_op_id op) \<noteq> None)"
  by (rule canceled_run_settles_every_operation [OF disk_calm])


end
