(* ===== verification/Integrity.thy ===== *)
theory Integrity
  imports Complex_Main Evidence
begin

text \<open>
  Integrity contracts (\<^verbatim>\<open>core/integrity.py\<close>): the vocabulary of the verifier, the selection with its
  continuation (which items are completed, how many bytes were processed), outcomes, and the
  conditional record command.
\<close>

section \<open>Vocabulary\<close>

datatype inventory_state = INV_PRESENT | INV_MISSING | INV_UNSUPPORTED

datatype integrity_result =
  VERIFIED | BASELINED | MISMATCHED | MODIFIED | IR_MISSING | UNSUPPORTED | IR_CANCELED | ERROR

datatype integrity_mode = BASELINE | VERIFY | REBASELINE

datatype integrity_reason =
    PATH_INVALID | INVENTORY_MISSING | INVENTORY_UNSUPPORTED | NOT_FOUND | UNSUPPORTED_READ
  | STAT_CHANGED | READ_DRIFT | HASH_MISMATCH | BASELINE_EXISTS | READ_ERROR | RECORDING_STALE
  | RECORDING_CONFLICT | RECORDING_ERROR | REASON_CANCELED

datatype read_strategy = WINDOWS_UNBUFFERED

datatype record_disposition = APPLIED | RECORD_NOOP | STALE | CONFLICT

section \<open>Selections\<close>

record integrity_item =
  ii_item_id :: pystr
  ii_row_id :: pystr
  ii_location_id :: pystr
  ii_root :: pystr
  ii_rel_path_key :: pystr
  ii_display_path :: pystr
  ii_expected_state :: inventory_state
  ii_expected_stat :: "file_stat option"
  ii_baseline :: "attestation option"
  ii_scope_token :: pystr
  ii_reappeared_at :: "datetime option"

definition integrity_item_post_init :: "integrity_item \<Rightarrow> unit res" where
  "integrity_item_post_init i =
     bindE (raise_if (ii_item_id i = [] \<or> ii_row_id i = [] \<or> ii_location_id i = [])
       (ValueError ''integrity selection identifiers must be non-empty'')) (\<lambda>_.
     bindE (raise_if (ii_rel_path_key i = [] \<or> ii_display_path i = [] \<or> ii_scope_token i = [])
       (ValueError ''integrity selection path and scope must be non-empty'')) (\<lambda>_.
     bindE (raise_if (ii_expected_state i = INV_PRESENT \<and> ii_expected_stat i = None)
       (ValueError ''present integrity rows require an expected stat'')) (\<lambda>_.
     bindE (raise_if (ii_expected_state i \<noteq> INV_PRESENT \<and> ii_expected_stat i \<noteq> None)
       (ValueError ''non-present integrity rows cannot carry a current stat'')) (\<lambda>_.
     bindE (case ii_baseline i of
              None \<Rightarrow> Inr ()
            | Some b \<Rightarrow>
                bindE (raise_if (st_kind (at_subject b) \<noteq> FILE)
                  (ValueError ''integrity baselines must attest regular files'')) (\<lambda>_.
                raise_if (ce_size (at_content b) \<noteq> st_size (at_subject b))
                  (ValueError ''baseline content size must match its subject''))) (\<lambda>_.
     case ii_reappeared_at i of
       None \<Rightarrow> Inr ()
     | Some t \<Rightarrow>
         bindE (raise_if (dt_utcoffset t = None)
           (ValueError ''reappearance time must be timezone-aware'')) (\<lambda>_.
         raise_if (dt_utcoffset t \<noteq> Some 0) (ValueError ''reappearance time must be UTC'')))))))"

record integrity_selection =
  is_items :: "integrity_item list"
  is_completed :: "(pystr, int) dict"
  is_processed :: int

definition integrity_selection_post_init :: "integrity_selection \<Rightarrow> unit res" where
  "integrity_selection_post_init s =
     bindE (raise_if (\<not> distinct (map ii_item_id (is_items s)))
       (ValueError ''integrity selection item ids must be unique'')) (\<lambda>_.
     bindE (raise_if (\<not> distinct (map (\<lambda>i. (ii_location_id i, ii_row_id i)) (is_items s)))
       (ValueError ''an inventory row may appear only once per selection'')) (\<lambda>_.
     bindE (raise_if (\<not> distinct (map (\<lambda>i. (ii_location_id i, ii_rel_path_key i)) (is_items s)))
       (ValueError ''a canonical path may appear only once per location'')) (\<lambda>_.
     bindE (raise_if (\<not> set (map fst (is_completed s)) \<subseteq> set (map ii_item_id (is_items s)))
       (ValueError ''continuation contains an unknown item id'')) (\<lambda>_.
     bindE (raise_if (\<exists>v \<in> set (map snd (is_completed s)). v < 0)
       (ValueError ''completed byte counts cannot be negative'')) (\<lambda>_.
     raise_if (is_processed s < sum_list (map snd (is_completed s)))
       (ValueError ''processed bytes cannot trail completed bytes''))))))"

definition is_pending :: "integrity_selection \<Rightarrow> integrity_item list" where
  "is_pending s = filter (\<lambda>i. ii_item_id i \<notin> set (map fst (is_completed s))) (is_items s)"

definition completed_count :: "integrity_selection \<Rightarrow> int" where
  "completed_count s = int (length (is_completed s))"

definition note_bytes_processed :: "int \<Rightarrow> integrity_selection \<Rightarrow> integrity_selection res" where
  "note_bytes_processed n s =
     bindE (raise_if (n < 0) (ValueError ''processed byte increment cannot be negative'')) (\<lambda>_.
     Inr (s\<lparr>is_processed := is_processed s + n\<rparr>))"

definition mark_completed :: "pystr \<Rightarrow> int \<Rightarrow> integrity_selection \<Rightarrow> integrity_selection res" where
  "mark_completed item_id bytes_read s =
     bindE (raise_if (item_id \<in> set (map fst (is_completed s)))
       (ValueError ''integrity item already completed'')) (\<lambda>_.
     bindE (raise_if (bytes_read < 0)
       (ValueError ''completed byte count cannot be negative'')) (\<lambda>_.
     bindE (raise_if (item_id \<notin> set (map ii_item_id (is_items s)))
       (ValueError ''unknown integrity item'')) (\<lambda>_.
     Inr (s\<lparr>is_completed := dict_set item_id bytes_read (is_completed s)\<rparr>))))"

section \<open>Outcomes\<close>

record integrity_outcome =
  ig_item_id :: pystr
  ig_row_id :: pystr
  ig_location_id :: pystr
  ig_path :: pystr
  ig_result :: integrity_result
  ig_reason :: "integrity_reason option"
  ig_detail :: "pystr option"
  ig_read_strategy :: "read_strategy option"
  ig_recording :: recording_status
  ig_disposition :: "record_disposition option"

record integrity_run_result =
  rr_outcomes :: "integrity_outcome list"
  rr_recording :: recording_status

definition outcomes_recording :: "integrity_outcome list \<Rightarrow> recording_status" where
  "outcomes_recording os = (if REC_DEGRADED \<in> set (map ig_recording os) then REC_DEGRADED else REC_OK)"

definition integrity_run_result_post_init :: "integrity_run_result \<Rightarrow> unit res" where
  "integrity_run_result_post_init r =
     raise_if (rr_recording r \<noteq> outcomes_recording (rr_outcomes r))
       (ValueError ''run recording status must derive from item outcomes'')"

definition result_counts :: "integrity_run_result \<Rightarrow> integrity_result \<Rightarrow> nat" where
  "result_counts r k = count_list (map ig_result (rr_outcomes r)) k"

record integrity_command =
  ic_mode :: integrity_mode
  ic_item_id :: pystr
  ic_row_id :: pystr
  ic_location_id :: pystr
  ic_rel_path_key :: pystr
  ic_scope_token :: pystr
  ic_expected_state :: inventory_state
  ic_expected_stat :: file_stat
  ic_expected_baseline :: "attestation option"
  ic_attestation :: attestation
  ic_advances :: bool
  ic_clear_reappeared :: bool

definition integrity_command_post_init :: "integrity_command \<Rightarrow> unit res" where
  "integrity_command_post_init c =
     bindE (raise_if (ic_expected_state c \<noteq> INV_PRESENT)
       (ValueError ''integrity evidence can be recorded only for present rows'')) (\<lambda>_.
     let subject = at_subject (ic_attestation c); expected = ic_expected_stat c
     in bindE (raise_if (st_kind subject \<noteq> st_kind expected \<or> st_size subject \<noteq> st_size expected
          \<or> st_mtime_ns subject \<noteq> st_mtime_ns expected \<or> st_identity subject \<noteq> st_identity expected)
          (ValueError ''new attestation must match the guarded kind/size/mtime/identity'')) (\<lambda>_.
        bindE (raise_if (ic_mode c = BASELINE \<and> ic_expected_baseline c \<noteq> None)
          (ValueError ''baseline commands require no established evidence'')) (\<lambda>_.
        bindE (raise_if (ic_mode c = VERIFY \<and> ic_expected_baseline c = None)
          (ValueError ''verification commands require established evidence'')) (\<lambda>_.
        raise_if (ic_advances c \<noteq> (ic_mode c = VERIFY))
          (ValueError ''only a prior-evidence verification match advances time'')))))"

definition verifier_context_post_init :: "int \<Rightarrow> real \<Rightarrow> unit res" where
  "verifier_context_post_init chunk_size progress_interval =
     bindE (raise_if (chunk_size \<le> 0) (ValueError ''verification chunk size must be positive'')) (\<lambda>_.
     raise_if (progress_interval < 0) (ValueError ''progress interval cannot be negative''))"

end
