(* ===== verification/Verifier.thy ===== *)
theory Verifier
  imports Integrity Effects Session
begin

text \<open>
  The verifier (\<^verbatim>\<open>modules/verifier.py\<close>): classification of one selected inventory row, the run over the
  pending rows with its pause and cancel handlers, the progress reporter, and the pure parts of the
  unbuffered Windows reader. The run context, the recorder and the reader are fields of
  \<open>verifier_env\<close> over a world \<open>'w\<close>; the log \<open>vs_log\<close> is the only thing added to the code's state.
\<close>

section \<open>State and collaborators\<close>

datatype verifier_event = IntegrityEvent integrity_outcome | ProgressEvent progress

text \<open>
  \<^verbatim>\<open>ve_chunks\<close> gives the iterator of \<^verbatim>\<open>iter_chunks\<close> as the list of its steps: each is run, and reads or
  raises, when the loop asks for it. Leaving the \<^verbatim>\<open>with\<close> block is \<open>ve_close\<close>; it does not swallow
  exceptions.
\<close>

record 'w verifier_env =
  ve_runtime :: runtime
  ve_chunk_size :: int
  ve_interval :: real
  ve_strategy :: read_strategy
  ve_emit :: "verifier_event \<Rightarrow> ('w, unit) effect"
  ve_checkpoint :: "('w, unit) effect"
  ve_monotonic :: "('w, real) effect"
  ve_now :: "('w, datetime) effect"
  ve_record :: "integrity_command \<Rightarrow> ('w, record_disposition) effect"
  ve_open :: "pystr \<Rightarrow> pystr \<Rightarrow> ('w, unit) effect"
  ve_stat :: "('w, file_stat) effect"
  ve_chunks :: "int \<Rightarrow> ('w, ('w, bytes) effect list) effect"
  ve_close :: "('w, unit) effect"

datatype verifier_call =
    StreamOpened pystr pystr
  | StreamStat file_stat
  | StreamChunk bytes
  | StreamClosed
  | RecordRequested integrity_command
  | Announced verifier_event

record 'w verifier_state =
  vs_selection :: integrity_selection
  vs_emitted :: "integrity_outcome list"
  vs_bytes_total :: int
  vs_last :: "real option"
  vs_log :: "verifier_call list"
  vs_world :: 'w

type_synonym ('w, 'a) verifier = "('w verifier_state, 'a) effect"

definition outside :: "('w, 'a) effect \<Rightarrow> ('w, 'a) verifier" where
  "outside m = through vs_world vs_world_update m"

definition note_call :: "verifier_call \<Rightarrow> ('w, unit) verifier" where
  "note_call c = updateS (\<lambda>s. s\<lparr>vs_log := vs_log s @ [c]\<rparr>)"

definition noted :: "('a \<Rightarrow> verifier_call) \<Rightarrow> ('w, 'a) effect \<Rightarrow> ('w, 'a) verifier" where
  "noted c m = bindS (outside m) (\<lambda>a. thenS (note_call (c a)) (returnS a))"

definition announce :: "'w verifier_env \<Rightarrow> verifier_event \<Rightarrow> ('w, unit) verifier" where
  "announce env ev = noted (\<lambda>_. Announced ev) (ve_emit env ev)"

text \<open>A method of the selection, which checks and updates it.\<close>

definition on_selection :: "(integrity_selection \<Rightarrow> integrity_selection res) \<Rightarrow> ('w, unit) verifier" where
  "on_selection f =
     bindS (readS (\<lambda>s. f (vs_selection s))) (\<lambda>r.
     bindS (pureS r) (\<lambda>sel. updateS (\<lambda>s. s\<lparr>vs_selection := sel\<rparr>)))"

section \<open>Progress\<close>

definition verifier_progress :: "pystr option \<Rightarrow> 'w verifier_state \<Rightarrow> progress" where
  "verifier_progress path s =
     \<lparr>pg_items_done = completed_count (vs_selection s),
      pg_items_total = Some (int (length (is_items (vs_selection s)))),
      pg_bytes_done = is_processed (vs_selection s), pg_bytes_total = Some (vs_bytes_total s),
      pg_current_path = path\<rparr>"

definition reporter_emit :: "'w verifier_env \<Rightarrow> pystr option \<Rightarrow> bool \<Rightarrow> ('w, unit) verifier" where
  "reporter_emit env path force =
     bindS (outside (ve_monotonic env)) (\<lambda>now.
     bindS (readS vs_last) (\<lambda>earlier.
     if \<not> force \<and> (case earlier of None \<Rightarrow> False | Some t \<Rightarrow> now - t < ve_interval env)
     then returnS ()
     else bindS (readS (verifier_progress path)) (\<lambda>p.
          thenS (pureS (progress_post_init p))
          (thenS (announce env (ProgressEvent p))
             (updateS (\<lambda>s. s\<lparr>vs_last := Some now\<rparr>))))))"

definition expected_bytes :: "integrity_selection \<Rightarrow> int" where
  "expected_bytes sel =
     is_processed sel + sum_list (map (\<lambda>i. case ii_expected_stat i of None \<Rightarrow> 0 | Some st \<Rightarrow> st_size st)
       (filter (\<lambda>i. ii_expected_state i = INV_PRESENT \<and> ii_expected_stat i \<noteq> None) (is_pending sel)))"

definition reporter_init :: "'w verifier_env \<Rightarrow> ('w, unit) verifier" where
  "reporter_init env =
     thenS (updateS (\<lambda>s. s\<lparr>vs_last := None, vs_bytes_total := expected_bytes (vs_selection s)\<rparr>))
       (reporter_emit env None True)"

definition bytes_processed :: "'w verifier_env \<Rightarrow> int \<Rightarrow> pystr \<Rightarrow> ('w, unit) verifier" where
  "bytes_processed env n path =
     thenS (on_selection (note_bytes_processed n))
     (thenS (updateS (\<lambda>s. if is_processed (vs_selection s) > vs_bytes_total s
                       then s\<lparr>vs_bytes_total := is_processed (vs_selection s)\<rparr> else s))
       (reporter_emit env (Some path) False))"

definition item_completed :: "'w verifier_env \<Rightarrow> pystr \<Rightarrow> ('w, unit) verifier" where
  "item_completed env path = reporter_emit env (Some path) True"

section \<open>Classification of one item\<close>

type_synonym processed_item = "integrity_outcome \<times> int"

definition outcome_of ::
    "integrity_item \<Rightarrow> integrity_result \<Rightarrow> integrity_reason option \<Rightarrow> pystr option \<Rightarrow>
     read_strategy option \<Rightarrow> recording_status \<Rightarrow> record_disposition option \<Rightarrow> integrity_outcome" where
  "outcome_of i result reason detail strategy recording disposition =
     \<lparr>ig_item_id = ii_item_id i, ig_row_id = ii_row_id i, ig_location_id = ii_location_id i,
      ig_path = ii_display_path i, ig_result = result, ig_reason = reason, ig_detail = detail,
      ig_read_strategy = strategy, ig_recording = recording, ig_disposition = disposition\<rparr>"

definition unread :: "integrity_item \<Rightarrow> integrity_result \<Rightarrow> integrity_reason \<Rightarrow> pystr option \<Rightarrow> processed_item" where
  "unread i result reason detail = (outcome_of i result (Some reason) detail None REC_OK None, 0)"

definition matches_expected_stat :: "file_stat \<Rightarrow> file_stat \<Rightarrow> bool" where
  "matches_expected_stat expected actual \<longleftrightarrow>
     st_kind expected = st_kind actual \<and> st_size expected = st_size actual
     \<and> st_mtime_ns expected = st_mtime_ns actual
     \<and> (st_identity expected = None \<or> st_identity expected = st_identity actual)"

definition same_open_subject :: "file_stat \<Rightarrow> file_stat \<Rightarrow> bool" where
  "same_open_subject before after \<longleftrightarrow>
     st_kind before = st_kind after \<and> st_size before = st_size after
     \<and> st_mtime_ns before = st_mtime_ns after
     \<and> (st_identity before = None \<and> st_identity after = None \<or> st_identity before = st_identity after)"

definition error_detail :: "exception \<Rightarrow> pystr" where
  "error_detail e = (if ex_text e = [] then ex_type e else ex_type e @ lit '': '' @ ex_text e)"

definition record_outcome ::
    "'w verifier_env \<Rightarrow> integrity_item \<Rightarrow> integrity_result \<Rightarrow> integrity_command \<Rightarrow> int \<Rightarrow>
     ('w, processed_item) verifier" where
  "record_outcome env i result command bytes_read =
     (let outcome = (\<lambda>reason detail recording disposition.
            (outcome_of i result reason detail (Some (ve_strategy env)) recording disposition, bytes_read))
      in tryElseS (noted (\<lambda>_. RecordRequested command) (ve_record env command)) is_exception
           (\<lambda>e. returnS (outcome (Some RECORDING_ERROR) (Some (error_detail e)) REC_DEGRADED None))
           (\<lambda>disposition. returnS (case disposition of
                STALE \<Rightarrow> outcome (Some RECORDING_STALE) None REC_DEGRADED (Some STALE)
              | CONFLICT \<Rightarrow> outcome (Some RECORDING_CONFLICT) None REC_DEGRADED (Some CONFLICT)
              | d \<Rightarrow> outcome None None REC_OK (Some d))))"

text \<open>The loop over the chunks: the data digested so far is kept, its length is \<^verbatim>\<open>bytes_read\<close>.\<close>

primrec hash_chunks ::
    "'w verifier_env \<Rightarrow> pystr \<Rightarrow> ('w, bytes) effect list \<Rightarrow> bytes \<Rightarrow> ('w, bytes) verifier" where
  "hash_chunks env path [] data = returnS data"
| "hash_chunks env path (step # steps) data =
     bindS (noted StreamChunk step) (\<lambda>chunk.
     thenS (outside (ve_checkpoint env))
       (if chunk = [] then hash_chunks env path steps data
        else thenS (bytes_processed env (int (length chunk)) path)
               (hash_chunks env path steps (data @ chunk))))"

definition stream_stat :: "'w verifier_env \<Rightarrow> ('w, file_stat) verifier" where
  "stream_stat env = noted StreamStat (ve_stat env)"

text \<open>The evidence of a complete read whose digest is acceptable.\<close>

definition integrity_content :: "bytes \<Rightarrow> int \<Rightarrow> datetime \<Rightarrow> content_evidence" where
  "integrity_content digest n now =
     \<lparr>ce_algorithm = lit ''sha256'', ce_digest = digest, ce_size = n, ce_provenance = VERIFY_ATTESTED,
      ce_observed_at = now\<rparr>"

definition integrity_command_for ::
    "integrity_mode \<Rightarrow> integrity_item \<Rightarrow> file_stat \<Rightarrow> file_stat \<Rightarrow> content_evidence \<Rightarrow>
     integrity_result \<times> integrity_command" where
  "integrity_command_for mode i expected after content =
     (let subject = (if st_identity expected \<noteq> None then after else after\<lparr>st_identity := None\<rparr>);
          result = (if mode = VERIFY \<and> ii_baseline i \<noteq> None then VERIFIED else BASELINED);
          command_mode = (if mode = REBASELINE then REBASELINE
                          else if result = VERIFIED then VERIFY else BASELINE)
      in (result,
          \<lparr>ic_mode = command_mode, ic_item_id = ii_item_id i, ic_row_id = ii_row_id i,
           ic_location_id = ii_location_id i, ic_rel_path_key = ii_rel_path_key i,
           ic_scope_token = ii_scope_token i, ic_expected_state = ii_expected_state i,
           ic_expected_stat = expected, ic_expected_baseline = ii_baseline i,
           ic_attestation = \<lparr>at_content = content, at_subject = subject\<rparr>,
           ic_advances = (result = VERIFIED), ic_clear_reappeared = (ii_reappeared_at i \<noteq> None)\<rparr>))"

definition attest_item ::
    "'w verifier_env \<Rightarrow> integrity_mode \<Rightarrow> integrity_item \<Rightarrow> file_stat \<Rightarrow> file_stat \<Rightarrow> bytes \<Rightarrow>
     ('w, processed_item) verifier" where
  "attest_item env mode i expected after data =
     bindS (outside (ve_now env)) (\<lambda>now.
     let content = integrity_content (rt_sha256 (ve_runtime env) data) (int (length data)) now
     in thenS (pureS (content_evidence_post_init content))
       (case integrity_command_for mode i expected after content of
          (result, command) \<Rightarrow>
            thenS (pureS (integrity_command_post_init command))
              (record_outcome env i result command (int (length data)))))"

definition classify_read ::
    "'w verifier_env \<Rightarrow> integrity_mode \<Rightarrow> integrity_item \<Rightarrow> file_stat \<Rightarrow> file_stat \<Rightarrow> bytes \<Rightarrow> file_stat \<Rightarrow>
     ('w, processed_item) verifier" where
  "classify_read env mode i expected before data after =
     (let n = int (length data);
          outcome = (\<lambda>result reason detail.
            (outcome_of i result (Some reason) detail (Some (ve_strategy env)) REC_OK None, n))
      in if \<not> same_open_subject before after then returnS (outcome MODIFIED READ_DRIFT None)
         else if n \<noteq> st_size before
         then returnS (outcome ERROR READ_ERROR (Some (lit ''read '' @ int_repr n @ lit '' bytes from a ''
                @ int_repr (st_size before) @ lit ''-byte subject'')))
         else if mode = VERIFY \<and> (case ii_baseline i of None \<Rightarrow> False
                | Some b \<Rightarrow> rt_sha256 (ve_runtime env) data \<noteq> ce_digest (at_content b))
         then returnS (outcome MISMATCHED HASH_MISMATCH None)
         else attest_item env mode i expected after data)"

definition inspect_stream ::
    "'w verifier_env \<Rightarrow> integrity_mode \<Rightarrow> integrity_item \<Rightarrow> file_stat \<Rightarrow> ('w, processed_item) verifier" where
  "inspect_stream env mode i expected =
     bindS (stream_stat env) (\<lambda>before.
     let changed = (outcome_of i MODIFIED (Some STAT_CHANGED) None (Some (ve_strategy env)) REC_OK None, 0)
     in if \<not> matches_expected_stat expected before then returnS changed
        else if mode = VERIFY \<and> (case ii_baseline i of None \<Rightarrow> False
               | Some b \<Rightarrow> \<not> matches_expected_stat (at_subject b) before)
        then returnS changed
        else
          bindS (outside (ve_chunks env (ve_chunk_size env))) (\<lambda>steps.
          bindS (hash_chunks env (ii_display_path i) steps []) (\<lambda>data.
          bindS (stream_stat env) (\<lambda>after.
            classify_read env mode i expected before data after))))"

definition validated_path :: "'w verifier_env \<Rightarrow> integrity_item \<Rightarrow> ('w, pystr) verifier" where
  "validated_path env i =
     (let up = rt_upper (ve_runtime env)
      in bindS (pureS (validate_relative_path up False (ii_display_path i))) (\<lambda>path.
         bindS (pureS (normalize_relative_path up False path)) (\<lambda>key.
         if key \<noteq> ii_rel_path_key i
         then raiseS (of_py_error (ValueError ''display path does not match the selected canonical key''))
         else returnS path)))"

definition read_failure :: "integrity_item \<Rightarrow> exception \<Rightarrow> processed_item" where
  "read_failure i e =
     (case ex_class e of
        X_FILE_NOT_FOUND \<Rightarrow> unread i IR_MISSING NOT_FOUND (Some (error_detail e))
      | X_UNSUPPORTED_VERIFICATION \<Rightarrow> unread i UNSUPPORTED UNSUPPORTED_READ (Some (error_detail e))
      | _ \<Rightarrow> unread i ERROR READ_ERROR (Some (error_detail e)))"

definition read_item ::
    "'w verifier_env \<Rightarrow> integrity_mode \<Rightarrow> integrity_item \<Rightarrow> pystr \<Rightarrow> file_stat \<Rightarrow> ('w, processed_item) verifier" where
  "read_item env mode i path expected =
     exceptS
       (thenS (noted (\<lambda>_. StreamOpened (ii_root i) path) (ve_open env (ii_root i) path))
         (finallyS (inspect_stream env mode i expected)
           (noted (\<lambda>_. StreamClosed) (ve_close env))))
       (\<lambda>e. is_exception e \<and> \<not> is_signal e) (\<lambda>e. returnS (read_failure i e))"

definition process_item ::
    "'w verifier_env \<Rightarrow> integrity_mode \<Rightarrow> integrity_item \<Rightarrow> ('w, processed_item) verifier" where
  "process_item env mode i =
     tryElseS (validated_path env i) (\<lambda>e. is_os_error e \<or> ex_class e = X_VALUE_ERROR)
       (\<lambda>e. returnS (unread i ERROR PATH_INVALID (Some (error_detail e))))
       (\<lambda>path.
         if ii_expected_state i = INV_MISSING then returnS (unread i IR_MISSING INVENTORY_MISSING None)
         else if ii_expected_state i = INV_UNSUPPORTED
         then returnS (unread i UNSUPPORTED INVENTORY_UNSUPPORTED None)
         else if mode = BASELINE \<and> ii_baseline i \<noteq> None
         then returnS (unread i ERROR BASELINE_EXISTS None)
         else case ii_expected_stat i of
                None \<Rightarrow> returnS (unread i ERROR STAT_CHANGED None)
              | Some expected \<Rightarrow> read_item env mode i path expected)"

section \<open>The run\<close>

definition emit_and_complete ::
    "'w verifier_env \<Rightarrow> bool \<Rightarrow> processed_item \<Rightarrow> ('w, unit) verifier" where
  "emit_and_complete env emit_progress p =
     thenS (announce env (IntegrityEvent (fst p)))
     (thenS (on_selection (mark_completed (ig_item_id (fst p)) (snd p)))
     (thenS (updateS (\<lambda>s. s\<lparr>vs_emitted := vs_emitted s @ [fst p]\<rparr>))
       (whenS emit_progress (item_completed env (ig_path (fst p))))))"

definition settle_item :: "'w verifier_env \<Rightarrow> integrity_mode \<Rightarrow> integrity_item \<Rightarrow> ('w, unit) verifier" where
  "settle_item env mode i =
     thenS (outside (ve_checkpoint env))
       (bindS (process_item env mode i) (emit_and_complete env True))"

definition settle_canceled :: "'w verifier_env \<Rightarrow> integrity_item \<Rightarrow> ('w, unit) verifier" where
  "settle_canceled env i = emit_and_complete env False (unread i IR_CANCELED REASON_CANCELED None)"

definition settle_pending :: "'w verifier_env \<Rightarrow> integrity_mode \<Rightarrow> ('w, unit) verifier" where
  "settle_pending env mode =
     bindS (readS (\<lambda>s. is_pending (vs_selection s))) (\<lambda>pending. forS pending (settle_item env mode))"

definition cancel_pending :: "'w verifier_env \<Rightarrow> ('w, unit) verifier" where
  "cancel_pending env =
     thenS (bindS (readS (\<lambda>s. is_pending (vs_selection s))) (\<lambda>pending. forS pending (settle_canceled env)))
       (reporter_emit env None True)"

definition run_result_of :: "('w, integrity_run_result) verifier" where
  "run_result_of =
     bindS (readS vs_emitted) (\<lambda>emitted.
     let result = \<lparr>rr_outcomes = emitted, rr_recording = outcomes_recording emitted\<rparr>
     in thenS (pureS (integrity_run_result_post_init result)) (returnS result))"

definition run_verifier :: "'w verifier_env \<Rightarrow> integrity_mode \<Rightarrow> ('w, integrity_run_result) verifier" where
  "run_verifier env mode =
     thenS (reporter_init env)
     (thenS (exceptS (settle_pending env mode) (\<lambda>e. ex_class e = X_CANCELED)
          (\<lambda>e. thenS (cancel_pending env) (raiseS e)))
       run_result_of)"

definition verifier_start :: "integrity_selection \<Rightarrow> 'w \<Rightarrow> 'w verifier_state" where
  "verifier_start sel w =
     \<lparr>vs_selection = sel, vs_emitted = [], vs_bytes_total = 0, vs_last = None, vs_log = [], vs_world = w\<rparr>"

definition baseline_run :: "'w verifier_env \<Rightarrow> integrity_selection \<Rightarrow> 'w \<Rightarrow>
    (exception + integrity_run_result) \<times> 'w verifier_state" where
  "baseline_run env sel w = run_verifier env BASELINE (verifier_start sel w)"

definition verify_run :: "'w verifier_env \<Rightarrow> integrity_selection \<Rightarrow> 'w \<Rightarrow>
    (exception + integrity_run_result) \<times> 'w verifier_state" where
  "verify_run env sel w = run_verifier env VERIFY (verifier_start sel w)"

definition rebaseline_run :: "'w verifier_env \<Rightarrow> integrity_selection \<Rightarrow> 'w \<Rightarrow>
    (exception + integrity_run_result) \<times> 'w verifier_state" where
  "rebaseline_run env sel w = run_verifier env REBASELINE (verifier_start sel w)"

end
