(* ===== verification/Verifier_Lemmas.thy ===== *)
theory Verifier_Lemmas
  imports Verifier
begin

text \<open>
  The invariants of a verifier run: what its log shows of the reads behind an outcome, and what its
  continuation says of the outcomes.
\<close>

section \<open>Frames\<close>

locale verifier_frame = step_relation R
  for R :: "'w verifier_state \<Rightarrow> 'w verifier_state \<Rightarrow> bool" +
  fixes allowed :: "verifier_call \<Rightarrow> bool"
  assumes frame_world: "R s (s\<lparr>vs_world := w\<rparr>)"
    and frame_log: "allowed c \<Longrightarrow> R s (s\<lparr>vs_log := vs_log s @ [c]\<rparr>)"
    and frame_last: "R s (s\<lparr>vs_last := l\<rparr>)"
    and progress_allowed: "allowed (Announced (ProgressEvent p))"
begin

lemma stays_outside: "stays R (outside m)"
  unfolding outside_def by (rule stays_through) (simp add: frame_world)

lemma stays_noted: "(\<And>a. allowed (c a)) \<Longrightarrow> stays R (noted c m)"
  unfolding noted_def note_call_def
  by (intro stays_rules stays_outside) (simp add: stays_def updateS_def frame_log)

lemma stays_reporter_emit: "stays R (reporter_emit env path force)"
  unfolding reporter_emit_def announce_def
  by (intro stays_rules stays_outside stays_noted progress_allowed)
     (simp add: stays_def updateS_def frame_last)

lemmas frame_rules = stays_rules stays_outside stays_noted stays_reporter_emit

end

section \<open>What was read\<close>

text \<open>
  The latest stream in a log: where it was opened, the stats it gave and the bytes it yielded.
\<close>

type_synonym stream_view = "(pystr \<times> pystr \<times> file_stat list \<times> bytes) option"

fun view_call :: "verifier_call \<Rightarrow> stream_view \<Rightarrow>
    stream_view" where
  "view_call (StreamOpened r p) v = Some (r, p, [], [])"
| "view_call (StreamStat st) (Some (r, p, sts, data)) = Some (r, p, sts @ [st], data)"
| "view_call (StreamChunk c) (Some (r, p, sts, data)) = Some (r, p, sts, data @ c)"
| "view_call _ v = v"

definition observed :: "verifier_call list \<Rightarrow> stream_view" where
  "observed past = foldl (\<lambda>v c. view_call c v) None past"

lemma observed_snoc: "observed (past @ [c]) = view_call c (observed past)"
  by (simp add: observed_def)

text \<open>
  A complete read of an item: the stats before and after agree with each other and with the expected
  one, and as many bytes were read as the file has.
\<close>

definition complete_read ::
    "integrity_item \<Rightarrow> stream_view \<Rightarrow> bytes \<Rightarrow> bool" where
  "complete_read i seen data \<longleftrightarrow>
     (\<exists>path before after expected. seen = Some (ii_root i, path, [before, after], data)
        \<and> ii_expected_stat i = Some expected \<and> matches_expected_stat expected before
        \<and> same_open_subject before after \<and> int (length data) = st_size before)"

definition baseline_agrees ::
    "integrity_item \<Rightarrow> stream_view \<Rightarrow> bool" where
  "baseline_agrees i seen \<longleftrightarrow>
     (\<exists>b root path before rest data. ii_baseline i = Some b \<and> seen = Some (root, path, before # rest, data)
        \<and> matches_expected_stat (at_subject b) before)"

definition stat_differs ::
    "integrity_item \<Rightarrow> stream_view \<Rightarrow> bool" where
  "stat_differs i seen \<longleftrightarrow>
     (\<exists>root path before rest data. seen = Some (root, path, before # rest, data)
        \<and> ((\<exists>e. ii_expected_stat i = Some e \<and> \<not> matches_expected_stat e before)
          \<or> (\<exists>b. ii_baseline i = Some b \<and> \<not> matches_expected_stat (at_subject b) before)
          \<or> (\<exists>after. rest = [after] \<and> \<not> same_open_subject before after)))"

text \<open>What an outcome means for the latest stream.\<close>

definition outcome_sound ::
    "runtime \<Rightarrow> integrity_mode \<Rightarrow> integrity_item \<Rightarrow> stream_view \<Rightarrow>
     integrity_outcome \<Rightarrow> bool" where
  "outcome_sound rt mode i seen out \<longleftrightarrow>
     ig_item_id out = ii_item_id i \<and> ig_path out = ii_display_path i
     \<and> (case ig_result out of
          VERIFIED \<Rightarrow> mode = VERIFY
            \<and> (\<exists>data b. complete_read i seen data \<and> baseline_agrees i seen \<and> ii_baseline i = Some b
                 \<and> rt_sha256 rt data = ce_digest (at_content b))
        | MISMATCHED \<Rightarrow> mode = VERIFY
            \<and> (\<exists>data b. complete_read i seen data \<and> baseline_agrees i seen \<and> ii_baseline i = Some b
                 \<and> rt_sha256 rt data \<noteq> ce_digest (at_content b))
        | BASELINED \<Rightarrow> (\<exists>data. complete_read i seen data)
            \<and> (mode = REBASELINE \<or> ii_baseline i = None)
        | MODIFIED \<Rightarrow> stat_differs i seen
        | _ \<Rightarrow> True)"

section \<open>Steps that settle nothing\<close>

text \<open>
  What happens between two settled items: the continuation is untouched but for the processed bytes,
  which only grow and stay within the announced total, and no outcome is announced.
\<close>

fun outcome_call :: "verifier_call \<Rightarrow> integrity_outcome option" where
  "outcome_call (Announced (IntegrityEvent out)) = Some out"
| "outcome_call _ = None"

definition announced_outcomes :: "verifier_call list \<Rightarrow> integrity_outcome list" where
  "announced_outcomes past = List.map_filter outcome_call past"

lemma announced_outcomes_append [simp]:
  "announced_outcomes (xs @ ys) = announced_outcomes xs @ announced_outcomes ys"
  "announced_outcomes [] = []"
  "announced_outcomes [Announced (IntegrityEvent out)] = [out]"
  "outcome_call c = None \<Longrightarrow> announced_outcomes [c] = []"
  by (simp_all add: announced_outcomes_def List.map_filter_def)

definition idles :: "'w verifier_state \<Rightarrow> 'w verifier_state \<Rightarrow> bool" where
  "idles s t \<longleftrightarrow>
     vs_emitted t = vs_emitted s
     \<and> is_items (vs_selection t) = is_items (vs_selection s)
     \<and> is_completed (vs_selection t) = is_completed (vs_selection s)
     \<and> is_processed (vs_selection s) \<le> is_processed (vs_selection t)
     \<and> (is_processed (vs_selection s) \<le> vs_bytes_total s \<longrightarrow> is_processed (vs_selection t) \<le> vs_bytes_total t)
     \<and> (\<exists>cs. vs_log t = vs_log s @ cs \<and> announced_outcomes cs = [])"

lemma idles_fields:
  "vs_emitted t = vs_emitted s \<Longrightarrow> vs_selection t = vs_selection s \<Longrightarrow> vs_bytes_total t = vs_bytes_total s \<Longrightarrow>
     vs_log t = vs_log s \<Longrightarrow> idles s t"
  by (simp add: idles_def)

lemma idles_trans: "idles s t \<Longrightarrow> idles t u \<Longrightarrow> idles s u"
  by (fastforce simp: idles_def)

interpretation idles: verifier_frame idles "\<lambda>c. outcome_call c = None"
  by unfold_locales (auto intro: idles_fields idles_trans simp: idles_def)

lemma idles_bytes_processed:
  fixes env :: "'w verifier_env"
  shows "stays idles (bytes_processed env n path)"
proof -
  have "idles s (snd (thenS (on_selection (note_bytes_processed n))
      (updateS (\<lambda>s. if is_processed (vs_selection s) > vs_bytes_total s
                       then s\<lparr>vs_bytes_total := is_processed (vs_selection s)\<rparr> else s)) s))" for s :: "'w verifier_state"
    by (auto simp: idles_def on_selection_def note_bytes_processed_def raise_if_def bindE_def effect_defs)
  then have "stays idles (thenS (on_selection (note_bytes_processed n))
      (updateS (\<lambda>s :: 'w verifier_state. if is_processed (vs_selection s) > vs_bytes_total s
                       then s\<lparr>vs_bytes_total := is_processed (vs_selection s)\<rparr> else s)))"
    by (simp add: stays_def)
  then have "stays idles (thenS (thenS (on_selection (note_bytes_processed n))
      (updateS (\<lambda>s :: 'w verifier_state. if is_processed (vs_selection s) > vs_bytes_total s
                       then s\<lparr>vs_bytes_total := is_processed (vs_selection s)\<rparr> else s)))
      (reporter_emit env (Some path) False))"
    by (rule idles.stays_then [OF _ idles.stays_reporter_emit])
  moreover have "thenS (thenS a b) c = thenS a (thenS b c)" for a b c :: "('w, unit) verifier"
    by (simp add: fun_eq_iff effect_defs split: prod.split sum.split)
  ultimately show ?thesis unfolding bytes_processed_def by simp
qed

lemma idles_hash_chunks: "stays idles (hash_chunks env path steps data)"
proof (induction steps arbitrary: data)
  case (Cons step steps)
  show ?case
    by (simp only: hash_chunks.simps) (intro idles.frame_rules idles_bytes_processed Cons, simp)
qed (simp add: idles.stays_basic)

lemma idles_record_outcome: "stays idles (record_outcome env i result command n)"
  unfolding record_outcome_def Let_def by (intro idles.frame_rules) simp

lemma idles_inspect_stream: "stays idles (inspect_stream env mode i expected)"
  unfolding inspect_stream_def classify_read_def attest_item_def stream_stat_def Let_def split_def
  by (intro idles.frame_rules idles_hash_chunks idles_record_outcome) simp_all

lemma idles_process_item: "stays idles (process_item env mode i)"
  unfolding process_item_def validated_path_def read_item_def Let_def
  by (intro idles.frame_rules idles_inspect_stream) simp_all

section \<open>Classification is sound\<close>

definition sees :: "stream_view \<Rightarrow> 'w verifier_state \<Rightarrow> bool" where
  "sees v s \<longleftrightarrow> observed (vs_log s) = v"

fun silent :: "verifier_call \<Rightarrow> bool" where
  "silent (Announced e) = True"
| "silent (RecordRequested c) = True"
| "silent StreamClosed = True"
| "silent _ = False"

lemma view_call_silent: "silent c \<Longrightarrow> view_call c v = v"
  by (cases c; cases v) auto

interpretation sees: verifier_frame "keeps (sees v)" silent for v
  by unfold_locales (auto simp: keeps_def sees_def observed_snoc view_call_silent)

lemma sees_bytes_processed: "stays (keeps (sees v)) (bytes_processed env n path)"
  unfolding bytes_processed_def on_selection_def
  by (intro sees.frame_rules) (simp_all add: stays_def keeps_def updateS_def sees_def)

lemma wp_noted:
  "sees v s \<Longrightarrow> wp (noted c m) (\<lambda>a. sees (view_call (c a) v)) (\<lambda>_ _. True) s"
  by (auto simp: noted_def note_call_def outside_def wp_bind wp_then wp_update wp_return
      sees_def observed_snoc split: sum.split intro!: wp_through)

lemma wp_hash_chunks:
  "sees (Some (r, p, sts, data)) s \<Longrightarrow>
     wp (hash_chunks env path steps data) (\<lambda>d t. sees (Some (r, p, sts, d)) t) (\<lambda>_ _. True) s"
proof (induction steps arbitrary: data s)
  case (Cons step steps)
  have rest: "wp (thenS (outside (ve_checkpoint env))
       (if chunk = [] then hash_chunks env path steps data
        else thenS (bytes_processed env (int (length chunk)) path) (hash_chunks env path steps (data @ chunk))))
      (\<lambda>d t. sees (Some (r, p, sts, d)) t) (\<lambda>_ _. True) t"
    if "sees (Some (r, p, sts, data @ chunk)) t" for chunk t
  proof -
    have "wp (thenS (bytes_processed env (int (length chunk)) path) (hash_chunks env path steps (data @ chunk)))
        (\<lambda>d t. sees (Some (r, p, sts, d)) t) (\<lambda>_ _. True) u" if "sees (Some (r, p, sts, data @ chunk)) u" for u
      unfolding wp_then by (rule wp_mono [OF wp_keeps [OF sees_bytes_processed that]]) (auto intro: Cons.IH)
    then show ?thesis
      unfolding wp_then [of "outside m" for m]
      by (intro wp_mono [OF wp_keeps [OF sees.stays_outside that]]) (auto simp: wp_if intro: Cons.IH)
  qed
  show ?case
    unfolding hash_chunks.simps wp_bind
    by (rule wp_mono [OF wp_noted [OF Cons.prems]], rule rest) simp_all
qed (simp add: wp_return)


text \<open>What a processed item says of the stream that the log shows last.\<close>

definition sound_item ::
    "runtime \<Rightarrow> integrity_mode \<Rightarrow> integrity_item \<Rightarrow> processed_item \<Rightarrow> 'w verifier_state \<Rightarrow> bool" where
  "sound_item rt mode i p s \<longleftrightarrow> outcome_sound rt mode i (observed (vs_log s)) (fst p)"

lemma sound_item_sees:
  "sees v s \<Longrightarrow> outcome_sound rt mode i v (fst p) \<Longrightarrow> sound_item rt mode i p s"
  by (simp add: sound_item_def sees_def)

lemma sound_unread:
  "result \<in> {IR_MISSING, UNSUPPORTED, ERROR, IR_CANCELED} \<Longrightarrow> outcome_sound rt mode i v (fst (unread i result reason detail))"
  by (auto simp: outcome_sound_def unread_def outcome_of_def)

definition sound_result ::
    "runtime \<Rightarrow> integrity_mode \<Rightarrow> integrity_item \<Rightarrow> stream_view \<Rightarrow> integrity_result \<Rightarrow> bool" where
  "sound_result rt mode i v result = outcome_sound rt mode i v (outcome_of i result None None None REC_OK None)"

lemma sound_outcome_of:
  "outcome_sound rt mode i v (outcome_of i result reason detail strategy recording disposition)
     = sound_result rt mode i v result"
  by (simp add: sound_result_def outcome_sound_def outcome_of_def)

lemmas sound_result_simps = sound_result_def outcome_sound_def outcome_of_def

lemma wp_record_outcome:
  assumes "sees v s" "sound_result rt mode i v result"
  shows "wp (record_outcome env i result command n) (\<lambda>p. sound_item rt mode i p) (\<lambda>_ _. True) s"
proof -
  have "wp (noted (\<lambda>_. RecordRequested command) (ve_record env command)) (\<lambda>_. sees v) (\<lambda>_. sees v) s"
    by (intro wp_keeps sees.stays_noted assms) simp
  then show ?thesis
    unfolding record_outcome_def Let_def wp_try_else
    by (rule wp_mono)
       (auto simp: wp_return sound_outcome_of assms(2) intro!: sound_item_sees split: record_disposition.split)
qed

lemma wp_attest_item:
  assumes "sees v s" "complete_read i v data" "ii_expected_stat i = Some expected"
    and "mode = VERIFY \<Longrightarrow> ii_baseline i = Some b \<Longrightarrow>
      baseline_agrees i v \<and> rt_sha256 (ve_runtime env) data = ce_digest (at_content b)"
    and "mode = BASELINE \<Longrightarrow> ii_baseline i = None"
    and "\<And>c. ii_baseline i = Some c \<Longrightarrow> c = b"
  shows "wp (attest_item env mode i expected after data) (\<lambda>p. sound_item (ve_runtime env) mode i p) (\<lambda>_ _. True) s"
proof -
  have "sound_result (ve_runtime env) mode i v (fst (integrity_command_for mode i expected after content))"
    for content
  proof (cases "mode = VERIFY \<and> ii_baseline i \<noteq> None")
    case True
    then obtain c where c: "mode = VERIFY" "ii_baseline i = Some c" by blast
    then have b: "ii_baseline i = Some b" using assms(6) by blast
    from assms(4) [OF c(1) b] c(1) b assms(2) show ?thesis by (auto simp: sound_result_simps integrity_command_for_def Let_def)
  next
    case False
    with assms(5) have "mode = REBASELINE \<or> ii_baseline i = None" by (cases mode) auto
    with assms(2) False show ?thesis by (auto simp: sound_result_simps integrity_command_for_def Let_def)
  qed
  then have "wp (record_outcome env i (fst (integrity_command_for mode i expected after content)) command n)
      (\<lambda>p. sound_item (ve_runtime env) mode i p) (\<lambda>_ _. True) t" if "sees v t" for content command n t
    by (intro wp_record_outcome [OF that])
  then show ?thesis
    unfolding attest_item_def Let_def wp_bind split_def
    by (intro wp_mono [OF wp_keeps [OF sees.stays_outside assms(1)]])
       (auto simp: wp_then wp_pure split: sum.split)
qed

lemma wp_classify_read:
  assumes "sees (Some (ii_root i, path, [before, after], data)) s"
    and "ii_expected_stat i = Some expected" "matches_expected_stat expected before"
    and "\<And>b. mode = VERIFY \<Longrightarrow> ii_baseline i = Some b \<Longrightarrow> matches_expected_stat (at_subject b) before"
    and "mode = BASELINE \<Longrightarrow> ii_baseline i = None"
  shows "wp (classify_read env mode i expected before data after) (\<lambda>p. sound_item (ve_runtime env) mode i p) (\<lambda>_ _. True) s"
proof -
  let ?v = "Some (ii_root i, path, [before, after], data)" and ?rt = "ve_runtime env"
  have drift: "sound_result ?rt m i ?v MODIFIED" if "\<not> same_open_subject before after" for m
    using that by (auto simp: sound_result_simps stat_differs_def)
  have error: "sound_result ?rt m i ?v ERROR" for m
    by (simp add: sound_result_simps)
  have complete: "complete_read i ?v data" if "same_open_subject before after" "int (length data) = st_size before"
    using that assms(2,3) by (auto simp: complete_read_def)
  have mismatch: "sound_result ?rt VERIFY i ?v MISMATCHED"
    if "same_open_subject before after" "int (length data) = st_size before" "mode = VERIFY"
      "ii_baseline i = Some b" "rt_sha256 ?rt data \<noteq> ce_digest (at_content b)" for b
    using complete [OF that(1,2)] that(3-) assms(4) [OF that(3,4)]
    by (auto simp: sound_result_simps baseline_agrees_def)
  show ?thesis
  proof (cases "ii_baseline i")
    case None
    then show ?thesis
      unfolding classify_read_def Let_def
      by (auto simp: wp_return sound_outcome_of drift error intro!: sound_item_sees [OF assms(1)]
          intro: wp_attest_item [OF assms(1) complete assms(2)])
  next
    case (Some b)
    have "wp (attest_item env mode i expected after data) (\<lambda>p. sound_item ?rt mode i p) (\<lambda>_ _. True) s"
      if "same_open_subject before after" "int (length data) = st_size before"
        "\<not> (mode = VERIFY \<and> rt_sha256 ?rt data \<noteq> ce_digest (at_content b))"
      using that(3) assms(4) assms(5) Some
      by (intro wp_attest_item [OF assms(1) complete [OF that(1,2)] assms(2), where b = b])
         (auto simp: baseline_agrees_def)
    with Some show ?thesis
      unfolding classify_read_def Let_def
      by (auto simp: wp_return sound_outcome_of drift error mismatch intro!: sound_item_sees [OF assms(1)])
  qed
qed

lemma wp_inspect_stream:
  fixes env :: "'w verifier_env"
  assumes "sees (Some (ii_root i, path, [], [])) s" "ii_expected_stat i = Some expected"
    and "mode = BASELINE \<Longrightarrow> ii_baseline i = None"
  shows "wp (inspect_stream env mode i expected) (\<lambda>p. sound_item (ve_runtime env) mode i p) (\<lambda>_ _. True) s"
proof -
  let ?Q = "\<lambda>p. sound_item (ve_runtime env) mode i p"
  have changed: "sound_result (ve_runtime env) m i (Some (ii_root i, path, [before], [])) MODIFIED"
    if "\<not> matches_expected_stat expected before
      \<or> (case ii_baseline i of None \<Rightarrow> False | Some b \<Rightarrow> \<not> matches_expected_stat (at_subject b) before)" for before m
    using that assms(2) by (auto simp: sound_result_simps stat_differs_def split: option.splits)
  have read: "wp (bindS (outside chunks) (\<lambda>steps.
          bindS (hash_chunks env (ii_display_path i) steps []) (\<lambda>data.
          bindS (stream_stat env) (\<lambda>after.
            classify_read env mode i expected before data after)))) ?Q (\<lambda>_ _. True) t"
    if t: "sees (Some (ii_root i, path, [before], [])) t" and "matches_expected_stat expected before"
      "\<And>b. mode = VERIFY \<Longrightarrow> ii_baseline i = Some b \<Longrightarrow> matches_expected_stat (at_subject b) before"
    for before t chunks
  proof -
    have classify: "wp (bindS (stream_stat env) (\<lambda>after. classify_read env mode i expected before data after))
        ?Q (\<lambda>_ _. True) u" if "sees (Some (ii_root i, path, [before], data)) u" for data u
      unfolding wp_bind stream_stat_def
      by (rule wp_mono [OF wp_noted [OF that]], rule wp_classify_read)
         (use assms(2,3) \<open>matches_expected_stat expected before\<close>
            \<open>\<And>b. mode = VERIFY \<Longrightarrow> ii_baseline i = Some b \<Longrightarrow> matches_expected_stat (at_subject b) before\<close>
          in auto)
    have hash: "wp (bindS (hash_chunks env (ii_display_path i) steps []) (\<lambda>data.
          bindS (stream_stat env) (\<lambda>after. classify_read env mode i expected before data after)))
        ?Q (\<lambda>_ _. True) u" if "sees (Some (ii_root i, path, [before], [])) u" for steps u
      unfolding wp_bind [of "hash_chunks e q ss d" for e q ss d]
      by (rule wp_mono [OF wp_hash_chunks [OF that]], rule classify) simp_all
    show ?thesis
      unfolding wp_bind [of "outside m" for m]
      by (rule wp_mono [OF wp_keeps [OF sees.stays_outside t]], rule hash) simp_all
  qed
  show ?thesis
    unfolding inspect_stream_def Let_def wp_bind [of "stream_stat env"]
    unfolding stream_stat_def [of env]
  proof (rule wp_mono [OF wp_noted [OF assms(1)]])
    fix before and t :: "'w verifier_state"
    assume "sees (view_call (StreamStat before) (Some (ii_root i, path, [], []))) t"
    then have t: "sees (Some (ii_root i, path, [before], [])) t" by simp
    show "wp (if \<not> matches_expected_stat expected before
        then returnS (outcome_of i MODIFIED (Some STAT_CHANGED) None (Some (ve_strategy env)) REC_OK None, 0)
        else if mode = VERIFY \<and> (case ii_baseline i of None \<Rightarrow> False
               | Some b \<Rightarrow> \<not> matches_expected_stat (at_subject b) before)
        then returnS (outcome_of i MODIFIED (Some STAT_CHANGED) None (Some (ve_strategy env)) REC_OK None, 0)
        else
          bindS (outside (ve_chunks env (ve_chunk_size env))) (\<lambda>steps.
          bindS (hash_chunks env (ii_display_path i) steps []) (\<lambda>data.
          bindS (noted StreamStat (ve_stat env)) (\<lambda>after.
            classify_read env mode i expected before data after)))) ?Q (\<lambda>_ _. True) t"
      by (intro wp_ifI read [OF t, unfolded stream_stat_def])
         (auto simp: wp_return sound_outcome_of intro!: sound_item_sees [OF t] changed split: option.splits)
  qed simp
qed

lemma sound_item_kept: "(\<And>a. silent (c a)) \<Longrightarrow> stays (keeps (sound_item rt mode i p)) (noted c m)"
  using sees.stays_noted [of c _ m] unfolding stays_def keeps_def sees_def sound_item_def by metis

lemma wp_read_item:
  assumes "ii_expected_stat i = Some expected" "mode = BASELINE \<Longrightarrow> ii_baseline i = None"
  shows "wp (read_item env mode i path expected) (\<lambda>p. sound_item (ve_runtime env) mode i p) (\<lambda>_ _. True) s"
proof -
  let ?Q = "\<lambda>p. sound_item (ve_runtime env) mode i p"
  have failure: "wp (returnS (read_failure i e)) ?Q (\<lambda>_ _. True) t" for e t
    by (auto simp: wp_return read_failure_def sound_item_def sound_unread split: exn_class.split)
  have opened: "wp (noted (\<lambda>_. StreamOpened r path) m) (\<lambda>_. sees (Some (r, path, [], []))) (\<lambda>_ _. True) s" for r m
    using wp_noted [of "observed (vs_log s)" s "\<lambda>_. StreamOpened r path" m] by (simp add: sees_def)
  have closed: "wp (noted (\<lambda>_. StreamClosed) m) (\<lambda>_. ?Q p) (\<lambda>_ _. True) t" if "?Q p t" for p m t
    by (rule wp_any_exn [OF wp_keeps [OF sound_item_kept that]]) simp
  have "wp (finallyS (inspect_stream env mode i expected) (noted (\<lambda>_. StreamClosed) m)) ?Q (\<lambda>_ _. True) t"
    if "sees (Some (ii_root i, path, [], [])) t" for t m
    unfolding wp_finally
    by (rule wp_mono [OF wp_inspect_stream [OF that assms]]) (auto intro: closed wp_any_exn [OF wp_True])
  then have body: "wp (thenS (noted (\<lambda>_. StreamOpened (ii_root i) path) m)
      (finallyS (inspect_stream env mode i expected) (noted (\<lambda>_. StreamClosed) m'))) ?Q (\<lambda>_ _. True) s" for m m'
    unfolding wp_then by (rule wp_mono [OF opened]) simp_all
  show ?thesis
    unfolding read_item_def wp_except by (rule wp_mono [OF body]) (simp_all add: failure)
qed

lemma wp_process_item:
  "wp (process_item env mode i) (\<lambda>p. sound_item (ve_runtime env) mode i p) (\<lambda>_ _. True) s"
proof -
  have unread: "wp (returnS (unread i result reason detail)) (\<lambda>p. sound_item (ve_runtime env) m i p) (\<lambda>_ _. True) t"
    if "result \<in> {IR_MISSING, UNSUPPORTED, ERROR, IR_CANCELED}" for result reason detail t m
    using that by (auto simp: wp_return sound_item_def intro: sound_unread)
  show ?thesis
    unfolding process_item_def wp_try_else
    by (rule wp_mono [OF wp_True])
       (auto intro!: unread wp_read_item wp_ifI split: option.split)
qed

section \<open>Bytes are accounted for\<close>

text \<open>The bytes that an item claims were noted as processed since \<open>c\<close> of them had been.\<close>

definition above :: "int \<Rightarrow> 'w verifier_state \<Rightarrow> bool" where
  "above c s \<longleftrightarrow> c \<le> is_processed (vs_selection s)"

definition pays :: "int \<Rightarrow> processed_item \<Rightarrow> 'w verifier_state \<Rightarrow> bool" where
  "pays c p s \<longleftrightarrow> 0 \<le> snd p \<and> above (c + snd p) s"

lemma above_idles: "stays idles m \<Longrightarrow> stays (keeps (above c)) m"
  unfolding stays_def keeps_def above_def idles_def by (meson order_trans)

lemma wp_above: "stays idles m \<Longrightarrow> above c s \<Longrightarrow> wp m (\<lambda>_. above c) (\<lambda>_ _. True) s"
  by (rule wp_any_exn [OF wp_keeps [OF above_idles]])

lemma wp_pays_return: "0 \<le> snd p \<Longrightarrow> above (c + snd p) s \<Longrightarrow> wp (returnS p) (pays c) (\<lambda>_ _. True) s"
  by (simp add: wp_return pays_def)

lemma above_mono: "above (c + n) s \<Longrightarrow> 0 \<le> n \<Longrightarrow> above c s"
  by (simp add: above_def)

lemma wp_pays_unread: "above c s \<Longrightarrow> wp (returnS (unread i result reason detail)) (pays c) (\<lambda>_ _. True) s"
  by (rule wp_pays_return) (simp_all add: unread_def)

lemma wp_bytes_processed:
  assumes "above c s" "0 \<le> n"
  shows "wp (bytes_processed env n path) (\<lambda>_. above (c + n)) (\<lambda>_ _. True) s"
proof -
  let ?grow = "\<lambda>s :: 'a verifier_state. if is_processed (vs_selection s) > vs_bytes_total s
    then s\<lparr>vs_bytes_total := is_processed (vs_selection s)\<rparr> else s"
  have rest: "wp (reporter_emit env (Some path) False) (\<lambda>_. above (c + n)) (\<lambda>_ _. True) t" if "above (c + n) t" for t
    by (rule wp_above [OF idles.stays_reporter_emit that])
  have "above (c + n) (?grow (s\<lparr>vs_selection := (vs_selection s)\<lparr>is_processed := is_processed (vs_selection s) + n\<rparr>\<rparr>))"
    using assms by (simp add: above_def)
  from rest [OF this] assms(2) show ?thesis
    by (simp add: bytes_processed_def on_selection_def note_bytes_processed_def wp_then wp_bind wp_read
        wp_pure wp_update)
qed

lemma wp_hash_chunks_bytes:
  "above (c + int (length data)) s \<Longrightarrow>
     wp (hash_chunks env path steps data) (\<lambda>d. above (c + int (length d))) (\<lambda>_ _. True) s"
proof (induction steps arbitrary: data s)
  case (Cons step steps)
  have more: "wp (thenS (bytes_processed env (int (length chunk)) path) (hash_chunks env path steps (data @ chunk)))
      (\<lambda>d. above (c + int (length d))) (\<lambda>_ _. True) t" if "above (c + int (length data)) t" for chunk t
    unfolding wp_then
    by (rule wp_mono [OF wp_bytes_processed [OF that]]) (auto intro: Cons.IH simp: add.assoc)
  have rest: "wp (if chunk = [] then hash_chunks env path steps data
        else thenS (bytes_processed env (int (length chunk)) path) (hash_chunks env path steps (data @ chunk)))
      (\<lambda>d. above (c + int (length d))) (\<lambda>_ _. True) t" if "above (c + int (length data)) t" for chunk t
    using that by (intro wp_ifI more Cons.IH)
  have noted: "wp (noted StreamChunk step) (\<lambda>_. above (c + int (length data))) (\<lambda>_ _. True) s"
    by (intro wp_above idles.stays_noted Cons.prems) simp
  have point: "wp (outside m) (\<lambda>_. above (c + int (length data))) (\<lambda>_ _. True) t"
    if "above (c + int (length data)) t" for t and m :: "('a, unit) effect"
    by (rule wp_above [OF idles.stays_outside that])
  show ?case
    unfolding hash_chunks.simps wp_bind wp_then [of "outside m" for m]
    by (rule wp_mono [OF noted], rule wp_mono [OF point], assumption) (simp_all add: rest)
qed (simp add: wp_return)

lemma wp_pays_record:
  assumes "above (c + n) s" "0 \<le> n"
  shows "wp (record_outcome env i result command n) (pays c) (\<lambda>_ _. True) s"
proof -
  have "wp (noted (\<lambda>_. RecordRequested command) (ve_record env command)) (\<lambda>_. above (c + n)) (\<lambda>_. above (c + n)) s"
    by (intro wp_keeps above_idles idles.stays_noted assms) simp
  then show ?thesis
    unfolding record_outcome_def Let_def wp_try_else
    by (rule wp_mono) (auto intro!: wp_pays_return assms(2) split: record_disposition.split)
qed

lemma wp_pays_classify:
  assumes "above (c + int (length data)) s"
  shows "wp (classify_read env mode i expected before data after) (pays c) (\<lambda>_ _. True) s"
proof -
  have recorded: "wp (record_outcome env i result command (int (length data))) (pays c) (\<lambda>_ _. True) t"
    if "above (c + int (length data)) t" for result command t
    by (rule wp_pays_record [OF that]) simp
  have "wp (attest_item env mode i expected after data) (pays c) (\<lambda>_ _. True) s"
    unfolding attest_item_def Let_def wp_bind split_def
    by (rule wp_mono [OF wp_above [OF idles.stays_outside assms]])
       (auto simp: wp_then wp_pure recorded split: sum.split)
  then show ?thesis
    unfolding classify_read_def Let_def using assms by (intro wp_ifI wp_pays_return) simp_all
qed

lemma wp_pays_process:
  assumes "above c s"
  shows "wp (process_item env mode i) (pays c) (\<lambda>_ _. True) s"
proof -
  have noted: "wp (noted f m) (\<lambda>_. above c') (\<lambda>_ _. True) t" if "above c' t" "\<And>a. outcome_call (f a) = None"
    for f c' t and m :: "('a, 'b) effect"
    by (intro wp_above idles.stays_noted that)
  have stat: "wp (stream_stat env) (\<lambda>_. above c') (\<lambda>_ _. True) t" if "above c' t" for c' t
    unfolding stream_stat_def by (rule noted [OF that]) simp
  have after: "wp (bindS (stream_stat env) (\<lambda>after. classify_read env mode i expected before data after))
      (pays c) (\<lambda>_ _. True) t" if "above (c + int (length data)) t" for expected before data t
    unfolding wp_bind by (rule wp_mono [OF stat [OF that]]) (simp_all add: wp_pays_classify)
  have hash: "wp (bindS (hash_chunks env path steps []) (\<lambda>data.
      bindS (stream_stat env) (\<lambda>after. classify_read env mode i expected before data after)))
      (pays c) (\<lambda>_ _. True) t" if "above c t" for expected before path steps t
    unfolding wp_bind [of "hash_chunks e q ss d" for e q ss d]
    by (rule wp_mono [OF wp_hash_chunks_bytes [where c = c]]) (use that in \<open>auto intro: after\<close>)
  have inspect: "wp (inspect_stream env mode i expected) (pays c) (\<lambda>_ _. True) t" if "above c t" for expected t
  proof -
    have chunks: "wp (bindS (outside m) (\<lambda>steps. bindS (hash_chunks env path steps []) (\<lambda>data.
        bindS (stream_stat env) (\<lambda>after. classify_read env mode i expected before data after))))
        (pays c) (\<lambda>_ _. True) u" if "above c u" for before path m u
      unfolding wp_bind [of "outside m" for m]
      by (rule wp_mono [OF wp_above [OF idles.stays_outside that]]) (simp_all add: hash)
    show ?thesis
      unfolding inspect_stream_def Let_def wp_bind [of "stream_stat env"]
      by (rule wp_mono [OF stat [OF that]]) (auto intro!: wp_ifI wp_pays_return chunks)
  qed
  have pays_kept: "stays (keeps (pays c p)) m" if "stays idles m" for p and m :: "('a, unit) verifier"
    using above_idles [OF that] unfolding pays_def stays_def keeps_def by auto
  have closing: "wp (finallyS (inspect_stream env mode i expected) (noted (\<lambda>_. StreamClosed) m)) (pays c) (\<lambda>_ _. True) t"
    if "above c t" for expected m t
  proof -
    have close: "wp (noted (\<lambda>_. StreamClosed) m) (\<lambda>_. pays c p) (\<lambda>_ _. True) u" if "pays c p u" for p u
      by (rule wp_any_exn [OF wp_keeps [OF pays_kept [OF idles.stays_noted] that]]) simp
    show ?thesis
      unfolding wp_finally
      by (rule wp_mono [OF inspect [OF that]]) (auto intro: close wp_any_exn [OF wp_True])
  qed
  have opened: "wp (thenS (noted (\<lambda>_. StreamOpened r q) m) (finallyS (inspect_stream env mode i expected)
      (noted (\<lambda>_. StreamClosed) m'))) (pays c) (\<lambda>_. above c) t" if "above c t" for r q expected m m' t
  proof -
    let ?m = "thenS (noted (\<lambda>_. StreamOpened r q) m) (finallyS (inspect_stream env mode i expected)
      (noted (\<lambda>_. StreamClosed) m'))"
    have "stays idles ?m" by (intro idles.stays_then idles.stays_finally idles.stays_noted idles_inspect_stream) simp_all
    from wp_keeps [OF above_idles [OF this] that]
    have "wp ?m (\<lambda>_. above c) (\<lambda>_. above c) t" .
    moreover have "wp ?m (pays c) (\<lambda>_ _. True) t"
      unfolding wp_then by (rule wp_mono [OF noted [OF that]]) (auto intro: closing)
    ultimately show ?thesis by (rule wp_mono [OF wp_conj]) auto
  qed
  have read: "wp (read_item env mode i path expected) (pays c) (\<lambda>_ _. True) t" if "above c t" for path expected t
    unfolding read_item_def wp_except
    by (rule wp_mono [OF opened [OF that]])
       (auto simp: read_failure_def intro!: wp_pays_unread split: exn_class.split)
  have "stays idles (validated_path env i)"
    unfolding validated_path_def Let_def by (intro idles.frame_rules)
  from wp_keeps [OF above_idles [OF this] assms]
  have "wp (validated_path env i) (\<lambda>_. above c) (\<lambda>_. above c) s" .
  then show ?thesis
    unfolding process_item_def wp_try_else
    by (rule wp_mono) (auto intro!: wp_ifI wp_pays_unread read split: option.split)
qed

end
