(* ===== verification/Verifier_Properties.thy ===== *)
theory Verifier_Properties
  imports Verifier_Lemmas Samples "HOL-Library.Sublist"
begin

text \<open>
  What a verifier run promises: every outcome it announces is justified by the stream it read, every
  pending item gets exactly one outcome unless the run is paused or breaks off, and the continuation
  it leaves is a valid selection.
\<close>

section \<open>Every announced outcome is sound\<close>

definition log_sound :: "runtime \<Rightarrow> integrity_mode \<Rightarrow> integrity_item list \<Rightarrow> verifier_call list \<Rightarrow> bool" where
  "log_sound rt mode items past \<longleftrightarrow>
     (\<forall>pre out post. past = pre @ Announced (IntegrityEvent out) # post \<longrightarrow>
        (\<exists>i \<in> set items. outcome_sound rt mode i (observed pre) out))"

lemma log_sound_Nil: "log_sound rt mode items []"
  by (simp add: log_sound_def)

lemma log_sound_snoc:
  "log_sound rt mode items past \<Longrightarrow>
     (\<And>out. outcome_call c = Some out \<Longrightarrow> \<exists>i \<in> set items. outcome_sound rt mode i (observed past) out) \<Longrightarrow>
     log_sound rt mode items (past @ [c])"
  by (auto simp: log_sound_def append_eq_append_conv2 append_eq_Cons_conv Cons_eq_append_conv)

lemma announced_outcomes_Nil: "announced_outcomes cs = [] \<longleftrightarrow> (\<forall>c \<in> set cs. outcome_call c = None)"
  by (induction cs) (auto simp: announced_outcomes_def List.map_filter_def)

lemma log_sound_append:
  "log_sound rt mode items past \<Longrightarrow> announced_outcomes cs = [] \<Longrightarrow> log_sound rt mode items (past @ cs)"
proof (induction cs rule: rev_induct)
  case (snoc c cs)
  then have "log_sound rt mode items (past @ cs)" "outcome_call c = None"
    by (auto simp: announced_outcomes_Nil)
  then show ?case by (simp add: append_assoc [symmetric] del: append_assoc) (rule log_sound_snoc, auto)
qed simp

definition sound_log :: "runtime \<Rightarrow> integrity_mode \<Rightarrow> integrity_selection \<Rightarrow> 'w verifier_state \<Rightarrow> bool" where
  "sound_log rt mode sel s \<longleftrightarrow>
     log_sound rt mode (is_items sel) (vs_log s) \<and> is_items (vs_selection s) = is_items sel"

lemma sound_log_idles: "idles s t \<Longrightarrow> sound_log rt mode sel s \<Longrightarrow> sound_log rt mode sel t"
  by (auto simp: sound_log_def idles_def intro: log_sound_append)

lemma keeps_sound_log: "stays idles m \<Longrightarrow> stays (keeps (sound_log rt mode sel)) m"
  unfolding stays_def keeps_def by (blast intro: sound_log_idles)

lemma wp_sound_log:
  "stays idles m \<Longrightarrow> sound_log rt mode sel s \<Longrightarrow> wp m (\<lambda>_. sound_log rt mode sel) (\<lambda>_. sound_log rt mode sel) s"
  by (rule wp_keeps [OF keeps_sound_log])

lemma sound_log_announced:
  assumes "sound_log rt mode sel s" "i \<in> set (is_items sel)" "outcome_sound rt mode i (observed (vs_log s)) out"
  shows "sound_log rt mode sel (s\<lparr>vs_world := w, vs_log := vs_log s @ [Announced (IntegrityEvent out)]\<rparr>)"
  using assms unfolding sound_log_def by (auto intro!: log_sound_snoc)

text \<open>After the announcement, completing the item touches neither the log nor the items.\<close>

lemma keeps_completion:
  "stays (keeps (sound_log rt mode sel)) (on_selection (mark_completed k n))"
  "stays (keeps (sound_log rt mode sel)) (updateS (\<lambda>s. s\<lparr>vs_emitted := f s\<rparr>))"
  by (auto simp: stays_def keeps_def on_selection_def mark_completed_def effect_defs raise_if_def bindE_def
      sound_log_def)

lemma wp_announce:
  assumes "\<And>w. P (s\<lparr>vs_world := w, vs_log := vs_log s @ [Announced ev]\<rparr>)" "\<And>w. E (s\<lparr>vs_world := w\<rparr>)"
  shows "wp (announce env ev) (\<lambda>_. P) (\<lambda>_. E) s"
  using assms
  by (auto simp: announce_def noted_def note_call_def outside_def wp_bind wp_then wp_update wp_return
      split: sum.split intro!: wp_through)

lemma wp_sound_complete:
  assumes "sound_log rt mode sel s" "i \<in> set (is_items sel)" "sound_item rt mode i p s"
  shows "wp (emit_and_complete env b p) (\<lambda>_. sound_log rt mode sel) (\<lambda>_. sound_log rt mode sel) s"
proof -
  have "stays (keeps (sound_log rt mode sel))
      (thenS (on_selection (mark_completed (ig_item_id (fst p)) (snd p)))
        (thenS (updateS (\<lambda>s. s\<lparr>vs_emitted := vs_emitted s @ [fst p]\<rparr>))
          (whenS b (item_completed env (ig_path (fst p))))))"
    unfolding item_completed_def
    by (intro invariants.stays_then invariants.stays_when keeps_completion keeps_sound_log
        idles.stays_reporter_emit)
  note rest = wp_keeps [OF this]
  show ?thesis
    unfolding emit_and_complete_def wp_then [of "announce e v" for e v]
  proof (rule wp_announce, rule rest)
    show "sound_log rt mode sel (s\<lparr>vs_world := w, vs_log := vs_log s @ [Announced (IntegrityEvent (fst p))]\<rparr>)" for w
      using assms by (intro sound_log_announced) (auto simp: sound_item_def)
    show "sound_log rt mode sel (s\<lparr>vs_world := w\<rparr>)" for w
      using assms(1) by (simp add: sound_log_def)
  qed
qed

lemma wp_sound_settle:
  assumes "sound_log (ve_runtime env) mode sel s" "i \<in> set (is_items sel)"
  shows "wp (settle_item env mode i) (\<lambda>_. sound_log (ve_runtime env) mode sel)
    (\<lambda>_. sound_log (ve_runtime env) mode sel) s"
proof -
  let ?I = "sound_log (ve_runtime env) mode sel"
  have item: "wp (bindS (process_item env mode i) (emit_and_complete env True)) (\<lambda>_. ?I) (\<lambda>_. ?I) t" if "?I t" for t
    unfolding wp_bind
    by (rule wp_mono [OF wp_conj [OF wp_process_item wp_sound_log [OF idles_process_item that]]])
       (auto intro: wp_sound_complete [OF _ assms(2)])
  show ?thesis
    unfolding settle_item_def wp_then
    by (rule wp_mono [OF wp_sound_log [OF idles.stays_outside assms(1)]]) (auto intro: item)
qed

lemma wp_sound_run:
  assumes "sound_log (ve_runtime env) mode sel s"
  shows "wp (run_verifier env mode) (\<lambda>_. sound_log (ve_runtime env) mode sel)
    (\<lambda>_. sound_log (ve_runtime env) mode sel) s"
proof -
  let ?I = "sound_log (ve_runtime env) mode sel"
  have pending: "set (is_pending (vs_selection t)) \<subseteq> set (is_items sel)" if "?I t" for t :: "'a verifier_state"
    using that by (auto simp: sound_log_def is_pending_def)
  have settle: "wp (settle_pending env mode) (\<lambda>_. ?I) (\<lambda>_. ?I) t" if "?I t" for t
    unfolding settle_pending_def wp_bind wp_read
    by (rule wp_for [OF wp_sound_settle that]) (use pending [OF that] in auto)
  have one: "wp (settle_canceled env i) (\<lambda>_. ?I) (\<lambda>_. ?I) t" if "?I t" "i \<in> set (is_items sel)" for t i
    unfolding settle_canceled_def
    by (rule wp_sound_complete [OF that]) (simp add: sound_item_def sound_unread)
  have cancel: "wp (cancel_pending env) (\<lambda>_. ?I) (\<lambda>_. ?I) t" if "?I t" for t
  proof -
    have "wp (forS (is_pending (vs_selection t)) (settle_canceled env)) (\<lambda>_. ?I) (\<lambda>_. ?I) t"
      by (rule wp_for [OF one that]) (use pending [OF that] in auto)
    then show ?thesis
      unfolding cancel_pending_def wp_then wp_bind wp_read
      by (rule wp_mono) (auto intro: wp_sound_log idles.stays_reporter_emit)
  qed
  have init: "stays (keeps ?I) (reporter_init env)"
    unfolding reporter_init_def
    by (rule invariants.stays_then [OF _ keeps_sound_log [OF idles.stays_reporter_emit]])
       (simp add: stays_def keeps_def updateS_def sound_log_def)
  have result: "stays (keeps ?I) run_result_of"
    unfolding run_result_of_def Let_def by (intro invariants.stays_rules)
  have handled: "wp (exceptS (settle_pending env mode) (\<lambda>e. ex_class e = X_CANCELED)
      (\<lambda>e. thenS (cancel_pending env) (raiseS e))) (\<lambda>_. ?I) (\<lambda>_. ?I) t" if "?I t" for t
    unfolding wp_except
    by (rule wp_mono [OF settle [OF that]])
       (auto simp: wp_then wp_raise intro!: wp_mono [OF cancel])
  show ?thesis
    unfolding run_verifier_def wp_then
    by (rule wp_mono [OF wp_keeps [OF init assms]], rule wp_mono [OF handled])
       (auto intro: wp_keeps [OF result])
qed

text \<open>C13: Outcomes are justified by what was read: whatever run of the verifier, an announced VERIFIED
  means that the latest stream gave a stat matching the expected one and the baseline's subject, then
  as many bytes as the stat says with the digest of the baseline, then the same stat again; a
  MISMATCHED the same with another digest; a BASELINED a complete read; a MODIFIED a differing stat.\<close>

theorem announced_outcomes_are_justified:
  "log_sound (ve_runtime env) mode (is_items sel)
     (vs_log (snd (run_verifier env mode (verifier_start sel w))))"
proof -
  have "sound_log (ve_runtime env) mode sel (verifier_start sel w)"
    by (simp add: sound_log_def verifier_start_def log_sound_Nil)
  from wp_sound_run [OF this] show ?thesis
    by (cases "run_verifier env mode (verifier_start sel w)";
        cases "fst (run_verifier env mode (verifier_start sel w))")
       (auto simp: wp_def sound_log_def)
qed

section \<open>Every pending item is accounted for\<close>

definition settled_to :: "integrity_selection \<Rightarrow> nat \<Rightarrow> 'w verifier_state \<Rightarrow> bool" where
  "settled_to sel k s \<longleftrightarrow>
     is_items (vs_selection s) = is_items sel
     \<and> map ig_item_id (vs_emitted s) = map ii_item_id (take k (is_pending sel))
     \<and> map fst (is_completed (vs_selection s)) = map fst (is_completed sel) @ map ig_item_id (vs_emitted s)
     \<and> announced_outcomes (vs_log s) = vs_emitted s
     \<and> list_all (\<lambda>v. 0 \<le> v) (map snd (is_completed (vs_selection s)))
     \<and> sum_list (map snd (is_completed (vs_selection s))) \<le> is_processed (vs_selection s)
     \<and> is_processed (vs_selection s) \<le> vs_bytes_total s"

lemma settled_to_idles: "idles s t \<Longrightarrow> settled_to sel k s \<Longrightarrow> settled_to sel k t"
  by (auto simp: settled_to_def idles_def)

lemma keeps_settled_to: "stays idles m \<Longrightarrow> stays (keeps (settled_to sel k)) m"
  unfolding stays_def keeps_def by (blast intro: settled_to_idles)

lemma wp_settled_to:
  "stays idles m \<Longrightarrow> settled_to sel k s \<Longrightarrow> wp m (\<lambda>_. settled_to sel k) (\<lambda>_. settled_to sel k) s"
  by (rule wp_keeps [OF keeps_settled_to])

text \<open>
  The hypotheses of a run: the constructor of the selection accepted it, its dict has one entry per
  key, and the constructor of the stats let no size be negative.
\<close>

definition valid_selection :: "integrity_selection \<Rightarrow> bool" where
  "valid_selection sel \<longleftrightarrow>
     ok (integrity_selection_post_init sel) \<and> distinct (map fst (is_completed sel))
     \<and> list_all (\<lambda>i. case ii_expected_stat i of None \<Rightarrow> True | Some st \<Rightarrow> 0 \<le> st_size st) (is_items sel)"

lemma valid_selectionD:
  assumes "valid_selection sel"
  shows "distinct (map ii_item_id (is_items sel))"
    "set (map fst (is_completed sel)) \<subseteq> set (map ii_item_id (is_items sel))"
    "list_all (\<lambda>v. 0 \<le> v) (map snd (is_completed sel))"
    "sum_list (map snd (is_completed sel)) \<le> is_processed sel"
  using assms
  by (auto simp: valid_selection_def integrity_selection_post_init_def ok_iff result_simps list_all_iff not_less)

lemma pending_ids:
  assumes "distinct (map ii_item_id (is_items sel))"
  shows "distinct (map ii_item_id (is_pending sel))"
    "set (map ii_item_id (is_pending sel)) \<inter> set (map fst (is_completed sel)) = {}"
    "set (is_pending sel) \<subseteq> set (is_items sel)"
  using assms by (auto simp: is_pending_def distinct_map_filter)

text \<open>The rows that the continuation leaves pending are the rest of those that were pending.\<close>

lemma settled_to_pending:
  assumes "distinct (map ii_item_id (is_items sel))" "settled_to sel k s"
  shows "is_pending (vs_selection s) = drop k (is_pending sel)"
proof -
  let ?p = "is_pending sel"
  have "is_pending (vs_selection s) = filter (\<lambda>i. ii_item_id i \<notin> ii_item_id ` set (take k ?p)) ?p"
  proof -
    have "set (map fst (is_completed (vs_selection s)))
        = set (map fst (is_completed sel)) \<union> ii_item_id ` set (take k ?p)"
      using assms(2) by (simp add: settled_to_def)
    then show ?thesis
      using assms(2) by (simp add: is_pending_def settled_to_def conj_commute)
  qed
  also have "\<dots> = filter (\<lambda>i. ii_item_id i \<notin> ii_item_id ` set (take k ?p)) (take k ?p @ drop k ?p)"
    by simp
  also have "\<dots> = drop k ?p"
  proof -
    have "distinct (map ii_item_id (take k ?p @ drop k ?p))" using pending_ids(1) [OF assms(1)] by simp
    then have "filter (\<lambda>i. ii_item_id i \<notin> ii_item_id ` set (take k ?p)) (drop k ?p) = drop k ?p"
      by (intro filter_True) (auto simp del: append_take_drop_id)
    moreover have "filter (\<lambda>i. ii_item_id i \<notin> ii_item_id ` set (take k ?p)) (take k ?p) = []"
      by (simp add: filter_empty_conv)
    ultimately show ?thesis by (simp only: filter_append append_Nil)
  qed
  finally show ?thesis .
qed

abbreviation settled_some :: "integrity_selection \<Rightarrow> 'w verifier_state \<Rightarrow> bool" where
  "settled_some sel s \<equiv> \<exists>k. settled_to sel k s"

lemma dict_set_new: "k \<notin> set (map fst d) \<Longrightarrow> dict_set k v d = d @ [(k, v)]"
  by (induction d) auto

lemma completed_next:
  assumes sel: "distinct (map ii_item_id (is_items sel))" "k < length (is_pending sel)"
    and s: "settled_to sel k s"
    and p: "ig_item_id out = ii_item_id (is_pending sel ! k)" "0 \<le> n"
      "sum_list (map snd (is_completed (vs_selection s))) + n \<le> is_processed (vs_selection s)"
  shows "mark_completed (ig_item_id out) n (vs_selection s)
      = Inr ((vs_selection s)\<lparr>is_completed := is_completed (vs_selection s) @ [(ig_item_id out, n)]\<rparr>)"
    and "settled_to sel (Suc k) (s\<lparr>vs_world := w, vs_log := vs_log s @ [Announced (IntegrityEvent out)],
      vs_selection := (vs_selection s)\<lparr>is_completed := is_completed (vs_selection s) @ [(ig_item_id out, n)]\<rparr>,
      vs_emitted := vs_emitted s @ [out]\<rparr>)"
proof -
  let ?i = "is_pending sel ! k"
  have i: "?i \<in> set (drop k (is_pending sel))" using sel(2) by (metis Cons_nth_drop_Suc list.set_intros(1))
  then have "?i \<in> set (is_pending (vs_selection s))" by (simp add: settled_to_pending [OF sel(1) s])
  then have new: "ig_item_id out \<notin> set (map fst (is_completed (vs_selection s)))"
    "ig_item_id out \<in> set (map ii_item_id (is_items (vs_selection s)))"
    using p(1) by (auto simp: is_pending_def)
  show "mark_completed (ig_item_id out) n (vs_selection s)
      = Inr ((vs_selection s)\<lparr>is_completed := is_completed (vs_selection s) @ [(ig_item_id out, n)]\<rparr>)"
    using new p(2) by (simp add: mark_completed_def dict_set_new)
  show "settled_to sel (Suc k) (s\<lparr>vs_world := w, vs_log := vs_log s @ [Announced (IntegrityEvent out)],
      vs_selection := (vs_selection s)\<lparr>is_completed := is_completed (vs_selection s) @ [(ig_item_id out, n)]\<rparr>,
      vs_emitted := vs_emitted s @ [out]\<rparr>)"
    using s p sel(2) by (simp add: settled_to_def take_Suc_conv_app_nth)
qed

lemma wp_complete_next:
  assumes sel: "distinct (map ii_item_id (is_items sel))" "k < length (is_pending sel)"
    and s: "settled_to sel k s"
    and p: "ig_item_id (fst p) = ii_item_id (is_pending sel ! k)"
      "pays (sum_list (map snd (is_completed (vs_selection s)))) p s"
  shows "wp (emit_and_complete env b p) (\<lambda>_. settled_to sel (Suc k)) (\<lambda>_. settled_some sel) s"
proof -
  have n: "0 \<le> snd p" "sum_list (map snd (is_completed (vs_selection s))) + snd p \<le> is_processed (vs_selection s)"
    using p(2) by (auto simp: pays_def above_def)
  note nxt = completed_next [OF sel s p(1) n]
  have progress: "wp (whenS b (item_completed env path)) (\<lambda>_. settled_to sel (Suc k)) (\<lambda>_. settled_some sel) t"
    if "settled_to sel (Suc k) t" for path t
    unfolding item_completed_def
    by (rule wp_mono [OF wp_settled_to [OF idles.stays_when [OF idles.stays_reporter_emit] that]]) auto
  have keep: "settled_to sel k (s\<lparr>vs_world := w\<rparr>)" for w
    using s by (simp add: settled_to_def)
  show ?thesis
    unfolding emit_and_complete_def wp_then [of "announce e v" for e v]
  proof (rule wp_announce)
    show "wp (thenS (on_selection (mark_completed (ig_item_id (fst p)) (snd p)))
        (thenS (updateS (\<lambda>s. s\<lparr>vs_emitted := vs_emitted s @ [fst p]\<rparr>))
          (whenS b (item_completed env (ig_path (fst p)))))) (\<lambda>_. settled_to sel (Suc k)) (\<lambda>_. settled_some sel)
        (s\<lparr>vs_world := w, vs_log := vs_log s @ [Announced (IntegrityEvent (fst p))]\<rparr>)" for w
      using progress [OF nxt(2) [of w]]
      by (simp add: on_selection_def wp_then wp_bind wp_read wp_pure wp_update nxt(1))
  qed (use keep in blast)
qed

lemma wp_settle_next:
  assumes sel: "distinct (map ii_item_id (is_items sel))" "k < length (is_pending sel)"
    and s: "settled_to sel k s"
  shows "wp (settle_item env mode (is_pending sel ! k)) (\<lambda>_. settled_to sel (Suc k)) (\<lambda>_. settled_some sel) s"
proof -
  let ?i = "is_pending sel ! k"
  have item: "wp (bindS (process_item env mode ?i) (emit_and_complete env True))
      (\<lambda>_. settled_to sel (Suc k)) (\<lambda>_. settled_some sel) t" if t: "settled_to sel k t" for t
  proof -
    let ?c = "sum_list (map snd (is_completed (vs_selection t)))"
    have c: "above ?c t" using t by (simp add: settled_to_def above_def)
    have "wp (process_item env mode ?i) (\<lambda>_ u. settled_to sel k u \<and> is_completed (vs_selection u) = is_completed (vs_selection t))
        (\<lambda>_. settled_to sel k) t"
      by (rule wp_mono [OF wp_conj [OF wp_settled_to [OF idles_process_item t] wp_stays [OF idles_process_item]]])
         (auto simp: idles_def)
    from wp_conj [OF this wp_conj [OF wp_process_item [of env mode ?i t] wp_pays_process [OF c, of env mode ?i]]]
    show ?thesis
      unfolding wp_bind
      by (rule wp_mono)
         (auto intro!: wp_complete_next [OF sel] simp: sound_item_def outcome_sound_def)
  qed
  show ?thesis
    unfolding settle_item_def wp_then
    by (rule wp_mono [OF wp_settled_to [OF idles.stays_outside s]]) (auto intro: item)
qed

lemma wp_cancel_next:
  assumes sel: "distinct (map ii_item_id (is_items sel))" "k < length (is_pending sel)"
    and s: "settled_to sel k s"
  shows "wp (settle_canceled env (is_pending sel ! k)) (\<lambda>_. settled_to sel (Suc k)) (\<lambda>_. settled_some sel) s"
  unfolding settle_canceled_def
  by (rule wp_complete_next [OF sel s])
     (use s in \<open>simp_all add: unread_def outcome_of_def pays_def above_def settled_to_def\<close>)

section \<open>The run\<close>

text \<open>The event sink and the clock of the run context raise neither \<^verbatim>\<open>Canceled\<close> nor \<^verbatim>\<open>PauseRequested\<close>.\<close>

definition calm_reports :: "'w verifier_env \<Rightarrow> bool" where
  "calm_reports env \<longleftrightarrow> (\<forall>ev. calm (ve_emit env ev)) \<and> calm (ve_monotonic env)"

lemma calm_announce: "calm_reports env \<Longrightarrow> calm (announce env ev)"
  unfolding announce_def noted_def note_call_def outside_def calm_reports_def
  by (intro raises_only_rules calm_through) auto

lemma calm_reporter_emit: "calm_reports env \<Longrightarrow> calm (reporter_emit env path force)"
  unfolding reporter_emit_def
  by (intro raises_only_rules calm_pure calm_announce) (auto simp: outside_def calm_reports_def intro: calm_through)

lemma calm_cancel_pending: "calm_reports env \<Longrightarrow> calm (cancel_pending env)"
  unfolding cancel_pending_def settle_canceled_def emit_and_complete_def on_selection_def item_completed_def
  by (intro raises_only_rules calm_pure calm_announce calm_reporter_emit)

lemma expected_bytes_enough:
  assumes "valid_selection sel"
  shows "is_processed sel \<le> expected_bytes sel"
proof -
  have "0 \<le> sum_list (map (\<lambda>i. case ii_expected_stat i of None \<Rightarrow> 0 | Some st \<Rightarrow> st_size st)
      (filter P (is_pending sel)))" for P
    using assms
    by (intro sum_list_nonneg) (auto simp: valid_selection_def is_pending_def list_all_iff split: option.split dest!: bspec)
  then show ?thesis by (simp add: expected_bytes_def)
qed

lemma settled_to_start:
  assumes "valid_selection sel"
  shows "settled_to sel 0 ((verifier_start sel w)\<lparr>vs_last := None, vs_bytes_total := expected_bytes sel\<rparr>)"
  using valid_selectionD [OF assms] expected_bytes_enough [OF assms]
  by (simp add: settled_to_def verifier_start_def)

abbreviation all_pending_settled :: "integrity_selection \<Rightarrow> 'w verifier_state \<Rightarrow> bool" where
  "all_pending_settled sel s \<equiv> settled_to sel (length (is_pending sel)) s"

lemma wp_settle_pending:
  assumes "valid_selection sel" "settled_to sel 0 s"
  shows "wp (settle_pending env mode) (\<lambda>_. all_pending_settled sel) (\<lambda>_. settled_some sel) s"
proof -
  note sel = valid_selectionD(1) [OF assms(1)]
  have "wp (forS (drop 0 (is_pending sel)) (settle_item env mode)) (\<lambda>_. all_pending_settled sel)
      (\<lambda>_. settled_some sel) s"
    by (rule wp_loop [where P = "\<lambda>k. settled_to sel k"]) (auto intro: wp_settle_next [OF sel] assms(2))
  moreover have "is_pending (vs_selection s) = is_pending sel"
    using settled_to_pending [OF sel assms(2)] by simp
  ultimately show ?thesis by (simp add: settle_pending_def wp_bind wp_read)
qed

lemma wp_cancel_pending:
  assumes "valid_selection sel" "settled_some sel s"
  shows "wp (cancel_pending env) (\<lambda>_. all_pending_settled sel) (\<lambda>_. settled_some sel) s"
proof -
  note sel = valid_selectionD(1) [OF assms(1)]
  obtain k where k: "settled_to sel k s" using assms(2) by blast
  have "wp (forS (drop k (is_pending sel)) (settle_canceled env)) (\<lambda>_. all_pending_settled sel)
      (\<lambda>_. settled_some sel) s"
  proof (cases "k \<le> length (is_pending sel)")
    case True
    then show ?thesis
      by (intro wp_loop [where P = "\<lambda>k. settled_to sel k"]) (auto intro: wp_cancel_next [OF sel] k)
  next
    case False
    then have "settled_to sel (length (is_pending sel)) s" using k by (simp add: settled_to_def)
    with False show ?thesis by (simp add: wp_return)
  qed
  then show ?thesis
    unfolding cancel_pending_def wp_then wp_bind wp_read settled_to_pending [OF sel k]
    by (rule wp_mono) (auto intro: wp_mono [OF wp_settled_to [OF idles.stays_reporter_emit]])
qed

lemma wp_run_verifier:
  assumes "valid_selection sel" "calm_reports env"
  shows "wp (run_verifier env mode) (\<lambda>r s. all_pending_settled sel s \<and> rr_outcomes r = vs_emitted s)
    (\<lambda>e s. settled_some sel s \<and> (ex_class e = X_CANCELED \<longrightarrow> all_pending_settled sel s)) (verifier_start sel w)"
    (is "wp _ _ ?E _")
proof -
  have calm: "wp m (\<lambda>_. settled_to sel k) ?E t" if "calm m" "stays idles m" "settled_to sel k t"
    for m :: "('a, 'b) verifier" and k t
    by (rule wp_mono [OF wp_conj [OF raises_onlyD [OF that(1)] wp_settled_to [OF that(2,3)]]])
       (auto dest: not_signal_not_canceled)
  have init: "wp (reporter_init env) (\<lambda>_. settled_to sel 0) ?E (verifier_start sel w)"
    using calm [OF calm_reporter_emit [OF assms(2)] idles.stays_reporter_emit settled_to_start [OF assms(1), of w]]
    by (simp add: reporter_init_def wp_then wp_update) (simp add: verifier_start_def)
  have cancel: "wp (thenS (cancel_pending env) (raiseS e)) (\<lambda>_. all_pending_settled sel) ?E t"
    if "settled_some sel t" for e t
    unfolding wp_then wp_raise
    by (rule wp_mono [OF wp_conj [OF wp_cancel_pending [OF assms(1) that]
          raises_onlyD [OF calm_cancel_pending [OF assms(2)]]]]) (auto dest: not_signal_not_canceled)
  have handled: "wp (exceptS (settle_pending env mode) (\<lambda>e. ex_class e = X_CANCELED)
      (\<lambda>e. thenS (cancel_pending env) (raiseS e))) (\<lambda>_. all_pending_settled sel) ?E t" if "settled_to sel 0 t" for t
    unfolding wp_except by (rule wp_mono [OF wp_settle_pending [OF assms(1) that]]) (auto intro: cancel)
  have result: "wp run_result_of (\<lambda>r s. all_pending_settled sel s \<and> rr_outcomes r = vs_emitted s) ?E t"
    if "all_pending_settled sel t" for t
    using that by (simp add: run_result_of_def wp_bind wp_read wp_then wp_pure wp_return
        integrity_run_result_post_init_def)
  show ?thesis
    unfolding run_verifier_def wp_then
    by (rule wp_mono [OF init], rule wp_mono [OF handled]) (auto intro: result)
qed

lemma settled_to_valid:
  assumes "valid_selection sel" "settled_to sel k s"
  shows "ok (integrity_selection_post_init (vs_selection s))"
    "ok (progress_post_init (verifier_progress path s))"
proof -
  note sel = valid_selectionD [OF assms(1)]
  have ids: "set (map ig_item_id (vs_emitted s)) \<subseteq> set (map ii_item_id (is_items sel))"
    using assms(2) pending_ids(3) [OF sel(1)] by (auto simp: settled_to_def dest: in_set_takeD)
  have v: "distinct (map (\<lambda>i. (ii_location_id i, ii_row_id i)) (is_items sel))"
    "distinct (map (\<lambda>i. (ii_location_id i, ii_rel_path_key i)) (is_items sel))"
    using assms(1) by (auto simp: valid_selection_def integrity_selection_post_init_def ok_iff result_simps)
  show "ok (integrity_selection_post_init (vs_selection s))"
    using assms(2) sel ids v
    by (auto simp: settled_to_def integrity_selection_post_init_def ok_iff result_simps list_all_iff not_less)
  have "length (vs_emitted s) = length (take k (is_pending sel))"
    using assms(2) unfolding settled_to_def by (metis length_map)
  moreover have "length (is_completed (vs_selection s)) = length (is_completed sel) + length (vs_emitted s)"
    using assms(2) unfolding settled_to_def by (metis length_append length_map)
  moreover have "length (is_completed sel) + length (is_pending sel) \<le> length (is_items sel)"
  proof -
    have "distinct (map fst (is_completed sel) @ map ii_item_id (is_pending sel))"
      using assms(1) pending_ids [OF sel(1)] by (auto simp: valid_selection_def)
    then have "length (map fst (is_completed sel) @ map ii_item_id (is_pending sel))
        \<le> card (set (map ii_item_id (is_items sel)))"
      using sel(2) pending_ids(3) [OF sel(1)] by (subst distinct_card [symmetric]) (auto intro!: card_mono)
    then show ?thesis using card_length [of "map ii_item_id (is_items sel)"] by simp
  qed
  ultimately have "completed_count (vs_selection s) \<le> int (length (is_items (vs_selection s)))"
    using assms(2) by (simp add: completed_count_def settled_to_def)
  moreover have "0 \<le> is_processed (vs_selection s)"
  proof -
    have "0 \<le> sum_list (map snd (is_completed (vs_selection s)))"
      using assms(2) by (intro sum_list_nonneg) (auto simp: settled_to_def list_all_iff)
    then show ?thesis using assms(2) by (simp add: settled_to_def)
  qed
  ultimately show "ok (progress_post_init (verifier_progress path s))"
    using assms(2) by (auto simp: settled_to_def verifier_progress_def progress_post_init_def ok_iff result_simps
        completed_count_def)
qed

text \<open>C14: Every pending row is accounted for: the rows with an announced outcome are a prefix of the
  pending ones, in order, each once; they are exactly those that the continuation marks completed
  besides the earlier ones; they are all of them when the run returns and when it raises
  \<^verbatim>\<open>Canceled\<close>; and the continuation always passes the checks of its constructor, its progress
  the checks of \<^verbatim>\<open>Progress\<close>.\<close>

theorem verifier_accounts_for_every_row:
  assumes "valid_selection sel" "calm_reports env"
  shows "case run_verifier env mode (verifier_start sel w) of (r, s) \<Rightarrow>
     announced_outcomes (vs_log s) = vs_emitted s
     \<and> prefix (map ig_item_id (vs_emitted s)) (map ii_item_id (is_pending sel))
     \<and> map fst (is_completed (vs_selection s)) = map fst (is_completed sel) @ map ig_item_id (vs_emitted s)
     \<and> ok (integrity_selection_post_init (vs_selection s))
     \<and> ok (progress_post_init (verifier_progress path s))
     \<and> (case r of
          Inr result \<Rightarrow> rr_outcomes result = vs_emitted s
            \<and> map ig_item_id (vs_emitted s) = map ii_item_id (is_pending sel)
        | Inl e \<Rightarrow> ex_class e = X_CANCELED \<longrightarrow>
            map ig_item_id (vs_emitted s) = map ii_item_id (is_pending sel))"
proof -
  obtain r s where run: "run_verifier env mode (verifier_start sel w) = (r, s)" by force
  have wp: "case r of
      Inr result \<Rightarrow> all_pending_settled sel s \<and> rr_outcomes result = vs_emitted s
    | Inl e \<Rightarrow> settled_some sel s \<and> (ex_class e = X_CANCELED \<longrightarrow> all_pending_settled sel s)"
    using wp_run_verifier [OF assms, of mode w] by (simp add: wp_def run split: sum.splits)
  then obtain k where k: "settled_to sel k s" by (auto split: sum.splits)
  have k': "prefix (map ig_item_id (vs_emitted s)) (map ii_item_id (is_pending sel))"
    "announced_outcomes (vs_log s) = vs_emitted s"
    "map fst (is_completed (vs_selection s)) = map fst (is_completed sel) @ map ig_item_id (vs_emitted s)"
    using k unfolding settled_to_def by (auto intro!: map_mono_prefix take_is_prefix)
  have all: "map ig_item_id (vs_emitted s) = map ii_item_id (is_pending sel)" if "all_pending_settled sel s"
    using that unfolding settled_to_def by simp
  have final: "case r of
      Inr result \<Rightarrow> rr_outcomes result = vs_emitted s
        \<and> map ig_item_id (vs_emitted s) = map ii_item_id (is_pending sel)
    | Inl e \<Rightarrow> ex_class e = X_CANCELED \<longrightarrow>
        map ig_item_id (vs_emitted s) = map ii_item_id (is_pending sel)"
  proof (cases r)
    case (Inl e)
    with wp all show ?thesis by simp
  next
    case (Inr result)
    with wp all show ?thesis by simp
  qed
  show ?thesis
    unfolding run prod.case by (intro conjI k' settled_to_valid [OF assms(1) k] final)
qed

section \<open>A run\<close>

text \<open>
  Two rows of one file of three bytes, the first with a baseline; the world is the number of
  checkpoints before the run context cancels.
\<close>

definition row_stat :: file_stat where
  "row_stat = sample_stat FILE 3 1000"

definition row_baseline :: attestation where
  "row_baseline = \<lparr>at_content = integrity_content (sample_hash [1, 2, 3]) 3
     \<lparr>dt_micros = 0, dt_utcoffset = Some 0\<rparr>, at_subject = row_stat\<rparr>"

definition sample_row :: "nat \<Rightarrow> attestation option \<Rightarrow> integrity_item" where
  "sample_row n b = \<lparr>ii_item_id = sample_id n, ii_row_id = sample_id n, ii_location_id = lit ''l'',
     ii_root = lit ''C:'', ii_rel_path_key = [65 + n], ii_display_path = [97 + n],
     ii_expected_state = INV_PRESENT, ii_expected_stat = Some row_stat, ii_baseline = b,
     ii_scope_token = lit ''t'', ii_reappeared_at = None\<rparr>"

definition sample_rows :: integrity_selection where
  "sample_rows = \<lparr>is_items = [sample_row 0 (Some row_baseline), sample_row 1 None], is_completed = [],
     is_processed = 0\<rparr>"

definition count_checkpoint :: "(nat, unit) effect" where
  "count_checkpoint =
     bindS (readS (\<lambda>n. n)) (\<lambda>n.
       if n = 0 then raiseS (simple_exn X_CANCELED ''Canceled'' []) else updateS (\<lambda>n. n - 1))"

definition row_env :: "nat verifier_env" where
  "row_env = \<lparr>ve_runtime = sample_runtime, ve_chunk_size = 2, ve_interval = 0,
     ve_strategy = WINDOWS_UNBUFFERED, ve_emit = (\<lambda>_. returnS ()), ve_checkpoint = count_checkpoint,
     ve_monotonic = returnS 0, ve_now = returnS \<lparr>dt_micros = 0, dt_utcoffset = Some 0\<rparr>,
     ve_record = (\<lambda>_. returnS APPLIED), ve_open = (\<lambda>_ _. returnS ()), ve_stat = returnS row_stat,
     ve_chunks = (\<lambda>_. returnS [returnS [1, 2], returnS [3]]), ve_close = returnS ()\<rparr>"


lemma sample_rows_valid: "valid_selection sample_rows"
  by (simp add: valid_selection_def integrity_selection_post_init_def sample_rows_def sample_row_def
      row_stat_def sample_stat_def)

lemma row_env_calm: "calm_reports row_env"
  by (simp add: calm_reports_def row_env_def raises_only_def wp_return)

theorem verifier_accounts_for_every_row_witness:
  "case run_verifier row_env VERIFY (verifier_start sample_rows 2) of (r, s) \<Rightarrow>
     announced_outcomes (vs_log s) = vs_emitted s
     \<and> prefix (map ig_item_id (vs_emitted s)) [sample_id 0, sample_id 1]
     \<and> map fst (is_completed (vs_selection s)) = map ig_item_id (vs_emitted s)
     \<and> (case r of
          Inr result \<Rightarrow> rr_outcomes result = vs_emitted s \<and> map ig_item_id (vs_emitted s) = [sample_id 0, sample_id 1]
        | Inl e \<Rightarrow> ex_class e = X_CANCELED \<longrightarrow> map ig_item_id (vs_emitted s) = [sample_id 0, sample_id 1])"
proof -
  have pending: "map ii_item_id (is_pending sample_rows) = [sample_id 0, sample_id 1]"
    and completed: "map fst (is_completed sample_rows) = []"
    by (simp_all add: is_pending_def sample_rows_def sample_row_def)
  obtain r s where run: "run_verifier row_env VERIFY (verifier_start sample_rows 2) = (r, s)" by force
  show ?thesis
    using verifier_accounts_for_every_row [OF sample_rows_valid row_env_calm, where mode = VERIFY and w = 2]
    unfolding run prod.case pending completed append_Nil by blast
qed

end
