(* ===== verification/Native_Filesystem.thy ===== *)
theory Native_Filesystem
  imports Executor_State "HOL-Library.Word"
begin

unbundle bit_operations_syntax

text \<open>
  \<^verbatim>\<open>NativeFileSystem\<close> of \<^verbatim>\<open>modules/executor.py\<close> on Windows, over the calls of the operating system
  that it makes, which are fields of \<open>os_env\<close>: resolution beneath a reviewed root, stats, owned
  temporaries and the cleanup of orphaned ones, attributes and times, backups and trash destinations.
\<close>

section \<open>The operating system\<close>

datatype mode_kind = REGULAR_MODE | DIRECTORY_MODE | LINK_MODE | OTHER_MODE

text \<open>\<^verbatim>\<open>os.stat_result\<close>; the attributes that a platform may lack are optional.\<close>

record stat_info =
  si_mode :: mode_kind
  si_size :: int
  si_mtime_ns :: int
  si_ino :: int
  si_nlink :: int
  si_attributes :: "int option"
  si_birthtime_ns :: "int option"
  si_ctime_ns :: "int option"

datatype os_call =
    OsCreate path
  | OsRead path bytes
  | OsWritten path bytes
  | OsFsync path
  | OsUnlink path
  | OsMkdir path
  | OsRmdir path
  | OsRename path path
  | OsReplace path path
  | OsLink path path
  | OsUtime path int
  | OsSetAttributes path int
  | OsSetCreation path "32 word" "32 word"

record 'w os_env =
  os_upper :: upper
  os_lower :: "pystr \<Rightarrow> pystr"
  os_commonpath :: "path \<Rightarrow> path \<Rightarrow> pystr res"
  os_resolve :: "path \<Rightarrow> bool \<Rightarrow> ('w, path) effect"
  os_lexists :: "path \<Rightarrow> ('w, bool) effect"
  os_lstat :: "path \<Rightarrow> ('w, stat_info) effect"
  os_is_dir :: "path \<Rightarrow> ('w, bool) effect"
  os_device :: "path \<Rightarrow> ('w, int) effect"
  os_serial :: "path \<Rightarrow> ('w, pystr) effect"
  os_scandir :: "path \<Rightarrow> ('w, pystr list) effect"
  os_entry_is_file :: "path \<Rightarrow> ('w, bool) effect"
  os_get_attributes :: "path \<Rightarrow> ('w, int) effect"
  os_open_read :: "path \<Rightarrow> int \<Rightarrow> ('w, (exception + bytes) list) effect"
  os_write :: "path \<Rightarrow> bytes \<Rightarrow> ('w, int option) effect"
  os_close :: "path \<Rightarrow> ('w, unit) effect"
  os_do :: "os_call \<Rightarrow> ('w, unit) effect"

text \<open>The calls that change the disk are logged when they are made; a write is logged after it, with the
  bytes it took, and a read of a backup's source with the bytes it gave.\<close>

record 'w fs_state =
  fs_log :: "os_call list"
  fs_world :: 'w

type_synonym ('w, 'a) native = "('w fs_state, 'a) effect"

definition os :: "('w, 'a) effect \<Rightarrow> ('w, 'a) native" where
  "os m = through fs_world fs_world_update m"

definition log_os :: "os_call \<Rightarrow> ('w, unit) native" where
  "log_os c = updateS (\<lambda>s. s\<lparr>fs_log := fs_log s @ [c]\<rparr>)"

definition os_call :: "'w os_env \<Rightarrow> os_call \<Rightarrow> ('w, unit) native" where
  "os_call env c = thenS (log_os c) (os (os_do env c))"

section \<open>Attributes and times\<close>

definition readonly_bit :: int where "readonly_bit = 1"

definition standard_attribute_mask :: int where "standard_attribute_mask = 1 OR 2 OR 4"

definition reparse_point :: int where "reparse_point = 1024"

definition standard_attributes :: "int \<Rightarrow> int \<Rightarrow> int" where
  "standard_attributes current desired = (current AND NOT standard_attribute_mask) OR desired"

definition desired_attributes :: "file_stat \<Rightarrow> bool \<Rightarrow> int" where
  "desired_attributes st apply_readonly =
     (let desired = attributes (st_metadata st) AND standard_attribute_mask
      in if apply_readonly then desired else desired AND NOT readonly_bit)"

text \<open>
  \<^verbatim>\<open>FILETIME(intervals & 0xFFFFFFFF, intervals >> 32)\<close>: both fields are 32 bits wide, and ctypes keeps
  the low 32 bits of what it is given.
\<close>

definition epoch_ticks :: int where "epoch_ticks = 116444736000000000"

definition filetime_of_ns :: "int \<Rightarrow> 32 word \<times> 32 word" where
  "filetime_of_ns ns =
     (let intervals = ns div 100 + epoch_ticks
      in (word_of_int (intervals AND 0xFFFFFFFF), word_of_int (drop_bit 32 intervals)))"

section \<open>Resolution\<close>

definition unsafe_path :: "pystr \<Rightarrow> exception option \<Rightarrow> exception" where
  "unsafe_path msg cause = Exn X_UNSAFE_PATH (lit ''UnsafeExecutionPath'') msg None cause"

definition path_join :: "path \<Rightarrow> pystr list \<Rightarrow> path" where
  "path_join p parts = Path (pa_anchor p) (pa_parts p @ parts)"

definition reject_reparse :: "'w os_env \<Rightarrow> path \<Rightarrow> ('w, unit) native" where
  "reject_reparse env p =
     bindS (os (os_lstat env p)) (\<lambda>info.
     let attrs = (case si_attributes info of None \<Rightarrow> 0 | Some a \<Rightarrow> a)
     in whenS (si_mode info = LINK_MODE \<or> attrs AND reparse_point \<noteq> 0)
          (raiseS (unsafe_path (lit ''reparse points are not executable: '' @ path_str p) None)))"

primrec validate_chain_from :: "'w os_env \<Rightarrow> path \<Rightarrow> pystr list \<Rightarrow> ('w, unit) native" where
  "validate_chain_from env current [] = returnS ()"
| "validate_chain_from env current (part # parts) =
     bindS (os (os_lexists env (path_join current [part]))) (\<lambda>found.
     if found
     then thenS (reject_reparse env (path_join current [part]))
            (validate_chain_from env (path_join current [part]) parts)
     else returnS ())"

definition validate_existing_chain :: "'w os_env \<Rightarrow> path \<Rightarrow> path \<Rightarrow> ('w, unit) native" where
  "validate_existing_chain env rootp candidate =
     bindS (exceptS (pureS (path_relative_to (os_lower env) candidate rootp))
              (\<lambda>e. ex_class e = X_VALUE_ERROR)
              (\<lambda>e. raiseS (unsafe_path (lit ''path escapes reviewed root: '' @ path_str candidate) (Some e))))
       (\<lambda>relative. validate_chain_from env rootp (pa_parts relative))"

text \<open>The checks of the candidate after its chain: existence, and the root of what it resolves to.\<close>

definition contained_candidate ::
    "'w os_env \<Rightarrow> path \<Rightarrow> pystr \<Rightarrow> bool \<Rightarrow> path \<Rightarrow> ('w, path) native" where
  "contained_candidate env rootp rel must_exist candidate =
     bindS (if must_exist then os (os_lexists env candidate) else returnS True) (\<lambda>found.
     if must_exist \<and> \<not> found
     then raiseS (simple_exn X_FILE_NOT_FOUND ''FileNotFoundError'' (path_str candidate))
     else bindS (os (os_resolve env candidate must_exist)) (\<lambda>resolved.
          case os_commonpath env rootp resolved of
            Inl e \<Rightarrow> raiseS (if is_value_error e
              then unsafe_path (lit ''path is not on the reviewed root volume: '' @ rel) (Some (of_py_error e))
              else of_py_error e)
          | Inr common \<Rightarrow>
              if common \<noteq> path_str rootp
              then raiseS (unsafe_path (lit ''path escapes reviewed root: '' @ rel) None)
              else returnS candidate))"

definition native_resolve :: "'w os_env \<Rightarrow> path \<Rightarrow> pystr \<Rightarrow> bool \<Rightarrow> ('w, path) native" where
  "native_resolve env rt rel must_exist =
     bindS (pureS (validate_relative_path (os_upper env) False rel)) (\<lambda>canonical.
     bindS (os (os_resolve env rt True)) (\<lambda>rootp.
     thenS (reject_reparse env rootp)
     (let candidate = path_join rootp (win_parts canonical)
      in thenS (validate_existing_chain env rootp candidate)
           (contained_candidate env rootp rel must_exist candidate))))"

section \<open>Stats\<close>

definition created_ns_of :: "stat_info \<Rightarrow> int option" where
  "created_ns_of info = (case si_birthtime_ns info of None \<Rightarrow> si_ctime_ns info | Some t \<Rightarrow> Some t)"

definition native_stat_path :: "'w os_env \<Rightarrow> path \<Rightarrow> ('w, file_stat option) native" where
  "native_stat_path env p =
     bindS (os (os_lexists env p)) (\<lambda>found.
     if \<not> found then returnS None
     else thenS (reject_reparse env p)
       (bindS (os (os_lstat env p)) (\<lambda>info.
        bindS (case si_mode info of
                 REGULAR_MODE \<Rightarrow> returnS (FILE, si_size info)
               | DIRECTORY_MODE \<Rightarrow> returnS (DIRECTORY, 0)
               | _ \<Rightarrow> raiseS (unsafe_path (lit ''unsupported filesystem entry: '' @ path_str p) None)) (\<lambda>(kind, sz).
        bindS (os (os_serial env p)) (\<lambda>serial.
        let identity = \<lparr>volume_serial = serial, file_index = si_ino info\<rparr>;
            meta = \<lparr>attributes = (case si_attributes info of None \<Rightarrow> 0 | Some a \<Rightarrow> a),
                    created_ns = created_ns_of info\<rparr>;
            st = \<lparr>st_kind = kind, st_size = sz, st_mtime_ns = si_mtime_ns info,
                  st_identity = Some identity, st_nlink = si_nlink info, st_metadata = meta\<rparr>
        in thenS (pureS (file_identity_post_init identity))
           (thenS (pureS (metadata_post_init meta))
           (thenS (pureS (file_stat_post_init st)) (returnS (Some st)))))))))"

definition native_stat :: "'w os_env \<Rightarrow> path \<Rightarrow> pystr \<Rightarrow> ('w, file_stat option) native" where
  "native_stat env rt rel =
     bindS (native_resolve env rt rel False) (\<lambda>p. native_stat_path env p)"

section \<open>Owned temporaries\<close>

definition temp_name :: "pystr \<Rightarrow> pystr \<Rightarrow> op_id \<Rightarrow> pystr" where
  "temp_name name run op = name @ lit ''.synctmp-'' @ run @ [45] @ op"

definition native_owned_temp :: "path \<Rightarrow> pystr \<Rightarrow> op_id \<Rightarrow> ('w, path) native" where
  "native_owned_temp target run op =
     (if length run \<noteq> 32 \<or> length op \<noteq> 32
      then raiseS (of_py_error (ValueError ''owned temp ids must be fixed-format''))
      else if \<exists>c \<in> set (run @ op). \<not> is_hex_digit c
      then raiseS (of_py_error (ValueError ''owned temp ids must be lowercase hexadecimal''))
      else if path_name target = []
      then raiseS (of_py_error (ValueError ''path has an empty name''))
      else returnS (path_join (path_parent target) [temp_name (path_name target) run op]))"

definition native_remove_owned_temp :: "'w os_env \<Rightarrow> path \<Rightarrow> ('w, unit) native" where
  "native_remove_owned_temp env p =
     exceptS (os_call env (OsUnlink p)) (\<lambda>e. ex_class e = X_FILE_NOT_FOUND) (\<lambda>_. returnS ())"

definition remove_orphan :: "'w os_env \<Rightarrow> pystr \<Rightarrow> path \<Rightarrow> pystr \<Rightarrow> ('w, unit) native" where
  "remove_orphan env current parent name =
     (case owned_temp_run_id name of
        None \<Rightarrow> returnS ()
      | Some owner \<Rightarrow>
          if owner = current then returnS ()
          else bindS (os (os_entry_is_file env (path_join parent [name]))) (\<lambda>is_file.
               whenS is_file (native_remove_owned_temp env (path_join parent [name]))))"

definition scan_orphans :: "'w os_env \<Rightarrow> pystr \<Rightarrow> pystr \<Rightarrow> path \<Rightarrow> ('w, unit) native" where
  "scan_orphans env current volume parent =
     bindS (os (os_serial env parent)) (\<lambda>serial.
     whenS (serial = volume)
       (bindS (os (os_scandir env parent)) (\<lambda>names. forS names (remove_orphan env current parent))))"

definition in_trash_key :: "pystr \<Rightarrow> bool" where
  "in_trash_key key \<longleftrightarrow> key = sync_trash_key \<or> starts_with (sync_trash_key @ [backslash]) key"

definition remove_orphans_in ::
    "'w os_env \<Rightarrow> path \<Rightarrow> pystr \<Rightarrow> pystr \<Rightarrow> pystr \<Rightarrow> ('w, unit) native" where
  "remove_orphans_in env rootp current volume rel =
     bindS (pureS (normalize_relative_path (os_upper env) True rel)) (\<lambda>key.
     if in_trash_key key then returnS ()
     else if rel \<noteq> []
     then bindS (native_resolve env rootp rel False) (\<lambda>parent.
          bindS (os (os_lexists env parent)) (\<lambda>found.
          whenS found
            (thenS (reject_reparse env parent)
              (bindS (os (os_is_dir env parent)) (\<lambda>dir.
                whenS dir (scan_orphans env current volume parent))))))
     else thenS (reject_reparse env rootp) (scan_orphans env current volume rootp))"

text \<open>\<open>parents\<close> is the set of touched parents in some order; the code sorts it by key and value.\<close>

definition remove_orphaned_temps ::
    "'w os_env \<Rightarrow> path \<Rightarrow> pystr list \<Rightarrow> pystr \<Rightarrow> ('w, unit) native" where
  "remove_orphaned_temps env target_root parents current =
     bindS (os (os_resolve env target_root True)) (\<lambda>rootp.
     bindS (os (os_serial env rootp)) (\<lambda>volume.
     bindS (pureS (mapE (\<lambda>rel. bindE (normalize_relative_path (os_upper env) True rel) (\<lambda>key. Inr (key, rel))) parents))
       (\<lambda>keyed. forS (map snd (sort_key (\<lambda>k. k) keyed)) (remove_orphans_in env rootp current volume))))"

section \<open>Metadata\<close>

definition native_set_standard_attributes :: "'w os_env \<Rightarrow> path \<Rightarrow> int \<Rightarrow> ('w, unit) native" where
  "native_set_standard_attributes env p desired =
     bindS (os (os_get_attributes env p)) (\<lambda>current.
       os_call env (OsSetAttributes p (standard_attributes current desired)))"

definition native_set_creation_time :: "'w os_env \<Rightarrow> path \<Rightarrow> int \<Rightarrow> ('w, unit) native" where
  "native_set_creation_time env p ns =
     (case filetime_of_ns ns of (low, high) \<Rightarrow> os_call env (OsSetCreation p low high))"

definition native_apply_metadata ::
    "'w os_env \<Rightarrow> path \<Rightarrow> file_stat \<Rightarrow> bool \<Rightarrow> bool \<Rightarrow> ('w, unit) native" where
  "native_apply_metadata env p st preserve_creation apply_readonly =
     thenS (os_call env (OsUtime p (st_mtime_ns st)))
     (thenS (case created_ns (st_metadata st) of
          Some ns \<Rightarrow> whenS preserve_creation (native_set_creation_time env p ns)
        | None \<Rightarrow> returnS ())
       (native_set_standard_attributes env p (desired_attributes st apply_readonly)))"

definition native_clear_readonly :: "'w os_env \<Rightarrow> path \<Rightarrow> ('w, unit) native" where
  "native_clear_readonly env p =
     bindS (os (os_get_attributes env p)) (\<lambda>current.
       os_call env (OsSetAttributes p (current AND NOT readonly_bit)))"

section \<open>Backups and trash\<close>

function backup_write :: "'w os_env \<Rightarrow> path \<Rightarrow> bytes \<Rightarrow> ('w, unit) native" where
  "backup_write env temp view =
     (if view = [] then returnS ()
      else bindS (os (os_write env temp view)) (\<lambda>written.
        case written of
          None \<Rightarrow> raiseS (simple_exn X_OS_ERROR ''OSError'' (lit ''backup copy made no forward write progress''))
        | Some n \<Rightarrow>
            (if n \<le> 0
             then raiseS (simple_exn X_OS_ERROR ''OSError'' (lit ''backup copy made no forward write progress''))
             else thenS (log_os (OsWritten temp (take (nat n) view)))
                    (backup_write env temp (drop (nat n) view)))))"
  by pat_completeness auto
termination by (relation "measure (\<lambda>(env, temp, view). length view)") auto

declare backup_write.simps [simp del]

primrec backup_chunks ::
    "'w os_env \<Rightarrow> ('w, unit) effect \<Rightarrow> path \<Rightarrow> path \<Rightarrow> (exception + bytes) list \<Rightarrow> ('w, unit) native" where
  "backup_chunks env checkpoint source temp [] = thenS (os checkpoint) (log_os (OsRead source []))"
| "backup_chunks env checkpoint source temp (r # rs) =
     thenS (os checkpoint)
       (case r of
          Inl e \<Rightarrow> raiseS e
        | Inr chunk \<Rightarrow>
            thenS (log_os (OsRead source chunk))
              (if chunk = [] then returnS ()
               else thenS (backup_write env temp chunk) (backup_chunks env checkpoint source temp rs)))"

definition backup_content ::
    "'w os_env \<Rightarrow> ('w, unit) effect \<Rightarrow> path \<Rightarrow> path \<Rightarrow> ('w, unit) native" where
  "backup_content env checkpoint source temp =
     bindS (os (os_open_read env source (4 * 1024 * 1024))) (\<lambda>reads.
       finallyS
         (thenS (os_call env (OsCreate temp))
           (finallyS
             (thenS (backup_chunks env checkpoint source temp reads) (os_call env (OsFsync temp)))
             (os (os_close env temp))))
         (os (os_close env source)))"

definition native_copy_backup ::
    "'w os_env \<Rightarrow> ('w, unit) effect \<Rightarrow> path \<Rightarrow> path \<Rightarrow> path \<Rightarrow> ('w, unit) native" where
  "native_copy_backup env checkpoint source temp target =
     thenS (backup_content env checkpoint source temp)
     (bindS (native_stat_path env source) (\<lambda>found.
       case found of
         None \<Rightarrow> raiseS (simple_exn X_FILE_NOT_FOUND ''FileNotFoundError'' (path_str source))
       | Some st \<Rightarrow>
           thenS (native_apply_metadata env temp st True False)
           (thenS (os_call env (OsFsync temp))
           (thenS (os_call env (OsRename temp target))
             (native_apply_metadata env target st True True)))))"

definition trash_step :: "'w os_env \<Rightarrow> path \<Rightarrow> path \<Rightarrow> ('w, unit) native" where
  "trash_step env rootp current =
     thenS (exceptS (os_call env (OsMkdir current)) (\<lambda>e. ex_class e = X_FILE_EXISTS)
       (\<lambda>_. bindS (os (os_is_dir env current)) (\<lambda>dir.
          if dir then returnS ()
          else raiseS (unsafe_path (lit ''trash parent is not a directory: '' @ path_str current) None))))
     (thenS (reject_reparse env current)
     (bindS (os (os_device env current)) (\<lambda>here.
      bindS (os (os_device env rootp)) (\<lambda>there.
      whenS (here \<noteq> there) (raiseS (unsafe_path (lit ''trash path leaves the target volume'') None))))))"

primrec trash_parents :: "'w os_env \<Rightarrow> path \<Rightarrow> path \<Rightarrow> pystr list \<Rightarrow> ('w, path) native" where
  "trash_parents env rootp current [] = returnS current"
| "trash_parents env rootp current (part # parts) =
     thenS (trash_step env rootp (path_join current [part]))
       (trash_parents env rootp (path_join current [part]) parts)"

definition native_trash_destination :: "'w os_env \<Rightarrow> path \<Rightarrow> pystr \<Rightarrow> pystr \<Rightarrow> ('w, path) native" where
  "native_trash_destination env target_root run rel =
     bindS (pureS (validate_relative_path (os_upper env) False rel)) (\<lambda>canonical.
     bindS (os (os_resolve env target_root True)) (\<lambda>rootp.
     thenS (reject_reparse env rootp)
     (bindS (trash_parents env rootp rootp
              (lit ''.synctrash'' # run # butlast (win_parts canonical))) (\<lambda>current.
      let destination = path_join current [win_name canonical]
      in thenS (validate_existing_chain env rootp destination) (returnS destination)))))"

end
