(* ===== verification/Native_Properties.thy ===== *)
theory Native_Properties
  imports Native_Filesystem
begin

text \<open>
  The native primitives: what each of them can change (relations between the log before and after),
  which temporaries the cleanup of orphans removes, and that a backup is complete before it gets its
  name.
\<close>

section \<open>What a computation can log\<close>

definition logs :: "(os_call \<Rightarrow> bool) \<Rightarrow> 'w fs_state \<Rightarrow> 'w fs_state \<Rightarrow> bool" where
  "logs P s t \<longleftrightarrow> (\<exists>cs. fs_log t = fs_log s @ cs \<and> list_all P cs)"

interpretation logging: step_relation "logs P" for P
proof
  show "logs P s t \<Longrightarrow> logs P t u \<Longrightarrow> logs P s u" for s t u
    unfolding logs_def by (metis append.assoc list_all_append)
qed (simp add: logs_def)

lemma logs_os: "stays (logs P) (os m)"
  unfolding os_def by (rule stays_through) (simp add: logs_def)

lemma logs_log: "P c \<Longrightarrow> stays (logs P) (log_os c)"
  by (simp add: stays_def log_os_def updateS_def logs_def)

lemma logs_call: "P c \<Longrightarrow> stays (logs P) (os_call env c)"
  unfolding os_call_def by (intro logging.stays_then logs_os logs_log)

lemma logs_mono: "stays (logs P) m \<Longrightarrow> (\<And>c. P c \<Longrightarrow> Q c) \<Longrightarrow> stays (logs Q) m"
  unfolding stays_def logs_def by (fast elim: list.pred_mono_strong)

lemmas logs_rules = logging.stays_rules logs_os logs_call logs_log

text \<open>A bind whose continuation may rely on what the first part returns.\<close>

definition gives :: "('s, 'a) effect \<Rightarrow> ('a \<Rightarrow> bool) \<Rightarrow> bool" where
  "gives m V \<longleftrightarrow> (\<forall>s. wp m (\<lambda>a _. V a) (\<lambda>_ _. True) s)"

lemma gives_rules:
  "V a \<Longrightarrow> gives (returnS a) V" "gives (raiseS e) V"
  "(\<And>a. gives (f a) V) \<Longrightarrow> gives (bindS m f) V"
  "gives n V \<Longrightarrow> gives (thenS k n) V"
  "(c \<Longrightarrow> gives m1 V) \<Longrightarrow> (\<not> c \<Longrightarrow> gives m2 V) \<Longrightarrow> gives (if c then m1 else m2) V"
  "(\<And>e. gives (g e) V) \<Longrightarrow> (\<And>a. gives (f a) V) \<Longrightarrow> gives (case r of Inl e \<Rightarrow> g e | Inr a \<Rightarrow> f a) V"
  by (auto simp: gives_def wp_rules intro: wp_mono [OF wp_True] split: sum.split)

lemma gives_pure: "(\<And>a. r = Inr a \<Longrightarrow> V a) \<Longrightarrow> gives (pureS r) V"
  by (auto simp: gives_def wp_rules split: sum.split)

lemma gives_bind: "gives m W \<Longrightarrow> (\<And>a. W a \<Longrightarrow> gives (f a) V) \<Longrightarrow> gives (bindS m f) V"
  unfolding gives_def wp_bind by (blast intro: wp_mono)

lemma logs_bind:
  assumes "gives m V" "stays (logs P) m" "\<And>a. V a \<Longrightarrow> stays (logs P) (f a)"
  shows "stays (logs P) (bindS m f)"
  unfolding stays_wp wp_bind
proof
  fix s
  have "wp m (\<lambda>a t. V a \<and> logs P s t) (\<lambda>_. logs P s) s"
    using wp_conj [OF _ wp_stays [OF assms(2)]] assms(1) unfolding gives_def by (fastforce intro: wp_mono)
  then show "wp m (\<lambda>a. wp (f a) (\<lambda>_. logs P s) (\<lambda>_. logs P s)) (\<lambda>_. logs P s) s"
    by (rule wp_mono) (auto intro!: wp_mono [OF wp_stays [OF assms(3)]] intro: logging.trans)
qed

abbreviation silent_native :: "('w, 'a) native \<Rightarrow> bool" where
  "silent_native m \<equiv> stays (logs (\<lambda>_. False)) m"

lemma logs_silent: "silent_native m \<Longrightarrow> stays (logs P) m"
  by (erule logs_mono) simp

section \<open>Reads\<close>

lemma silent_reject_reparse: "silent_native (reject_reparse env p)"
  unfolding reject_reparse_def Let_def by (intro logs_rules)

lemma silent_validate_chain_from: "silent_native (validate_chain_from env p parts)"
  by (induction parts arbitrary: p) (auto intro!: logs_rules silent_reject_reparse)

lemma silent_validate_existing_chain: "silent_native (validate_existing_chain env r p)"
  unfolding validate_existing_chain_def by (intro logs_rules silent_validate_chain_from)

lemma silent_resolve: "silent_native (native_resolve env r rel must_exist)"
  unfolding native_resolve_def contained_candidate_def Let_def
  by (intro logs_rules silent_reject_reparse silent_validate_existing_chain) (auto split: sum.split intro!: logs_rules)

lemma silent_stat_path: "silent_native (native_stat_path env p)"
  unfolding native_stat_path_def Let_def
  by (intro logs_rules silent_reject_reparse) (auto split: mode_kind.split intro!: logs_rules)

text \<open>A resolved path consists of the canonical components of the relative one, below the root.\<close>

definition below_root :: "upper \<Rightarrow> pystr \<Rightarrow> path \<Rightarrow> bool" where
  "below_root up rel p \<longleftrightarrow>
     (\<exists>rootp canonical. validate_relative_path up False rel = Inr canonical \<and> p = path_join rootp (win_parts canonical))"

lemma gives_candidate: "V candidate \<Longrightarrow> gives (contained_candidate env rootp rel must_exist candidate) V"
  unfolding contained_candidate_def by (intro gives_rules)

lemma gives_resolve: "gives (native_resolve env r rel must_exist) (below_root (os_upper env) rel)"
  unfolding native_resolve_def Let_def
  by (intro gives_bind [where W = "\<lambda>c. validate_relative_path (os_upper env) False rel = Inr c"] gives_pure)
     (auto intro!: gives_rules gives_candidate simp: below_root_def)

section \<open>Orphaned temporaries\<close>

text \<open>The name of an owned temporary carries its run.\<close>

lemma temp_name_run:
  assumes "name \<noteq> []" "10 \<notin> set name" "is_fixed_id run" "is_fixed_id op"
  shows "owned_temp_run_id (temp_name name run op) = Some run"
  using assms unfolding owned_temp_run_id_iff temp_name_def by blast

definition orphan_removal :: "upper \<Rightarrow> pystr list \<Rightarrow> pystr \<Rightarrow> os_call \<Rightarrow> bool" where
  "orphan_removal up parents current c \<longleftrightarrow>
     (\<exists>rel key rootp parts name owner.
        rel \<in> set parents \<and> normalize_relative_path up True rel = Inr key \<and> \<not> in_trash_key key
        \<and> (if rel = [] then parts = []
           else \<exists>canonical. validate_relative_path up False rel = Inr canonical \<and> parts = win_parts canonical)
        \<and> c = OsUnlink (path_join rootp (parts @ [name]))
        \<and> owned_temp_run_id name = Some owner \<and> owner \<noteq> current)"

lemma path_join_join: "path_join (path_join p xs) ys = path_join p (xs @ ys)"
  by (simp add: path_join_def)

lemma logs_scan_orphans:
  assumes "\<And>name owner. owned_temp_run_id name = Some owner \<Longrightarrow> owner \<noteq> current \<Longrightarrow>
    P (OsUnlink (path_join parent [name]))"
  shows "stays (logs P) (scan_orphans env current volume parent)"
proof -
  have "stays (logs P) (remove_orphan env current parent name)" for name
    by (cases "owned_temp_run_id name")
       (auto simp: remove_orphan_def native_remove_owned_temp_def intro!: logs_rules assms)
  then show ?thesis unfolding scan_orphans_def by (intro logs_rules)
qed

lemma logs_remove_orphans_in:
  assumes "rel \<in> set parents"
  shows "stays (logs (orphan_removal (os_upper env) parents current)) (remove_orphans_in env r current volume rel)"
  (is "stays (logs ?P) _")
proof -
  let ?up = "os_upper env"
  have scan: "stays (logs ?P) (scan_orphans env current volume p)"
    if key: "normalize_relative_path ?up True rel = Inr key" "\<not> in_trash_key key"
      and p: "if rel = [] then p = r else below_root ?up rel p" for key p
  proof (rule logs_scan_orphans)
    fix name owner
    assume name: "owned_temp_run_id name = Some owner" "owner \<noteq> current"
    obtain rootp parts where "p = path_join rootp parts"
      "if rel = [] then parts = [] else \<exists>c. validate_relative_path ?up False rel = Inr c \<and> parts = win_parts c"
      using p by (cases "rel = []") (auto simp: below_root_def path_join_def intro: that [where rootp = r])
    then show "?P (OsUnlink (path_join p [name]))"
      unfolding orphan_removal_def
      by (intro exI [of _ rel] exI [of _ key] exI [of _ rootp] exI [of _ parts] exI [of _ name] exI [of _ owner])
         (use assms key name in \<open>simp add: path_join_join\<close>)
  qed
  have resolved: "stays (logs ?P) (bindS (native_resolve env r rel False) (\<lambda>parent.
      bindS (os (os_lexists env parent)) (\<lambda>found. whenS found
        (thenS (reject_reparse env parent) (bindS (os (os_is_dir env parent)) (\<lambda>dir.
          whenS dir (scan_orphans env current volume parent)))))))"
    if "normalize_relative_path ?up True rel = Inr key" "\<not> in_trash_key key" "rel \<noteq> []" for key
    by (rule logs_bind [OF gives_resolve logs_silent [OF silent_resolve]])
       (intro logs_rules logs_silent [OF silent_reject_reparse] scan [OF that(1,2)], simp add: that)
  show ?thesis
    unfolding remove_orphans_in_def
  proof (rule logs_bind [where V = "\<lambda>key. normalize_relative_path ?up True rel = Inr key", OF gives_pure])
    fix key
    assume key: "normalize_relative_path ?up True rel = Inr key"
    show "stays (logs ?P) (if in_trash_key key then returnS () else if rel \<noteq> [] then
        bindS (native_resolve env r rel False) (\<lambda>parent. bindS (os (os_lexists env parent)) (\<lambda>found. whenS found
          (thenS (reject_reparse env parent) (bindS (os (os_is_dir env parent)) (\<lambda>dir.
            whenS dir (scan_orphans env current volume parent))))))
        else thenS (reject_reparse env r) (scan_orphans env current volume r))"
      by (intro logging.stays_if resolved [OF key] logging.stays_basic logging.stays_then scan [OF key]
          logs_silent [OF silent_reject_reparse]) auto
  qed (simp_all add: logging.stays_basic)
qed

lemma mapE_keys:
  "mapE (\<lambda>rel. bindE (f rel) (\<lambda>key. Inr (key, rel))) xs = Inr ys \<Longrightarrow> snd ` set ys = set xs"
  by (induction xs arbitrary: ys) (force simp: bindE_def split: sum.splits)+


section \<open>Backups\<close>

text \<open>What moves data from the source of a backup to its temporary, and what dresses a path.\<close>

fun transfer :: "path \<Rightarrow> path \<Rightarrow> os_call \<Rightarrow> bool" where
  "transfer source temp (OsRead p _) = (p = source)"
| "transfer source temp (OsWritten p _) = (p = temp)"
| "transfer source temp _ = False"

fun dresses :: "path \<Rightarrow> os_call \<Rightarrow> bool" where
  "dresses p (OsUtime q _) = (q = p)"
| "dresses p (OsSetAttributes q _) = (q = p)"
| "dresses p (OsSetCreation q _ _) = (q = p)"
| "dresses p _ = False"

fun read_data :: "os_call list \<Rightarrow> bytes" where
  "read_data [] = []"
| "read_data (OsRead _ chunk # cs) = chunk @ read_data cs"
| "read_data (_ # cs) = read_data cs"

fun written_data :: "os_call list \<Rightarrow> bytes" where
  "written_data [] = []"
| "written_data (OsWritten _ chunk # cs) = chunk @ written_data cs"
| "written_data (_ # cs) = written_data cs"

lemma data_append [simp]:
  "read_data (cs @ ds) = read_data cs @ read_data ds"
  "written_data (cs @ ds) = written_data cs @ written_data ds"
  by (induction cs rule: read_data.induct) simp_all

text \<open>The calls that prepare a backup: they read the source and change nothing but the temporary.\<close>

definition prepares :: "path \<Rightarrow> path \<Rightarrow> os_call \<Rightarrow> bool" where
  "prepares source temp c \<longleftrightarrow> c = OsCreate temp \<or> c = OsFsync temp \<or> transfer source temp c \<or> dresses temp c"

text \<open>The log of a backup that is given its name: everything that was read has been written and flushed.\<close>

definition backed_up :: "path \<Rightarrow> path \<Rightarrow> path \<Rightarrow> os_call list \<Rightarrow> bool" where
  "backed_up source temp target L \<longleftrightarrow>
     (\<exists>io meta post.
        L = OsCreate temp # io @ [OsRead source [], OsFsync temp] @ meta @ [OsFsync temp, OsRename temp target] @ post
        \<and> list_all (transfer source temp) io \<and> written_data io = read_data io
        \<and> list_all (dresses temp) meta \<and> list_all (dresses target) post)"

lemma wp_os: "(\<And>r w. case r of Inl e \<Rightarrow> E e (s\<lparr>fs_world := w\<rparr>) | Inr a \<Rightarrow> Q a (s\<lparr>fs_world := w\<rparr>)) \<Longrightarrow> wp (os m) Q E s"
  unfolding os_def by (rule wp_through) (auto split: sum.splits)

text \<open>
  \<open>adds m P\<close>: whatever \<open>m\<close> logs when it returns satisfies \<open>P\<close>.
\<close>

definition adds :: "('w, 'a) native \<Rightarrow> (os_call list \<Rightarrow> bool) \<Rightarrow> bool" where
  "adds m P \<longleftrightarrow> (\<forall>s. wp m (\<lambda>_ t. \<exists>cs. fs_log t = fs_log s @ cs \<and> P cs) (\<lambda>_ _. True) s)"

lemma adds_raise: "adds (raiseS e) P"
  by (simp add: adds_def wp_raise)

lemma adds_bind:
  fixes m :: "('w, 'a) native"
  assumes "adds m P" "\<And>a. adds (f a) Q" "\<And>cs ds. P cs \<Longrightarrow> Q ds \<Longrightarrow> R (cs @ ds)"
  shows "adds (bindS m f) R"
  unfolding adds_def wp_bind
proof
  fix s :: "'w fs_state"
  have "wp m (\<lambda>_ t. \<exists>cs. fs_log t = fs_log s @ cs \<and> P cs) (\<lambda>_ _. True) s" using assms(1) by (simp add: adds_def)
  then show "wp m (\<lambda>a. wp (f a) (\<lambda>_ t. \<exists>cs. fs_log t = fs_log s @ cs \<and> R cs) (\<lambda>_ _. True)) (\<lambda>_ _. True) s"
  proof (rule wp_mono)
    fix a :: 'a and t :: "'w fs_state"
    assume "\<exists>cs. fs_log t = fs_log s @ cs \<and> P cs"
    then obtain cs where cs: "fs_log t = fs_log s @ cs" "P cs" by blast
    have "wp (f a) (\<lambda>_ u. \<exists>ds. fs_log u = fs_log t @ ds \<and> Q ds) (\<lambda>_ _. True) t"
      using assms(2) by (simp add: adds_def)
    then show "wp (f a) (\<lambda>_ t. \<exists>cs. fs_log t = fs_log s @ cs \<and> R cs) (\<lambda>_ _. True) t"
      by (rule wp_mono) (use cs assms(3) in fastforce)+
  qed simp
qed

lemma adds_then: "adds m P \<Longrightarrow> adds n Q \<Longrightarrow> (\<And>cs ds. P cs \<Longrightarrow> Q ds \<Longrightarrow> R (cs @ ds)) \<Longrightarrow> adds (thenS m n) R"
  unfolding thenS_def by (rule adds_bind)

lemma adds_logs: "stays (logs P) m \<Longrightarrow> adds m (list_all P)"
  unfolding adds_def by (intro allI, drule wp_stays, erule wp_mono) (auto simp: logs_def)

lemma adds_silent: "silent_native m \<Longrightarrow> P [] \<Longrightarrow> adds m P"
  unfolding adds_def
  by (intro allI, drule wp_stays, erule wp_mono) (auto simp: logs_def list_all_iff)

lemma adds_os: "P [] \<Longrightarrow> adds (os m) P"
  by (rule adds_silent [OF logs_os])

lemma adds_log: "P [c] \<Longrightarrow> adds (log_os c) P"
  by (simp add: adds_def log_os_def wp_update)

lemma adds_call: "P [c] \<Longrightarrow> adds (os_call env c) P"
  unfolding os_call_def by (rule adds_then [OF adds_log adds_os, where P = "\<lambda>cs. cs = [c]" and Q = "\<lambda>cs. cs = []"]) auto

lemma adds_return: "P [] \<Longrightarrow> adds (returnS a) P"
  by (simp add: adds_def wp_return)

lemma adds_finally:
  fixes m :: "('w, 'a) native"
  assumes "adds m P" "silent_native c"
  shows "adds (finallyS m c) P"
  unfolding adds_def wp_finally
proof
  fix s :: "'w fs_state"
  have c: "wp c (\<lambda>_ t. \<exists>cs. fs_log t = fs_log s @ cs \<and> P cs) (\<lambda>_ _. True) t"
    if "\<exists>cs. fs_log t = fs_log s @ cs \<and> P cs" for t :: "'w fs_state"
    by (rule wp_mono [OF wp_stays [OF assms(2)]]) (use that in \<open>auto simp: logs_def list_all_iff\<close>)
  have "wp m (\<lambda>_ t. \<exists>cs. fs_log t = fs_log s @ cs \<and> P cs) (\<lambda>_ _. True) s" using assms(1) by (simp add: adds_def)
  then show "wp m (\<lambda>a. wp c (\<lambda>_ t. \<exists>cs. fs_log t = fs_log s @ cs \<and> P cs) (\<lambda>_ _. True))
      (\<lambda>e. wp c (\<lambda>_ _. True) (\<lambda>_ _. True)) s"
    by (rule wp_mono) (auto intro: c wp_True)
qed

lemma adds_silent_bind: "silent_native m \<Longrightarrow> (\<And>a. adds (f a) R) \<Longrightarrow> adds (bindS m f) R"
  by (rule adds_bind [OF adds_silent, where P = "\<lambda>cs. cs = []"]) auto

lemma adds_silent_then: "silent_native m \<Longrightarrow> adds n R \<Longrightarrow> adds (thenS m n) R"
  unfolding thenS_def by (rule adds_silent_bind)

lemma adds_log_then: "adds n Q \<Longrightarrow> (\<And>ds. Q ds \<Longrightarrow> R (c # ds)) \<Longrightarrow> adds (thenS (log_os c) n) R"
  by (rule adds_then [where P = "\<lambda>cs. cs = [c]" and Q = Q, OF adds_log]) auto

lemma adds_call_then: "adds n Q \<Longrightarrow> (\<And>ds. Q ds \<Longrightarrow> R (c # ds)) \<Longrightarrow> adds (thenS (os_call env c) n) R"
  by (rule adds_then [where P = "\<lambda>cs. cs = [c]" and Q = Q, OF adds_call]) auto

lemma adds_sum:
  "(\<And>e. adds (g e) P) \<Longrightarrow> (\<And>a. adds (f a) P) \<Longrightarrow> adds (case r of Inl e \<Rightarrow> g e | Inr a \<Rightarrow> f a) P"
  by (simp split: sum.split)

lemma adds_option:
  "adds m P \<Longrightarrow> (\<And>a. adds (f a) P) \<Longrightarrow> adds (case x of None \<Rightarrow> m | Some a \<Rightarrow> f a) P"
  by (simp split: option.split)

lemma adds_mono: "adds m P \<Longrightarrow> (\<And>cs. P cs \<Longrightarrow> Q cs) \<Longrightarrow> adds m Q"
  unfolding adds_def by (blast intro: wp_mono)

lemma adds_backup_write:
  "adds (backup_write env temp view) (\<lambda>cs. list_all (transfer source temp) cs \<and> read_data cs = []
     \<and> written_data cs = view)"
proof (induction view rule: length_induct)
  case (1 view)
  let ?P = "\<lambda>view cs. list_all (transfer source temp) cs \<and> read_data cs = [] \<and> written_data cs = view"
  have step: "adds (thenS (log_os (OsWritten temp (take (nat n) view))) (backup_write env temp (drop (nat n) view))) (?P view)"
    if "view \<noteq> []" "n > 0" for n :: int
    by (rule adds_log_then [where Q = "?P (drop (nat n) view)"]) (use 1 that in auto)
  show ?case
  proof (cases "view = []")
    case True
    then show ?thesis by (subst backup_write.simps) (simp add: adds_return)
  next
    case False
    then show ?thesis
      by (subst backup_write.simps)
         (auto intro!: adds_silent_bind [OF logs_os] adds_option adds_raise step)
  qed
qed

definition moved :: "path \<Rightarrow> path \<Rightarrow> bytes \<Rightarrow> os_call list \<Rightarrow> bool" where
  "moved source temp pre cs \<longleftrightarrow>
     (\<exists>io. cs = io @ [OsRead source []] \<and> list_all (transfer source temp) io \<and> written_data io = pre @ read_data io)"

lemma adds_backup_chunks: "adds (backup_chunks env checkpoint source temp reads) (moved source temp [])"
proof (induction reads)
  case Nil
  then show ?case
    by (auto simp: moved_def intro!: adds_silent_then [OF logs_os] adds_log)
next
  case (Cons r reads)
  have chunk: "adds (thenS (log_os (OsRead source chunk)) (if chunk = [] then returnS ()
      else thenS (backup_write env temp chunk) (backup_chunks env checkpoint source temp reads))) (moved source temp [])"
    for chunk
  proof (cases "chunk = []")
    case True
    then show ?thesis
      by (auto simp: moved_def intro!: adds_log_then [OF adds_return, where Q = "\<lambda>cs. cs = []"])
  next
    case False
    have "adds (thenS (backup_write env temp chunk) (backup_chunks env checkpoint source temp reads)) (moved source temp chunk)"
      by (rule adds_then [OF adds_backup_write [where source = source] Cons])
         (auto simp: moved_def append_assoc [symmetric] simp del: append_assoc)
    then have "adds (thenS (log_os (OsRead source chunk))
        (thenS (backup_write env temp chunk) (backup_chunks env checkpoint source temp reads))) (moved source temp [])"
    proof (rule adds_log_then)
      fix ds
      assume "moved source temp chunk ds"
      then obtain io where "ds = io @ [OsRead source []]" "list_all (transfer source temp) io"
        "written_data io = chunk @ read_data io"
        unfolding moved_def by blast
      then show "moved source temp [] (OsRead source chunk # ds)"
        unfolding moved_def by (intro exI [of _ "OsRead source chunk # io"]) simp
    qed
    with False show ?thesis by simp
  qed
  then show ?case
    by (auto intro!: adds_silent_then [OF logs_os] adds_raise adds_sum simp del: whenS_def)
qed

section \<open>Publishing the backup\<close>

lemma logs_set_attributes: "stays (logs (dresses p)) (native_set_standard_attributes env p d)"
  unfolding native_set_standard_attributes_def by (intro logs_rules) simp

lemma logs_apply_metadata: "stays (logs (dresses p)) (native_apply_metadata env p st preserve ro)"
proof -
  have "stays (logs (dresses p)) (native_set_creation_time env p ns)" for ns
    unfolding native_set_creation_time_def by (cases "filetime_of_ns ns") (auto intro: logs_call)
  then show ?thesis
    unfolding native_apply_metadata_def
    by (intro logging.stays_then logs_call logging.stays_option logging.stays_when logging.stays_basic
        logs_set_attributes) simp_all
qed

definition copied :: "path \<Rightarrow> path \<Rightarrow> os_call list \<Rightarrow> bool" where
  "copied source temp cs \<longleftrightarrow>
     (\<exists>io. cs = OsCreate temp # io @ [OsRead source [], OsFsync temp] \<and> list_all (transfer source temp) io
        \<and> written_data io = read_data io)"

lemma adds_backup_content: "adds (backup_content env checkpoint source temp) (copied source temp)"
proof -
  have "adds (thenS (backup_chunks env checkpoint source temp reads) (os_call env (OsFsync temp)))
      (\<lambda>cs. copied source temp (OsCreate temp # cs))" for reads
    by (rule adds_then [OF adds_backup_chunks adds_call, where Q = "\<lambda>cs. cs = [OsFsync temp]"])
       (auto simp: moved_def copied_def)
  then show ?thesis
    unfolding backup_content_def
    by (intro adds_silent_bind adds_finally adds_call_then logs_os)
qed

lemma prepares_simps [simp]:
  "prepares source temp (OsCreate p) \<longleftrightarrow> p = temp" "prepares source temp (OsFsync p) \<longleftrightarrow> p = temp"
  "prepares source temp (OsRead p c) \<longleftrightarrow> p = source" "prepares source temp (OsWritten p c) \<longleftrightarrow> p = temp"
  by (auto simp: prepares_def)

lemma logs_backup_write: "stays (logs (prepares source temp)) (backup_write env temp view)"
proof (induction view rule: length_induct)
  case (1 view)
  then show ?case
    by (subst backup_write.simps) (auto intro!: logs_rules)
qed

lemma logs_backup_chunks: "stays (logs (prepares source temp)) (backup_chunks env checkpoint source temp reads)"
proof (induction reads)
  case (Cons r reads)
  then show ?case
    by (cases r) (auto intro!: logs_rules logs_backup_write)
qed (auto intro!: logs_rules)

lemma logs_backup_content: "stays (logs (prepares source temp)) (backup_content env checkpoint source temp)"
  unfolding backup_content_def
  by (intro logs_rules logs_backup_chunks) simp_all

lemma copied_prepares: "copied source temp cs \<Longrightarrow> list_all (prepares source temp) cs"
  by (auto simp: copied_def prepares_def list_all_iff)

lemma wp_logs:
  assumes "stays (logs P) m"
    and "\<And>a t cs. fs_log t = fs_log s @ cs \<Longrightarrow> list_all P cs \<Longrightarrow> Q a t"
    and "\<And>e t cs. fs_log t = fs_log s @ cs \<Longrightarrow> list_all P cs \<Longrightarrow> E e t"
  shows "wp m Q E s"
  by (rule wp_mono [OF wp_stays [OF assms(1)]]) (auto simp: logs_def intro: assms(2,3))

lemma wp_call:
  assumes "\<And>e t. fs_log t = fs_log s @ [c] \<Longrightarrow> E e t" "\<And>t. fs_log t = fs_log s @ [c] \<Longrightarrow> Q () t"
  shows "wp (os_call env c) Q E s"
  unfolding os_call_def log_os_def wp_then wp_update
  by (rule wp_os) (auto simp: assms split: sum.split)

text \<open>From a state whose log is that of a complete copy.\<close>

lemma wp_publish_backup:
  assumes s: "copied source temp (fs_log s)"
  shows "wp (thenS (native_apply_metadata env temp st True False)
       (thenS (os_call env (OsFsync temp))
       (thenS (os_call env (OsRename temp target)) (native_apply_metadata env target st True True))))
     (\<lambda>_ t. backed_up source temp target (fs_log t))
     (\<lambda>_ t. backed_up source temp target (fs_log t) \<or> list_all (prepares source temp) (fs_log t)) s"
proof -
  obtain io where io: "fs_log s = OsCreate temp # io @ [OsRead source [], OsFsync temp]"
      "list_all (transfer source temp) io" "written_data io = read_data io"
    using s by (auto simp: copied_def)
  have prepared: "list_all (prepares source temp) (fs_log s @ cs)" if "list_all (dresses temp) cs" for cs
    using copied_prepares [OF s] that by (auto simp: list_all_iff prepares_def)
  have complete: "backed_up source temp target (fs_log s @ meta @ OsFsync temp # OsRename temp target # post)"
    if "list_all (dresses temp) meta" "list_all (dresses target) post" for meta post
    unfolding backed_up_def
    by (intro exI [of _ io] exI [of _ meta] exI [of _ post]) (use io that in simp)
  have target: "wp (native_apply_metadata env target st True True) (\<lambda>_ t. backed_up source temp target (fs_log t))
      (\<lambda>_ t. backed_up source temp target (fs_log t) \<or> list_all (prepares source temp) (fs_log t)) t"
    if "fs_log t = fs_log s @ meta @ [OsFsync temp, OsRename temp target]" "list_all (dresses temp) meta" for t meta
    by (rule wp_logs [OF logs_apply_metadata]) (use that complete in auto)
  show ?thesis
    unfolding wp_then
  proof (rule wp_logs [OF logs_apply_metadata])
    fix t :: "'a fs_state" and meta
    assume t: "fs_log t = fs_log s @ meta" "list_all (dresses temp) meta"
    show "wp (os_call env (OsFsync temp)) (\<lambda>_. wp (os_call env (OsRename temp target))
        (\<lambda>_. wp (native_apply_metadata env target st True True) (\<lambda>_ t. backed_up source temp target (fs_log t))
          (\<lambda>_ t. backed_up source temp target (fs_log t) \<or> list_all (prepares source temp) (fs_log t)))
        (\<lambda>_ t. backed_up source temp target (fs_log t) \<or> list_all (prepares source temp) (fs_log t)))
      (\<lambda>_ t. backed_up source temp target (fs_log t) \<or> list_all (prepares source temp) (fs_log t)) t"
      by (intro wp_call target [OF _ t(2)])
         (use t prepared [OF t(2)] complete [OF t(2), of "[]"] in \<open>auto simp: list_all_iff\<close>)
  qed (use prepared in auto)
qed

text \<open>C16: A backup gets its name only when it is complete: whatever happens, a run of
  \<^verbatim>\<open>copy_backup\<close> either ends with an exception having only read the source and prepared the
  temporary, or it has read the source to its end, written to the temporary exactly what it read,
  flushed it, and only then renamed the temporary; it replaces and deletes nothing.\<close>

theorem backup_complete_before_published:
  "case native_copy_backup env checkpoint source temp target \<lparr>fs_log = [], fs_world = w\<rparr> of (r, t) \<Rightarrow>
     backed_up source temp target (fs_log t) \<or> (isl r \<and> list_all (prepares source temp) (fs_log t))"
proof -
  let ?Q = "\<lambda>t. backed_up source temp target (fs_log t)"
  let ?E = "\<lambda>t. ?Q t \<or> list_all (prepares source temp) (fs_log t)"
  let ?s = "\<lparr>fs_log = [], fs_world = w\<rparr>"
  have content: "wp (backup_content env checkpoint source temp) (\<lambda>_ t. copied source temp (fs_log t)) (\<lambda>_. ?E) ?s"
    using wp_conj [OF adds_backup_content [unfolded adds_def, rule_format] wp_stays [OF logs_backup_content], where s = ?s]
    by (rule wp_mono) (auto simp: logs_def)
  have stat: "wp (bindS (native_stat_path env source) (\<lambda>found. case found of
        None \<Rightarrow> raiseS (simple_exn X_FILE_NOT_FOUND ''FileNotFoundError'' (path_str source))
      | Some st \<Rightarrow> thenS (native_apply_metadata env temp st True False)
          (thenS (os_call env (OsFsync temp))
          (thenS (os_call env (OsRename temp target)) (native_apply_metadata env target st True True)))))
      (\<lambda>_. ?Q) (\<lambda>_. ?E) t" if "copied source temp (fs_log t)" for t
    unfolding wp_bind
    by (rule wp_logs [OF silent_stat_path])
       (use that copied_prepares [OF that] in
         \<open>auto simp: list_all_iff [of "\<lambda>_. False"] wp_raise split: option.split intro: wp_publish_backup\<close>)
  have "wp (native_copy_backup env checkpoint source temp target) (\<lambda>_. ?Q) (\<lambda>_. ?E) ?s"
    unfolding native_copy_backup_def wp_then by (rule wp_mono [OF content]) (auto intro: stat)
  then show ?thesis
    by (cases "native_copy_backup env checkpoint source temp target ?s";
        cases "fst (native_copy_backup env checkpoint source temp target ?s)") (auto simp: wp_def)
qed
section \<open>Resolution\<close>

text \<open>What \<^verbatim>\<open>lstat\<close> tells of the entries that exist, while nothing changes.\<close>

type_synonym still_disk = "path \<Rightarrow> stat_info option"

definition shows_disk :: "'w os_env \<Rightarrow> still_disk \<Rightarrow> bool" where
  "shows_disk env disk \<longleftrightarrow>
     (\<forall>p w. os_lexists env p w = (Inr (disk p \<noteq> None), w))
     \<and> (\<forall>p w. case disk p of Some info \<Rightarrow> os_lstat env p w = (Inr info, w)
          | None \<Rightarrow> isl (fst (os_lstat env p w)))"

definition reparse_info :: "stat_info \<Rightarrow> bool" where
  "reparse_info info \<longleftrightarrow>
     si_mode info = LINK_MODE \<or> (case si_attributes info of None \<Rightarrow> 0 | Some a \<Rightarrow> a) AND reparse_point \<noteq> 0"

text \<open>
  The entries from a path down its parts, up to the first that does not exist, are no reparse points.
\<close>

primrec plain_chain :: "still_disk \<Rightarrow> path \<Rightarrow> pystr list \<Rightarrow> bool" where
  "plain_chain disk p [] \<longleftrightarrow> True"
| "plain_chain disk p (part # parts) \<longleftrightarrow>
     (case disk (path_join p [part]) of
        None \<Rightarrow> True
      | Some info \<Rightarrow> \<not> reparse_info info \<and> plain_chain disk (path_join p [part]) parts)"

lemma shows_diskD:
  assumes "shows_disk env disk"
  shows "os_lexists env p w = (Inr (disk p \<noteq> None), w)"
    and "disk p = Some info \<Longrightarrow> os_lstat env p w = (Inr info, w)"
    and "disk p = None \<Longrightarrow> isl (fst (os_lstat env p w))"
proof -
  have "case disk p of Some info \<Rightarrow> os_lstat env p w = (Inr info, w) | None \<Rightarrow> isl (fst (os_lstat env p w))"
    and e: "os_lexists env p w = (Inr (disk p \<noteq> None), w)"
    using assms unfolding shows_disk_def by blast+
  then show "os_lexists env p w = (Inr (disk p \<noteq> None), w)"
    "disk p = Some info \<Longrightarrow> os_lstat env p w = (Inr info, w)"
    "disk p = None \<Longrightarrow> isl (fst (os_lstat env p w))"
    by auto
qed

lemma wp_reject_reparse:
  assumes "shows_disk env disk"
  shows "wp (reject_reparse env p) (\<lambda>_ _. \<exists>info. disk p = Some info \<and> \<not> reparse_info info) (\<lambda>_ _. True) s"
proof (cases "disk p")
  case None
  then show ?thesis
    using shows_diskD(3) [OF assms]
    by (auto simp: reject_reparse_def Let_def wp_bind os_def intro!: wp_through split: sum.split)
       (metis fst_conv sum.disc(2))
next
  case (Some info)
  then show ?thesis
    by (auto simp: reject_reparse_def Let_def wp_rules os_def reparse_info_def shows_diskD(2) [OF assms]
        intro!: wp_through)
qed

lemma wp_validate_chain:
  assumes "shows_disk env disk"
  shows "wp (validate_chain_from env p parts) (\<lambda>_ _. plain_chain disk p parts) (\<lambda>_ _. True) s"
proof (induction parts arbitrary: p s)
  case (Cons part parts)
  let ?p = "path_join p [part]"
  show ?case
  proof (cases "disk ?p")
    case None
    then show ?thesis
      by (auto simp: wp_rules os_def shows_diskD(1) [OF assms] intro!: wp_through)
  next
    case (Some info)
    have "wp (thenS (reject_reparse env ?p) (validate_chain_from env ?p parts))
        (\<lambda>_ _. plain_chain disk p (part # parts)) (\<lambda>_ _. True) t" for t
      unfolding wp_then
      by (rule wp_mono [OF wp_reject_reparse [OF assms]]) (auto simp: Some intro: wp_mono [OF Cons.IH])
    with Some show ?thesis
      by (auto simp: wp_bind os_def shows_diskD(1) [OF assms] intro!: wp_through)
  qed
qed (simp add: wp_return)

lemma relative_to_join: "path_relative_to low (path_join p parts) p = Inr (Path [] parts)"
  by (simp add: path_relative_to_def path_join_def)

lemma wp_validate_existing_chain:
  assumes "shows_disk env disk"
  shows "wp (validate_existing_chain env p (path_join p parts)) (\<lambda>_ _. plain_chain disk p parts) (\<lambda>_ _. True) s"
  by (simp add: validate_existing_chain_def relative_to_join wp_bind wp_except wp_pure wp_validate_chain [OF assms])


text \<open>A disk with a root, a directory in it and a file in that; nothing else is asked of the system.\<close>

definition plain_info :: "mode_kind \<Rightarrow> stat_info" where
  "plain_info m = \<lparr>si_mode = m, si_size = 3, si_mtime_ns = 1000, si_ino = 1, si_nlink = 1,
     si_attributes = Some 32, si_birthtime_ns = None, si_ctime_ns = Some 5\<rparr>"

definition sample_rootp :: path where
  "sample_rootp = Path (lit ''C:'' @ [backslash]) [lit ''data'']"

definition still_sample :: still_disk where
  "still_sample p =
     (if p = sample_rootp \<or> p = path_join sample_rootp [lit ''a''] then Some (plain_info DIRECTORY_MODE)
      else if p = path_join sample_rootp [lit ''a'', lit ''b''] then Some (plain_info REGULAR_MODE)
      else None)"

definition sample_os :: "unit os_env" where
  "sample_os =
     \<lparr>os_upper = ascii_upper, os_lower = (\<lambda>s. s), os_commonpath = (\<lambda>p _. Inr (path_str p)),
      os_resolve = (\<lambda>p _. returnS p), os_lexists = (\<lambda>p. returnS (still_sample p \<noteq> None)),
      os_lstat = (\<lambda>p. case still_sample p of Some info \<Rightarrow> returnS info
         | None \<Rightarrow> raiseS (simple_exn X_FILE_NOT_FOUND ''FileNotFoundError'' [])),
      os_is_dir = (\<lambda>_. returnS True), os_device = (\<lambda>_. returnS 1), os_serial = (\<lambda>_. returnS (lit ''0A'')),
      os_scandir = (\<lambda>_. returnS []), os_entry_is_file = (\<lambda>_. returnS True),
      os_get_attributes = (\<lambda>_. returnS 32), os_open_read = (\<lambda>_ _. returnS []),
      os_write = (\<lambda>_ data. returnS (Some (int (length data)))), os_close = (\<lambda>_. returnS ()),
      os_do = (\<lambda>_. returnS ())\<rparr>"

lemma sample_os_shows: "shows_disk sample_os still_sample"
  by (auto simp: shows_disk_def sample_os_def returnS_def raiseS_def split: option.split)

lemma sample_os_sel:
  "os_upper sample_os = ascii_upper" "os_resolve sample_os p b = returnS p"
  "os_lexists sample_os p = returnS (still_sample p \<noteq> None)" "os_commonpath sample_os p q = Inr (path_str p)"
  by (simp_all add: sample_os_def)

lemma sample_reject:
  assumes "still_sample p = Some (plain_info m)" "m \<noteq> LINK_MODE"
  shows "reject_reparse sample_os p s = (Inr (), s)"
proof -
  have "(32 :: int) AND reparse_point = 0" by (simp add: reparse_point_def)
  then show ?thesis
    using assms by (simp add: reject_reparse_def os_def through_def sample_os_def plain_info_def effect_defs)
qed

lemma still_sample_eval:
  "still_sample sample_rootp = Some (plain_info DIRECTORY_MODE)"
  "still_sample (path_join sample_rootp [lit ''a'']) = Some (plain_info DIRECTORY_MODE)"
  "still_sample (path_join sample_rootp [lit ''a'', lit ''b'']) = Some (plain_info REGULAR_MODE)"
  by (simp_all add: still_sample_def path_join_def sample_rootp_def)


end
