(* ===== verification/Windows_Reader.thy ===== *)
theory Windows_Reader
  imports Native_Filesystem Integrity
begin

unbundle bit_operations_syntax

text \<open>
  The reader of the verifier on Windows (\<^verbatim>\<open>WindowsUnbufferedReader\<close>, \<^verbatim>\<open>_WindowsApi\<close> and
  \<^verbatim>\<open>_WindowsStream\<close> of \<^verbatim>\<open>modules/verifier.py\<close>) over the functions of \<^verbatim>\<open>kernel32\<close> that it calls. Each
  answers with a value or with the error code of \<^verbatim>\<open>GetLastError\<close>. The fields of the structures
  that \<^verbatim>\<open>ctypes\<close> declares keep their 32 bits.
\<close>

section \<open>The operating system\<close>

type_synonym handle = nat
type_synonym address = nat
type_synonym filetime = "32 word \<times> 32 word"

record file_information =
  fi_attributes :: "32 word"
  fi_creation :: filetime
  fi_last_write :: filetime
  fi_serial :: "32 word"
  fi_size_high :: "32 word"
  fi_size_low :: "32 word"
  fi_links :: "32 word"
  fi_index_high :: "32 word"
  fi_index_low :: "32 word"

record 'w kernel_env =
  ke_upper :: upper
  ke_normcase :: "pystr \<Rightarrow> pystr"
  ke_os_text :: "int \<Rightarrow> pystr option \<Rightarrow> pystr"
  ke_resolve :: "path \<Rightarrow> ('w, path) effect"
  ke_lstat :: "path \<Rightarrow> ('w, stat_info) effect"
  ke_create_file :: "pystr \<Rightarrow> 32 word \<Rightarrow> 32 word \<Rightarrow> 32 word \<Rightarrow> ('w, int + handle) effect"
  ke_close_handle :: "handle \<Rightarrow> ('w, unit) effect"
  ke_information :: "handle \<Rightarrow> ('w, int + file_information) effect"
  ke_final_name :: "handle \<Rightarrow> nat \<Rightarrow> ('w, int + 32 word \<times> pystr) effect"
  ke_volume_name :: "pystr \<Rightarrow> ('w, int + pystr) effect"
  ke_sector_bytes :: "pystr \<Rightarrow> ('w, int + 32 word) effect"
  ke_allocate :: "int \<Rightarrow> ('w, int + address) effect"
  ke_release :: "address \<Rightarrow> ('w, int + unit) effect"
  ke_read_file :: "handle \<Rightarrow> address \<Rightarrow> int \<Rightarrow> ('w, int + bytes) effect"

text \<open>The ghost state: the handles that are open and the buffers that are allocated.\<close>

record 'w reader_state =
  rd_handles :: "handle list"
  rd_buffers :: "address list"
  rd_world :: 'w

type_synonym ('w, 'a) reader = "('w reader_state, 'a) effect"

definition kernel :: "('w, 'a) effect \<Rightarrow> ('w, 'a) reader" where
  "kernel m = through rd_world rd_world_update m"

section \<open>Errors\<close>

text \<open>
  \<^verbatim>\<open>OSError(errno, ...)\<close> constructs the subclass that belongs to the number; the program passes
  Windows error codes.
\<close>

definition oserror_type :: "int \<Rightarrow> string" where
  "oserror_type code =
     (if code \<in> {1, 13} then ''PermissionError'' else if code = 2 then ''FileNotFoundError''
      else if code = 3 then ''ProcessLookupError'' else if code = 4 then ''InterruptedError''
      else if code = 10 then ''ChildProcessError'' else if code \<in> {11, 10035, 10036, 10037} then ''BlockingIOError''
      else if code = 17 then ''FileExistsError'' else if code = 20 then ''NotADirectoryError''
      else if code = 21 then ''IsADirectoryError'' else if code \<in> {32, 10058} then ''BrokenPipeError''
      else if code = 10053 then ''ConnectionAbortedError'' else if code = 10054 then ''ConnectionResetError''
      else if code = 10060 then ''TimeoutError'' else if code = 10061 then ''ConnectionRefusedError''
      else ''OSError'')"

definition errno_error :: "int \<Rightarrow> pystr \<Rightarrow> exception" where
  "errno_error code text =
     Exn (if code = 2 then X_FILE_NOT_FOUND else if code = 17 then X_FILE_EXISTS else X_OS_ERROR)
       (lit (oserror_type code)) text None None"

definition os_error :: "'w kernel_env \<Rightarrow> int \<Rightarrow> pystr option \<Rightarrow> exception" where
  "os_error env code filename = errno_error code (ke_os_text env code filename)"

definition unsupported :: "pystr \<Rightarrow> exception" where
  "unsupported msg = simple_exn X_UNSUPPORTED_VERIFICATION ''UnsupportedVerification'' msg"

definition open_error :: "'w kernel_env \<Rightarrow> path \<Rightarrow> int \<Rightarrow> exception" where
  "open_error env p code =
     (let text = ke_os_text env code (Some (path_str p))
      in if code = 2 \<or> code = 3 then Exn X_FILE_NOT_FOUND (lit ''FileNotFoundError'') text None None
         else if code = 5 then Exn X_OS_ERROR (lit ''PermissionError'') text None None
         else os_error env code (Some (path_str p)))"

section \<open>Paths and times\<close>

definition double_backslash :: pystr where "double_backslash = [backslash, backslash]"

definition extended_path :: "path \<Rightarrow> pystr" where
  "extended_path p =
     (let raw = path_str p
      in if starts_with (double_backslash @ lit ''?'' @ [backslash]) raw then raw
         else if starts_with double_backslash raw
         then double_backslash @ lit ''?'' @ [backslash] @ lit ''UNC'' @ [backslash] @ drop 2 raw
         else double_backslash @ lit ''?'' @ [backslash] @ raw)"

definition align_up :: "int \<Rightarrow> int \<Rightarrow> int" where
  "align_up value alignment = ((value + alignment - 1) div alignment) * alignment"

definition wide :: "32 word \<Rightarrow> 32 word \<Rightarrow> int" where
  "wide high low = push_bit 32 (uint high) OR uint low"

text \<open>A \<^verbatim>\<open>FILETIME\<close> is the pair of its low and its high field.\<close>

definition filetime_to_unix_ns :: "filetime \<Rightarrow> int" where
  "filetime_to_unix_ns t = (wide (snd t) (fst t) - epoch_ticks) * 100"

definition upper_hex_digit :: "int \<Rightarrow> nat" where
  "upper_hex_digit d = (if d < 10 then 48 + nat d else 55 + nat d)"

definition serial_text :: "32 word \<Rightarrow> pystr" where
  "serial_text w = map (\<lambda>k. upper_hex_digit (drop_bit (4 * k) (uint w) AND 15)) [7, 6, 5, 4, 3, 2, 1, 0]"

section \<open>The calls\<close>

definition api_open :: "'w kernel_env \<Rightarrow> path \<Rightarrow> 32 word \<Rightarrow> 32 word \<Rightarrow> 32 word \<Rightarrow> ('w, handle) reader" where
  "api_open env p access share flags =
     bindS (kernel (ke_create_file env (extended_path p) access share flags)) (\<lambda>r.
     case r of
       Inl code \<Rightarrow> raiseS (open_error env p code)
     | Inr h \<Rightarrow> thenS (updateS (\<lambda>s. s\<lparr>rd_handles := h # rd_handles s\<rparr>)) (returnS h))"

definition generic_read :: "32 word" where "generic_read = 0x80000000"
definition share_read :: "32 word" where "share_read = 1"
definition share_all :: "32 word" where "share_all = 1 OR 2 OR 4"
definition unbuffered_flags :: "32 word" where
  "unbuffered_flags = 0x20000000 OR 0x08000000 OR 0x00200000"
definition backup_semantics :: "32 word" where "backup_semantics = 0x02000000"

definition open_file :: "'w kernel_env \<Rightarrow> path \<Rightarrow> ('w, handle) reader" where
  "open_file env p = api_open env p generic_read share_read unbuffered_flags"

definition open_directory :: "'w kernel_env \<Rightarrow> path \<Rightarrow> ('w, handle) reader" where
  "open_directory env p = api_open env p 0 share_all backup_semantics"

definition api_close :: "'w kernel_env \<Rightarrow> handle \<Rightarrow> ('w, unit) reader" where
  "api_close env h =
     thenS (updateS (\<lambda>s. s\<lparr>rd_handles := remove1 h (rd_handles s)\<rparr>)) (kernel (ke_close_handle env h))"

definition attribute_directory :: "32 word" where "attribute_directory = 0x10"
definition attribute_reparse :: "32 word" where "attribute_reparse = 0x400"

definition api_stat :: "'w kernel_env \<Rightarrow> handle \<Rightarrow> ('w, file_stat) reader" where
  "api_stat env h =
     bindS (kernel (ke_information env h)) (\<lambda>r.
     case r of
       Inl code \<Rightarrow> raiseS (os_error env code None)
     | Inr info \<Rightarrow>
         if fi_attributes info AND attribute_reparse \<noteq> 0
         then raiseS (unsupported (lit ''verification refuses a reparse subject''))
         else if fi_attributes info AND attribute_directory \<noteq> 0
         then raiseS (unsupported (lit ''verification selections must name files''))
         else
           let identity = \<lparr>volume_serial = serial_text (fi_serial info),
                           file_index = wide (fi_index_high info) (fi_index_low info)\<rparr>;
               meta = \<lparr>attributes = uint (fi_attributes info),
                       created_ns = Some (filetime_to_unix_ns (fi_creation info))\<rparr>;
               st = \<lparr>st_kind = FILE, st_size = wide (fi_size_high info) (fi_size_low info),
                     st_mtime_ns = filetime_to_unix_ns (fi_last_write info), st_identity = Some identity,
                     st_nlink = uint (fi_links info), st_metadata = meta\<rparr>
           in thenS (pureS (file_identity_post_init identity))
              (thenS (pureS (metadata_post_init meta))
              (thenS (pureS (file_stat_post_init st)) (returnS st))))"

definition sector_size :: "'w kernel_env \<Rightarrow> path \<Rightarrow> ('w, int) reader" where
  "sector_size env p =
     bindS (kernel (ke_volume_name env (extended_path p))) (\<lambda>r.
     case r of
       Inl code \<Rightarrow> raiseS (unsupported (lit ''cannot identify the verification volume (Windows error ''
                     @ int_repr code @ lit '')''))
     | Inr volume \<Rightarrow>
         bindS (kernel (ke_sector_bytes env volume)) (\<lambda>r.
         case r of
           Inl code \<Rightarrow> raiseS (unsupported (lit ''cannot determine unbuffered-read alignment (Windows error ''
                         @ int_repr code @ lit '')''))
         | Inr sector \<Rightarrow>
             if uint sector \<le> 0 then raiseS (unsupported (lit ''volume reported an invalid sector size''))
             else returnS (uint sector)))"

text \<open>
  The length that \<^verbatim>\<open>GetFinalPathNameByHandleW\<close> returns (a code if it is zero) is 32 bits wide, and a
  buffer that the name did not fit grows past it: the loop ends.
\<close>

function final_path_from :: "'w kernel_env \<Rightarrow> handle \<Rightarrow> nat \<Rightarrow> ('w, pystr) reader" where
  "final_path_from env h cap =
     bindS (kernel (ke_final_name env h cap)) (\<lambda>r.
     case r of
       Inl code \<Rightarrow> raiseS (os_error env code None)
     | Inr (len, name) \<Rightarrow>
         if unat len < cap then returnS name
         else final_path_from env h (unat len + 1))"
  by pat_completeness auto
termination
proof (relation "measure (\<lambda>(env, h, cap). 2 ^ 32 + 1 - cap)")
  fix env :: "'w kernel_env" and h cap and len :: "32 word"
  assume "\<not> unat len < cap"
  moreover have "unat len < 2 ^ 32" by (rule order_less_le_trans [OF unsigned_less]) simp
  ultimately show "((env, h, unat len + 1), env, h, cap) \<in> measure (\<lambda>(env, h, cap). 2 ^ 32 + 1 - cap)"
    by simp
qed simp

declare final_path_from.simps [simp del]

definition final_path :: "'w kernel_env \<Rightarrow> handle \<Rightarrow> ('w, pystr) reader" where
  "final_path env h = final_path_from env h 512"

definition strip_separators :: "pystr \<Rightarrow> pystr" where
  "strip_separators p = rev (dropWhile (\<lambda>c. c = backslash \<or> c = slash) (rev p))"

definition require_expected_final_path :: "'w kernel_env \<Rightarrow> path \<Rightarrow> pystr \<Rightarrow> handle \<Rightarrow> ('w, unit) reader" where
  "require_expected_final_path env rootp rel h =
     bindS (bindS (open_directory env rootp) (\<lambda>d.
        finallyS (bindS (final_path env d) (\<lambda>p. returnS (strip_separators p))) (api_close env d))) (\<lambda>root_final.
     bindS (final_path env h) (\<lambda>actual.
     if ke_normcase env (root_final @ [backslash] @ rel) \<noteq> ke_normcase env actual
     then raiseS (unsupported (lit ''the opened handle does not resolve to the selected root-relative path''))
     else returnS ()))"

definition api_read :: "'w kernel_env \<Rightarrow> handle \<Rightarrow> address \<Rightarrow> int \<Rightarrow> ('w, bytes) reader" where
  "api_read env h a n =
     bindS (kernel (ke_read_file env h a n)) (\<lambda>r.
     case r of
       Inl code \<Rightarrow> raiseS (if code = 87 then unsupported (lit ''the volume rejected an aligned unbuffered read'')
                       else os_error env code None)
     | Inr data \<Rightarrow> returnS data)"

definition allocate :: "'w kernel_env \<Rightarrow> int \<Rightarrow> ('w, address) reader" where
  "allocate env n =
     bindS (kernel (ke_allocate env n)) (\<lambda>r.
     case r of
       Inl code \<Rightarrow> raiseS (os_error env code None)
     | Inr a \<Rightarrow> thenS (updateS (\<lambda>s. s\<lparr>rd_buffers := a # rd_buffers s\<rparr>)) (returnS a))"

definition release :: "'w kernel_env \<Rightarrow> address \<Rightarrow> ('w, unit) reader" where
  "release env a =
     bindS (kernel (ke_release env a)) (\<lambda>r.
     case r of
       Inl code \<Rightarrow> raiseS (os_error env code None)
     | Inr _ \<Rightarrow> updateS (\<lambda>s. s\<lparr>rd_buffers := remove1 a (rd_buffers s)\<rparr>))"

section \<open>The stream\<close>

text \<open>
  \<^verbatim>\<open>iter_chunks\<close> run to its end, with the list of the chunks that it yields. Every turn reads at least
  one byte of those that are left.
\<close>

function read_chunks ::
    "'w kernel_env \<Rightarrow> handle \<Rightarrow> address \<Rightarrow> int \<Rightarrow> int \<Rightarrow> int \<Rightarrow> ('w, bytes list) reader" where
  "read_chunks env h a aligned subject sofar =
     (if sofar < subject
      then bindS (api_read env h a aligned) (\<lambda>data.
             if data = [] then returnS []
             else bindS (read_chunks env h a aligned subject (sofar + int (length data))) (\<lambda>chunks.
                    returnS (data # chunks)))
      else returnS [])"
  by pat_completeness auto
termination
  by (relation "measure (\<lambda>(env, h, a, aligned, subject, sofar). nat (subject - sofar))") auto

declare read_chunks.simps [simp del]

definition iter_chunks :: "'w kernel_env \<Rightarrow> handle \<Rightarrow> int \<Rightarrow> int \<Rightarrow> ('w, bytes list) reader" where
  "iter_chunks env h sector chunk_size =
     bindS (api_stat env h) (\<lambda>st.
     if st_size st = 0 then returnS []
     else let aligned = align_up chunk_size sector
          in bindS (allocate env aligned) (\<lambda>a.
               finallyS (read_chunks env h a aligned (st_size st) 0) (release env a)))"

primrec reject_reparse_components :: "'w kernel_env \<Rightarrow> path \<Rightarrow> pystr list \<Rightarrow> ('w, unit) reader" where
  "reject_reparse_components env current [] = returnS ()"
| "reject_reparse_components env current (component # components) =
     bindS (kernel (ke_lstat env (path_join current [component]))) (\<lambda>info.
     let attrs = (case si_attributes info of None \<Rightarrow> 0 | Some a \<Rightarrow> a)
     in if attrs AND reparse_point \<noteq> 0
        then raiseS (unsupported (lit ''verification refuses reparse component: '' @ component))
        else reject_reparse_components env (path_join current [component]) components)"

text \<open>\<^verbatim>\<open>with reader.open(root, rel) as stream: body\<close>, the stream being its handle and sector size.\<close>

definition with_stream ::
    "'w kernel_env \<Rightarrow> path \<Rightarrow> pystr \<Rightarrow> (handle \<Rightarrow> int \<Rightarrow> ('w, 'a) reader) \<Rightarrow> ('w, 'a) reader" where
  "with_stream env rt rel body =
     bindS (pureS (validate_relative_path (ke_upper env) False rel)) (\<lambda>normalized.
     bindS (kernel (ke_resolve env rt)) (\<lambda>rootp.
     let candidate = path_join rootp (win_parts normalized)
     in thenS (reject_reparse_components env rootp (win_parts normalized))
        (bindS (sector_size env candidate) (\<lambda>sector.
         bindS (open_file env candidate) (\<lambda>h.
         finallyS
           (thenS (require_expected_final_path env rootp normalized h)
             (thenS (api_stat env h) (body h sector)))
           (api_close env h))))))"

end
