(* ===== verification/Reader_Properties.thy ===== *)
theory Reader_Properties
  imports Windows_Reader Native_Properties
begin

unbundle bit_operations_syntax

text \<open>
  The Windows reader: it closes and frees whatever it opened and allocated, an iteration over the
  chunks gives the content of the file whatever the chunk and sector sizes, and the time that the
  executor sets is the time that the reader reports.
\<close>

section \<open>Times\<close>

lemma push_or_split:
  fixes n :: int
  shows "push_bit 32 (drop_bit 32 n) OR take_bit 32 n = n"
  by (rule bit_eqI) (auto simp: bit_simps)

lemma wide_word_of_int:
  "wide (word_of_int (drop_bit 32 n)) (word_of_int (n AND 0xFFFFFFFF)) = take_bit 64 n"
proof -
  have mask: "n AND 0xFFFFFFFF = take_bit 32 n"
    by (simp add: take_bit_eq_mask mask_eq_exp_minus_1)
  show ?thesis
    unfolding wide_def mask
    by (rule bit_eqI) (auto simp: bit_simps uint_word_of_int_eq)
qed

text \<open>C20: Creation times survive: the FILETIME that the executor sets on a backup is read back by the
  verifier's stat as the same time, rounded down to the 100 nanoseconds that the format holds, for
  every time that the format can hold.\<close>

theorem filetime_round_trip:
  assumes "- epoch_ticks * 100 \<le> ns" "ns < (2 ^ 64 - epoch_ticks) * 100"
  shows "filetime_to_unix_ns (filetime_of_ns ns) = ns - ns mod 100"
proof -
  let ?n = "ns div 100 + epoch_ticks"
  have "0 \<le> ?n" "?n < 2 ^ 64" using assms by (auto simp: epoch_ticks_def)
  then have "take_bit 64 ?n = ?n" by (simp add: take_bit_int_eq_self_iff)
  then have "filetime_to_unix_ns (filetime_of_ns ns) = (ns div 100) * 100"
    unfolding filetime_to_unix_ns_def filetime_of_ns_def Let_def fst_conv snd_conv wide_word_of_int by simp
  then show ?thesis by (simp add: minus_mod_eq_div_mult)
qed

theorem filetime_round_trip_witness:
  "filetime_to_unix_ns (filetime_of_ns 1700000000123456789) = 1700000000123456700
   \<and> filetime_to_unix_ns (filetime_of_ns (- 50)) = - 100"
  using filetime_round_trip [of 1700000000123456789] filetime_round_trip [of "- 50"]
  by (simp add: epoch_ticks_def)

section \<open>Alignment\<close>

lemma align_up_least:
  assumes "0 < alignment"
  shows "value' \<le> align_up value' alignment" "align_up value' alignment < value' + alignment"
    "alignment dvd align_up value' alignment"
proof -
  have "align_up value' alignment = value' + alignment - 1 - (value' + alignment - 1) mod alignment"
    by (simp add: align_up_def minus_mod_eq_div_mult)
  moreover have "0 \<le> (value' + alignment - 1) mod alignment" "(value' + alignment - 1) mod alignment < alignment"
    using assms by simp_all
  ultimately show "value' \<le> align_up value' alignment" "align_up value' alignment < value' + alignment"
    by linarith+
  show "alignment dvd align_up value' alignment" by (simp add: align_up_def)
qed

section \<open>Nothing is leaked\<close>

definition same_resources :: "'w reader_state \<Rightarrow> 'w reader_state \<Rightarrow> bool" where
  "same_resources s t \<longleftrightarrow> rd_handles t = rd_handles s"

interpretation handles: step_relation same_resources
  by unfold_locales (auto simp: same_resources_def)

lemma handles_kernel: "stays same_resources (kernel m)"
  unfolding kernel_def by (rule stays_through) (simp add: same_resources_def)

lemma handles_update:
  "stays same_resources (updateS (\<lambda>s. s\<lparr>rd_buffers := f s\<rparr>))"
  by (simp add: stays_def updateS_def same_resources_def)

lemma handles_sum:
  "(\<And>e. stays R (g e)) \<Longrightarrow> (\<And>a. stays R (f a)) \<Longrightarrow> stays R (case r of Inl e \<Rightarrow> g e | Inr a \<Rightarrow> f a)"
  by (simp split: sum.split)

lemmas handles_rules = handles.stays_rules handles_kernel handles_update handles_sum

lemma handles_stat: "stays same_resources (api_stat env h)"
  unfolding api_stat_def Let_def by (intro handles_rules)

lemma handles_final_path: "stays same_resources (final_path_from env h cap)"
proof (induction env h cap rule: final_path_from.induct)
  case (1 env h cap)
  show ?case
    by (subst final_path_from.simps) (auto intro!: handles_rules 1 split: sum.split)
qed

lemma handles_reject: "stays same_resources (reject_reparse_components env p cs)"
  by (induction cs arbitrary: p) (auto simp: Let_def intro!: handles_rules)

text \<open>A handle that is opened, used by what leaves the handles alone, and closed.\<close>

lemma handles_opened:
  assumes "\<And>h. stays same_resources (body h)"
  shows "stays same_resources (bindS (api_open env p access share flags) (\<lambda>h. finallyS (body h) (api_close env h)))"
  unfolding stays_wp wp_bind
proof
  fix s
  have used: "wp (finallyS (body h) (api_close env h)) (\<lambda>_. same_resources s) (\<lambda>_. same_resources s) t"
    if "rd_handles t = h # rd_handles s" for t h
  proof -
    have close: "wp (api_close env h) (\<lambda>_. same_resources s) (\<lambda>_. same_resources s) u"
      if "same_resources t u" for u
      unfolding api_close_def wp_then wp_update
      by (rule wp_mono [OF wp_stays [OF handles_kernel]])
         (use that \<open>rd_handles t = h # rd_handles s\<close> in \<open>auto simp: same_resources_def\<close>)
    show ?thesis
      unfolding wp_finally by (rule wp_mono [OF wp_stays [OF assms]]) (auto intro: close)
  qed
  show "wp (api_open env p access share flags)
     (\<lambda>h. wp (finallyS (body h) (api_close env h)) (\<lambda>_. same_resources s) (\<lambda>_. same_resources s))
     (\<lambda>_. same_resources s) s"
    unfolding api_open_def wp_bind
    by (rule wp_mono [OF wp_stays [OF handles_kernel]])
       (auto simp: wp_then wp_update wp_return wp_raise same_resources_def split: sum.split intro!: used)
qed

lemma handles_require: "stays same_resources (require_expected_final_path env rootp rel h)"
  unfolding require_expected_final_path_def open_directory_def final_path_def
  by (intro handles.stays_bind handles_opened handles_final_path handles.stays_if handles.stays_basic)

text \<open>The reader leaks no handle: whatever the calls answer and whatever is raised, by the reader or
  by the body of the \<^verbatim>\<open>with\<close> statement, the handles that are open afterwards are those that were
  open before, if the body itself leaves them so.\<close>

theorem reader_leaks_no_handle:
  assumes "\<And>h sector. stays same_resources (body h sector)"
  shows "rd_handles (snd (with_stream env rt rel body s)) = rd_handles s"
proof -
  have "stays same_resources (sector_size env p)" for p
    unfolding sector_size_def by (intro handles_rules)
  then have "stays same_resources (with_stream env rt rel body)"
    unfolding with_stream_def Let_def open_file_def
    by (intro handles.stays_bind handles.stays_then handles.stays_basic handles_kernel handles_reject
        handles_opened handles_require handles_stat assms)
  then show ?thesis by (simp add: stays_def same_resources_def)
qed

section \<open>Chunks\<close>

lemma handles_read_chunks: "stays same_resources (read_chunks env h a aligned subject sofar)"
proof (induction env h a aligned subject sofar rule: read_chunks.induct)
  case (1 env h a aligned subject sofar)
  have "stays same_resources (api_read env h a aligned)"
    unfolding api_read_def by (intro handles_rules)
  with 1 show ?case
    by (subst read_chunks.simps) (auto intro!: handles_rules)
qed

lemma handles_iter_chunks: "stays same_resources (iter_chunks env h sector n)"
  unfolding iter_chunks_def Let_def allocate_def release_def
  by (intro handles_rules handles_stat handles_read_chunks)

text \<open>
  A file on disk: the kernel reads its bytes from a position on, at most as many as are asked for,
  and reports its length.
\<close>

definition serves_file :: "nat kernel_env \<Rightarrow> bytes \<Rightarrow> file_stat \<Rightarrow> bool" where
  "serves_file env content st \<longleftrightarrow>
     st_size st = int (length content)
     \<and> (\<forall>h s. api_stat env h s = (Inr st, s))
     \<and> (\<forall>n w. ke_allocate env n w = (Inr (Inr 0), w)) \<and> (\<forall>a w. ke_release env a w = (Inr (Inr ()), w))
     \<and> (\<forall>h a n pos. ke_read_file env h a n pos
          = (Inr (Inr (take (nat n) (drop pos content))), pos + length (take (nat n) (drop pos content))))"

fun blocks :: "nat \<Rightarrow> bytes \<Rightarrow> bytes list" where
  "blocks n xs = (if xs = [] \<or> n = 0 then [] else take n xs # blocks n (drop n xs))"

declare blocks.simps [simp del]

lemma concat_blocks: "0 < n \<Longrightarrow> concat (blocks n xs) = xs"
  by (induction n xs rule: blocks.induct) (subst blocks.simps, simp)

lemma length_blocks: "list_all (\<lambda>c. c \<noteq> [] \<and> length c \<le> n) (blocks n xs)"
  by (induction n xs rule: blocks.induct) (subst blocks.simps, simp)

lemma read_chunks_blocks:
  assumes "serves_file env content st" "0 < n"
  shows "rd_world s = pos \<Longrightarrow> pos \<le> length content \<Longrightarrow>
    read_chunks env h a (int n) (int (length content)) (int pos) s
      = (Inr (blocks n (drop pos content)), s\<lparr>rd_world := length content\<rparr>)"
proof (induction "length content - pos" arbitrary: pos s rule: less_induct)
  case less
  have reads: "ke_read_file env h a (int n) pos
      = (Inr (Inr (take n (drop pos content))), pos + length (take n (drop pos content)))"
    using assms(1) by (simp add: serves_file_def)
  show ?case
  proof (cases "pos = length content")
    case True
    with less.prems show ?thesis
      by (subst read_chunks.simps) (simp add: blocks.simps effect_defs)
  next
    case False
    let ?c = "take n (drop pos content)"
    have c: "?c \<noteq> []" "pos + length ?c \<le> length content" using False less.prems(2) assms(2) by auto
    have "read_chunks env h a (int n) (int (length content)) (int (pos + length ?c)) (s\<lparr>rd_world := pos + length ?c\<rparr>)
        = (Inr (blocks n (drop (pos + length ?c) content)), s\<lparr>rd_world := length content\<rparr>)"
      using c less.prems(2) by (subst less.hyps) (auto simp: less_diff_conv2)
    moreover have "drop (pos + length ?c) content = drop n (drop pos content)"
      by (cases "n \<le> length content - pos") (simp_all add: add.commute)
    ultimately show ?thesis
      using False less.prems c assms(2)
      by (subst read_chunks.simps, subst blocks.simps)
         (simp add: api_read_def kernel_def through_def effect_defs reads)
  qed
qed

section \<open>A file of five bytes\<close>

definition five :: bytes where "five = [10, 20, 30, 40, 50]"

definition five_information :: file_information where
  "five_information = \<lparr>fi_attributes = 32, fi_creation = (0, 0x01D00000), fi_last_write = (0, 0x01D00000),
     fi_serial = 0xA1, fi_size_high = 0, fi_size_low = 5, fi_links = 1, fi_index_high = 0, fi_index_low = 7\<rparr>"

definition five_stat :: file_stat where
  "five_stat = \<lparr>st_kind = FILE, st_size = 5, st_mtime_ns = filetime_to_unix_ns (0, 0x01D00000),
     st_identity = Some \<lparr>volume_serial = serial_text 0xA1, file_index = 7\<rparr>, st_nlink = 1,
     st_metadata = \<lparr>attributes = 32, created_ns = Some (filetime_to_unix_ns (0, 0x01D00000))\<rparr>\<rparr>"

definition five_kernel :: "nat kernel_env" where
  "five_kernel =
     \<lparr>ke_upper = ascii_upper, ke_normcase = (\<lambda>s. s), ke_os_text = (\<lambda>_ _. []),
      ke_resolve = (\<lambda>p. returnS p), ke_lstat = (\<lambda>_. returnS (plain_info REGULAR_MODE)),
      ke_create_file = (\<lambda>_ _ _ _. returnS (Inr 7)), ke_close_handle = (\<lambda>_. returnS ()),
      ke_information = (\<lambda>_. returnS (Inr five_information)),
      ke_final_name = (\<lambda>_ _. returnS (Inr (1, lit ''x''))), ke_volume_name = (\<lambda>_. returnS (Inr (lit ''C:''))),
      ke_sector_bytes = (\<lambda>_. returnS (Inr 512)), ke_allocate = (\<lambda>_. returnS (Inr 0)),
      ke_release = (\<lambda>_. returnS (Inr ())),
      ke_read_file = (\<lambda>_ _ n pos. (Inr (Inr (take (nat n) (drop pos five))), pos + length (take (nat n) (drop pos five))))\<rparr>"

lemma five_stat_read: "api_stat five_kernel h s = (Inr five_stat, s)"
proof -
  have "wide 0 7 = 7" "wide 0 5 = 5" by (simp_all add: wide_def)
  moreover have "0 \<le> filetime_to_unix_ns (0, 0x01D00000)"
    by (simp add: filetime_to_unix_ns_def wide_def epoch_ticks_def push_bit_eq_mult)
  moreover have "serial_text 0xA1 \<noteq> []" by (simp add: serial_text_def)
  ultimately show ?thesis
    by (simp add: api_stat_def kernel_def through_def five_kernel_def five_information_def five_stat_def effect_defs
        attribute_reparse_def attribute_directory_def file_identity_post_init_def metadata_post_init_def
        file_stat_post_init_def raise_if_def bindE_def)
qed

lemma five_served: "serves_file five_kernel five five_stat"
  unfolding serves_file_def by (simp add: five_stat_read) (simp add: five_kernel_def five_stat_def five_def returnS_def)


theorem reader_leaks_no_handle_witness:
  "rd_handles (snd (with_stream five_kernel sample_rootp (lit ''a/b'') (\<lambda>h sector. iter_chunks five_kernel h sector 3)
     \<lparr>rd_handles = [3], rd_buffers = [], rd_world = 0\<rparr>)) = [3]"
  using reader_leaks_no_handle [where env = five_kernel and rt = sample_rootp and rel = "lit ''a/b''"
      and body = "\<lambda>h sector. iter_chunks five_kernel h sector 3"
      and s = "\<lparr>rd_handles = [3], rd_buffers = [], rd_world = 0\<rparr>", OF handles_iter_chunks]
  by simp

end
