(* ===== verification/Scanner.thy ===== *)
theory Scanner
  imports Windows_Reader Canonical_Json
begin

unbundle bit_operations_syntax

text \<open>
  The scanner (\<^verbatim>\<open>modules/scanner.py\<close>): a walk over the directories below a root, or a look at
  selected paths, that collects files, directories, what it cannot handle, and warnings, and says
  whether the result is complete. The backend that it is given is a field of \<open>scan_env\<close> for each of
  its methods and for each method of the entries it yields; \<open>native_scan_env\<close> is the native backend
  over the calls that it makes.
\<close>

section \<open>The backend\<close>

record entry_stat = stat_info +
  si_reparse_tag :: int

record volume_snapshot =
  vs_volume_id :: volume_id
  vs_evidence :: volume_evidence
  vs_profile :: capability_profile

record scan_entry =
  sn_name :: pystr
  sn_path :: pystr

text \<open>
  \<^verbatim>\<open>scandir\<close> fails, or yields entries until it is through or fails: the list of its answers.
\<close>

record 'w scan_env =
  se_upper :: upper
  se_os_path :: os_path
  se_resolve_root :: "pystr \<Rightarrow> ('w, pystr) effect"
  se_volume :: "pystr \<Rightarrow> ('w, volume_snapshot) effect"
  se_lstat :: "pystr \<Rightarrow> ('w, entry_stat) effect"
  se_scandir :: "pystr \<Rightarrow> ('w, (exception + scan_entry) list) effect"
  se_is_dir :: "scan_entry \<Rightarrow> ('w, bool) effect"
  se_is_file :: "scan_entry \<Rightarrow> ('w, bool) effect"
  se_stat :: "scan_entry \<Rightarrow> ('w, entry_stat) effect"
  se_checkpoint :: "('w, unit) effect"

text \<open>The local variables of a scan.\<close>

record 'w scan_state =
  sc_files :: "file_record list"
  sc_directories :: "dir_record list"
  sc_unsupported :: "unsupported_record list"
  sc_warnings :: "scan_warning list"
  sc_visited :: "file_identity list"
  sc_complete :: bool
  sc_world :: 'w

type_synonym ('w, 'a) scanner = "('w scan_state, 'a) effect"

definition backend :: "('w, 'a) effect \<Rightarrow> ('w, 'a) scanner" where
  "backend m = through sc_world sc_world_update m"

section \<open>Diagnostic text\<close>

text \<open>\<^verbatim>\<open>ascii(value)[1:-1]\<close>: the escaped text without its quotes.\<close>

definition lower_hex_digit :: "nat \<Rightarrow> nat" where
  "lower_hex_digit d = (if d < 10 then 48 + d else 87 + d)"

definition hex_text :: "nat \<Rightarrow> nat \<Rightarrow> pystr" where
  "hex_text digits c = map (\<lambda>k. lower_hex_digit (c div 16 ^ k mod 16)) (rev [0..<digits])"

definition ascii_quote :: "pystr \<Rightarrow> codepoint" where
  "ascii_quote s = (if 39 \<in> set s \<and> 34 \<notin> set s then 34 else 39)"

definition ascii_char :: "codepoint \<Rightarrow> codepoint \<Rightarrow> pystr" where
  "ascii_char q c =
     (if c = q \<or> c = backslash then [backslash, c]
      else if c = 9 then [backslash, 116] else if c = 10 then [backslash, 110]
      else if c = 13 then [backslash, 114]
      else if 32 \<le> c \<and> c < 127 then [c]
      else if c < 256 then [backslash, 120] @ hex_text 2 c
      else if c < 65536 then [backslash, 117] @ hex_text 4 c
      else [backslash, 85] @ hex_text 8 c)"

definition escaped_path :: "pystr \<Rightarrow> pystr" where
  "escaped_path s = concat (map (ascii_char (ascii_quote s)) s)"

section \<open>Stats\<close>

definition str_upper :: "upper \<Rightarrow> pystr \<Rightarrow> pystr" where
  "str_upper up s = concat (map up s)"

definition granularity_for :: "upper \<Rightarrow> pystr \<Rightarrow> int" where
  "granularity_for up fs_type =
     (let normalized = str_upper up fs_type
      in if normalized = lit ''NTFS'' \<or> normalized = lit ''REFS'' then 100
         else if normalized = lit ''EXFAT'' then 10000000
         else if normalized = lit ''FAT'' \<or> normalized = lit ''FAT32'' then 2000000000
         else 2000000000)"

definition identity_supported :: "upper \<Rightarrow> pystr \<Rightarrow> bool" where
  "identity_supported up fs_type \<longleftrightarrow>
     str_upper up fs_type = lit ''NTFS'' \<or> str_upper up fs_type = lit ''REFS''"

definition entry_attributes :: "entry_stat \<Rightarrow> int" where
  "entry_attributes st = (case si_attributes st of None \<Rightarrow> 0 | Some a \<Rightarrow> a)"

definition entry_created_ns :: "entry_stat \<Rightarrow> int option" where
  "entry_created_ns st =
     (case (case si_birthtime_ns st of None \<Rightarrow> si_ctime_ns st | Some t \<Rightarrow> Some t) of
        None \<Rightarrow> None
      | Some t \<Rightarrow> if t \<ge> 0 then Some t else None)"

definition entry_identity :: "entry_stat \<Rightarrow> volume_snapshot \<Rightarrow> file_identity option res" where
  "entry_identity st volume =
     (if \<not> stable_file_identity (vs_profile volume) \<or> si_ino st \<le> 0 then Inr None
      else let i = \<lparr>volume_serial = vol_serial (vs_volume_id volume), file_index = si_ino st\<rparr>
           in bindE (file_identity_post_init i) (\<lambda>_. Inr (Some i)))"

definition to_stat :: "entry_stat \<Rightarrow> entry_kind \<Rightarrow> volume_snapshot \<Rightarrow> file_stat res" where
  "to_stat st kind volume =
     bindE (entry_identity st volume) (\<lambda>identity.
     let meta = \<lparr>attributes = entry_attributes st, created_ns = entry_created_ns st\<rparr>
     in bindE (metadata_post_init meta) (\<lambda>_.
        let s = \<lparr>st_kind = kind, st_size = (if kind = FILE then si_size st else 0),
                 st_mtime_ns = si_mtime_ns st, st_identity = identity, st_nlink = max 1 (si_nlink st),
                 st_metadata = meta\<rparr>
        in bindE (file_stat_post_init s) (\<lambda>_. Inr s)))"

definition recall_attributes :: int where
  "recall_attributes = 0x1000 OR 0x40000 OR 0x400000"

definition is_placeholder :: "entry_stat \<Rightarrow> bool" where
  "is_placeholder st \<longleftrightarrow>
     entry_attributes st AND reparse_point \<noteq> 0 \<and> entry_attributes st AND recall_attributes \<noteq> 0"

definition is_reparse :: "entry_stat \<Rightarrow> bool" where
  "is_reparse st \<longleftrightarrow> entry_attributes st AND reparse_point \<noteq> 0 \<or> si_reparse_tag st \<noteq> 0"

definition entry_sort_key :: "upper \<Rightarrow> scan_entry \<Rightarrow> nat \<times> pystr \<times> pystr" where
  "entry_sort_key up e =
     (case normalize_relative_path up False (sn_name e) of
        Inr key \<Rightarrow> (0, key, sn_name e)
      | Inl _ \<Rightarrow> (1, escaped_path (sn_name e), []))"

section \<open>Collecting\<close>

text \<open>No class of the program or the standard library derives from \<^verbatim>\<open>PermissionError\<close>.\<close>

definition is_permission_error :: "exception \<Rightarrow> bool" where
  "is_permission_error e \<longleftrightarrow> ex_type e = lit ''PermissionError''"

definition error_code :: "exception \<Rightarrow> scan_warning_code" where
  "error_code e =
     (if is_permission_error e then W_ACCESS_DENIED
      else if ex_class e = X_FILE_NOT_FOUND then W_DISAPPEARED else W_ENUMERATION_ERROR)"

definition unsupported_error :: "exception \<Rightarrow> unsupported_reason" where
  "unsupported_error e =
     (if is_permission_error e then UR_ACCESS_DENIED
      else if ex_class e = X_FILE_NOT_FOUND then UR_DISAPPEARED else UR_UNKNOWN_TYPE)"

definition warn :: "'w scan_env \<Rightarrow> scan_warning_code \<Rightarrow> pystr option \<Rightarrow> pystr \<Rightarrow> ('w, unit) scanner" where
  "warn env code path text =
     (let w = \<lparr>sw_code = code, sw_rel_path = path, sw_detail = text\<rparr>
      in thenS (pureS (scan_warning_post_init (se_upper env) w))
           (updateS (\<lambda>s. s\<lparr>sc_warnings := sc_warnings s @ [w]\<rparr>)))"

definition incomplete :: "('w, unit) scanner" where
  "incomplete = updateS (\<lambda>s. s\<lparr>sc_complete := False\<rparr>)"

definition path_key_of :: "'w scan_env \<Rightarrow> pystr \<Rightarrow> ('w, pystr) scanner" where
  "path_key_of env path = pureS (normalize_relative_path (se_upper env) False path)"

definition add_unsupported ::
    "'w scan_env \<Rightarrow> pystr \<Rightarrow> unsupported_reason \<Rightarrow> entry_kind option \<Rightarrow> ('w, unit) scanner" where
  "add_unsupported env path reason kind =
     bindS (path_key_of env path) (\<lambda>key.
     let r = \<lparr>ur_rel_path = path, ur_key = key, ur_reason = reason, ur_kind = kind\<rparr>
     in thenS (pureS (unsupported_record_post_init (se_upper env) r))
          (updateS (\<lambda>s. s\<lparr>sc_unsupported := sc_unsupported s @ [r]\<rparr>)))"

definition add_directory :: "'w scan_env \<Rightarrow> pystr \<Rightarrow> pystr \<Rightarrow> file_stat \<Rightarrow> ('w, unit) scanner" where
  "add_directory env path key st =
     (let r = \<lparr>dr_rel_path = path, dr_key = key, dr_mtime_ns = st_mtime_ns st, dr_metadata = st_metadata st,
               dr_identity = st_identity st, dr_nlink = st_nlink st\<rparr>
      in thenS (pureS (dir_record_post_init (se_upper env) r))
           (updateS (\<lambda>s. s\<lparr>sc_directories := sc_directories s @ [r]\<rparr>)))"

definition add_file :: "'w scan_env \<Rightarrow> pystr \<Rightarrow> pystr \<Rightarrow> file_stat \<Rightarrow> ('w, unit) scanner" where
  "add_file env path key st =
     (let r = \<lparr>fr_rel_path = path, fr_key = key, fr_size = st_size st, fr_mtime_ns = st_mtime_ns st,
               fr_identity = st_identity st, fr_nlink = st_nlink st, fr_metadata = st_metadata st\<rparr>
      in thenS (pureS (file_record_post_init (se_upper env) r))
           (updateS (\<lambda>s. s\<lparr>sc_files := sc_files s @ [r]\<rparr>)))"

section \<open>The walk\<close>

text \<open>What one entry adds; the result lists the directory to walk into, if there is one.\<close>

definition visit_file :: "'w scan_env \<Rightarrow> volume_snapshot \<Rightarrow> pystr \<Rightarrow> scan_entry \<Rightarrow> entry_stat \<Rightarrow> ('w, unit) scanner" where
  "visit_file env volume path e st =
     bindS (exceptS (backend (se_is_file env e)) is_os_error
       (\<lambda>err. thenS (warn env (error_code err) (Some path) (ex_text err)) (returnS False))) (\<lambda>is_file.
     if is_file
     then bindS (pureS (to_stat st FILE volume)) (\<lambda>snapshot.
          bindS (path_key_of env path) (\<lambda>key. add_file env path key snapshot))
     else thenS (add_unsupported env path UR_UNKNOWN_TYPE None)
         (thenS (warn env W_UNKNOWN_TYPE (Some path) []) incomplete))"

definition visit_subdirectory ::
    "'w scan_env \<Rightarrow> volume_snapshot \<Rightarrow> pystr \<Rightarrow> scan_entry \<Rightarrow> entry_stat \<Rightarrow> ('w, (pystr \<times> pystr) list) scanner" where
  "visit_subdirectory env volume path e st =
     bindS (pureS (to_stat st DIRECTORY volume)) (\<lambda>snapshot.
     bindS (path_key_of env path) (\<lambda>key.
     thenS (add_directory env path key snapshot)
     (bindS (readS sc_visited) (\<lambda>visited.
      case st_identity snapshot of
        None \<Rightarrow> returnS [(sn_path e, path)]
      | Some i \<Rightarrow>
          if i \<in> set visited
          then thenS (warn env W_DUPLICATE_IDENTITY (Some path) (lit ''directory identity already visited''))
                 (thenS incomplete (returnS []))
          else thenS (updateS (\<lambda>s. s\<lparr>sc_visited := i # sc_visited s\<rparr>)) (returnS [(sn_path e, path)])))))"

definition refuse_entry ::
    "'w scan_env \<Rightarrow> pystr \<Rightarrow> bool \<Rightarrow> unsupported_reason \<Rightarrow> scan_warning_code \<Rightarrow> ('w, (pystr \<times> pystr) list) scanner" where
  "refuse_entry env path is_dir reason code =
     thenS (add_unsupported env path reason (Some (if is_dir then DIRECTORY else FILE)))
     (thenS (warn env code (Some path) [])
     (thenS (whenS is_dir incomplete) (returnS [])))"

definition visit_stat ::
    "'w scan_env \<Rightarrow> volume_snapshot \<Rightarrow> pystr \<Rightarrow> scan_entry \<Rightarrow> bool \<Rightarrow> entry_stat \<Rightarrow>
     ('w, (pystr \<times> pystr) list) scanner" where
  "visit_stat env volume path e is_dir st =
     (if is_placeholder st then refuse_entry env path is_dir UR_PLACEHOLDER W_PLACEHOLDER
      else if is_reparse st then refuse_entry env path is_dir UR_REPARSE_POINT W_REPARSE_POINT
      else if is_dir then visit_subdirectory env volume path e st
      else thenS (visit_file env volume path e st) (returnS []))"

definition unreadable ::
    "'w scan_env \<Rightarrow> pystr \<Rightarrow> exception \<Rightarrow> entry_kind option \<Rightarrow> ('w, (pystr \<times> pystr) list) scanner" where
  "unreadable env path err kind =
     thenS (warn env (error_code err) (Some path) (ex_text err))
     (thenS (add_unsupported env path (unsupported_error err) kind)
     (thenS incomplete (returnS [])))"

definition stat_entry :: "'w scan_env \<Rightarrow> volume_snapshot \<Rightarrow> scan_entry \<Rightarrow> ('w, entry_stat) scanner" where
  "stat_entry env volume e =
     bindS (backend (se_stat env e)) (\<lambda>st.
     if stable_file_identity (vs_profile volume) \<and> si_ino st \<le> 0
     then backend (se_lstat env (sn_path e)) else returnS st)"

definition visit_path ::
    "'w scan_env \<Rightarrow> volume_snapshot \<Rightarrow> ignore_set \<Rightarrow> pystr \<Rightarrow> scan_entry \<Rightarrow> ('w, (pystr \<times> pystr) list) scanner" where
  "visit_path env volume ig path e =
     tryElseS (backend (se_is_dir env e)) is_os_error
       (\<lambda>err. unreadable env path err None)
       (\<lambda>is_dir.
         bindS (pureS (ignore_excludes (se_upper env) ig path is_dir)) (\<lambda>excluded.
         if excluded then returnS []
         else tryElseS (stat_entry env volume e) is_os_error
                (\<lambda>err. unreadable env path err (if is_dir then Some DIRECTORY else None))
                (visit_stat env volume path e is_dir)))"

definition candidate_path :: "pystr \<Rightarrow> pystr \<Rightarrow> pystr" where
  "candidate_path rel name = (if rel = [] then name else rel @ [backslash] @ name)"

definition visit_entry ::
    "'w scan_env \<Rightarrow> volume_snapshot \<Rightarrow> ignore_set \<Rightarrow> pystr \<Rightarrow> scan_entry \<Rightarrow> ('w, (pystr \<times> pystr) list) scanner" where
  "visit_entry env volume ig rel e =
     thenS (backend (se_checkpoint env))
     (let candidate = candidate_path rel (sn_name e)
      in case validate_relative_path (se_upper env) False candidate of
           Inr path \<Rightarrow> visit_path env volume ig path e
         | Inl (PathValidationError m) \<Rightarrow>
             thenS (warn env W_PATH_UNREPRESENTABLE (if rel = [] then None else Some rel)
                 (escaped_path candidate @ lit '': '' @ lit m))
               (thenS incomplete (returnS []))
         | Inl err \<Rightarrow> raiseS (of_py_error err))"

primrec visit_entries ::
    "'w scan_env \<Rightarrow> volume_snapshot \<Rightarrow> ignore_set \<Rightarrow> pystr \<Rightarrow> scan_entry list \<Rightarrow>
     ('w, (pystr \<times> pystr) list) scanner" where
  "visit_entries env volume ig rel [] = returnS []"
| "visit_entries env volume ig rel (e # es) =
     bindS (visit_entry env volume ig rel e) (\<lambda>kids.
     bindS (visit_entries env volume ig rel es) (\<lambda>more. returnS (kids @ more)))"

text \<open>The entries of a directory up to the first error, and that error.\<close>

primrec read_entries ::
    "'w scan_env \<Rightarrow> (exception + scan_entry) list \<Rightarrow> ('w, scan_entry list \<times> exception option) scanner" where
  "read_entries env [] = returnS ([], None)"
| "read_entries env (r # rs) =
     (case r of
        Inl err \<Rightarrow> if is_os_error err then returnS ([], Some err) else raiseS err
      | Inr e \<Rightarrow>
          tryElseS (backend (se_checkpoint env)) is_os_error (\<lambda>err. returnS ([], Some err))
            (\<lambda>_. bindS (read_entries env rs) (\<lambda>(es, err). returnS (e # es, err))))"

definition enumerate_directory ::
    "'w scan_env \<Rightarrow> pystr \<Rightarrow> ('w, scan_entry list \<times> exception option) scanner" where
  "enumerate_directory env absolute =
     tryElseS (backend (se_scandir env absolute)) is_os_error
       (\<lambda>err. returnS ([], Some err)) (read_entries env)"

definition visit_directory ::
    "'w scan_env \<Rightarrow> volume_snapshot \<Rightarrow> ignore_set \<Rightarrow> pystr \<Rightarrow> pystr \<Rightarrow> ('w, (pystr \<times> pystr) list) scanner" where
  "visit_directory env volume ig absolute rel =
     thenS (backend (se_checkpoint env))
     (bindS (enumerate_directory env absolute) (\<lambda>(entries, failure).
      thenS (case failure of
               None \<Rightarrow> returnS ()
             | Some err \<Rightarrow> thenS (warn env W_ENUMERATION_ERROR (Some rel) (ex_text err)) incomplete)
        (visit_entries env volume ig rel (sort_key (entry_sort_key (se_upper env)) entries))))"

text \<open>
  The loop over the stack of pending directories, its top first. It need not end on a disk that
  changes while it is walked, so it is given fuel; the answer tells whether it came to the end.
\<close>

fun walk ::
    "nat \<Rightarrow> 'w scan_env \<Rightarrow> volume_snapshot \<Rightarrow> ignore_set \<Rightarrow> (pystr \<times> pystr) list \<Rightarrow> ('w, bool) scanner" where
  "walk n env volume ig [] = returnS True"
| "walk 0 env volume ig (p # pending) = returnS False"
| "walk (Suc n) env volume ig ((absolute, rel) # pending) =
     bindS (visit_directory env volume ig absolute rel) (\<lambda>kids. walk n env volume ig (kids @ pending))"

definition scan_full ::
    "nat \<Rightarrow> 'w scan_env \<Rightarrow> volume_snapshot \<Rightarrow> ignore_set \<Rightarrow> pystr \<Rightarrow> ('w, bool) scanner" where
  "scan_full n env volume ig rt =
     tryElseS (backend (se_lstat env rt)) is_os_error
       (\<lambda>err. thenS (warn env W_ROOT_UNAVAILABLE None (ex_text err)) (thenS incomplete (returnS True)))
       (\<lambda>root_stat.
         bindS (pureS (to_stat root_stat DIRECTORY volume)) (\<lambda>snapshot.
         thenS (add_directory env [] [] snapshot)
         (thenS (updateS (\<lambda>s. s\<lparr>sc_visited := (case st_identity snapshot of None \<Rightarrow> [] | Some i \<Rightarrow> [i])\<rparr>))
           (walk n env volume ig [(rt, [])]))))"

section \<open>Selected paths\<close>

definition refuse_selected ::
    "'w scan_env \<Rightarrow> pystr \<Rightarrow> unsupported_reason \<Rightarrow> scan_warning_code \<Rightarrow> ('w, unit) scanner" where
  "refuse_selected env path reason code =
     thenS (add_unsupported env path reason None) (warn env code (Some path) [])"

definition visit_selected :: "'w scan_env \<Rightarrow> volume_snapshot \<Rightarrow> ignore_set \<Rightarrow> pystr \<Rightarrow> pystr \<Rightarrow> ('w, unit) scanner" where
  "visit_selected env volume ig rt path =
     thenS (backend (se_checkpoint env))
     (bindS (pureS (join_under_root (se_upper env) (se_os_path env) rt path)) (\<lambda>absolute.
      tryElseS (backend (se_lstat env absolute)) is_os_error
        (\<lambda>err. thenS (warn env (error_code err) (Some path) (ex_text err))
                 (add_unsupported env path (unsupported_error err) None))
        (\<lambda>st.
          let is_dir = (si_mode st = DIRECTORY_MODE \<and> \<not> is_reparse st)
          in bindS (pureS (ignore_excludes (se_upper env) ig path is_dir)) (\<lambda>excluded.
             if excluded then returnS ()
             else if is_placeholder st then refuse_selected env path UR_PLACEHOLDER W_PLACEHOLDER
             else if is_reparse st then refuse_selected env path UR_REPARSE_POINT W_REPARSE_POINT
             else bindS (pureS (to_stat st (if is_dir then DIRECTORY else FILE) volume)) (\<lambda>snapshot.
                  bindS (path_key_of env path) (\<lambda>key.
                  if is_dir then add_directory env path key snapshot
                  else add_file env path key snapshot))))))"

section \<open>Collisions\<close>

text \<open>The groups of a dict of lists: the keys in order of first insertion, with what was appended.\<close>

definition groups_of :: "('k \<times> 'v) list \<Rightarrow> 'v list list" where
  "groups_of kvs = map (\<lambda>k. map snd (filter (\<lambda>kv. fst kv = k) kvs)) (dedupe (map fst kvs))"

definition keyed_paths :: "'w scan_state \<Rightarrow> (pystr \<times> pystr) list" where
  "keyed_paths s =
     filter (\<lambda>kp. snd kp \<noteq> [])
       (map (\<lambda>r. (fr_key r, fr_rel_path r)) (sc_files s)
        @ map (\<lambda>r. (dr_key r, dr_rel_path r)) (sc_directories s)
        @ map (\<lambda>r. (ur_key r, ur_rel_path r)) (sc_unsupported s))"

definition warn_collision :: "'w scan_env \<Rightarrow> pystr list \<Rightarrow> ('w, unit) scanner" where
  "warn_collision env paths =
     (let distinct_paths = sorted_list_of_set (set paths)
      in whenS (length distinct_paths > 1)
           (thenS (warn env W_CASE_COLLISION (Some (hd distinct_paths)) (join_with (lit '' | '') distinct_paths))
             incomplete))"

definition append_collision_warnings :: "'w scan_env \<Rightarrow> ('w, unit) scanner" where
  "append_collision_warnings env =
     bindS (readS keyed_paths) (\<lambda>kps. forS (groups_of kps) (warn_collision env))"

definition identified_paths :: "'w scan_state \<Rightarrow> (file_identity \<times> pystr) list" where
  "identified_paths s =
     List.map_filter (\<lambda>(i, p). map_option (\<lambda>i. (i, p)) i)
       (map (\<lambda>r. (fr_identity r, fr_rel_path r)) (sc_files s)
        @ map (\<lambda>r. (dr_identity r, dr_rel_path r)) (sc_directories s))"

definition append_identity_warnings :: "'w scan_env \<Rightarrow> ('w, unit) scanner" where
  "append_identity_warnings env =
     bindS (readS sc_files) (\<lambda>files.
     bindS (readS identified_paths) (\<lambda>ips.
     thenS (forS files (\<lambda>r. whenS (fr_nlink r > 1)
               (warn env W_MULTI_LINK (Some (fr_rel_path r)) (int_repr (fr_nlink r)))))
       (forS (groups_of ips) (\<lambda>paths. whenS (length paths > 1)
          (warn env W_DUPLICATE_IDENTITY (Some (hd (sort paths))) (join_with (lit '' | '') (sort paths)))))))"

section \<open>The scan\<close>

definition unknown_profile :: capability_profile where
  "unknown_profile = \<lparr>cp_fs_type = lit ''UNKNOWN'', mtime_granularity_ns = 2000000000,
     stable_file_identity = False, incurs_seek_penalty = None, max_path = 32767, supports_ads = False,
     supports_hardlinks = False\<rparr>"

definition offline_result ::
    "'w scan_env \<Rightarrow> root \<Rightarrow> ignore_set \<Rightarrow> scan_scope \<Rightarrow> exception \<Rightarrow> scan_warning_code \<Rightarrow> scan_result" where
  "offline_result env rt ig scope err code =
     \<lparr>sr_root = rt, sr_volume_id = None, sr_volume_evidence = None, sr_profile = unknown_profile,
      sr_files = [], sr_directories = [], sr_unsupported = [],
      sr_warnings = [\<lparr>sw_code = code, sw_rel_path = None, sw_detail = ex_text err\<rparr>],
      sr_ignore_snapshot = ig, sr_scope = scope, sr_complete = False\<rparr>"

definition warning_sort_key :: "upper \<Rightarrow> scan_warning \<Rightarrow> (pystr \<times> pystr \<times> pystr) res" where
  "warning_sort_key up w =
     bindE (case sw_rel_path w of None \<Rightarrow> Inr [] | Some p \<Rightarrow> normalize_relative_path up True p) (\<lambda>key.
     Inr (scan_warning_code_value (sw_code w), key, sw_detail w))"

definition sort_warnings :: "upper \<Rightarrow> scan_warning list \<Rightarrow> scan_warning list res" where
  "sort_warnings up ws =
     bindE (mapE (warning_sort_key up) ws) (\<lambda>keys. Inr (map snd (sort_key fst (zip keys ws))))"

definition result_of_scan ::
    "'w scan_env \<Rightarrow> volume_snapshot \<Rightarrow> root \<Rightarrow> ignore_set \<Rightarrow> scan_scope \<Rightarrow> ('w, scan_result) scanner" where
  "result_of_scan env volume rt ig scope =
     bindS (readS (\<lambda>s. s)) (\<lambda>s.
     bindS (pureS (sort_warnings (se_upper env) (sc_warnings s))) (\<lambda>warnings.
     returnS
       \<lparr>sr_root = rt, sr_volume_id = Some (vs_volume_id volume), sr_volume_evidence = Some (vs_evidence volume),
        sr_profile = vs_profile volume,
        sr_files = sort_key (\<lambda>r. (fr_key r, fr_rel_path r)) (sc_files s),
        sr_directories = sort_key (\<lambda>r. (dr_key r, dr_rel_path r)) (sc_directories s),
        sr_unsupported = sort_key (\<lambda>r. (ur_key r, ur_rel_path r)) (sc_unsupported s),
        sr_warnings = warnings, sr_ignore_snapshot = ig, sr_scope = scope, sr_complete = sc_complete s\<rparr>))"

definition scan_volume ::
    "nat \<Rightarrow> 'w scan_env \<Rightarrow> volume_snapshot \<Rightarrow> root \<Rightarrow> ignore_set \<Rightarrow> scan_scope \<Rightarrow> ('w, scan_result option) scanner" where
  "scan_volume n env volume rt ig scope =
     bindS (if scope_kind scope = SCOPE_PATHS
            then thenS incomplete
                   (thenS (forS (selected_paths scope) (visit_selected env volume ig (root_path rt)))
                     (returnS True))
            else scan_full n env volume ig (root_path rt)) (\<lambda>finished.
     if \<not> finished then returnS None
     else thenS (append_collision_warnings env)
         (thenS (append_identity_warnings env)
           (bindS (result_of_scan env volume rt ig scope) (\<lambda>r. returnS (Some r)))))"

definition scan_effect ::
    "nat \<Rightarrow> 'w scan_env \<Rightarrow> root \<Rightarrow> ignore_set \<Rightarrow> scan_scope option \<Rightarrow> ('w, scan_result option) scanner" where
  "scan_effect n env rt ig scope =
     (let requested = (case scope of None \<Rightarrow> scan_scope_full | Some sc \<Rightarrow> sc)
      in tryElseS (backend (se_resolve_root env (root_path rt))) is_os_error
           (\<lambda>err. returnS (Some (offline_result env rt ig requested err W_ROOT_UNAVAILABLE)))
           (\<lambda>resolved.
             let resolved_root = rt\<lparr>root_path := resolved\<rparr>
             in thenS (pureS (root_post_init resolved_root))
                  (tryElseS (backend (se_volume env resolved)) is_os_error
                    (\<lambda>err. returnS (Some (offline_result env resolved_root ig requested err W_VOLUME_UNAVAILABLE)))
                    (\<lambda>volume. scan_volume n env volume resolved_root ig requested))))"

definition scan_start :: "'w \<Rightarrow> 'w scan_state" where
  "scan_start w = \<lparr>sc_files = [], sc_directories = [], sc_unsupported = [], sc_warnings = [], sc_visited = [],
     sc_complete = True, sc_world = w\<rparr>"

definition scan :: "nat \<Rightarrow> 'w scan_env \<Rightarrow> root \<Rightarrow> ignore_set \<Rightarrow> scan_scope option \<Rightarrow> 'w \<Rightarrow>
    exception + scan_result option" where
  "scan n env rt ig scope w = fst (scan_effect n env rt ig scope (scan_start w))"

section \<open>The native backend\<close>

record 'w native_calls =
  nc_upper :: upper
  nc_os_path :: os_path
  nc_error_text :: "int \<Rightarrow> pystr \<Rightarrow> pystr \<Rightarrow> pystr"
  nc_is_dir :: "pystr \<Rightarrow> ('w, bool) effect"
  nc_volume_path :: "pystr \<Rightarrow> ('w, int + pystr) effect"
  nc_volume_information :: "pystr \<Rightarrow> ('w, int + (pystr \<times> 32 word \<times> 32 word \<times> pystr)) effect"
  nc_stat :: "pystr \<Rightarrow> ('w, entry_stat) effect"
  nc_scandir :: "pystr \<Rightarrow> ('w, (exception + scan_entry) list) effect"

definition native_resolve_root :: "'w native_calls \<Rightarrow> pystr \<Rightarrow> ('w, pystr) effect" where
  "native_resolve_root nc path =
     (let resolved = osp_abspath (nc_os_path nc) path
      in bindS (nc_is_dir nc (to_extended_length_path (nc_os_path nc) resolved)) (\<lambda>dir.
         if \<not> dir then raiseS (simple_exn X_FILE_NOT_FOUND ''FileNotFoundError'' resolved)
         else returnS resolved))"

definition named_streams :: "32 word" where "named_streams = 0x00040000"
definition hard_links :: "32 word" where "hard_links = 0x00400000"

definition native_volume_snapshot :: "'w native_calls \<Rightarrow> pystr \<Rightarrow> ('w, volume_snapshot) effect" where
  "native_volume_snapshot nc rt =
     bindS (nc_volume_path nc rt) (\<lambda>r.
     case r of
       Inl code \<Rightarrow> raiseS (errno_error code (nc_error_text nc code (lit ''GetVolumePathNameW failed'') rt))
     | Inr volume \<Rightarrow>
         bindS (nc_volume_information nc volume) (\<lambda>r.
         case r of
           Inl code \<Rightarrow> raiseS (errno_error code (nc_error_text nc code (lit ''GetVolumeInformationW failed'') rt))
         | Inr (label, serial, flags, fs) \<Rightarrow>
             let up = nc_upper nc;
                 fs_type = (if str_upper up fs = [] then lit ''UNKNOWN'' else str_upper up fs);
                 volume_id = \<lparr>vol_serial = serial_text serial, vol_fs_type = fs_type\<rparr>;
                 profile = \<lparr>cp_fs_type = fs_type, mtime_granularity_ns = granularity_for up fs_type,
                   stable_file_identity = identity_supported up fs_type, incurs_seek_penalty = None,
                   max_path = 32767, supports_ads = (flags AND named_streams \<noteq> 0),
                   supports_hardlinks = (flags AND hard_links \<noteq> 0)\<rparr>
             in thenS (pureS (volume_id_post_init volume_id))
                (thenS (pureS (capability_profile_post_init profile))
                  (returnS \<lparr>vs_volume_id = volume_id,
                     vs_evidence = \<lparr>ve_label = (if label = [] then None else Some label),
                       ve_device_id = Some volume, ve_clone_ambiguous = False\<rparr>,
                     vs_profile = profile\<rparr>))))"

definition native_lstat :: "'w native_calls \<Rightarrow> pystr \<Rightarrow> ('w, entry_stat) effect" where
  "native_lstat nc path = nc_stat nc (to_extended_length_path (nc_os_path nc) path)"

definition native_scandir :: "'w native_calls \<Rightarrow> pystr \<Rightarrow> ('w, (exception + scan_entry) list) effect" where
  "native_scandir nc path = nc_scandir nc (to_extended_length_path (nc_os_path nc) path)"

end
