(* ===== verification/Scanner_Lemmas.thy ===== *)
theory Scanner_Lemmas
  imports Scanner
begin

text \<open>
  What every scan keeps, on whatever disk: the records it collects pass the checks of their
  constructors and are not ignored, and while the scan counts as complete nothing was recorded that
  makes it incomplete. The computations of the walk respect two relations between the states before
  and after: \<open>keeps (collected \<dots>)\<close> and, when they return, \<open>cleanly\<close>.
\<close>

section \<open>Rules\<close>

lemma stays_pure_bind:
  assumes "step_relation R" "\<And>a. r = Inr a \<Longrightarrow> stays R (f a)"
  shows "stays R (bindS (pureS r) f)"
  using assms(2) step_relation.refl [OF assms(1)]
  by (cases r) (auto simp: stays_def effect_defs)

lemma stays_pure_then:
  assumes "step_relation R" "r = Inr () \<Longrightarrow> stays R m"
  shows "stays R (thenS (pureS r) m)"
  using assms by (auto simp: thenS_def intro: stays_pure_bind)

text \<open>A relation that a computation respects when it returns.\<close>

definition returns_in :: "('s \<Rightarrow> 's \<Rightarrow> bool) \<Rightarrow> ('s, 'a) effect \<Rightarrow> bool" where
  "returns_in R m \<longleftrightarrow> (\<forall>s. wp m (\<lambda>_. R s) (\<lambda>_ _. True) s)"

context step_relation
begin

lemma returns_stays: "stays R m \<Longrightarrow> returns_in R m"
  unfolding returns_in_def by (blast intro: wp_mono wp_stays)

lemma returns_bind: "returns_in R m \<Longrightarrow> (\<And>a. returns_in R (f a)) \<Longrightarrow> returns_in R (bindS m f)"
  unfolding returns_in_def wp_bind by (blast intro: wp_mono trans)

lemma returns_then: "returns_in R m \<Longrightarrow> returns_in R n \<Longrightarrow> returns_in R (thenS m n)"
  unfolding thenS_def by (rule returns_bind)

lemma returns_when: "(c \<Longrightarrow> returns_in R m) \<Longrightarrow> returns_in R (whenS c m)"
  by (cases c) (simp_all add: whenS_def returns_stays stays_basic)

lemma returns_if: "(c \<Longrightarrow> returns_in R m) \<Longrightarrow> (\<not> c \<Longrightarrow> returns_in R n) \<Longrightarrow> returns_in R (if c then m else n)"
  by simp

lemma returns_option:
  "returns_in R m \<Longrightarrow> (\<And>a. returns_in R (f a)) \<Longrightarrow> returns_in R (case x of None \<Rightarrow> m | Some a \<Rightarrow> f a)"
  by (simp split: option.split)

lemma returns_for: "(\<And>x. returns_in R (f x)) \<Longrightarrow> returns_in R (forS xs f)"
  by (induction xs) (simp_all add: returns_stays stays_basic returns_then)

lemma returns_from: "returns_in R m \<Longrightarrow> R s t \<Longrightarrow> wp m (\<lambda>_. R s) (\<lambda>_ _. True) t"
  unfolding returns_in_def by (blast intro: wp_mono trans)

lemma returns_try:
  "stays R m \<Longrightarrow> (\<And>e. returns_in R (h e)) \<Longrightarrow> (\<And>a. returns_in R (k a)) \<Longrightarrow> returns_in R (tryElseS m p h k)"
  unfolding returns_in_def [of R "tryElseS m p h k"] wp_try_else
  by (intro allI, rule wp_mono, erule wp_stays) (auto intro: returns_from)

lemma returns_except:
  "stays R m \<Longrightarrow> (\<And>e. returns_in R (h e)) \<Longrightarrow> returns_in R (exceptS m p h)"
  unfolding exceptS_def by (intro returns_try) (simp_all add: returns_stays stays_basic)

lemma returns_basic:
  "returns_in R (returnS a)" "returns_in R (raiseS e)" "returns_in R (readS f)" "returns_in R (pureS r)"
  by (simp_all add: returns_stays stays_basic)

lemmas returns_rules = returns_basic returns_bind returns_then returns_when returns_if returns_option
  returns_for returns_try returns_except

end

section \<open>Collected records\<close>

definition good_file :: "upper \<Rightarrow> ignore_set \<Rightarrow> file_record \<Rightarrow> bool" where
  "good_file up ig r \<longleftrightarrow> file_record_post_init up r = Inr () \<and> ignore_excludes up ig (fr_rel_path r) False = Inr False"

definition good_directory :: "upper \<Rightarrow> ignore_set \<Rightarrow> dir_record \<Rightarrow> bool" where
  "good_directory up ig r \<longleftrightarrow> dir_record_post_init up r = Inr ()
     \<and> (dr_rel_path r = [] \<or> ignore_excludes up ig (dr_rel_path r) True = Inr False)"

definition good_unsupported :: "upper \<Rightarrow> unsupported_record \<Rightarrow> bool" where
  "good_unsupported up r \<longleftrightarrow> unsupported_record_post_init up r = Inr ()"

definition good_warning :: "upper \<Rightarrow> scan_warning \<Rightarrow> bool" where
  "good_warning up w \<longleftrightarrow> scan_warning_post_init up w = Inr ()"

definition collected :: "upper \<Rightarrow> ignore_set \<Rightarrow> 'w scan_state \<Rightarrow> bool" where
  "collected up ig s \<longleftrightarrow>
     list_all (good_file up ig) (sc_files s) \<and> list_all (good_directory up ig) (sc_directories s)
     \<and> list_all (good_unsupported up) (sc_unsupported s) \<and> list_all (good_warning up) (sc_warnings s)"

abbreviation collects :: "upper \<Rightarrow> ignore_set \<Rightarrow> ('w, 'a) scanner \<Rightarrow> bool" where
  "collects up ig m \<equiv> stays (keeps (collected up ig)) m"

lemma collects_backend: "collects up ig (backend m)"
  unfolding backend_def by (rule stays_through) (simp add: keeps_def collected_def)

lemma collects_update:
  "collects up ig incomplete" "collects up ig (updateS (\<lambda>s. s\<lparr>sc_visited := f s\<rparr>))"
  by (auto simp: stays_def keeps_def collected_def incomplete_def updateS_def)

lemmas collects_pure = stays_pure_bind [OF invariants.step_relation_axioms]
  stays_pure_then [OF invariants.step_relation_axioms]

lemma collects_warn: "collects (se_upper env) ig (warn env code path text)"
  unfolding warn_def Let_def
  by (intro collects_pure) (simp add: stays_def keeps_def updateS_def collected_def good_warning_def)

lemma collects_unsupported: "collects (se_upper env) ig (add_unsupported env path reason kind)"
  unfolding add_unsupported_def path_key_of_def Let_def
  by (intro collects_pure) (simp add: stays_def keeps_def updateS_def collected_def good_unsupported_def)

lemma collects_add:
  "path = [] \<or> ignore_excludes (se_upper env) ig path True = Inr False \<Longrightarrow>
     collects (se_upper env) ig (add_directory env path key st)"
  "ignore_excludes (se_upper env) ig path False = Inr False \<Longrightarrow>
     collects (se_upper env) ig (add_file env path key st)"
  unfolding add_directory_def add_file_def Let_def
  by (intro collects_pure;
      auto simp: stays_def keeps_def updateS_def collected_def good_directory_def good_file_def)+

lemmas collects_rules = collects_pure invariants.stays_rules collects_backend collects_update collects_warn
  collects_unsupported collects_add

lemma collects_visit_stat:
  assumes "ignore_excludes (se_upper env) ig path is_dir = Inr False"
  shows "collects (se_upper env) ig (visit_stat env volume path e is_dir st)"
  using assms unfolding visit_stat_def refuse_entry_def visit_subdirectory_def visit_file_def path_key_of_def
  by (cases is_dir) (auto intro!: collects_rules split: option.split)

lemma collects_visit_entry: "collects (se_upper env) ig (visit_entry env volume ig rel e)"
proof -
  have "collects (se_upper env) ig (visit_path env volume ig path e)" for path
    unfolding visit_path_def unreadable_def stat_entry_def
    by (intro collects_rules collects_visit_stat) (auto split: if_splits)
  then show ?thesis
    unfolding visit_entry_def Let_def
    by (auto intro!: collects_rules split: sum.split py_error.split)
qed

lemma collects_visit_directory: "collects (se_upper env) ig (visit_directory env volume ig absolute rel)"
proof -
  have read: "collects (se_upper env) ig (read_entries env rs)" for rs
    by (induction rs) (auto intro!: collects_rules split: sum.split)
  have visit: "collects (se_upper env) ig (visit_entries env volume ig rel es)" for es
    by (induction es) (auto intro!: invariants.stays_rules collects_visit_entry)
  show ?thesis
    unfolding visit_directory_def enumerate_directory_def
    by (auto intro!: collects_rules read visit split: prod.split option.split)
qed

lemma collects_walk: "collects (se_upper env) ig (walk n env volume ig pending)"
  by (induction n env volume ig pending rule: walk.induct)
     (auto intro!: invariants.stays_rules collects_visit_directory)

lemma collects_visit_selected: "collects (se_upper env) ig (visit_selected env volume ig rt path)"
  unfolding visit_selected_def refuse_selected_def path_key_of_def Let_def
  by (auto intro!: collects_rules split: if_splits)

lemma collects_appends:
  "collects (se_upper env) ig (append_collision_warnings env)"
  "collects (se_upper env) ig (append_identity_warnings env)"
  unfolding append_collision_warnings_def append_identity_warnings_def warn_collision_def Let_def
  by (intro invariants.stays_rules collects_warn collects_update)+

section \<open>A complete scan hides nothing\<close>

definition benign_warning :: "scan_warning \<Rightarrow> bool" where
  "benign_warning w \<longleftrightarrow> sw_code w \<in> {W_MULTI_LINK, W_DUPLICATE_IDENTITY, W_PLACEHOLDER, W_REPARSE_POINT}"

definition benign_unsupported :: "unsupported_record \<Rightarrow> bool" where
  "benign_unsupported r \<longleftrightarrow> ur_reason r \<in> {UR_PLACEHOLDER, UR_REPARSE_POINT} \<and> ur_kind r = Some FILE"

text \<open>What a computation adds while the scan stays complete, and that a scan never becomes complete.\<close>

definition cleanly :: "'w scan_state \<Rightarrow> 'w scan_state \<Rightarrow> bool" where
  "cleanly s t \<longleftrightarrow> (sc_complete t \<longrightarrow> sc_complete s
     \<and> (list_all benign_warning (sc_warnings s) \<longrightarrow> list_all benign_warning (sc_warnings t))
     \<and> (list_all benign_unsupported (sc_unsupported s) \<longrightarrow> list_all benign_unsupported (sc_unsupported t)))"

interpretation clean: step_relation cleanly
  by unfold_locales (auto simp: cleanly_def)

lemma clean_backend: "stays cleanly (backend m)"
  unfolding backend_def by (rule stays_through) (simp add: cleanly_def)

lemma clean_update:
  "stays cleanly (updateS (\<lambda>s. s\<lparr>sc_visited := f s\<rparr>))" "stays cleanly (updateS (\<lambda>s. s\<lparr>sc_files := g s\<rparr>))"
  "stays cleanly (updateS (\<lambda>s. s\<lparr>sc_directories := h s\<rparr>))" "stays cleanly incomplete"
  by (simp_all add: stays_def cleanly_def updateS_def incomplete_def)

lemma clean_warn: "code \<in> {W_MULTI_LINK, W_DUPLICATE_IDENTITY, W_PLACEHOLDER, W_REPARSE_POINT} \<Longrightarrow>
    stays cleanly (warn env code path text)"
  unfolding warn_def Let_def
  by (intro clean.stays_then clean.stays_basic)
     (auto simp: stays_def updateS_def cleanly_def benign_warning_def)

lemma clean_add:
  "stays cleanly (add_directory env path key st)" "stays cleanly (add_file env path key st)"
  unfolding add_directory_def add_file_def Let_def
  by (intro clean.stays_then clean.stays_basic clean_update)+

lemma clean_unsupported:
  "reason \<in> {UR_PLACEHOLDER, UR_REPARSE_POINT} \<Longrightarrow> stays cleanly (add_unsupported env path reason (Some FILE))"
  unfolding add_unsupported_def path_key_of_def Let_def
  by (intro clean.stays_bind clean.stays_then clean.stays_basic)
     (auto simp: stays_def updateS_def cleanly_def benign_unsupported_def)

lemma returns_incomplete: "ensures m (\<lambda>t. \<not> sc_complete t) \<Longrightarrow> returns_in cleanly m"
  unfolding ensures_def returns_in_def
  by (intro allI, drule spec, erule wp_mono) (auto simp: cleanly_def)

lemma ensures_incomplete: "ensures incomplete (\<lambda>t. \<not> sc_complete t)"
  "ensures (thenS incomplete (returnS a)) (\<lambda>t. \<not> sc_complete t)"
  by (simp_all add: ensures_def incomplete_def wp_update wp_then wp_return)

lemma clean_bad:
  "returns_in cleanly (thenS m incomplete)" "returns_in cleanly (thenS m (thenS incomplete (returnS a)))"
  by (intro returns_incomplete ensures_then ensures_incomplete)+

lemmas clean_rules = clean.returns_rules returns_incomplete ensures_then ensures_incomplete
  clean.returns_stays [OF clean_backend] clean.returns_stays [OF clean_update(1)]
  clean.returns_stays [OF clean_add(1)] clean.returns_stays [OF clean_add(2)]

lemma clean_visit_file: "returns_in cleanly (visit_file env volume path e st)"
proof -
  define rest where "rest is_file = (if is_file
     then bindS (pureS (to_stat st FILE volume)) (\<lambda>snapshot. bindS (path_key_of env path) (\<lambda>key. add_file env path key snapshot))
     else thenS (add_unsupported env path UR_UNKNOWN_TYPE None)
         (thenS (warn env W_UNKNOWN_TYPE (Some path) []) incomplete))" for is_file
  have plain: "returns_in cleanly (rest True)"
    unfolding rest_def path_key_of_def if_True by (intro clean_rules)
  have other: "returns_in cleanly (rest False)" "ensures (rest False) (\<lambda>t. \<not> sc_complete t)"
    unfolding rest_def if_False by (intro returns_incomplete ensures_then ensures_incomplete)+
  have both: "returns_in cleanly (rest b)" for b
    using plain other(1) by (cases b) simp_all
  have handled: "wp (thenS (warn env c p x) (returnS False)) (\<lambda>a. wp (rest a) (\<lambda>_. cleanly s) (\<lambda>_ _. True))
      (\<lambda>_ _. True) t" for c p x and s t :: "'a scan_state"
    unfolding wp_then wp_return
    by (rule wp_mono [OF wp_True], rule wp_mono [OF ensuresD [OF other(2)]]) (auto simp: cleanly_def)
  have "wp (backend (se_is_file env e)) (\<lambda>a. wp (rest a) (\<lambda>_. cleanly s) (\<lambda>_ _. True))
     (\<lambda>err t. if is_os_error err then wp (thenS (warn env (error_code err) (Some path) (ex_text err)) (returnS False))
        (\<lambda>a. wp (rest a) (\<lambda>_. cleanly s) (\<lambda>_ _. True)) (\<lambda>_ _. True) t else True) s" for s
    by (rule wp_mono [OF wp_stays [OF clean_backend]])
       (auto intro: handled clean.returns_from [OF both])
  then show ?thesis
    unfolding visit_file_def rest_def [symmetric] returns_in_def wp_bind wp_except
    by simp
qed

lemma clean_visit_stat: "returns_in cleanly (visit_stat env volume path e is_dir st)"
proof -
  have sub: "returns_in cleanly (visit_subdirectory env volume path e st)"
    unfolding visit_subdirectory_def path_key_of_def
    by (intro clean.returns_bind clean.returns_then clean.returns_option clean.returns_if clean.returns_basic
        clean_rules clean.returns_stays [OF clean_warn]) simp
  have refuse: "returns_in cleanly (refuse_entry env path is_dir reason code)"
    if "code \<in> {W_PLACEHOLDER, W_REPARSE_POINT}" "reason \<in> {UR_PLACEHOLDER, UR_REPARSE_POINT}" for reason code
  proof (cases is_dir)
    case True
    then show ?thesis
      unfolding refuse_entry_def
      by (simp only: whenS_def if_True, intro returns_incomplete ensures_then ensures_incomplete)
  next
    case False
    then show ?thesis
      unfolding refuse_entry_def
      by (auto intro!: clean.returns_stays clean.stays_rules clean_unsupported clean_warn simp: that) (use that in auto)
  qed
  show ?thesis
    unfolding visit_stat_def
    by (intro clean.returns_if clean.returns_then clean.returns_basic refuse sub clean_visit_file) simp_all
qed

lemma clean_visit_entry: "returns_in cleanly (visit_entry env volume ig rel e)"
proof -
  have "stays cleanly (stat_entry env volume e)"
    unfolding stat_entry_def by (intro clean.stays_rules clean_backend)
  then have "returns_in cleanly (visit_path env volume ig path e)" for path
    unfolding visit_path_def unreadable_def
    by (intro clean.returns_try clean.returns_bind clean.returns_if clean.returns_basic clean_backend
        returns_incomplete ensures_then ensures_incomplete clean_visit_stat)
  then show ?thesis
    unfolding visit_entry_def Let_def
    by (intro clean.returns_then [OF clean.returns_stays [OF clean_backend]])
       (auto intro!: clean.returns_basic clean_bad split: sum.split py_error.split)
qed

lemma clean_visit_directory: "returns_in cleanly (visit_directory env volume ig absolute rel)"
proof -
  have read: "stays cleanly (read_entries env rs)" for rs
    by (induction rs) (auto intro!: clean.stays_rules clean_backend split: sum.split)
  have enumerate: "stays cleanly (enumerate_directory env absolute)"
    unfolding enumerate_directory_def by (intro clean.stays_rules clean_backend read)
  have visit: "returns_in cleanly (visit_entries env volume ig rel es)" for es
    by (induction es) (auto intro!: clean.returns_bind clean.returns_basic clean_visit_entry)
  show ?thesis
    unfolding visit_directory_def
    by (intro clean.returns_then [OF clean.returns_stays [OF clean_backend]]
        clean.returns_bind [OF clean.returns_stays [OF enumerate]])
       (auto intro!: clean.returns_then [OF _ visit] clean_bad clean.returns_basic split: option.split)
qed

lemma clean_walk: "returns_in cleanly (walk n env volume ig pending)"
  by (induction n env volume ig pending rule: walk.induct)
     (auto intro!: clean.returns_bind clean.returns_basic clean_visit_directory)

lemma clean_appends:
  "returns_in cleanly (append_collision_warnings env)" "returns_in cleanly (append_identity_warnings env)"
proof -
  have "returns_in cleanly (warn_collision env g)" for g
    unfolding warn_collision_def Let_def
    by (intro clean.returns_when returns_incomplete ensures_then ensures_incomplete)
  then show "returns_in cleanly (append_collision_warnings env)"
    unfolding append_collision_warnings_def by (intro clean.returns_bind clean.returns_for clean.returns_basic)
  show "returns_in cleanly (append_identity_warnings env)"
    unfolding append_identity_warnings_def
    by (intro clean.returns_bind clean.returns_then clean.returns_for clean.returns_basic clean.returns_when
        clean.returns_stays [OF clean_warn]) simp_all
qed

end
