(* ===== verification/Scanner_Properties.thy ===== *)
theory Scanner_Properties
  imports Scanner_Lemmas "HOL-Library.Multiset"
begin

text \<open>
  What a scan result guarantees, on whatever disk and whatever the calls answer.
\<close>

section \<open>Collisions\<close>

definition collision_free :: "(pystr \<times> pystr) list \<Rightarrow> bool" where
  "collision_free kps \<longleftrightarrow> (\<forall>k p q. (k, p) \<in> set kps \<longrightarrow> (k, q) \<in> set kps \<longrightarrow> p = q)"

lemma collision_free_groups:
  "collision_free kps \<longleftrightarrow> (\<forall>g \<in> set (groups_of kps). length (sorted_list_of_set (set g)) \<le> 1)"
proof -
  have "length (sorted_list_of_set (set g)) \<le> 1 \<longleftrightarrow> (\<forall>p \<in> set g. \<forall>q \<in> set g. p = q)" for g :: "pystr list"
    by (simp add: card_le_Suc0_iff_eq)
  moreover have "(\<forall>g \<in> set (groups_of kps). \<forall>p \<in> set g. \<forall>q \<in> set g. p = q) \<longleftrightarrow> collision_free kps"
    unfolding groups_of_def collision_free_def by fastforce
  ultimately show ?thesis by simp
qed

text \<open>Everything the reports after the walk may change: the warnings and the flag, which only falls.\<close>

definition reports :: "'w scan_state \<Rightarrow> 'w scan_state \<Rightarrow> bool" where
  "reports s t \<longleftrightarrow> sc_files t = sc_files s \<and> sc_directories t = sc_directories s
     \<and> sc_unsupported t = sc_unsupported s \<and> (sc_complete t \<longrightarrow> sc_complete s)"

interpretation reporting: step_relation reports
  by unfold_locales (auto simp: reports_def)

lemma reporting_warn: "stays reports (warn env code path text)" "stays reports incomplete"
  unfolding warn_def Let_def
  by (intro reporting.stays_then reporting.stays_basic; simp add: stays_def updateS_def reports_def)
     (simp add: stays_def updateS_def reports_def incomplete_def)

lemma reporting_appends:
  "stays reports (warn_collision env g)" "stays reports (append_collision_warnings env)"
  "stays reports (append_identity_warnings env)"
proof -
  show one: "stays reports (warn_collision env g)" for g
    unfolding warn_collision_def Let_def by (intro reporting.stays_rules reporting_warn)
  show "stays reports (append_collision_warnings env)"
    unfolding append_collision_warnings_def by (intro reporting.stays_rules one)
  show "stays reports (append_identity_warnings env)"
    unfolding append_identity_warnings_def by (intro reporting.stays_rules reporting_warn)
qed

lemma keyed_paths_reports: "reports s t \<Longrightarrow> keyed_paths t = keyed_paths s"
  by (simp add: reports_def keyed_paths_def)

lemma wp_collisions:
  "wp (append_collision_warnings env) (\<lambda>_ t. reports s t \<and> (sc_complete t \<longrightarrow> collision_free (keyed_paths t)))
     (\<lambda>_ _. True) s"
proof -
  let ?P = "\<lambda>g t. sc_complete t \<longrightarrow> length (sorted_list_of_set (set g)) \<le> 1"
  have "ensures (warn_collision env g) (?P g)" for g
  proof (cases "length (sorted_list_of_set (set g)) > 1")
    case True
    have "ensures (thenS (warn env W_CASE_COLLISION p x) incomplete) (?P g)" for p x
      by (rule ensures_mono [OF ensures_then [OF ensures_incomplete(1)]]) simp
    with True show ?thesis by (simp add: warn_collision_def Let_def whenS_def)
  next
    case False
    then show ?thesis by (simp add: warn_collision_def Let_def whenS_def ensures_def wp_return)
  qed
  moreover have "stays (keeps (?P g)) (warn_collision env h)" for g h
    using reporting_appends(1) unfolding stays_def keeps_def reports_def by blast
  ultimately have "ensures (forS gs (warn_collision env)) (\<lambda>t. \<forall>g \<in> set gs. ?P g t)" for gs
    by (rule ensures_for)
  from ensuresD [OF this] have "wp (append_collision_warnings env)
      (\<lambda>_ t. \<forall>g \<in> set (groups_of (keyed_paths s)). ?P g t) (\<lambda>_ _. True) s"
    by (simp add: append_collision_warnings_def wp_bind wp_read)
  from wp_conj [OF this wp_stays [OF reporting_appends(2)]] show ?thesis
    by (rule wp_mono) (auto simp: keyed_paths_reports collision_free_groups)
qed

section \<open>The result of a scan\<close>

definition record_paths :: "scan_result \<Rightarrow> (pystr \<times> pystr) list" where
  "record_paths r =
     filter (\<lambda>kp. snd kp \<noteq> [])
       (map (\<lambda>f. (fr_key f, fr_rel_path f)) (sr_files r)
        @ map (\<lambda>d. (dr_key d, dr_rel_path d)) (sr_directories r)
        @ map (\<lambda>u. (ur_key u, ur_rel_path u)) (sr_unsupported r))"

text \<open>
  A sound result: sorted records that pass the checks of their constructors and are not ignored, and
  when it counts as complete, a full scan without any failure, with nothing unsupported but single
  placeholder and reparse-point files, in which no two paths share a key.
\<close>

definition sound_scan :: "upper \<Rightarrow> ignore_set \<Rightarrow> scan_result \<Rightarrow> bool" where
  "sound_scan up ig r \<longleftrightarrow>
     list_all (good_file up ig) (sr_files r) \<and> list_all (good_directory up ig) (sr_directories r)
     \<and> list_all (good_unsupported up) (sr_unsupported r)
     \<and> sorted (map (\<lambda>f. (fr_key f, fr_rel_path f)) (sr_files r))
     \<and> sorted (map (\<lambda>d. (dr_key d, dr_rel_path d)) (sr_directories r))
     \<and> sorted (map (\<lambda>u. (ur_key u, ur_rel_path u)) (sr_unsupported r))
     \<and> (sr_complete r \<longrightarrow> is_full_scan r \<and> sr_volume_id r \<noteq> None
         \<and> list_all benign_warning (sr_warnings r) \<and> list_all benign_unsupported (sr_unsupported r)
         \<and> collision_free (record_paths r))"

lemma list_all_sort [simp]: "list_all P (sort_key f xs) = list_all P xs"
  by (simp add: list_all_iff)

lemma sort_warnings_mset: "sort_warnings up ws = Inr vs \<Longrightarrow> set vs \<subseteq> set ws"
  by (auto simp: sort_warnings_def bindE_eq_Inr dest!: set_zip_rightD)

lemma wp_result:
  assumes "collected up ig s" "sc_complete s \<longrightarrow> scope_kind scope = SCOPE_FULL
      \<and> list_all benign_warning (sc_warnings s) \<and> list_all benign_unsupported (sc_unsupported s)
      \<and> collision_free (keyed_paths s)"
  shows "wp (result_of_scan env volume rt ig' scope) (\<lambda>r _. sound_scan up ig r) (\<lambda>_ _. True) s"
proof -
  have "set (record_paths \<lparr>sr_root = rt, sr_volume_id = v, sr_volume_evidence = e, sr_profile = p,
      sr_files = sort_key (\<lambda>r. (fr_key r, fr_rel_path r)) (sc_files s),
      sr_directories = sort_key (\<lambda>r. (dr_key r, dr_rel_path r)) (sc_directories s),
      sr_unsupported = sort_key (\<lambda>r. (ur_key r, ur_rel_path r)) (sc_unsupported s),
      sr_warnings = ws, sr_ignore_snapshot = i, sr_scope = sc, sr_complete = c\<rparr>) = set (keyed_paths s)"
    for v e p ws i sc c
    by (auto simp: record_paths_def keyed_paths_def)
  moreover have "list_all benign_warning ws" if "sort_warnings (se_upper env) (sc_warnings s) = Inr ws"
      "list_all benign_warning (sc_warnings s)" for ws
    using sort_warnings_mset [OF that(1)] that(2) by (auto simp: list_all_iff)
  ultimately show ?thesis
    using assms
    by (auto simp: result_of_scan_def wp_bind wp_read wp_pure wp_return sound_scan_def collected_def
        is_full_scan_def collision_free_def split: sum.split)
qed

text \<open>The look at selected paths leaves an incomplete scan incomplete.\<close>

abbreviation unfinished :: "'w scan_state \<Rightarrow> bool" where
  "unfinished s \<equiv> \<not> sc_complete s"

lemma unfinished_selected: "stays (keeps unfinished) (visit_selected env volume ig rt path)"
proof -
  have backend: "stays (keeps unfinished) (backend m)" for m :: "('a, 'c) effect"
    unfolding backend_def by (rule stays_through) (simp add: keeps_def)
  have update: "stays (keeps unfinished) (updateS (\<lambda>s. s\<lparr>sc_warnings := f s\<rparr>))"
    "stays (keeps unfinished) (updateS (\<lambda>s. s\<lparr>sc_files := g s\<rparr>))"
    "stays (keeps unfinished) (updateS (\<lambda>s. s\<lparr>sc_directories := h s\<rparr>))"
    "stays (keeps unfinished) (updateS (\<lambda>s. s\<lparr>sc_unsupported := k s\<rparr>))"
    for f g h and k :: "'a scan_state \<Rightarrow> unsupported_record list"
    by (simp_all add: stays_def keeps_def updateS_def)
  show ?thesis
    unfolding visit_selected_def refuse_selected_def warn_def add_unsupported_def add_file_def add_directory_def
      path_key_of_def Let_def
    by (intro invariants.stays_rules backend update)
qed

text \<open>A scan over a volume: from empty lists to a sound result.\<close>

lemma collected_complete: "collected up ig (s\<lparr>sc_complete := b\<rparr>) = collected up ig s"
  by (simp add: collected_def)

lemma wp_scan_volume:
  "wp (scan_volume n env volume rt ig scope)
     (\<lambda>r _. case r of None \<Rightarrow> True | Some r \<Rightarrow> sound_scan (se_upper env) ig r) (\<lambda>_ _. True) (scan_start w)"
proof -
  let ?up = "se_upper env"
  define fine where "fine s \<longleftrightarrow> collected ?up ig s \<and> (sc_complete s \<longrightarrow> scope_kind scope = SCOPE_FULL
      \<and> list_all benign_warning (sc_warnings s) \<and> list_all benign_unsupported (sc_unsupported s))"
    for s :: "'a scan_state"
  define walked where "walked = (if scope_kind scope = SCOPE_PATHS
      then thenS incomplete (thenS (forS (selected_paths scope) (visit_selected env volume ig (root_path rt))) (returnS True))
      else scan_full n env volume ig (root_path rt))"
  have start: "collected ?up ig (scan_start w)" "list_all benign_warning (sc_warnings (scan_start w))"
    "list_all benign_unsupported (sc_unsupported (scan_start w))"
    by (simp_all add: scan_start_def collected_def)
  have fine: "wp m (\<lambda>_. fine) (\<lambda>_ _. True) s"
    if "collects ?up ig m" "returns_in cleanly m" "fine s" for m :: "('a, 'b) scanner" and s
    using wp_conj [OF wp_keeps [OF that(1)] that(2) [unfolded returns_in_def, rule_format, of s]] that(3)
    unfolding fine_def by (auto elim!: wp_mono simp: cleanly_def)
  have walk: "wp walked (\<lambda>_. fine) (\<lambda>_ _. True) (scan_start w)"
  proof (cases "scope_kind scope")
    case SCOPE_FULL
    have "collects ?up ig walked"
      unfolding walked_def scan_full_def SCOPE_FULL
      by (auto intro!: collects_rules collects_walk)
    moreover have "returns_in cleanly walked"
      unfolding walked_def scan_full_def SCOPE_FULL
      by (auto intro!: clean.returns_try clean.returns_bind clean.returns_then clean.returns_basic clean_backend
          clean_bad clean_walk clean.returns_stays [OF clean_update(1)] clean.returns_stays [OF clean_add(1)])
    moreover have "fine (scan_start w)" using start SCOPE_FULL by (simp add: fine_def)
    ultimately show ?thesis using fine by blast
  next
    case SCOPE_PATHS
    let ?loop = "forS (selected_paths scope) (visit_selected env volume ig (root_path rt))"
    have "collects ?up ig ?loop" "stays (keeps unfinished) ?loop"
      by (intro invariants.stays_for collects_visit_selected unfinished_selected)+
    then have "wp ?loop (\<lambda>_ t. collected ?up ig t \<and> unfinished t) (\<lambda>_ _. True) ((scan_start w)\<lparr>sc_complete := False\<rparr>)"
      using start(1) by (auto intro!: wp_conj [OF wp_keeps wp_keeps, THEN wp_any_exn]
          simp: collected_complete)
    then show ?thesis
      by (simp add: walked_def SCOPE_PATHS wp_then incomplete_def wp_update wp_return)
         (erule wp_mono, simp_all add: fine_def wp_return)
  qed
  have finish: "wp (thenS (append_collision_warnings env) (thenS (append_identity_warnings env)
      (bindS (result_of_scan env volume rt ig scope) (\<lambda>r. returnS (Some r)))))
     (\<lambda>r _. case r of None \<Rightarrow> True | Some r \<Rightarrow> sound_scan ?up ig r) (\<lambda>_ _. True) s" if "fine s" for s
    unfolding wp_then wp_bind wp_return option.case
  proof (rule wp_mono [OF wp_conj [OF wp_collisions fine [OF collects_appends(1) clean_appends(1) that]]])
    fix t :: "'a scan_state"
    assume t: "(reports s t \<and> (sc_complete t \<longrightarrow> collision_free (keyed_paths t))) \<and> fine t"
    show "wp (append_identity_warnings env) (\<lambda>_. wp (result_of_scan env volume rt ig scope)
        (\<lambda>r _. sound_scan ?up ig r) (\<lambda>_ _. True)) (\<lambda>_ _. True) t"
    proof (rule wp_mono [OF wp_conj [OF wp_stays [OF reporting_appends(3)]
            fine [OF collects_appends(2) clean_appends(2) conjunct2 [OF t]]]])
      fix u :: "'a scan_state"
      assume u: "reports t u \<and> fine u"
      then have "keyed_paths u = keyed_paths t" "sc_complete u \<longrightarrow> sc_complete t"
        by (simp_all add: keyed_paths_reports [of t u] reports_def)
      with t u show "wp (result_of_scan env volume rt ig scope) (\<lambda>r _. sound_scan ?up ig r) (\<lambda>_ _. True) u"
        by (intro wp_result) (simp_all add: fine_def)
    qed simp
  qed simp
  show ?thesis
    unfolding scan_volume_def walked_def [symmetric] wp_bind
    by (rule wp_mono [OF walk]) (auto simp: wp_return intro: finish)
qed


end
