(* ===== verification/Scanner_Trees.thy ===== *)
theory Scanner_Trees
  imports Scanner_Properties
begin

text \<open>
  The scan of a tree that does not change: the walk over the stack of pending directories ends, and
  what it lists is what a recursive reading of the tree lists.
\<close>

section \<open>Trees\<close>

datatype fs_node = Plain entry_stat bool | Folder entry_stat "(pystr \<times> fs_node) list"

primrec node_stat :: "fs_node \<Rightarrow> entry_stat" where
  "node_stat (Plain st _) = st"
| "node_stat (Folder st _) = st"

primrec is_folder :: "fs_node \<Rightarrow> bool" where
  "is_folder (Plain _ _) = False"
| "is_folder (Folder _ _) = True"

primrec is_plain_file :: "fs_node \<Rightarrow> bool" where
  "is_plain_file (Plain _ f) = f"
| "is_plain_file (Folder _ _) = False"

definition node_kind :: "fs_node \<Rightarrow> entry_kind" where
  "node_kind k = (if is_folder k then DIRECTORY else FILE)"

text \<open>The backend answers from the tree; \<open>sub p n\<close> is the path of the entry \<open>n\<close> of the directory \<open>p\<close>.\<close>

definition entry_of :: "(pystr \<Rightarrow> pystr \<Rightarrow> pystr) \<Rightarrow> pystr \<Rightarrow> pystr \<Rightarrow> scan_entry" where
  "entry_of sub p n = \<lparr>sn_name = n, sn_path = sub p n\<rparr>"

definition answers_entry :: "'w scan_env \<Rightarrow> scan_entry \<Rightarrow> fs_node \<Rightarrow> bool" where
  "answers_entry env e k \<longleftrightarrow>
     (\<forall>w. se_is_dir env e w = (Inr (is_folder k), w) \<and> se_is_file env e w = (Inr (is_plain_file k), w)
        \<and> se_stat env e w = (Inr (node_stat k), w) \<and> se_lstat env (sn_path e) w = (Inr (node_stat k), w))"

fun serves :: "'w scan_env \<Rightarrow> (pystr \<Rightarrow> pystr \<Rightarrow> pystr) \<Rightarrow> pystr \<Rightarrow> fs_node \<Rightarrow> bool" where
  "serves env sub p (Plain st f) \<longleftrightarrow> True"
| "serves env sub p (Folder st kids) \<longleftrightarrow>
     (\<forall>w. se_scandir env p w = (Inr (map (\<lambda>nk. Inr (entry_of sub p (fst nk))) kids), w))
     \<and> (\<forall>(n, k) \<in> set kids. answers_entry env (entry_of sub p n) k \<and> serves env sub (sub p n) k)"

text \<open>Every stat is one that the constructors accept.\<close>

fun listable :: "volume_snapshot \<Rightarrow> fs_node \<Rightarrow> bool" where
  "listable volume (Plain st f) \<longleftrightarrow> ok (to_stat st FILE volume)"
| "listable volume (Folder st kids) \<longleftrightarrow>
     ok (to_stat st DIRECTORY volume) \<and> (\<forall>(n, k) \<in> set kids. listable volume k)"

text \<open>The identities of the directories below a node.\<close>

definition raw_identity :: "volume_snapshot \<Rightarrow> entry_stat \<Rightarrow> file_identity option" where
  "raw_identity volume st =
     (if \<not> stable_file_identity (vs_profile volume) \<or> si_ino st \<le> 0 then None
      else Some \<lparr>volume_serial = vol_serial (vs_volume_id volume), file_index = si_ino st\<rparr>)"

definition own_ids :: "volume_snapshot \<Rightarrow> fs_node \<Rightarrow> file_identity list" where
  "own_ids volume k = (if is_folder k then (case raw_identity volume (node_stat k) of None \<Rightarrow> [] | Some i \<Rightarrow> [i]) else [])"

fun ids_below :: "volume_snapshot \<Rightarrow> fs_node \<Rightarrow> file_identity list" where
  "ids_below volume (Plain st f) = []"
| "ids_below volume (Folder st kids) = concat (map (\<lambda>(n, k). own_ids volume k @ ids_below volume k) kids)"

fun folders :: "fs_node \<Rightarrow> nat" where
  "folders (Plain st f) = 0"
| "folders (Folder st kids) = Suc (sum_list (map (\<lambda>(n, k). folders k) kids))"

section \<open>The recursive reading\<close>

text \<open>The path under which an entry is listed: valid, not ignored, no reparse point.\<close>

definition placed :: "upper \<Rightarrow> ignore_set \<Rightarrow> pystr \<Rightarrow> pystr \<Rightarrow> fs_node \<Rightarrow> pystr option" where
  "placed up ig rel n k =
     (case validate_relative_path up False (candidate_path rel n) of
        Inl _ \<Rightarrow> None
      | Inr path \<Rightarrow>
          if ignore_excludes up ig path (is_folder k) = Inr False \<and> \<not> is_placeholder (node_stat k)
             \<and> \<not> is_reparse (node_stat k)
          then Some path else None)"

definition raw_stat :: "volume_snapshot \<Rightarrow> entry_kind \<Rightarrow> entry_stat \<Rightarrow> file_stat" where
  "raw_stat volume kind st =
     \<lparr>st_kind = kind, st_size = (if kind = FILE then si_size st else 0), st_mtime_ns = si_mtime_ns st,
      st_identity = raw_identity volume st, st_nlink = max 1 (si_nlink st),
      st_metadata = \<lparr>attributes = entry_attributes st, created_ns = entry_created_ns st\<rparr>\<rparr>"

definition file_at :: "upper \<Rightarrow> pystr \<Rightarrow> file_stat \<Rightarrow> file_record" where
  "file_at up path st =
     \<lparr>fr_rel_path = path, fr_key = path_key up path, fr_size = st_size st, fr_mtime_ns = st_mtime_ns st,
      fr_identity = st_identity st, fr_nlink = st_nlink st, fr_metadata = st_metadata st\<rparr>"

definition dir_at :: "upper \<Rightarrow> pystr \<Rightarrow> file_stat \<Rightarrow> dir_record" where
  "dir_at up path st =
     \<lparr>dr_rel_path = path, dr_key = path_key up path, dr_mtime_ns = st_mtime_ns st,
      dr_metadata = st_metadata st, dr_identity = st_identity st, dr_nlink = st_nlink st\<rparr>"

definition entry_files :: "upper \<Rightarrow> volume_snapshot \<Rightarrow> ignore_set \<Rightarrow> pystr \<Rightarrow> pystr \<times> fs_node \<Rightarrow> file_record list" where
  "entry_files up volume ig rel nk =
     (case placed up ig rel (fst nk) (snd nk) of
        None \<Rightarrow> []
      | Some path \<Rightarrow> if is_plain_file (snd nk) then [file_at up path (raw_stat volume FILE (node_stat (snd nk)))] else [])"

definition entry_dirs :: "upper \<Rightarrow> volume_snapshot \<Rightarrow> ignore_set \<Rightarrow> pystr \<Rightarrow> pystr \<times> fs_node \<Rightarrow> dir_record list" where
  "entry_dirs up volume ig rel nk =
     (case placed up ig rel (fst nk) (snd nk) of
        None \<Rightarrow> []
      | Some path \<Rightarrow> if is_folder (snd nk) then [dir_at up path (raw_stat volume DIRECTORY (node_stat (snd nk)))] else [])"

text \<open>An entry that does not make the scan incomplete.\<close>

definition entry_clean :: "upper \<Rightarrow> ignore_set \<Rightarrow> pystr \<Rightarrow> pystr \<times> fs_node \<Rightarrow> bool" where
  "entry_clean up ig rel nk \<longleftrightarrow>
     (case validate_relative_path up False (candidate_path rel (fst nk)) of
        Inl _ \<Rightarrow> False
      | Inr path \<Rightarrow>
          ignore_excludes up ig path (is_folder (snd nk)) = Inr True
          \<or> (if is_placeholder (node_stat (snd nk)) \<or> is_reparse (node_stat (snd nk)) then \<not> is_folder (snd nk)
             else is_folder (snd nk) \<or> is_plain_file (snd nk)))"

fun listed_files :: "upper \<Rightarrow> volume_snapshot \<Rightarrow> ignore_set \<Rightarrow> pystr \<Rightarrow> fs_node \<Rightarrow> file_record list" where
  "listed_files up volume ig rel (Plain st f) = []"
| "listed_files up volume ig rel (Folder st kids) =
     concat (map (\<lambda>(n, k). entry_files up volume ig rel (n, k)
        @ (case placed up ig rel n k of None \<Rightarrow> [] | Some path \<Rightarrow> listed_files up volume ig path k)) kids)"

fun listed_dirs :: "upper \<Rightarrow> volume_snapshot \<Rightarrow> ignore_set \<Rightarrow> pystr \<Rightarrow> fs_node \<Rightarrow> dir_record list" where
  "listed_dirs up volume ig rel (Plain st f) = []"
| "listed_dirs up volume ig rel (Folder st kids) =
     concat (map (\<lambda>(n, k). entry_dirs up volume ig rel (n, k)
        @ (case placed up ig rel n k of None \<Rightarrow> [] | Some path \<Rightarrow> listed_dirs up volume ig path k)) kids)"

fun all_clean :: "upper \<Rightarrow> ignore_set \<Rightarrow> pystr \<Rightarrow> fs_node \<Rightarrow> bool" where
  "all_clean up ig rel (Plain st f) \<longleftrightarrow> True"
| "all_clean up ig rel (Folder st kids) \<longleftrightarrow>
     (\<forall>(n, k) \<in> set kids. entry_clean up ig rel (n, k)
        \<and> (case placed up ig rel n k of None \<Rightarrow> True | Some path \<Rightarrow> all_clean up ig path k))"

section \<open>Constructors that accept\<close>

lemma to_stat_raw: "to_stat st kind volume = Inr s \<Longrightarrow> s = raw_stat volume kind st \<and> file_stat_post_init s = Inr ()"
  by (auto simp: to_stat_def entry_identity_def raw_stat_def raw_identity_def Let_def bindE_eq_Inr split: if_splits)

lemma listable_stat: "listable volume k \<Longrightarrow> to_stat (node_stat k) (node_kind k) volume
    = Inr (raw_stat volume (node_kind k) (node_stat k))
    \<and> file_stat_post_init (raw_stat volume (node_kind k) (node_stat k)) = Inr ()"
  by (cases k; cases "to_stat (node_stat k) (node_kind k) volume")
     (auto simp: node_kind_def dest: to_stat_raw)

lemma validate_root: "validate_relative_path up False p = Inr c \<Longrightarrow> validate_relative_path up True p = Inr c"
  by (auto simp: validate_relative_path_def split: if_splits)

definition canonical :: "upper \<Rightarrow> pystr \<Rightarrow> bool" where
  "canonical up p \<longleftrightarrow> validate_relative_path up False p = Inr p"

lemma canonical_validated: "upper_laws up \<Longrightarrow> validate_relative_path up False v = Inr p \<Longrightarrow> canonical up p"
  by (simp add: canonical_def validate_idem)

lemma canonical_key: "canonical up p \<Longrightarrow> normalize_relative_path up False p = Inr (path_key up p)"
  unfolding canonical_def by (rule normalize_valid)

lemma canonical_root: "canonical up p \<Longrightarrow> validate_relative_path up True p = Inr p"
  unfolding canonical_def by (rule validate_root)

lemma canonical_excludes:
  assumes "upper_laws up" "canonical up p"
  shows "\<exists>b. ignore_excludes up ig p d = Inr b"
proof -
  have p: "safe_relative_path up p" "p \<noteq> []"
    using assms(2) by (auto simp: canonical_def validate_iff [OF assms(1)] split: if_splits)
  have "win_parts p \<noteq> []" using p by (simp add: win_parts_safe)
  then have "win_name p \<in> set (split_on backslash p)"
    using win_parts_safe [OF p(1)] by (simp add: win_name_def)
  from safe_relative_path_components [OF p(1) this]
  have name: "safe_relative_path up (win_name p)"
    using safe_relative_path_join [of "[win_name p]" up] by simp
  then have "win_name p \<noteq> []" by (rule safe_not_Nil)
  then have "validate_relative_path up False (win_name p) = Inr (win_name p)"
    using name by (simp add: validate_iff [OF assms(1)] safe_canonical)
  then show ?thesis
    using normalize_valid assms(2) canonical_key [OF assms(2)]
    by (auto simp: ignore_excludes_def canonical_def)
qed

section \<open>One directory\<close>

definition still_env :: "'w scan_env \<Rightarrow> bool" where
  "still_env env \<longleftrightarrow> upper_laws (se_upper env) \<and> (\<forall>w. se_checkpoint env w = (Inr (), w))"

lemma wp_answer: "m (sc_world s) = (Inr a, sc_world s) \<Longrightarrow> wp (backend m) Q E s = Q a s"
  by (simp add: backend_def through_def wp_def)

lemma wp_checkpoint: "still_env env \<Longrightarrow> wp (backend (se_checkpoint env)) Q E s = Q () s"
  by (rule wp_answer) (simp add: still_env_def)

definition named :: "upper \<Rightarrow> pystr option \<Rightarrow> bool" where
  "named up path \<longleftrightarrow> (case path of None \<Rightarrow> True | Some p \<Rightarrow> ok (validate_relative_path up True p))"

lemma named_canonical: "canonical up p \<Longrightarrow> named up (Some p)"
  by (simp add: named_def canonical_root)

lemma wp_warn:
  assumes "named (se_upper env) path"
  shows "wp (warn env code path x) Q E s
    = Q () (s\<lparr>sc_warnings := sc_warnings s @ [\<lparr>sw_code = code, sw_rel_path = path, sw_detail = x\<rparr>]\<rparr>)"
proof -
  have "scan_warning_post_init (se_upper env) \<lparr>sw_code = code, sw_rel_path = path, sw_detail = x\<rparr> = Inr ()"
    using assms by (cases path; cases "validate_relative_path (se_upper env) True (the path)")
      (auto simp: scan_warning_post_init_def named_def)
  then show ?thesis by (simp add: warn_def wp_then wp_pure wp_update)
qed

lemma wp_unsupported:
  assumes "canonical (se_upper env) path"
  shows "wp (add_unsupported env path reason kind) Q E s
    = Q () (s\<lparr>sc_unsupported := sc_unsupported s @ [\<lparr>ur_rel_path = path, ur_key = path_key (se_upper env) path,
        ur_reason = reason, ur_kind = kind\<rparr>]\<rparr>)"
  using canonical_key [OF assms] assms [unfolded canonical_def]
  by (simp add: add_unsupported_def path_key_of_def wp_bind wp_then wp_pure wp_update Let_def
      unsupported_record_post_init_def)

lemma wp_add_file:
  assumes "canonical (se_upper env) path" "file_stat_post_init (raw_stat volume FILE st) = Inr ()"
  shows "wp (add_file env path (path_key (se_upper env) path) (raw_stat volume FILE st)) Q E s
    = Q () (s\<lparr>sc_files := sc_files s @ [file_at (se_upper env) path (raw_stat volume FILE st)]\<rparr>)"
proof -
  have "fr_stat (file_at (se_upper env) path (raw_stat volume FILE st)) = raw_stat volume FILE st"
    by (simp add: fr_stat_def file_at_def raw_stat_def)
  then have "file_record_post_init (se_upper env) (file_at (se_upper env) path (raw_stat volume FILE st)) = Inr ()"
    using assms canonical_key [OF assms(1)]
    by (simp add: file_record_post_init_def file_at_def canonical_def)
  then show ?thesis by (simp add: add_file_def Let_def wp_then wp_pure wp_update file_at_def)
qed

lemma wp_add_directory:
  assumes "path = [] \<or> canonical (se_upper env) path" "file_stat_post_init (raw_stat volume DIRECTORY st) = Inr ()"
  shows "wp (add_directory env path (path_key (se_upper env) path) (raw_stat volume DIRECTORY st)) Q E s
    = Q () (s\<lparr>sc_directories := sc_directories s @ [dir_at (se_upper env) path (raw_stat volume DIRECTORY st)]\<rparr>)"
proof -
  have stat: "dr_stat (dir_at (se_upper env) path (raw_stat volume DIRECTORY st)) = raw_stat volume DIRECTORY st"
    by (simp add: dr_stat_def dir_at_def raw_stat_def)
  have valid: "validate_relative_path (se_upper env) True path = Inr path"
    using assms(1) canonical_root by (cases "path = []") (auto simp: validate_relative_path_def)
  then have "dir_record_post_init (se_upper env) (dir_at (se_upper env) path (raw_stat volume DIRECTORY st)) = Inr ()"
    using assms(2) stat normalize_valid [OF valid] by (simp add: dir_record_post_init_def dir_at_def)
  then show ?thesis by (simp add: add_directory_def Let_def wp_then wp_pure wp_update dir_at_def)
qed

text \<open>What visiting the entries of a directory makes of a state.\<close>

definition entry_kids ::
    "upper \<Rightarrow> ignore_set \<Rightarrow> (pystr \<Rightarrow> pystr \<Rightarrow> pystr) \<Rightarrow> pystr \<Rightarrow> pystr \<Rightarrow> pystr \<times> fs_node \<Rightarrow> (pystr \<times> pystr) list" where
  "entry_kids up ig sub p rel nk =
     (case placed up ig rel (fst nk) (snd nk) of
        None \<Rightarrow> []
      | Some path \<Rightarrow> if is_folder (snd nk) then [(sub p (fst nk), path)] else [])"

definition visited_all ::
    "'w scan_env \<Rightarrow> volume_snapshot \<Rightarrow> ignore_set \<Rightarrow> pystr \<Rightarrow> (pystr \<times> fs_node) list \<Rightarrow>
     'w scan_state \<Rightarrow> 'w scan_state \<Rightarrow> bool" where
  "visited_all env volume ig rel nks s t \<longleftrightarrow>
     sc_files t = sc_files s @ concat (map (entry_files (se_upper env) volume ig rel) nks)
     \<and> sc_directories t = sc_directories s @ concat (map (entry_dirs (se_upper env) volume ig rel) nks)
     \<and> set (sc_visited t) \<subseteq> set (sc_visited s) \<union> set (concat (map (\<lambda>nk. own_ids volume (snd nk)) nks))
     \<and> (sc_complete t \<longleftrightarrow> sc_complete s \<and> list_all (entry_clean (se_upper env) ig rel) nks)
     \<and> sc_world t = sc_world s"

lemma raw_stat_identity: "st_identity (raw_stat volume kind st) = raw_identity volume st"
  by (simp add: raw_stat_def)

lemma wp_visit_stat:
  assumes "upper_laws (se_upper env)" "canonical (se_upper env) path" "listable volume k" "answers_entry env e k"
    and "set (own_ids volume k) \<inter> set (sc_visited s) = {}"
  shows "wp (visit_stat env volume path e (is_folder k) (node_stat k))
    (\<lambda>kids t.
       (if is_placeholder (node_stat k) \<or> is_reparse (node_stat k)
        then kids = [] \<and> sc_files t = sc_files s \<and> sc_directories t = sc_directories s
          \<and> sc_visited t = sc_visited s \<and> (sc_complete t \<longleftrightarrow> sc_complete s \<and> \<not> is_folder k)
        else kids = (if is_folder k then [(sn_path e, path)] else [])
          \<and> sc_files t = sc_files s @ (if is_plain_file k then [file_at (se_upper env) path (raw_stat volume FILE (node_stat k))] else [])
          \<and> sc_directories t = sc_directories s
              @ (if is_folder k then [dir_at (se_upper env) path (raw_stat volume DIRECTORY (node_stat k))] else [])
          \<and> set (sc_visited t) \<subseteq> set (sc_visited s) \<union> set (own_ids volume k)
          \<and> (sc_complete t \<longleftrightarrow> sc_complete s \<and> (is_folder k \<or> is_plain_file k)))
       \<and> sc_world t = sc_world s)
    (\<lambda>_ _. False) s"
proof -
  note stat = listable_stat [OF assms(3)]
  have named: "named (se_upper env) (Some path)" using assms(2) by (rule named_canonical)
  have answers: "wp (backend (se_is_file env e)) Q E t = Q (is_plain_file k) t" for Q E t
    using assms(4) by (intro wp_answer) (simp add: answers_entry_def)
  show ?thesis
  proof (cases k)
    case (Plain st f)
    then show ?thesis
      using stat named assms(2)
      by (auto simp: visit_stat_def refuse_entry_def visit_file_def node_kind_def path_key_of_def
          wp_bind wp_then wp_when wp_except wp_pure wp_return wp_warn wp_unsupported answers
          wp_add_file canonical_key incomplete_def wp_update)
  next
    case (Folder st kids)
    then show ?thesis
      using stat named assms(2,5)
      by (auto simp: visit_stat_def refuse_entry_def visit_subdirectory_def node_kind_def path_key_of_def
          wp_bind wp_then wp_when wp_pure wp_return wp_warn wp_unsupported wp_read
          wp_add_directory canonical_key incomplete_def wp_update own_ids_def raw_stat_identity split: option.splits)
  qed
qed

lemma wp_visit_entry:
  assumes env: "still_env env" and rel: "rel = [] \<or> canonical (se_upper env) rel"
    and k: "listable volume k" "answers_entry env (entry_of sub p n) k"
    and ids: "set (own_ids volume k) \<inter> set (sc_visited s) = {}"
  shows "wp (visit_entry env volume ig rel (entry_of sub p n))
    (\<lambda>kids t. kids = entry_kids (se_upper env) ig sub p rel (n, k) \<and> visited_all env volume ig rel [(n, k)] s t)
    (\<lambda>_ _. False) s"
proof (cases "validate_relative_path (se_upper env) False (candidate_path rel n)")
  case (Inl err)
  then obtain m where err: "err = PathValidationError m" using validate_fails_PathValidationError by blast
  have "named (se_upper env) (if rel = [] then None else Some rel)"
    using rel named_canonical by (auto simp: named_def)
  then show ?thesis
    using Inl
    by (auto simp: visit_entry_def entry_of_def wp_then wp_checkpoint [OF env] err wp_warn incomplete_def wp_update
        wp_return entry_kids_def visited_all_def entry_files_def entry_dirs_def entry_clean_def placed_def)
next
  case (Inr path)
  have up: "upper_laws (se_upper env)" using env by (simp add: still_env_def)
  have path: "canonical (se_upper env) path" using canonical_validated [OF up Inr] .
  obtain b where b: "ignore_excludes (se_upper env) ig path (is_folder k) = Inr b"
    using canonical_excludes [OF up path] by blast
  let ?e = "entry_of sub p n"
  have is_dir: "wp (backend (se_is_dir env ?e)) Q E t = Q (is_folder k) t" for Q E t
    using k(2) by (intro wp_answer) (simp add: answers_entry_def)
  have stat: "wp (stat_entry env volume ?e) Q E t = Q (node_stat k) t" for Q E t
  proof -
    have "wp (backend (se_stat env ?e)) Q' E t = Q' (node_stat k) t"
      "wp (backend (se_lstat env (sn_path ?e))) Q' E t = Q' (node_stat k) t" for Q'
      using k(2) by (intro wp_answer; simp add: answers_entry_def)+
    then show ?thesis by (simp add: stat_entry_def wp_bind wp_return)
  qed
  have visit: "wp (visit_entry env volume ig rel ?e) Q E s
      = (if b then Q [] s else wp (visit_stat env volume path ?e (is_folder k) (node_stat k)) Q E s)" for Q E
    using Inr by (simp add: visit_entry_def entry_of_def wp_then wp_checkpoint [OF env])
      (simp add: visit_path_def wp_try_else is_dir [unfolded entry_of_def] stat [unfolded entry_of_def] wp_bind wp_pure b wp_return)
  show ?thesis
  proof (cases b)
    case True
    then show ?thesis
      unfolding visit
      using Inr b by (auto simp: visited_all_def entry_kids_def entry_files_def entry_dirs_def entry_clean_def placed_def)
  next
    case False
    show ?thesis
      unfolding visit if_not_P [OF False]
      by (rule wp_mono [OF wp_visit_stat [OF up path k ids]])
         (use False Inr b in \<open>auto simp: visited_all_def entry_kids_def entry_files_def entry_dirs_def entry_clean_def
            placed_def entry_of_def split: if_splits\<close>)
  qed
qed

lemma visited_all_Nil: "visited_all env volume ig rel [] s s"
  by (simp add: visited_all_def)

lemma visited_all_Cons:
  "visited_all env volume ig rel [nk] s t \<Longrightarrow> visited_all env volume ig rel nks t u \<Longrightarrow>
     visited_all env volume ig rel (nk # nks) s u"
  unfolding visited_all_def by auto

lemma wp_visit_entries:
  assumes env: "still_env env" and rel: "rel = [] \<or> canonical (se_upper env) rel"
  shows "list_all (\<lambda>nk. listable volume (snd nk) \<and> answers_entry env (entry_of sub p (fst nk)) (snd nk)) nks \<Longrightarrow>
    distinct (concat (map (\<lambda>nk. own_ids volume (snd nk)) nks)) \<Longrightarrow>
    set (concat (map (\<lambda>nk. own_ids volume (snd nk)) nks)) \<inter> set (sc_visited s) = {} \<Longrightarrow>
    wp (visit_entries env volume ig rel (map (\<lambda>nk. entry_of sub p (fst nk)) nks))
      (\<lambda>kids t. kids = concat (map (entry_kids (se_upper env) ig sub p rel) nks)
         \<and> visited_all env volume ig rel nks s t) (\<lambda>_ _. False) s"
proof (induction nks arbitrary: s)
  case Nil
  then show ?case by (simp add: wp_return visited_all_Nil)
next
  case (Cons nk nks)
  obtain n k where nk: "nk = (n, k)" by force
  have one: "wp (visit_entry env volume ig rel (entry_of sub p n))
      (\<lambda>kids t. kids = entry_kids (se_upper env) ig sub p rel (n, k) \<and> visited_all env volume ig rel [(n, k)] s t)
      (\<lambda>_ _. False) s"
    by (rule wp_visit_entry [OF env rel]) (use Cons.prems nk in auto)
  show ?case
    unfolding list.map nk fst_conv visit_entries.simps wp_bind
  proof (rule wp_mono [OF one])
    fix kids and t :: "'a scan_state"
    assume t: "kids = entry_kids (se_upper env) ig sub p rel (n, k) \<and> visited_all env volume ig rel [(n, k)] s t"
    have "wp (visit_entries env volume ig rel (map (\<lambda>nk. entry_of sub p (fst nk)) nks))
      (\<lambda>kids t'. kids = concat (map (entry_kids (se_upper env) ig sub p rel) nks)
         \<and> visited_all env volume ig rel nks t t') (\<lambda>_ _. False) t"
      by (rule Cons.IH) (use Cons.prems nk t in \<open>auto simp: visited_all_def\<close>)
    then show "wp (visit_entries env volume ig rel (map (\<lambda>nk. entry_of sub p (fst nk)) nks))
       (\<lambda>more. wp (returnS (kids @ more))
          (\<lambda>kids t. kids = concat (entry_kids (se_upper env) ig sub p rel (n, k) # map (entry_kids (se_upper env) ig sub p rel) nks)
             \<and> visited_all env volume ig rel ((n, k) # nks) s t) (\<lambda>_ _. False)) (\<lambda>_ _. False) t"
      by (rule wp_mono) (use t in \<open>auto simp: wp_return intro: visited_all_Cons\<close>)
  qed simp
qed

lemma sort_key_map: "sort_key f (map g xs) = map g (sort_key (f \<circ> g) xs)"
proof (induction xs)
  case (Cons x xs)
  have "insort_key f (g x) (map g ys) = map g (insort_key (f \<circ> g) x ys)" for ys
    by (induction ys) auto
  then show ?case using Cons by (simp add: comp_def)
qed simp

lemma wp_visit_directory:
  assumes env: "still_env env" and rel: "rel = [] \<or> canonical (se_upper env) rel"
    and node: "serves env sub p (Folder st kids)" "listable volume (Folder st kids)"
    and ids: "distinct (concat (map (\<lambda>nk. own_ids volume (snd nk)) kids))"
      "set (concat (map (\<lambda>nk. own_ids volume (snd nk)) kids)) \<inter> set (sc_visited s) = {}"
  shows "wp (visit_directory env volume ig p rel)
      (\<lambda>ks t. \<exists>nks. mset nks = mset kids \<and> ks = concat (map (entry_kids (se_upper env) ig sub p rel) nks)
         \<and> visited_all env volume ig rel nks s t) (\<lambda>_ _. False) s"
proof -
  let ?es = "map (\<lambda>nk. entry_of sub p (fst nk)) kids"
  have read: "wp (read_entries env (map Inr es)) Q E t = Q (es, None) t" for es Q E and t :: "'a scan_state"
    by (induction es arbitrary: Q) (simp_all add: wp_return wp_try_else wp_checkpoint [OF env] wp_bind case_prod_unfold)
  have enum: "wp (enumerate_directory env p) Q E t = Q (?es, None) t" for Q E t
  proof -
    have "wp (backend (se_scandir env p)) Q' E' t = Q' (map Inr ?es) t" for Q' E'
      using node(1) by (intro wp_answer) (simp add: o_def)
    then show ?thesis by (simp add: enumerate_directory_def wp_try_else read del: map_map)
  qed
  define nks where "nks = sort_key (entry_sort_key (se_upper env) \<circ> (\<lambda>nk. entry_of sub p (fst nk))) kids"
  have perm: "mset nks = mset kids" by (simp add: nks_def)
  then have set: "set nks = set kids" by (metis mset_eq_setD)
  have concat: "mset (concat (map f nks)) = mset (concat (map f kids))" for f :: "pystr \<times> fs_node \<Rightarrow> 'b list"
    using perm by (simp add: mset_concat flip: mset_map) (metis mset_map sum_mset_sum_list)
  have "wp (visit_entries env volume ig rel (map (\<lambda>nk. entry_of sub p (fst nk)) nks))
      (\<lambda>ks t. ks = concat (map (entry_kids (se_upper env) ig sub p rel) nks)
         \<and> visited_all env volume ig rel nks s t) (\<lambda>_ _. False) s"
  proof (rule wp_visit_entries [OF env rel])
    show "list_all (\<lambda>nk. listable volume (snd nk) \<and> answers_entry env (entry_of sub p (fst nk)) (snd nk)) nks"
      using node set by (auto simp: list_all_iff)
    show "distinct (concat (map (\<lambda>nk. own_ids volume (snd nk)) nks))"
      using ids(1) by (simp only: mset_eq_imp_distinct_iff [OF concat])
    show "set (concat (map (\<lambda>nk. own_ids volume (snd nk)) nks)) \<inter> set (sc_visited s) = {}"
      using ids(2) by (simp add: set)
  qed
  then have "wp (visit_entries env volume ig rel (sort_key (entry_sort_key (se_upper env)) ?es))
      (\<lambda>ks t. \<exists>nks. mset nks = mset kids \<and> ks = concat (map (entry_kids (se_upper env) ig sub p rel) nks)
         \<and> visited_all env volume ig rel nks s t) (\<lambda>_ _. False) s"
    unfolding sort_key_map nks_def [symmetric] by (rule wp_mono) (use perm in auto)
  then show ?thesis
    by (simp add: visit_directory_def wp_then wp_bind wp_checkpoint [OF env] enum wp_return)
qed

section \<open>The walk\<close>

text \<open>A pending directory is its path, its relative path and its node.\<close>

type_synonym pending = "pystr \<times> pystr \<times> fs_node"

definition pending_ok :: "'w scan_env \<Rightarrow> (pystr \<Rightarrow> pystr \<Rightarrow> pystr) \<Rightarrow> volume_snapshot \<Rightarrow> pending \<Rightarrow> bool" where
  "pending_ok env sub volume pd \<longleftrightarrow> (case pd of (p, rel, k) \<Rightarrow>
     is_folder k \<and> serves env sub p k \<and> listable volume k \<and> (rel = [] \<or> canonical (se_upper env) rel))"

definition pending_ids :: "volume_snapshot \<Rightarrow> pending list \<Rightarrow> file_identity list" where
  "pending_ids volume pds = concat (map (\<lambda>pd. ids_below volume (snd (snd pd))) pds)"

definition pending_kids ::
    "upper \<Rightarrow> ignore_set \<Rightarrow> (pystr \<Rightarrow> pystr \<Rightarrow> pystr) \<Rightarrow> pystr \<Rightarrow> pystr \<Rightarrow> pystr \<times> fs_node \<Rightarrow> pending list" where
  "pending_kids up ig sub p rel nk =
     (case placed up ig rel (fst nk) (snd nk) of
        None \<Rightarrow> []
      | Some path \<Rightarrow> if is_folder (snd nk) then [(sub p (fst nk), path, snd nk)] else [])"

lemma entry_kids_pending: "entry_kids up ig sub p rel nk = map (\<lambda>(p, rel, _). (p, rel)) (pending_kids up ig sub p rel nk)"
  by (simp add: entry_kids_def pending_kids_def split: option.split)

definition fuel_of :: "pending list \<Rightarrow> nat" where
  "fuel_of pds = sum_list (map (\<lambda>pd. folders (snd (snd pd))) pds)"

text \<open>What is listed below the pending directories.\<close>

definition listing ::
    "'w scan_env \<Rightarrow> volume_snapshot \<Rightarrow> ignore_set \<Rightarrow> pending list \<Rightarrow> 'w scan_state \<Rightarrow> 'w scan_state \<Rightarrow> bool" where
  "listing env volume ig pds s t \<longleftrightarrow>
     mset (sc_files t) = mset (sc_files s)
       + mset (concat (map (\<lambda>(p, rel, k). listed_files (se_upper env) volume ig rel k) pds))
     \<and> mset (sc_directories t) = mset (sc_directories s)
       + mset (concat (map (\<lambda>(p, rel, k). listed_dirs (se_upper env) volume ig rel k) pds))
     \<and> (sc_complete t \<longleftrightarrow> sc_complete s \<and> list_all (\<lambda>(p, rel, k). all_clean (se_upper env) ig rel k) pds)
     \<and> sc_world t = sc_world s"

lemma mset_concat_perm: "mset xs = mset ys \<Longrightarrow> mset (concat (map f xs)) = mset (concat (map f ys))"
  by (simp add: mset_concat flip: mset_map) (metis mset_map sum_mset_sum_list)

lemma mset_concat_append: "mset (concat (map (\<lambda>x. f x @ g x) xs)) = mset (concat (map f xs)) + mset (concat (map g xs))"
  by (induction xs) auto

lemma placed_not_folder: "\<not> is_folder k \<Longrightarrow> listed_files up volume ig path k = [] \<and> listed_dirs up volume ig path k = []
    \<and> all_clean up ig path k \<and> folders k = 0 \<and> ids_below volume k = []"
  by (cases k) simp_all

text \<open>Visiting a directory and then its subdirectories lists what is below it.\<close>

lemma listing_step:
  assumes "mset nks = mset kids" "visited_all env volume ig rel nks s t"
    and "listing env volume ig (concat (map (pending_kids (se_upper env) ig sub p rel) nks) @ pds) t u"
  shows "listing env volume ig ((p, rel, Folder st kids) # pds) s u"
proof -
  let ?up = "se_upper env"
  have files: "concat (map (\<lambda>(p, rel, k). listed_files ?up volume ig rel k) (pending_kids ?up ig sub p rel nk))
      = (case placed ?up ig rel (fst nk) (snd nk) of None \<Rightarrow> [] | Some path \<Rightarrow> listed_files ?up volume ig path (snd nk))"
    and dirs: "concat (map (\<lambda>(p, rel, k). listed_dirs ?up volume ig rel k) (pending_kids ?up ig sub p rel nk))
      = (case placed ?up ig rel (fst nk) (snd nk) of None \<Rightarrow> [] | Some path \<Rightarrow> listed_dirs ?up volume ig path (snd nk))"
    and clean: "list_all (\<lambda>(p, rel, k). all_clean ?up ig rel k) (pending_kids ?up ig sub p rel nk)
      = (case placed ?up ig rel (fst nk) (snd nk) of None \<Rightarrow> True | Some path \<Rightarrow> all_clean ?up ig path (snd nk))"
    for nk
    using placed_not_folder by (auto simp: pending_kids_def split: option.split)
  have concat_concat: "concat (map f (concat (map g nks))) = concat (map (\<lambda>x. concat (map f (g x))) nks)"
    for f :: "pending \<Rightarrow> 'b list" and g :: "pystr \<times> fs_node \<Rightarrow> pending list"
    by (induction nks) auto
  have set: "set nks = set kids" using assms(1) by (metis mset_eq_setD)
  have F: "mset (listed_files ?up volume ig rel (Folder st kids))
      = mset (concat (map (entry_files ?up volume ig rel) nks))
        + mset (concat (map (\<lambda>(p, rel, k). listed_files ?up volume ig rel k) (concat (map (pending_kids ?up ig sub p rel) nks))))"
    unfolding concat_concat files mset_concat_append [symmetric]
    by (subst mset_concat_perm [OF assms(1)]) (simp add: case_prod_unfold)
  have D: "mset (listed_dirs ?up volume ig rel (Folder st kids))
      = mset (concat (map (entry_dirs ?up volume ig rel) nks))
        + mset (concat (map (\<lambda>(p, rel, k). listed_dirs ?up volume ig rel k) (concat (map (pending_kids ?up ig sub p rel) nks))))"
    unfolding concat_concat dirs mset_concat_append [symmetric]
    by (subst mset_concat_perm [OF assms(1)]) (simp add: case_prod_unfold)
  have "list_all P (concat xss) = list_all (list_all P) xss" for P and xss :: "pending list list"
    by (induction xss) auto
  then have C: "all_clean ?up ig rel (Folder st kids) \<longleftrightarrow> list_all (entry_clean ?up ig rel) nks
      \<and> list_all (\<lambda>(p, rel, k). all_clean ?up ig rel k) (concat (map (pending_kids ?up ig sub p rel) nks))"
    by (auto simp: list_all_iff [of _ nks] list_all_iff [of _ "map f nks" for f] clean [unfolded case_prod_unfold] set case_prod_unfold)
  show ?thesis
    using assms(2,3) unfolding listing_def visited_all_def
    by (auto simp: F D C simp del: listed_files.simps listed_dirs.simps all_clean.simps)
qed

lemma pending_ids_append: "pending_ids volume (xs @ ys) = pending_ids volume xs @ pending_ids volume ys"
  by (simp add: pending_ids_def)

lemma pending_kids_ids: "set (pending_ids volume (pending_kids up ig sub p rel nk)) \<subseteq> set (ids_below volume (snd nk))
    \<and> (distinct (ids_below volume (snd nk)) \<longrightarrow> distinct (pending_ids volume (pending_kids up ig sub p rel nk)))"
  by (auto simp: pending_kids_def pending_ids_def split: option.splits)

lemma kids_ids:
  assumes "distinct (concat (map (\<lambda>nk. own_ids volume (snd nk) @ ids_below volume (snd nk)) nks))"
  shows "distinct (concat (map (\<lambda>nk. own_ids volume (snd nk)) nks))
    \<and> distinct (pending_ids volume (concat (map (pending_kids up ig sub p rel) nks)))
    \<and> set (concat (map (\<lambda>nk. own_ids volume (snd nk)) nks))
        \<inter> set (pending_ids volume (concat (map (pending_kids up ig sub p rel) nks))) = {}
    \<and> set (concat (map (\<lambda>nk. own_ids volume (snd nk)) nks))
        \<union> set (pending_ids volume (concat (map (pending_kids up ig sub p rel) nks)))
        \<subseteq> set (concat (map (\<lambda>nk. own_ids volume (snd nk) @ ids_below volume (snd nk)) nks))"
  using assms
proof (induction nks)
  case Nil
  then show ?case by (simp add: pending_ids_def)
next
  case (Cons nk nks)
  let ?own = "set (own_ids volume (snd nk))" and ?below = "set (ids_below volume (snd nk))"
  let ?new = "pending_ids volume (pending_kids up ig sub p rel nk)"
  let ?rest = "concat (map (\<lambda>nk. own_ids volume (snd nk) @ ids_below volume (snd nk)) nks)"
  let ?owns = "concat (map (\<lambda>nk. own_ids volume (snd nk)) nks)"
  let ?news = "pending_ids volume (concat (map (pending_kids up ig sub p rel) nks))"
  have ids: "distinct (own_ids volume (snd nk))" "distinct (ids_below volume (snd nk))" "?own \<inter> ?below = {}"
    "distinct ?rest" "(?own \<union> ?below) \<inter> set ?rest = {}"
    using Cons.prems by auto
  have rest: "distinct ?owns" "distinct ?news" "set ?owns \<inter> set ?news = {}" "set ?owns \<union> set ?news \<subseteq> set ?rest"
    using Cons.IH [OF ids(4)] by blast+
  have new: "set ?new \<subseteq> ?below" "distinct ?new"
    using pending_kids_ids [of volume up ig sub p rel nk] ids(2) by blast+
  show ?case
    unfolding list.map concat.simps pending_ids_append set_append distinct_append
    using ids rest new by (intro conjI) blast+
qed

lemma fuel_append: "fuel_of (xs @ ys) = fuel_of xs + fuel_of ys"
  by (simp add: fuel_of_def)

lemma fuel_kids:
  assumes "mset nks = mset kids"
  shows "fuel_of (concat (map (pending_kids up ig sub p rel) nks)) < folders (Folder st kids)"
proof -
  have one: "fuel_of (pending_kids up ig sub p rel nk) \<le> folders (snd nk)" for nk
    by (simp add: pending_kids_def fuel_of_def split: option.split)
  have "fuel_of (concat (map (pending_kids up ig sub p rel) nks)) \<le> sum_list (map (\<lambda>nk. folders (snd nk)) nks)"
  proof (induction nks)
    case (Cons nk nks)
    then show ?case using one [of nk]
      by (simp add: fuel_append)
  qed (simp add: fuel_of_def)
  also have "\<dots> = sum_list (map (\<lambda>nk. folders (snd nk)) kids)"
  proof -
    have "mset (map (\<lambda>nk. folders (snd nk)) nks) = mset (map (\<lambda>nk. folders (snd nk)) kids)" using assms by simp
    then show ?thesis by (metis sum_mset_sum_list)
  qed
  finally show ?thesis by (simp add: case_prod_unfold)
qed

lemma pending_kids_ok:
  assumes "upper_laws (se_upper env)" "serves env sub p (Folder st kids)" "listable volume (Folder st kids)"
    "nk \<in> set kids" "pd \<in> set (pending_kids (se_upper env) ig sub p rel nk)"
  shows "pending_ok env sub volume pd"
proof -
  obtain path where path: "placed (se_upper env) ig rel (fst nk) (snd nk) = Some path" "is_folder (snd nk)"
    "pd = (sub p (fst nk), path, snd nk)"
    using assms(5)
    by (cases "placed (se_upper env) ig rel (fst nk) (snd nk)") (auto simp: pending_kids_def split: if_splits)
  then have "canonical (se_upper env) path"
    using canonical_validated [OF assms(1)] by (auto simp: placed_def split: sum.splits if_splits)
  with path assms(2-4) show ?thesis by (auto simp: pending_ok_def)
qed

lemma wp_walk:
  assumes env: "still_env env"
  shows "list_all (pending_ok env sub volume) pds \<Longrightarrow> fuel_of pds \<le> n \<Longrightarrow> distinct (pending_ids volume pds) \<Longrightarrow>
    set (pending_ids volume pds) \<inter> set (sc_visited s) = {} \<Longrightarrow>
    wp (walk n env volume ig (map (\<lambda>(p, rel, _). (p, rel)) pds))
      (\<lambda>finished t. finished \<and> listing env volume ig pds s t) (\<lambda>_ _. False) s"
proof (induction n arbitrary: pds s)
  case 0
  then have "pds = []"
    by (cases pds; cases "snd (snd (hd pds))") (auto simp: pending_ok_def fuel_of_def)
  then show ?case by (simp add: wp_return listing_def)
next
  case (Suc n)
  show ?case
  proof (cases pds)
    case Nil
    then show ?thesis by (simp add: wp_return listing_def)
  next
    case (Cons pd rest)
    obtain p rel st kids where pd: "pd = (p, rel, Folder st kids)"
      using Suc.prems(1) Cons by (cases pd; cases "snd (snd pd)") (auto simp: pending_ok_def)
    have ok: "serves env sub p (Folder st kids)" "listable volume (Folder st kids)" "rel = [] \<or> canonical (se_upper env) rel"
      "list_all (pending_ok env sub volume) rest"
      using Suc.prems(1) unfolding Cons pd list.pred_inject(2) by (simp_all only: pending_ok_def [of _ _ _ "(_, _)"] prod.case)
    have up: "upper_laws (se_upper env)" using env by (simp add: still_env_def)
    let ?up = "se_upper env"
    let ?all = "\<lambda>nks. concat (map (\<lambda>nk. own_ids volume (snd nk) @ ids_below volume (snd nk)) nks)"
    have ids: "pending_ids volume pds = ?all kids @ pending_ids volume rest"
      by (simp add: Cons pd pending_ids_def case_prod_unfold)
    have kids: "distinct (?all kids)" "distinct (pending_ids volume rest)"
      "set (?all kids) \<inter> set (pending_ids volume rest) = {}" "set (?all kids) \<inter> set (sc_visited s) = {}"
      "set (pending_ids volume rest) \<inter> set (sc_visited s) = {}"
      using Suc.prems(3,4) unfolding ids by auto
    have dir: "wp (visit_directory env volume ig p rel)
      (\<lambda>ks t. \<exists>nks. mset nks = mset kids \<and> ks = concat (map (entry_kids ?up ig sub p rel) nks)
         \<and> visited_all env volume ig rel nks s t) (\<lambda>_ _. False) s"
      using kids_ids [OF kids(1)] kids(4) by (intro wp_visit_directory [OF env ok(3,1,2)]) blast+
    have next_step: "wp (walk n env volume ig (ks @ map (\<lambda>(p, rel, _). (p, rel)) rest))
        (\<lambda>finished t. finished \<and> listing env volume ig pds s t) (\<lambda>_ _. False) t"
      if nks: "mset nks = mset kids" "ks = concat (map (entry_kids ?up ig sub p rel) nks)"
        "visited_all env volume ig rel nks s t" for ks nks t
    proof -
      let ?new = "concat (map (pending_kids ?up ig sub p rel) nks)"
      have all: "distinct (?all nks)" "set (?all nks) = set (?all kids)" "set nks = set kids"
        using kids(1) mset_eq_imp_distinct_iff [OF mset_concat_perm [OF nks(1)]] nks(1)
        by (auto dest: mset_eq_setD)
      note new = kids_ids [OF all(1), of ?up ig sub p rel]
      have ks: "ks @ map (\<lambda>(p, rel, _). (p, rel)) rest = map (\<lambda>(p, rel, _). (p, rel)) (?new @ rest)"
        by (simp add: nks(2) entry_kids_pending [abs_def] map_concat comp_def)
      have "wp (walk n env volume ig (map (\<lambda>(p, rel, _). (p, rel)) (?new @ rest)))
          (\<lambda>finished u. finished \<and> listing env volume ig (?new @ rest) t u) (\<lambda>_ _. False) t"
      proof (rule Suc.IH)
        show "list_all (pending_ok env sub volume) (?new @ rest)"
          using ok(4) pending_kids_ok [OF up ok(1,2)] all(3) by (fastforce simp: list_all_iff)
        show "fuel_of (?new @ rest) \<le> n"
          using fuel_kids [OF nks(1), of ?up ig sub p rel st] Suc.prems(2) Cons pd
          by (simp add: fuel_append) (simp add: fuel_of_def)
        show "distinct (pending_ids volume (?new @ rest))"
          using new kids(2,3) all(2) unfolding pending_ids_append distinct_append by blast
        have "set (sc_visited t) \<subseteq> set (sc_visited s) \<union> set (concat (map (\<lambda>nk. own_ids volume (snd nk)) nks))"
          using nks(3) by (simp add: visited_all_def)
        then show "set (pending_ids volume (?new @ rest)) \<inter> set (sc_visited t) = {}"
          using new kids(3,4,5) all(2) unfolding pending_ids_append set_append by blast
      qed
      then show ?thesis
        unfolding ks by (rule wp_mono) (auto simp: Cons pd intro: listing_step [OF nks(1,3)])
    qed
    show ?thesis
      unfolding Cons pd list.map prod.case walk.simps wp_bind
      by (rule wp_mono [OF dir]) (use next_step in \<open>auto simp: Cons pd\<close>)
  qed
qed

section \<open>The reports\<close>

lemma collected_named:
  assumes "collected up ig s" "p \<in> snd ` set (keyed_paths s) \<or> p \<in> snd ` set (identified_paths s) \<or> p \<in> fr_rel_path ` set (sc_files s)"
  shows "named up (Some p)"
proof -
  have "ok (validate_relative_path up True p)" if "ok (validate_relative_path up False p)" for p
    using that validate_root by (cases "validate_relative_path up False p") auto
  then have "ok (validate_relative_path up True (fr_rel_path r))" if "good_file up ig r" for r
    using that by (auto simp: good_file_def file_record_post_init_def bindE_eq_Inr)
  moreover have "ok (validate_relative_path up True (dr_rel_path r))" if "good_directory up ig r" for r
    using that by (auto simp: good_directory_def dir_record_post_init_def bindE_eq_Inr)
  moreover have "ok (validate_relative_path up True (ur_rel_path r))" if "good_unsupported up r" for r
    using that \<open>\<And>p. ok (validate_relative_path up False p) \<Longrightarrow> ok (validate_relative_path up True p)\<close>
    by (auto simp: good_unsupported_def unsupported_record_post_init_def bindE_eq_Inr)
  ultimately show ?thesis
    using assms
    by (auto simp: named_def collected_def list_all_iff keyed_paths_def identified_paths_def List.map_filter_def)
qed

lemma groups_of_snd: "g \<in> set (groups_of kvs) \<Longrightarrow> set g \<subseteq> snd ` set kvs"
  by (auto simp: groups_of_def)

lemma sorted_hd_in: "1 < length (sorted_list_of_set (set g)) \<Longrightarrow> hd (sorted_list_of_set (set g)) \<in> set g"
  by (metis List.finite_set hd_in_set length_0_conv not_one_less_zero set_sorted_list_of_set)

definition reported :: "upper \<Rightarrow> ignore_set \<Rightarrow> 'w scan_state \<Rightarrow> 'w scan_state \<Rightarrow> bool" where
  "reported up ig s t \<longleftrightarrow> reports s t \<and> collected up ig t \<and> sc_world t = sc_world s"

lemma reported_warn:
  assumes "reported (se_upper env) ig s t" "named (se_upper env) p"
  shows "wp (warn env code p x) (\<lambda>_ u. reported (se_upper env) ig s u \<and> sc_complete u = sc_complete t) (\<lambda>_ _. False) t"
proof -
  have "good_warning (se_upper env) \<lparr>sw_code = code, sw_rel_path = p, sw_detail = x\<rparr>"
    using assms(2) by (cases p; cases "validate_relative_path (se_upper env) True (the p)")
      (auto simp: good_warning_def scan_warning_post_init_def named_def)
  then show ?thesis
    using assms by (auto simp: wp_warn reported_def reports_def collected_def)
qed

lemma wp_collisions_total:
  assumes "collected (se_upper env) ig s"
  shows "wp (append_collision_warnings env)
    (\<lambda>_ t. reported (se_upper env) ig s t \<and> (sc_complete t \<longleftrightarrow> sc_complete s \<and> collision_free (keyed_paths s)))
    (\<lambda>_ _. False) s"
proof (cases "collision_free (keyed_paths s)")
  case True
  have "wp (forS gs (warn_collision env)) Q E s = Q () s"
    if "\<forall>g \<in> set gs. length (sorted_list_of_set (set g)) \<le> 1" for gs Q E
    using that by (induction gs) (auto simp: wp_return wp_then warn_collision_def Let_def wp_when)
  with True assms show ?thesis
    by (simp add: append_collision_warnings_def wp_bind wp_read collision_free_groups reported_def reports_def)
next
  case False
  let ?I = "\<lambda>t. reported (se_upper env) ig s t"
  have one: "wp (warn_collision env g) (\<lambda>_. ?I) (\<lambda>_ _. False) t"
    if "g \<in> set (groups_of (keyed_paths s))" "?I t" for g t
  proof (cases "length (sorted_list_of_set (set g)) > 1")
    case True
    then have "hd (sorted_list_of_set (set g)) \<in> snd ` set (keyed_paths s)"
      using sorted_hd_in groups_of_snd [OF that(1)] by blast
    then have "named (se_upper env) (Some (hd (sorted_list_of_set (set g))))"
      using collected_named [OF assms] by blast
    with True show ?thesis
      by (simp add: warn_collision_def Let_def wp_when wp_then)
         (rule wp_mono [OF reported_warn [OF that(2)]],
          auto simp: incomplete_def wp_update reported_def reports_def collected_def)
  next
    case False
    with that show ?thesis by (simp add: warn_collision_def Let_def wp_when)
  qed
  have "wp (append_collision_warnings env) (\<lambda>_. ?I) (\<lambda>_ _. False) s"
    unfolding append_collision_warnings_def wp_bind wp_read
    by (rule wp_for [OF one]) (use assms in \<open>auto simp: reported_def reports_def\<close>)
  from wp_conj [OF this wp_collisions] show ?thesis
    by (rule wp_mono) (use False in \<open>auto dest: keyed_paths_reports\<close>)
qed

lemma wp_identities_total:
  assumes "collected (se_upper env) ig s"
  shows "wp (append_identity_warnings env)
    (\<lambda>_ t. reported (se_upper env) ig s t \<and> sc_complete t = sc_complete s) (\<lambda>_ _. False) s"
proof -
  let ?I = "\<lambda>t. reported (se_upper env) ig s t \<and> sc_complete t = sc_complete s"
  have warn: "wp (whenS b (warn env code (Some p) x)) (\<lambda>_. ?I) (\<lambda>_ _. False) t"
    if "?I t" "b \<Longrightarrow> named (se_upper env) (Some p)" for b code p x t
    using that by (auto simp: wp_when intro: wp_mono [OF reported_warn])
  have files: "wp (forS (sc_files s) (\<lambda>r. whenS (fr_nlink r > 1)
      (warn env W_MULTI_LINK (Some (fr_rel_path r)) (int_repr (fr_nlink r))))) (\<lambda>_. ?I) (\<lambda>_ _. False) s"
    by (rule wp_for [OF warn]) (use assms collected_named [OF assms] in \<open>auto simp: reported_def reports_def\<close>)
  have groups: "wp (forS (groups_of (identified_paths s)) (\<lambda>paths. whenS (length paths > 1)
      (warn env W_DUPLICATE_IDENTITY (Some (hd (sort paths))) (join_with (lit '' | '') (sort paths)))))
      (\<lambda>_. ?I) (\<lambda>_ _. False) t" if "?I t" for t
  proof (rule wp_for [OF warn])
    fix g and u :: "'a scan_state"
    assume "g \<in> set (groups_of (identified_paths s))" "length g > 1"
    then have "hd (sort g) \<in> snd ` set (identified_paths s)"
      using groups_of_snd [of g] hd_in_set [of "sort g"] by (metis length_0_conv length_sort not_one_less_zero set_sort subsetD)
    then show "named (se_upper env) (Some (hd (sort g)))" using collected_named [OF assms] by blast
  qed (use that in auto)
  show ?thesis
    unfolding append_identity_warnings_def wp_bind wp_read wp_then
    by (rule wp_mono [OF files]) (use groups in auto)
qed

lemma mapE_total: "(\<And>x. x \<in> set xs \<Longrightarrow> \<exists>y. f x = Inr y) \<Longrightarrow> \<exists>ys. mapE f xs = Inr ys"
proof (induction xs)
  case (Cons x xs)
  obtain y ys where "f x = Inr y" "mapE f xs = Inr ys" using Cons by fastforce
  then show ?case by simp
qed simp

lemma sort_warnings_total:
  assumes "list_all (good_warning up) ws"
  shows "\<exists>vs. sort_warnings up ws = Inr vs"
proof -
  have "\<exists>k. warning_sort_key up w = Inr k" if "good_warning up w" for w
    using that normalize_valid
    by (cases "sw_rel_path w") (fastforce simp: good_warning_def scan_warning_post_init_def warning_sort_key_def bindE_eq_Inr)+
  then have "\<exists>ks. mapE (warning_sort_key up) ws = Inr ks"
    using assms by (intro mapE_total) (simp add: list_all_iff)
  then show ?thesis by (auto simp: sort_warnings_def)
qed

lemma wp_result_total:
  assumes "collected (se_upper env) ig s"
  shows "wp (result_of_scan env volume rt ig' scope)
    (\<lambda>r _. mset (sr_files r) = mset (sc_files s) \<and> mset (sr_directories r) = mset (sc_directories s)
       \<and> sr_complete r = sc_complete s \<and> set (record_paths r) = set (keyed_paths s)) (\<lambda>_ _. False) s"
proof -
  obtain ws where "sort_warnings (se_upper env) (sc_warnings s) = Inr ws"
    using sort_warnings_total assms by (auto simp: collected_def)
  then show ?thesis
    by (auto simp: result_of_scan_def wp_bind wp_read wp_pure wp_return record_paths_def keyed_paths_def)
qed

section \<open>The scan\<close>

definition shows_tree ::
    "'w scan_env \<Rightarrow> (pystr \<Rightarrow> pystr \<Rightarrow> pystr) \<Rightarrow> pystr \<Rightarrow> volume_snapshot \<Rightarrow> fs_node \<Rightarrow> bool" where
  "shows_tree env sub p volume tree \<longleftrightarrow>
     still_env env \<and> is_folder tree \<and> listable volume tree \<and> serves env sub p tree
     \<and> distinct (own_ids volume tree @ ids_below volume tree)
     \<and> (\<forall>w. se_lstat env p w = (Inr (node_stat tree), w)) \<and> (\<forall>w. se_volume env p w = (Inr volume, w))"

lemma wp_scan_full:
  assumes tree: "shows_tree env sub p volume tree" and n: "folders tree \<le> n"
  shows "wp (scan_full n env volume ig p)
    (\<lambda>finished t. finished \<and> collected (se_upper env) ig t
       \<and> mset (sc_files t) = mset (listed_files (se_upper env) volume ig [] tree)
       \<and> mset (sc_directories t) = mset (dir_at (se_upper env) [] (raw_stat volume DIRECTORY (node_stat tree))
            # listed_dirs (se_upper env) volume ig [] tree)
       \<and> (sc_complete t \<longleftrightarrow> all_clean (se_upper env) ig [] tree)) (\<lambda>_ _. False) (scan_start w)"
proof -
  have env: "still_env env" and folder: "is_folder tree" and listable: "listable volume tree"
    using tree by (simp_all add: shows_tree_def)
  let ?up = "se_upper env"
  let ?root = "raw_stat volume DIRECTORY (node_stat tree)"
  have stat: "to_stat (node_stat tree) DIRECTORY volume = Inr ?root" "file_stat_post_init ?root = Inr ()"
    using listable_stat [OF listable] folder by (simp_all add: node_kind_def)
  have lstat: "wp (backend (se_lstat env p)) Q E t = Q (node_stat tree) t" for Q E t
    using tree by (intro wp_answer) (simp add: shows_tree_def)
  have key: "path_key ?up [] = []" by (simp add: path_key_def uppercase_one_codepoint_def canonical_separators_def)
  let ?s = "(scan_start w)\<lparr>sc_directories := [dir_at ?up [] ?root], sc_visited := own_ids volume tree\<rparr>"
  have own: "(case raw_identity volume (node_stat tree) of None \<Rightarrow> [] | Some i \<Rightarrow> [i]) = own_ids volume tree"
    using folder by (simp add: own_ids_def)
  have walk: "wp (walk n env volume ig (map (\<lambda>(p, rel, _). (p, rel)) [(p, [], tree)]))
      (\<lambda>finished t. finished \<and> listing env volume ig [(p, [], tree)] ?s t) (\<lambda>_ _. False) ?s"
    using tree n
    by (intro wp_walk [OF env])
       (auto simp: pending_ok_def fuel_of_def pending_ids_def shows_tree_def)
  have collect: "collects ?up ig (scan_full n env volume ig p)"
    unfolding scan_full_def by (auto intro!: collects_rules collects_walk)
  have start: "collected ?up ig (scan_start w)" by (simp add: collected_def scan_start_def)
  have "wp (scan_full n env volume ig p)
      (\<lambda>finished t. finished \<and> listing env volume ig [(p, [], tree)] ?s t) (\<lambda>_ _. False) (scan_start w)"
    using walk wp_add_directory [of "[]" env volume "node_stat tree"] stat(2)
    by (simp add: scan_full_def wp_try_else lstat wp_bind wp_pure stat(1) wp_then key wp_update
        raw_stat_identity own) (simp add: scan_start_def)
  from wp_conj [OF this wp_keeps [OF collect start]] show ?thesis
    by (rule wp_mono) (auto simp: listing_def scan_start_def)
qed

text \<open>C39: The scan is equivalent to a recursive reading of the tree: on a disk that does not change and
  in which no two directories share an identity, a full scan ends after as many turns of its loop as
  there are directories; it lists exactly the files and the directories that are valid, not ignored
  and reached through no reparse point, and it is complete exactly if nothing on the way was
  unrepresentable, a directory behind a reparse point or of unknown type and no two of its paths
  have the same comparison key.\<close>

theorem scan_lists_the_tree:
  assumes "shows_tree env sub resolved volume tree" "folders tree \<le> n"
    and "\<forall>w. se_resolve_root env (root_path rt) w = (Inr resolved, w)"
    and "ok (root_post_init (rt\<lparr>root_path := resolved\<rparr>))"
  shows "\<exists>r. scan n env rt ig None w = Inr (Some r)
    \<and> mset (sr_files r) = mset (listed_files (se_upper env) volume ig [] tree)
    \<and> mset (sr_directories r) = mset (dir_at (se_upper env) [] (raw_stat volume DIRECTORY (node_stat tree))
        # listed_dirs (se_upper env) volume ig [] tree)
    \<and> (sr_complete r \<longleftrightarrow> all_clean (se_upper env) ig [] tree \<and> collision_free (record_paths r))"
proof -
  let ?up = "se_upper env"
  let ?rt = "rt\<lparr>root_path := resolved\<rparr>"
  let ?Q = "\<lambda>r. mset (sr_files r) = mset (listed_files ?up volume ig [] tree)
    \<and> mset (sr_directories r) = mset (dir_at ?up [] (raw_stat volume DIRECTORY (node_stat tree))
        # listed_dirs ?up volume ig [] tree)
    \<and> (sr_complete r \<longleftrightarrow> all_clean ?up ig [] tree \<and> collision_free (record_paths r))"
  have finish: "wp (thenS (append_collision_warnings env) (thenS (append_identity_warnings env)
      (bindS (result_of_scan env volume ?rt ig scan_scope_full) (\<lambda>r. returnS (Some r)))))
     (\<lambda>r _. \<exists>r'. r = Some r' \<and> ?Q r') (\<lambda>_ _. False) s"
    if s: "collected ?up ig s" "mset (sc_files s) = mset (listed_files ?up volume ig [] tree)"
      "mset (sc_directories s) = mset (dir_at ?up [] (raw_stat volume DIRECTORY (node_stat tree))
        # listed_dirs ?up volume ig [] tree)" "sc_complete s \<longleftrightarrow> all_clean ?up ig [] tree" for s
    unfolding wp_then wp_bind wp_return
  proof (rule wp_mono [OF wp_collisions_total [OF s(1)]])
    fix t :: "'a scan_state"
    assume t: "reported ?up ig s t \<and> (sc_complete t \<longleftrightarrow> sc_complete s \<and> collision_free (keyed_paths s))"
    then have "collected ?up ig t" by (simp add: reported_def)
    then show "wp (append_identity_warnings env) (\<lambda>_. wp (result_of_scan env volume ?rt ig scan_scope_full)
        (\<lambda>r _. \<exists>r'. Some r = Some r' \<and> ?Q r') (\<lambda>_ _. False)) (\<lambda>_ _. False) t"
    proof (rule wp_mono [OF wp_identities_total])
      fix u :: "'a scan_state"
      assume u: "reported ?up ig t u \<and> sc_complete u = sc_complete t"
      have same: "keyed_paths u = keyed_paths s" "sc_files u = sc_files s" "sc_directories u = sc_directories s"
      proof -
        have "reports s t" "reports t u" using t u by (simp_all add: reported_def)
        then have "reports s u" by (rule reporting.trans)
        then show "keyed_paths u = keyed_paths s" "sc_files u = sc_files s" "sc_directories u = sc_directories s"
          by (simp_all add: reports_def keyed_paths_def)
      qed
      have "collected ?up ig u" using u by (simp add: reported_def)
      from wp_result_total [OF this] show "wp (result_of_scan env volume ?rt ig scan_scope_full)
          (\<lambda>r _. \<exists>r'. Some r = Some r' \<and> ?Q r') (\<lambda>_ _. False) u"
        by (rule wp_mono) (use t u same s in \<open>auto simp: collision_free_def\<close>)
    qed simp
  qed simp
  have resolve: "wp (backend (se_resolve_root env (root_path rt))) Q E s = Q resolved s" for Q E s
    using assms(3) by (intro wp_answer) simp
  have volume: "wp (backend (se_volume env resolved)) Q E s = Q volume s" for Q E s
    using assms(1) by (intro wp_answer) (simp add: shows_tree_def)
  have root: "root_post_init ?rt = Inr ()" using assms(4) by (cases "root_post_init ?rt") auto
  have "wp (scan_volume n env volume ?rt ig scan_scope_full) (\<lambda>r _. \<exists>r'. r = Some r' \<and> ?Q r') (\<lambda>_ _. False) (scan_start w)"
  proof -
    have full: "(scope_kind scan_scope_full = SCOPE_PATHS) = False" by (simp add: scan_scope_full_def)
    show ?thesis
      unfolding scan_volume_def full if_False wp_bind [of "scan_full n env volume ig p" for p]
    proof (rule wp_mono [OF wp_scan_full [where w = w and ig = ig, OF _ assms(2)]])
      show "shows_tree env sub (root_path ?rt) volume tree" using assms(1) by simp
    qed (use finish in simp_all)
  qed
  then have "wp (scan_effect n env rt ig None) (\<lambda>r _. \<exists>r'. r = Some r' \<and> ?Q r') (\<lambda>_ _. False) (scan_start w)"
    by (simp add: scan_effect_def Let_def wp_try_else resolve wp_then wp_pure root volume)
  then show ?thesis
    by (cases "scan_effect n env rt ig None (scan_start w)")
       (auto simp: scan_def wp_def split: sum.splits)
qed

section \<open>A tree with a directory and two files\<close>

definition small_stat :: "mode_kind \<Rightarrow> int \<Rightarrow> entry_stat" where
  "small_stat m ino = \<lparr>si_mode = m, si_size = 3, si_mtime_ns = 1000, si_ino = ino, si_nlink = 1,
     si_attributes = Some 0, si_birthtime_ns = None, si_ctime_ns = Some 5, si_reparse_tag = 0\<rparr>"

definition small_volume :: volume_snapshot where
  "small_volume = \<lparr>vs_volume_id = \<lparr>vol_serial = lit ''0A'', vol_fs_type = lit ''NTFS''\<rparr>,
     vs_evidence = \<lparr>ve_label = None, ve_device_id = None, ve_clone_ambiguous = False\<rparr>,
     vs_profile = \<lparr>cp_fs_type = lit ''NTFS'', mtime_granularity_ns = 100, stable_file_identity = True,
       incurs_seek_penalty = None, max_path = 32767, supports_ads = True, supports_hardlinks = True\<rparr>\<rparr>"

definition small_tree :: fs_node where
  "small_tree = Folder (small_stat DIRECTORY_MODE 1)
     [(lit ''d'', Folder (small_stat DIRECTORY_MODE 2) [(lit ''b'', Plain (small_stat REGULAR_MODE 3) True)]),
      (lit ''a'', Plain (small_stat REGULAR_MODE 4) True)]"

definition small_env :: "unit scan_env" where
  "small_env = \<lparr>se_upper = ascii_upper,
     se_os_path = \<lparr>osp_abspath = (\<lambda>p. p), osp_normcase = (\<lambda>p. p), osp_commonpath = (\<lambda>p q. Some q),
       osp_join = (\<lambda>p ps. p), osp_is_nt = True\<rparr>,
     se_resolve_root = (\<lambda>_. returnS (lit ''r'')), se_volume = (\<lambda>_. returnS small_volume),
     se_lstat = (\<lambda>p. returnS (if p = lit ''r'' then small_stat DIRECTORY_MODE 1
        else if p = lit ''rd'' then small_stat DIRECTORY_MODE 2
        else if p = lit ''rdb'' then small_stat REGULAR_MODE 3 else small_stat REGULAR_MODE 4)),
     se_scandir = (\<lambda>p. returnS (if p = lit ''r''
        then [Inr (entry_of (@) p (lit ''d'')), Inr (entry_of (@) p (lit ''a''))]
        else [Inr (entry_of (@) p (lit ''b''))])),
     se_is_dir = (\<lambda>e. returnS (sn_name e = lit ''d'')), se_is_file = (\<lambda>e. returnS (sn_name e \<noteq> lit ''d'')),
     se_stat = (\<lambda>e. returnS (if sn_name e = lit ''d'' then small_stat DIRECTORY_MODE 2
        else if sn_name e = lit ''b'' then small_stat REGULAR_MODE 3 else small_stat REGULAR_MODE 4)),
     se_checkpoint = returnS ()\<rparr>"

lemma small_tree_shown: "shows_tree small_env (@) (lit ''r'') small_volume small_tree"
  by (simp add: shows_tree_def still_env_def upper_laws_ascii small_env_def small_tree_def small_stat_def
      small_volume_def answers_entry_def entry_of_def returnS_def lit_def to_stat_def entry_identity_def
      own_ids_def raw_identity_def entry_attributes_def entry_created_ns_def file_identity_post_init_def
      metadata_post_init_def file_stat_post_init_def)

theorem scan_lists_the_tree_witness:
  "\<exists>r. scan 2 small_env \<lparr>root_path = lit ''x'', root_id = lit ''i''\<rparr> default_ignore_set None () = Inr (Some r)
    \<and> mset (map fr_rel_path (sr_files r)) = {#lit ''a'', lit ''d'' @ [backslash] @ lit ''b''#}"
proof -
  let ?rt = "\<lparr>root_path = lit ''x'', root_id = lit ''i''\<rparr>"
  obtain r where r: "scan 2 small_env ?rt default_ignore_set None () = Inr (Some r)"
    "mset (sr_files r) = mset (listed_files (se_upper small_env) small_volume default_ignore_set [] small_tree)"
    using scan_lists_the_tree [OF small_tree_shown, of 2 ?rt default_ignore_set "()"]
    by (auto simp: small_tree_def small_env_def returnS_def root_post_init_def lit_def)
  have "map fr_rel_path (listed_files (se_upper small_env) small_volume default_ignore_set [] small_tree)
      = [lit ''d'' @ [backslash] @ lit ''b'', lit ''a'']"
    by (simp add: small_env_def small_tree_def small_stat_def placed_def entry_files_def candidate_path_def
        file_at_def ignore_excludes_def default_ignore_set_def eval_path win_name_def win_parts_def
        owned_temp_run_id_def sync_trash_key_def is_placeholder_def is_reparse_def entry_attributes_def)
  moreover have "mset (map fr_rel_path (sr_files r))
      = mset (map fr_rel_path (listed_files (se_upper small_env) small_volume default_ignore_set [] small_tree))"
    using r(2) unfolding mset_map by (rule arg_cong)
  ultimately have "mset (map fr_rel_path (sr_files r)) = {#lit ''a'', lit ''d'' @ [backslash] @ lit ''b''#}"
    by (simp only: mset.simps add_mset_commute)
  then show ?thesis using r(1) by blast
qed

end
