(* ===== verification/Recording.thy ===== *)
theory Recording
  imports Planning Session
begin

text \<open>
  The typed commands at the boundary of the main ledger (\<^verbatim>\<open>core/recording.py\<close>) with the checks of
  their constructors.
\<close>

record host_command =
  hc_host_key :: pystr
  hc_display_name :: pystr
  hc_observed_at :: datetime

definition host_command_post_init :: "host_command \<Rightarrow> unit res" where
  "host_command_post_init c =
     bindE (raise_if (hc_host_key c = [] \<or> hc_display_name c = [])
       (ValueError ''host key and display name are required'')) (\<lambda>_.
     require_utc (hc_observed_at c))"

record volume_command =
  vc_volume_id :: volume_id
  vc_evidence :: volume_evidence
  vc_observed_at :: datetime

definition volume_command_post_init :: "volume_command \<Rightarrow> unit res" where
  "volume_command_post_init c = require_utc (vc_observed_at c)"

record location_command =
  lc_volume_row_id :: int
  lc_volume_relative_path :: pystr
  lc_observed_at :: datetime

definition location_command_post_init :: "location_command \<Rightarrow> unit res" where
  "location_command_post_init c =
     bindE (raise_if (lc_volume_row_id c < 1) (ValueError ''volume row id must be positive'')) (\<lambda>_.
     require_utc (lc_observed_at c))"

record mapping_command =
  mc_source_location_id :: int
  mc_target_location_id :: int
  mc_observed_at :: datetime

definition mapping_command_post_init :: "mapping_command \<Rightarrow> unit res" where
  "mapping_command_post_init c =
     bindE (raise_if (mc_source_location_id c < 1 \<or> mc_target_location_id c < 1)
       (ValueError ''mapping location ids must be positive'')) (\<lambda>_.
     bindE (raise_if (mc_source_location_id c = mc_target_location_id c)
       (ValueError ''mapping locations must be distinct'')) (\<lambda>_.
     require_utc (mc_observed_at c)))"

record sync_run_command =
  src_run_token :: pystr
  src_host_id :: int
  src_mapping_id :: int
  src_source_location_id :: int
  src_target_location_id :: int
  src_plan :: plan
  src_selection :: "op_id set"
  src_selection_digest :: bytes
  src_started_at :: datetime

definition sync_run_command_post_init :: "runtime \<Rightarrow> sync_run_command \<Rightarrow> unit res" where
  "sync_run_command_post_init rt c =
     bindE (raise_if (src_run_token c = []) (ValueError ''run token is required'')) (\<lambda>_.
     bindE (raise_if (Min {src_host_id c, src_mapping_id c, src_source_location_id c, src_target_location_id c} < 1)
       (ValueError ''run database ids must be positive'')) (\<lambda>_.
     bindE (raise_if (length (src_selection_digest c) \<noteq> 32)
       (ValueError ''selection digest must contain exactly 32 bytes'')) (\<lambda>_.
     bindE (raise_if (\<not> src_selection c \<subseteq> set (map po_op_id (pl_operations (src_plan c))))
       (ValueError ''run selection contains an unknown operation'')) (\<lambda>_.
     bindE (raise_if (selection_digest rt (src_selection c) \<noteq> src_selection_digest c)
       (ValueError ''selection digest does not match the selected operations'')) (\<lambda>_.
     require_utc (src_started_at c))))))"

record finish_run_command =
  fc_run_token :: pystr
  fc_status :: session_state
  fc_recording :: recording_status
  fc_ended_at :: datetime

definition finish_run_command_post_init :: "finish_run_command \<Rightarrow> unit res" where
  "finish_run_command_post_init c =
     bindE (raise_if (fc_run_token c = []) (ValueError ''run token is required'')) (\<lambda>_.
     bindE (raise_if (fc_status c \<notin> {ST_COMPLETED, ST_FAILED, ST_CANCELED, ST_REFUSED})
       (ValueError ''run finish status must be terminal'')) (\<lambda>_.
     require_utc (fc_ended_at c)))"

record inventory_command =
  ic_location_id :: int
  ic_host_id :: int
  ic_scan :: scan_result
  ic_scope_token :: pystr
  ic_observed_at :: datetime
  ic_online :: bool

definition inventory_command_post_init :: "inventory_command \<Rightarrow> unit res" where
  "inventory_command_post_init c =
     bindE (raise_if (ic_location_id c < 1 \<or> ic_host_id c < 1)
       (ValueError ''inventory database ids must be positive'')) (\<lambda>_.
     bindE (raise_if (ic_scope_token c = []) (ValueError ''inventory scope token is required'')) (\<lambda>_.
     require_utc (ic_observed_at c)))"

end
