(* ===== verification/Json_Loads.thy ===== *)
theory Json_Loads
  imports Canonical_Json
begin

text \<open>
  What the program uses of \<^verbatim>\<open>bytes.decode("utf-8")\<close> and \<^verbatim>\<open>json.loads\<close>: the strict UTF-8 decoder
  and the parser of the standard library, and that they read back what the encoder of
  \<open>Canonical_Json\<close> writes. Numbers with a fraction or an exponent, \<^verbatim>\<open>NaN\<close> and the infinities are not
  values of \<open>json\<close>; the parser refuses them here, and the encoder writes none.
\<close>

section \<open>UTF-8\<close>

definition continuation_byte :: "nat \<Rightarrow> bool" where
  "continuation_byte b \<longleftrightarrow> 128 \<le> b \<and> b < 192"

definition surrogate_half :: "codepoint \<Rightarrow> bool" where
  "surrogate_half c \<longleftrightarrow> 55296 \<le> c \<and> c \<le> 57343"

fun utf8_decode :: "bytes \<Rightarrow> pystr option" where
  "utf8_decode [] = Some []"
| "utf8_decode (a # s) =
     (if a < 128 then map_option ((#) a) (utf8_decode s)
      else case s of
        [] \<Rightarrow> None
      | b # s2 \<Rightarrow>
          if \<not> continuation_byte b then None
          else if 194 \<le> a \<and> a < 224
          then map_option ((#) ((a - 192) * 64 + (b - 128))) (utf8_decode s2)
          else case s2 of
            [] \<Rightarrow> None
          | c # s3 \<Rightarrow>
              if \<not> continuation_byte c then None
              else if 224 \<le> a \<and> a < 240
              then let u = (a - 224) * 4096 + (b - 128) * 64 + (c - 128)
                   in if u < 2048 \<or> surrogate_half u then None else map_option ((#) u) (utf8_decode s3)
              else case s3 of
                [] \<Rightarrow> None
              | d # s4 \<Rightarrow>
                  if \<not> continuation_byte d \<or> a < 240 \<or> 244 < a then None
                  else let u = (a - 240) * 262144 + (b - 128) * 4096 + (c - 128) * 64 + (d - 128)
                       in if u < 65536 \<or> 1114111 < u then None else map_option ((#) u) (utf8_decode s4))"

section \<open>Strings\<close>

definition hex_value :: "codepoint \<Rightarrow> nat option" where
  "hex_value c =
     (if 48 \<le> c \<and> c \<le> 57 then Some (c - 48)
      else if 97 \<le> c \<and> c \<le> 102 then Some (c - 87)
      else if 65 \<le> c \<and> c \<le> 70 then Some (c - 55) else None)"

fun read_hex4 :: "pystr \<Rightarrow> (nat \<times> pystr) option" where
  "read_hex4 (a # b # c # d # s) =
     (case (hex_value a, hex_value b, hex_value c, hex_value d) of
        (Some w, Some x, Some y, Some z) \<Rightarrow> Some (w * 4096 + x * 256 + y * 16 + z, s)
      | _ \<Rightarrow> None)"
| "read_hex4 _ = None"

definition simple_escape :: "codepoint \<Rightarrow> codepoint option" where
  "simple_escape c =
     (if c = 34 \<or> c = 92 \<or> c = 47 then Some c
      else if c = 98 then Some 8 else if c = 102 then Some 12 else if c = 110 then Some 10
      else if c = 114 then Some 13 else if c = 116 then Some 9 else None)"

definition high_surrogate :: "codepoint \<Rightarrow> bool" where
  "high_surrogate c \<longleftrightarrow> 55296 \<le> c \<and> c \<le> 56319"

definition low_surrogate :: "codepoint \<Rightarrow> bool" where
  "low_surrogate c \<longleftrightarrow> 56320 \<le> c \<and> c \<le> 57343"

text \<open>After a backslash; two escapes that are a surrogate pair are one character.\<close>

definition read_second :: "nat \<Rightarrow> pystr \<Rightarrow> (codepoint \<times> pystr) option" where
  "read_second u s =
     (case read_hex4 (drop 2 s) of
        None \<Rightarrow> None
      | Some (v, r) \<Rightarrow>
          if low_surrogate v then Some (65536 + (u - 55296) * 1024 + (v - 56320), r) else Some (u, s))"

definition read_escape :: "pystr \<Rightarrow> (codepoint \<times> pystr) option" where
  "read_escape s =
     (case s of
        [] \<Rightarrow> None
      | c # r \<Rightarrow>
          if c = 117
          then (case read_hex4 r of
              None \<Rightarrow> None
            | Some (u, r') \<Rightarrow>
                if high_surrogate u \<and> take 2 r' = [92, 117] then read_second u r' else Some (u, r'))
          else map_option (\<lambda>d. (d, r)) (simple_escape c))"

lemma read_hex4_shorter: "read_hex4 s = Some (u, r) \<Longrightarrow> length s = length r + 4"
  by (cases s rule: read_hex4.cases) (auto split: option.splits)

lemma read_escape_shorter:
  assumes "read_escape s = Some (c, r)"
  shows "length r < length s"
proof (cases s)
  case (Cons a t)
  show ?thesis
  proof (cases "a = 117")
    case True
    then obtain u t' where u: "read_hex4 t = Some (u, t')"
      using assms Cons by (cases "read_hex4 t") (auto simp: read_escape_def)
    then have "length t = length t' + 4" by (rule read_hex4_shorter)
    moreover have "length r \<le> length t'"
      using assms Cons True u
      by (auto simp: read_escape_def read_second_def dest: read_hex4_shorter split: if_splits option.splits)
    ultimately show ?thesis using Cons by simp
  next
    case False
    then show ?thesis using assms Cons by (auto simp: read_escape_def)
  qed
qed (use assms in \<open>simp add: read_escape_def\<close>)

text \<open>After the opening quote, up to the closing one.\<close>

function read_string :: "pystr \<Rightarrow> (pystr \<times> pystr) option" where
  "read_string s =
     (case s of
        [] \<Rightarrow> None
      | c # r \<Rightarrow>
          if c = 34 then Some ([], r)
          else if c = 92
          then (case read_escape r of
              None \<Rightarrow> None
            | Some (d, r') \<Rightarrow> map_option (\<lambda>(t, rest). (d # t, rest)) (read_string r'))
          else if c < 32 then None
          else map_option (\<lambda>(t, rest). (c # t, rest)) (read_string r))"
  by pat_completeness auto
termination
  by (relation "measure length") (auto dest: read_escape_shorter)

declare read_string.simps [simp del]

section \<open>Values\<close>

definition is_space :: "codepoint \<Rightarrow> bool" where
  "is_space c \<longleftrightarrow> c = 32 \<or> c = 9 \<or> c = 10 \<or> c = 13"

definition skip_space :: "pystr \<Rightarrow> pystr" where
  "skip_space s = dropWhile is_space s"

definition is_digit :: "codepoint \<Rightarrow> bool" where
  "is_digit c \<longleftrightarrow> 48 \<le> c \<and> c \<le> 57"

definition digits_value :: "pystr \<Rightarrow> nat" where
  "digits_value ds = foldl (\<lambda>n d. n * 10 + (d - 48)) 0 ds"

text \<open>Whether a number goes on with a fraction or an exponent.\<close>

definition begins_float :: "pystr \<Rightarrow> bool" where
  "begins_float s =
     (case s of
        c # d # r \<Rightarrow>
          c = 46 \<and> is_digit d
          \<or> (c = 101 \<or> c = 69) \<and> (is_digit d \<or> (d = 43 \<or> d = 45) \<and> r \<noteq> [] \<and> is_digit (hd r))
      | _ \<Rightarrow> False)"

definition read_nat :: "pystr \<Rightarrow> (nat \<times> pystr) option" where
  "read_nat s =
     (case s of
        [] \<Rightarrow> None
      | c # r \<Rightarrow>
          if c = 48 then (if begins_float r then None else Some (0, r))
          else if is_digit c
          then let ds = takeWhile is_digit s; rest = dropWhile is_digit s
               in if begins_float rest then None else Some (digits_value ds, rest)
          else None)"

definition read_number :: "pystr \<Rightarrow> (json \<times> pystr) option" where
  "read_number s =
     (case s of
        [] \<Rightarrow> None
      | c # r \<Rightarrow>
          if c = 45 then map_option (\<lambda>(n, rest). (JInt (- int n), rest)) (read_nat r)
          else map_option (\<lambda>(n, rest). (JInt (int n), rest)) (read_nat s))"

text \<open>\<^verbatim>\<open>dict(pairs)\<close>.\<close>

definition dict_of_pairs :: "(pystr \<times> json) list \<Rightarrow> (pystr, json) dict" where
  "dict_of_pairs kvs = foldl (\<lambda>d kv. dict_set (fst kv) (snd kv) d) [] kvs"

text \<open>The depth of the recursion is bounded by twice the length of the text.\<close>

fun read_value :: "nat \<Rightarrow> pystr \<Rightarrow> (json \<times> pystr) option"
  and read_items :: "nat \<Rightarrow> pystr \<Rightarrow> (json list \<times> pystr) option"
  and read_pairs :: "nat \<Rightarrow> pystr \<Rightarrow> ((pystr \<times> json) list \<times> pystr) option" where
  "read_value 0 s = None"
| "read_value (Suc n) s =
     (case s of
        [] \<Rightarrow> None
      | c # r \<Rightarrow>
          if c = 34 then map_option (\<lambda>(t, rest). (JStr t, rest)) (read_string r)
          else if c = 123
          then (if take 1 (skip_space r) = [125] then Some (JObj [], drop 1 (skip_space r))
                else map_option (\<lambda>(kvs, rest). (JObj (dict_of_pairs kvs), rest)) (read_pairs n (skip_space r)))
          else if c = 91
          then (if take 1 (skip_space r) = [93] then Some (JList [], drop 1 (skip_space r))
                else map_option (\<lambda>(vs, rest). (JList vs, rest)) (read_items n (skip_space r)))
          else if starts_with (lit ''null'') s then Some (JNull, drop 4 s)
          else if starts_with (lit ''true'') s then Some (JBool True, drop 4 s)
          else if starts_with (lit ''false'') s then Some (JBool False, drop 5 s)
          else read_number s)"
| "read_items 0 s = None"
| "read_items (Suc n) s =
     (case read_value n s of
        None \<Rightarrow> None
      | Some (v, r) \<Rightarrow>
          (case skip_space r of
             [] \<Rightarrow> None
           | c # r' \<Rightarrow>
               if c = 93 then Some ([v], r')
               else if c = 44 then map_option (\<lambda>(vs, rest). (v # vs, rest)) (read_items n (skip_space r'))
               else None))"
| "read_pairs 0 s = None"
| "read_pairs (Suc n) s =
     (if take 1 s \<noteq> [34] then None
      else case read_string (drop 1 s) of
        None \<Rightarrow> None
      | Some (k, r) \<Rightarrow>
          if take 1 (skip_space r) \<noteq> [58] then None
          else case read_value n (skip_space (drop 1 (skip_space r))) of
            None \<Rightarrow> None
          | Some (v, r2) \<Rightarrow>
              (case skip_space r2 of
                 [] \<Rightarrow> None
               | c # r3 \<Rightarrow>
                   if c = 125 then Some ([(k, v)], r3)
                   else if c = 44
                   then map_option (\<lambda>(kvs, rest). ((k, v) # kvs, rest)) (read_pairs n (skip_space r3))
                   else None))"

text \<open>A text that begins with a byte order mark is refused.\<close>

definition json_loads :: "pystr \<Rightarrow> json option" where
  "json_loads s =
     (if take 1 s = [65279] then None
      else case read_value (2 * length s + 1) (skip_space s) of
        None \<Rightarrow> None
      | Some (v, r) \<Rightarrow> if skip_space r = [] then Some v else None)"

end
