(* ===== verification/Payloads.thy ===== *)
theory Payloads
  imports Json_Loads Events Execution_Set
begin

text \<open>
  The versioned JSON payloads that the dispatcher stores without looking into them
  (\<^verbatim>\<open>workflows/payloads.py\<close>): encoders and decoders of plan requests and of execution requests with
  their reviewed plan, selection, status and commitment.
\<close>

section \<open>Requests\<close>

record plan_request =
  pq_request_id :: pystr
  pq_source_path :: pystr
  pq_target_path :: pystr
  pq_options :: sync_options

record execution_request =
  eq_execution_set :: execution_set
  eq_started_at :: "datetime option"

section \<open>Enumerations\<close>

fun entry_kind_value :: "entry_kind \<Rightarrow> pystr" where
  "entry_kind_value FILE = lit ''file''"
| "entry_kind_value DIRECTORY = lit ''directory''"

definition entry_kinds :: "entry_kind list" where
  "entry_kinds = [FILE, DIRECTORY]"

definition operation_kinds :: "operation_kind list" where
  "operation_kinds = [COPY, UPDATE, MOVE, MOVE_UPDATE, RECASE, MKDIR, TRASH, DELETE, NOOP]"

definition operation_reasons :: "operation_reason list" where
  "operation_reasons = [R_SOURCE_ONLY, R_METADATA_CHANGED, R_METADATA_MATCH, R_IDENTITY_RENAME,
     R_IDENTITY_RENAME_CHANGED, R_REQUIRED_DIRECTORY, R_EMPTY_DIRECTORY, R_TARGET_ONLY,
     R_DIRECTORY_CLEANUP, R_UNSUPPORTED, R_CASE_MISMATCH, R_UNICODE_NORMALIZATION_MISMATCH,
     R_CASE_COLLISION, R_TYPE_COLLISION, R_POLICY_COLLISION]"

definition blocked_reasons :: "blocked_reason list" where
  "blocked_reasons = [B_UNSUPPORTED, B_CASE_MISMATCH, B_CASE_COLLISION, B_TYPE_COLLISION,
     B_DESTINATION_COLLISION, B_BLOCKED_DEPENDENCY]"

definition deletion_policies :: "deletion_policy list" where
  "deletion_policies = [POLICY_TRASH, POLICY_ADDITIVE, POLICY_MIRROR]"

section \<open>Access\<close>

fun as_mapping :: "json \<Rightarrow> (pystr, json) dict res" where
  "as_mapping (JObj kvs) = Inr kvs"
| "as_mapping _ = Inl (ValueError ''workflow payload object is malformed'')"

fun as_list :: "json \<Rightarrow> json list res" where
  "as_list (JList vs) = Inr vs"
| "as_list _ = Inl (ValueError ''workflow payload list is malformed'')"

text \<open>\<^verbatim>\<open>str(item[k])\<close>, \<^verbatim>\<open>int(item[k])\<close>, \<^verbatim>\<open>bool(item[k])\<close>, \<^verbatim>\<open>_optional_str(item.get(k))\<close> and the like.\<close>

definition str_at :: "py_builtins \<Rightarrow> string \<Rightarrow> (pystr, json) dict \<Rightarrow> pystr res" where
  "str_at pb k d = bindE (get_item k d) (\<lambda>v. Inr (py_str pb v))"

definition int_at :: "py_builtins \<Rightarrow> string \<Rightarrow> (pystr, json) dict \<Rightarrow> int res" where
  "int_at pb k d = bindE (get_item k d) (py_int pb)"

definition bool_at :: "string \<Rightarrow> (pystr, json) dict \<Rightarrow> bool res" where
  "bool_at k d = bindE (get_item k d) (\<lambda>v. Inr (py_bool v))"

definition opt_str_at :: "py_builtins \<Rightarrow> string \<Rightarrow> (pystr, json) dict \<Rightarrow> pystr option" where
  "opt_str_at pb k d = optional_str pb (get_default k JNull d)"

definition mapping_at :: "string \<Rightarrow> (pystr, json) dict \<Rightarrow> (pystr, json) dict res" where
  "mapping_at k d = bindE (get_item k d) as_mapping"

definition list_at :: "string \<Rightarrow> (pystr, json) dict \<Rightarrow> json list res" where
  "list_at k d = bindE (get_item k d) as_list"

definition enum_at :: "py_builtins \<Rightarrow> ('e \<Rightarrow> pystr) \<Rightarrow> 'e list \<Rightarrow> string \<Rightarrow> (pystr, json) dict \<Rightarrow> 'e res" where
  "enum_at pb value_of members k d = bindE (str_at pb k d) (enum_of value_of members)"

text \<open>\<open>made\<close> returns a constructed value when its constructor accepts it.\<close>

definition made :: "('a \<Rightarrow> unit res) \<Rightarrow> 'a \<Rightarrow> 'a res" where
  "made post_init v = bindE (post_init v) (\<lambda>_. Inr v)"

section \<open>Volumes, profiles and stats\<close>

definition payload_volume :: "volume_id option \<Rightarrow> json" where
  "payload_volume = jopt volume_id_json"

definition decode_volume :: "py_builtins \<Rightarrow> json \<Rightarrow> volume_id option res" where
  "decode_volume pb v =
     (if v = JNull then Inr None
      else bindE (as_mapping v) (\<lambda>item.
        bindE (str_at pb ''serial'' item) (\<lambda>serial.
        bindE (str_at pb ''fs_type'' item) (\<lambda>fs_type.
        bindE (made volume_id_post_init \<lparr>vol_serial = serial, vol_fs_type = fs_type\<rparr>) (\<lambda>u. Inr (Some u))))))"

definition payload_evidence :: "volume_evidence option \<Rightarrow> json" where
  "payload_evidence = jopt volume_evidence_json"

definition decode_evidence :: "py_builtins \<Rightarrow> json \<Rightarrow> volume_evidence option res" where
  "decode_evidence pb v =
     (if v = JNull then Inr None
      else bindE (as_mapping v) (\<lambda>item.
        bindE (bool_at ''clone_ambiguous'' item) (\<lambda>ambiguous.
        Inr (Some \<lparr>ve_label = opt_str_at pb ''label'' item, ve_device_id = opt_str_at pb ''device_id'' item,
                  ve_clone_ambiguous = ambiguous\<rparr>))))"

definition payload_profile :: "capability_profile \<Rightarrow> json" where
  "payload_profile = capability_profile_json"

definition decode_profile :: "py_builtins \<Rightarrow> json \<Rightarrow> capability_profile res" where
  "decode_profile pb v =
     bindE (as_mapping v) (\<lambda>item.
     let seek = get_default ''incurs_seek_penalty'' JNull item in
     bindE (str_at pb ''fs_type'' item) (\<lambda>fs_type.
     bindE (int_at pb ''mtime_granularity_ns'' item) (\<lambda>granularity.
     bindE (bool_at ''stable_file_identity'' item) (\<lambda>stable.
     bindE (int_at pb ''max_path'' item) (\<lambda>maximum.
     bindE (bool_at ''supports_ads'' item) (\<lambda>ads.
     bindE (bool_at ''supports_hardlinks'' item) (\<lambda>hardlinks.
     made capability_profile_post_init
       \<lparr>cp_fs_type = fs_type, mtime_granularity_ns = granularity, stable_file_identity = stable,
        incurs_seek_penalty = (if seek = JNull then None else Some (py_bool seek)), max_path = maximum,
        supports_ads = ads, supports_hardlinks = hardlinks\<rparr>)))))))"

definition payload_metadata :: "metadata_snapshot \<Rightarrow> json" where
  "payload_metadata = metadata_json"

definition decode_metadata :: "py_builtins \<Rightarrow> (pystr, json) dict \<Rightarrow> metadata_snapshot res" where
  "decode_metadata pb item =
     bindE (int_at pb ''attributes'' item) (\<lambda>attrs.
     bindE (optional_int pb (get_default ''created_ns'' JNull item)) (\<lambda>created.
     made metadata_post_init \<lparr>attributes = attrs, created_ns = created\<rparr>))"

definition payload_stat :: "file_stat option \<Rightarrow> json" where
  "payload_stat = jopt (\<lambda>s. jobj
     [(''kind'', JStr (entry_kind_value (st_kind s))), (''size'', JInt (st_size s)),
      (''mtime_ns'', JInt (st_mtime_ns s)), (''identity'', jopt file_identity_json (st_identity s)),
      (''nlink'', JInt (st_nlink s)), (''metadata'', payload_metadata (st_metadata s))])"

definition decode_identity :: "py_builtins \<Rightarrow> json \<Rightarrow> file_identity option res" where
  "decode_identity pb v =
     (if v = JNull then Inr None
      else bindE (as_mapping v) (\<lambda>item.
        bindE (str_at pb ''volume_serial'' item) (\<lambda>serial.
        bindE (int_at pb ''file_index'' item) (\<lambda>index.
        bindE (made file_identity_post_init \<lparr>volume_serial = serial, file_index = index\<rparr>) (\<lambda>i. Inr (Some i))))))"

definition decode_stat :: "py_builtins \<Rightarrow> json \<Rightarrow> file_stat option res" where
  "decode_stat pb v =
     (if v = JNull then Inr None
      else bindE (as_mapping v) (\<lambda>item.
        bindE (decode_identity pb (get_default ''identity'' JNull item)) (\<lambda>identity.
        bindE (mapping_at ''metadata'' item) (\<lambda>metadata.
        bindE (enum_at pb entry_kind_value entry_kinds ''kind'' item) (\<lambda>kind.
        bindE (int_at pb ''size'' item) (\<lambda>n.
        bindE (int_at pb ''mtime_ns'' item) (\<lambda>mtime.
        bindE (int_at pb ''nlink'' item) (\<lambda>nlink.
        bindE (decode_metadata pb metadata) (\<lambda>meta.
        bindE (made file_stat_post_init
          \<lparr>st_kind = kind, st_size = n, st_mtime_ns = mtime, st_identity = identity, st_nlink = nlink,
           st_metadata = meta\<rparr>) (\<lambda>s. Inr (Some s)))))))))))"

section \<open>Operations\<close>

definition payload_operation :: "plan_operation \<Rightarrow> json" where
  "payload_operation op = jobj
     [(''op_id'', JStr (po_op_id op)), (''kind'', JStr (operation_kind_value (po_kind op))),
      (''source_rel_path'', jopt JStr (po_source op)), (''target_rel_path'', JStr (po_target op)),
      (''source_expected'', payload_stat (po_source_expected op)),
      (''target_expected'', payload_stat (po_target_expected op)),
      (''intended'', payload_stat (po_intended op)),
      (''prior_target_rel_path'', jopt JStr (po_prior_target op)),
      (''prior_target_expected'', payload_stat (po_prior_expected op)),
      (''metadata'', jopt payload_metadata (po_metadata op)),
      (''content_bytes'', JInt (po_content_bytes op)),
      (''dependencies'', JList (map JStr (po_dependencies op))),
      (''reason'', JStr (operation_reason_value (po_reason op))),
      (''blocked_reason'', jopt (\<lambda>b. JStr (blocked_reason_value b)) (po_blocked_reason op))]"

definition decode_optional_metadata :: "py_builtins \<Rightarrow> json \<Rightarrow> metadata_snapshot option res" where
  "decode_optional_metadata pb v =
     (if v = JNull then Inr None
      else bindE (as_mapping v) (\<lambda>item. bindE (decode_metadata pb item) (\<lambda>m. Inr (Some m))))"

definition decode_blocked :: "py_builtins \<Rightarrow> json \<Rightarrow> blocked_reason option res" where
  "decode_blocked pb v =
     (if v = JNull then Inr None
      else bindE (enum_of blocked_reason_value blocked_reasons (py_str pb v)) (\<lambda>b. Inr (Some b)))"

definition decode_operation :: "upper \<Rightarrow> py_builtins \<Rightarrow> json \<Rightarrow> plan_operation res" where
  "decode_operation up pb v =
     bindE (as_mapping v) (\<lambda>item.
     bindE (decode_optional_metadata pb (get_default ''metadata'' JNull item)) (\<lambda>metadata.
     bindE (str_at pb ''op_id'' item) (\<lambda>op_id.
     bindE (enum_at pb operation_kind_value operation_kinds ''kind'' item) (\<lambda>kind.
     bindE (str_at pb ''target_rel_path'' item) (\<lambda>target.
     bindE (decode_stat pb (get_default ''source_expected'' JNull item)) (\<lambda>source_expected.
     bindE (decode_stat pb (get_default ''target_expected'' JNull item)) (\<lambda>target_expected.
     bindE (decode_stat pb (get_default ''intended'' JNull item)) (\<lambda>intended.
     bindE (decode_stat pb (get_default ''prior_target_expected'' JNull item)) (\<lambda>prior_expected.
     bindE (int_at pb ''content_bytes'' item) (\<lambda>content_bytes.
     bindE (list_at ''dependencies'' item) (\<lambda>dependencies.
     bindE (enum_at pb operation_reason_value operation_reasons ''reason'' item) (\<lambda>reason.
     bindE (decode_blocked pb (get_default ''blocked_reason'' JNull item)) (\<lambda>blocked.
     made (plan_operation_post_init up)
       \<lparr>po_op_id = op_id, po_kind = kind, po_source = opt_str_at pb ''source_rel_path'' item,
        po_target = target, po_source_expected = source_expected, po_target_expected = target_expected,
        po_intended = intended, po_prior_target = opt_str_at pb ''prior_target_rel_path'' item,
        po_prior_expected = prior_expected, po_metadata = metadata, po_content_bytes = content_bytes,
        po_dependencies = map (py_str pb) dependencies, po_reason = reason,
        po_blocked_reason = blocked\<rparr>)))))))))))))"

section \<open>Plans\<close>

definition payload_root :: "root \<Rightarrow> json" where
  "payload_root = root_json"

definition decode_root :: "py_builtins \<Rightarrow> (pystr, json) dict \<Rightarrow> root res" where
  "decode_root pb item =
     bindE (str_at pb ''path'' item) (\<lambda>path.
     bindE (str_at pb ''root_id'' item) (\<lambda>i. made root_post_init \<lparr>root_path = path, root_id = i\<rparr>))"

definition payload_volumes :: "volume_id list \<Rightarrow> json" where
  "payload_volumes vs =
     JList (map (\<lambda>v. payload_volume (Some v)) (sort_key (\<lambda>v. (vol_serial v, vol_fs_type v)) vs))"

definition payload_plan :: "plan \<Rightarrow> json" where
  "payload_plan p = jobj
     [(''source_root'', payload_root (pl_source_root p)), (''target_root'', payload_root (pl_target_root p)),
      (''source_volume_id'', payload_volume (pl_source_volume_id p)),
      (''target_volume_id'', payload_volume (pl_target_volume_id p)),
      (''source_volume_evidence'', payload_evidence (pl_source_volume_evidence p)),
      (''target_volume_evidence'', payload_evidence (pl_target_volume_evidence p)),
      (''source_profile'', payload_profile (pl_source_profile p)),
      (''target_profile'', payload_profile (pl_target_profile p)),
      (''source_complete'', JBool (pl_source_complete p)), (''target_complete'', JBool (pl_target_complete p)),
      (''operations'', JList (map payload_operation (pl_operations p))),
      (''assignment'', assignment_json (pl_assignment p)),
      (''preservation'', preservation_json (pl_preservation p)),
      (''filters'', JList (map JStr (patterns (pl_filter_snapshot p)))),
      (''deletion_policy'', JStr (deletion_policy_value (pl_deletion_policy p))),
      (''trash_on_update'', JBool (pl_trash_on_update p)),
      (''policy_fingerprint'', JStr (pl_policy_fingerprint p)), (''worker_count'', JInt (pl_worker_count p)),
      (''required_volumes'', payload_volumes (pl_required_volumes p)),
      (''required_bytes'', JInt (pl_required_bytes p)), (''fingerprint'', JStr (pl_fingerprint p))]"

definition decode_assignment_item :: "upper \<Rightarrow> py_builtins \<Rightarrow> json \<Rightarrow> destination_assignment res" where
  "decode_assignment_item up pb v =
     bindE (as_mapping v) (\<lambda>item.
     bindE (str_at pb ''source_rel_path'' item) (\<lambda>source.
     bindE (str_at pb ''source_rel_path_key'' item) (\<lambda>source_key.
     bindE (str_at pb ''target_rel_path'' item) (\<lambda>target.
     bindE (str_at pb ''target_rel_path_key'' item) (\<lambda>target_key.
     made (destination_assignment_post_init up)
       \<lparr>da_source = source, da_source_key = source_key, da_target = target, da_target_key = target_key,
        da_group_id = opt_str_at pb ''group_id'' item, da_conflict = opt_str_at pb ''conflict'' item\<rparr>)))))"

definition decode_assignment :: "upper \<Rightarrow> py_builtins \<Rightarrow> (pystr, json) dict \<Rightarrow> assignment res" where
  "decode_assignment up pb item =
     bindE (str_at pb ''policy_name'' item) (\<lambda>name.
     bindE (str_at pb ''policy_version'' item) (\<lambda>version.
     bindE (list_at ''items'' item) (\<lambda>raw.
     bindE (mapE (decode_assignment_item up pb) raw) (\<lambda>items.
     Inr \<lparr>as_policy_name = name, as_policy_version = version, as_items = items\<rparr>))))"

definition decode_preservation :: "(pystr, json) dict \<Rightarrow> preservation_policy res" where
  "decode_preservation item =
     bindE (bool_at ''preserve_ads'' item) (\<lambda>ads.
     bindE (bool_at ''preserve_created'' item) (\<lambda>created.
     bindE (bool_at ''preserve_acl'' item) (\<lambda>acl.
     Inr \<lparr>preserve_ads = ads, preserve_created = created, preserve_acl = acl\<rparr>)))"

definition decode_filters :: "py_builtins \<Rightarrow> (pystr, json) dict \<Rightarrow> filter_set res" where
  "decode_filters pb item =
     bindE (list_at ''filters'' item) (\<lambda>raw. Inr (filter_set_post_init \<lparr>patterns = map (py_str pb) raw\<rparr>))"

text \<open>The frozen set is a list without repetition.\<close>

definition decode_volumes :: "py_builtins \<Rightarrow> json list \<Rightarrow> volume_id list res" where
  "decode_volumes pb raw =
     bindE (mapE (decode_volume pb) raw) (\<lambda>volumes. Inr (remdups (List.map_filter (\<lambda>v. v) volumes)))"

definition decode_plan :: "upper \<Rightarrow> py_builtins \<Rightarrow> json \<Rightarrow> plan res" where
  "decode_plan up pb v =
     bindE (as_mapping v) (\<lambda>item.
     bindE (mapping_at ''source_root'' item) (\<lambda>raw_source_root.
     bindE (mapping_at ''target_root'' item) (\<lambda>raw_target_root.
     bindE (mapping_at ''assignment'' item) (\<lambda>raw_assignment.
     bindE (mapping_at ''preservation'' item) (\<lambda>raw_preservation.
     bindE (bindE (list_at ''required_volumes'' item) (decode_volumes pb)) (\<lambda>required_volumes.
     bindE (decode_root pb raw_source_root) (\<lambda>source_root.
     bindE (decode_root pb raw_target_root) (\<lambda>target_root.
     bindE (decode_volume pb (get_default ''source_volume_id'' JNull item)) (\<lambda>source_volume.
     bindE (decode_volume pb (get_default ''target_volume_id'' JNull item)) (\<lambda>target_volume.
     bindE (decode_evidence pb (get_default ''source_volume_evidence'' JNull item)) (\<lambda>source_evidence.
     bindE (decode_evidence pb (get_default ''target_volume_evidence'' JNull item)) (\<lambda>target_evidence.
     bindE (bindE (get_item ''source_profile'' item) (decode_profile pb)) (\<lambda>source_profile.
     bindE (bindE (get_item ''target_profile'' item) (decode_profile pb)) (\<lambda>target_profile.
     bindE (bool_at ''source_complete'' item) (\<lambda>source_complete.
     bindE (bool_at ''target_complete'' item) (\<lambda>target_complete.
     bindE (bindE (list_at ''operations'' item) (mapE (decode_operation up pb))) (\<lambda>operations.
     bindE (decode_assignment up pb raw_assignment) (\<lambda>assignment.
     bindE (decode_preservation raw_preservation) (\<lambda>preservation.
     bindE (decode_filters pb item) (\<lambda>filters.
     bindE (enum_at pb deletion_policy_value deletion_policies ''deletion_policy'' item) (\<lambda>deletion.
     bindE (bool_at ''trash_on_update'' item) (\<lambda>trash_on_update.
     bindE (str_at pb ''policy_fingerprint'' item) (\<lambda>policy_fingerprint.
     bindE (int_at pb ''worker_count'' item) (\<lambda>worker_count.
     bindE (int_at pb ''required_bytes'' item) (\<lambda>required_bytes.
     bindE (str_at pb ''fingerprint'' item) (\<lambda>fingerprint.
     made plan_post_init
       \<lparr>pl_source_root = source_root, pl_target_root = target_root, pl_source_volume_id = source_volume,
        pl_target_volume_id = target_volume, pl_source_volume_evidence = source_evidence,
        pl_target_volume_evidence = target_evidence, pl_source_profile = source_profile,
        pl_target_profile = target_profile, pl_source_complete = source_complete,
        pl_target_complete = target_complete, pl_operations = operations, pl_assignment = assignment,
        pl_preservation = preservation, pl_filter_snapshot = filters, pl_deletion_policy = deletion,
        pl_trash_on_update = trash_on_update, pl_policy_fingerprint = policy_fingerprint,
        pl_worker_count = worker_count, pl_required_volumes = required_volumes,
        pl_required_bytes = required_bytes, pl_fingerprint = fingerprint\<rparr>))))))))))))))))))))))))))"

section \<open>Envelopes\<close>

definition payload_schema_version :: int where
  "payload_schema_version = 1"

text \<open>\<^verbatim>\<open>item.get(...) != _SCHEMA_VERSION\<close>: \<^verbatim>\<open>True == 1\<close> in Python.\<close>

definition payload_value :: "bytes \<Rightarrow> string \<Rightarrow> (pystr, json) dict res" where
  "payload_value payload expected_kind =
     (case Option.bind (utf8_decode payload) json_loads of
        None \<Rightarrow> Inl (ValueError ''workflow payload is not valid UTF-8 JSON'')
      | Some v \<Rightarrow>
          bindE (as_mapping v) (\<lambda>item.
          bindE (raise_if (get_default ''schema_version'' JNull item
                   \<notin> {JInt payload_schema_version, JBool True})
            (ValueError ''unsupported workflow payload schema'')) (\<lambda>_.
          bindE (raise_if (get_default ''kind'' JNull item \<noteq> JStr (lit expected_kind))
            (ValueError ''workflow payload kind does not match registration'')) (\<lambda>_.
          Inr item))))"

section \<open>Plan requests\<close>

text \<open>\<^verbatim>\<open>isinstance(policy, IdentityDestinationPolicy)\<close>, by the name and version of the policy.\<close>

definition is_identity_policy :: "destination_policy \<Rightarrow> bool" where
  "is_identity_policy p \<longleftrightarrow> dp_name p = lit ''identity'' \<and> dp_version p = lit ''1''"

definition payload_options :: "sync_options \<Rightarrow> json" where
  "payload_options opts = jobj
     [(''deletion_policy'', JStr (deletion_policy_value (so_deletion_policy opts))),
      (''preservation'', preservation_json (so_preservation opts)),
      (''filters'', JList (map JStr (patterns (so_filters opts)))),
      (''worker_count'', JInt (so_worker_count opts)), (''trash_on_update'', JBool (so_trash_on_update opts)),
      (''propagate_source_casing'', JBool (so_propagate_source_casing opts)),
      (''internal_mirror_authorized'', JBool (so_internal_mirror_authorized opts))]"

definition plan_request_json :: "plan_request \<Rightarrow> json" where
  "plan_request_json request = jobj
     [(''schema_version'', JInt payload_schema_version), (''kind'', JStr (lit ''plan'')),
      (''request_id'', JStr (pq_request_id request)), (''source_path'', JStr (pq_source_path request)),
      (''target_path'', JStr (pq_target_path request)), (''options'', payload_options (pq_options request))]"

definition encode_plan_request :: "plan_request \<Rightarrow> bytes res" where
  "encode_plan_request request =
     bindE (raise_if (\<not> is_identity_policy (so_destination_policy (pq_options request)))
       (ValueError ''M0 workflow payloads support only the identity destination policy'')) (\<lambda>_.
     Inr (canonical_json_bytes (plan_request_json request)))"

definition decode_options :: "upper \<Rightarrow> py_builtins \<Rightarrow> (pystr, json) dict \<Rightarrow> (pystr, json) dict \<Rightarrow> sync_options res" where
  "decode_options up pb options preservation =
     bindE (enum_at pb deletion_policy_value deletion_policies ''deletion_policy'' options) (\<lambda>deletion.
     bindE (decode_preservation preservation) (\<lambda>preserve.
     bindE (decode_filters pb options) (\<lambda>filters.
     bindE (int_at pb ''worker_count'' options) (\<lambda>worker_count.
     bindE (bool_at ''trash_on_update'' options) (\<lambda>trash_on_update.
     bindE (bool_at ''propagate_source_casing'' options) (\<lambda>casing.
     bindE (bool_at ''internal_mirror_authorized'' options) (\<lambda>mirror.
     made sync_options_post_init
       \<lparr>so_deletion_policy = deletion, so_preservation = preserve, so_filters = filters,
        so_destination_policy = identity_destination_policy up, so_worker_count = worker_count,
        so_trash_on_update = trash_on_update, so_propagate_source_casing = casing,
        so_internal_mirror_authorized = mirror\<rparr>)))))))"

definition decode_plan_request :: "upper \<Rightarrow> py_builtins \<Rightarrow> bytes \<Rightarrow> plan_request res" where
  "decode_plan_request up pb payload =
     bindE (payload_value payload ''plan'') (\<lambda>item.
     bindE (mapping_at ''options'' item) (\<lambda>options.
     bindE (mapping_at ''preservation'' options) (\<lambda>preservation.
     bindE (str_at pb ''request_id'' item) (\<lambda>request_id.
     bindE (str_at pb ''source_path'' item) (\<lambda>source.
     bindE (str_at pb ''target_path'' item) (\<lambda>target.
     bindE (decode_options up pb options preservation) (\<lambda>opts.
     Inr \<lparr>pq_request_id = request_id, pq_source_path = source, pq_target_path = target,
          pq_options = opts\<rparr>)))))))"

section \<open>Execution requests\<close>

definition payload_commitment :: "py_builtins \<Rightarrow> commitment \<Rightarrow> json" where
  "payload_commitment pb c = jobj
     [(''plan_fingerprint'', JStr (cm_plan_fingerprint c)),
      (''selection_digest'', JStr (hexdigest (cm_selection_digest c))),
      (''committed_at'', JStr (pb_isoformat pb (cm_committed_at c)))]"

definition status_json :: "(op_id \<rightharpoonup> outcome) \<Rightarrow> json" where
  "status_json status =
     JObj (map (\<lambda>k. (k, JStr (outcome_value (the (status k))))) (sorted_list_of_set (dom status)))"

definition execution_request_json :: "py_builtins \<Rightarrow> execution_request \<Rightarrow> json" where
  "execution_request_json pb request =
     (let x = eq_execution_set request in jobj
        [(''schema_version'', JInt payload_schema_version), (''kind'', JStr (lit ''execute'')),
         (''plan'', payload_plan (xs_plan x)),
         (''selection'', JList (map JStr (sorted_list_of_set (xs_selection x)))),
         (''run_id'', JStr (xs_run_id x)), (''status'', status_json (xs_status x)),
         (''commitment'', jopt (payload_commitment pb) (xs_commitment x)),
         (''started_at'', jopt (\<lambda>t. JStr (pb_isoformat pb t)) (eq_started_at request))])"

definition encode_execution_request :: "py_builtins \<Rightarrow> execution_request \<Rightarrow> bytes" where
  "encode_execution_request pb request = canonical_json_bytes (execution_request_json pb request)"

text \<open>\<^verbatim>\<open>bytes.fromhex\<close>: pairs of digits, with ASCII white space before and between them.\<close>

fun bytes_fromhex :: "pystr \<Rightarrow> bytes option" where
  "bytes_fromhex [] = Some []"
| "bytes_fromhex (a # s) =
     (if a \<in> {32, 9, 10, 11, 12, 13} then bytes_fromhex s
      else case s of
        [] \<Rightarrow> None
      | b # s' \<Rightarrow>
          (case (hex_value a, hex_value b) of
             (Some x, Some y) \<Rightarrow> map_option ((#) (x * 16 + y)) (bytes_fromhex s')
           | _ \<Rightarrow> None))"

definition decode_instant :: "py_builtins \<Rightarrow> json \<Rightarrow> datetime res" where
  "decode_instant pb v =
     (case pb_fromisoformat pb (py_str pb v) of
        None \<Rightarrow> Inl (ValueError ''Invalid isoformat string'') | Some t \<Rightarrow> Inr t)"

definition decode_commitment :: "py_builtins \<Rightarrow> json \<Rightarrow> commitment option res" where
  "decode_commitment pb v =
     (if v = JNull then Inr None
      else bindE (as_mapping v) (\<lambda>item.
        bindE (str_at pb ''plan_fingerprint'' item) (\<lambda>fingerprint.
        bindE (str_at pb ''selection_digest'' item) (\<lambda>hex.
        bindE (case bytes_fromhex hex of
                 None \<Rightarrow> Inl (ValueError ''non-hexadecimal number found in fromhex() arg'')
               | Some bs \<Rightarrow> Inr bs) (\<lambda>digest.
        bindE (bindE (get_item ''committed_at'' item) (decode_instant pb)) (\<lambda>instant.
        bindE (made commitment_post_init
          \<lparr>cm_plan_fingerprint = fingerprint, cm_selection_digest = digest, cm_committed_at = instant\<rparr>) (\<lambda>c.
        Inr (Some c))))))))"

definition decode_status :: "py_builtins \<Rightarrow> (pystr, json) dict \<Rightarrow> (op_id \<rightharpoonup> outcome) res" where
  "decode_status pb raw =
     bindE (mapE (\<lambda>(k, v). bindE (enum_of outcome_value outcomes (py_str pb v)) (\<lambda>out. Inr (k, out))) raw)
       (\<lambda>kvs. Inr (map_of kvs))"

definition decode_started :: "py_builtins \<Rightarrow> json \<Rightarrow> datetime option res" where
  "decode_started pb v =
     (if v = JNull then Inr None else bindE (decode_instant pb v) (\<lambda>t. Inr (Some t)))"

definition decode_execution_request :: "upper \<Rightarrow> py_builtins \<Rightarrow> bytes \<Rightarrow> execution_request res" where
  "decode_execution_request up pb payload =
     bindE (payload_value payload ''execute'') (\<lambda>item.
     bindE (decode_commitment pb (get_default ''commitment'' JNull item)) (\<lambda>commit.
     bindE (mapping_at ''status'' item) (\<lambda>raw_status.
     bindE (bindE (get_item ''plan'' item) (decode_plan up pb)) (\<lambda>p.
     bindE (list_at ''selection'' item) (\<lambda>selection.
     bindE (bindE (str_at pb ''run_id'' item) validated_run_id) (\<lambda>run_id.
     bindE (decode_status pb raw_status) (\<lambda>status.
     bindE (made execution_set_post_init
       \<lparr>xs_plan = p, xs_selection = set (map (py_str pb) selection), xs_run_id = run_id, xs_status = status,
        xs_commitment = commit\<rparr>) (\<lambda>x.
     bindE (decode_started pb (get_default ''started_at'' JNull item)) (\<lambda>started.
     Inr \<lparr>eq_execution_set = x, eq_started_at = started\<rparr>)))))))))"

end
