(* ===== verification/Json_Lemmas.thy ===== *)
theory Json_Lemmas
  imports Json_Loads
begin

text \<open>
  The parser of \<open>Json_Loads\<close> reads back what the encoder writes: through the bytes, for every value
  without duplicate keys whose strings are sequences of Unicode code points in which no two
  surrogates form a pair.
\<close>

section \<open>UTF-8\<close>

text \<open>What the decoder makes of an encoded character: a surrogate stays spelled out.\<close>

definition spelled :: "codepoint \<Rightarrow> pystr" where
  "spelled c = (if surrogate_half c then u_escape c else [c])"

definition spell :: "pystr \<Rightarrow> pystr" where
  "spell s = concat (map spelled s)"

lemma spell_append [simp]: "spell (s @ t) = spell s @ spell t"
  by (simp add: spell_def)

lemma spell_simps [simp]: "spell [] = []" "spell (c # s) = spelled c @ spell s"
  by (simp_all add: spell_def)

lemma spelled_ascii: "c < 128 \<Longrightarrow> spelled c = [c]"
  by (simp add: spelled_def surrogate_half_def)

lemma spell_ascii: "\<forall>c \<in> set s. c < 128 \<Longrightarrow> spell s = s"
  by (induction s) (simp_all add: spelled_ascii)

lemma utf8_decode_ascii: "\<forall>c \<in> set s. c < 128 \<Longrightarrow> utf8_decode (s @ t) = map_option ((@) s) (utf8_decode t)"
  by (induction s) (cases "utf8_decode t"; simp)+

lemma hex_digit_ascii: "hex_digit n < 128" if "n < 16"
  using that by (simp add: hex_digit_def)

lemma u_escape_ascii: "\<forall>c \<in> set (u_escape n). c < 128"
  by (auto simp: u_escape_def hex_digit_ascii)

lemma utf8_decode_char:
  assumes "c < 1114112"
  shows "utf8_decode (utf8_char c @ t) = map_option ((@) (spelled c)) (utf8_decode t)"
proof -
  consider "c < 128" | "128 \<le> c" "c < 2048" | "surrogate_half c" | "2048 \<le> c" "c < 65536" "\<not> surrogate_half c"
    | "65536 \<le> c" by linarith
  then show ?thesis
  proof cases
    case 1
    then show ?thesis by (cases "utf8_decode t") (simp_all add: utf8_char_def spelled_ascii)
  next
    case 2
    define q r where "q = c div 64" and "r = c mod 64"
    have q: "q < 32" "2 \<le> q" using 2 by (simp_all add: q_def less_mult_imp_div_less less_eq_div_iff_mult_less_eq)
    have r: "r < 64" "q * 64 + r = c" by (simp_all add: q_def r_def)
    have "\<not> surrogate_half c" using 2 by (simp add: surrogate_half_def)
    moreover have "utf8_char c = [192 + q, 128 + r]" using 2 by (simp add: utf8_char_def q_def r_def)
    ultimately show ?thesis
      using q r by (cases "utf8_decode t") (simp_all add: spelled_def continuation_byte_def)
  next
    case 3
    then show ?thesis
      by (simp add: utf8_char_def spelled_def surrogate_half_def utf8_decode_ascii [OF u_escape_ascii])
  next
    case 4
    have c: "c div 4096 * 4096 + c div 64 mod 64 * 64 + c mod 64 = c"
    proof -
      have "c div 4096 = c div 64 div 64" by (simp add: div_mult2_eq)
      moreover have "c div 64 div 64 * 64 + c div 64 mod 64 = c div 64" by simp
      moreover have "c div 64 * 64 + c mod 64 = c" by simp
      ultimately show ?thesis by linarith
    qed
    define q where "q = c div 4096"
    define r where "r = c div 64 mod 64"
    define m where "m = c mod 64"
    have q: "q < 16" using 4 by (simp add: q_def less_mult_imp_div_less)
    have r: "r < 64" "m < 64" "q * 4096 + r * 64 + m = c" using c by (simp_all add: q_def r_def m_def)
    have "utf8_char c = [224 + q, 128 + r, 128 + m]"
      using 4 by (auto simp: utf8_char_def surrogate_half_def q_def r_def m_def)
    then show ?thesis
      using 4 q r by (cases "utf8_decode t") (simp_all add: spelled_def continuation_byte_def Let_def)
  next
    case 5
    have c: "c div 262144 * 262144 + c div 4096 mod 64 * 4096 + c div 64 mod 64 * 64 + c mod 64 = c"
    proof -
      have "c div 4096 = c div 64 div 64" "c div 262144 = c div 4096 div 64" by (simp_all add: div_mult2_eq)
      moreover have "c div 64 div 64 * 64 + c div 64 mod 64 = c div 64" by simp
      moreover have "c div 64 * 64 + c mod 64 = c" by simp
      moreover have "c div 4096 div 64 * 64 + c div 4096 mod 64 = c div 4096" by simp
      ultimately show ?thesis by linarith
    qed
    define p where "p = c div 262144"
    define q where "q = c div 4096 mod 64"
    define r where "r = c div 64 mod 64"
    define m where "m = c mod 64"
    have p: "p \<le> 4" using 5 assms by (simp add: p_def)
    have q: "q < 64" "r < 64" "m < 64" "p * 262144 + q * 4096 + r * 64 + m = c"
      using c by (simp_all add: p_def q_def r_def m_def)
    have "utf8_char c = [240 + p, 128 + q, 128 + r, 128 + m]"
      using 5 by (simp add: utf8_char_def p_def q_def r_def m_def)
    then show ?thesis
      using 5 assms p q
      by (cases "utf8_decode t") (simp_all add: spelled_def surrogate_half_def continuation_byte_def Let_def)
  qed
qed

lemma utf8_round_trip:
  "\<forall>c \<in> set s. c < 1114112 \<Longrightarrow> utf8_decode (utf8_encode s) = Some (spell s)"
  by (induction s) (simp_all add: utf8_encode_def utf8_decode_char)

section \<open>Strings\<close>

lemma hex_value_digit [simp]: "n < 16 \<Longrightarrow> hex_value (hex_digit n) = Some n"
  by (simp add: hex_value_def hex_digit_def)

lemma hex_parts:
  "n div 4096 * 4096 + n div 256 mod 16 * 256 + n div 16 mod 16 * 16 + n mod 16 = (n::nat)"
proof -
  define a where "a = n div 16"
  define b where "b = a div 16"
  have "n = a * 16 + n mod 16" "a = b * 16 + a mod 16" "b = b div 16 * 16 + b mod 16"
    by (simp_all add: a_def b_def)
  then have "b div 16 * 4096 + b mod 16 * 256 + a mod 16 * 16 + n mod 16 = n" by linarith
  moreover have "n div 256 = b" "n div 4096 = b div 16" by (simp_all add: a_def b_def flip: div_mult2_eq)
  ultimately show ?thesis by (simp only: a_def)
qed

lemma read_u_escape:
  assumes "n < 65536"
  shows "read_hex4 (drop 2 (u_escape n) @ s) = Some (n, s)"
proof -
  have "n div 4096 < 16" using assms by (simp add: less_mult_imp_div_less)
  then show ?thesis using hex_parts [of n] by (simp add: u_escape_def)
qed

text \<open>The escapes after decoding: of the encoder, or of a surrogate by the codec.\<close>

definition decoded_escape :: "codepoint \<Rightarrow> pystr" where
  "decoded_escape c = spell (json_escape c)"

text \<open>A character of the text that another one follows must not join it to a pair.\<close>

definition joins :: "codepoint \<Rightarrow> pystr \<Rightarrow> bool" where
  "joins c s \<longleftrightarrow> high_surrogate c \<and> s \<noteq> [] \<and> low_surrogate (hd s)"

fun unpaired :: "pystr \<Rightarrow> bool" where
  "unpaired [] = True"
| "unpaired (c # s) \<longleftrightarrow> c < 1114112 \<and> \<not> joins c s \<and> unpaired s"

lemma decoded_escape_cases:
  assumes "c < 1114112"
  obtains (plain) "decoded_escape c = [c]" "c \<noteq> 34" "c \<noteq> 92" "32 \<le> c"
  | (short) d where "decoded_escape c = [92, d]" "simple_escape d = Some c" "d \<noteq> 117"
  | (long) "decoded_escape c = u_escape c" "c < 65536" "\<not> high_surrogate c"
  | (high) "decoded_escape c = u_escape c" "high_surrogate c"
proof -
  let ?named = "{34, 92, 10, 13, 9, 12, 8}"
  have named: "\<exists>d. json_escape c = [92, d] \<and> simple_escape d = Some c \<and> d \<noteq> 117 \<and> d < 128" if "c \<in> ?named"
    using that by (elim insertE emptyE; simp add: json_escape_def simple_escape_def)
  show thesis
  proof (cases "c \<in> ?named")
    case True
    then obtain d where "json_escape c = [92, d]" "simple_escape d = Some c" "d \<noteq> 117" "d < 128"
      using named by blast
    then show thesis by (intro short) (simp_all add: decoded_escape_def spelled_ascii)
  next
    case other: False
    then have e: "json_escape c = (if c < 32 then u_escape c else [c])" by (simp add: json_escape_def)
    consider "c < 32" | "32 \<le> c" "surrogate_half c" | "32 \<le> c" "\<not> surrogate_half c" by linarith
    then show thesis
    proof cases
      case 1
      then show thesis
        by (intro long) (simp_all add: decoded_escape_def e spell_ascii [OF u_escape_ascii] high_surrogate_def)
    next
      case 2
      then have "decoded_escape c = u_escape c" by (simp add: decoded_escape_def e spelled_def)
      then show thesis
        using 2 long high by (cases "high_surrogate c") (simp_all add: surrogate_half_def)
    next
      case 3
      then show thesis using other by (intro plain) (simp_all add: decoded_escape_def e spelled_def)
    qed
  qed
qed

lemma u_escape_split: "u_escape n = 92 # 117 # drop 2 (u_escape n)"
  by (simp add: u_escape_def)

lemma take_u_escape: "take 2 (u_escape n @ s) = [92, 117]"
  by (simp add: u_escape_def)

lemma read_string_quote: "read_string (34 # s) = Some ([], s)"
  by (subst read_string.simps) simp

lemma read_string_escape:
  "read_string (92 # s) = (case read_escape s of None \<Rightarrow> None
     | Some (d, r) \<Rightarrow> map_option (\<lambda>(t, rest). (d # t, rest)) (read_string r))"
  by (subst read_string.simps) simp

definition escaped :: "pystr \<Rightarrow> pystr" where
  "escaped s = concat (map decoded_escape s)"

lemma escaped_simps [simp]: "escaped [] = []" "escaped (c # s) = decoded_escape c @ escaped s"
  by (simp_all add: escaped_def)

text \<open>After a high surrogate, an escape that follows in the text is not that of a low one.\<close>

lemma read_high:
  assumes "high_surrogate c" "\<not> joins c s" "unpaired s"
  shows "read_escape (drop 1 (u_escape c) @ escaped s @ 34 # rest) = Some (c, escaped s @ 34 # rest)"
proof -
  let ?t = "escaped s @ 34 # rest"
  have c: "c < 65536" using assms(1) by (simp add: high_surrogate_def)
  have "take 2 ?t = [92, 117] \<Longrightarrow> read_second c ?t = Some (c, ?t)"
  proof (cases s)
    case (Cons d s')
    have d: "d < 1114112" "\<not> low_surrogate d" using assms Cons by (simp_all add: joins_def)
    have escape: "read_second c ?t = Some (c, ?t)" if "decoded_escape d = u_escape d" "d < 65536"
    proof -
      have "read_hex4 (drop 2 ?t) = Some (d, escaped s' @ 34 # rest)"
        using read_u_escape [OF that(2), of "escaped s' @ 34 # rest"] u_escape_split [of d]
        by (metis Cons that(1) append_assoc drop_0 drop_Suc_Cons escaped_simps(2) numeral_2_eq_2 append_Cons)
      then show ?thesis using d by (simp add: read_second_def)
    qed
    assume t: "take 2 ?t = [92, 117]"
    show ?thesis
      using d(1)
    proof (cases rule: decoded_escape_cases)
      case high
      then show ?thesis using escape by (simp add: high_surrogate_def)
    qed (use t Cons escape in auto)
  qed simp
  moreover have "drop 1 (u_escape c) @ ?t = 117 # drop 2 (u_escape c) @ ?t"
    by (simp add: u_escape_def)
  ultimately show ?thesis
    using assms(1) by (simp add: read_escape_def read_u_escape [OF c])
qed

lemma read_string_escaped:
  "unpaired s \<Longrightarrow> read_string (escaped s @ 34 # rest) = Some (s, rest)"
proof (induction s)
  case (Cons c s)
  then have c: "c < 1114112" and ih: "read_string (escaped s @ 34 # rest) = Some (s, rest)" by simp_all
  from c show ?case
  proof (cases rule: decoded_escape_cases)
    case plain
    then show ?thesis using ih by (subst read_string.simps) simp
  next
    case (short d)
    then show ?thesis using ih by (simp add: read_string_escape read_escape_def)
  next
    case long
    have "drop 1 (u_escape c) @ t = 117 # drop 2 (u_escape c) @ t" for t
      by (simp add: u_escape_def)
    moreover have "escaped (c # s) @ 34 # rest = 92 # (drop 1 (u_escape c) @ escaped s @ 34 # rest)"
      by (simp add: long u_escape_def)
    ultimately show ?thesis
      using ih long by (simp only: read_string_escape read_escape_def) (simp add: read_u_escape)
  next
    case high
    have "escaped (c # s) @ 34 # rest = 92 # (drop 1 (u_escape c) @ escaped s @ 34 # rest)"
      by (simp add: high u_escape_def)
    then show ?thesis
      using ih read_high [OF high(2), of s rest] Cons.prems by (simp only: read_string_escape) simp
  qed
qed (simp add: read_string_quote)

section \<open>Numbers\<close>

lemma digits_value_snoc: "digits_value (ds @ [d]) = digits_value ds * 10 + (d - 48)"
  by (simp add: digits_value_def)

lemma nat_digits_value: "digits_value (nat_digits n) = n"
proof (induction n rule: nat_digits.induct)
  case (1 n)
  then show ?case
    by (subst nat_digits.simps) (simp add: digits_value_snoc, simp add: digits_value_def)
qed

lemma nat_digits_digits: "\<forall>d \<in> set (nat_digits n). is_digit d"
proof (induction n rule: nat_digits.induct)
  case (1 n)
  then show ?case by (subst nat_digits.simps) (auto simp: is_digit_def)
qed

lemma nat_digits_nonempty: "nat_digits n \<noteq> []"
  by (subst nat_digits.simps) simp

lemma nat_digits_first: "0 < n \<Longrightarrow> hd (nat_digits n) \<noteq> 48"
proof (induction n rule: nat_digits.induct)
  case (1 n)
  then show ?case
    by (subst nat_digits.simps) (auto simp: hd_append nat_digits_nonempty)
qed

definition value_end :: "pystr \<Rightarrow> bool" where
  "value_end s \<longleftrightarrow> s = [] \<or> hd s \<in> {44, 93, 125}"

lemma value_end_stops: "value_end s \<Longrightarrow> \<not> begins_float s"
  by (auto simp: value_end_def begins_float_def split: list.split)

lemma value_end_no_digit: "value_end s \<Longrightarrow> s = [] \<or> \<not> is_digit (hd s)"
  by (auto simp: value_end_def is_digit_def)

lemma span_digits:
  assumes "\<forall>d \<in> set ds. is_digit d" "s = [] \<or> \<not> is_digit (hd s)"
  shows "takeWhile is_digit (ds @ s) = ds" "dropWhile is_digit (ds @ s) = s"
  using assms by (cases s; simp)+

lemma read_nat_digits:
  assumes "value_end s"
  shows "read_nat (nat_digits n @ s) = Some (n, s)"
proof (cases "n = 0")
  case True
  then show ?thesis
    using value_end_stops [OF assms] by (subst nat_digits.simps) (simp add: read_nat_def)
next
  case False
  obtain c ds where c: "nat_digits n = c # ds"
    using nat_digits_nonempty by (cases "nat_digits n") auto
  have "c \<noteq> 48" "is_digit c"
    using nat_digits_first [of n] nat_digits_digits [of n] False c by auto
  then show ?thesis
    using span_digits [OF nat_digits_digits value_end_no_digit [OF assms], of n] value_end_stops [OF assms]
      nat_digits_value [of n]
    by (simp add: read_nat_def c Let_def)
qed

lemma read_number_int:
  assumes "value_end s"
  shows "read_number (int_repr i @ s) = Some (JInt i, s)"
proof (cases "i < 0")
  case True
  then show ?thesis by (simp add: int_repr_def read_number_def read_nat_digits [OF assms])
next
  case False
  obtain c ds where c: "nat_digits (nat i) = c # ds"
    using nat_digits_nonempty by (cases "nat_digits (nat i)") auto
  have "c \<noteq> 45"
    using nat_digits_digits [of "nat i"] c by (auto simp: is_digit_def)
  then show ?thesis
    using False read_nat_digits [OF assms, of "nat i"] by (simp add: int_repr_def read_number_def c)
qed

lemma int_repr_first: "int_repr i \<noteq> []" "hd (int_repr i) = 45 \<or> is_digit (hd (int_repr i))"
  using nat_digits_nonempty nat_digits_digits hd_in_set by (auto simp: int_repr_def)

section \<open>Values\<close>

text \<open>The value that is read: keys in the order in which they are written.\<close>

function sorted_json :: "json \<Rightarrow> json" where
  "sorted_json JNull = JNull"
| "sorted_json (JBool b) = JBool b"
| "sorted_json (JInt i) = JInt i"
| "sorted_json (JStr s) = JStr s"
| "sorted_json (JList vs) = JList (map sorted_json vs)"
| "sorted_json (JObj kvs) = JObj (map (\<lambda>kv. (fst kv, sorted_json (snd kv))) (sort_key fst kvs))"
  by pat_completeness auto

termination
  by (relation "measure size")
     (auto simp: size_list_snd_member less_Suc_eq_le intro: size_list_estimation'
       dest: size_list_snd_member)

text \<open>Distinct keys, and strings of code points without surrogate pairs.\<close>

function plain_json :: "json \<Rightarrow> bool" where
  "plain_json JNull = True"
| "plain_json (JBool b) = True"
| "plain_json (JInt i) = True"
| "plain_json (JStr s) = unpaired s"
| "plain_json (JList vs) = (\<forall>v \<in> set vs. plain_json v)"
| "plain_json (JObj kvs) =
     (distinct (map fst kvs) \<and> (\<forall>kv \<in> set kvs. unpaired (fst kv) \<and> plain_json (snd kv)))"
  by pat_completeness auto

termination
  by (relation "measure size")
     (auto simp: size_list_snd_member less_Suc_eq_le intro: size_list_estimation'
       dest: size_list_snd_member)

abbreviation text_of :: "json \<Rightarrow> pystr" where
  "text_of \<equiv> dumps decoded_escape [44] [58]"

lemma json_quote_escaped: "json_quote decoded_escape s = 34 # escaped s @ [34]"
  by (simp add: json_quote_def escaped_def)

lemma text_of_first: "\<exists>c r. text_of v = c # r \<and> c < 128 \<and> \<not> is_space c \<and> c \<notin> {93, 125}"
proof (cases v)
  case (JInt i)
  then show ?thesis
    using int_repr_first [of i] by (cases "int_repr i") (auto simp: is_digit_def is_space_def)
qed (auto simp: is_space_def lit_def json_quote_def)

lemma skip_text: "skip_space (text_of v @ s) = text_of v @ s"
  using text_of_first [of v] by (auto simp: skip_space_def)

lemma skip_solid [simp]: "\<not> is_space c \<Longrightarrow> skip_space (c # s) = c # s"
  by (simp add: skip_space_def)

lemma skip_end: "value_end s \<Longrightarrow> skip_space s = s"
  by (cases s) (auto simp: value_end_def skip_space_def is_space_def)

lemma punctuation [simp]:
  "\<not> is_space 44" "\<not> is_space 93" "\<not> is_space 125" "\<not> is_space 58" "\<not> is_space 34"
  by (simp_all add: is_space_def)

definition reads_back :: "json \<Rightarrow> bool" where
  "reads_back v \<longleftrightarrow> (\<forall>n rest. 2 * length (text_of v) \<le> n \<longrightarrow> value_end rest \<longrightarrow>
     read_value n (text_of v @ rest) = Some (sorted_json v, rest))"

lemma reads_backD:
  "reads_back v \<Longrightarrow> 2 * length (text_of v) \<le> n \<Longrightarrow> value_end rest \<Longrightarrow>
     read_value n (text_of v @ rest) = Some (sorted_json v, rest)"
  by (simp add: reads_back_def)

lemma skip_joined:
  assumes "vs \<noteq> []"
  shows "skip_space (join_with [44] (map text_of vs) @ s) = join_with [44] (map text_of vs) @ s"
proof (cases vs)
  case (Cons v us)
  then show ?thesis
    using skip_text [of v] by (cases us) (simp_all only: list.map join_with.simps append_assoc)
qed (use assms in simp)

lemma read_items_back:
  assumes "\<forall>v \<in> set vs. reads_back v" "vs \<noteq> []"
    and "2 * length (join_with [44] (map text_of vs)) < n"
  shows "read_items n (join_with [44] (map text_of vs) @ 93 # rest) = Some (map sorted_json vs, rest)"
  using assms
proof (induction vs arbitrary: n)
  case (Cons v vs)
  then obtain m where n: "n = Suc m" by (cases n) auto
  show ?case
  proof (cases "vs = []")
    case True
    then show ?thesis
      using reads_backD [of v m "93 # rest"] Cons.prems n by (simp add: value_end_def)
  next
    case False
    let ?rest = "join_with [44] (map text_of vs) @ 93 # rest"
    have unfold: "join_with [44] (map text_of (v # vs)) @ 93 # rest = text_of v @ 44 # ?rest"
      using False by (simp add: join_with_Cons)
    have len: "length (join_with [44] (map text_of (v # vs)))
        = length (text_of v) + 1 + length (join_with [44] (map text_of vs))"
      using False by (simp add: join_with_Cons)
    have skip: "skip_space ?rest = ?rest"
      by (rule skip_joined [OF False])
    have "read_value m (text_of v @ 44 # ?rest) = Some (sorted_json v, 44 # ?rest)"
      using Cons.prems n len by (intro reads_backD) (simp_all add: value_end_def)
    moreover have "read_items m ?rest = Some (map sorted_json vs, rest)"
      using Cons.prems n len False by (intro Cons.IH) simp_all
    ultimately show ?thesis unfolding unfold n using skip by simp
  qed
qed simp

abbreviation pair_text :: "pystr \<times> json \<Rightarrow> pystr" where
  "pair_text kv \<equiv> json_quote decoded_escape (fst kv) @ [58] @ text_of (snd kv)"

lemma pair_text_first: "pair_text kv @ s = 34 # drop 1 (pair_text kv) @ s"
  by (simp add: json_quote_def)

lemma read_pairs_back:
  assumes "\<forall>kv \<in> set kvs. unpaired (fst kv) \<and> reads_back (snd kv)" "kvs \<noteq> []"
    and "2 * length (join_with [44] (map pair_text kvs)) < n"
  shows "read_pairs n (join_with [44] (map pair_text kvs) @ 125 # rest)
    = Some (map (\<lambda>kv. (fst kv, sorted_json (snd kv))) kvs, rest)"
  using assms
proof (induction kvs arbitrary: n)
  case (Cons kv kvs)
  obtain k v where kv: "kv = (k, v)" by fastforce
  from Cons obtain m where n: "n = Suc m" by (cases n) auto
  have read: "read_pairs n (pair_text kv @ c # s) =
      (if c = 125 then Some ([(k, sorted_json v)], s)
       else map_option (\<lambda>(kvs, rest). ((k, sorted_json v) # kvs, rest)) (read_pairs m (skip_space s)))"
    if "2 * length (text_of v) \<le> m" "c = 44 \<or> c = 125" for c s
  proof -
    have "read_value m (text_of v @ c # s) = Some (sorted_json v, c # s)"
      using Cons.prems kv that by (intro reads_backD) (auto simp: value_end_def)
    moreover have "read_string (escaped k @ 34 # 58 # text_of v @ c # s) = Some (k, 58 # text_of v @ c # s)"
      using Cons.prems kv by (intro read_string_escaped) simp
    ultimately show ?thesis
      using that(2) by (auto simp: n kv json_quote_escaped skip_text)
  qed
  show ?case
  proof (cases "kvs = []")
    case True
    then show ?thesis
      using Cons.prems read [of 125 rest] n kv by (simp add: json_quote_def)
  next
    case False
    let ?rest = "join_with [44] (map pair_text kvs) @ 125 # rest"
    have unfold: "join_with [44] (map pair_text (kv # kvs)) @ 125 # rest = pair_text kv @ 44 # ?rest"
      using False by (simp add: join_with_Cons)
    have len: "length (join_with [44] (map pair_text (kv # kvs)))
        = length (pair_text kv) + 1 + length (join_with [44] (map pair_text kvs))"
      using False by (simp add: join_with_Cons)
    have skip: "skip_space ?rest = ?rest"
      using False by (cases kvs; cases "tl kvs") (simp_all add: json_quote_def)
    have "read_pairs m ?rest = Some (map (\<lambda>kv. (fst kv, sorted_json (snd kv))) kvs, rest)"
      using Cons.prems n len False by (intro Cons.IH) simp_all
    moreover have "2 * length (text_of v) \<le> m"
      using Cons.prems(3) n len kv by simp
    ultimately show ?thesis unfolding unfold using read [of 44 ?rest] skip kv by simp
  qed
qed simp

lemma dict_set_fresh: "k \<notin> fst ` set d \<Longrightarrow> dict_set k v d = d @ [(k, v)]"
  by (induction k v d rule: dict_set.induct) auto

lemma dict_of_distinct_pairs:
  assumes "distinct (map fst kvs)"
  shows "dict_of_pairs kvs = kvs"
proof -
  have "foldl (\<lambda>d kv. dict_set (fst kv) (snd kv) d) d kvs = d @ kvs"
    if "distinct (map fst kvs)" "fst ` set d \<inter> fst ` set kvs = {}" for d and kvs :: "(pystr \<times> json) list"
    using that
  proof (induction kvs arbitrary: d)
    case (Cons kv kvs)
    then have "dict_set (fst kv) (snd kv) d = d @ [kv]" by (simp add: dict_set_fresh)
    moreover have "foldl (\<lambda>d kv. dict_set (fst kv) (snd kv) d) (d @ [kv]) kvs = (d @ [kv]) @ kvs"
      using Cons.prems by (intro Cons.IH) auto
    ultimately show ?case by simp
  qed simp
  from this [OF assms, of "[]"] show ?thesis by (simp add: dict_of_pairs_def)
qed

lemma distinct_sort_keys: "distinct (map fst kvs) \<Longrightarrow> distinct (map fst (sort_key fst kvs))"
  by (simp add: distinct_map)

lemma no_literal: "c \<notin> {110, 116, 102} \<Longrightarrow>
    \<not> starts_with (lit ''null'') (c # s) \<and> \<not> starts_with (lit ''true'') (c # s) \<and> \<not> starts_with (lit ''false'') (c # s)"
  by (auto simp: lit_def)

lemma reads_backI:
  assumes "\<And>n rest. 2 * length (text_of v) \<le> Suc n \<Longrightarrow> value_end rest \<Longrightarrow>
    read_value (Suc n) (text_of v @ rest) = Some (sorted_json v, rest)"
  shows "reads_back v"
  unfolding reads_back_def
proof (intro allI impI)
  fix n rest
  assume n: "2 * length (text_of v) \<le> n" and rest: "value_end rest"
  then obtain m where "n = Suc m" using text_of_first [of v] by (cases n) auto
  with n rest assms show "read_value n (text_of v @ rest) = Some (sorted_json v, rest)" by simp
qed

lemma reads_back: "plain_json v \<Longrightarrow> reads_back v"
proof (induction v)
  case (JInt i)
  obtain c r where c: "int_repr i = c # r" "c = 45 \<or> is_digit c"
    using int_repr_first [of i] by (cases "int_repr i") auto
  then have "c \<notin> {34, 123, 91, 110, 116, 102}" by (auto simp: is_digit_def)
  then have "read_value (Suc n) (c # s) = read_number (c # s)" for n s
    using no_literal [of c s] by simp
  then show ?case
    using read_number_int [of _ i] by (intro reads_backI) (simp add: c(1))
next
  case (JStr s)
  then show ?case by (intro reads_backI) (simp add: json_quote_escaped read_string_escaped)
next
  case (JList vs)
  show ?case
  proof (cases "vs = []")
    case False
    have "\<forall>v \<in> set vs. reads_back v" using JList by auto
    note items = read_items_back [OF this False]
    have "take 1 (join_with [44] (map text_of vs) @ 93 # rest) \<noteq> [93]" for rest
      using False text_of_first [of "hd vs"] by (cases vs; cases "tl vs") auto
    then show ?thesis
      using skip_joined [OF False] items by (intro reads_backI) simp
  qed (auto intro: reads_backI)
next
  case (JObj kvs)
  let ?kvs = "sort_key fst kvs"
  let ?pairs = "map (\<lambda>kv. (fst kv, sorted_json (snd kv))) ?kvs"
  show ?case
  proof (cases "kvs = []")
    case False
    then have nonempty: "?kvs \<noteq> []" by (metis length_0_conv length_sort)
    have "\<forall>kv \<in> set ?kvs. unpaired (fst kv) \<and> reads_back (snd kv)"
      using JObj by (fastforce simp: snds.simps)
    note pairs = read_pairs_back [OF this nonempty]
    have dict: "dict_of_pairs ?pairs = ?pairs"
      using JObj.prems by (intro dict_of_distinct_pairs) (simp add: comp_def distinct_map)
    have first: "\<exists>t. join_with [44] (map pair_text ?kvs) @ 125 # rest = 34 # t" for rest
      using nonempty by (cases ?kvs; cases "tl ?kvs") (auto simp: json_quote_def)
    show ?thesis
    proof (rule reads_backI)
      fix n rest
      assume "2 * length (text_of (JObj kvs)) \<le> Suc n"
      then have "read_pairs n (join_with [44] (map pair_text ?kvs) @ 125 # rest) = Some (?pairs, rest)"
        by (intro pairs) simp
      then show "read_value (Suc n) (text_of (JObj kvs) @ rest) = Some (sorted_json (JObj kvs), rest)"
        using first [of rest] dict by auto
    qed
  qed (auto intro: reads_backI)
qed (auto intro!: reads_backI simp: lit_def)

section \<open>Round trip\<close>

lemma int_repr_ascii: "\<forall>c \<in> set (int_repr i). c < 128"
proof -
  have "c < 128" if "c \<in> set (nat_digits n)" for c n
    using bspec [OF nat_digits_digits that] by (simp add: is_digit_def)
  then show ?thesis by (simp add: int_repr_def)
qed

lemma spell_dumps:
  assumes "spell cm = cm" "spell cl = cl"
  shows "spell (dumps esc cm cl v) = dumps (\<lambda>c. spell (esc c)) cm cl v"
proof -
  have quote: "spell (json_quote esc s) = json_quote (\<lambda>c. spell (esc c)) s" for s
    by (induction s) (simp_all add: json_quote_def spelled_ascii)
  have join: "spell (join_with cm ss) = join_with cm (map spell ss)" for ss
    by (induction ss rule: induct_list012) (simp_all add: assms)
  have digits: "spell (int_repr i) = int_repr i" for i
    by (rule spell_ascii) (rule int_repr_ascii)
  show ?thesis
  proof (induction v)
    case (JList vs)
    then have "map (\<lambda>v. spell (dumps esc cm cl v)) vs = map (dumps (\<lambda>c. spell (esc c)) cm cl) vs" by simp
    then show ?case by (simp add: spelled_ascii join comp_def del: map_eq_conv)
  next
    case (JObj kvs)
    have "map (\<lambda>kv. spell (json_quote esc (fst kv) @ cl @ dumps esc cm cl (snd kv))) (sort_key fst kvs)
        = map (\<lambda>kv. json_quote (\<lambda>c. spell (esc c)) (fst kv) @ cl @ dumps (\<lambda>c. spell (esc c)) cm cl (snd kv))
            (sort_key fst kvs)"
      using JObj by (fastforce simp: quote assms snds.simps)
    then show ?case by (simp add: spelled_ascii join comp_def del: map_eq_conv)
  qed (simp_all add: quote digits, simp_all add: lit_def spelled_ascii)
qed

lemma text_of_dumps: "spell (dumps json_escape [44] [58] v) = text_of v"
  by (simp add: spell_dumps spelled_ascii decoded_escape_def [abs_def])

lemma json_loads_text:
  assumes "plain_json v"
  shows "json_loads (text_of v) = Some (sorted_json v)"
proof -
  have "read_value (2 * length (text_of v) + 1) (text_of v @ []) = Some (sorted_json v, [])"
    by (rule reads_backD [OF reads_back [OF assms]]) (simp_all add: value_end_def)
  moreover have "take 1 (text_of v) \<noteq> [65279]"
    using text_of_first [of v] by auto
  ultimately show ?thesis
    using skip_text [of v "[]"] by (simp add: json_loads_def) (simp add: skip_space_def)
qed

lemma unpaired_range: "unpaired s \<Longrightarrow> c \<in> set s \<Longrightarrow> c < 1114112"
  by (induction s) auto

lemma quote_range:
  assumes "unpaired s" "d \<in> set (json_quote json_escape s)"
  shows "d < 1114112"
proof -
  have "d < 1114112" if "c < 1114112" "d \<in> set (json_escape c)" for c
    using that bspec [OF u_escape_ascii, of d c] by (auto simp: json_escape_def split: if_splits)
  then show ?thesis using assms unpaired_range by (auto simp: json_quote_def)
qed

lemma set_join_with: "c \<in> set (join_with s xs) \<Longrightarrow> c \<in> set s \<or> (\<exists>x \<in> set xs. c \<in> set x)"
  by (induction xs rule: induct_list012) auto

lemma join_with_all:
  assumes "\<forall>c \<in> set s. P c" "\<And>x. x \<in> set xs \<Longrightarrow> \<forall>c \<in> set x. P c"
  shows "\<forall>c \<in> set (join_with s xs). P c"
  using assms set_join_with by fast

lemma dumps_range:
  "plain_json v \<Longrightarrow> \<forall>c \<in> set (dumps json_escape [44] [58] v). c < 1114112"
proof (induction v)
  case (JInt i)
  then show ?case using int_repr_ascii [of i] by force
next
  case (JList vs)
  then have "\<forall>c \<in> set (join_with [44] (map (dumps json_escape [44] [58]) vs)). c < 1114112"
    by (intro join_with_all [of _ "\<lambda>c. c < 1114112"]) auto
  then show ?case by auto
next
  case (JObj kvs)
  have "\<forall>c \<in> set (json_quote json_escape (fst kv) @ [58] @ dumps json_escape [44] [58] (snd kv)). c < 1114112"
    if "kv \<in> set kvs" for kv
    using JObj.IH [of kv "snd kv"] JObj.prems that quote_range [of "fst kv"] by (auto simp: snds.simps)
  then have "\<forall>c \<in> set (join_with [44] (map (\<lambda>kv. json_quote json_escape (fst kv) @ [58]
      @ dumps json_escape [44] [58] (snd kv)) (sort_key fst kvs))). c < 1114112"
    by (intro join_with_all [of _ "\<lambda>c. c < 1114112"]) (simp, simp only: set_map set_sort, blast)
  then show ?case by auto
qed (auto simp: lit_def quote_range)

lemma canonical_json_bytes_back:
  assumes "plain_json v"
  shows "Option.bind (utf8_decode (canonical_json_bytes v)) json_loads = Some (sorted_json v)"
  using utf8_round_trip [OF dumps_range [OF assms]] json_loads_text [OF assms]
  by (simp add: canonical_json_bytes_def text_of_dumps)

section \<open>The bound on the recursion\<close>

lemma skip_space_length: "length (skip_space s) \<le> length s"
  by (simp add: skip_space_def length_dropWhile_le)

lemma read_string_shorter: "read_string s = Some (t, r) \<Longrightarrow> length r < length s"
proof (induction s arbitrary: t r rule: read_string.induct)
  case (1 s)
  note defn = read_string.simps [of s]
  show ?case
  proof (cases s)
    case (Cons c s')
    consider "c = 34" | "c = 92" | "c \<notin> {34, 92}" by blast
    then show ?thesis
    proof cases
      case 2
      obtain d s'' where e: "read_escape s' = Some (d, s'')"
        using 1(3) defn Cons 2 by (cases "read_escape s'") auto
      then obtain t' where d: "read_escape s' = Some (d, s'')" "read_string s'' = Some (t', r)"
        using 1(3) defn Cons 2 by (cases "read_string s''") auto
      then have "length r < length s''" using 1(1) Cons 2 by fastforce
      then show ?thesis using read_escape_shorter [OF d(1)] Cons by simp
    next
      case 3
      then obtain t' where "read_string s' = Some (t', r)" "32 \<le> c"
        using 1(3) defn Cons 3 by (cases "read_string s'"; cases "c < 32") auto
      then show ?thesis using 1(2) [OF Cons] 3 Cons by fastforce
    qed (use 1(3) defn Cons in auto)
  qed (use 1(3) defn in simp)
qed

lemma read_nat_shorter: "read_nat s = Some (n, r) \<Longrightarrow> length r < length s"
  using length_dropWhile_le [of is_digit "tl s"]
  by (cases s) (auto simp: read_nat_def Let_def split: if_splits)

lemma read_number_shorter: "read_number s = Some (v, r) \<Longrightarrow> length r < length s"
  by (cases s) (auto simp: read_number_def split: if_splits dest: read_nat_shorter)

lemma starts_with_drop: "starts_with p s \<Longrightarrow> p \<noteq> [] \<Longrightarrow> length (drop (length p) s) < length s"
  by (auto simp: starts_with_iff)

lemma read_shorter:
  "read_value n s = Some (v, r) \<Longrightarrow> length r < length s"
  "read_items n s = Some (vs, r) \<Longrightarrow> length r < length s"
  "read_pairs n s = Some (kvs, r) \<Longrightarrow> length r < length s"
proof (induction n arbitrary: s v vs kvs r)
  case (Suc n)
  note le = skip_space_length
  {
    case 1
    then obtain c t where s: "s = c # t" by (cases s) auto
    show ?case
      using 1 Suc.IH(2,3) [of "skip_space t"] le [of t] s starts_with_drop [of "lit ''null''" s]
        starts_with_drop [of "lit ''true''" s] starts_with_drop [of "lit ''false''" s]
      by (auto simp: lit_def split: if_splits dest!: read_string_shorter read_number_shorter)
  next
    case 2
    then obtain v t where t: "read_value n s = Some (v, t)" by (auto split: option.splits)
    then have "length t < length s" by (rule Suc.IH)
    moreover obtain c t' where "skip_space t = c # t'"
      using 2 t by (cases "skip_space t") auto
    ultimately show ?case
      using 2 t Suc.IH(2) [of "skip_space t'"] le [of t] le [of t'] by (auto split: if_splits)
  next
    case 3
    have "s \<noteq> []" using 3 by auto
    then obtain k t where t: "read_string (drop 1 s) = Some (k, t)" "s \<noteq> []"
      using 3 by (auto split: option.splits if_splits)
    moreover obtain v u where u: "read_value n (skip_space (drop 1 (skip_space t))) = Some (v, u)"
      using 3 t by (auto split: option.splits if_splits)
    moreover obtain c u' where u': "skip_space u = c # u'"
      using 3 t u by (cases "skip_space u") (auto split: if_splits)
    moreover have "length u < length s"
      using Suc.IH(1) [OF u] read_string_shorter [OF t(1)] le [of t] le [of "drop 1 (skip_space t)"] by simp
    ultimately show ?case
      using 3 Suc.IH(3) [of "skip_space u'"] le [of u] le [of u']
      by (auto split: if_splits)
  }
qed simp_all

text \<open>More fuel than twice the length of the text changes nothing.\<close>

lemma read_fuel:
  "2 * length s \<le> n \<Longrightarrow> read_value (Suc n) s = read_value n s"
  "2 * length s < n \<Longrightarrow> read_items (Suc n) s = read_items n s"
  "2 * length s < n \<Longrightarrow> read_pairs (Suc n) s = read_pairs n s"
proof (induction n arbitrary: s)
  case (Suc n)
  note le = skip_space_length
  {
    case 1
    show ?case
    proof (cases s)
      case (Cons c t)
      then have "2 * length (skip_space t) < n" using 1 le [of t] by simp
      note ih = Suc.IH(2,3) [OF this]
      show ?thesis
        unfolding Cons read_value.simps(2) [of "Suc n"] read_value.simps(2) [of n] list.case ih ..
    qed simp
  next
    case 2
    have v: "read_value (Suc n) s = read_value n s" using 2 by (intro Suc.IH) simp
    have "read_items (Suc n) (skip_space r') = read_items n (skip_space r')"
      if "read_value n s = Some (v, r)" "skip_space r = c # r'" for v r c r'
      using 2 that(2) read_shorter(1) [OF that(1)] le [of r] le [of r'] by (intro Suc.IH) simp
    then show ?case
      unfolding read_items.simps(2) [of "Suc n"] read_items.simps(2) [of n] v
      by (auto split: option.split list.split)
  next
    case 3
    show ?case
    proof (cases "read_string (drop 1 s)")
      case (Some kr)
      obtain k r where kr: "kr = (k, r)" by fastforce
      let ?t = "skip_space (drop 1 (skip_space r))"
      have t: "2 * length ?t \<le> n"
        using 3 read_string_shorter [OF Some [unfolded kr]] le [of r] le [of "drop 1 (skip_space r)"] by simp
      have v: "read_value (Suc n) ?t = read_value n ?t" by (rule Suc.IH) (rule t)
      have "read_pairs (Suc n) (skip_space r') = read_pairs n (skip_space r')"
        if "read_value n ?t = Some (v, u)" "skip_space u = c # r'" for v u c r'
        using t that(2) read_shorter(1) [OF that(1)] le [of u] le [of r'] by (intro Suc.IH) simp
      then show ?thesis
        unfolding read_pairs.simps(2) [of "Suc n"] read_pairs.simps(2) [of n] Some option.case kr prod.case v
        by (auto split: option.split list.split)
    qed simp
  }
qed simp_all

end
