(* ===== verification/Payload_Properties.thy ===== *)
theory Payload_Properties
  imports Payloads Json_Lemmas Samples
begin

text \<open>
  The payload codecs of \<open>Payloads\<close> are inverse to each other, through the bytes that the dispatcher
  keeps: what a registration decodes is the request that was prepared.
\<close>

section \<open>Objects that were read back\<close>

definition sorted_dict :: "(string \<times> json) list \<Rightarrow> (pystr, json) dict" where
  "sorted_dict kvs = map (\<lambda>kv. (fst kv, sorted_json (snd kv))) (sort_key fst (map (\<lambda>(k, v). (lit k, v)) kvs))"

lemma map_of_filter: "map_of kvs k = (case filter (\<lambda>kv. fst kv = k) kvs of [] \<Rightarrow> None | kv # _ \<Rightarrow> Some (snd kv))"
  by (induction kvs) auto

lemma map_of_sort_key: "map_of (sort_key fst kvs) k = map_of kvs k"
  unfolding map_of_filter [of _ k] by (simp add: sort_key_stable)

lemma map_of_sorted_dict: "map_of (sorted_dict kvs) (lit k) = map_option sorted_json (map_of kvs k)"
proof -
  have "map_of (map (\<lambda>(k, v). (lit k, v)) kvs) (lit k) = map_of kvs k"
    by (induction kvs) (auto simp: lit_eq)
  moreover have "map_of (map (\<lambda>kv. (fst kv, sorted_json (snd kv))) d) k' = map_option sorted_json (map_of d k')"
    for d and k' :: pystr
    by (induction d) auto
  ultimately show ?thesis by (simp only: sorted_dict_def map_of_sort_key)
qed

named_theorems codec_simps

lemma sorted_jobj [codec_simps]: "sorted_json (jobj kvs) = JObj (sorted_dict kvs)"
  by (simp add: jobj_def sorted_dict_def)

lemma sorted_jopt [codec_simps]: "sorted_json (jopt f v) = jopt (\<lambda>a. sorted_json (f a)) v"
  by (simp add: jopt_def split: option.split)

lemma get_item_sorted [codec_simps]:
  "get_item k (sorted_dict kvs) = (case map_of kvs k of None \<Rightarrow> Inl KeyError | Some v \<Rightarrow> Inr (sorted_json v))"
  by (simp add: get_item_def map_of_sorted_dict split: option.split)

lemma get_default_sorted [codec_simps]:
  "get_default k d (sorted_dict kvs) = (case map_of kvs k of None \<Rightarrow> d | Some v \<Rightarrow> sorted_json v)"
  by (simp add: get_default_def map_of_sorted_dict split: option.split)

lemma optional_str_jopt [codec_simps]: "optional_str pb (jopt JStr v) = v"
  by (simp add: optional_str_def jopt_def split: option.split)

lemma optional_int_jopt [codec_simps]: "optional_int pb (jopt JInt v) = Inr v"
  by (simp add: optional_int_def jopt_def split: option.split)

lemma made_ok [codec_simps]: "f v = Inr () \<Longrightarrow> made f v = Inr v"
  by (simp add: made_def)

lemma enum_values [codec_simps]:
  "enum_of entry_kind_value entry_kinds (entry_kind_value a) = Inr a"
  "enum_of operation_kind_value operation_kinds (operation_kind_value b) = Inr b"
  "enum_of operation_reason_value operation_reasons (operation_reason_value c) = Inr c"
  "enum_of blocked_reason_value blocked_reasons (blocked_reason_value d) = Inr d"
  "enum_of deletion_policy_value deletion_policies (deletion_policy_value e) = Inr e"
proof -
  note defs = enum_of_def lit_eq entry_kinds_def operation_kinds_def operation_reasons_def
    blocked_reasons_def deletion_policies_def
  show "enum_of entry_kind_value entry_kinds (entry_kind_value a) = Inr a" by (cases a; simp add: defs)
  show "enum_of operation_kind_value operation_kinds (operation_kind_value b) = Inr b" by (cases b; simp add: defs)
  show "enum_of operation_reason_value operation_reasons (operation_reason_value c) = Inr c"
    by (cases c; simp add: defs)
  show "enum_of blocked_reason_value blocked_reasons (blocked_reason_value d) = Inr d" by (cases d; simp add: defs)
  show "enum_of deletion_policy_value deletion_policies (deletion_policy_value e) = Inr e"
    by (cases e; simp add: defs)
qed

lemmas access_defs [codec_simps] = str_at_def int_at_def bool_at_def opt_str_at_def mapping_at_def
  list_at_def enum_at_def

lemma mapE_inverse: "(\<And>v. v \<in> set vs \<Longrightarrow> f (g v) = Inr v) \<Longrightarrow> mapE f (map g vs) = Inr vs"
  by (induction vs) auto

section \<open>Volumes, profiles and stats\<close>

lemma jopt_null [codec_simps]: "jopt f None = JNull" "jopt f (Some a) = f a"
  by (simp_all add: jopt_def)

lemma volume_back [codec_simps]:
  "pred_option (\<lambda>u. volume_id_post_init u = Inr ()) v \<Longrightarrow> decode_volume pb (sorted_json (payload_volume v)) = Inr v"
  by (cases v; cases "the v") (simp_all add: payload_volume_def decode_volume_def volume_id_json_def codec_simps)

lemma evidence_back [codec_simps]: "decode_evidence pb (sorted_json (payload_evidence v)) = Inr v"
  by (cases v; cases "the v") (simp_all add: payload_evidence_def decode_evidence_def volume_evidence_json_def codec_simps)

lemma profile_back [codec_simps]:
  "capability_profile_post_init p = Inr () \<Longrightarrow> decode_profile pb (sorted_json (payload_profile p)) = Inr p"
  by (cases "incurs_seek_penalty p"; cases p)
     (simp_all add: payload_profile_def decode_profile_def capability_profile_json_def Let_def codec_simps)

lemma metadata_back [codec_simps]:
  assumes "metadata_post_init m = Inr ()"
  shows "bindE (as_mapping (sorted_json (payload_metadata m))) (decode_metadata pb) = Inr m"
  using assms by (cases m) (simp add: payload_metadata_def decode_metadata_def metadata_json_def codec_simps)

definition constructed_stat :: "file_stat \<Rightarrow> bool" where
  "constructed_stat s \<longleftrightarrow>
     pred_option (\<lambda>i. file_identity_post_init i = Inr ()) (st_identity s)
     \<and> metadata_post_init (st_metadata s) = Inr () \<and> file_stat_post_init s = Inr ()"

lemma identity_back [codec_simps]:
  "pred_option (\<lambda>i. file_identity_post_init i = Inr ()) v \<Longrightarrow>
     decode_identity pb (jopt (\<lambda>i. sorted_json (file_identity_json i)) v) = Inr v"
  by (cases v; cases "the v") (simp_all add: decode_identity_def file_identity_json_def codec_simps)

lemma stat_back [codec_simps]:
  "pred_option constructed_stat v \<Longrightarrow> decode_stat pb (sorted_json (payload_stat v)) = Inr v"
  by (cases v; cases "the v"; cases "st_metadata (the v)")
     (simp_all add: payload_stat_def decode_stat_def constructed_stat_def payload_metadata_def decode_metadata_def
        metadata_json_def codec_simps)

section \<open>Operations and plans\<close>

text \<open>What the constructors of a plan's parts have checked.\<close>

definition constructed_operation :: "upper \<Rightarrow> plan_operation \<Rightarrow> bool" where
  "constructed_operation up op \<longleftrightarrow>
     pred_option constructed_stat (po_source_expected op) \<and> pred_option constructed_stat (po_target_expected op)
     \<and> pred_option constructed_stat (po_intended op) \<and> pred_option constructed_stat (po_prior_expected op)
     \<and> pred_option (\<lambda>m. metadata_post_init m = Inr ()) (po_metadata op)
     \<and> plan_operation_post_init up op = Inr ()"

definition constructed_plan :: "upper \<Rightarrow> plan \<Rightarrow> bool" where
  "constructed_plan up p \<longleftrightarrow>
     root_post_init (pl_source_root p) = Inr () \<and> root_post_init (pl_target_root p) = Inr ()
     \<and> pred_option (\<lambda>v. volume_id_post_init v = Inr ()) (pl_source_volume_id p)
     \<and> pred_option (\<lambda>v. volume_id_post_init v = Inr ()) (pl_target_volume_id p)
     \<and> capability_profile_post_init (pl_source_profile p) = Inr ()
     \<and> capability_profile_post_init (pl_target_profile p) = Inr ()
     \<and> list_all (constructed_operation up) (pl_operations p)
     \<and> list_all (\<lambda>a. destination_assignment_post_init up a = Inr ()) (as_items (pl_assignment p))
     \<and> filter_set_post_init (pl_filter_snapshot p) = pl_filter_snapshot p
     \<and> list_all (\<lambda>v. volume_id_post_init v = Inr ()) (pl_required_volumes p)
     \<and> distinct (pl_required_volumes p) \<and> plan_post_init p = Inr ()"

lemma optional_metadata_back [codec_simps]:
  "pred_option (\<lambda>m. metadata_post_init m = Inr ()) v \<Longrightarrow>
     decode_optional_metadata pb (jopt (\<lambda>m. sorted_json (payload_metadata m)) v) = Inr v"
proof (cases v)
  case (Some m)
  assume "pred_option (\<lambda>m. metadata_post_init m = Inr ()) v"
  then show ?thesis
    using Some metadata_back [of m pb]
    by (cases m) (simp add: decode_optional_metadata_def payload_metadata_def metadata_json_def codec_simps)
qed (simp add: decode_optional_metadata_def codec_simps)

lemma blocked_back [codec_simps]:
  "decode_blocked pb (jopt (\<lambda>b. JStr (blocked_reason_value b)) v) = Inr v"
  by (cases v) (simp_all add: decode_blocked_def codec_simps)

lemma operation_back [codec_simps]:
  assumes "constructed_operation up op"
  shows "decode_operation up pb (sorted_json (payload_operation op)) = Inr op"
  using assms
  by (cases op) (simp add: decode_operation_def payload_operation_def constructed_operation_def codec_simps comp_def)

lemma root_back [codec_simps]:
  "root_post_init r = Inr () \<Longrightarrow> \<exists>d. sorted_json (payload_root r) = JObj d \<and> decode_root pb d = Inr r"
  by (cases r) (simp add: payload_root_def root_json_def decode_root_def codec_simps)

lemma assignment_item_back:
  "destination_assignment_post_init up a = Inr () \<Longrightarrow>
     decode_assignment_item up pb (sorted_json (destination_assignment_json a)) = Inr a"
  by (cases a) (simp add: decode_assignment_item_def destination_assignment_json_def codec_simps)

lemma assignment_back:
  assumes "list_all (\<lambda>a. destination_assignment_post_init up a = Inr ()) (as_items a)"
  shows "\<exists>d. sorted_json (assignment_json a) = JObj d \<and> decode_assignment up pb d = Inr a"
proof -
  have "mapE (decode_assignment_item up pb) (map (\<lambda>i. sorted_json (destination_assignment_json i)) (as_items a))
      = Inr (as_items a)"
    using assms by (intro mapE_inverse assignment_item_back) (simp add: list_all_iff)
  then show ?thesis
    by (cases a) (simp add: assignment_json_def decode_assignment_def codec_simps comp_def)
qed

lemma preservation_back:
  "\<exists>d. sorted_json (preservation_json q) = JObj d \<and> decode_preservation d = Inr q"
  by (cases q) (simp add: preservation_json_def decode_preservation_def codec_simps)

definition sorted_volumes :: "volume_id list \<Rightarrow> volume_id list" where
  "sorted_volumes = sort_key (\<lambda>v. (vol_serial v, vol_fs_type v))"

lemma volumes_back:
  assumes "list_all (\<lambda>v. volume_id_post_init v = Inr ()) vs" "distinct vs"
  shows "\<exists>raw. sorted_json (payload_volumes vs) = JList raw \<and> decode_volumes pb raw = Inr (sorted_volumes vs)"
proof -
  have "mapE (decode_volume pb) (map (\<lambda>v. sorted_json (payload_volume (Some v))) (sorted_volumes vs))
      = Inr (map Some (sorted_volumes vs))"
    using assms mapE_inverse [of "map Some (sorted_volumes vs)" "decode_volume pb" "\<lambda>v. sorted_json (payload_volume v)"]
    by (force simp: volume_back list_all_iff sorted_volumes_def comp_def)
  moreover have "List.map_filter (\<lambda>v. v) (map Some us) = us" for us :: "volume_id list"
    by (induction us) (simp_all add: List.map_filter_simps)
  ultimately show ?thesis
    using assms(2) by (simp add: decode_volumes_def payload_volumes_def sorted_volumes_def comp_def distinct_remdups_id)
qed

lemma plan_back:
  assumes "constructed_plan up p"
  shows "decode_plan up pb (sorted_json (payload_plan p))
    = Inr (p\<lparr>pl_required_volumes := sorted_volumes (pl_required_volumes p)\<rparr>)"
proof -
  note p = assms [unfolded constructed_plan_def]
  obtain ds where ds: "sorted_json (payload_root (pl_source_root p)) = JObj ds"
    "decode_root pb ds = Inr (pl_source_root p)" using root_back p by blast
  obtain dt where dt: "sorted_json (payload_root (pl_target_root p)) = JObj dt"
    "decode_root pb dt = Inr (pl_target_root p)" using root_back p by blast
  obtain da where da: "sorted_json (assignment_json (pl_assignment p)) = JObj da"
    "decode_assignment up pb da = Inr (pl_assignment p)" using assignment_back p by blast
  obtain dp where dp: "sorted_json (preservation_json (pl_preservation p)) = JObj dp"
    "decode_preservation dp = Inr (pl_preservation p)" using preservation_back by blast
  obtain dv where dv: "sorted_json (payload_volumes (pl_required_volumes p)) = JList dv"
    "decode_volumes pb dv = Inr (sorted_volumes (pl_required_volumes p))" using volumes_back p by blast
  have ops: "mapE (decode_operation up pb) (map (\<lambda>op. sorted_json (payload_operation op)) (pl_operations p))
      = Inr (pl_operations p)"
    using p by (intro mapE_inverse operation_back) (simp add: list_all_iff)
  have init: "plan_post_init (p\<lparr>pl_required_volumes := sorted_volumes (pl_required_volumes p)\<rparr>) = Inr ()"
    using p by (simp add: plan_post_init_def)
  have filters: "filter_set_post_init \<lparr>patterns = patterns (pl_filter_snapshot p)\<rparr> = pl_filter_snapshot p"
    using p by (cases "pl_filter_snapshot p") simp
  show ?thesis
    using p ds dt da dp dv ops init filters
    by (cases p)
       (simp add: decode_plan_def payload_plan_def decode_filters_def codec_simps comp_def made_def)
qed

section \<open>Texts\<close>

text \<open>The texts of a value: its keys and its strings.\<close>

function json_texts :: "json \<Rightarrow> pystr list" where
  "json_texts JNull = []"
| "json_texts (JBool b) = []"
| "json_texts (JInt i) = []"
| "json_texts (JStr s) = [s]"
| "json_texts (JList vs) = concat (map json_texts vs)"
| "json_texts (JObj kvs) = concat (map (\<lambda>kv. fst kv # json_texts (snd kv)) kvs)"
  by pat_completeness auto

termination
  by (relation "measure size")
     (auto simp: size_list_snd_member less_Suc_eq_le intro: size_list_estimation'
       dest: size_list_snd_member)

function distinct_keys :: "json \<Rightarrow> bool" where
  "distinct_keys JNull = True"
| "distinct_keys (JBool b) = True"
| "distinct_keys (JInt i) = True"
| "distinct_keys (JStr s) = True"
| "distinct_keys (JList vs) = list_all distinct_keys vs"
| "distinct_keys (JObj kvs) = (distinct (map fst kvs) \<and> list_all (\<lambda>kv. distinct_keys (snd kv)) kvs)"
  by pat_completeness auto

termination
  by (relation "measure size")
     (auto simp: size_list_snd_member less_Suc_eq_le intro: size_list_estimation'
       dest: size_list_snd_member)

lemma plain_json_texts:
  "distinct_keys v \<Longrightarrow> list_all unpaired (json_texts v) \<Longrightarrow> plain_json v"
proof (induction v)
  case (JObj kvs)
  then show ?case by (fastforce simp: list_all_iff snds.simps)
qed (auto simp: list_all_iff)

lemma distinct_jobj [codec_simps]:
  "distinct_keys (jobj kvs) \<longleftrightarrow> distinct (map fst kvs) \<and> list_all (\<lambda>kv. distinct_keys (snd kv)) kvs"
proof -
  have "map fst (map (\<lambda>(k, v). (lit k, v)) kvs) = map lit (map fst kvs)"
    by (induction kvs) auto
  then have "distinct (map fst (map (\<lambda>(k, v). (lit k, v)) kvs)) \<longleftrightarrow> distinct (map fst kvs)"
    by (simp add: distinct_map inj_on_def lit_eq)
  then show ?thesis by (simp add: jobj_def list_all_iff split_def)
qed

lemma distinct_jopt [codec_simps]: "distinct_keys (jopt f v) \<longleftrightarrow> pred_option (\<lambda>a. distinct_keys (f a)) v"
  by (cases v) (simp_all add: jopt_def)

lemma distinct_parts [codec_simps]:
  "distinct_keys (payload_volume v)" "distinct_keys (payload_evidence e)" "distinct_keys (payload_profile c)"
  "distinct_keys (payload_metadata m)" "distinct_keys (payload_root r)" "distinct_keys (preservation_json q)"
  "distinct_keys (payload_stat st)"
  by (simp_all add: payload_volume_def payload_evidence_def payload_profile_def payload_metadata_def
      payload_root_def preservation_json_def payload_stat_def volume_id_json_def volume_evidence_json_def
      capability_profile_json_def metadata_json_def root_json_def file_identity_json_def codec_simps option.pred_True)

lemma distinct_operation [codec_simps]: "distinct_keys (payload_operation op)"
  by (simp add: payload_operation_def codec_simps option.pred_True list_all_iff)

lemma distinct_plan [codec_simps]: "distinct_keys (payload_plan p)"
  by (simp add: payload_plan_def payload_volumes_def assignment_json_def destination_assignment_json_def
      codec_simps option.pred_True list_all_iff)

lemma distinct_request [codec_simps]:
  assumes "finite (dom (xs_status (eq_execution_set r)))"
  shows "distinct_keys (execution_request_json pb r)"
  using assms
  by (simp add: execution_request_json_def status_json_def payload_commitment_def codec_simps option.pred_True
      list_all_iff Let_def comp_def)

lemma distinct_plan_request [codec_simps]: "distinct_keys (plan_request_json r)"
  by (simp add: plan_request_json_def payload_options_def codec_simps list_all_iff)

section \<open>Requests\<close>

lemma payload_value_back:
  assumes "distinct_keys (jobj kvs)" "list_all unpaired (json_texts (jobj kvs))"
    and "map_of kvs ''schema_version'' = Some (JInt payload_schema_version)"
    and "map_of kvs ''kind'' = Some (JStr (lit kind))"
  shows "payload_value (canonical_json_bytes (jobj kvs)) kind = Inr (sorted_dict kvs)"
  using canonical_json_bytes_back [OF plain_json_texts [OF assms(1,2)]] assms(3,4)
  by (simp add: payload_value_def codec_simps)

lemma options_back:
  assumes "filter_set_post_init (so_filters opts) = so_filters opts" "sync_options_post_init opts = Inr ()"
    and "so_destination_policy opts = identity_destination_policy up"
  shows "\<exists>d. sorted_json (payload_options opts) = JObj d
    \<and> bindE (mapping_at ''preservation'' d) (decode_options up pb d) = Inr opts"
proof -
  obtain dp where dp: "sorted_json (preservation_json (so_preservation opts)) = JObj dp"
    "decode_preservation dp = Inr (so_preservation opts)" using preservation_back by blast
  have filters: "filter_set_post_init \<lparr>patterns = patterns (so_filters opts)\<rparr> = so_filters opts"
    using assms by (cases "so_filters opts") simp
  show ?thesis
    using assms dp filters
    by (cases opts) (simp add: payload_options_def decode_options_def decode_filters_def codec_simps comp_def)
qed

lemma plan_request_back:
  assumes "filter_set_post_init (so_filters (pq_options r)) = so_filters (pq_options r)"
    and "sync_options_post_init (pq_options r) = Inr ()"
    and "so_destination_policy (pq_options r) = identity_destination_policy up"
    and "list_all unpaired (json_texts (plan_request_json r))"
  shows "\<exists>payload. encode_plan_request r = Inr payload \<and> decode_plan_request up pb payload = Inr r"
proof -
  obtain d where d: "sorted_json (payload_options (pq_options r)) = JObj d"
    "bindE (mapping_at ''preservation'' d) (decode_options up pb d) = Inr (pq_options r)"
    using options_back [OF assms(1,2,3)] by blast
  then obtain dp where dp: "mapping_at ''preservation'' d = Inr dp" "decode_options up pb d dp = Inr (pq_options r)"
    by (cases "mapping_at ''preservation'' d") auto
  have "is_identity_policy (so_destination_policy (pq_options r))"
    by (simp add: assms(3) is_identity_policy_def identity_destination_policy_def)
  moreover have "payload_value (canonical_json_bytes (plan_request_json r)) ''plan''
      = Inr (sorted_dict [(''schema_version'', JInt payload_schema_version), (''kind'', JStr (lit ''plan'')),
      (''request_id'', JStr (pq_request_id r)), (''source_path'', JStr (pq_source_path r)),
      (''target_path'', JStr (pq_target_path r)), (''options'', payload_options (pq_options r))])"
    using assms(4) distinct_plan_request [of r] unfolding plan_request_json_def
    by (intro payload_value_back) simp_all
  ultimately show ?thesis
    using d(1) dp
    by (cases r) (simp add: encode_plan_request_def decode_plan_request_def codec_simps mapping_at_def [symmetric]
        del: access_defs, simp add: codec_simps)
qed

lemma fromhex_hexdigest:
  "list_all (\<lambda>b. b < 256) bs \<Longrightarrow> bytes_fromhex (hexdigest bs) = Some bs"
proof (induction bs)
  case (Cons b bs)
  have "b div 16 < 16" using Cons.prems by (simp add: less_mult_imp_div_less)
  moreover have "hex_digit n \<notin> {32, 9, 10, 11, 12, 13}" if "n < 16" for n
    using that by (simp add: hex_digit_def)
  ultimately show ?case
    using Cons by (simp add: hexdigest_def)
qed (simp add: hexdigest_def)

definition constructed_commitment :: "py_builtins \<Rightarrow> commitment \<Rightarrow> bool" where
  "constructed_commitment pb c \<longleftrightarrow>
     commitment_post_init c = Inr () \<and> list_all (\<lambda>b. b < 256) (cm_selection_digest c)
     \<and> pb_fromisoformat pb (pb_isoformat pb (cm_committed_at c)) = Some (cm_committed_at c)"

lemma commitment_back:
  "pred_option (constructed_commitment pb) v \<Longrightarrow>
     decode_commitment pb (jopt (\<lambda>c. sorted_json (payload_commitment pb c)) v) = Inr v"
  by (cases v; cases "the v")
     (simp_all add: decode_commitment_def payload_commitment_def constructed_commitment_def decode_instant_def
        fromhex_hexdigest codec_simps)

lemma started_back:
  "pred_option (\<lambda>t. pb_fromisoformat pb (pb_isoformat pb t) = Some t) v \<Longrightarrow>
     decode_started pb (jopt (\<lambda>t. JStr (pb_isoformat pb t)) v) = Inr v"
  by (cases v) (simp_all add: decode_started_def decode_instant_def codec_simps)

lemma status_back:
  assumes "finite (dom status)"
  shows "\<exists>d. sorted_json (status_json status) = JObj d \<and> decode_status pb d = Inr status"
proof -
  let ?ks = "sorted_list_of_set (dom status)"
  let ?d = "map (\<lambda>k. (k, JStr (outcome_value (the (status k))))) ?ks"
  have "sort_key fst ?d = ?d"
    by (rule sort_key_id_if_sorted) (simp add: comp_def)
  then have "sorted_json (status_json status) = JObj ?d"
    by (simp add: status_json_def comp_def)
  moreover have "mapE (\<lambda>(k, v). bindE (enum_of outcome_value outcomes (py_str pb v)) (\<lambda>out. Inr (k, out))) ?d
      = Inr (map (\<lambda>k. (k, the (status k))) ?ks)"
    by (simp add: mapE_eq_Inr_iff list.rel_map list.rel_refl enum_of_values)
  moreover have "map_of (map (\<lambda>k. (k, the (status k))) ?ks) = status"
    using assms by (auto simp: fun_eq_iff map_of_map_keys set_sorted_list_of_set restrict_map_def)
  ultimately show ?thesis by (simp add: decode_status_def)
qed

text \<open>What the constructors have checked, and the timestamps that the ISO format keeps.\<close>

definition constructed_request :: "upper \<Rightarrow> py_builtins \<Rightarrow> execution_request \<Rightarrow> bool" where
  "constructed_request up pb r \<longleftrightarrow>
     constructed_plan up (xs_plan (eq_execution_set r)) \<and> execution_set_post_init (eq_execution_set r) = Inr ()
     \<and> pred_option (constructed_commitment pb) (xs_commitment (eq_execution_set r))
     \<and> pred_option (\<lambda>t. pb_fromisoformat pb (pb_isoformat pb t) = Some t) (eq_started_at r)"

text \<open>The frozen set of required volumes comes back as the list in its sorted order.\<close>

definition with_sorted_volumes :: "execution_request \<Rightarrow> execution_request" where
  "with_sorted_volumes r =
     (let x = eq_execution_set r; p = xs_plan x
      in r\<lparr>eq_execution_set := x\<lparr>xs_plan := p\<lparr>pl_required_volumes := sorted_volumes (pl_required_volumes p)\<rparr>\<rparr>\<rparr>)"

lemma execution_request_back:
  assumes r: "constructed_request up pb r"
    and texts: "list_all unpaired (json_texts (execution_request_json pb r))"
  shows "decode_execution_request up pb (encode_execution_request pb r) = Inr (with_sorted_volumes r)"
proof -
  let ?x = "eq_execution_set r"
  note made = r [unfolded constructed_request_def]
  have init: "execution_set_post_init ?x = Inr ()" using made by simp
  then have "dom (xs_status ?x) \<subseteq> xs_selection ?x"
    "xs_selection ?x \<subseteq> set (map po_op_id (pl_operations (xs_plan ?x)))"
    by (auto simp: execution_set_post_init_def result_simps)
  then have fin: "finite (dom (xs_status ?x))" "finite (xs_selection ?x)"
    by (meson finite_set finite_subset)+
  obtain ds where ds: "sorted_json (status_json (xs_status ?x)) = JObj ds" "decode_status pb ds = Inr (xs_status ?x)"
    using status_back [OF fin(1)] by blast
  have run_id: "validated_run_id (xs_run_id ?x) = Inr (xs_run_id ?x)"
    using init by (auto simp: execution_set_post_init_def validated_run_id_def result_simps split: if_splits)
  let ?fields = "[(''schema_version'', JInt payload_schema_version), (''kind'', JStr (lit ''execute'')),
     (''plan'', payload_plan (xs_plan ?x)),
     (''selection'', JList (map JStr (sorted_list_of_set (xs_selection ?x)))),
     (''run_id'', JStr (xs_run_id ?x)), (''status'', status_json (xs_status ?x)),
     (''commitment'', jopt (payload_commitment pb) (xs_commitment ?x)),
     (''started_at'', jopt (\<lambda>t. JStr (pb_isoformat pb t)) (eq_started_at r))]"
  have json: "execution_request_json pb r = jobj ?fields"
    by (simp add: execution_request_json_def Let_def)
  have decoded: "payload_value (encode_execution_request pb r) ''execute'' = Inr (sorted_dict ?fields)"
    unfolding encode_execution_request_def json
    using texts distinct_request [OF fin(1), of pb] unfolding json by (intro payload_value_back) simp_all
  let ?y = "?x\<lparr>xs_plan := (xs_plan ?x)\<lparr>pl_required_volumes := sorted_volumes (pl_required_volumes (xs_plan ?x))\<rparr>\<rparr>"
  have "execution_set_post_init ?y = Inr ()"
    using init by (simp add: execution_set_post_init_def)
  then have set: "made execution_set_post_init ?y = Inr ?y" by (rule made_ok)
  have "set (map (py_str pb) (map sorted_json (map JStr (sorted_list_of_set (xs_selection ?x))))) = xs_selection ?x"
    using fin(2) by (simp add: image_image)
  then show ?thesis
    using decoded set made ds run_id
    by (cases r; cases "eq_execution_set r")
      (simp add: decode_execution_request_def codec_simps plan_back commitment_back started_back
        with_sorted_volumes_def Let_def image_image)
qed

text \<open>C40: A prepared execution survives its payload: decoding what encoding wrote gives the same
  plan, selection, run id, status, commitment and start time, for every request that its
  constructors accept, whose timestamps the ISO format keeps and whose texts hold no two surrogates
  that form a pair; only the frozen set of required volumes comes back listed in its sorted order.\<close>

theorem execution_payload_round_trip:
  assumes "constructed_request up pb r"
    and "list_all unpaired (json_texts (execution_request_json pb r))"
  shows "decode_execution_request up pb (encode_execution_request pb r) = Inr (with_sorted_volumes r)
    \<and> set (pl_required_volumes (xs_plan (eq_execution_set (with_sorted_volumes r))))
       = set (pl_required_volumes (xs_plan (eq_execution_set r)))
    \<and> eq_execution_set r = (eq_execution_set (with_sorted_volumes r))\<lparr>xs_plan := xs_plan (eq_execution_set r)\<rparr>"
  using execution_request_back [OF assms]
  by (simp add: with_sorted_volumes_def Let_def sorted_volumes_def)

definition sample_request :: execution_request where
  "sample_request = \<lparr>eq_execution_set = \<lparr>xs_plan = sample_plan [sample_copy], xs_selection = {sample_id 2},
      xs_run_id = sample_id 9, xs_status = [sample_id 2 \<mapsto> O_SUCCEEDED],
      xs_commitment = Some \<lparr>cm_plan_fingerprint = lit ''p'', cm_selection_digest = replicate 32 171,
        cm_committed_at = \<lparr>dt_micros = 5, dt_utcoffset = Some 0\<rparr>\<rparr>\<rparr>,
    eq_started_at = Some \<lparr>dt_micros = 6, dt_utcoffset = Some 0\<rparr>\<rparr>"

lemma unpaired_low: "\<forall>c \<in> set s. c < 256 \<Longrightarrow> unpaired s"
  by (induction s rule: unpaired.induct) (auto simp: joins_def high_surrogate_def)

lemma unpaired_texts: "unpaired (lit t)" "unpaired (hexdigest bs)" "n < 200 \<Longrightarrow> unpaired (sample_id n)"
proof -
  have "of_char c < (256 :: nat)" for c by (cases c) simp
  then show "unpaired (lit t)" by (intro unpaired_low) (auto simp: lit_def)
  show "unpaired (hexdigest bs)" using hexdigest_digits by (intro unpaired_low) fastforce
  show "unpaired (sample_id n)" if "n < 200" using that by (intro unpaired_low) (simp add: sample_id_def)
qed

lemma json_texts_jobj: "json_texts (jobj kvs) = concat (map (\<lambda>(k, v). lit k # json_texts v) kvs)"
  by (simp add: jobj_def split_def comp_def)

theorem execution_payload_round_trip_witness:
  "decode_execution_request ascii_upper sample_builtins (encode_execution_request sample_builtins sample_request)
     = Inr sample_request"
proof -
  have "constructed_request ascii_upper sample_builtins sample_request"
    by (simp add: sample_request_def constructed_request_def constructed_plan_def constructed_operation_def
        constructed_stat_def constructed_commitment_def eval_samples sample_builtins_def
        root_post_init_def volume_id_post_init_def capability_profile_post_init_def metadata_post_init_def
        file_stat_post_init_def plan_operation_post_init_def validate_optional_def filter_set_post_init_def
        plan_post_init_def execution_set_post_init_def validated_run_id_def commitment_post_init_def
        require_utc_def is_fixed_id_def is_hex_digit_def sample_id_def eval_path list_all_iff)
  moreover have "list_all unpaired (json_texts (execution_request_json sample_builtins sample_request))"
    by (simp add: sample_request_def execution_request_json_def Let_def json_texts_jobj unpaired_texts jopt_def
        payload_plan_def payload_volumes_def payload_volume_def payload_evidence_def payload_profile_def
        payload_root_def payload_operation_def payload_stat_def payload_metadata_def payload_commitment_def
        status_json_def volume_id_json_def capability_profile_json_def metadata_json_def root_json_def
        assignment_json_def preservation_json_def eval_samples sample_builtins_def joins_def high_surrogate_def)
  ultimately have "decode_execution_request ascii_upper sample_builtins
      (encode_execution_request sample_builtins sample_request) = Inr (with_sorted_volumes sample_request)"
    using execution_payload_round_trip by blast
  moreover have "with_sorted_volumes sample_request = sample_request"
    by (simp add: with_sorted_volumes_def sample_request_def sorted_volumes_def sample_plan_def)
  ultimately show ?thesis by simp
qed

end
