(* ===== verification/Spec2Isabelle.thy ===== *)
theory Spec2Isabelle
  imports Preflight_Lemmas Planner_Properties Event_Bus_Lemmas Dispatcher_Properties Executor_Properties
    Verifier_Properties Native_Properties Reader_Properties Scanner_Trees Recording
    Payload_Properties
begin

text \<open>
  Verification of NamiSync, a one-way file mirroring program for Windows (package
  \<^verbatim>\<open>src/namisync\<close>).

  \<^bold>\<open>How the program works.\<close> A sync run scans two directory trees (\<^verbatim>\<open>modules/scanner.py\<close>), plans the
  operations that make the target mirror the source (\<^verbatim>\<open>modules/planner.py\<close>), selects the safe
  subset of the plan (\<^verbatim>\<open>workflows/selection.py\<close>), checks it against a fresh observation
  (\<^verbatim>\<open>modules/preflight.py\<close>), and executes it (\<^verbatim>\<open>modules/executor.py\<close>). Runs are sessions of a
  dispatcher (\<^verbatim>\<open>dispatcher/dispatcher.py\<close>): it holds the mutual exclusion of the volumes a run
  touches (\<^verbatim>\<open>dispatcher/custody.py\<close>), moves each session through a frozen state machine
  (\<^verbatim>\<open>core/session.py\<close>) and publishes its events (\<^verbatim>\<open>core/events.py\<close>, \<^verbatim>\<open>dispatcher/event_bus.py\<close>).

  \<^bold>\<open>Theories and the code they model.\<close>
  \<^item> \<open>Prelude\<close>: strings as lists of code points, exceptions as the left summand of \<^typ>\<open>'a res\<close>,
    ordered dictionaries, splitting and joining, reachability.
  \<^item> \<open>Pathing\<close>: \<^verbatim>\<open>core/pathing.py\<close>; \<^verbatim>\<open>str.upper\<close> is the parameter \<open>up\<close>.
  \<^item> \<open>Models\<close>, \<open>Evidence\<close>, \<open>Execution_Set\<close>: the dataclasses of \<^verbatim>\<open>core/models.py\<close>,
    \<^verbatim>\<open>core/evidence.py\<close> and \<^verbatim>\<open>core/execution.py\<close>; a dataclass is a record and its \<^verbatim>\<open>__post_init__\<close>
    a function that raises or returns unit.
  \<^item> \<open>Canonical_Json\<close>, \<open>Planning\<close>, \<open>Planning_Lemmas\<close>, \<open>Samples\<close>: \<^verbatim>\<open>core/planning.py\<close> with its
    canonical JSON and fingerprints; SHA-256, NFC and \<^verbatim>\<open>fnmatch\<close> are fields of \<^typ>\<open>runtime\<close>.
  \<^item> \<open>Planner\<close>, \<open>Planner_Lemmas\<close>, \<open>Planner_Samples\<close>, \<open>Planner_Properties\<close>: \<^verbatim>\<open>modules/planner.py\<close>.
  \<^item> \<open>Selection\<close>: \<^verbatim>\<open>workflows/selection.py\<close>; \<open>Preflight\<close>, \<open>Preflight_Lemmas\<close>:
    \<^verbatim>\<open>core/preflight.py\<close> and the judgement of \<^verbatim>\<open>modules/preflight.py\<close>.
  \<^item> \<open>Session\<close>: \<^verbatim>\<open>core/session.py\<close>; a workflow is an interaction tree of its calls.
  \<^item> \<open>Events\<close>: \<^verbatim>\<open>core/events.py\<close>; \<open>Event_Bus\<close>, \<open>Event_Bus_Lemmas\<close>: \<^verbatim>\<open>dispatcher/event_bus.py\<close>.
  \<^item> \<open>Custody\<close>: \<^verbatim>\<open>dispatcher/custody.py\<close>; \<open>Dispatcher\<close>: \<^verbatim>\<open>dispatcher/contracts.py\<close>,
    \<^verbatim>\<open>dispatcher/store.py\<close> and \<^verbatim>\<open>dispatcher/dispatcher.py\<close>, one definition per block a thread runs
    without releasing the lock, interleaved by \<open>dispatcher_step\<close>.
  \<^item> \<open>Custody_Protocol\<close>, \<open>Dispatcher_Refinement\<close>, \<open>Dispatcher_Properties\<close>: the abstract custody
    protocol, the simulation of it by the dispatcher, and what follows.
\<close>

end
